(* ===== verification/Prelude.thy ===== *)
theory Prelude
  imports Main "HOL-Library.Word" "HOL-Library.Multiset"
begin

text \<open>
  Shared vocabulary of the development: the machine integer types of the C++ code, the
  \<open>std::expected\<close>/\<open>std::optional\<close> style result types, the condition-variable operations
  used by every blocking component, the drain loop, the saturating 64-bit addition, and the
  generic list lemmas the component theories use.
\<close>

section \<open>Types of the C++ sources\<close>

type_synonym u64 = "64 word"
type_synonym u32 = "32 word"
type_synonym u8 = "8 word"

text \<open>
  \<open>std::expected<T, E>\<close> is the sum \<open>'e + 't\<close> with the error on the left;
  \<open>std::expected<void, E>\<close> uses \<open>unit\<close> on the right.
\<close>

type_synonym ('t, 'e) expected = "'e + 't"

abbreviation unexpected :: "'e \<Rightarrow> ('t, 'e) expected" where
  "unexpected \<equiv> Inl"

abbreviation expected_value :: "'t \<Rightarrow> ('t, 'e) expected" where
  "expected_value \<equiv> Inr"

definition has_value :: "('t, 'e) expected \<Rightarrow> bool" where
  "has_value r = (case r of Inl _ \<Rightarrow> False | Inr _ \<Rightarrow> True)"

lemma has_value_simps [simp]: "has_value (Inl e) = False" "has_value (Inr v) = True"
  by (simp_all add: has_value_def)

text \<open>
  A critical section either runs to its return statement or blocks on a condition variable.
\<close>

datatype 'r entry = Ret 'r | Wait

named_theorems fhss_constants \<open>the values of the protocol constants of the receiver\<close>

section \<open>Condition variables\<close>

text \<open>
  The threads blocked on one \<open>std::condition_variable\<close> are a list of waiters (\<open>asleep\<close>);
  a notified thread moves to \<open>woken\<close> until it has reacquired the mutex. The thread that
  \<open>notify_one\<close> picks is a parameter (the scheduler's choice).
\<close>

definition remove_nth :: "nat \<Rightarrow> 'a list \<Rightarrow> 'a list" where
  "remove_nth i xs = take i xs @ drop (Suc i) xs"

definition notify_one :: "nat \<Rightarrow> 'w list \<times> 'w list \<Rightarrow> 'w list \<times> 'w list" where
  "notify_one i s = (case s of (asleep, woken) \<Rightarrow>
     if asleep = [] then s
     else let j = i mod length asleep
          in (remove_nth j asleep, (asleep ! j) # woken))"

definition notify_all :: "'w list \<times> 'w list \<Rightarrow> 'w list \<times> 'w list" where
  "notify_all s = (case s of (asleep, woken) \<Rightarrow> ([], asleep @ woken))"

lemma length_remove_nth [simp]: "i < length xs \<Longrightarrow> length (remove_nth i xs) = length xs - 1"
  by (simp add: remove_nth_def)

lemma remove_nth_Nil [simp]: "remove_nth i [] = []"
  by (simp add: remove_nth_def)

lemma mset_remove_nth:
  assumes "i < length xs"
  shows "add_mset (xs ! i) (mset (remove_nth i xs)) = mset xs"
proof -
  have "mset xs = mset (take i xs @ xs ! i # drop (Suc i) xs)"
    using assms by (simp add: id_take_nth_drop [symmetric])
  then show ?thesis by (simp add: remove_nth_def)
qed

lemma notify_one_asleep_empty: "fst (notify_one i s) \<noteq> [] \<Longrightarrow> fst s \<noteq> []"
  by (cases s) (auto simp: notify_one_def)

lemma notify_one_woken:
  "fst s \<noteq> [] \<Longrightarrow> length (snd (notify_one i s)) = Suc (length (snd s))"
  by (cases s) (auto simp: notify_one_def Let_def)

lemma notify_all_simps [simp]:
  "fst (notify_all s) = []" "length (snd (notify_all s)) = length (fst s) + length (snd s)"
  by (cases s, simp add: notify_all_def)+

section \<open>The drain loop\<close>

text \<open>
  \<open>while (queue.DequeueNonBlocking(x)) { ... }\<close>: pop until the pop reports an empty
  container, collecting what was popped. Not returning is \<open>None\<close>.
\<close>

partial_function (option) drain_loop ::
    "('q \<Rightarrow> 'e option \<times> 'q) \<Rightarrow> 'q \<Rightarrow> 'e list \<Rightarrow> ('e list \<times> 'q) option" where
  "drain_loop pop q acc =
     (case pop q of
        (None, q') \<Rightarrow> Some (acc, q')
      | (Some x, q') \<Rightarrow> drain_loop pop q' (acc @ [x]))"

declare drain_loop.simps [code]

text \<open>
  The contract a container promises to such a loop: a pop takes the first element of the
  abstract contents, and reports failure exactly when there is none.
\<close>

locale drainable =
  fixes pop :: "'q \<Rightarrow> 'e option \<times> 'q"
    and contents :: "'q \<Rightarrow> 'e list"
  assumes pop_nil: "contents q = [] \<Longrightarrow> fst (pop q) = None \<and> contents (snd (pop q)) = []"
    and pop_cons: "contents q = x # xs \<Longrightarrow> fst (pop q) = Some x \<and> contents (snd (pop q)) = xs"
begin

lemma drain_returns:
  "\<exists>q'. drain_loop pop q acc = Some (acc @ contents q, q') \<and> contents q' = []"
proof (induction "contents q" arbitrary: q acc)
  case Nil
  then show ?case using pop_nil [of q] by (cases "pop q") (auto simp: drain_loop.simps)
next
  case (Cons x xs)
  obtain q1 where p: "pop q = (Some x, q1)" and c: "contents q1 = xs"
    using pop_cons [OF Cons.hyps(2) [symmetric]] by (cases "pop q") auto
  obtain q' where "drain_loop pop q1 (acc @ [x]) = Some ((acc @ [x]) @ contents q1, q')"
    and "contents q' = []"
    using Cons.hyps(1) [of q1 "acc @ [x]"] c by auto
  then show ?case using p c Cons.hyps(2) by (auto simp: drain_loop.simps)
qed

end

text \<open>What every pop keeps, the whole loop keeps.\<close>

lemma drain_loop_keeps:
  assumes "drain_loop pop q acc = Some (xs, q')" and "\<And>q. I q \<Longrightarrow> I (snd (pop q))" and "I q"
  shows "I q'"
proof -
  have "pop = pop \<longrightarrow> I q \<longrightarrow> I (snd (xs, q'))"
  proof (rule drain_loop.raw_induct [of "\<lambda>p q acc r. p = pop \<longrightarrow> I q \<longrightarrow> I (snd r)", OF _ assms(1)],
      intro impI)
    fix f :: "('b \<Rightarrow> 'a option \<times> 'b) \<Rightarrow> 'b \<Rightarrow> 'a list \<Rightarrow> ('a list \<times> 'b) option" and p q acc r
    assume ih: "\<And>p q acc r. f p q acc = Some r \<Longrightarrow> p = pop \<longrightarrow> I q \<longrightarrow> I (snd r)"
      and step: "(case p q of (None, q') \<Rightarrow> Some (acc, q') | (Some x, q') \<Rightarrow> f p q' (acc @ [x])) = Some r"
      and "p = pop" "I q"
    then show "I (snd r)"
      using assms(2) [OF \<open>I q\<close>] ih by (cases "pop q") (auto split: option.splits)
  qed
  with assms(3) show ?thesis by simp
qed

text \<open>A drain that also counts: a successful pop adds one to a tally, a failed one does not.\<close>

locale counting_drain = drainable +
  fixes tally :: "'a \<Rightarrow> 'n :: comm_semiring_1"
  assumes tally_pop: "tally (snd (pop q)) = (if contents q = [] then tally q else tally q + 1)"
begin

lemma drain_counts:
  "\<exists>q'. drain_loop pop q acc = Some (acc @ contents q, q') \<and> contents q' = [] \<and>
     tally q' = tally q + of_nat (length (contents q))"
proof (induction "contents q" arbitrary: q acc)
  case Nil
  then show ?case
    using pop_nil [of q] tally_pop [of q] by (cases "pop q") (auto simp: drain_loop.simps)
next
  case (Cons x xs)
  obtain q1 where p: "pop q = (Some x, q1)" and c: "contents q1 = xs"
    using pop_cons [OF Cons.hyps(2) [symmetric]] by (cases "pop q") auto
  have t: "tally q1 = tally q + 1" using tally_pop [of q] p Cons.hyps(2) [symmetric] by simp
  obtain q' where "drain_loop pop q1 (acc @ [x]) = Some ((acc @ [x]) @ contents q1, q')"
    and "contents q' = []" and "tally q' = tally q1 + of_nat (length (contents q1))"
    using Cons.hyps(1) [of q1 "acc @ [x]"] c by auto
  then show ?case
    using p c t Cons.hyps(2) [symmetric] by (simp add: drain_loop.simps algebra_simps)
qed

end

section \<open>Saturating addition\<close>

text \<open>\<open>uint64_t\<close> values as natural numbers below \<open>2 ^ 64\<close>.\<close>

definition u64_max :: nat where
  "u64_max = 2 ^ 64 - 1"

section \<open>Invariants of step relations\<close>

lemma rtranclp_invariant:
  assumes "R\<^sup>*\<^sup>* a b" and "I a" and "\<And>x y. R x y \<Longrightarrow> I x \<Longrightarrow> I y"
  shows "I b"
  using assms(1,2) by (induction rule: rtranclp_induct) (auto intro: assms(3))

section \<open>Lists\<close>

lemma distinct_snoc [simp]: "distinct (xs @ [x]) \<longleftrightarrow> distinct xs \<and> x \<notin> set xs"
  by auto

lemma nth_snoc_length [simp]: "(xs @ [x]) ! length xs = x"
  by simp

lemma length_filter_update:
  assumes "j < length xs"
  shows "length (filter P (xs[j := w])) + of_bool (P (xs ! j)) =
         length (filter P xs) + of_bool (P w)"
  using assms
proof (induction xs arbitrary: j)
  case Nil
  then show ?case by simp
next
  case (Cons x xs)
  then show ?case by (cases j) auto
qed

section \<open>Decimal numerals\<close>

text \<open>\<open>std::to_string\<close> on an unsigned integer, and the reader that inverts it.\<close>

definition digit_char :: "nat \<Rightarrow> char" where
  "digit_char d = char_of (48 + d)"

fun to_string :: "nat \<Rightarrow> string" where
  "to_string n = (if n < 10 then [digit_char n] else to_string (n div 10) @ [digit_char (n mod 10)])"

declare to_string.simps [simp del]

definition read_digits :: "string \<Rightarrow> nat" where
  "read_digits s = fold (\<lambda>c acc. acc * 10 + (of_char c - 48)) s 0"

lemma of_char_digit: "d < 10 \<Longrightarrow> of_char (digit_char d) = 48 + d"
  by (simp add: digit_char_def)

lemma read_to_string [simp]: "read_digits (to_string n) = n"
proof (induction n rule: to_string.induct)
  case (1 n)
  show ?case
  proof (cases "n < 10")
    case True
    then show ?thesis by (simp add: to_string.simps [of n] read_digits_def of_char_digit)
  next
    case False
    then have "read_digits (to_string n) =
        read_digits (to_string (n div 10)) * 10 + (of_char (digit_char (n mod 10)) - 48)"
      by (subst to_string.simps) (simp add: read_digits_def)
    also have "\<dots> = (n div 10) * 10 + n mod 10"
      using 1 False by (simp add: of_char_digit)
    finally show ?thesis by simp
  qed
qed

lemma inj_to_string: "to_string m = to_string n \<longleftrightarrow> m = n"
  using read_to_string by metis

lemma to_string_nonempty [simp]: "to_string n \<noteq> []"
  by (subst to_string.simps) simp

end
