(* ===== verification/Active_Queue.thy ===== *)
theory Active_Queue
  imports Prelude
begin

text \<open>
  \<open>core::ActiveQueue\<close> (\<open>libgraph/include/core/ActiveQueue.hpp\<close>): the blocking, bounded,
  optionally sorted queue every edge, port and thread pool of the runtime is built on.

  Each public method is one critical section of \<open>mutex_\<close>. A method that can block is split
  at its \<open>condition_variable::wait\<close>: \<open>..._enter\<close> is the code up to the wait (its result is
  \<open>Wait\<close> when the thread blocks), \<open>..._resume\<close> the code after it. Clock readings are
  arguments: \<open>op_ns\<close> and \<open>wait_ns\<close> are the durations the code computes, \<open>started\<close> and
  \<open>wait_started\<close> say whether the corresponding \<open>time_point\<close> was taken (metrics were enabled
  when it was read). Queue sizes are \<open>nat\<close>; the \<open>uint64_t\<close> counters are 64-bit words.
  \<open>Queue_Monitor\<close> composes the operations with the two condition variables.
\<close>

section \<open>State\<close>

record queue_metrics =
  qm_enqueued_count :: u64
  qm_dequeued_count :: u64
  qm_enqueue_rejections :: u64
  qm_dequeue_empty :: u64
  qm_total_enqueue_time_ns :: u64
  qm_total_dequeue_time_ns :: u64
  qm_total_wait_time_ns :: u64
  qm_max_size_observed :: nat
  qm_current_size :: nat

definition zero_metrics :: queue_metrics where
  "zero_metrics = \<lparr>qm_enqueued_count = 0, qm_dequeued_count = 0, qm_enqueue_rejections = 0,
     qm_dequeue_empty = 0, qm_total_enqueue_time_ns = 0, qm_total_dequeue_time_ns = 0,
     qm_total_wait_time_ns = 0, qm_max_size_observed = 0, qm_current_size = 0\<rparr>"

record 'e active_queue =
  q_capacity :: nat
  q_deque :: "'e list"
  q_exit :: bool
  q_block_on_full :: bool
  q_comparator :: "('e \<Rightarrow> 'e \<Rightarrow> bool) option"
  q_metrics_enabled :: bool
  q_metrics :: queue_metrics

definition ActiveQueue :: "nat \<Rightarrow> bool \<Rightarrow> 'e active_queue" where
  "ActiveQueue capacity block_on_full =
     \<lparr>q_capacity = capacity, q_deque = [], q_exit = False, q_block_on_full = block_on_full,
      q_comparator = None, q_metrics_enabled = False, q_metrics = zero_metrics\<rparr>"

section \<open>Pieces the operations share\<close>

text \<open>\<open>if (metrics_enabled_.load()) metrics_.... \<close>\<close>

definition with_metrics ::
    "(queue_metrics \<Rightarrow> queue_metrics) \<Rightarrow> 'e active_queue \<Rightarrow> 'e active_queue" where
  "with_metrics f q = (if q_metrics_enabled q then q\<lparr>q_metrics := f (q_metrics q)\<rparr> else q)"

definition is_full :: "'e active_queue \<Rightarrow> bool" where
  "is_full q \<longleftrightarrow> 0 < q_capacity q \<and> q_capacity q \<le> length (q_deque q)"

text \<open>The wait predicates of \<open>not_full_condition_\<close> and \<open>condition_\<close>.\<close>

definition not_full_predicate :: "'e active_queue \<Rightarrow> bool" where
  "not_full_predicate q \<longleftrightarrow>
     q_exit q \<or> q_capacity q = 0 \<or> length (q_deque q) < q_capacity q"

definition not_empty_predicate :: "'e active_queue \<Rightarrow> bool" where
  "not_empty_predicate q \<longleftrightarrow> q_exit q \<or> q_deque q \<noteq> []"

definition reject_enqueue :: "'e active_queue \<Rightarrow> 'e active_queue" where
  "reject_enqueue q =
     with_metrics (\<lambda>m. m\<lparr>qm_enqueue_rejections := qm_enqueue_rejections m + 1\<rparr>) q"

definition add_wait_time :: "bool \<Rightarrow> u64 \<Rightarrow> 'e active_queue \<Rightarrow> 'e active_queue" where
  "add_wait_time wait_started wait_ns q =
     (if wait_started
      then with_metrics (\<lambda>m. m\<lparr>qm_total_wait_time_ns := qm_total_wait_time_ns m + wait_ns\<rparr>) q
      else q)"

text \<open>The position the sorted insertion stops at: \<open>while (it != end && !comparator(element, *it)) ++it\<close>.\<close>

fun insert_before :: "('e \<Rightarrow> 'e \<Rightarrow> bool) \<Rightarrow> 'e \<Rightarrow> 'e list \<Rightarrow> 'e list" where
  "insert_before cmp x [] = [x]"
| "insert_before cmp x (y # ys) =
     (if cmp x y then x # y # ys else y # insert_before cmp x ys)"

definition insert_element :: "'e \<Rightarrow> 'e active_queue \<Rightarrow> 'e active_queue" where
  "insert_element x q =
     (case q_comparator q of
        Some cmp \<Rightarrow> q\<lparr>q_deque := insert_before cmp x (q_deque q)\<rparr>
      | None \<Rightarrow> q\<lparr>q_deque := q_deque q @ [x]\<rparr>)"

text \<open>The bookkeeping after an insertion; the compare-exchange loop leaves the maximum.\<close>

definition record_enqueue :: "bool \<Rightarrow> u64 \<Rightarrow> 'e active_queue \<Rightarrow> 'e active_queue" where
  "record_enqueue started op_ns q =
     with_metrics (\<lambda>m. m\<lparr>qm_enqueued_count := qm_enqueued_count m + 1,
        qm_current_size := length (q_deque q),
        qm_max_size_observed := max (qm_max_size_observed m) (length (q_deque q)),
        qm_total_enqueue_time_ns :=
          qm_total_enqueue_time_ns m + (if started then op_ns else 0)\<rparr>) q"

definition record_dequeue :: "'e active_queue \<Rightarrow> 'e active_queue" where
  "record_dequeue q =
     with_metrics (\<lambda>m. m\<lparr>qm_dequeued_count := qm_dequeued_count m + 1,
        qm_current_size := length (q_deque q)\<rparr>) q"

section \<open>Enqueueing\<close>

definition ActiveQueue_Enqueue_enter ::
    "bool \<Rightarrow> u64 \<Rightarrow> 'e \<Rightarrow> 'e active_queue \<Rightarrow> (bool \<times> 'e active_queue) entry" where
  "ActiveQueue_Enqueue_enter started op_ns x q =
     (if q_exit q then Ret (False, reject_enqueue q)
      else if is_full q then
        (if q_block_on_full q then Wait else Ret (False, reject_enqueue q))
      else Ret (True, record_enqueue started op_ns (insert_element x q)))"

definition ActiveQueue_Enqueue_resume ::
    "bool \<Rightarrow> bool \<Rightarrow> u64 \<Rightarrow> u64 \<Rightarrow> 'e \<Rightarrow> 'e active_queue \<Rightarrow> bool \<times> 'e active_queue" where
  "ActiveQueue_Enqueue_resume started wait_started wait_ns op_ns x q =
     (let q1 = add_wait_time wait_started wait_ns q in
      if q_exit q1 then (False, reject_enqueue q1)
      else (True, record_enqueue started op_ns (insert_element x q1)))"

text \<open>
  The timed variant always waits when full. Its \<open>wait_until\<close> returns the value of the
  predicate, whether it was woken or the deadline passed.
\<close>

definition ActiveQueue_EnqueueUntil_enter ::
    "bool \<Rightarrow> u64 \<Rightarrow> 'e \<Rightarrow> 'e active_queue \<Rightarrow> (bool \<times> 'e active_queue) entry" where
  "ActiveQueue_EnqueueUntil_enter started op_ns x q =
     (if q_exit q then Ret (False, reject_enqueue q)
      else if is_full q then Wait
      else Ret (True, record_enqueue started op_ns (insert_element x q)))"

definition ActiveQueue_EnqueueUntil_resume ::
    "bool \<Rightarrow> bool \<Rightarrow> u64 \<Rightarrow> u64 \<Rightarrow> 'e \<Rightarrow> 'e active_queue \<Rightarrow> bool \<times> 'e active_queue" where
  "ActiveQueue_EnqueueUntil_resume started wait_started wait_ns op_ns x q =
     (let has_space = not_full_predicate q;
          q1 = add_wait_time wait_started wait_ns q in
      if \<not> has_space \<or> q_exit q1 then (False, reject_enqueue q1)
      else (True, record_enqueue started op_ns (insert_element x q1)))"

definition ActiveQueue_Emplace_enter ::
    "bool \<Rightarrow> u64 \<Rightarrow> 'e \<Rightarrow> 'e active_queue \<Rightarrow> (bool \<times> 'e active_queue) entry" where
  "ActiveQueue_Emplace_enter started op_ns x q =
     (if q_exit q then Ret (False, reject_enqueue q)
      else if is_full q then
        (if q_block_on_full q then Wait else Ret (False, reject_enqueue q))
      else Ret (True, record_enqueue started op_ns (q\<lparr>q_deque := q_deque q @ [x]\<rparr>)))"

definition ActiveQueue_Emplace_resume ::
    "bool \<Rightarrow> bool \<Rightarrow> u64 \<Rightarrow> u64 \<Rightarrow> 'e \<Rightarrow> 'e active_queue \<Rightarrow> bool \<times> 'e active_queue" where
  "ActiveQueue_Emplace_resume started wait_started wait_ns op_ns x q =
     (let q1 = add_wait_time wait_started wait_ns q in
      if q_exit q1 then (False, reject_enqueue q1)
      else (True, record_enqueue started op_ns (q1\<lparr>q_deque := q_deque q1 @ [x]\<rparr>)))"

definition ActiveQueue_PushFront_enter ::
    "bool \<Rightarrow> u64 \<Rightarrow> 'e \<Rightarrow> 'e active_queue \<Rightarrow> (bool \<times> 'e active_queue) entry" where
  "ActiveQueue_PushFront_enter started op_ns x q =
     (if q_exit q then Ret (False, reject_enqueue q)
      else if is_full q then
        (if q_block_on_full q then Wait else Ret (False, reject_enqueue q))
      else Ret (True, record_enqueue started op_ns (q\<lparr>q_deque := x # q_deque q\<rparr>)))"

definition ActiveQueue_PushFront_resume ::
    "bool \<Rightarrow> bool \<Rightarrow> u64 \<Rightarrow> u64 \<Rightarrow> 'e \<Rightarrow> 'e active_queue \<Rightarrow> bool \<times> 'e active_queue" where
  "ActiveQueue_PushFront_resume started wait_started wait_ns op_ns x q =
     (let q1 = add_wait_time wait_started wait_ns q in
      if q_exit q1 then (False, reject_enqueue q1)
      else (True, record_enqueue started op_ns (q1\<lparr>q_deque := x # q_deque q1\<rparr>)))"

section \<open>Dequeueing\<close>

definition ActiveQueue_DequeueNonBlocking ::
    "'e active_queue \<Rightarrow> 'e option \<times> 'e active_queue" where
  "ActiveQueue_DequeueNonBlocking q =
     (case q_deque q of
        [] \<Rightarrow> (None, with_metrics (\<lambda>m. m\<lparr>qm_dequeue_empty := qm_dequeue_empty m + 1\<rparr>) q)
      | x # xs \<Rightarrow> (Some x, record_dequeue (q\<lparr>q_deque := xs\<rparr>)))"

definition ActiveQueue_PopBack :: "'e active_queue \<Rightarrow> 'e option \<times> 'e active_queue" where
  "ActiveQueue_PopBack q =
     (if q_deque q = [] then
        (None, with_metrics (\<lambda>m. m\<lparr>qm_dequeue_empty := qm_dequeue_empty m + 1\<rparr>) q)
      else (Some (last (q_deque q)), record_dequeue (q\<lparr>q_deque := butlast (q_deque q)\<rparr>)))"

text \<open>The code of \<open>Dequeue\<close> after its wait: disabling takes priority over queued elements.\<close>

definition ActiveQueue_Dequeue_resume ::
    "bool \<Rightarrow> bool \<Rightarrow> u64 \<Rightarrow> u64 \<Rightarrow> 'e active_queue \<Rightarrow> 'e option \<times> 'e active_queue" where
  "ActiveQueue_Dequeue_resume started wait_started wait_ns op_ns q =
     (let q1 = add_wait_time wait_started wait_ns q in
      if q_exit q1 then (None, q1)
      else case q_deque q1 of
        [] \<Rightarrow> (None, q1)
      | x # xs \<Rightarrow> (Some x,
          with_metrics (\<lambda>m. m\<lparr>qm_dequeued_count := qm_dequeued_count m + 1,
            qm_current_size := length xs,
            qm_total_dequeue_time_ns :=
              qm_total_dequeue_time_ns m + (if started then op_ns else 0)\<rparr>)
            (q1\<lparr>q_deque := xs\<rparr>)))"

definition ActiveQueue_Dequeue_enter ::
    "bool \<Rightarrow> bool \<Rightarrow> u64 \<Rightarrow> u64 \<Rightarrow> 'e active_queue \<Rightarrow> ('e option \<times> 'e active_queue) entry" where
  "ActiveQueue_Dequeue_enter started wait_started wait_ns op_ns q =
     (if not_empty_predicate q
      then Ret (ActiveQueue_Dequeue_resume started wait_started wait_ns op_ns q)
      else Wait)"

section \<open>Control and observation\<close>

definition ActiveQueue_Disable :: "'e active_queue \<Rightarrow> 'e active_queue" where
  "ActiveQueue_Disable q = q\<lparr>q_exit := True\<rparr>"

definition ActiveQueue_Enable :: "'e active_queue \<Rightarrow> 'e active_queue" where
  "ActiveQueue_Enable q = q\<lparr>q_exit := False\<rparr>"

text \<open>The second component: whether \<open>not_full_condition_.notify_all()\<close> is called.\<close>

definition ActiveQueue_SetCapacity :: "nat \<Rightarrow> 'e active_queue \<Rightarrow> 'e active_queue \<times> bool" where
  "ActiveQueue_SetCapacity new_capacity q =
     (let q' = q\<lparr>q_capacity := new_capacity\<rparr>
      in (q', q_capacity q' = 0 \<or> length (q_deque q') < q_capacity q'))"

definition ActiveQueue_Clear :: "'e active_queue \<Rightarrow> 'e active_queue \<times> bool" where
  "ActiveQueue_Clear q =
     (with_metrics (\<lambda>m. m\<lparr>qm_current_size := 0\<rparr>) (q\<lparr>q_deque := []\<rparr>),
      0 < q_capacity q \<and> q_deque q \<noteq> [])"

definition ActiveQueue_SetBlockOnFull :: "bool \<Rightarrow> 'e active_queue \<Rightarrow> bool \<times> 'e active_queue" where
  "ActiveQueue_SetBlockOnFull b q =
     (if q_deque q \<noteq> [] then (False, q) else (True, q\<lparr>q_block_on_full := b\<rparr>))"

definition ActiveQueue_SetComparator ::
    "('e \<Rightarrow> 'e \<Rightarrow> bool) option \<Rightarrow> 'e active_queue \<Rightarrow> 'e active_queue" where
  "ActiveQueue_SetComparator cmp q = q\<lparr>q_comparator := cmp\<rparr>"

definition ActiveQueue_EnableMetrics :: "bool \<Rightarrow> 'e active_queue \<Rightarrow> 'e active_queue" where
  "ActiveQueue_EnableMetrics b q = q\<lparr>q_metrics_enabled := b\<rparr>"

definition ActiveQueue_ResetMetrics :: "'e active_queue \<Rightarrow> 'e active_queue" where
  "ActiveQueue_ResetMetrics q = q\<lparr>q_metrics := zero_metrics\<rparr>"

definition ActiveQueue_Size :: "'e active_queue \<Rightarrow> nat" where
  "ActiveQueue_Size q = length (q_deque q)"

definition ActiveQueue_Empty :: "'e active_queue \<Rightarrow> bool" where
  "ActiveQueue_Empty q \<longleftrightarrow> q_deque q = []"

definition ActiveQueue_Enabled :: "'e active_queue \<Rightarrow> bool" where
  "ActiveQueue_Enabled q \<longleftrightarrow> \<not> q_exit q"

definition ActiveQueue_Front :: "'e active_queue \<Rightarrow> 'e option" where
  "ActiveQueue_Front q = (case q_deque q of [] \<Rightarrow> None | x # _ \<Rightarrow> Some x)"

definition ActiveQueue_Back :: "'e active_queue \<Rightarrow> 'e option" where
  "ActiveQueue_Back q = (if q_deque q = [] then None else Some (last (q_deque q)))"

definition ActiveQueue_At :: "nat \<Rightarrow> 'e active_queue \<Rightarrow> 'e option" where
  "ActiveQueue_At i q = (if length (q_deque q) \<le> i then None else Some (q_deque q ! i))"

section \<open>All critical sections as one step function\<close>

text \<open>
  The four inserting methods share their protocol; \<open>push_enter\<close> and \<open>push_resume\<close> dispatch
  on the method. A \<open>queue_op\<close> is one critical section of a run of the queue.
\<close>

datatype push_kind = KEnqueue | KEnqueueUntil | KEmplace | KPushFront

fun push_enter ::
    "push_kind \<Rightarrow> bool \<Rightarrow> u64 \<Rightarrow> 'e \<Rightarrow> 'e active_queue \<Rightarrow> (bool \<times> 'e active_queue) entry" where
  "push_enter KEnqueue = ActiveQueue_Enqueue_enter"
| "push_enter KEnqueueUntil = ActiveQueue_EnqueueUntil_enter"
| "push_enter KEmplace = ActiveQueue_Emplace_enter"
| "push_enter KPushFront = ActiveQueue_PushFront_enter"

fun push_resume ::
    "push_kind \<Rightarrow> bool \<Rightarrow> bool \<Rightarrow> u64 \<Rightarrow> u64 \<Rightarrow> 'e \<Rightarrow> 'e active_queue \<Rightarrow> bool \<times> 'e active_queue" where
  "push_resume KEnqueue = ActiveQueue_Enqueue_resume"
| "push_resume KEnqueueUntil = ActiveQueue_EnqueueUntil_resume"
| "push_resume KEmplace = ActiveQueue_Emplace_resume"
| "push_resume KPushFront = ActiveQueue_PushFront_resume"

datatype 'e queue_op =
    Push push_kind bool u64 'e
  | PushResume push_kind bool bool u64 u64 'e
  | PopFrontNB
  | PopBackNB
  | Deq bool bool u64 u64
  | DisableQ
  | EnableQ
  | SetCapacityQ nat
  | SetBlockOnFullQ bool
  | SetComparatorQ "('e \<Rightarrow> 'e \<Rightarrow> bool) option"
  | ClearQ
  | EnableMetricsQ bool
  | ResetMetricsQ

text \<open>
  A blocked thread changes nothing. A resumed push runs only once its wait has returned:
  the predicate holds, or, for the timed method, the deadline has passed.
\<close>

fun apply_op :: "'e queue_op \<Rightarrow> 'e active_queue \<Rightarrow> 'e active_queue" where
  "apply_op (Push k st ns x) q =
     (case push_enter k st ns x q of Ret (_, q') \<Rightarrow> q' | Wait \<Rightarrow> q)"
| "apply_op (PushResume k st ws wns ns x) q =
     (if not_full_predicate q \<or> k = KEnqueueUntil then snd (push_resume k st ws wns ns x q) else q)"
| "apply_op PopFrontNB q = snd (ActiveQueue_DequeueNonBlocking q)"
| "apply_op PopBackNB q = snd (ActiveQueue_PopBack q)"
| "apply_op (Deq st ws wns ns) q =
     (case ActiveQueue_Dequeue_enter st ws wns ns q of Ret (_, q') \<Rightarrow> q' | Wait \<Rightarrow> q)"
| "apply_op DisableQ q = ActiveQueue_Disable q"
| "apply_op EnableQ q = ActiveQueue_Enable q"
| "apply_op (SetCapacityQ c) q = fst (ActiveQueue_SetCapacity c q)"
| "apply_op (SetBlockOnFullQ b) q = snd (ActiveQueue_SetBlockOnFull b q)"
| "apply_op (SetComparatorQ c) q = ActiveQueue_SetComparator c q"
| "apply_op ClearQ q = fst (ActiveQueue_Clear q)"
| "apply_op (EnableMetricsQ b) q = ActiveQueue_EnableMetrics b q"
| "apply_op ResetMetricsQ q = ActiveQueue_ResetMetrics q"

fun apply_ops :: "'e queue_op list \<Rightarrow> 'e active_queue \<Rightarrow> 'e active_queue" where
  "apply_ops [] q = q"
| "apply_ops (p # ps) q = apply_ops ps (apply_op p q)"

section \<open>Frame lemmas\<close>

lemma with_metrics_simps [simp]:
  "q_capacity (with_metrics f q) = q_capacity q"
  "q_deque (with_metrics f q) = q_deque q"
  "q_exit (with_metrics f q) = q_exit q"
  "q_block_on_full (with_metrics f q) = q_block_on_full q"
  "q_comparator (with_metrics f q) = q_comparator q"
  "q_metrics_enabled (with_metrics f q) = q_metrics_enabled q"
  "q_metrics (with_metrics f q) =
     (if q_metrics_enabled q then f (q_metrics q) else q_metrics q)"
  by (simp_all add: with_metrics_def)

lemma is_full_with_metrics [simp]: "is_full (with_metrics f q) = is_full q"
  by (simp add: is_full_def)

lemma not_full_predicate_iff: "not_full_predicate q \<longleftrightarrow> q_exit q \<or> \<not> is_full q"
  by (auto simp: not_full_predicate_def is_full_def)

lemma add_wait_time_simps [simp]:
  "q_capacity (add_wait_time w n q) = q_capacity q"
  "q_deque (add_wait_time w n q) = q_deque q"
  "q_exit (add_wait_time w n q) = q_exit q"
  "q_block_on_full (add_wait_time w n q) = q_block_on_full q"
  "q_comparator (add_wait_time w n q) = q_comparator q"
  "q_metrics_enabled (add_wait_time w n q) = q_metrics_enabled q"
  by (simp_all add: add_wait_time_def)

lemma reject_enqueue_simps [simp]:
  "q_capacity (reject_enqueue q) = q_capacity q"
  "q_deque (reject_enqueue q) = q_deque q"
  "q_exit (reject_enqueue q) = q_exit q"
  "q_block_on_full (reject_enqueue q) = q_block_on_full q"
  "q_comparator (reject_enqueue q) = q_comparator q"
  "q_metrics_enabled (reject_enqueue q) = q_metrics_enabled q"
  by (simp_all add: reject_enqueue_def)

lemma record_enqueue_simps [simp]:
  "q_capacity (record_enqueue s n q) = q_capacity q"
  "q_deque (record_enqueue s n q) = q_deque q"
  "q_exit (record_enqueue s n q) = q_exit q"
  "q_block_on_full (record_enqueue s n q) = q_block_on_full q"
  "q_comparator (record_enqueue s n q) = q_comparator q"
  "q_metrics_enabled (record_enqueue s n q) = q_metrics_enabled q"
  by (simp_all add: record_enqueue_def)

lemma record_dequeue_simps [simp]:
  "q_capacity (record_dequeue q) = q_capacity q"
  "q_deque (record_dequeue q) = q_deque q"
  "q_exit (record_dequeue q) = q_exit q"
  "q_block_on_full (record_dequeue q) = q_block_on_full q"
  "q_comparator (record_dequeue q) = q_comparator q"
  "q_metrics_enabled (record_dequeue q) = q_metrics_enabled q"
  by (simp_all add: record_dequeue_def)

lemma length_insert_before [simp]: "length (insert_before cmp x xs) = Suc (length xs)"
  by (induction xs) auto

lemma mset_insert_before [simp]: "mset (insert_before cmp x xs) = add_mset x (mset xs)"
  by (induction xs) auto

lemma insert_element_simps [simp]:
  "q_capacity (insert_element x q) = q_capacity q"
  "length (q_deque (insert_element x q)) = Suc (length (q_deque q))"
  "mset (q_deque (insert_element x q)) = add_mset x (mset (q_deque q))"
  "q_exit (insert_element x q) = q_exit q"
  "q_block_on_full (insert_element x q) = q_block_on_full q"
  "q_comparator (insert_element x q) = q_comparator q"
  "q_metrics_enabled (insert_element x q) = q_metrics_enabled q"
  "q_metrics (insert_element x q) = q_metrics q"
  by (simp_all add: insert_element_def split: option.split)

lemmas push_defs = ActiveQueue_Enqueue_enter_def ActiveQueue_Enqueue_resume_def
  ActiveQueue_EnqueueUntil_enter_def ActiveQueue_EnqueueUntil_resume_def
  ActiveQueue_Emplace_enter_def ActiveQueue_Emplace_resume_def
  ActiveQueue_PushFront_enter_def ActiveQueue_PushFront_resume_def

lemmas pop_defs = ActiveQueue_DequeueNonBlocking_def ActiveQueue_PopBack_def
  ActiveQueue_Dequeue_resume_def ActiveQueue_Dequeue_enter_def

lemmas control_defs = ActiveQueue_Disable_def ActiveQueue_Enable_def
  ActiveQueue_SetCapacity_def ActiveQueue_SetBlockOnFull_def ActiveQueue_SetComparator_def
  ActiveQueue_Clear_def ActiveQueue_EnableMetrics_def ActiveQueue_ResetMetrics_def

text \<open>What a push does to the queue, whatever the method: the shape the monitor needs.\<close>

lemma push_enter_accept:
  assumes "push_enter k st ns x q = Ret (True, q')"
  shows "\<not> q_exit q \<and> \<not> is_full q \<and> length (q_deque q') = Suc (length (q_deque q)) \<and>
    q_capacity q' = q_capacity q \<and> \<not> q_exit q' \<and>
    mset (q_deque q') = add_mset x (mset (q_deque q))"
  using assms by (cases k) (auto simp: push_defs split: if_splits)

lemma push_enter_refuse:
  assumes "push_enter k st ns x q = Ret (False, q')"
  shows "q_deque q' = q_deque q \<and> q_capacity q' = q_capacity q \<and> q_exit q' = q_exit q \<and>
    (q_exit q \<or> is_full q)"
  using assms by (cases k) (auto simp: push_defs split: if_splits)

lemma push_enter_wait:
  assumes "push_enter k st ns x q = Wait"
  shows "\<not> q_exit q \<and> is_full q"
  using assms by (cases k) (auto simp: push_defs split: if_splits)

lemma push_resume_accept:
  assumes "push_resume k st ws wns ns x q = (True, q')"
    and "not_full_predicate q \<or> k = KEnqueueUntil"
  shows "\<not> q_exit q \<and> \<not> is_full q \<and> length (q_deque q') = Suc (length (q_deque q)) \<and>
    q_capacity q' = q_capacity q \<and> \<not> q_exit q' \<and>
    mset (q_deque q') = add_mset x (mset (q_deque q))"
  using assms
  by (cases k) (auto simp: push_defs Let_def not_full_predicate_iff split: if_splits)

lemma push_resume_refuse:
  assumes "push_resume k st ws wns ns x q = (False, q')"
  shows "q_deque q' = q_deque q \<and> q_capacity q' = q_capacity q \<and> q_exit q' = q_exit q \<and>
    (q_exit q \<or> is_full q)"
  using assms
  by (cases k) (auto simp: push_defs Let_def not_full_predicate_iff split: if_splits)

section \<open>Draining\<close>

interpretation front_drain: drainable ActiveQueue_DequeueNonBlocking q_deque
  by unfold_locales (auto simp: pop_defs)

interpretation back_drain: drainable ActiveQueue_PopBack "\<lambda>q. rev (q_deque q)"
  by unfold_locales (auto simp: pop_defs rev_eq_Cons_iff)

text \<open>
  The shutdown idiom the class documents, \<open>Disable(); while (DequeueNonBlocking(x)) ...\<close>,
  always ends; it hands out every queued element exactly once, front first, and leaves the
  queue empty.
\<close>

theorem disable_then_drain:
  "\<exists>q'. drain_loop ActiveQueue_DequeueNonBlocking (ActiveQueue_Disable q) [] =
        Some (q_deque q, q') \<and> q_deque q' = []"
  using front_drain.drain_returns [of "ActiveQueue_Disable q" "[]"]
  by (simp add: ActiveQueue_Disable_def)

section \<open>Order of the elements\<close>

text \<open>What one critical section accepts and what it hands out.\<close>

fun accepted_by :: "'e queue_op \<Rightarrow> 'e active_queue \<Rightarrow> 'e list" where
  "accepted_by (Push k st ns x) q =
     (case push_enter k st ns x q of Ret (True, _) \<Rightarrow> [x] | _ \<Rightarrow> [])"
| "accepted_by (PushResume k st ws wns ns x) q =
     (if (not_full_predicate q \<or> k = KEnqueueUntil) \<and> fst (push_resume k st ws wns ns x q)
      then [x] else [])"
| "accepted_by _ q = []"

fun removed_by :: "'e queue_op \<Rightarrow> 'e active_queue \<Rightarrow> 'e list" where
  "removed_by PopFrontNB q =
     (case fst (ActiveQueue_DequeueNonBlocking q) of Some x \<Rightarrow> [x] | None \<Rightarrow> [])"
| "removed_by (Deq st ws wns ns) q =
     (case ActiveQueue_Dequeue_enter st ws wns ns q of
        Ret (Some x, _) \<Rightarrow> [x] | _ \<Rightarrow> [])"
| "removed_by _ q = []"

fun accepted :: "'e queue_op list \<Rightarrow> 'e active_queue \<Rightarrow> 'e list" where
  "accepted [] q = []"
| "accepted (p # ps) q = accepted_by p q @ accepted ps (apply_op p q)"

fun removed :: "'e queue_op list \<Rightarrow> 'e active_queue \<Rightarrow> 'e list" where
  "removed [] q = []"
| "removed (p # ps) q = removed_by p q @ removed ps (apply_op p q)"

fun fifo_op :: "'e queue_op \<Rightarrow> bool" where
  "fifo_op (Push k _ _ _) = (k \<noteq> KPushFront)"
| "fifo_op (PushResume k _ _ _ _ _) = (k \<noteq> KPushFront)"
| "fifo_op PopBackNB = False"
| "fifo_op ClearQ = False"
| "fifo_op (SetComparatorQ c) = (c = None)"
| "fifo_op _ = True"

lemma apply_op_comparator:
  "fifo_op p \<Longrightarrow> q_comparator q = None \<Longrightarrow> q_comparator (apply_op p q) = None"
proof (induction p q rule: apply_op.induct)
  case (1 k st ns x q)
  then show ?case by (cases k) (auto simp: push_defs split: if_splits)
next
  case (2 k st ws wns ns x q)
  then show ?case by (cases k) (auto simp: push_defs Let_def split: if_splits)
qed (auto simp: pop_defs control_defs Let_def split: list.splits if_splits)

lemma fifo_step:
  assumes "fifo_op p" "q_comparator q = None"
  shows "q_deque q @ accepted_by p q = removed_by p q @ q_deque (apply_op p q)"
proof (cases p)
  case (Push k st ns x)
  then show ?thesis using assms
    by (cases k) (auto simp: push_defs insert_element_def split: if_splits)
next
  case (PushResume k st ws wns ns x)
  then show ?thesis using assms
    by (cases k) (auto simp: push_defs insert_element_def Let_def split: if_splits)
qed (use assms in \<open>auto simp: pop_defs control_defs Let_def split: list.splits if_splits\<close>)

text \<open>
  C3. FIFO order over whole histories. For a queue without a comparator, and any sequence of
  critical sections that neither uses \<open>PushFront\<close>, \<open>PopBack\<close> and \<open>Clear\<close> nor installs a comparator (rejections,
  blocked and resumed calls, disabling, re-enabling and capacity changes included), the
  initial contents followed by the accepted elements are exactly the elements handed out, in
  order, followed by what is still queued: nothing is lost, duplicated or reordered.
\<close>

theorem fifo_history:
  assumes "q_comparator q = None" and "list_all fifo_op ps"
  shows "q_deque q @ accepted ps q = removed ps q @ q_deque (apply_ops ps q)"
  using assms
proof (induction ps arbitrary: q)
  case Nil
  then show ?case by simp
next
  case (Cons p ps)
  have "q_deque q @ accepted_by p q = removed_by p q @ q_deque (apply_op p q)"
    using Cons.prems by (intro fifo_step) auto
  moreover have "q_deque (apply_op p q) @ accepted ps (apply_op p q) =
      removed ps (apply_op p q) @ q_deque (apply_ops ps (apply_op p q))"
    using Cons.prems by (intro Cons.IH apply_op_comparator) auto
  ultimately show ?case by (simp flip: append_assoc) simp
qed

theorem fifo_history_witness:
  "let ps = [Push KEnqueue False 0 (1::nat), Push KEmplace False 0 2, PopFrontNB,
             Push KEnqueue False 0 3, Push KEnqueue False 0 4]
   in accepted ps (ActiveQueue 2 False) = [1, 2, 3] \<and>
      removed ps (ActiveQueue 2 False) = [1] \<and>
      q_deque (ActiveQueue 2 False) @ accepted ps (ActiveQueue 2 False) =
        removed ps (ActiveQueue 2 False) @ q_deque (apply_ops ps (ActiveQueue 2 False))"
  using fifo_history [of "ActiveQueue 2 False" "[Push KEnqueue False 0 (1::nat),
      Push KEmplace False 0 2, PopFrontNB, Push KEnqueue False 0 3, Push KEnqueue False 0 4]"]
  by (simp add: ActiveQueue_def push_defs pop_defs insert_element_def is_full_def Let_def)

text \<open>
  Sorted insertion. A comparator is a strict weak order; the queue is sorted when no element
  is preceded by one that should come after it.
\<close>

definition strict_weak :: "('e \<Rightarrow> 'e \<Rightarrow> bool) \<Rightarrow> bool" where
  "strict_weak cmp \<longleftrightarrow> (\<forall>x. \<not> cmp x x) \<and> (\<forall>x y z. cmp x y \<longrightarrow> cmp y z \<longrightarrow> cmp x z) \<and>
     (\<forall>x y z. \<not> cmp x y \<longrightarrow> \<not> cmp y z \<longrightarrow> \<not> cmp x z)"

definition queue_sorted :: "('e \<Rightarrow> 'e \<Rightarrow> bool) \<Rightarrow> 'e list \<Rightarrow> bool" where
  "queue_sorted cmp xs \<longleftrightarrow> sorted_wrt (\<lambda>a b. \<not> cmp b a) xs"

lemma strict_weak_head:
  assumes "strict_weak cmp" "cmp x y" "\<not> cmp z y"
  shows "cmp x z"
  using assms unfolding strict_weak_def by blast

lemma insert_before_filter:
  assumes "strict_weak cmp" "queue_sorted cmp xs"
  shows "insert_before cmp x xs = filter (\<lambda>y. \<not> cmp x y) xs @ x # filter (cmp x) xs"
  using assms(2)
proof (induction xs)
  case Nil
  then show ?case by simp
next
  case (Cons y ys)
  show ?case
  proof (cases "cmp x y")
    case True
    have "\<forall>z \<in> set ys. cmp x z"
      using Cons.prems True strict_weak_head [OF assms(1) True] by (auto simp: queue_sorted_def)
    then have "filter (\<lambda>y. \<not> cmp x y) ys = []" and "filter (cmp x) ys = ys"
      by (auto simp: filter_empty_conv filter_id_conv)
    then show ?thesis using True by simp
  next
    case False
    then show ?thesis using Cons by (simp add: queue_sorted_def)
  qed
qed

lemma queue_sorted_insert_before:
  assumes "strict_weak cmp" "queue_sorted cmp xs"
  shows "queue_sorted cmp (insert_before cmp x xs)"
proof -
  have trans: "\<And>a b c. cmp a b \<Longrightarrow> cmp b c \<Longrightarrow> cmp a c" and irr: "\<And>a. \<not> cmp a a"
    using assms(1) unfolding strict_weak_def by blast+
  have "sorted_wrt (\<lambda>a b. \<not> cmp b a) (filter P xs)" for P
    using assms(2) by (simp add: queue_sorted_def sorted_wrt_filter)
  moreover have "\<forall>z \<in> set (filter (cmp x) xs). \<not> cmp z x"
    using trans irr by fastforce
  moreover have "\<forall>y \<in> set (filter (\<lambda>y. \<not> cmp x y) xs).
      \<forall>z \<in> set (x # filter (cmp x) xs). \<not> cmp z y"
    using trans by fastforce
  ultimately show ?thesis
    unfolding insert_before_filter [OF assms] queue_sorted_def sorted_wrt_append sorted_wrt.simps
    by blast
qed

text \<open>
  C4. With a strict weak order installed, an \<open>Enqueue\<close> that is accepted keeps the queue
  sorted and is stable: the new element goes after every element it does not have to precede
  and before every other one, and the relative order of the others is unchanged.
\<close>

theorem enqueue_sorted_stable:
  assumes "strict_weak cmp" and "q_comparator q = Some cmp" and "queue_sorted cmp (q_deque q)"
    and "ActiveQueue_Enqueue_enter st ns x q = Ret (True, q')"
  shows "queue_sorted cmp (q_deque q') \<and>
    q_deque q' = filter (\<lambda>y. \<not> cmp x y) (q_deque q) @ x # filter (cmp x) (q_deque q)"
proof -
  have "q_deque q' = insert_before cmp x (q_deque q)"
    using assms(2,4) by (auto simp: push_defs insert_element_def split: if_splits)
  then show ?thesis
    using assms(1,3) queue_sorted_insert_before insert_before_filter by metis
qed

theorem enqueue_sorted_stable_witness:
  "\<exists>q'. ActiveQueue_Enqueue_enter False 0 (2::nat)
          ((ActiveQueue 0 False)\<lparr>q_comparator := Some (<), q_deque := [1, 2, 3]\<rparr>) = Ret (True, q') \<and>
        queue_sorted (<) (q_deque q') \<and> q_deque q' = [1, 2, 2, 3]"
proof -
  let ?q = "(ActiveQueue 0 False)\<lparr>q_comparator := Some (<), q_deque := [1, 2, 3::nat]\<rparr>"
  obtain q' where e: "ActiveQueue_Enqueue_enter False 0 2 ?q = Ret (True, q')"
    by (simp add: push_defs is_full_def ActiveQueue_def)
  have "strict_weak ((<) :: nat \<Rightarrow> nat \<Rightarrow> bool)" by (auto simp: strict_weak_def)
  then show ?thesis
    using e enqueue_sorted_stable [of "(<)" ?q False 0 2 q'] by (simp add: queue_sorted_def)
qed

section \<open>Capacity and counters\<close>

text \<open>The capacities that a sequence of critical sections sets.\<close>

fun set_capacities :: "'e queue_op list \<Rightarrow> nat list" where
  "set_capacities [] = []"
| "set_capacities (SetCapacityQ c # ps) = c # set_capacities ps"
| "set_capacities (_ # ps) = set_capacities ps"

lemma capacity_step:
  assumes "q_capacity q \<in> {1..n}" and "length (q_deque q) \<le> n" and "set (set_capacities [p]) \<subseteq> {1..n}"
  shows "q_capacity (apply_op p q) \<in> {1..n} \<and> length (q_deque (apply_op p q)) \<le> n"
  using assms
proof (induction p q rule: apply_op.induct)
  case (1 k st ns x q)
  then show ?case
    by (cases k) (auto simp: push_defs is_full_def split: if_splits)
next
  case (2 k st ws wns ns x q)
  then show ?case
    by (cases k) (auto simp: push_defs not_full_predicate_def Let_def split: if_splits)
qed (auto simp: pop_defs control_defs Let_def split: list.splits)

lemma set_capacities_Cons: "set_capacities (p # ps) = set_capacities [p] @ set_capacities ps"
  by (cases p) simp_all

text \<open>
  C5. A bounded queue never holds more elements than its capacity allows. Starting from a new queue
  with a positive capacity, no interleaving of critical sections, \<open>SetCapacity\<close> included, takes the
  size beyond the largest capacity set so far; in particular not beyond the initial capacity if it
  is not changed. (Lowering the capacity drops no elements, so the current capacity can be exceeded;
  the capacity 0, which means no bound, is excluded.)
\<close>

theorem capacity_respected:
  assumes "0 < cap" and "0 \<notin> set (set_capacities ps)"
  shows "length (q_deque (apply_ops ps (ActiveQueue cap block))) \<le> Max (set (cap # set_capacities ps))"
proof -
  let ?n = "Max (set (cap # set_capacities ps))"
  have caps: "set (cap # set_capacities ps) \<subseteq> {1..?n}"
  proof
    fix x
    assume "x \<in> set (cap # set_capacities ps)"
    moreover from this have "x \<noteq> 0" using assms by (metis less_irrefl set_ConsD)
    ultimately show "x \<in> {1..?n}" by (simp del: set_simps Max_insert)
  qed
  have "length (q_deque (apply_ops qs q)) \<le> ?n"
    if "q_capacity q \<in> {1..?n}" "length (q_deque q) \<le> ?n" "set (set_capacities qs) \<subseteq> {1..?n}" for qs q
    using that
  proof (induction qs arbitrary: q)
    case (Cons p qs)
    then show ?case
      using capacity_step [of q ?n p] set_capacities_Cons [of p qs] by auto
  qed simp
  from this [of "ActiveQueue cap block" ps] caps show ?thesis by (simp add: ActiveQueue_def)
qed

theorem capacity_respected_witness:
  "length (q_deque (apply_ops [Push KEnqueue False 0 (1::nat), SetCapacityQ 2, Push KPushFront False 0 2]
     (ActiveQueue 1 True))) \<le> 2"
  using capacity_respected [of 1 "[Push KEnqueue False 0 (1::nat), SetCapacityQ 2, Push KPushFront False 0 2]" True]
  by simp

text \<open>Lowering the capacity below the size leaves the elements.\<close>

lemma lowered_capacity_is_exceeded:
  "let q = apply_ops [Push KEnqueue False 0 (1::nat), Push KEnqueue False 0 2, SetCapacityQ 1] (ActiveQueue 2 True)
   in q_capacity q = 1 \<and> length (q_deque q) = 2"
  by (simp add: ActiveQueue_def push_defs control_defs insert_element_def is_full_def Let_def)

text \<open>
  The counters against the contents. \<open>Clear\<close> drops elements without counting them, and
  switching metrics off or resetting them loses counts; everything else is metered.
\<close>

definition metrics_consistent :: "'e active_queue \<Rightarrow> bool" where
  "metrics_consistent q \<longleftrightarrow> q_metrics_enabled q \<and>
     qm_enqueued_count (q_metrics q) =
       qm_dequeued_count (q_metrics q) + of_nat (length (q_deque q)) \<and>
     qm_current_size (q_metrics q) = length (q_deque q) \<and>
     length (q_deque q) \<le> qm_max_size_observed (q_metrics q)"

fun metered_op :: "'e queue_op \<Rightarrow> bool" where
  "metered_op ClearQ = False"
| "metered_op ResetMetricsQ = False"
| "metered_op (EnableMetricsQ b) = b"
| "metered_op _ = True"

lemma metrics_consistent_frame [simp]:
  "metrics_consistent (add_wait_time w n q) = metrics_consistent q"
  "metrics_consistent (reject_enqueue q) = metrics_consistent q"
  by (auto simp: metrics_consistent_def add_wait_time_def reject_enqueue_def)

lemma add_wait_time_counts [simp]:
  "qm_enqueued_count (q_metrics (add_wait_time w n q)) = qm_enqueued_count (q_metrics q)"
  "qm_dequeued_count (q_metrics (add_wait_time w n q)) = qm_dequeued_count (q_metrics q)"
  by (auto simp: add_wait_time_def)

lemma metrics_consistent_record_enqueue:
  assumes "metrics_consistent q" "length (q_deque q') = Suc (length (q_deque q))"
    and "q_metrics_enabled q' = q_metrics_enabled q"
    and "qm_enqueued_count (q_metrics q') = qm_enqueued_count (q_metrics q)"
    and "qm_dequeued_count (q_metrics q') = qm_dequeued_count (q_metrics q)"
  shows "metrics_consistent (record_enqueue s n q')"
  using assms by (auto simp: metrics_consistent_def record_enqueue_def)

lemma metrics_consistent_step:
  "metered_op p \<Longrightarrow> metrics_consistent q \<Longrightarrow> metrics_consistent (apply_op p q)"
proof (induction p q rule: apply_op.induct)
  case (1 k st ns x q)
  then show ?case
    by (cases k)
       (auto simp: push_defs elim: metrics_consistent_record_enqueue split: if_splits)
next
  case (2 k st ws wns ns x q)
  then show ?case
    by (cases k)
       (auto simp: push_defs Let_def elim: metrics_consistent_record_enqueue split: if_splits)
next
  case (5 st ws wns ns q)
  then have "metrics_consistent (add_wait_time ws wns q)" by simp
  then show ?case using 5
    by (auto simp: pop_defs Let_def metrics_consistent_def split: list.splits)
qed (auto simp: pop_defs control_defs record_dequeue_def metrics_consistent_def Let_def
       length_butlast of_nat_diff Suc_le_eq split: list.splits)

text \<open>
  The metrics account for every element: after any sequence of metered critical
  sections on a new queue with metrics switched on, the elements enqueued are (modulo
  \<open>2 ^ 64\<close>, the counters being \<open>uint64_t\<close>) the elements dequeued plus those still queued, the
  reported current size is the size, and the reported maximum is at least that.
\<close>

theorem metrics_account_for_elements:
  assumes "list_all metered_op ps"
  shows "metrics_consistent (apply_ops ps (ActiveQueue_EnableMetrics True (ActiveQueue cap block)))"
proof -
  have "metrics_consistent (apply_ops ps q)" if "metrics_consistent q" for q :: "'a active_queue"
    using that assms by (induction ps arbitrary: q) (auto simp: metrics_consistent_step)
  then show ?thesis
    by (simp add: metrics_consistent_def ActiveQueue_def ActiveQueue_EnableMetrics_def
        zero_metrics_def)
qed

theorem metrics_account_for_elements_witness:
  "metrics_consistent (apply_ops [Push KEnqueue False 0 (7::nat), PopBackNB, PopFrontNB]
     (ActiveQueue_EnableMetrics True (ActiveQueue 3 False)))"
  by (rule metrics_account_for_elements) simp

end
