(* ===== verification/Queue_Monitor.thy ===== *)
theory Queue_Monitor
  imports Active_Queue
begin

text \<open>
  \<open>core::ActiveQueue\<close> as a monitor: the critical sections of \<open>Active_Queue\<close> interleaved by
  any number of threads over the two condition variables \<open>condition_\<close> (consumers) and
  \<open>not_full_condition_\<close> (producers).

  \<open>notify_one\<close> is issued while the mutex is held and takes effect with its critical section;
  the \<open>notify_all\<close> calls of \<open>Disable\<close>, \<open>SetCapacity\<close> and \<open>Clear\<close> are issued after the lock is
  released, so they are pending (\<open>m_pend_prod\<close>, \<open>m_pend_cons\<close> count them) until a later step.
  Notified threads stay in the woken list until they get the mutex; wake-ups may be spurious;
  \<open>EnqueueUntil\<close> may time out at any moment.
\<close>

section \<open>State\<close>

record 'e producer =
  p_kind :: push_kind
  p_started :: bool
  p_wait_started :: bool
  p_element :: 'e

record consumer =
  c_started :: bool
  c_wait_started :: bool

record 'e monitor =
  m_queue :: "'e active_queue"
  m_prod :: "'e producer list \<times> 'e producer list"
  m_cons :: "consumer list \<times> consumer list"
  m_pend_prod :: nat
  m_pend_cons :: nat

definition monitor_init :: "'e active_queue \<Rightarrow> 'e monitor" where
  "monitor_init q = \<lparr>m_queue = q, m_prod = ([], []), m_cons = ([], []),
     m_pend_prod = 0, m_pend_cons = 0\<rparr>"

text \<open>A waiter leaves the woken list, falls asleep (again), or leaves the sleeping list.\<close>

definition unwake :: "nat \<Rightarrow> 'w list \<times> 'w list \<Rightarrow> 'w list \<times> 'w list" where
  "unwake j s = (fst s, remove_nth j (snd s))"

definition sleep :: "'w \<Rightarrow> 'w list \<times> 'w list \<Rightarrow> 'w list \<times> 'w list" where
  "sleep w s = (fst s @ [w], snd s)"

definition unsleep :: "nat \<Rightarrow> 'w list \<times> 'w list \<Rightarrow> 'w list \<times> 'w list" where
  "unsleep j s = (remove_nth j (fst s), snd s)"

text \<open>\<open>if (capacity_ > 0) not_full_condition_.notify_one();\<close>\<close>

definition notify_not_full ::
    "nat \<Rightarrow> 'e active_queue \<Rightarrow> 'w list \<times> 'w list \<Rightarrow> 'w list \<times> 'w list" where
  "notify_not_full i q s = (if 0 < q_capacity q then notify_one i s else s)"

definition resume_producer ::
    "u64 \<Rightarrow> u64 \<Rightarrow> 'e producer \<Rightarrow> 'e active_queue \<Rightarrow> bool \<times> 'e active_queue" where
  "resume_producer wns ns p q =
     push_resume (p_kind p) (p_started p) (p_wait_started p) wns ns (p_element p) q"

section \<open>Steps\<close>

inductive mon_step :: "'e monitor \<Rightarrow> 'e monitor \<Rightarrow> bool" where
  push_done:
    "push_enter k st ns x (m_queue m) = Ret (True, q') \<Longrightarrow>
     mon_step m (m\<lparr>m_queue := q', m_cons := notify_one i (m_cons m)\<rparr>)"
| push_rejected:
    "push_enter k st ns x (m_queue m) = Ret (False, q') \<Longrightarrow>
     mon_step m (m\<lparr>m_queue := q'\<rparr>)"
| push_blocks:
    "push_enter k st ns x (m_queue m) = Wait \<Longrightarrow>
     mon_step m (m\<lparr>m_prod := sleep \<lparr>p_kind = k, p_started = st, p_wait_started = ws,
       p_element = x\<rparr> (m_prod m)\<rparr>)"
| push_resumed:
    "j < length (snd (m_prod m)) \<Longrightarrow> not_full_predicate (m_queue m) \<Longrightarrow>
     resume_producer wns ns (snd (m_prod m) ! j) (m_queue m) = (True, q') \<Longrightarrow>
     mon_step m (m\<lparr>m_queue := q', m_prod := unwake j (m_prod m),
       m_cons := notify_one i (m_cons m)\<rparr>)"
| push_resumed_rejected:
    "j < length (snd (m_prod m)) \<Longrightarrow> not_full_predicate (m_queue m) \<Longrightarrow>
     resume_producer wns ns (snd (m_prod m) ! j) (m_queue m) = (False, q') \<Longrightarrow>
     mon_step m (m\<lparr>m_queue := q', m_prod := unwake j (m_prod m)\<rparr>)"
| push_waits_again:
    "j < length (snd (m_prod m)) \<Longrightarrow> \<not> not_full_predicate (m_queue m) \<Longrightarrow>
     mon_step m (m\<lparr>m_prod := sleep (snd (m_prod m) ! j) (unwake j (m_prod m))\<rparr>)"
| push_deadline_woken:
    "j < length (snd (m_prod m)) \<Longrightarrow> p_kind (snd (m_prod m) ! j) = KEnqueueUntil \<Longrightarrow>
     \<not> not_full_predicate (m_queue m) \<Longrightarrow>
     resume_producer wns ns (snd (m_prod m) ! j) (m_queue m) = (False, q') \<Longrightarrow>
     mon_step m (m\<lparr>m_queue := q', m_prod := unwake j (m_prod m)\<rparr>)"
| push_deadline_done:
    "j < length (fst (m_prod m)) \<Longrightarrow> p_kind (fst (m_prod m) ! j) = KEnqueueUntil \<Longrightarrow>
     resume_producer wns ns (fst (m_prod m) ! j) (m_queue m) = (True, q') \<Longrightarrow>
     mon_step m (m\<lparr>m_queue := q', m_prod := unsleep j (m_prod m),
       m_cons := notify_one i (m_cons m)\<rparr>)"
| push_deadline_rejected:
    "j < length (fst (m_prod m)) \<Longrightarrow> p_kind (fst (m_prod m) ! j) = KEnqueueUntil \<Longrightarrow>
     resume_producer wns ns (fst (m_prod m) ! j) (m_queue m) = (False, q') \<Longrightarrow>
     mon_step m (m\<lparr>m_queue := q', m_prod := unsleep j (m_prod m)\<rparr>)"
| producer_spurious:
    "mon_step m (m\<lparr>m_prod := notify_one i (m_prod m)\<rparr>)"
| dequeue_done:
    "ActiveQueue_Dequeue_enter st ws wns ns (m_queue m) = Ret (Some x, q') \<Longrightarrow>
     mon_step m (m\<lparr>m_queue := q', m_prod := notify_not_full i q' (m_prod m)\<rparr>)"
| dequeue_disabled:
    "ActiveQueue_Dequeue_enter st ws wns ns (m_queue m) = Ret (None, q') \<Longrightarrow>
     mon_step m (m\<lparr>m_queue := q'\<rparr>)"
| dequeue_blocks:
    "ActiveQueue_Dequeue_enter st ws wns ns (m_queue m) = Wait \<Longrightarrow>
     mon_step m (m\<lparr>m_cons := sleep \<lparr>c_started = st, c_wait_started = ws\<rparr> (m_cons m)\<rparr>)"
| dequeue_resumed:
    "j < length (snd (m_cons m)) \<Longrightarrow> c = snd (m_cons m) ! j \<Longrightarrow>
     ActiveQueue_Dequeue_enter (c_started c) (c_wait_started c) wns ns (m_queue m) =
       Ret (Some x, q') \<Longrightarrow>
     mon_step m (m\<lparr>m_queue := q', m_cons := unwake j (m_cons m),
       m_prod := notify_not_full i q' (m_prod m)\<rparr>)"
| dequeue_resumed_disabled:
    "j < length (snd (m_cons m)) \<Longrightarrow> c = snd (m_cons m) ! j \<Longrightarrow>
     ActiveQueue_Dequeue_enter (c_started c) (c_wait_started c) wns ns (m_queue m) =
       Ret (None, q') \<Longrightarrow>
     mon_step m (m\<lparr>m_queue := q', m_cons := unwake j (m_cons m)\<rparr>)"
| dequeue_waits_again:
    "j < length (snd (m_cons m)) \<Longrightarrow> c = snd (m_cons m) ! j \<Longrightarrow>
     ActiveQueue_Dequeue_enter (c_started c) (c_wait_started c) wns ns (m_queue m) = Wait \<Longrightarrow>
     mon_step m (m\<lparr>m_cons := sleep c (unwake j (m_cons m))\<rparr>)"
| consumer_spurious:
    "mon_step m (m\<lparr>m_cons := notify_one i (m_cons m)\<rparr>)"
| pop_front:
    "ActiveQueue_DequeueNonBlocking (m_queue m) = (Some x, q') \<Longrightarrow>
     mon_step m (m\<lparr>m_queue := q', m_prod := notify_not_full i q' (m_prod m)\<rparr>)"
| pop_front_empty:
    "ActiveQueue_DequeueNonBlocking (m_queue m) = (None, q') \<Longrightarrow>
     mon_step m (m\<lparr>m_queue := q'\<rparr>)"
| pop_back:
    "ActiveQueue_PopBack (m_queue m) = (Some x, q') \<Longrightarrow>
     mon_step m (m\<lparr>m_queue := q', m_prod := notify_not_full i q' (m_prod m)\<rparr>)"
| pop_back_empty:
    "ActiveQueue_PopBack (m_queue m) = (None, q') \<Longrightarrow>
     mon_step m (m\<lparr>m_queue := q'\<rparr>)"
| disable:
    "mon_step m (m\<lparr>m_queue := ActiveQueue_Disable (m_queue m),
       m_pend_cons := Suc (m_pend_cons m), m_pend_prod := Suc (m_pend_prod m)\<rparr>)"
| enable:
    "mon_step m (m\<lparr>m_queue := ActiveQueue_Enable (m_queue m)\<rparr>)"
| set_capacity:
    "ActiveQueue_SetCapacity n (m_queue m) = (q', notify) \<Longrightarrow>
     mon_step m (m\<lparr>m_queue := q',
       m_pend_prod := (if notify then Suc (m_pend_prod m) else m_pend_prod m)\<rparr>)"
| clear:
    "ActiveQueue_Clear (m_queue m) = (q', notify) \<Longrightarrow>
     mon_step m (m\<lparr>m_queue := q',
       m_pend_prod := (if notify then Suc (m_pend_prod m) else m_pend_prod m)\<rparr>)"
| set_block_on_full:
    "ActiveQueue_SetBlockOnFull b (m_queue m) = (r, q') \<Longrightarrow> mon_step m (m\<lparr>m_queue := q'\<rparr>)"
| set_comparator:
    "mon_step m (m\<lparr>m_queue := ActiveQueue_SetComparator cmp (m_queue m)\<rparr>)"
| enable_metrics:
    "mon_step m (m\<lparr>m_queue := ActiveQueue_EnableMetrics b (m_queue m)\<rparr>)"
| reset_metrics:
    "mon_step m (m\<lparr>m_queue := ActiveQueue_ResetMetrics (m_queue m)\<rparr>)"
| notify_all_producers:
    "m_pend_prod m = Suc n \<Longrightarrow>
     mon_step m (m\<lparr>m_prod := notify_all (m_prod m), m_pend_prod := n\<rparr>)"
| notify_all_consumers:
    "m_pend_cons m = Suc n \<Longrightarrow>
     mon_step m (m\<lparr>m_cons := notify_all (m_cons m), m_pend_cons := n\<rparr>)"

section \<open>No wake-up is lost\<close>

text \<open>
  For each condition variable: whenever a thread sleeps and no \<open>notify_all\<close> is on its way,
  the queue is enabled and the elements (the free places) do not outnumber the threads that
  have already been woken for them.
\<close>

definition consumers_covered :: "'e monitor \<Rightarrow> bool" where
  "consumers_covered m \<longleftrightarrow> (fst (m_cons m) \<noteq> [] \<longrightarrow> m_pend_cons m = 0 \<longrightarrow>
     \<not> q_exit (m_queue m) \<and> length (q_deque (m_queue m)) \<le> length (snd (m_cons m)))"

definition producers_covered :: "'e monitor \<Rightarrow> bool" where
  "producers_covered m \<longleftrightarrow> (fst (m_prod m) \<noteq> [] \<longrightarrow> m_pend_prod m = 0 \<longrightarrow>
     \<not> q_exit (m_queue m) \<and> 0 < q_capacity (m_queue m) \<and>
     q_capacity (m_queue m) \<le> length (q_deque (m_queue m)) + length (snd (m_prod m)))"

lemma unwake_simps [simp]:
  "fst (unwake j s) = fst s"
  "j < length (snd s) \<Longrightarrow> length (snd (unwake j s)) = length (snd s) - 1"
  by (simp_all add: unwake_def)

lemma sleep_simps [simp]: "fst (sleep w s) \<noteq> []" "snd (sleep w s) = snd s"
  by (simp_all add: sleep_def)

lemma unsleep_simps [simp]:
  "snd (unsleep j s) = snd s" "fst (unsleep j s) \<noteq> [] \<Longrightarrow> fst s \<noteq> []"
  by (auto simp: unsleep_def remove_nth_def)

lemma notify_one_covers:
  assumes "fst (notify_one i s) \<noteq> []"
  shows "fst s \<noteq> [] \<and> length (snd (notify_one i s)) = Suc (length (snd s))"
  using assms notify_one_asleep_empty notify_one_woken by blast

lemma notify_not_full_covers:
  assumes "fst (notify_not_full i q s) \<noteq> []"
  shows "fst s \<noteq> [] \<and>
    (0 < q_capacity q \<longrightarrow> length (snd (notify_not_full i q s)) = Suc (length (snd s)))"
  using assms by (auto simp: notify_not_full_def dest!: notify_one_covers split: if_splits)

text \<open>How each group of queue operations moves the four quantities the coverage reads.\<close>

definition same_shape :: "'e active_queue \<Rightarrow> 'e active_queue \<Rightarrow> bool" where
  "same_shape q q' \<longleftrightarrow> q_deque q' = q_deque q \<and> q_capacity q' = q_capacity q \<and>
     q_exit q' = q_exit q"

definition one_more :: "'e active_queue \<Rightarrow> 'e active_queue \<Rightarrow> bool" where
  "one_more q q' \<longleftrightarrow> length (q_deque q') = Suc (length (q_deque q)) \<and>
     q_capacity q' = q_capacity q \<and> \<not> q_exit q \<and> \<not> q_exit q'"

definition one_less :: "'e active_queue \<Rightarrow> 'e active_queue \<Rightarrow> bool" where
  "one_less q q' \<longleftrightarrow> length (q_deque q) = Suc (length (q_deque q')) \<and>
     q_capacity q' = q_capacity q \<and> q_exit q' = q_exit q"

lemmas shape_defs = same_shape_def one_more_def one_less_def

lemma push_enter_shape:
  "push_enter k st ns x q = Ret (True, q') \<Longrightarrow> one_more q q'"
  "push_enter k st ns x q = Ret (False, q') \<Longrightarrow> same_shape q q'"
  using push_enter_accept push_enter_refuse unfolding shape_defs by metis+

lemma resume_producer_shape:
  "resume_producer wns ns p q = (True, q') \<Longrightarrow>
     not_full_predicate q \<or> p_kind p = KEnqueueUntil \<Longrightarrow> one_more q q'"
  "resume_producer wns ns p q = (False, q') \<Longrightarrow> same_shape q q'"
  using push_resume_accept push_resume_refuse unfolding shape_defs resume_producer_def by metis+

lemma pop_shape:
  "ActiveQueue_Dequeue_enter st ws wns ns q = Ret (Some x, q') \<Longrightarrow> one_less q q'"
  "ActiveQueue_Dequeue_enter st ws wns ns q = Ret (None, q') \<Longrightarrow> same_shape q q'"
  "ActiveQueue_DequeueNonBlocking q = (Some x, q') \<Longrightarrow> one_less q q'"
  "ActiveQueue_DequeueNonBlocking q = (None, q') \<Longrightarrow> same_shape q q'"
  "ActiveQueue_PopBack q = (Some x, q') \<Longrightarrow> one_less q q'"
  "ActiveQueue_PopBack q = (None, q') \<Longrightarrow> same_shape q q'"
  by (auto simp: pop_defs shape_defs Let_def length_butlast split: list.splits if_splits)

lemmas shape_intros = push_enter_shape resume_producer_shape pop_shape

lemma producers_covered_one_less:
  assumes "producers_covered m" "one_less (m_queue m) q'" "m_queue m' = q'"
    "m_prod m' = notify_not_full i q' (m_prod m)" "m_pend_prod m' = m_pend_prod m"
  shows "producers_covered m'"
  using assms notify_not_full_covers [of i q' "m_prod m"]
  by (auto simp: producers_covered_def one_less_def)

lemma consumers_covered_step:
  "mon_step m m' \<Longrightarrow> consumers_covered m \<Longrightarrow> consumers_covered m'"
proof (induction rule: mon_step.induct)
  case push_done
  then show ?case
    by (auto simp: consumers_covered_def shape_defs dest!: shape_intros notify_one_covers)
next
  case (push_resumed j m wns ns q' i)
  then show ?case
    by (auto simp: consumers_covered_def shape_defs dest!: shape_intros(3) notify_one_covers)
next
  case (push_deadline_done j m wns ns q' i)
  then show ?case
    by (auto simp: consumers_covered_def shape_defs dest!: shape_intros(3) notify_one_covers)
next
  case consumer_spurious
  then show ?case by (auto simp: consumers_covered_def dest!: notify_one_covers)
next
  case dequeue_blocks
  then show ?case
    by (auto simp: consumers_covered_def ActiveQueue_Dequeue_enter_def not_empty_predicate_def
        split: if_splits)
next
  case dequeue_waits_again
  then show ?case
    by (auto simp: consumers_covered_def ActiveQueue_Dequeue_enter_def not_empty_predicate_def
        split: if_splits)
next
  case (dequeue_resumed j m c wns ns x q' i)
  then show ?case by (auto simp: consumers_covered_def shape_defs dest!: pop_shape)
next
  case (dequeue_resumed_disabled j m c wns ns q')
  then have "same_shape (m_queue m) q'" "q_exit (m_queue m)"
    by (auto simp: shape_defs ActiveQueue_Dequeue_enter_def ActiveQueue_Dequeue_resume_def
        not_empty_predicate_def Let_def split: if_splits list.splits)
  then show ?case
    using dequeue_resumed_disabled by (auto simp: consumers_covered_def shape_defs)
qed (auto simp: consumers_covered_def shape_defs control_defs Let_def
       dest!: push_enter_shape(2) resume_producer_shape(2) pop_shape split: if_splits)

lemma producers_covered_step:
  "mon_step m m' \<Longrightarrow> producers_covered m \<Longrightarrow> producers_covered m'"
proof (induction rule: mon_step.induct)
  case (push_blocks k st ns x m ws)
  then show ?case
    using push_enter_wait [OF push_blocks(1)] by (auto simp: producers_covered_def is_full_def)
next
  case (push_resumed j m wns ns q' i)
  then show ?case
    by (auto simp: producers_covered_def shape_defs dest!: shape_intros(3))
next
  case (push_resumed_rejected j m wns ns q')
  then have "q_exit (m_queue m)"
    by (auto simp: resume_producer_def not_full_predicate_iff dest!: push_resume_refuse)
  then show ?case using push_resumed_rejected
    by (auto simp: producers_covered_def shape_defs dest!: shape_intros(4))
next
  case (push_waits_again j m)
  then show ?case by (auto simp: producers_covered_def not_full_predicate_def)
next
  case (push_deadline_woken j m wns ns q')
  then show ?case
    by (auto simp: producers_covered_def not_full_predicate_def shape_defs dest!: shape_intros(4))
next
  case (push_deadline_done j m wns ns q' i)
  then show ?case
    by (auto simp: producers_covered_def shape_defs dest!: shape_intros(3) unsleep_simps(2))
next
  case (push_deadline_rejected j m wns ns q')
  then show ?case
    by (auto simp: producers_covered_def shape_defs dest!: shape_intros(4) unsleep_simps(2))
next
  case producer_spurious
  then show ?case by (auto simp: producers_covered_def dest!: notify_one_covers)
next
  case dequeue_done
  then show ?case by (auto intro: producers_covered_one_less dest: pop_shape)
next
  case dequeue_resumed
  then show ?case by (auto intro: producers_covered_one_less dest: pop_shape)
next
  case pop_front
  then show ?case by (auto intro: producers_covered_one_less dest: pop_shape)
next
  case pop_back
  then show ?case by (auto intro: producers_covered_one_less dest: pop_shape)
qed (auto simp: producers_covered_def shape_defs control_defs Let_def
       dest!: push_enter_shape pop_shape(2,4,6) split: if_splits)

section \<open>What the invariant gives\<close>

definition reachable :: "'e monitor \<Rightarrow> bool" where
  "reachable m \<longleftrightarrow> (\<exists>cap block. mon_step\<^sup>*\<^sup>* (monitor_init (ActiveQueue cap block)) m)"

text \<open>No notified thread is still on its way and no \<open>notify_all\<close> is outstanding.\<close>

definition settled :: "'e monitor \<Rightarrow> bool" where
  "settled m \<longleftrightarrow> snd (m_prod m) = [] \<and> snd (m_cons m) = [] \<and>
     m_pend_prod m = 0 \<and> m_pend_cons m = 0"

lemma reachable_covered: "reachable m \<Longrightarrow> consumers_covered m \<and> producers_covered m"
proof -
  assume "reachable m"
  then obtain cap block where r: "mon_step\<^sup>*\<^sup>* (monitor_init (ActiveQueue cap block)) m"
    by (auto simp: reachable_def)
  then show ?thesis
  proof (induction rule: rtranclp_induct)
    case base
    show ?case by (simp add: consumers_covered_def producers_covered_def monitor_init_def)
  next
    case (step m m')
    then show ?case using consumers_covered_step producers_covered_step by blast
  qed
qed

text \<open>A consumer that comes to a new queue falls asleep: the state the witnesses use.\<close>

lemma reachable_init: "reachable (monitor_init (ActiveQueue cap block))"
  by (auto simp: reachable_def)

lemma reachable_step: "reachable m \<Longrightarrow> mon_step m m' \<Longrightarrow> reachable m'"
  unfolding reachable_def by (meson rtranclp.rtrancl_into_rtrancl)

definition one_waiting_consumer :: "nat monitor" where
  "one_waiting_consumer = (monitor_init (ActiveQueue 2 True))
     \<lparr>m_cons := ([\<lparr>c_started = False, c_wait_started = False\<rparr>], [])\<rparr>"

definition one_waiting_producer :: "nat monitor" where
  "one_waiting_producer = (monitor_init ((ActiveQueue 1 True)\<lparr>q_deque := [5]\<rparr>))
     \<lparr>m_prod := ([\<lparr>p_kind = KEnqueue, p_started = False, p_wait_started = False,
        p_element = 6\<rparr>], [])\<rparr>"

lemma reachable_one_waiting_consumer: "reachable one_waiting_consumer"
proof -
  let ?m = "monitor_init (ActiveQueue 2 True) :: nat monitor"
  have "ActiveQueue_Dequeue_enter False False 0 0 (m_queue ?m) = Wait"
    by (simp add: monitor_init_def ActiveQueue_def ActiveQueue_Dequeue_enter_def
        not_empty_predicate_def)
  from reachable_step [OF reachable_init dequeue_blocks [OF this]]
  show ?thesis by (simp add: one_waiting_consumer_def monitor_init_def sleep_def)
qed

lemma reachable_one_waiting_producer: "reachable one_waiting_producer"
proof -
  let ?q = "(ActiveQueue 1 True)\<lparr>q_deque := [5::nat]\<rparr>"
  have "push_enter KEnqueue False 0 5 (m_queue (monitor_init (ActiveQueue 1 True))) =
      Ret (True, ?q)"
    by (simp add: monitor_init_def ActiveQueue_def push_defs is_full_def insert_element_def
        record_enqueue_def with_metrics_def)
  from reachable_step [OF reachable_init push_done [OF this, of 0]]
  have "reachable (monitor_init ?q)" by (simp add: monitor_init_def notify_one_def)
  moreover have "push_enter KEnqueue False 0 6 (m_queue (monitor_init ?q)) = Wait"
    by (simp add: monitor_init_def ActiveQueue_def push_defs is_full_def)
  ultimately show ?thesis
    using reachable_step push_blocks [of KEnqueue False 0 6 "monitor_init ?q" False]
    by (simp add: one_waiting_producer_def monitor_init_def sleep_def)
qed

text \<open>
  C1. No lost wake-up for consumers. In every reachable state of the queue, under any
  interleaving of producers, consumers, resizing, clearing, enabling and disabling, if a
  consumer sleeps in \<open>Dequeue\<close>, every woken thread has run and no \<open>notify_all\<close> is outstanding,
  then the queue is enabled and really empty: the consumer has nothing to take.
\<close>

theorem sleeping_consumer_has_nothing:
  assumes "reachable m" and "settled m" and "fst (m_cons m) \<noteq> []"
  shows "\<not> q_exit (m_queue m) \<and> q_deque (m_queue m) = []"
  using assms reachable_covered [of m] by (auto simp: consumers_covered_def settled_def)

theorem sleeping_consumer_has_nothing_witness:
  "\<not> q_exit (m_queue one_waiting_consumer) \<and> q_deque (m_queue one_waiting_consumer) = []"
  by (rule sleeping_consumer_has_nothing [OF reachable_one_waiting_consumer])
     (simp_all add: settled_def one_waiting_consumer_def monitor_init_def)

text \<open>
  C2. No lost wake-up for producers. In every reachable state, if a producer sleeps in a
  blocking insertion, every woken thread has run and no \<open>notify_all\<close> is outstanding, then the
  queue is enabled, bounded and full: there is no room the producer could use.
\<close>

theorem sleeping_producer_has_no_room:
  assumes "reachable m" and "settled m" and "fst (m_prod m) \<noteq> []"
  shows "\<not> q_exit (m_queue m) \<and> is_full (m_queue m)"
  using assms reachable_covered [of m]
  by (auto simp: producers_covered_def settled_def is_full_def)

theorem sleeping_producer_has_no_room_witness:
  "\<not> q_exit (m_queue one_waiting_producer) \<and> is_full (m_queue one_waiting_producer)"
  by (rule sleeping_producer_has_no_room [OF reachable_one_waiting_producer])
     (simp_all add: settled_def one_waiting_producer_def monitor_init_def)

text \<open>
  The queue cannot deadlock and cannot keep a thread after shutdown. In a reachable
  settled state producers and consumers are never asleep at the same time, and once the
  queue is disabled nobody is asleep.
\<close>

theorem queue_never_deadlocks:
  assumes "reachable m" and "settled m"
  shows "(fst (m_prod m) = [] \<or> fst (m_cons m) = []) \<and>
    (q_exit (m_queue m) \<longrightarrow> fst (m_prod m) = [] \<and> fst (m_cons m) = [])"
  using assms reachable_covered [of m]
  by (auto simp: consumers_covered_def producers_covered_def settled_def)

theorem queue_never_deadlocks_witness:
  "fst (m_prod one_waiting_consumer) = [] \<or> fst (m_cons one_waiting_consumer) = []"
  using queue_never_deadlocks [OF reachable_one_waiting_consumer]
  by (simp add: settled_def one_waiting_consumer_def monitor_init_def)

end
