(* ===== verification/Edge_Control.thy ===== *)
theory Edge_Control
  imports Prelude
begin

text \<open>
  In-band edge control and the completion tracking of required inputs
  (\<open>libgraph/include/graph/EdgeControl.hpp\<close>). The arrays of
  \<open>RequiredInputCompletion<InputCount>\<close> are lists of length \<open>InputCount\<close>; every method is one
  critical section, so a run is a sequence of \<open>SetRequired\<close> and \<open>Observe\<close> calls.
\<close>

section \<open>Control values\<close>

datatype edge_control =
    Monostate
  | EdgeEndOfStream
  | EdgeWatermark (wm_position: u64) (wm_final: bool)
  | EdgeCancellation (cancel_reason: string)
  | EdgeFailure (failure_message: string)

fun IsTerminalEdgeControl :: "edge_control \<Rightarrow> bool" where
  "IsTerminalEdgeControl EdgeEndOfStream = True"
| "IsTerminalEdgeControl (EdgeCancellation _) = True"
| "IsTerminalEdgeControl (EdgeFailure _) = True"
| "IsTerminalEdgeControl (EdgeWatermark _ final) = final"
| "IsTerminalEdgeControl Monostate = False"

fun IsSuccessfulTerminalEdgeControl :: "edge_control \<Rightarrow> bool" where
  "IsSuccessfulTerminalEdgeControl EdgeEndOfStream = True"
| "IsSuccessfulTerminalEdgeControl (EdgeWatermark _ final) = final"
| "IsSuccessfulTerminalEdgeControl _ = False"

section \<open>Tracking the required inputs\<close>

datatype required_input_outcome = RI_Open | RI_Complete | RI_Incomplete | RI_Cancelled | RI_Failed

record required_input_status =
  ris_outcome :: required_input_outcome
  ris_required_inputs :: nat
  ris_terminal_inputs :: nat
  ris_missing_inputs :: "nat list"
  ris_problem_input :: "nat option"
  ris_detail :: string

definition empty_status :: required_input_status where
  "empty_status = \<lparr>ris_outcome = RI_Open, ris_required_inputs = 0, ris_terminal_inputs = 0,
     ris_missing_inputs = [], ris_problem_input = None, ris_detail = []\<rparr>"

definition RequiredInputStatus_IsComplete :: "required_input_status \<Rightarrow> bool" where
  "RequiredInputStatus_IsComplete s \<longleftrightarrow> ris_outcome s = RI_Complete"

record required_input_completion =
  rc_required :: "bool list"
  rc_observed :: "bool list"
  rc_terminal :: "bool list"
  rc_watermarks :: "u64 option list"
  rc_controls :: "edge_control list"

definition input_count :: "required_input_completion \<Rightarrow> nat" where
  "input_count c = length (rc_required c)"

definition RequiredInputCompletion :: "nat \<Rightarrow> required_input_completion" where
  "RequiredInputCompletion n = \<lparr>rc_required = replicate n True, rc_observed = replicate n False,
     rc_terminal = replicate n False, rc_watermarks = replicate n None,
     rc_controls = replicate n Monostate\<rparr>"

definition SetRequired ::
    "nat \<Rightarrow> bool \<Rightarrow> required_input_completion \<Rightarrow> bool \<times> required_input_completion" where
  "SetRequired port required c =
     (if input_count c \<le> port \<or> rc_observed c ! port then (False, c)
      else (True, c\<lparr>rc_required := (rc_required c)[port := required]\<rparr>))"

definition Observe ::
    "nat \<Rightarrow> edge_control \<Rightarrow> required_input_completion \<Rightarrow> bool \<times> required_input_completion" where
  "Observe port control c =
     (if input_count c \<le> port \<or> \<not> rc_required c ! port then (False, c)
      else if rc_terminal c ! port then (rc_controls c ! port = control, c)
      else if control = Monostate then (True, c\<lparr>rc_observed := (rc_observed c)[port := True]\<rparr>)
      else
        let stale = (case control of
              EdgeWatermark position _ \<Rightarrow>
                (case rc_watermarks c ! port of None \<Rightarrow> False | Some w \<Rightarrow> position < w)
            | _ \<Rightarrow> False);
            watermarks = (case control of
              EdgeWatermark position _ \<Rightarrow> (rc_watermarks c)[port := Some position]
            | _ \<Rightarrow> rc_watermarks c)
        in if stale then (False, c)
           else (True, c\<lparr>rc_watermarks := watermarks,
             rc_observed := (rc_observed c)[port := True],
             rc_controls := (rc_controls c)[port := control],
             rc_terminal := (rc_terminal c)[port := IsTerminalEdgeControl control]\<rparr>))"

definition Control :: "nat \<Rightarrow> required_input_completion \<Rightarrow> edge_control" where
  "Control port c = (if input_count c \<le> port then Monostate else rc_controls c ! port)"

text \<open>The body of the first loop of \<open>BuildStatus\<close>, then its second loop with the \<open>break\<close>.\<close>

definition status_visit ::
    "required_input_completion \<Rightarrow> nat \<Rightarrow> required_input_status \<Rightarrow> required_input_status" where
  "status_visit c port s =
     (if \<not> rc_required c ! port then s
      else
        let s1 = s\<lparr>ris_required_inputs := ris_required_inputs s + 1\<rparr>;
            s2 = (if rc_terminal c ! port
                  then s1\<lparr>ris_terminal_inputs := ris_terminal_inputs s1 + 1\<rparr>
                  else s1\<lparr>ris_missing_inputs := ris_missing_inputs s1 @ [port]\<rparr>)
        in (case rc_controls c ! port of
              EdgeFailure message \<Rightarrow>
                if ris_problem_input s2 = None
                then s2\<lparr>ris_problem_input := Some port, ris_detail := message,
                        ris_outcome := RI_Failed\<rparr>
                else s2
            | _ \<Rightarrow> s2))"

fun cancel_scan ::
    "required_input_completion \<Rightarrow> nat list \<Rightarrow> required_input_status \<Rightarrow> required_input_status" where
  "cancel_scan c [] s = s"
| "cancel_scan c (port # ports) s =
     (case rc_controls c ! port of
        EdgeCancellation reason \<Rightarrow>
          if rc_required c ! port
          then s\<lparr>ris_problem_input := Some port, ris_detail := reason, ris_outcome := RI_Cancelled\<rparr>
          else cancel_scan c ports s
      | _ \<Rightarrow> cancel_scan c ports s)"

definition BuildStatus :: "bool \<Rightarrow> required_input_completion \<Rightarrow> required_input_status" where
  "BuildStatus finalizing c =
     (let ports = [0..<input_count c];
          s1 = fold (status_visit c) ports empty_status;
          s2 = (if ris_outcome s1 \<noteq> RI_Failed then cancel_scan c ports s1 else s1)
      in if ris_outcome s2 = RI_Failed \<or> ris_outcome s2 = RI_Cancelled then s2
         else if ris_missing_inputs s2 = [] then s2\<lparr>ris_outcome := RI_Complete\<rparr>
         else if finalizing
         then s2\<lparr>ris_outcome := RI_Incomplete,
                 ris_detail := ''required input did not reach a terminal state''\<rparr>
         else s2)"

definition Status :: "required_input_completion \<Rightarrow> required_input_status" where
  "Status c = BuildStatus False c"

definition Finalize :: "required_input_completion \<Rightarrow> required_input_status" where
  "Finalize c = BuildStatus True c"

section \<open>Runs\<close>

datatype completion_op = OpSetRequired nat bool | OpObserve nat edge_control

fun completion_step :: "completion_op \<Rightarrow> required_input_completion \<Rightarrow> required_input_completion" where
  "completion_step (OpSetRequired port b) c = snd (SetRequired port b c)"
| "completion_step (OpObserve port control) c = snd (Observe port control c)"

definition completion_run ::
    "completion_op list \<Rightarrow> required_input_completion \<Rightarrow> required_input_completion" where
  "completion_run ops c = fold completion_step ops c"

text \<open>
  The invariant: the arrays have the same length, \<open>terminal_\<close> caches what the stored control
  says, an input that was never required has the default control, and a stored watermark
  agrees with the watermark array.
\<close>

definition port_ok :: "required_input_completion \<Rightarrow> nat \<Rightarrow> bool" where
  "port_ok c i \<longleftrightarrow>
     (rc_terminal c ! i \<longleftrightarrow> IsTerminalEdgeControl (rc_controls c ! i)) \<and>
     (\<not> rc_required c ! i \<longrightarrow> rc_controls c ! i = Monostate) \<and>
     (rc_controls c ! i \<noteq> Monostate \<longrightarrow> rc_observed c ! i) \<and>
     (\<forall>position final. rc_controls c ! i = EdgeWatermark position final \<longrightarrow>
        rc_watermarks c ! i = Some position)"

definition completion_ok :: "required_input_completion \<Rightarrow> bool" where
  "completion_ok c \<longleftrightarrow> length (rc_observed c) = input_count c \<and>
     length (rc_terminal c) = input_count c \<and> length (rc_watermarks c) = input_count c \<and>
     length (rc_controls c) = input_count c \<and> (\<forall>i < input_count c. port_ok c i)"

lemma completion_ok_init: "completion_ok (RequiredInputCompletion n)"
  by (auto simp: completion_ok_def port_ok_def RequiredInputCompletion_def input_count_def)

lemma input_count_step [simp]: "input_count (completion_step op c) = input_count c"
  by (cases op)
     (auto simp: SetRequired_def Observe_def input_count_def Let_def split: edge_control.split)

lemma input_count_run: "input_count (completion_run ops c) = input_count c"
  unfolding completion_run_def by (induction ops arbitrary: c) auto

lemma completion_ok_step:
  assumes "completion_ok c"
  shows "completion_ok (completion_step op c)"
proof (cases op)
  case (OpSetRequired port b)
  with assms show ?thesis
    by (auto simp: completion_ok_def port_ok_def SetRequired_def input_count_def nth_list_update
        not_le)
next
  case (OpObserve port control)
  with assms show ?thesis
    by (cases control)
       (auto simp: completion_ok_def port_ok_def Observe_def input_count_def nth_list_update Let_def
         split: option.split)
qed

lemma completion_ok_run: "completion_ok c \<Longrightarrow> completion_ok (completion_run ops c)"
  unfolding completion_run_def by (induction ops arbitrary: c) (auto simp: completion_ok_step)

section \<open>The status as a closed form\<close>

definition required_ports :: "required_input_completion \<Rightarrow> nat list" where
  "required_ports c = filter (\<lambda>i. rc_required c ! i) [0..<input_count c]"

definition first_failed :: "required_input_completion \<Rightarrow> nat list \<Rightarrow> nat option" where
  "first_failed c ports = find (\<lambda>i. rc_required c ! i \<and> is_EdgeFailure (rc_controls c ! i)) ports"

definition first_cancelled :: "required_input_completion \<Rightarrow> nat list \<Rightarrow> nat option" where
  "first_cancelled c ports =
     find (\<lambda>i. rc_required c ! i \<and> is_EdgeCancellation (rc_controls c ! i)) ports"

lemma status_visit_fold_counts:
  "ris_required_inputs (fold (status_visit c) ports s) =
     ris_required_inputs s + length (filter (\<lambda>i. rc_required c ! i) ports)"
  "ris_terminal_inputs (fold (status_visit c) ports s) = ris_terminal_inputs s +
     length (filter (\<lambda>i. rc_required c ! i \<and> rc_terminal c ! i) ports)"
  "ris_missing_inputs (fold (status_visit c) ports s) = ris_missing_inputs s @
     filter (\<lambda>i. rc_required c ! i \<and> \<not> rc_terminal c ! i) ports"
  by (induction ports arbitrary: s)
     (auto simp: status_visit_def Let_def split: edge_control.split)

lemma status_visit_fold_found:
  "ris_problem_input s \<noteq> None \<Longrightarrow>
   ris_problem_input (fold (status_visit c) ports s) = ris_problem_input s \<and>
   ris_outcome (fold (status_visit c) ports s) = ris_outcome s \<and>
   ris_detail (fold (status_visit c) ports s) = ris_detail s"
proof (induction ports arbitrary: s)
  case (Cons port ports)
  then have "ris_problem_input (status_visit c port s) = ris_problem_input s \<and>
      ris_outcome (status_visit c port s) = ris_outcome s \<and>
      ris_detail (status_visit c port s) = ris_detail s"
    by (auto simp: status_visit_def Let_def split: edge_control.split)
  with Cons show ?case by simp
qed simp

lemma status_visit_fold_problem:
  "ris_problem_input s = None \<Longrightarrow>
   (case first_failed c ports of
      None \<Rightarrow> ris_problem_input (fold (status_visit c) ports s) = None \<and>
        ris_outcome (fold (status_visit c) ports s) = ris_outcome s \<and>
        ris_detail (fold (status_visit c) ports s) = ris_detail s
    | Some i \<Rightarrow> ris_problem_input (fold (status_visit c) ports s) = Some i \<and>
        ris_outcome (fold (status_visit c) ports s) = RI_Failed \<and>
        ris_detail (fold (status_visit c) ports s) = failure_message (rc_controls c ! i))"
proof (induction ports arbitrary: s)
  case Nil
  then show ?case by (simp add: first_failed_def)
next
  case (Cons port ports)
  let ?s = "status_visit c port s"
  show ?case
  proof (cases "rc_required c ! port \<and> is_EdgeFailure (rc_controls c ! port)")
    case True
    then obtain msg where "rc_controls c ! port = EdgeFailure msg"
      by (cases "rc_controls c ! port") auto
    with True Cons.prems have "ris_problem_input ?s = Some port \<and> ris_outcome ?s = RI_Failed \<and>
        ris_detail ?s = failure_message (rc_controls c ! port)"
      by (simp add: status_visit_def Let_def)
    then show ?thesis
      using True status_visit_fold_found [of ?s c ports] by (simp add: first_failed_def)
  next
    case False
    then have "ris_problem_input ?s = None \<and> ris_outcome ?s = ris_outcome s \<and>
        ris_detail ?s = ris_detail s"
      using Cons.prems by (auto simp: status_visit_def Let_def split: edge_control.split)
    with Cons.IH [of ?s] False show ?thesis
      by (auto simp: first_failed_def split: option.splits)
  qed
qed

lemma cancel_scan_eq:
  "cancel_scan c ports s =
     (case first_cancelled c ports of
        None \<Rightarrow> s
      | Some i \<Rightarrow> s\<lparr>ris_problem_input := Some i, ris_detail := cancel_reason (rc_controls c ! i),
                   ris_outcome := RI_Cancelled\<rparr>)"
  by (induction ports) (auto simp: first_cancelled_def split: edge_control.split)

definition status_outcome :: "bool \<Rightarrow> required_input_completion \<Rightarrow> required_input_outcome" where
  "status_outcome finalizing c =
     (if \<exists>i \<in> set (required_ports c). is_EdgeFailure (rc_controls c ! i) then RI_Failed
      else if \<exists>i \<in> set (required_ports c). is_EdgeCancellation (rc_controls c ! i) then RI_Cancelled
      else if \<forall>i \<in> set (required_ports c). rc_terminal c ! i then RI_Complete
      else if finalizing then RI_Incomplete else RI_Open)"

lemma first_failed_iff:
  "first_failed c [0..<input_count c] = None \<longleftrightarrow>
     \<not> (\<exists>i \<in> set (required_ports c). is_EdgeFailure (rc_controls c ! i))"
  by (auto simp: first_failed_def required_ports_def find_None_iff)

lemma first_cancelled_iff:
  "first_cancelled c [0..<input_count c] = None \<longleftrightarrow>
     \<not> (\<exists>i \<in> set (required_ports c). is_EdgeCancellation (rc_controls c ! i))"
  by (auto simp: first_cancelled_def required_ports_def find_None_iff)

lemma BuildStatus_closed:
  "ris_outcome (BuildStatus finalizing c) = status_outcome finalizing c \<and>
   ris_required_inputs (BuildStatus finalizing c) = length (required_ports c) \<and>
   ris_terminal_inputs (BuildStatus finalizing c) =
     length (filter (\<lambda>i. rc_terminal c ! i) (required_ports c)) \<and>
   ris_missing_inputs (BuildStatus finalizing c) =
     filter (\<lambda>i. \<not> rc_terminal c ! i) (required_ports c) \<and>
   ris_problem_input (BuildStatus finalizing c) =
     (case first_failed c [0..<input_count c] of
        Some i \<Rightarrow> Some i | None \<Rightarrow> first_cancelled c [0..<input_count c])"
proof -
  let ?ports = "[0..<input_count c]"
  let ?s = "fold (status_visit c) ?ports empty_status"
  have problem: "case first_failed c ?ports of
      None \<Rightarrow> ris_problem_input ?s = None \<and> ris_outcome ?s = RI_Open
    | Some i \<Rightarrow> ris_problem_input ?s = Some i \<and> ris_outcome ?s = RI_Failed"
    using status_visit_fold_problem [of empty_status c ?ports]
    by (auto simp: empty_status_def split: option.splits)
  have counts: "ris_required_inputs ?s = length (required_ports c)"
    "ris_terminal_inputs ?s = length (filter (\<lambda>i. rc_terminal c ! i) (required_ports c))"
    "ris_missing_inputs ?s = filter (\<lambda>i. \<not> rc_terminal c ! i) (required_ports c)"
    by (simp_all add: status_visit_fold_counts required_ports_def empty_status_def conj_commute)
  have missing: "filter (\<lambda>i. \<not> rc_terminal c ! i) (required_ports c) = [] \<longleftrightarrow>
      (\<forall>i \<in> set (required_ports c). rc_terminal c ! i)"
    by (auto simp: filter_empty_conv)
  show ?thesis
  proof (cases "first_failed c ?ports")
    case (Some i)
    then have "status_outcome finalizing c = RI_Failed"
      using first_failed_iff [of c] by (auto simp: status_outcome_def)
    then show ?thesis using Some problem counts by (simp add: BuildStatus_def)
  next
    case None
    then have nf: "\<not> (\<exists>i \<in> set (required_ports c). is_EdgeFailure (rc_controls c ! i))"
      using first_failed_iff by blast
    show ?thesis
    proof (cases "first_cancelled c ?ports")
      case (Some i)
      then have "status_outcome finalizing c = RI_Cancelled"
        using nf first_cancelled_iff [of c] by (auto simp: status_outcome_def)
      then show ?thesis
        using None Some problem counts by (simp add: BuildStatus_def cancel_scan_eq)
    next
      case nc: None
      then have "status_outcome finalizing c =
          (if \<forall>i \<in> set (required_ports c). rc_terminal c ! i then RI_Complete
           else if finalizing then RI_Incomplete else RI_Open)"
        using nf first_cancelled_iff [of c] by (auto simp: status_outcome_def)
      then show ?thesis
        using None nc problem counts missing by (auto simp: BuildStatus_def cancel_scan_eq Let_def)
    qed
  qed
qed

text \<open>
  The status computed by \<open>BuildStatus\<close>'s two loops, against its specification: a failed
  required input wins over a cancelled one, which wins over completeness; the problem input
  is the lowest such port; the inputs counted are the required ones, the terminal ones among
  them, and the missing ones listed in port order. \<open>Finalize\<close> turns an open status into
  \<open>Incomplete\<close>.
\<close>

theorem BuildStatus_spec:
  "ris_outcome (BuildStatus finalizing c) = status_outcome finalizing c \<and>
   ris_required_inputs (BuildStatus finalizing c) = length (required_ports c) \<and>
   ris_terminal_inputs (BuildStatus finalizing c) =
     length (filter (\<lambda>i. rc_terminal c ! i) (required_ports c)) \<and>
   ris_missing_inputs (BuildStatus finalizing c) =
     filter (\<lambda>i. \<not> rc_terminal c ! i) (required_ports c) \<and>
   ris_problem_input (BuildStatus finalizing c) =
     (case first_failed c [0..<input_count c] of
        Some i \<Rightarrow> Some i | None \<Rightarrow> first_cancelled c [0..<input_count c])"
  by (rule BuildStatus_closed)

lemma terminal_cases:
  "IsTerminalEdgeControl c \<longleftrightarrow>
     IsSuccessfulTerminalEdgeControl c \<or> is_EdgeFailure c \<or> is_EdgeCancellation c"
  "IsSuccessfulTerminalEdgeControl c \<Longrightarrow> \<not> is_EdgeFailure c \<and> \<not> is_EdgeCancellation c"
  by (cases c; auto)+

text \<open>
  C9. A node's inputs are reported complete exactly when they are. After any sequence of
  \<open>SetRequired\<close> and \<open>Observe\<close> calls on a new tracker, the finalised status is \<open>Complete\<close> if and
  only if every required input ended successfully (end of stream, or a final watermark).
\<close>

theorem Finalize_complete_iff:
  "let c = completion_run ops (RequiredInputCompletion n) in
   RequiredInputStatus_IsComplete (Finalize c) \<longleftrightarrow>
    (\<forall>port < n. rc_required c ! port \<longrightarrow> IsSuccessfulTerminalEdgeControl (Control port c))"
proof -
  define c where "c = completion_run ops (RequiredInputCompletion n)"
  have n: "input_count c = n"
    unfolding c_def input_count_run by (simp add: RequiredInputCompletion_def input_count_def)
  have ok: "completion_ok c"
    unfolding c_def by (intro completion_ok_run completion_ok_init)
  have t: "rc_terminal c ! i \<longleftrightarrow> IsTerminalEdgeControl (rc_controls c ! i)"
    if "i < input_count c" for i
    using ok that by (auto simp: completion_ok_def port_ok_def)
  have "RequiredInputStatus_IsComplete (Finalize c) \<longleftrightarrow> status_outcome True c = RI_Complete"
    using BuildStatus_closed [of True c]
    by (simp add: RequiredInputStatus_IsComplete_def Finalize_def)
  also have "\<dots> \<longleftrightarrow> (\<forall>i \<in> set (required_ports c). rc_terminal c ! i \<and>
      \<not> is_EdgeFailure (rc_controls c ! i) \<and> \<not> is_EdgeCancellation (rc_controls c ! i))"
    by (auto simp: status_outcome_def)
  also have "\<dots> \<longleftrightarrow> (\<forall>port < input_count c. rc_required c ! port \<longrightarrow>
       IsSuccessfulTerminalEdgeControl (Control port c))"
    using t terminal_cases by (auto simp: required_ports_def Control_def)
  finally show ?thesis by (simp add: c_def [symmetric] n Let_def)
qed

theorem Finalize_complete_iff_witness:
  "let c = completion_run [OpSetRequired 1 False, OpObserve 0 (EdgeWatermark 5 False),
             OpObserve 0 (EdgeWatermark 9 True)] (RequiredInputCompletion 2)
   in RequiredInputStatus_IsComplete (Finalize c)"
proof -
  have "completion_run [OpSetRequired 1 False, OpObserve 0 (EdgeWatermark 5 False),
      OpObserve 0 (EdgeWatermark 9 True)] (RequiredInputCompletion 2) =
    \<lparr>rc_required = [True, False], rc_observed = [True, False], rc_terminal = [True, False],
     rc_watermarks = [Some 9, None], rc_controls = [EdgeWatermark 9 True, Monostate]\<rparr>"
    by code_simp
  then show ?thesis
    using Finalize_complete_iff [of "[OpSetRequired 1 False, OpObserve 0 (EdgeWatermark 5 False),
      OpObserve 0 (EdgeWatermark 9 True)]" 2]
    by (simp add: Let_def Control_def input_count_def numeral_2_eq_2 less_Suc_eq)
qed

section \<open>Stability\<close>

lemma Observe_keeps_terminal:
  assumes "completion_ok c" "IsTerminalEdgeControl (Control port c)"
  shows "Control port (completion_step op c) = Control port c"
proof (cases op)
  case (OpSetRequired q b)
  then show ?thesis by (simp add: SetRequired_def Control_def input_count_def)
next
  case (OpObserve q control)
  have "port < input_count c" using assms(2) by (auto simp: Control_def split: if_splits)
  then have "rc_terminal c ! port" using assms by (auto simp: completion_ok_def port_ok_def Control_def)
  with OpObserve assms(1) show ?thesis
    by (auto simp: Observe_def Control_def input_count_def completion_ok_def nth_list_update Let_def
        split: edge_control.split)
qed

text \<open>
  A terminal control is final. Once an input has seen end of stream, cancellation,
  failure or a final watermark, no later sequence of \<open>Observe\<close> and \<open>SetRequired\<close> calls on the
  tracker changes what is recorded for it.
\<close>

theorem terminal_control_is_final:
  assumes "c = completion_run ops (RequiredInputCompletion n)"
    and "IsTerminalEdgeControl (Control port c)"
  shows "Control port (completion_run later c) = Control port c"
proof -
  have "completion_ok c" unfolding assms(1) by (intro completion_ok_run completion_ok_init)
  with assms(2) show ?thesis
    unfolding completion_run_def
  proof (induction later arbitrary: c)
    case (Cons op later)
    have "Control port (completion_step op c) = Control port c"
      using Cons.prems by (intro Observe_keeps_terminal)
    with Cons.IH [of "completion_step op c"] Cons.prems completion_ok_step show ?case by simp
  qed simp
qed

theorem terminal_control_is_final_witness:
  "Control 0 (completion_run [OpObserve 0 (EdgeFailure ''late'')]
     (completion_run [OpObserve 0 EdgeEndOfStream] (RequiredInputCompletion 1))) = EdgeEndOfStream"
  using terminal_control_is_final [OF refl, of 0 "[OpObserve 0 EdgeEndOfStream]" 1
      "[OpObserve 0 (EdgeFailure ''late'')]"]
  by (simp add: completion_run_def RequiredInputCompletion_def Observe_def Control_def
      input_count_def)

lemma watermark_step:
  assumes "completion_ok c" "i < input_count c" "rc_watermarks c ! i = Some w"
  shows "\<exists>w'. rc_watermarks (completion_step op c) ! i = Some w' \<and> w \<le> w'"
proof (cases op)
  case (OpSetRequired q b)
  then show ?thesis using assms by (simp add: SetRequired_def)
next
  case (OpObserve q control)
  then show ?thesis using assms
    by (auto simp: Observe_def input_count_def completion_ok_def nth_list_update Let_def not_less
        split: edge_control.split option.split)
qed

text \<open>
  Watermarks never go back: over any run, the watermark recorded for an input only
  grows (as an unsigned 64-bit value), stale watermarks being refused.
\<close>

theorem watermarks_monotone:
  assumes "c = completion_run ops (RequiredInputCompletion n)" and "i < n"
    and "rc_watermarks c ! i = Some w"
  shows "\<exists>w'. rc_watermarks (completion_run later c) ! i = Some w' \<and> w \<le> w'"
proof -
  have "completion_ok c" unfolding assms(1) by (intro completion_ok_run completion_ok_init)
  moreover have "i < input_count c"
    using assms(1,2) by (simp add: input_count_run) (simp add: RequiredInputCompletion_def input_count_def)
  ultimately show ?thesis
    using assms(3) unfolding completion_run_def
  proof (induction later arbitrary: c w)
    case (Cons op later)
    obtain w1 where w1: "rc_watermarks (completion_step op c) ! i = Some w1" "w \<le> w1"
      using watermark_step Cons.prems by blast
    obtain w2 where "rc_watermarks (fold completion_step later (completion_step op c)) ! i = Some w2"
      "w1 \<le> w2"
      using Cons.IH [of "completion_step op c" w1] Cons.prems w1 completion_ok_step by auto
    with w1 show ?case by auto
  qed simp
qed

theorem watermarks_monotone_witness:
  "\<exists>w'. rc_watermarks (completion_run [OpObserve 0 (EdgeWatermark 3 False)]
      (completion_run [OpObserve 0 (EdgeWatermark 7 False)] (RequiredInputCompletion 1))) ! 0 =
        Some w' \<and> 7 \<le> w'"
  by (rule watermarks_monotone [OF refl, of 0 1])
     (simp_all add: completion_run_def RequiredInputCompletion_def Observe_def input_count_def)

end
