(* ===== verification/Dynamic_Edge.thy ===== *)
theory Dynamic_Edge
  imports Active_Queue
begin

text \<open>
  Runtime ports and the edges between them: \<open>PortFunction\<close>
  (\<open>libgraph/include/graph/PortFunction.hpp\<close>), the port descriptors
  (\<open>libgraph/include/graph/RuntimePort.hpp\<close>) and \<open>DynamicEdge\<close>
  (\<open>libgraph/include/graph/DynamicEdge.hpp\<close>), whose thread moves messages from the queue of
  an output port to the queue of an input port.

  Moving a C++ value out of a variable leaves the variable in a moved-from state; which one
  depends on the message type, so it is the parameter \<open>moved_from\<close>. Between the capacity check
  of \<open>TransferTo\<close> and its \<open>Enqueue\<close> other threads may act on the destination queue; what they
  do is the parameter \<open>meanwhile\<close>.
\<close>

section \<open>Ports\<close>

datatype port_direction = PD_Input | PD_Output

datatype port_error = DirectionMismatch | PayloadTypeMismatch | NullDestination
  | TransportTypeMismatch | CapacityInvalid | TransferFailed

record 'm port_function =
  pf_port_id :: nat
  pf_type_name :: string
  pf_direction :: port_direction
  pf_queue :: "'m active_queue"
  pf_stop_requested :: bool

definition PortFunction :: "nat \<Rightarrow> string \<Rightarrow> port_direction \<Rightarrow> 'm port_function" where
  "PortFunction port_id type_name dir =
     \<lparr>pf_port_id = port_id, pf_type_name = type_name, pf_direction = dir,
      pf_queue = ActiveQueue 0 False, pf_stop_requested = False\<rparr>"

definition PortFunction_SetCapacity :: "nat \<Rightarrow> 'm port_function \<Rightarrow> 'm port_function" where
  "PortFunction_SetCapacity n p = p\<lparr>pf_queue := fst (ActiveQueue_SetCapacity n (pf_queue p))\<rparr>"

definition PortFunction_Init :: "'m port_function \<Rightarrow> bool \<times> 'm port_function" where
  "PortFunction_Init p = (True, p\<lparr>pf_queue := ActiveQueue_Enable (pf_queue p)\<rparr>)"

definition PortFunction_Stop :: "'m port_function \<Rightarrow> 'm port_function" where
  "PortFunction_Stop p =
     p\<lparr>pf_queue := ActiveQueue_Disable (pf_queue p), pf_stop_requested := True\<rparr>"

definition ports_match ::
    "'m port_function \<Rightarrow> 'm port_function \<Rightarrow> (unit, port_error) expected" where
  "ports_match src dst =
     (if pf_direction src \<noteq> PD_Output \<or> pf_direction dst \<noteq> PD_Input then Inl DirectionMismatch
      else if pf_type_name src \<noteq> pf_type_name dst then Inl PayloadTypeMismatch
      else Inr ())"

definition PortFunction_ConnectTo ::
    "nat \<Rightarrow> 'm port_function \<Rightarrow> 'm port_function \<Rightarrow>
     (unit, port_error) expected \<times> 'm port_function \<times> 'm port_function" where
  "PortFunction_ConnectTo capacity src dst =
     (case ports_match src dst of
        Inl e \<Rightarrow> (Inl e, src, dst)
      | Inr _ \<Rightarrow> (Inr (), PortFunction_SetCapacity capacity src, PortFunction_SetCapacity capacity dst))"

text \<open>
  \<open>Enqueue\<close> on a port's queue, which is constructed non-blocking: a full queue refuses.
\<close>

definition port_enqueue :: "'m \<Rightarrow> 'm port_function \<Rightarrow> bool \<times> 'm port_function" where
  "port_enqueue x p =
     (case ActiveQueue_Enqueue_enter False 0 x (pf_queue p) of
        Ret (b, q) \<Rightarrow> (b, p\<lparr>pf_queue := q\<rparr>)
      | Wait \<Rightarrow> (False, p))"

text \<open>
  With equal type names the downcast \<open>GetQueueIfType\<close> succeeds, so \<open>NullDestination\<close> cannot
  arise here. \<open>Enqueue\<close> takes its argument by value: after the first call \<open>item\<close> is moved-from
  whether or not the destination accepted it.
\<close>

definition PortFunction_TransferTo ::
    "('m \<Rightarrow> 'm) \<Rightarrow> ('m active_queue \<Rightarrow> 'm active_queue) \<Rightarrow> 'm port_function \<Rightarrow> 'm port_function \<Rightarrow>
     (bool, port_error) expected \<times> 'm port_function \<times> 'm port_function" where
  "PortFunction_TransferTo moved_from meanwhile src dst =
     (case ports_match src dst of
        Inl e \<Rightarrow> (Inl e, src, dst)
      | Inr _ \<Rightarrow>
          if 0 < q_capacity (pf_queue dst) \<and> q_capacity (pf_queue dst) \<le> ActiveQueue_Size (pf_queue dst)
          then (Inl TransferFailed, src, dst)
          else
            case ActiveQueue_DequeueNonBlocking (pf_queue src) of
              (None, q) \<Rightarrow> (Inr False, src\<lparr>pf_queue := q\<rparr>, dst)
            | (Some item, q) \<Rightarrow>
                let src1 = src\<lparr>pf_queue := q\<rparr>;
                    dst1 = dst\<lparr>pf_queue := meanwhile (pf_queue dst)\<rparr>
                in case port_enqueue item dst1 of
                     (True, dst2) \<Rightarrow> (Inr True, src1, dst2)
                   | (False, dst2) \<Rightarrow>
                       (Inl TransferFailed, snd (port_enqueue (moved_from item) src1), dst2))"

section \<open>DynamicEdge\<close>

record port_descriptor =
  pd_id :: nat
  pd_name :: string
  pd_direction :: port_direction
  pd_payload_type :: string
  pd_transport_type :: string

record port_handle =
  ph_node_index :: nat
  ph_descriptor :: port_descriptor
  ph_has_port :: bool

definition ValidateDynamicEdgeCompatibility ::
    "port_handle \<Rightarrow> port_handle \<Rightarrow> nat \<Rightarrow> (unit, port_error) expected" where
  "ValidateDynamicEdgeCompatibility source destination capacity =
     (let s = ph_descriptor source; d = ph_descriptor destination in
      if capacity = 0 then Inl CapacityInvalid
      else if pd_direction s \<noteq> PD_Output \<or> pd_direction d \<noteq> PD_Input then Inl DirectionMismatch
      else if pd_payload_type s \<noteq> pd_payload_type d then Inl PayloadTypeMismatch
      else if pd_transport_type s \<noteq> [] \<and> pd_transport_type d \<noteq> [] \<and>
              pd_transport_type s \<noteq> pd_transport_type d then Inl TransportTypeMismatch
      else Inr ())"

definition executable_handles :: "port_handle \<Rightarrow> port_handle \<Rightarrow> bool" where
  "executable_handles source destination \<longleftrightarrow> ph_has_port source \<and> ph_has_port destination \<and>
     pd_transport_type (ph_descriptor source) \<noteq> ''runtime.descriptor'' \<and>
     pd_transport_type (ph_descriptor destination) \<noteq> ''runtime.descriptor''"

record edge_metrics =
  em_messages_enqueued :: u64
  em_messages_dequeued :: u64
  em_messages_rejected :: u64
  em_total_queue_time_ns :: u64
  em_backpressure_events :: u64
  em_peak_queue_depth :: u64
  em_initialized :: bool
  em_started :: bool

definition zero_edge_metrics :: edge_metrics where
  "zero_edge_metrics = \<lparr>em_messages_enqueued = 0, em_messages_dequeued = 0,
     em_messages_rejected = 0, em_total_queue_time_ns = 0, em_backpressure_events = 0,
     em_peak_queue_depth = 0, em_initialized = False, em_started = False\<rparr>"

record thread_metrics =
  tm_total_iterations :: u64
  tm_transfer_calls :: u64
  tm_total_transfer_time_ns :: u64
  tm_total_idle_time_ns :: u64
  tm_total_queue_wait_ns :: u64
  tm_thread_active :: bool
  tm_active_thread_count :: u64

definition zero_thread_metrics :: thread_metrics where
  "zero_thread_metrics = \<lparr>tm_total_iterations = 0, tm_transfer_calls = 0,
     tm_total_transfer_time_ns = 0, tm_total_idle_time_ns = 0, tm_total_queue_wait_ns = 0,
     tm_thread_active = False, tm_active_thread_count = 0\<rparr>"

text \<open>The edge with the two ports it connects. \<open>de_joinable\<close>: \<open>transfer_thread_.joinable()\<close>.\<close>

record 'm dynamic_edge =
  de_source :: port_handle
  de_destination :: port_handle
  de_src :: "'m port_function"
  de_dst :: "'m port_function"
  de_capacity :: nat
  de_metrics :: edge_metrics
  de_thread_metrics :: thread_metrics
  de_joinable :: bool
  de_thread_exited :: bool
  de_initialized :: bool
  de_running :: bool

definition DynamicEdge ::
    "port_handle \<Rightarrow> port_handle \<Rightarrow> 'm port_function \<Rightarrow> 'm port_function \<Rightarrow> nat \<Rightarrow> 'm dynamic_edge" where
  "DynamicEdge source destination src dst capacity =
     \<lparr>de_source = source, de_destination = destination, de_src = src, de_dst = dst,
      de_capacity = capacity, de_metrics = zero_edge_metrics,
      de_thread_metrics = zero_thread_metrics, de_joinable = False, de_thread_exited = True,
      de_initialized = False, de_running = False\<rparr>"

definition DynamicEdge_Init :: "'m dynamic_edge \<Rightarrow> bool \<times> 'm dynamic_edge" where
  "DynamicEdge_Init e =
     (if \<not> has_value (ValidateDynamicEdgeCompatibility (de_source e) (de_destination e) (de_capacity e))
      then (False, e)
      else if \<not> executable_handles (de_source e) (de_destination e) then (False, e)
      else case PortFunction_ConnectTo (de_capacity e) (de_src e) (de_dst e) of
        (Inl _, src, dst) \<Rightarrow> (False, e\<lparr>de_src := src, de_dst := dst\<rparr>)
      | (Inr _, src, dst) \<Rightarrow>
          (True, e\<lparr>de_src := src, de_dst := dst, de_initialized := True,
             de_metrics := (de_metrics e)\<lparr>em_initialized := True\<rparr>\<rparr>))"

definition DynamicEdge_Start :: "'m dynamic_edge \<Rightarrow> bool \<times> 'm dynamic_edge" where
  "DynamicEdge_Start e =
     (if \<not> de_initialized e then (False, e)
      else
        let e1 = e\<lparr>de_running := True\<rparr>;
            e2 = (if ph_has_port (de_source e) \<and> ph_has_port (de_destination e) \<and> \<not> de_joinable e
                  then e1\<lparr>de_thread_exited := False, de_joinable := True\<rparr>
                  else e1\<lparr>de_thread_exited := True\<rparr>)
        in (True, e2\<lparr>de_metrics := (de_metrics e2)\<lparr>em_started := True\<rparr>\<rparr>))"

definition DynamicEdge_Stop :: "'m dynamic_edge \<Rightarrow> 'm dynamic_edge" where
  "DynamicEdge_Stop e = e\<lparr>de_running := False\<rparr>"

text \<open>
  A timed join waits for the thread. What the thread does meanwhile is the argument
  \<open>settle\<close>: \<open>Some (d, e')\<close> when it has exited after \<open>d\<close> milliseconds, the edge then being
  \<open>e'\<close>; \<open>None\<close> when it does not exit. The result tells the outcome and the time waited.
\<close>

definition DynamicEdge_JoinWithTimeout ::
    "('m dynamic_edge \<Rightarrow> (nat \<times> 'm dynamic_edge) option) \<Rightarrow> int \<Rightarrow> 'm dynamic_edge \<Rightarrow>
     (bool \<times> int) \<times> 'm dynamic_edge" where
  "DynamicEdge_JoinWithTimeout settle timeout_ms e =
     (if \<not> de_joinable e then ((True, 0), e)
      else case settle e of
        Some (d, e') \<Rightarrow>
          if int d \<le> timeout_ms then ((True, int d), e'\<lparr>de_joinable := False\<rparr>)
          else ((False, timeout_ms), e)
      | None \<Rightarrow> ((False, timeout_ms), e))"

definition IsFatalTransferError :: "port_error \<Rightarrow> bool" where
  "IsFatalTransferError e \<longleftrightarrow> e \<in> {DirectionMismatch, PayloadTypeMismatch, NullDestination,
     TransportTypeMismatch, CapacityInvalid}"

definition observe_depth :: "'m dynamic_edge \<Rightarrow> 'm dynamic_edge" where
  "observe_depth e = e\<lparr>de_metrics := (de_metrics e)
     \<lparr>em_peak_queue_depth := max (em_peak_queue_depth (de_metrics e))
        (of_nat (ActiveQueue_Size (pf_queue (de_dst e))))\<rparr>\<rparr>"

definition idle_time :: "u64 \<Rightarrow> 'm dynamic_edge \<Rightarrow> 'm dynamic_edge" where
  "idle_time idle_ns e = e\<lparr>de_thread_metrics := (de_thread_metrics e)
     \<lparr>tm_total_idle_time_ns := tm_total_idle_time_ns (de_thread_metrics e) + idle_ns,
      tm_total_queue_wait_ns := tm_total_queue_wait_ns (de_thread_metrics e) + idle_ns\<rparr>\<rparr>"

text \<open>
  One turn of the transfer thread's loop; \<open>False\<close> as first component: the loop is left.
\<close>

definition transfer_turn ::
    "('m \<Rightarrow> 'm) \<Rightarrow> ('m active_queue \<Rightarrow> 'm active_queue) \<Rightarrow> u64 \<Rightarrow> u64 \<Rightarrow> 'm dynamic_edge \<Rightarrow>
     bool \<times> 'm dynamic_edge" where
  "transfer_turn moved_from meanwhile transfer_ns idle_ns e =
     (if \<not> de_running e then (False, e)
      else case PortFunction_TransferTo moved_from meanwhile (de_src e) (de_dst e) of
        (r, src, dst) \<Rightarrow>
          let e1 = e\<lparr>de_src := src, de_dst := dst, de_thread_metrics := (de_thread_metrics e)
                \<lparr>tm_total_iterations := tm_total_iterations (de_thread_metrics e) + 1\<rparr>\<rparr>
          in case r of
            Inl err \<Rightarrow>
              let e2 = e1\<lparr>de_thread_metrics := (de_thread_metrics e1)
                     \<lparr>tm_total_idle_time_ns := tm_total_idle_time_ns (de_thread_metrics e1) + transfer_ns\<rparr>,
                    de_metrics := (de_metrics e1)
                     \<lparr>em_messages_rejected := em_messages_rejected (de_metrics e1) + 1,
                      em_backpressure_events := em_backpressure_events (de_metrics e1) + 1\<rparr>\<rparr>
              in if IsFatalTransferError err then (False, e2\<lparr>de_running := False\<rparr>)
                 else (True, idle_time idle_ns e2)
          | Inr True \<Rightarrow>
              (True, observe_depth (e1\<lparr>de_thread_metrics := (de_thread_metrics e1)
                   \<lparr>tm_transfer_calls := tm_transfer_calls (de_thread_metrics e1) + 1,
                    tm_total_transfer_time_ns :=
                      tm_total_transfer_time_ns (de_thread_metrics e1) + transfer_ns\<rparr>,
                  de_metrics := (de_metrics e1)
                   \<lparr>em_messages_enqueued := em_messages_enqueued (de_metrics e1) + 1,
                    em_messages_dequeued := em_messages_dequeued (de_metrics e1) + 1,
                    em_total_queue_time_ns := em_total_queue_time_ns (de_metrics e1) + transfer_ns\<rparr>\<rparr>))
          | Inr False \<Rightarrow> (True, observe_depth (idle_time idle_ns e1)))"

text \<open>What the thread does when it leaves the loop.\<close>

definition transfer_exit :: "'m dynamic_edge \<Rightarrow> 'm dynamic_edge" where
  "transfer_exit e = e\<lparr>de_thread_metrics := (de_thread_metrics e)
     \<lparr>tm_thread_active := False, tm_active_thread_count := 0\<rparr>, de_thread_exited := True\<rparr>"

section \<open>Delivery\<close>

text \<open>
  A run of an edge: its producer enqueues into the source port, its thread takes turns, its
  consumer dequeues from the destination port. \<open>Turn k ...\<close> is a turn during which the
  consumer takes up to \<open>k\<close> messages between the capacity check and the enqueue. The run
  records what was accepted from the producer and what the consumer received.
\<close>

datatype 'm edge_event = Produce 'm | Consume | Turn nat u64 u64

record 'm edge_run =
  er_edge :: "'m dynamic_edge"
  er_sent :: "'m list"
  er_received :: "'m list"

definition pops :: "nat \<Rightarrow> 'm active_queue \<Rightarrow> 'm active_queue" where
  "pops k q = ((\<lambda>q. snd (ActiveQueue_DequeueNonBlocking q)) ^^ k) q"

fun edge_event_step :: "('m \<Rightarrow> 'm) \<Rightarrow> 'm edge_event \<Rightarrow> 'm edge_run \<Rightarrow> 'm edge_run" where
  "edge_event_step mv (Produce x) r =
     (case port_enqueue x (de_src (er_edge r)) of
        (b, src) \<Rightarrow> r\<lparr>er_edge := (er_edge r)\<lparr>de_src := src\<rparr>,
                      er_sent := (if b then er_sent r @ [x] else er_sent r)\<rparr>)"
| "edge_event_step mv Consume r =
     (case ActiveQueue_DequeueNonBlocking (pf_queue (de_dst (er_edge r))) of
        (x, q) \<Rightarrow> r\<lparr>er_edge := (er_edge r)\<lparr>de_dst := (de_dst (er_edge r))\<lparr>pf_queue := q\<rparr>\<rparr>,
                      er_received := er_received r @ (case x of None \<Rightarrow> [] | Some m \<Rightarrow> [m])\<rparr>)"
| "edge_event_step mv (Turn k transfer_ns idle_ns) r =
     r\<lparr>er_edge := snd (transfer_turn mv (pops k) transfer_ns idle_ns (er_edge r)),
       er_received := er_received r @
         (if de_running (er_edge r) \<and>
             fst (PortFunction_TransferTo mv (pops k) (de_src (er_edge r)) (de_dst (er_edge r))) = Inr True
          then take k (q_deque (pf_queue (de_dst (er_edge r)))) else [])\<rparr>"

definition edge_events :: "('m \<Rightarrow> 'm) \<Rightarrow> 'm edge_event list \<Rightarrow> 'm edge_run \<Rightarrow> 'm edge_run" where
  "edge_events mv evs r = fold (edge_event_step mv) evs r"

text \<open>An edge whose ports fit together and are enabled, with plain FIFO queues.\<close>

definition edge_live :: "'m dynamic_edge \<Rightarrow> bool" where
  "edge_live e \<longleftrightarrow> ports_match (de_src e) (de_dst e) = Inr () \<and>
     q_comparator (pf_queue (de_src e)) = None \<and> q_comparator (pf_queue (de_dst e)) = None \<and>
     \<not> q_exit (pf_queue (de_dst e))"

lemma ports_match_ok:
  "ports_match src dst = Inr u \<longleftrightarrow> pf_direction src = PD_Output \<and> pf_direction dst = PD_Input \<and>
     pf_type_name src = pf_type_name dst"
  by (auto simp: ports_match_def)

lemma pop_once:
  "q_deque (snd (ActiveQueue_DequeueNonBlocking q)) = tl (q_deque q)"
  "q_exit (snd (ActiveQueue_DequeueNonBlocking q)) = q_exit q"
  "q_comparator (snd (ActiveQueue_DequeueNonBlocking q)) = q_comparator q"
  "q_capacity (snd (ActiveQueue_DequeueNonBlocking q)) = q_capacity q"
  by (simp_all add: ActiveQueue_DequeueNonBlocking_def split: list.split)

lemma pops_simps [simp]:
  "q_deque (pops k q) = drop k (q_deque q)" "q_exit (pops k q) = q_exit q"
  "q_comparator (pops k q) = q_comparator q" "q_capacity (pops k q) = q_capacity q"
  unfolding pops_def by (induction k) (simp_all add: pop_once drop_Suc tl_drop)

lemma port_enqueue_simps:
  assumes "port_enqueue x p = (b, p')"
  shows "pf_direction p' = pf_direction p" "pf_type_name p' = pf_type_name p"
    "q_exit (pf_queue p') = q_exit (pf_queue p)"
    "q_comparator (pf_queue p') = q_comparator (pf_queue p)"
    "q_comparator (pf_queue p) = None \<Longrightarrow>
      q_deque (pf_queue p') = q_deque (pf_queue p) @ (if b then [x] else [])"
  using assms
  by (auto simp: port_enqueue_def push_defs insert_element_def split: if_splits entry.splits option.splits)

lemma port_enqueue_accepts:
  "\<not> q_exit (pf_queue p) \<Longrightarrow> \<not> is_full (pf_queue p) \<Longrightarrow> fst (port_enqueue x p)"
  by (simp add: port_enqueue_def push_defs)

lemma TransferTo_stream:
  assumes "edge_live e"
    and "PortFunction_TransferTo mv (pops k) (de_src e) (de_dst e) = (r, src, dst)"
  shows "edge_live (e\<lparr>de_src := src, de_dst := dst\<rparr>) \<and>
    (if r = Inr True then take k (q_deque (pf_queue (de_dst e))) else []) @
      q_deque (pf_queue dst) @ q_deque (pf_queue src) =
    q_deque (pf_queue (de_dst e)) @ q_deque (pf_queue (de_src e))"
proof (cases "is_full (pf_queue (de_dst e)) \<or> q_deque (pf_queue (de_src e)) = []")
  case True
  then show ?thesis using assms
    by (auto simp: PortFunction_TransferTo_def edge_live_def is_full_def ActiveQueue_Size_def
        ActiveQueue_DequeueNonBlocking_def ports_match_def split: if_splits list.splits)
next
  case False
  then obtain m ms where src: "q_deque (pf_queue (de_src e)) = m # ms"
    by (cases "q_deque (pf_queue (de_src e))") auto
  let ?dst1 = "(de_dst e)\<lparr>pf_queue := pops k (pf_queue (de_dst e))\<rparr>"
  obtain dst2 where enq: "port_enqueue m ?dst1 = (True, dst2)"
    using port_enqueue_accepts [of ?dst1 m] False assms(1)
    by (cases "port_enqueue m ?dst1") (auto simp: edge_live_def is_full_def)
  note d = port_enqueue_simps [OF enq]
  have "r = Inr True" "dst = dst2"
    and "src = (de_src e)\<lparr>pf_queue := snd (ActiveQueue_DequeueNonBlocking (pf_queue (de_src e)))\<rparr>"
    using assms False src enq
    by (auto simp: PortFunction_TransferTo_def edge_live_def is_full_def ActiveQueue_Size_def
        ActiveQueue_DequeueNonBlocking_def)
  then show ?thesis
    using assms(1) d src by (simp add: edge_live_def ports_match_ok pop_once)
qed

definition stream_ok :: "'m edge_run \<Rightarrow> bool" where
  "stream_ok r \<longleftrightarrow> edge_live (er_edge r) \<and>
     er_sent r = er_received r @ q_deque (pf_queue (de_dst (er_edge r))) @
       q_deque (pf_queue (de_src (er_edge r)))"

lemma transfer_turn_ports:
  assumes "de_running e"
    and "PortFunction_TransferTo mv mw (de_src e) (de_dst e) = (r, src, dst)"
  shows "de_src (snd (transfer_turn mv mw a b e)) = src"
    "de_dst (snd (transfer_turn mv mw a b e)) = dst"
  using assms
  by (auto simp: transfer_turn_def Let_def observe_depth_def idle_time_def split: sum.splits bool.splits)

lemma edge_live_cong:
  "de_src e = de_src e' \<Longrightarrow> de_dst e = de_dst e' \<Longrightarrow> edge_live e = edge_live e'"
  by (simp add: edge_live_def)

lemma stream_ok_step: "stream_ok r \<Longrightarrow> stream_ok (edge_event_step mv ev r)"
proof (cases ev)
  case (Produce x)
  obtain b src where p: "port_enqueue x (de_src (er_edge r)) = (b, src)" by fastforce
  assume "stream_ok r"
  with p Produce port_enqueue_simps [OF p] show ?thesis
    by (auto simp: stream_ok_def edge_live_def ports_match_ok)
next
  case Consume
  assume "stream_ok r"
  with Consume show ?thesis
    by (auto simp: stream_ok_def edge_live_def ports_match_ok ActiveQueue_DequeueNonBlocking_def
        split: list.splits)
next
  case (Turn k t i)
  assume ok: "stream_ok r"
  obtain res src dst where
    tr: "PortFunction_TransferTo mv (pops k) (de_src (er_edge r)) (de_dst (er_edge r)) = (res, src, dst)"
    using prod_cases3 by blast
  show ?thesis
  proof (cases "de_running (er_edge r)")
    case False
    then show ?thesis using ok Turn by (simp add: stream_ok_def transfer_turn_def)
  next
    case True
    let ?e = "snd (transfer_turn mv (pops k) t i (er_edge r))"
    have "de_src ?e = src" "de_dst ?e = dst" using transfer_turn_ports [OF True tr] by auto
    moreover have "edge_live ?e"
      using TransferTo_stream [OF _ tr] ok calculation
        edge_live_cong [of ?e "(er_edge r)\<lparr>de_src := src, de_dst := dst\<rparr>"]
      by (simp add: stream_ok_def)
    ultimately show ?thesis
      using Turn True ok tr TransferTo_stream [OF _ tr] by (simp add: stream_ok_def)
  qed
qed

text \<open>
  C10. An edge delivers every message exactly once and in order. For an edge whose ports match
  and stay enabled, under any interleaving of the producer, the edge's thread and the
  consumer (who may run between the thread's capacity check and its enqueue), what the
  consumer received, followed by the destination queue, followed by the source queue, is
  exactly the sequence of messages the source port accepted.
\<close>

theorem edge_delivers_in_order:
  assumes "edge_live e" and "q_deque (pf_queue (de_src e)) = []"
    and "q_deque (pf_queue (de_dst e)) = []"
    and "r = edge_events mv evs \<lparr>er_edge = e, er_sent = [], er_received = []\<rparr>"
  shows "er_sent r = er_received r @ q_deque (pf_queue (de_dst (er_edge r))) @
    q_deque (pf_queue (de_src (er_edge r)))"
proof -
  have "stream_ok \<lparr>er_edge = e, er_sent = [], er_received = []\<rparr>"
    using assms(1-3) by (simp add: stream_ok_def)
  then have "stream_ok r"
    unfolding assms(4) edge_events_def
    by (induction evs arbitrary: e rule: rev_induct) (auto simp: stream_ok_step)
  then show ?thesis by (simp add: stream_ok_def)
qed

definition sample_edge :: "nat dynamic_edge" where
  "sample_edge = (DynamicEdge
     \<lparr>ph_node_index = 0, ph_descriptor = \<lparr>pd_id = 0, pd_name = [], pd_direction = PD_Output,
        pd_payload_type = ''n'', pd_transport_type = ''q''\<rparr>, ph_has_port = True\<rparr>
     \<lparr>ph_node_index = 1, ph_descriptor = \<lparr>pd_id = 0, pd_name = [], pd_direction = PD_Input,
        pd_payload_type = ''n'', pd_transport_type = ''q''\<rparr>, ph_has_port = True\<rparr>
     (PortFunction 0 ''n'' PD_Output) (PortFunction 0 ''n'' PD_Input) 1)
     \<lparr>de_initialized := True, de_running := True\<rparr>"

theorem edge_delivers_in_order_witness:
  "let r = edge_events id [Produce 4, Produce 5, Turn 0 0 0, Consume, Turn 0 0 0, Produce 6]
             \<lparr>er_edge = sample_edge, er_sent = [], er_received = []\<rparr>
   in er_received r = [4] \<and> er_sent r = [4, 5, 6] \<and>
      er_sent r = er_received r @ q_deque (pf_queue (de_dst (er_edge r))) @
        q_deque (pf_queue (de_src (er_edge r)))"
proof -
  let ?r = "edge_events id [Produce 4, Produce 5, Turn 0 0 0, Consume, Turn 0 0 0, Produce 6]
             \<lparr>er_edge = sample_edge, er_sent = [], er_received = []\<rparr>"
  have "edge_live sample_edge" "q_deque (pf_queue (de_src sample_edge)) = []"
    "q_deque (pf_queue (de_dst sample_edge)) = []"
    by (simp_all add: sample_edge_def DynamicEdge_def edge_live_def ports_match_ok PortFunction_def
        ActiveQueue_def)
  note t = edge_delivers_in_order [OF this refl, of id "[Produce 4, Produce 5, Turn 0 0 0, Consume,
      Turn 0 0 0, Produce 6]"]
  have "er_received ?r = [4]" "er_sent ?r = [4, 5, 6]"
    by code_simp+
  with t show ?thesis by (simp add: Let_def)
qed

section \<open>Failed transfers\<close>

text \<open>
  A transfer whose destination refuses the message does not put it back. The recovery
  code re-enqueues the variable it has already moved from, and at the back of the source
  queue: the message is replaced by its moved-from remainder and, even if that equals the
  message, falls behind all those queued after it.
\<close>

theorem failed_transfer_loses_message:
  assumes "ports_match src dst = Inr ()" and "q_deque (pf_queue src) = m # ms"
    and "\<not> is_full (pf_queue dst)" and "q_exit (meanwhile (pf_queue dst))"
    and "\<not> q_exit (pf_queue src)" and "q_comparator (pf_queue src) = None"
    and "q_capacity (pf_queue src) = 0 \<or> length (m # ms) \<le> q_capacity (pf_queue src)"
    and "PortFunction_TransferTo moved_from meanwhile src dst = (r, src', dst')"
  shows "r = Inl TransferFailed \<and> q_deque (pf_queue src') = ms @ [moved_from m] \<and>
    q_deque (pf_queue dst') = q_deque (meanwhile (pf_queue dst))"
proof -
  let ?dst1 = "dst\<lparr>pf_queue := meanwhile (pf_queue dst)\<rparr>"
  let ?src1 = "src\<lparr>pf_queue := snd (ActiveQueue_DequeueNonBlocking (pf_queue src))\<rparr>"
  have refuse: "port_enqueue m ?dst1 = (False, ?dst1\<lparr>pf_queue := reject_enqueue (pf_queue ?dst1)\<rparr>)"
    using assms(4) by (simp add: port_enqueue_def push_defs)
  have room: "\<not> is_full (pf_queue ?src1)"
    using assms(2,7) by (auto simp: is_full_def pop_once)
  then obtain src2 where requeue: "port_enqueue (moved_from m) ?src1 = (True, src2)"
    using port_enqueue_accepts [of ?src1 "moved_from m"] assms(5)
    by (cases "port_enqueue (moved_from m) ?src1") (auto simp: pop_once)
  have "r = Inl TransferFailed \<and> src' = src2 \<and> q_deque (pf_queue dst') = q_deque (meanwhile (pf_queue dst))"
    using assms refuse requeue
    by (auto simp: PortFunction_TransferTo_def is_full_def ActiveQueue_Size_def
        ActiveQueue_DequeueNonBlocking_def)
  moreover have "q_deque (pf_queue src2) = ms @ [moved_from m]"
    using port_enqueue_simps(5) [OF requeue] assms(2,6) by (simp add: pop_once)
  ultimately show ?thesis by simp
qed

theorem failed_transfer_loses_message_witness:
  "\<exists>src' dst'. PortFunction_TransferTo (\<lambda>_. 0) ActiveQueue_Disable
      ((PortFunction 0 ''n'' PD_Output)\<lparr>pf_queue := (ActiveQueue 0 False)\<lparr>q_deque := [7, 8::nat]\<rparr>\<rparr>)
      (PortFunction 0 ''n'' PD_Input) = (Inl TransferFailed, src', dst') \<and>
      q_deque (pf_queue src') = [8, 0]"
proof -
  let ?src = "(PortFunction 0 ''n'' PD_Output)\<lparr>pf_queue := (ActiveQueue 0 False)\<lparr>q_deque := [7, 8::nat]\<rparr>\<rparr>"
  let ?dst = "PortFunction 0 ''n'' PD_Input :: nat port_function"
  obtain r src' dst' where
    t: "PortFunction_TransferTo (\<lambda>_. 0) ActiveQueue_Disable ?src ?dst = (r, src', dst')"
    using prod_cases3 by blast
  have "r = Inl TransferFailed \<and> q_deque (pf_queue src') = [8] @ [0] \<and>
      q_deque (pf_queue dst') = q_deque (ActiveQueue_Disable (pf_queue ?dst))"
    by (rule failed_transfer_loses_message [OF _ _ _ _ _ _ _ t, of 7 "[8]"])
       (simp_all add: ports_match_def PortFunction_def ActiveQueue_def is_full_def
         ActiveQueue_Disable_def)
  with t show ?thesis by auto
qed

section \<open>Initialised edges\<close>

lemma ConnectTo_ok:
  assumes "PortFunction_ConnectTo n src dst = (Inr u, src', dst')"
  shows "ports_match src' dst' = Inr () \<and> q_capacity (pf_queue src') = n \<and>
    q_capacity (pf_queue dst') = n"
  using assms
  by (auto simp: PortFunction_ConnectTo_def PortFunction_SetCapacity_def ActiveQueue_SetCapacity_def
      ports_match_def split: if_splits)

lemma TransferTo_not_fatal:
  assumes "ports_match src dst = Inr ()"
    and "PortFunction_TransferTo mv mw src dst = (Inl err, src', dst')"
  shows "\<not> IsFatalTransferError err"
  using assms
  by (auto simp: PortFunction_TransferTo_def IsFatalTransferError_def Let_def
      split: if_splits prod.splits option.splits bool.splits)

lemma port_enqueue_kind [simp]:
  "pf_direction (snd (port_enqueue x p)) = pf_direction p"
  "pf_type_name (snd (port_enqueue x p)) = pf_type_name p"
  using port_enqueue_simps(1,2) [of x p "fst (port_enqueue x p)" "snd (port_enqueue x p)"] by simp_all

lemma TransferTo_match:
  assumes "ports_match src dst = Inr ()"
    and "PortFunction_TransferTo mv mw src dst = (r, src', dst')"
  shows "ports_match src' dst' = Inr ()"
proof -
  have "pf_direction src' = pf_direction src \<and> pf_type_name src' = pf_type_name src \<and>
      pf_direction dst' = pf_direction dst \<and> pf_type_name dst' = pf_type_name dst"
    using assms
    by (auto simp: PortFunction_TransferTo_def Let_def dest: port_enqueue_simps(1,2)
        split: if_splits prod.splits option.splits bool.splits)
  with assms(1) show ?thesis by (simp add: ports_match_ok)
qed

fun turns ::
    "('m \<Rightarrow> 'm) \<Rightarrow> (('m active_queue \<Rightarrow> 'm active_queue) \<times> u64 \<times> u64) list \<Rightarrow> 'm dynamic_edge \<Rightarrow>
     bool \<times> 'm dynamic_edge" where
  "turns mv [] e = (True, e)"
| "turns mv ((mw, t, i) # ts) e =
     (case transfer_turn mv mw t i e of
        (True, e') \<Rightarrow> turns mv ts e'
      | (False, e') \<Rightarrow> (False, e'))"

lemma transfer_turn_continues:
  assumes "ports_match (de_src e) (de_dst e) = Inr ()" "de_running e"
  shows "fst (transfer_turn mv mw t i e) \<and> de_running (snd (transfer_turn mv mw t i e)) \<and>
    ports_match (de_src (snd (transfer_turn mv mw t i e))) (de_dst (snd (transfer_turn mv mw t i e))) = Inr ()"
proof -
  obtain r src dst where tr: "PortFunction_TransferTo mv mw (de_src e) (de_dst e) = (r, src, dst)"
    using prod_cases3 by blast
  have "ports_match src dst = Inr ()" by (rule TransferTo_match [OF assms(1) tr])
  moreover have "r = Inl err \<Longrightarrow> \<not> IsFatalTransferError err" for err
    using TransferTo_not_fatal [OF assms(1)] tr by blast
  ultimately show ?thesis
    using assms tr
    by (auto simp: transfer_turn_def Let_def observe_depth_def idle_time_def
        split: sum.splits bool.splits)
qed

text \<open>
  An edge that was initialised and started keeps running: after a successful \<open>Init\<close> and
  \<open>Start\<close> both queues have the configured positive capacity, and no number of turns of its
  thread, whatever other threads do to the destination, ends the loop by a fatal error. Only
  \<open>Stop\<close> ends it.
\<close>

theorem initialised_edge_keeps_running:
  assumes "DynamicEdge_Init e = (True, e1)" and "DynamicEdge_Start e1 = (True, e2)"
  shows "0 < de_capacity e \<and> q_capacity (pf_queue (de_src e2)) = de_capacity e \<and>
    q_capacity (pf_queue (de_dst e2)) = de_capacity e \<and> fst (turns mv ts e2)"
proof -
  have i: "0 < de_capacity e \<and> ports_match (de_src e1) (de_dst e1) = Inr () \<and>
      q_capacity (pf_queue (de_src e1)) = de_capacity e \<and>
      q_capacity (pf_queue (de_dst e1)) = de_capacity e"
    using assms(1)
    by (auto simp: DynamicEdge_Init_def ValidateDynamicEdgeCompatibility_def Let_def
        dest: ConnectTo_ok split: if_splits prod.splits sum.splits)
  have s: "de_src e2 = de_src e1" "de_dst e2 = de_dst e1" "de_running e2"
    using assms(2) by (auto simp: DynamicEdge_Start_def Let_def split: if_splits)
  have "fst (turns mv ts e)" if "ports_match (de_src e) (de_dst e) = Inr ()" "de_running e" for e
    using that
  proof (induction ts arbitrary: e)
    case (Cons x ts)
    obtain mw t i where x: "x = (mw, t, i)" by (cases x)
    obtain e' where "transfer_turn mv mw t i e = (True, e')" "de_running e'"
      "ports_match (de_src e') (de_dst e') = Inr ()"
      using transfer_turn_continues [OF Cons.prems, of mv mw t i]
      by (cases "transfer_turn mv mw t i e") auto
    then show ?case using Cons.IH x by simp
  qed simp
  with i s show ?thesis by simp
qed

theorem initialised_edge_keeps_running_witness:
  "fst (turns id [(ActiveQueue_Disable, 3, 4)]
     (snd (DynamicEdge_Start (snd (DynamicEdge_Init sample_edge)))))"
proof -
  have "fst (DynamicEdge_Init sample_edge)" "fst (DynamicEdge_Start (snd (DynamicEdge_Init sample_edge)))"
    by (simp_all add: sample_edge_def DynamicEdge_def DynamicEdge_Init_def executable_handles_def
        ValidateDynamicEdgeCompatibility_def PortFunction_ConnectTo_def ports_match_def
        PortFunction_def DynamicEdge_Start_def Let_def)
  then show ?thesis
    using initialised_edge_keeps_running [of sample_edge "snd (DynamicEdge_Init sample_edge)"
        "snd (DynamicEdge_Start (snd (DynamicEdge_Init sample_edge)))" id "[(ActiveQueue_Disable, 3, 4)]"]
    by (simp add: prod_eq_iff)
qed

end
