(* ===== verification/Thread_Pool.thy ===== *)
theory Thread_Pool
  imports Active_Queue
begin

text \<open>
  \<open>graph::ThreadPool\<close> (\<open>libgraph/src/graph/ThreadPool.cpp\<close>, \<open>libgraph/include/graph/ThreadPool.hpp\<close>).

  The methods are built from the pieces between two atomic accesses, because other threads
  run in between: \<open>QueueTask\<close> is check, enqueue, count; \<open>Stop\<close> is request, disable, drain;
  a worker alternates between its loop test, \<open>Dequeue\<close>, the second stop test and
  \<open>ExecuteTask\<close>. The pieces compose to the whole methods (\<open>ThreadPool_QueueTask\<close>,
  \<open>ThreadPool_Stop\<close>, ...) and to the step relation \<open>pool_step\<close> of all interleavings.
  \<open>std::atomic<size_t>\<close> statistics are 64-bit words; \<open>active_tasks_\<close> and \<open>live_workers_\<close>, which
  count threads, are natural numbers. Tasks are abstract; what running one does (return, or
  throw a \<open>std::exception\<close> or something else) is the scheduler's choice.
\<close>

section \<open>State\<close>

datatype queue_result = QR_Ok | QR_Stopped | QR_Full | QR_Timeout | QR_Error

datatype thread_pool_error = TP_AlreadyRunning | TP_ThreadCreationFailed | TP_AllocationFailed
  | TP_QueueInitializationFailed | TP_Timeout | TP_Unknown

record deadlock_config =
  dc_task_timeout_ms :: nat
  dc_watchdog_interval_ms :: nat
  dc_max_queue_size :: nat
  dc_enable_detection :: bool

record thread_pool_stats =
  ts_tasks_queued :: u64
  ts_tasks_completed :: u64
  ts_tasks_failed :: u64
  ts_peak_queue_size :: u64
  ts_deadlock_detections :: u64
  ts_tasks_rejected :: u64
  ts_tasks_cancelled :: u64
  ts_enqueue_timeouts :: u64
  ts_total_task_time_ns :: u64

text \<open>Where a worker thread is in \<open>WorkerMain\<close> (and, below it, in \<open>ExecuteTask\<close>).\<close>

datatype 't worker =
    WSpawned          \<comment> \<open>before \<open>live_workers_++\<close>\<close>
  | WLoop             \<comment> \<open>at \<open>while (!GetStopRequested())\<close>\<close>
  | WDequeue          \<comment> \<open>in \<open>task_queue_.Dequeue\<close>\<close>
  | WTaken 't         \<comment> \<open>before the second \<open>GetStopRequested()\<close>\<close>
  | WStarting 't      \<comment> \<open>entering \<open>ExecuteTask\<close>\<close>
  | WRunning 't       \<comment> \<open>inside \<open>task()\<close>\<close>
  | WRecorded         \<comment> \<open>before \<open>active_tasks_.fetch_sub\<close>\<close>
  | WExiting          \<comment> \<open>before \<open>live_workers_--\<close>\<close>
  | WFinished

datatype watchdog = WD_None | WD_Loop | WD_Draining | WD_Popped | WD_Done

record 't thread_pool =
  tp_num_threads :: nat
  tp_config :: deadlock_config
  tp_running :: bool
  tp_deadlock_detected :: bool
  tp_queue :: "'t active_queue"
  tp_workers :: "'t worker list"
  tp_watchdog :: watchdog
  tp_stop_requested :: bool
  tp_stats :: thread_pool_stats
  tp_active_tasks :: nat
  tp_last_task_start_ns :: u64
  tp_live_workers :: nat

definition zero_stats :: thread_pool_stats where
  "zero_stats = \<lparr>ts_tasks_queued = 0, ts_tasks_completed = 0, ts_tasks_failed = 0,
     ts_peak_queue_size = 0, ts_deadlock_detections = 0, ts_tasks_rejected = 0,
     ts_tasks_cancelled = 0, ts_enqueue_timeouts = 0, ts_total_task_time_ns = 0\<rparr>"

definition default_deadlock_config :: deadlock_config where
  "default_deadlock_config = \<lparr>dc_task_timeout_ms = 5000, dc_watchdog_interval_ms = 1000,
     dc_max_queue_size = 1000, dc_enable_detection = True\<rparr>"

definition ThreadPool :: "nat \<Rightarrow> nat \<Rightarrow> deadlock_config \<Rightarrow> 't thread_pool" where
  "ThreadPool hardware_concurrency num_threads config =
     \<lparr>tp_num_threads = (if 0 < num_threads then num_threads else hardware_concurrency),
      tp_config = config, tp_running = False, tp_deadlock_detected = False,
      tp_queue = ActiveQueue 0 False, tp_workers = [], tp_watchdog = WD_None,
      tp_stop_requested = False, tp_stats = zero_stats, tp_active_tasks = 0,
      tp_last_task_start_ns = 0, tp_live_workers = 0\<rparr>"

definition tick_stats ::
    "(thread_pool_stats \<Rightarrow> thread_pool_stats) \<Rightarrow> 't thread_pool \<Rightarrow> 't thread_pool" where
  "tick_stats f p = p\<lparr>tp_stats := f (tp_stats p)\<rparr>"

definition count_queued :: "'t thread_pool \<Rightarrow> 't thread_pool" where
  "count_queued = tick_stats (\<lambda>s. s\<lparr>ts_tasks_queued := ts_tasks_queued s + 1\<rparr>)"

definition count_rejected :: "'t thread_pool \<Rightarrow> 't thread_pool" where
  "count_rejected = tick_stats (\<lambda>s. s\<lparr>ts_tasks_rejected := ts_tasks_rejected s + 1\<rparr>)"

definition count_cancelled :: "'t thread_pool \<Rightarrow> 't thread_pool" where
  "count_cancelled = tick_stats (\<lambda>s. s\<lparr>ts_tasks_cancelled := ts_tasks_cancelled s + 1\<rparr>)"

definition count_timeout :: "'t thread_pool \<Rightarrow> 't thread_pool" where
  "count_timeout = tick_stats (\<lambda>s. s\<lparr>ts_enqueue_timeouts := ts_enqueue_timeouts s + 1,
     ts_tasks_rejected := ts_tasks_rejected s + 1\<rparr>)"

section \<open>Starting\<close>

text \<open>How creating the threads goes: all of them, or an exception after some of them.\<close>

datatype spawn_outcome = AllSpawned | BadAllocAfter nat | ExceptionAfter nat

definition ThreadPool_Init :: "'t thread_pool \<Rightarrow> bool" where
  "ThreadPool_Init p = True"

definition abort_start :: "'t thread_pool \<Rightarrow> 't thread_pool" where
  "abort_start p = p\<lparr>tp_queue := ActiveQueue_Disable (tp_queue p), tp_running := False\<rparr>"

definition spawn_workers :: "nat \<Rightarrow> 't thread_pool \<Rightarrow> 't thread_pool" where
  "spawn_workers n p = p\<lparr>tp_workers := tp_workers p @ replicate n WSpawned\<rparr>"

text \<open>
  \<open>StartExpected\<close> is one step. The source creates the threads one by one: a worker can run before the
  next one exists, and clients can submit tasks in between. These intermediate states are not told
  apart here; a start whose creation of threads fails keeps the workers created up to then.
\<close>

definition ThreadPool_StartExpected ::
    "spawn_outcome \<Rightarrow> bool \<Rightarrow> 't thread_pool \<Rightarrow> (unit, thread_pool_error) expected \<times> 't thread_pool"
where
  "ThreadPool_StartExpected workers watchdog_ok p =
     (if tp_running p then (Inl TP_AlreadyRunning, p)
      else let p1 = p\<lparr>tp_running := True,
             tp_queue := fst (ActiveQueue_SetCapacity (dc_max_queue_size (tp_config p)) (tp_queue p))\<rparr>
      in case workers of
        BadAllocAfter n \<Rightarrow> (Inl TP_AllocationFailed, abort_start (spawn_workers n p1))
      | ExceptionAfter n \<Rightarrow> (Inl TP_ThreadCreationFailed, abort_start (spawn_workers n p1))
      | AllSpawned \<Rightarrow>
          let p2 = spawn_workers (tp_num_threads p) p1 in
          if dc_enable_detection (tp_config p)
          then if watchdog_ok then (Inr (), p2\<lparr>tp_watchdog := WD_Loop\<rparr>)
               else (Inl TP_ThreadCreationFailed, abort_start p2)
          else (Inr (), p2))"

section \<open>Submitting\<close>

text \<open>A null \<open>MoveOnlyCallback\<close> is \<open>None\<close>. \<open>Inl r\<close>: the call returns \<open>r\<close> at once.\<close>

definition QueueTask_check ::
    "'t option \<Rightarrow> 't thread_pool \<Rightarrow> (queue_result + 't) \<times> 't thread_pool" where
  "QueueTask_check task p =
     (case task of
        None \<Rightarrow> (Inl QR_Error, p)
      | Some t \<Rightarrow> if tp_stop_requested p then (Inl QR_Stopped, count_rejected p) else (Inr t, p))"

text \<open>The pool's queue does not block on full, so \<open>Enqueue\<close> never waits here.\<close>

definition QueueTask_enqueue :: "'t \<Rightarrow> 't thread_pool \<Rightarrow> bool \<times> 't thread_pool" where
  "QueueTask_enqueue t p =
     (case ActiveQueue_Enqueue_enter False 0 t (tp_queue p) of
        Ret (b, q) \<Rightarrow> (b, p\<lparr>tp_queue := q\<rparr>)
      | Wait \<Rightarrow> (False, p))"

definition QueueTask_count :: "bool \<Rightarrow> 't thread_pool \<Rightarrow> queue_result \<times> 't thread_pool" where
  "QueueTask_count enqueued p =
     (if enqueued then (QR_Ok, count_queued p) else (QR_Full, count_rejected p))"

definition ThreadPool_QueueTask ::
    "'t option \<Rightarrow> 't thread_pool \<Rightarrow> queue_result \<times> 't thread_pool" where
  "ThreadPool_QueueTask task p =
     (case QueueTask_check task p of
        (Inl r, p1) \<Rightarrow> (r, p1)
      | (Inr t, p1) \<Rightarrow> (case QueueTask_enqueue t p1 of (b, p2) \<Rightarrow> QueueTask_count b p2))"

text \<open>
  The timed variant: \<open>Wait\<close> is the thread blocked in \<open>EnqueueUntil\<close>, which goes on with
  \<open>QueueTaskWithTimeout_resume\<close> when it is woken with room or its deadline passes.
\<close>

definition QueueTaskWithTimeout_enqueue ::
    "'t \<Rightarrow> 't thread_pool \<Rightarrow> (bool \<times> 't thread_pool) entry" where
  "QueueTaskWithTimeout_enqueue t p =
     (case ActiveQueue_EnqueueUntil_enter False 0 t (tp_queue p) of
        Ret (b, q) \<Rightarrow> Ret (b, p\<lparr>tp_queue := q\<rparr>)
      | Wait \<Rightarrow> Wait)"

definition QueueTaskWithTimeout_resume :: "'t \<Rightarrow> 't thread_pool \<Rightarrow> bool \<times> 't thread_pool" where
  "QueueTaskWithTimeout_resume t p =
     (case ActiveQueue_EnqueueUntil_resume False False 0 0 t (tp_queue p) of
        (b, q) \<Rightarrow> (b, p\<lparr>tp_queue := q\<rparr>))"

definition QueueTaskWithTimeout_count ::
    "bool \<Rightarrow> 't thread_pool \<Rightarrow> queue_result \<times> 't thread_pool" where
  "QueueTaskWithTimeout_count enqueued p =
     (if enqueued then (QR_Ok, count_queued p)
      else if tp_stop_requested p \<or> \<not> ActiveQueue_Enabled (tp_queue p)
      then (QR_Stopped, count_rejected p)
      else (QR_Timeout, count_timeout p))"

definition ThreadPool_QueueTaskWithTimeout ::
    "'t option \<Rightarrow> 't thread_pool \<Rightarrow> queue_result \<times> 't thread_pool" where
  "ThreadPool_QueueTaskWithTimeout task p =
     (case QueueTask_check task p of
        (Inl r, p1) \<Rightarrow> (r, p1)
      | (Inr t, p1) \<Rightarrow>
          (case QueueTaskWithTimeout_enqueue t p1 of
             Ret (b, p2) \<Rightarrow> QueueTaskWithTimeout_count b p2
           | Wait \<Rightarrow> (case QueueTaskWithTimeout_resume t p1 of
                        (b, p2) \<Rightarrow> QueueTaskWithTimeout_count b p2)))"

section \<open>Executing\<close>

datatype task_outcome = Returned u64 | ThrewStdException | ThrewOther

definition ExecuteTask_begin :: "u64 \<Rightarrow> 't thread_pool \<Rightarrow> 't thread_pool" where
  "ExecuteTask_begin start_ns p =
     p\<lparr>tp_active_tasks := tp_active_tasks p + 1, tp_last_task_start_ns := start_ns\<rparr>"

text \<open>What follows \<open>task()\<close>; \<open>None\<close>: the exception leaves \<open>ExecuteTask\<close>, whose only handler is for \<open>std::exception\<close>.\<close>

definition ExecuteTask_record ::
    "task_outcome \<Rightarrow> 't thread_pool \<Rightarrow> (bool \<times> 't thread_pool) option" where
  "ExecuteTask_record outcome p =
     (case outcome of
        Returned duration_ns \<Rightarrow> Some (True, tick_stats (\<lambda>s. s\<lparr>
            ts_total_task_time_ns := ts_total_task_time_ns s + duration_ns,
            ts_tasks_completed := ts_tasks_completed s + 1\<rparr>) p)
      | ThrewStdException \<Rightarrow> Some (False, tick_stats (\<lambda>s. s\<lparr>
            ts_tasks_failed := ts_tasks_failed s + 1\<rparr>) p)
      | ThrewOther \<Rightarrow> None)"

definition ExecuteTask_end :: "'t thread_pool \<Rightarrow> 't thread_pool" where
  "ExecuteTask_end p = p\<lparr>tp_active_tasks := tp_active_tasks p - 1\<rparr>"

definition ThreadPool_ExecuteTask ::
    "u64 \<Rightarrow> task_outcome \<Rightarrow> 't thread_pool \<Rightarrow> bool option \<times> 't thread_pool" where
  "ThreadPool_ExecuteTask start_ns outcome p =
     (let p1 = ExecuteTask_begin start_ns p in
      case ExecuteTask_record outcome p1 of
        Some (b, p2) \<Rightarrow> (Some b, ExecuteTask_end p2)
      | None \<Rightarrow> (None, p1))"

section \<open>Stopping and joining\<close>

definition Stop_request :: "'t thread_pool \<Rightarrow> 't thread_pool" where
  "Stop_request p = p\<lparr>tp_stop_requested := True\<rparr>"

definition Stop_disable :: "'t thread_pool \<Rightarrow> 't thread_pool" where
  "Stop_disable p = p\<lparr>tp_queue := ActiveQueue_Disable (tp_queue p)\<rparr>"

definition pool_pop :: "'t thread_pool \<Rightarrow> 't option \<times> 't thread_pool" where
  "pool_pop p = (case ActiveQueue_DequeueNonBlocking (tp_queue p) of
     (r, q) \<Rightarrow> (r, p\<lparr>tp_queue := q\<rparr>))"

text \<open>One turn of \<open>while (task_queue_.DequeueNonBlocking(discarded)) stats_.tasks_cancelled++;\<close>\<close>

definition cancel_pop :: "'t thread_pool \<Rightarrow> 't option \<times> 't thread_pool" where
  "cancel_pop p = (case pool_pop p of
     (Some t, p1) \<Rightarrow> (Some t, count_cancelled p1)
   | (None, p1) \<Rightarrow> (None, p1))"

definition ThreadPool_Stop :: "'t thread_pool \<Rightarrow> 't thread_pool option" where
  "ThreadPool_Stop p = map_option snd (drain_loop cancel_pop (Stop_disable (Stop_request p)) [])"

text \<open>The predicate \<open>JoinWithTimeout\<close> waits for.\<close>

definition join_ready :: "'t thread_pool \<Rightarrow> bool" where
  "join_ready p \<longleftrightarrow> tp_live_workers p = 0 \<and> tp_active_tasks p = 0 \<and>
     ActiveQueue_Size (tp_queue p) = 0"

text \<open>\<open>Join\<close> and \<open>JoinWithTimeout\<close> begin alike; both return only after waiting.\<close>

definition Join_begin :: "'t thread_pool \<Rightarrow> 't thread_pool" where
  "Join_begin p = p\<lparr>tp_running := False\<rparr>"

text \<open>
  The timed join with the time it waited; \<open>settle\<close> is what the other threads do meanwhile:
  \<open>Some (d, p')\<close> when the predicate first holds after \<open>d\<close> milliseconds, in state \<open>p'\<close>.
\<close>

definition ThreadPool_JoinWithTimeout ::
    "('t thread_pool \<Rightarrow> (nat \<times> 't thread_pool) option) \<Rightarrow> int \<Rightarrow> 't thread_pool \<Rightarrow>
     (bool \<times> int) \<times> 't thread_pool" where
  "ThreadPool_JoinWithTimeout settle timeout p =
     (let p1 = Join_begin p in
      case settle p1 of
        Some (d, p') \<Rightarrow> if int d \<le> timeout then ((True, int d), p') else ((False, timeout), p1)
      | None \<Rightarrow> ((False, timeout), p1))"

definition watchdog_sees_deadlock :: "u64 \<Rightarrow> 't thread_pool \<Rightarrow> bool" where
  "watchdog_sees_deadlock now_ns p \<longleftrightarrow> 0 < tp_active_tasks p \<and>
     now_ns - tp_last_task_start_ns p >
       of_nat (dc_task_timeout_ms (tp_config p)) * 1000000"

definition WatchdogMain_tick :: "u64 \<Rightarrow> 't thread_pool \<Rightarrow> 't thread_pool" where
  "WatchdogMain_tick now_ns p =
     (if watchdog_sees_deadlock now_ns p
      then tick_stats (\<lambda>s. s\<lparr>ts_deadlock_detections := ts_deadlock_detections s + 1\<rparr>)
             (p\<lparr>tp_deadlock_detected := True\<rparr>)
      else p)"

definition ThreadPool_ClearDeadlockFlag :: "'t thread_pool \<Rightarrow> 't thread_pool" where
  "ThreadPool_ClearDeadlockFlag p = p\<lparr>tp_deadlock_detected := False\<rparr>"

definition ThreadPool_GetQueueDepth :: "'t thread_pool \<Rightarrow> nat" where
  "ThreadPool_GetQueueDepth p = ActiveQueue_Size (tp_queue p)"

definition ThreadPool_SetConfig :: "deadlock_config \<Rightarrow> 't thread_pool \<Rightarrow> 't thread_pool" where
  "ThreadPool_SetConfig c p = p\<lparr>tp_config := c\<rparr>"

section \<open>All interleavings\<close>

text \<open>
  The pool together with the threads that are in the middle of one of its methods: tasks of
  submitters past the stop check (plain and timed), tasks of submitters blocked in
  \<open>EnqueueUntil\<close>, and the numbers of submitters that have enqueued but not yet counted, of
  threads in \<open>Stop\<close> before \<open>Disable\<close>, in its drain loop, and holding a drained task not yet
  counted. \<open>ps_lost\<close> counts tasks whose exception escaped from \<open>ExecuteTask\<close>. Starting
  while the old watchdog thread still runs is excluded: assigning to a joinable
  \<open>std::thread\<close> ends the process.
\<close>

record 't pool_sys =
  ps_pool :: "'t thread_pool"
  ps_submitting :: "'t list"
  ps_submitting_timed :: "'t list"
  ps_blocked :: "'t list"
  ps_enqueued :: nat
  ps_stopping :: nat
  ps_draining :: nat
  ps_popped :: nat
  ps_lost :: nat

definition pool_sys_init :: "'t thread_pool \<Rightarrow> 't pool_sys" where
  "pool_sys_init p = \<lparr>ps_pool = p, ps_submitting = [], ps_submitting_timed = [], ps_blocked = [],
     ps_enqueued = 0, ps_stopping = 0, ps_draining = 0, ps_popped = 0, ps_lost = 0\<rparr>"

definition set_worker :: "nat \<Rightarrow> 't worker \<Rightarrow> 't thread_pool \<Rightarrow> 't thread_pool" where
  "set_worker j w p = p\<lparr>tp_workers := (tp_workers p)[j := w]\<rparr>"

definition at_worker :: "nat \<Rightarrow> 't worker \<Rightarrow> 't thread_pool \<Rightarrow> bool" where
  "at_worker j w p \<longleftrightarrow> j < length (tp_workers p) \<and> tp_workers p ! j = w"

inductive pool_step :: "'t pool_sys \<Rightarrow> 't pool_sys \<Rightarrow> bool" where
  start:
    "tp_watchdog (ps_pool s) \<in> {WD_None, WD_Done} \<Longrightarrow>
     ThreadPool_StartExpected workers watchdog_ok (ps_pool s) = (r, p') \<Longrightarrow>
     pool_step s (s\<lparr>ps_pool := p'\<rparr>)"
| submit_refused:
    "QueueTask_check task (ps_pool s) = (Inl r, p') \<Longrightarrow> pool_step s (s\<lparr>ps_pool := p'\<rparr>)"
| submit_checked:
    "QueueTask_check task (ps_pool s) = (Inr t, p') \<Longrightarrow>
     pool_step s (s\<lparr>ps_pool := p', ps_submitting := ps_submitting s @ [t]\<rparr>)"
| submit_enqueued:
    "i < length (ps_submitting s) \<Longrightarrow>
     QueueTask_enqueue (ps_submitting s ! i) (ps_pool s) = (True, p') \<Longrightarrow>
     pool_step s (s\<lparr>ps_pool := p', ps_submitting := remove_nth i (ps_submitting s),
       ps_enqueued := Suc (ps_enqueued s)\<rparr>)"
| submit_full:
    "i < length (ps_submitting s) \<Longrightarrow>
     QueueTask_enqueue (ps_submitting s ! i) (ps_pool s) = (False, p') \<Longrightarrow>
     pool_step s (s\<lparr>ps_pool := snd (QueueTask_count False p'),
       ps_submitting := remove_nth i (ps_submitting s)\<rparr>)"
| submit_counted:
    "ps_enqueued s = Suc n \<Longrightarrow>
     pool_step s (s\<lparr>ps_pool := snd (QueueTask_count True (ps_pool s)), ps_enqueued := n\<rparr>)"
| timed_checked:
    "QueueTask_check task (ps_pool s) = (Inr t, p') \<Longrightarrow>
     pool_step s (s\<lparr>ps_pool := p', ps_submitting_timed := ps_submitting_timed s @ [t]\<rparr>)"
| timed_enqueued:
    "i < length (ps_submitting_timed s) \<Longrightarrow>
     QueueTaskWithTimeout_enqueue (ps_submitting_timed s ! i) (ps_pool s) = Ret (True, p') \<Longrightarrow>
     pool_step s (s\<lparr>ps_pool := p', ps_submitting_timed := remove_nth i (ps_submitting_timed s),
       ps_enqueued := Suc (ps_enqueued s)\<rparr>)"
| timed_refused:
    "i < length (ps_submitting_timed s) \<Longrightarrow>
     QueueTaskWithTimeout_enqueue (ps_submitting_timed s ! i) (ps_pool s) = Ret (False, p') \<Longrightarrow>
     pool_step s (s\<lparr>ps_pool := snd (QueueTaskWithTimeout_count False p'),
       ps_submitting_timed := remove_nth i (ps_submitting_timed s)\<rparr>)"
| timed_blocks:
    "i < length (ps_submitting_timed s) \<Longrightarrow>
     QueueTaskWithTimeout_enqueue (ps_submitting_timed s ! i) (ps_pool s) = Wait \<Longrightarrow>
     pool_step s (s\<lparr>ps_submitting_timed := remove_nth i (ps_submitting_timed s),
       ps_blocked := ps_blocked s @ [ps_submitting_timed s ! i]\<rparr>)"
| timed_resumed:
    "i < length (ps_blocked s) \<Longrightarrow>
     QueueTaskWithTimeout_resume (ps_blocked s ! i) (ps_pool s) = (True, p') \<Longrightarrow>
     pool_step s (s\<lparr>ps_pool := p', ps_blocked := remove_nth i (ps_blocked s),
       ps_enqueued := Suc (ps_enqueued s)\<rparr>)"
| timed_resumed_refused:
    "i < length (ps_blocked s) \<Longrightarrow>
     QueueTaskWithTimeout_resume (ps_blocked s ! i) (ps_pool s) = (False, p') \<Longrightarrow>
     pool_step s (s\<lparr>ps_pool := snd (QueueTaskWithTimeout_count False p'),
       ps_blocked := remove_nth i (ps_blocked s)\<rparr>)"
| worker_live:
    "at_worker j WSpawned (ps_pool s) \<Longrightarrow>
     pool_step s (s\<lparr>ps_pool := (set_worker j WLoop (ps_pool s))
       \<lparr>tp_live_workers := Suc (tp_live_workers (ps_pool s))\<rparr>\<rparr>)"
| worker_loop:
    "at_worker j WLoop (ps_pool s) \<Longrightarrow>
     pool_step s (s\<lparr>ps_pool :=
       set_worker j (if tp_stop_requested (ps_pool s) then WExiting else WDequeue) (ps_pool s)\<rparr>)"
| worker_takes:
    "at_worker j WDequeue (ps_pool s) \<Longrightarrow>
     ActiveQueue_Dequeue_enter False False 0 0 (tp_queue (ps_pool s)) = Ret (Some t, q') \<Longrightarrow>
     pool_step s (s\<lparr>ps_pool := set_worker j (WTaken t) ((ps_pool s)\<lparr>tp_queue := q'\<rparr>)\<rparr>)"
| worker_disabled:
    "at_worker j WDequeue (ps_pool s) \<Longrightarrow>
     ActiveQueue_Dequeue_enter False False 0 0 (tp_queue (ps_pool s)) = Ret (None, q') \<Longrightarrow>
     pool_step s (s\<lparr>ps_pool := set_worker j WExiting ((ps_pool s)\<lparr>tp_queue := q'\<rparr>)\<rparr>)"
| worker_checks:
    "at_worker j (WTaken t) (ps_pool s) \<Longrightarrow>
     pool_step s (s\<lparr>ps_pool := (if tp_stop_requested (ps_pool s)
       then count_cancelled (set_worker j WExiting (ps_pool s))
       else set_worker j (WStarting t) (ps_pool s))\<rparr>)"
| worker_begins:
    "at_worker j (WStarting t) (ps_pool s) \<Longrightarrow>
     pool_step s (s\<lparr>ps_pool := ExecuteTask_begin start_ns (set_worker j (WRunning t) (ps_pool s))\<rparr>)"
| worker_records:
    "at_worker j (WRunning t) (ps_pool s) \<Longrightarrow>
     ExecuteTask_record outcome (ps_pool s) = Some (b, p') \<Longrightarrow>
     pool_step s (s\<lparr>ps_pool := set_worker j WRecorded p'\<rparr>)"
| worker_dies:
    "at_worker j (WRunning t) (ps_pool s) \<Longrightarrow>
     ExecuteTask_record outcome (ps_pool s) = None \<Longrightarrow>
     pool_step s (s\<lparr>ps_pool := set_worker j WExiting (ps_pool s), ps_lost := Suc (ps_lost s)\<rparr>)"
| worker_ends:
    "at_worker j WRecorded (ps_pool s) \<Longrightarrow>
     pool_step s (s\<lparr>ps_pool := ExecuteTask_end (set_worker j WLoop (ps_pool s))\<rparr>)"
| worker_exits:
    "at_worker j WExiting (ps_pool s) \<Longrightarrow>
     pool_step s (s\<lparr>ps_pool := (set_worker j WFinished (ps_pool s))
       \<lparr>tp_live_workers := tp_live_workers (ps_pool s) - 1\<rparr>\<rparr>)"
| stop_request:
    "pool_step s (s\<lparr>ps_pool := Stop_request (ps_pool s), ps_stopping := Suc (ps_stopping s)\<rparr>)"
| stop_disable:
    "ps_stopping s = Suc n \<Longrightarrow>
     pool_step s (s\<lparr>ps_pool := Stop_disable (ps_pool s), ps_stopping := n,
       ps_draining := Suc (ps_draining s)\<rparr>)"
| stop_pops:
    "ps_draining s = Suc n \<Longrightarrow> pool_pop (ps_pool s) = (Some t, p') \<Longrightarrow>
     pool_step s (s\<lparr>ps_pool := p', ps_draining := n, ps_popped := Suc (ps_popped s)\<rparr>)"
| stop_counts:
    "ps_popped s = Suc n \<Longrightarrow>
     pool_step s (s\<lparr>ps_pool := count_cancelled (ps_pool s), ps_popped := n,
       ps_draining := Suc (ps_draining s)\<rparr>)"
| stop_done:
    "ps_draining s = Suc n \<Longrightarrow> pool_pop (ps_pool s) = (None, p') \<Longrightarrow>
     pool_step s (s\<lparr>ps_pool := p', ps_draining := n\<rparr>)"
| join_begin:
    "pool_step s (s\<lparr>ps_pool := Join_begin (ps_pool s)\<rparr>)"
| watchdog_tick:
    "tp_watchdog (ps_pool s) = WD_Loop \<Longrightarrow> tp_running (ps_pool s) \<Longrightarrow>
     pool_step s (s\<lparr>ps_pool := WatchdogMain_tick now_ns (ps_pool s)\<rparr>)"
| watchdog_leaves:
    "tp_watchdog (ps_pool s) = WD_Loop \<Longrightarrow> \<not> tp_running (ps_pool s) \<Longrightarrow>
     pool_step s (s\<lparr>ps_pool := (ps_pool s)\<lparr>tp_watchdog := WD_Draining\<rparr>\<rparr>)"
| watchdog_pops:
    "tp_watchdog (ps_pool s) = WD_Draining \<Longrightarrow> pool_pop (ps_pool s) = (Some t, p') \<Longrightarrow>
     pool_step s (s\<lparr>ps_pool := p'\<lparr>tp_watchdog := WD_Popped\<rparr>\<rparr>)"
| watchdog_counts:
    "tp_watchdog (ps_pool s) = WD_Popped \<Longrightarrow>
     pool_step s (s\<lparr>ps_pool := (count_cancelled (ps_pool s))\<lparr>tp_watchdog := WD_Draining\<rparr>\<rparr>)"
| watchdog_done:
    "tp_watchdog (ps_pool s) = WD_Draining \<Longrightarrow>
     ActiveQueue_Size (tp_queue (ps_pool s)) = 0 \<Longrightarrow>
     pool_step s (s\<lparr>ps_pool := (ps_pool s)\<lparr>tp_watchdog := WD_Done\<rparr>\<rparr>)"
| clear_deadlock_flag:
    "pool_step s (s\<lparr>ps_pool := ThreadPool_ClearDeadlockFlag (ps_pool s)\<rparr>)"
| set_config:
    "pool_step s (s\<lparr>ps_pool := ThreadPool_SetConfig c (ps_pool s)\<rparr>)"

section \<open>Conservation of tasks\<close>

fun holds_task :: "'t worker \<Rightarrow> bool" where
  "holds_task (WTaken _) = True"
| "holds_task (WStarting _) = True"
| "holds_task (WRunning _) = True"
| "holds_task _ = False"

fun is_active :: "'t worker \<Rightarrow> bool" where
  "is_active (WRunning _) = True"
| "is_active WRecorded = True"
| "is_active _ = False"

fun is_live :: "'t worker \<Rightarrow> bool" where
  "is_live WSpawned = False"
| "is_live WFinished = False"
| "is_live _ = True"

definition workers_with :: "('t worker \<Rightarrow> bool) \<Rightarrow> 't thread_pool \<Rightarrow> nat" where
  "workers_with P p = length (filter P (tp_workers p))"

text \<open>Tasks the pool has accepted and not yet reported as completed, failed or cancelled.\<close>

definition in_flight :: "'t pool_sys \<Rightarrow> nat" where
  "in_flight s = length (q_deque (tp_queue (ps_pool s))) + workers_with holds_task (ps_pool s) +
     ps_popped s + of_bool (tp_watchdog (ps_pool s) = WD_Popped) + ps_lost s"

definition reported :: "thread_pool_stats \<Rightarrow> u64" where
  "reported t = ts_tasks_completed t + ts_tasks_failed t + ts_tasks_cancelled t"

definition tasks_conserved :: "'t pool_sys \<Rightarrow> bool" where
  "tasks_conserved s \<longleftrightarrow>
     ts_tasks_queued (tp_stats (ps_pool s)) + of_nat (ps_enqueued s) =
     reported (tp_stats (ps_pool s)) + of_nat (in_flight s)"

definition threads_counted :: "'t pool_sys \<Rightarrow> bool" where
  "threads_counted s \<longleftrightarrow>
     tp_active_tasks (ps_pool s) = workers_with is_active (ps_pool s) + ps_lost s \<and>
     tp_live_workers (ps_pool s) = workers_with is_live (ps_pool s) \<and>
     \<not> q_block_on_full (tp_queue (ps_pool s))"

lemma set_worker_simps [simp]:
  "tp_queue (set_worker j w p) = tp_queue p"
  "tp_stats (set_worker j w p) = tp_stats p"
  "tp_watchdog (set_worker j w p) = tp_watchdog p"
  "tp_active_tasks (set_worker j w p) = tp_active_tasks p"
  "tp_live_workers (set_worker j w p) = tp_live_workers p"
  "tp_stop_requested (set_worker j w p) = tp_stop_requested p"
  by (simp_all add: set_worker_def)

lemma workers_with_cong: "tp_workers p = tp_workers p' \<Longrightarrow> workers_with P p = workers_with P p'"
  by (simp add: workers_with_def)

lemma workers_with_set_worker:
  assumes "at_worker j w p"
  shows "workers_with P (set_worker j w' p) + of_bool (P w) = workers_with P p + of_bool (P w')"
  using assms length_filter_update [of j "tp_workers p" P w']
  by (simp add: workers_with_def set_worker_def at_worker_def)

lemma workers_with_positive: "at_worker j w p \<Longrightarrow> P w \<Longrightarrow> 0 < workers_with P p"
  by (auto simp: workers_with_def at_worker_def length_greater_0_conv filter_empty_conv)

lemma workers_with_update [simp]:
  "workers_with P (p\<lparr>tp_queue := q\<rparr>) = workers_with P p"
  "workers_with P (p\<lparr>tp_stats := t\<rparr>) = workers_with P p"
  "workers_with P (p\<lparr>tp_watchdog := w\<rparr>) = workers_with P p"
  "workers_with P (p\<lparr>tp_active_tasks := n\<rparr>) = workers_with P p"
  "workers_with P (p\<lparr>tp_live_workers := n\<rparr>) = workers_with P p"
  "workers_with P (p\<lparr>tp_last_task_start_ns := u\<rparr>) = workers_with P p"
  "workers_with P (p\<lparr>tp_running := b\<rparr>) = workers_with P p"
  "workers_with P (p\<lparr>tp_stop_requested := b\<rparr>) = workers_with P p"
  "workers_with P (p\<lparr>tp_deadlock_detected := b\<rparr>) = workers_with P p"
  "workers_with P (p\<lparr>tp_config := c\<rparr>) = workers_with P p"
  by (simp_all add: workers_with_def)

lemmas counter_defs = tick_stats_def count_queued_def count_rejected_def count_cancelled_def
  count_timeout_def

lemmas submit_defs = QueueTask_check_def QueueTask_enqueue_def QueueTask_count_def
  QueueTaskWithTimeout_enqueue_def QueueTaskWithTimeout_resume_def QueueTaskWithTimeout_count_def

lemmas control_pool_defs = Stop_request_def Stop_disable_def Join_begin_def WatchdogMain_tick_def
  ThreadPool_ClearDeadlockFlag_def ThreadPool_SetConfig_def

text \<open>What the pieces do to the queue.\<close>

lemma enqueue_pieces:
  "QueueTask_enqueue t p = (True, p') \<Longrightarrow> \<exists>q'. p' = p\<lparr>tp_queue := q'\<rparr> \<and>
     length (q_deque q') = Suc (length (q_deque (tp_queue p))) \<and>
     q_block_on_full q' = q_block_on_full (tp_queue p)"
  "QueueTask_enqueue t p = (False, p') \<Longrightarrow> \<exists>q'. p' = p\<lparr>tp_queue := q'\<rparr> \<and>
     q_deque q' = q_deque (tp_queue p) \<and> q_block_on_full q' = q_block_on_full (tp_queue p)"
  "QueueTaskWithTimeout_enqueue t p = Ret (True, p') \<Longrightarrow> \<exists>q'. p' = p\<lparr>tp_queue := q'\<rparr> \<and>
     length (q_deque q') = Suc (length (q_deque (tp_queue p))) \<and>
     q_block_on_full q' = q_block_on_full (tp_queue p)"
  "QueueTaskWithTimeout_enqueue t p = Ret (False, p') \<Longrightarrow> \<exists>q'. p' = p\<lparr>tp_queue := q'\<rparr> \<and>
     q_deque q' = q_deque (tp_queue p) \<and> q_block_on_full q' = q_block_on_full (tp_queue p)"
  "QueueTaskWithTimeout_resume t p = (True, p') \<Longrightarrow> \<exists>q'. p' = p\<lparr>tp_queue := q'\<rparr> \<and>
     length (q_deque q') = Suc (length (q_deque (tp_queue p))) \<and>
     q_block_on_full q' = q_block_on_full (tp_queue p)"
  "QueueTaskWithTimeout_resume t p = (False, p') \<Longrightarrow> \<exists>q'. p' = p\<lparr>tp_queue := q'\<rparr> \<and>
     q_deque q' = q_deque (tp_queue p) \<and> q_block_on_full q' = q_block_on_full (tp_queue p)"
  by (auto simp: submit_defs push_defs Let_def split: if_splits entry.splits)
     (rule exI [of _ "tp_queue p'"], simp)

lemma pop_pieces:
  "pool_pop p = (Some t, p') \<Longrightarrow> \<exists>q'. p' = p\<lparr>tp_queue := q'\<rparr> \<and>
     length (q_deque (tp_queue p)) = Suc (length (q_deque q')) \<and>
     q_block_on_full q' = q_block_on_full (tp_queue p)"
  "pool_pop p = (None, p') \<Longrightarrow> \<exists>q'. p' = p\<lparr>tp_queue := q'\<rparr> \<and>
     q_deque q' = q_deque (tp_queue p) \<and> q_block_on_full q' = q_block_on_full (tp_queue p)"
  "ActiveQueue_Dequeue_enter st ws wns ns q = Ret (Some t, q') \<Longrightarrow>
     length (q_deque q) = Suc (length (q_deque q')) \<and> q_block_on_full q' = q_block_on_full q"
  "ActiveQueue_Dequeue_enter st ws wns ns q = Ret (None, q') \<Longrightarrow>
     q_deque q' = q_deque q \<and> q_block_on_full q' = q_block_on_full q"
  by (auto simp: pool_pop_def pop_defs Let_def split: list.splits if_splits)

lemma start_piece:
  assumes "ThreadPool_StartExpected workers ok p = (r, p')"
  shows "\<exists>n. tp_workers p' = tp_workers p @ replicate n WSpawned \<and> tp_stats p' = tp_stats p \<and>
    tp_active_tasks p' = tp_active_tasks p \<and> tp_live_workers p' = tp_live_workers p \<and>
    q_deque (tp_queue p') = q_deque (tp_queue p) \<and>
    q_block_on_full (tp_queue p') = q_block_on_full (tp_queue p) \<and>
    (tp_watchdog p' = tp_watchdog p \<or> tp_watchdog p' = WD_Loop) \<and>
    tp_stop_requested p' = tp_stop_requested p \<and> (q_exit (tp_queue p) \<longrightarrow> q_exit (tp_queue p'))"
proof (cases "tp_running p")
  case True
  then show ?thesis using assms
    by (intro exI [of _ 0]) (auto simp: ThreadPool_StartExpected_def)
next
  case False
  show ?thesis
    by (rule exI [of _ "case workers of BadAllocAfter n \<Rightarrow> n | ExceptionAfter n \<Rightarrow> n
          | AllSpawned \<Rightarrow> tp_num_threads p"])
       (use assms False in \<open>auto simp: ThreadPool_StartExpected_def abort_start_def
          spawn_workers_def control_defs Let_def split: spawn_outcome.splits if_splits\<close>)
qed

lemma worker_moves:
  assumes "at_worker j w p" "workers_with P p = n" "P w \<longleftrightarrow> P w'"
  shows "workers_with P (set_worker j w' p) = n"
  using workers_with_set_worker [OF assms(1), of P w'] assms(2,3) by simp

lemma worker_enters:
  assumes "at_worker j w p" "\<not> P w" "P w'"
  shows "workers_with P (set_worker j w' p) = Suc (workers_with P p)"
  using workers_with_set_worker [OF assms(1), of P w'] assms(2,3) by simp

lemma worker_leaves:
  assumes "at_worker j w p" "P w" "\<not> P w'"
  shows "workers_with P p = Suc (workers_with P (set_worker j w' p))"
  using workers_with_set_worker [OF assms(1), of P w'] assms(2,3) by simp

lemma at_worker_queue [simp]: "at_worker j w (p\<lparr>tp_queue := q\<rparr>) = at_worker j w p"
  by (simp add: at_worker_def)

lemma threads_counted_step:
  "pool_step s s' \<Longrightarrow> threads_counted s \<Longrightarrow> threads_counted s'"
proof (induction rule: pool_step.induct)
  case (start s workers ok r p')
  then show ?case
    using start_piece [OF start(2)] by (auto simp: threads_counted_def workers_with_def)
next
  case (worker_live j s)
  then show ?case
    by (auto simp: threads_counted_def worker_enters [of _ _ _ is_live] worker_moves [of _ _ _ is_active])
next
  case (worker_loop j s)
  then show ?case by (auto simp: threads_counted_def worker_moves)
next
  case (worker_takes j s t q')
  then show ?case using pop_pieces(3) by (fastforce simp: threads_counted_def worker_moves)
next
  case (worker_disabled j s q')
  then show ?case using pop_pieces(4) by (fastforce simp: threads_counted_def worker_moves)
next
  case (worker_checks j t s)
  then show ?case by (auto simp: threads_counted_def worker_moves counter_defs)
next
  case (worker_begins j t s start_ns)
  then show ?case
    by (auto simp: threads_counted_def ExecuteTask_begin_def worker_enters [of _ _ _ is_active]
        worker_moves [of _ _ _ is_live])
next
  case (worker_records j t s outcome b p')
  then obtain f where "p' = tick_stats f (ps_pool s)"
    by (auto simp: ExecuteTask_record_def split: task_outcome.splits)
  moreover from worker_records have "at_worker j (WRunning t) (tick_stats f (ps_pool s))"
    by (simp add: tick_stats_def at_worker_def)
  ultimately show ?case using worker_records
    by (auto simp: threads_counted_def worker_moves tick_stats_def)
next
  case (worker_dies j t s outcome)
  then show ?case
    using worker_leaves [of j "WRunning t" "ps_pool s" is_active WExiting]
    by (auto simp: threads_counted_def worker_moves)
next
  case (worker_ends j s)
  then show ?case
    using worker_leaves [of j WRecorded "ps_pool s" is_active WLoop]
    by (auto simp: threads_counted_def ExecuteTask_end_def worker_moves)
next
  case (worker_exits j s)
  then show ?case
    using worker_leaves [of j WExiting "ps_pool s" is_live WFinished]
    by (auto simp: threads_counted_def worker_moves)
qed (auto simp: threads_counted_def counter_defs control_pool_defs control_defs
       QueueTask_check_def QueueTask_count_def QueueTaskWithTimeout_count_def
       dest!: enqueue_pieces pop_pieces split: option.splits if_splits)

lemmas conserved_defs = tasks_conserved_def in_flight_def reported_def

lemma tasks_conserved_step:
  "pool_step s s' \<Longrightarrow> tasks_conserved s \<Longrightarrow> tasks_conserved s'"
proof (induction rule: pool_step.induct)
  case (start s workers ok r p')
  then show ?case
    using start_piece [OF start(2)] by (auto simp: conserved_defs workers_with_def)
next
  case (worker_live j s)
  then show ?case by (auto simp: conserved_defs worker_moves)
next
  case (worker_loop j s)
  then show ?case by (auto simp: conserved_defs worker_moves)
next
  case (worker_takes j s t q')
  then show ?case
    using pop_pieces(3) [OF worker_takes(2)]
      worker_enters [of j WDequeue "(ps_pool s)\<lparr>tp_queue := q'\<rparr>" holds_task "WTaken t"]
    by (simp add: conserved_defs algebra_simps)
next
  case (worker_disabled j s q')
  then show ?case
    using pop_pieces(4) [OF worker_disabled(2)] by (auto simp: conserved_defs worker_moves)
next
  case (worker_checks j t s)
  then show ?case
    using worker_leaves [of j "WTaken t" "ps_pool s" holds_task WExiting]
    by (auto simp: conserved_defs worker_moves counter_defs algebra_simps)
next
  case (worker_begins j t s start_ns)
  then show ?case by (auto simp: conserved_defs ExecuteTask_begin_def worker_moves)
next
  case (worker_records j t s outcome b p')
  have "at_worker j (WRunning t) p'"
    using worker_records(1,2)
    by (auto simp: ExecuteTask_record_def tick_stats_def at_worker_def split: task_outcome.splits)
  from worker_leaves [OF this, of holds_task WRecorded] show ?case
    using worker_records(2,3)
    by (auto simp: conserved_defs ExecuteTask_record_def tick_stats_def algebra_simps
        split: task_outcome.splits)
next
  case (worker_dies j t s outcome)
  then show ?case
    using worker_leaves [of j "WRunning t" "ps_pool s" holds_task WExiting]
    by (auto simp: conserved_defs algebra_simps)
next
  case (worker_ends j s)
  then show ?case by (auto simp: conserved_defs ExecuteTask_end_def worker_moves)
next
  case (worker_exits j s)
  then show ?case by (auto simp: conserved_defs worker_moves)
qed (auto simp: conserved_defs counter_defs control_pool_defs control_defs algebra_simps
       QueueTask_check_def QueueTask_count_def QueueTaskWithTimeout_count_def
       dest!: enqueue_pieces pop_pieces split: option.splits if_splits)

definition pool_reachable :: "'t pool_sys \<Rightarrow> bool" where
  "pool_reachable s \<longleftrightarrow>
     (\<exists>hw n config. pool_step\<^sup>*\<^sup>* (pool_sys_init (ThreadPool hw n config)) s)"

lemma pool_invariants: "pool_reachable s \<Longrightarrow> tasks_conserved s \<and> threads_counted s"
proof -
  assume "pool_reachable s"
  then obtain hw n config where
    "pool_step\<^sup>*\<^sup>* (pool_sys_init (ThreadPool hw n config)) s" by (auto simp: pool_reachable_def)
  then show ?thesis
  proof (induction rule: rtranclp_induct)
    case base
    show ?case
      by (simp add: conserved_defs threads_counted_def workers_with_def pool_sys_init_def
          ThreadPool_def zero_stats_def ActiveQueue_def)
  next
    case (step s s')
    then show ?case using tasks_conserved_step threads_counted_step by blast
  qed
qed

lemma pool_reachable_init: "pool_reachable (pool_sys_init (ThreadPool hw n config))"
  by (auto simp: pool_reachable_def)

lemma pool_reachable_step: "pool_reachable s \<Longrightarrow> pool_step s s' \<Longrightarrow> pool_reachable s'"
  unfolding pool_reachable_def by (meson rtranclp.rtrancl_into_rtrancl)

text \<open>A run in which one task is submitted and not yet counted.\<close>

definition after_submit :: "nat pool_sys" where
  "after_submit = (pool_sys_init ((ThreadPool 1 1 default_deadlock_config)
     \<lparr>tp_queue := (ActiveQueue 0 False)\<lparr>q_deque := [7]\<rparr>\<rparr>))\<lparr>ps_enqueued := 1\<rparr>"

lemma after_submit_reachable: "pool_reachable after_submit"
proof -
  let ?p = "ThreadPool 1 1 default_deadlock_config :: nat thread_pool"
  let ?s = "pool_sys_init ?p"
  have "QueueTask_check (Some 7) (ps_pool ?s) = (Inr 7, ?p)"
    by (simp add: QueueTask_check_def pool_sys_init_def ThreadPool_def)
  note r1 = pool_reachable_step [OF pool_reachable_init submit_checked [OF this]]
  let ?s1 = "?s\<lparr>ps_pool := ?p, ps_submitting := ps_submitting ?s @ [7]\<rparr>"
  have "0 < length (ps_submitting ?s1)" by simp
  moreover have "QueueTask_enqueue (ps_submitting ?s1 ! 0) (ps_pool ?s1) =
      (True, ?p\<lparr>tp_queue := (ActiveQueue 0 False)\<lparr>q_deque := [7]\<rparr>\<rparr>)"
    by (simp add: pool_sys_init_def QueueTask_enqueue_def push_defs ThreadPool_def ActiveQueue_def
        is_full_def insert_element_def record_enqueue_def with_metrics_def)
  ultimately have "pool_step ?s1 (?s1\<lparr>ps_pool := ?p\<lparr>tp_queue := (ActiveQueue 0 False)\<lparr>q_deque := [7]\<rparr>\<rparr>,
      ps_submitting := remove_nth 0 (ps_submitting ?s1), ps_enqueued := Suc (ps_enqueued ?s1)\<rparr>)"
    by (rule submit_enqueued)
  from pool_reachable_step [OF r1 this] show ?thesis
    by (simp add: after_submit_def pool_sys_init_def remove_nth_def)
qed

section \<open>Properties\<close>

text \<open>
  C6. No task is lost or counted twice. In every state the pool can reach by any
  interleaving of submitters, workers, watchdog and stopping threads, the tasks accepted are,
  modulo \<open>2 ^ 64\<close>, those reported completed, failed or cancelled plus those in flight (queued,
  held by a worker, drained but not yet counted, or lost to a foreign exception).
\<close>

theorem pool_conserves_tasks:
  assumes "pool_reachable s"
  shows "ts_tasks_queued (tp_stats (ps_pool s)) + of_nat (ps_enqueued s) =
    ts_tasks_completed (tp_stats (ps_pool s)) + ts_tasks_failed (tp_stats (ps_pool s)) +
    ts_tasks_cancelled (tp_stats (ps_pool s)) + of_nat (in_flight s)"
  using pool_invariants [OF assms] by (simp add: tasks_conserved_def reported_def)

theorem pool_conserves_tasks_witness:
  "ts_tasks_queued (tp_stats (ps_pool after_submit)) + of_nat (ps_enqueued after_submit) =
    ts_tasks_completed (tp_stats (ps_pool after_submit)) +
    ts_tasks_failed (tp_stats (ps_pool after_submit)) +
    ts_tasks_cancelled (tp_stats (ps_pool after_submit)) + of_nat (in_flight after_submit) \<and>
   in_flight after_submit = 1"
  using pool_conserves_tasks [OF after_submit_reachable]
  by (simp add: in_flight_def after_submit_def pool_sys_init_def workers_with_def ThreadPool_def)

lemma no_live_no_holder: "workers_with is_live p = 0 \<Longrightarrow> workers_with holds_task p = 0"
proof -
  assume "workers_with is_live p = 0"
  then have "\<forall>w \<in> set (tp_workers p). \<not> is_live w" by (simp add: workers_with_def filter_empty_conv)
  moreover have "holds_task w \<Longrightarrow> is_live w" for w :: "'a worker" by (cases w) auto
  ultimately show ?thesis by (auto simp: workers_with_def filter_empty_conv)
qed

text \<open>
  C7. A successful timed join is a full account. When the predicate \<open>JoinWithTimeout\<close> waits
  for holds in a reachable state, and no submitter or drainer is between its queue operation
  and its counter update, every accepted task has been reported completed, failed or
  cancelled, and none was lost.
\<close>

theorem join_accounts_for_every_task:
  assumes "pool_reachable s" and "join_ready (ps_pool s)"
    and "ps_enqueued s = 0" and "ps_popped s = 0" and "tp_watchdog (ps_pool s) \<noteq> WD_Popped"
  shows "ts_tasks_queued (tp_stats (ps_pool s)) = reported (tp_stats (ps_pool s)) \<and> ps_lost s = 0"
  using assms pool_invariants [OF assms(1)] no_live_no_holder [of "ps_pool s"]
  by (simp add: threads_counted_def tasks_conserved_def in_flight_def join_ready_def
      ActiveQueue_Size_def)

theorem join_accounts_for_every_task_witness:
  "ts_tasks_queued (tp_stats (ThreadPool 4 0 default_deadlock_config)) =
     reported (tp_stats (ThreadPool 4 0 default_deadlock_config))"
  using join_accounts_for_every_task [OF pool_reachable_init, of 4 0 default_deadlock_config]
  by (simp add: pool_sys_init_def ThreadPool_def join_ready_def ActiveQueue_Size_def
      ActiveQueue_def)

text \<open>The drain loop of \<open>Stop\<close>.\<close>

lemma cancel_pop_eq:
  "cancel_pop p = (case q_deque (tp_queue p) of
     [] \<Rightarrow> (None, p\<lparr>tp_queue := snd (ActiveQueue_DequeueNonBlocking (tp_queue p))\<rparr>)
   | t # ts \<Rightarrow> (Some t, count_cancelled
       (p\<lparr>tp_queue := snd (ActiveQueue_DequeueNonBlocking (tp_queue p))\<rparr>)))"
  by (simp add: cancel_pop_def pool_pop_def ActiveQueue_DequeueNonBlocking_def split: list.splits)

interpretation cancel_drain: counting_drain cancel_pop "\<lambda>p. q_deque (tp_queue p)"
    "\<lambda>p. ts_tasks_cancelled (tp_stats p)"
  by unfold_locales
     (auto simp: cancel_pop_eq counter_defs ActiveQueue_DequeueNonBlocking_def split: list.splits)

lemma cancel_pop_frame:
  "tp_stop_requested (snd (cancel_pop p)) = tp_stop_requested p"
  "q_exit (tp_queue (snd (cancel_pop p))) = q_exit (tp_queue p)"
  "ts_tasks_queued (tp_stats (snd (cancel_pop p))) = ts_tasks_queued (tp_stats p)"
  by (auto simp: cancel_pop_eq counter_defs ActiveQueue_DequeueNonBlocking_def split: list.splits)

lemma Stop_returns:
  "\<exists>p'. ThreadPool_Stop p = Some p' \<and> q_deque (tp_queue p') = [] \<and> q_exit (tp_queue p') \<and>
     tp_stop_requested p' \<and>
     ts_tasks_cancelled (tp_stats p') =
       ts_tasks_cancelled (tp_stats p) + of_nat (length (q_deque (tp_queue p)))"
proof -
  let ?p = "Stop_disable (Stop_request p)"
  have q: "q_deque (tp_queue ?p) = q_deque (tp_queue p)" "tp_stats ?p = tp_stats p"
    "q_exit (tp_queue ?p)" "tp_stop_requested ?p"
    by (simp_all add: Stop_disable_def Stop_request_def ActiveQueue_Disable_def)
  obtain p' where d: "drain_loop cancel_pop ?p [] = Some (q_deque (tp_queue p), p')"
    and e: "q_deque (tp_queue p') = []"
      "ts_tasks_cancelled (tp_stats p') =
         ts_tasks_cancelled (tp_stats p) + of_nat (length (q_deque (tp_queue p)))"
    using cancel_drain.drain_counts [of ?p "[]"] q by auto
  have "q_exit (tp_queue p') \<and> tp_stop_requested p'"
    by (rule drain_loop_keeps [OF d, of "\<lambda>p. q_exit (tp_queue p) \<and> tp_stop_requested p"])
       (simp_all add: cancel_pop_frame q)
  with d e show ?thesis by (simp add: ThreadPool_Stop_def)
qed

text \<open>
  C8. \<open>Stop\<close> returns, and when it does (no other thread interfering) the queue is disabled and
  empty, no task will be accepted any more, and every task that was queued has been counted
  as cancelled.
\<close>

theorem Stop_cancels_everything:
  "\<exists>p'. ThreadPool_Stop p = Some p' \<and> q_deque (tp_queue p') = [] \<and> q_exit (tp_queue p') \<and>
     tp_stop_requested p' \<and>
     ts_tasks_cancelled (tp_stats p') =
       ts_tasks_cancelled (tp_stats p) + of_nat (length (q_deque (tp_queue p)))"
  by (rule Stop_returns)

text \<open>A pool whose queue is disabled and empty.\<close>

definition pool_closed :: "'t pool_sys \<Rightarrow> bool" where
  "pool_closed s \<longleftrightarrow> q_exit (tp_queue (ps_pool s)) \<and> q_deque (tp_queue (ps_pool s)) = []"

lemma closed_refuses:
  assumes "q_exit (tp_queue p)"
  shows "QueueTask_enqueue t p = (b, p') \<Longrightarrow> \<not> b"
    "QueueTaskWithTimeout_enqueue t p = e \<Longrightarrow> \<exists>p'. e = Ret (False, p')"
    "QueueTaskWithTimeout_resume t p = (b, p') \<Longrightarrow> \<not> b"
  using assms by (auto simp: submit_defs push_defs Let_def)

lemma closed_pops_nothing:
  assumes "q_deque (tp_queue p) = []"
  shows "pool_pop p \<noteq> (Some t, p')"
    "ActiveQueue_Dequeue_enter st ws wns ns (tp_queue p) \<noteq> Ret (Some t, q')"
  using assms by (auto simp: pool_pop_def pop_defs Let_def)

lemma queue_pieces_exit:
  "QueueTask_enqueue t p = (b, p') \<Longrightarrow> q_exit (tp_queue p') = q_exit (tp_queue p)"
  "QueueTaskWithTimeout_enqueue t p = Ret (b, p') \<Longrightarrow> q_exit (tp_queue p') = q_exit (tp_queue p)"
  "QueueTaskWithTimeout_resume t p = (b, p') \<Longrightarrow> q_exit (tp_queue p') = q_exit (tp_queue p)"
  "pool_pop p = (x, p') \<Longrightarrow> q_exit (tp_queue p') = q_exit (tp_queue p)"
  "ActiveQueue_Dequeue_enter st ws wns ns q = Ret (x, q') \<Longrightarrow> q_exit q' = q_exit q"
  by (auto simp: submit_defs push_defs pool_pop_def pop_defs Let_def
      split: if_splits entry.splits list.splits)

lemma pool_closed_step:
  "pool_step s s' \<Longrightarrow> pool_closed s \<Longrightarrow> pool_closed s' \<and> ps_enqueued s' \<le> ps_enqueued s"
proof (induction rule: pool_step.induct)
  case (start s workers ok r p')
  then show ?case using start_piece [OF start(2)] by (auto simp: pool_closed_def)
next
  case (submit_enqueued i s p')
  then show ?case using closed_refuses by (fastforce simp: pool_closed_def)
next
  case (timed_enqueued i s p')
  then show ?case using closed_refuses(2) by (fastforce simp: pool_closed_def)
next
  case (timed_resumed i s p')
  then show ?case using closed_refuses(3) by (fastforce simp: pool_closed_def)
next
  case (worker_takes j s t q')
  then show ?case using closed_pops_nothing(2) by (fastforce simp: pool_closed_def)
next
  case (stop_pops s n t p')
  then show ?case using closed_pops_nothing(1) by (fastforce simp: pool_closed_def)
next
  case (watchdog_pops s t p')
  then show ?case using closed_pops_nothing(1) by (fastforce simp: pool_closed_def)
next
  case (worker_disabled j s q')
  then show ?case
    using pop_pieces(4) [OF worker_disabled(2)] queue_pieces_exit(5) [OF worker_disabled(2)]
    by (simp add: pool_closed_def)
next
  case (worker_records j t s outcome b p')
  then show ?case
    by (auto simp: pool_closed_def ExecuteTask_record_def tick_stats_def split: task_outcome.splits)
next
  case (submit_full i s p')
  then show ?case
    using queue_pieces_exit(1) [OF submit_full(2)] enqueue_pieces(2) [OF submit_full(2)]
    by (auto simp: pool_closed_def QueueTask_count_def counter_defs)
next
  case (timed_refused i s p')
  then show ?case
    using queue_pieces_exit(2) [OF timed_refused(2)] enqueue_pieces(4) [OF timed_refused(2)]
    by (auto simp: pool_closed_def QueueTaskWithTimeout_count_def counter_defs)
next
  case (timed_resumed_refused i s p')
  then show ?case
    using queue_pieces_exit(3) [OF timed_resumed_refused(2)]
      enqueue_pieces(6) [OF timed_resumed_refused(2)]
    by (auto simp: pool_closed_def QueueTaskWithTimeout_count_def counter_defs)
next
  case (stop_done s n p')
  then show ?case
    using queue_pieces_exit(4) [OF stop_done(2)] pop_pieces(2) [OF stop_done(2)]
    by (auto simp: pool_closed_def)
qed (auto simp: pool_closed_def counter_defs control_pool_defs control_defs
       QueueTask_check_def QueueTask_count_def ExecuteTask_begin_def ExecuteTask_end_def
       split: option.splits if_splits)

text \<open>
  A stopped pool stays stopped. Once the queue is disabled and empty, it is so for ever,
  whatever submitters that passed the stop check earlier, workers, watchdog or a later
  \<open>StartExpected\<close> do: no task enters it and none can be taken from it again.
\<close>

theorem stopped_pool_stays_closed:
  assumes "pool_closed s" and "pool_step\<^sup>*\<^sup>* s s'"
  shows "pool_closed s' \<and> ps_enqueued s' \<le> ps_enqueued s"
  using assms(2,1) by (induction rule: rtranclp_induct) (auto dest: pool_closed_step)

theorem stopped_pool_stays_closed_witness:
  "let s = pool_sys_init (Stop_disable (ThreadPool 1 1 default_deadlock_config) :: nat thread_pool)
   in pool_closed s \<and> (\<forall>s'. pool_step\<^sup>*\<^sup>* s s' \<longrightarrow> pool_closed s')"
proof -
  let ?s = "pool_sys_init (Stop_disable (ThreadPool 1 1 default_deadlock_config) :: nat thread_pool)"
  have c: "pool_closed ?s"
    by (simp add: pool_closed_def pool_sys_init_def Stop_disable_def ActiveQueue_Disable_def
        ThreadPool_def ActiveQueue_def)
  then show ?thesis using stopped_pool_stays_closed [OF c] by (simp add: Let_def)
qed

text \<open>
  \<open>QueueTask\<close> on every branch, for the pool's own queue (it does not block when full and
  has no comparator): a null task is an error and changes nothing; after a stop request the
  task is rejected as \<open>Stopped\<close>; a disabled or full queue rejects it as \<open>Full\<close>; otherwise it
  goes to the end of the queue and is counted. Rejections count exactly one rejected task.
\<close>

theorem QueueTask_spec:
  assumes "\<not> q_block_on_full (tp_queue p)" and "q_comparator (tp_queue p) = None"
  shows "case ThreadPool_QueueTask task p of (r, p') \<Rightarrow>
    r = (case task of None \<Rightarrow> QR_Error | Some t \<Rightarrow>
           if tp_stop_requested p then QR_Stopped
           else if q_exit (tp_queue p) \<or> is_full (tp_queue p) then QR_Full else QR_Ok) \<and>
    q_deque (tp_queue p') = q_deque (tp_queue p) @ (if r = QR_Ok then [the task] else []) \<and>
    ts_tasks_queued (tp_stats p') = ts_tasks_queued (tp_stats p) + of_bool (r = QR_Ok) \<and>
    ts_tasks_rejected (tp_stats p') =
      ts_tasks_rejected (tp_stats p) + of_bool (r = QR_Stopped \<or> r = QR_Full)"
  using assms
  by (cases task)
     (simp_all add: ThreadPool_QueueTask_def submit_defs counter_defs push_defs insert_element_def)

theorem QueueTask_spec_witness:
  "fst (ThreadPool_QueueTask (Some (1::nat)) (ThreadPool 1 1 default_deadlock_config)) = QR_Ok"
  using QueueTask_spec [of "ThreadPool 1 1 default_deadlock_config" "Some (1::nat)"]
  by (simp add: ThreadPool_def ActiveQueue_def is_full_def split: prod.splits)

lemma ps_lost_mono: "pool_step s s' \<Longrightarrow> ps_lost s \<le> ps_lost s'"
  by (induction rule: pool_step.induct) auto

text \<open>
  A task that throws anything but a \<open>std::exception\<close> disables the timed join for good:
  \<open>ExecuteTask\<close> has no handler for it, \<open>active_tasks_\<close> is never decremented, and from then on
  the predicate of \<open>JoinWithTimeout\<close> cannot hold in any later state.
\<close>

theorem foreign_exception_blocks_join:
  assumes "pool_reachable s" and "0 < ps_lost s" and "pool_step\<^sup>*\<^sup>* s s'"
  shows "\<not> join_ready (ps_pool s')"
proof -
  have "0 < ps_lost s'"
    using assms(3,2) by (induction rule: rtranclp_induct) (auto dest: ps_lost_mono)
  moreover have "pool_reachable s'"
    using assms(3,1) by (induction rule: rtranclp_induct) (auto intro: pool_reachable_step)
  ultimately show ?thesis
    using pool_invariants [of s'] by (auto simp: threads_counted_def join_ready_def)
qed

text \<open>Such a state is reachable: one worker, one task, and the task throws.\<close>

definition run_state ::
    "'t worker list \<Rightarrow> 't list \<Rightarrow> 't list \<Rightarrow> nat \<Rightarrow> bool" where
  "run_state ws queued submitting lost \<longleftrightarrow> (\<exists>s. pool_reachable s \<and> tp_workers (ps_pool s) = ws \<and>
     tp_queue (ps_pool s) = (ActiveQueue 0 False)\<lparr>q_capacity := 1000, q_deque := queued\<rparr> \<and>
     \<not> tp_stop_requested (ps_pool s) \<and> ps_submitting s = submitting \<and> ps_lost s = lost)"

lemma run_stateI:
  assumes "pool_reachable s" "pool_step s s'" "tp_workers (ps_pool s') = ws"
    "tp_queue (ps_pool s') = (ActiveQueue 0 False)\<lparr>q_capacity := 1000, q_deque := queued\<rparr>"
    "\<not> tp_stop_requested (ps_pool s')" "ps_submitting s' = submitting" "ps_lost s' = lost"
  shows "run_state ws queued submitting lost"
  using assms pool_reachable_step unfolding run_state_def by blast

lemma run_one_task_start: "run_state [WSpawned] [] [] 0"
proof -
  let ?s = "pool_sys_init (ThreadPool 1 1 (default_deadlock_config\<lparr>dc_enable_detection := False\<rparr>))"
  have "pool_step ?s (?s\<lparr>ps_pool := snd (ThreadPool_StartExpected AllSpawned True (ps_pool ?s))\<rparr>)"
    by (rule start) (simp_all add: pool_sys_init_def ThreadPool_def prod_eq_iff)
  then show ?thesis
    by (rule run_stateI [OF pool_reachable_init])
       (simp_all add: pool_sys_init_def ThreadPool_def ThreadPool_StartExpected_def Let_def
         spawn_workers_def default_deadlock_config_def ActiveQueue_SetCapacity_def ActiveQueue_def)
qed

lemma run_one_task_submitted: "run_state [WDequeue] [t] [] 0"
proof -
  have "run_state [WLoop] [] [] 0"
    using run_one_task_start unfolding run_state_def [of "[WSpawned]"]
    by (elim exE conjE, intro run_stateI [OF _ worker_live [of 0]])
       (auto simp: at_worker_def set_worker_def)
  then have "run_state [WDequeue] [] [] 0"
    unfolding run_state_def [of "[WLoop]"]
    by (elim exE conjE, intro run_stateI [OF _ worker_loop [of 0]])
       (auto simp: at_worker_def set_worker_def)
  then have "run_state [WDequeue] [] [t] 0"
    unfolding run_state_def [of "[WDequeue]" "[]" "[]"]
    by (elim exE conjE, intro run_stateI [OF _ submit_checked [of "Some t"]])
       (auto simp: QueueTask_check_def)
  then obtain s where s: "pool_reachable s" "tp_workers (ps_pool s) = [WDequeue]"
    "tp_queue (ps_pool s) = (ActiveQueue 0 False)\<lparr>q_capacity := 1000, q_deque := []\<rparr>"
    "\<not> tp_stop_requested (ps_pool s)" "ps_submitting s = [t]" "ps_lost s = 0"
    unfolding run_state_def by blast
  have "QueueTask_enqueue (ps_submitting s ! 0) (ps_pool s) = (True, (ps_pool s)
      \<lparr>tp_queue := (ActiveQueue 0 False)\<lparr>q_capacity := 1000, q_deque := [t]\<rparr>\<rparr>)"
    using s by (simp add: QueueTask_enqueue_def push_defs ActiveQueue_def is_full_def
        insert_element_def record_enqueue_def with_metrics_def)
  from run_stateI [OF s(1) submit_enqueued [OF _ this]] show ?thesis
    using s by (simp add: remove_nth_def)
qed

lemma run_one_task_dies: "run_state [WExiting] [] [] 1"
proof -
  obtain t :: 'a where True by simp
  obtain s where s: "pool_reachable s" "tp_workers (ps_pool s) = [WDequeue]"
    "tp_queue (ps_pool s) = (ActiveQueue 0 False)\<lparr>q_capacity := 1000, q_deque := [t]\<rparr>"
    "\<not> tp_stop_requested (ps_pool s)" "ps_submitting s = []" "ps_lost s = 0"
    using run_one_task_submitted [of t] unfolding run_state_def by blast
  have "ActiveQueue_Dequeue_enter False False 0 0 (tp_queue (ps_pool s)) =
      Ret (Some t, (ActiveQueue 0 False)\<lparr>q_capacity := 1000, q_deque := []\<rparr>)"
    using s by (simp add: pop_defs not_empty_predicate_def ActiveQueue_def add_wait_time_def
        with_metrics_def)
  from run_stateI [OF s(1) worker_takes [OF _ this, of 0]] have "run_state [WTaken t] [] [] 0"
    using s by (simp add: at_worker_def set_worker_def)
  then have "run_state [WStarting t] [] [] 0"
    unfolding run_state_def [of "[WTaken t]"]
    by (elim exE conjE, intro run_stateI [OF _ worker_checks [of 0]])
       (auto simp: at_worker_def set_worker_def)
  then have "run_state [WRunning t] [] [] 0"
    unfolding run_state_def [of "[WStarting t]"]
    by (elim exE conjE, intro run_stateI [OF _ worker_begins [of 0]])
       (auto simp: at_worker_def set_worker_def ExecuteTask_begin_def)
  then show ?thesis
    unfolding run_state_def [of "[WRunning t]"]
    by (elim exE conjE, intro run_stateI [OF _ worker_dies [of 0 _ _ ThrewOther]])
       (auto simp: at_worker_def set_worker_def ExecuteTask_record_def)
qed

theorem foreign_exception_blocks_join_witness:
  "\<exists>s :: nat pool_sys. pool_reachable s \<and> 0 < ps_lost s \<and>
     (\<forall>s'. pool_step\<^sup>*\<^sup>* s s' \<longrightarrow> \<not> join_ready (ps_pool s'))"
proof -
  obtain s :: "nat pool_sys" where "pool_reachable s" "ps_lost s = 1"
    using run_one_task_dies unfolding run_state_def by blast
  then show ?thesis using foreign_exception_blocks_join [of s] by (intro exI [of _ s]) simp
qed

end
