(* ===== verification/Node_Lifecycle.thy ===== *)
theory Node_Lifecycle
  imports Dynamic_Edge Thread_Pool
begin

text \<open>
  The lifecycle interface shared by nodes and edges (\<open>INode\<close>, \<open>IEdgeBase\<close>), the mixin that
  implements it for nodes (\<open>libgraph/include/graph/Lifecycle.hpp\<close>), and the contract of timed
  joins that \<open>GraphManager\<close> relies on.

  A virtual call returns or throws (\<open>Throws (Some what)\<close> for a \<open>std::exception\<close>); a record of
  operations is the table it dispatches on. The port hooks of the derived node class
  (\<open>InitPortsImpl\<close>, ...) are a record of functions on the derived part of the node.
\<close>

section \<open>Components behind interfaces\<close>

datatype 'a call = Returns 'a | Throws "string option"

record 'c component_ops =
  co_Init :: "'c \<Rightarrow> bool call \<times> 'c"
  co_Start :: "'c \<Rightarrow> bool call \<times> 'c"
  co_Stop :: "'c \<Rightarrow> unit call \<times> 'c"
  co_Join :: "'c \<Rightarrow> unit call \<times> 'c"
  co_JoinWithTimeout :: "int \<Rightarrow> 'c \<Rightarrow> (bool \<times> int) \<times> 'c"

text \<open>
  What a timed join promises: it takes no longer than the time it is given.
\<close>

locale timed_join =
  fixes join :: "int \<Rightarrow> 'c \<Rightarrow> (bool \<times> int) \<times> 'c"
  assumes join_in_time: "0 \<le> b \<Longrightarrow> 0 \<le> snd (fst (join b c)) \<and> snd (fst (join b c)) \<le> b"

section \<open>NodeLifecycleMixin\<close>

datatype lifecycle_state = LS_Uninitialized | LS_Initialized | LS_Started | LS_Stopped | LS_Joined
  | LS_Invalid

record 'p port_hooks =
  ph_InitPorts :: "'p \<Rightarrow> bool \<times> 'p"
  ph_StartPorts :: "'p \<Rightarrow> bool \<times> 'p"
  ph_StopPorts :: "'p \<Rightarrow> 'p"
  ph_JoinPorts :: "'p \<Rightarrow> 'p"
  ph_JoinWithTimeoutPorts :: "int \<Rightarrow> 'p \<Rightarrow> (bool \<times> int) \<times> 'p"

record 'p lifecycle_node =
  nl_started :: bool
  nl_state :: lifecycle_state
  nl_ports :: 'p

definition NodeLifecycle :: "'p \<Rightarrow> 'p lifecycle_node" where
  "NodeLifecycle ports = \<lparr>nl_started = False, nl_state = LS_Uninitialized, nl_ports = ports\<rparr>"

definition InitImpl :: "'p port_hooks \<Rightarrow> 'p lifecycle_node \<Rightarrow> bool \<times> 'p lifecycle_node" where
  "InitImpl hooks n =
     (case ph_InitPorts hooks (nl_ports n) of
        (True, p) \<Rightarrow> (True, n\<lparr>nl_ports := p, nl_state := LS_Initialized\<rparr>)
      | (False, p) \<Rightarrow> (False, n\<lparr>nl_ports := p, nl_state := LS_Uninitialized\<rparr>))"

definition StartImpl :: "'p port_hooks \<Rightarrow> 'p lifecycle_node \<Rightarrow> bool \<times> 'p lifecycle_node" where
  "StartImpl hooks n =
     (if nl_started n then (False, n)
      else let n1 = n\<lparr>nl_started := True\<rparr> in
           case ph_StartPorts hooks (nl_ports n1) of
             (True, p) \<Rightarrow> (True, n1\<lparr>nl_ports := p, nl_state := LS_Started\<rparr>)
           | (False, p) \<Rightarrow> (False, n1\<lparr>nl_ports := p\<rparr>))"

definition StopImpl :: "'p port_hooks \<Rightarrow> 'p lifecycle_node \<Rightarrow> 'p lifecycle_node" where
  "StopImpl hooks n = n\<lparr>nl_ports := ph_StopPorts hooks (nl_ports n), nl_state := LS_Stopped\<rparr>"

definition JoinImpl :: "'p port_hooks \<Rightarrow> 'p lifecycle_node \<Rightarrow> 'p lifecycle_node" where
  "JoinImpl hooks n = n\<lparr>nl_ports := ph_JoinPorts hooks (nl_ports n), nl_state := LS_Joined,
     nl_started := False\<rparr>"

definition JoinWithTimeoutImpl ::
    "'p port_hooks \<Rightarrow> int \<Rightarrow> 'p lifecycle_node \<Rightarrow> (bool \<times> int) \<times> 'p lifecycle_node" where
  "JoinWithTimeoutImpl hooks timeout_ms n =
     (case ph_JoinWithTimeoutPorts hooks timeout_ms (nl_ports n) of
        ((True, d), p) \<Rightarrow> ((True, d), n\<lparr>nl_ports := p, nl_state := LS_Joined\<rparr>)
      | ((False, d), p) \<Rightarrow> ((False, d), n\<lparr>nl_ports := p\<rparr>))"

text \<open>The table of virtual functions of such a node, and that of a \<open>DynamicEdge\<close>.\<close>

definition lifecycle_node_ops :: "'p port_hooks \<Rightarrow> 'p lifecycle_node component_ops" where
  "lifecycle_node_ops hooks = \<lparr>
     co_Init = (\<lambda>n. apfst Returns (InitImpl hooks n)),
     co_Start = (\<lambda>n. apfst Returns (StartImpl hooks n)),
     co_Stop = (\<lambda>n. (Returns (), StopImpl hooks n)),
     co_Join = (\<lambda>n. (Returns (), JoinImpl hooks n)),
     co_JoinWithTimeout = JoinWithTimeoutImpl hooks\<rparr>"

definition DynamicEdge_Join :: "'m dynamic_edge \<Rightarrow> 'm dynamic_edge" where
  "DynamicEdge_Join e = (if de_joinable e then e\<lparr>de_joinable := False\<rparr> else e)"

definition dynamic_edge_ops ::
    "('m dynamic_edge \<Rightarrow> (nat \<times> 'm dynamic_edge) option) \<Rightarrow> 'm dynamic_edge component_ops" where
  "dynamic_edge_ops settle = \<lparr>
     co_Init = (\<lambda>e. apfst Returns (DynamicEdge_Init e)),
     co_Start = (\<lambda>e. apfst Returns (DynamicEdge_Start e)),
     co_Stop = (\<lambda>e. (Returns (), DynamicEdge_Stop e)),
     co_Join = (\<lambda>e. (Returns (), DynamicEdge_Join e)),
     co_JoinWithTimeout = DynamicEdge_JoinWithTimeout settle\<rparr>"

interpretation edge_join: timed_join "DynamicEdge_JoinWithTimeout settle"
  by unfold_locales (auto simp: DynamicEdge_JoinWithTimeout_def split: option.splits)

interpretation pool_join: timed_join "ThreadPool_JoinWithTimeout settle"
  by unfold_locales (auto simp: ThreadPool_JoinWithTimeout_def Let_def split: option.splits)

section \<open>Restarting a node\<close>

text \<open>
  The start latch. A node that was started cannot be started again before \<open>Join\<close>; after
  \<open>Stop\<close> and \<open>Join\<close> it can, and starting it then succeeds exactly when its ports start.
\<close>

theorem node_restart_after_join:
  "fst (StartImpl hooks (JoinImpl hooks (StopImpl hooks n))) =
     fst (ph_StartPorts hooks (nl_ports (JoinImpl hooks (StopImpl hooks n)))) \<and>
   \<not> fst (StartImpl hooks (snd (StartImpl hooks n)))"
  by (auto simp: StartImpl_def JoinImpl_def StopImpl_def Let_def split: prod.splits bool.splits)

datatype node_call = CInit | CStart | CStop | CJoinWithTimeout int

fun node_call_step :: "'p port_hooks \<Rightarrow> node_call \<Rightarrow> 'p lifecycle_node \<Rightarrow> 'p lifecycle_node" where
  "node_call_step hooks CInit n = snd (InitImpl hooks n)"
| "node_call_step hooks CStart n = snd (StartImpl hooks n)"
| "node_call_step hooks CStop n = StopImpl hooks n"
| "node_call_step hooks (CJoinWithTimeout b) n = snd (JoinWithTimeoutImpl hooks b n)"

lemma node_call_keeps_latch: "nl_started n \<Longrightarrow> nl_started (node_call_step hooks c n)"
  by (cases c) (auto simp: InitImpl_def StartImpl_def StopImpl_def JoinWithTimeoutImpl_def Let_def
      split: prod.splits bool.splits)

text \<open>
  After a timed join a started node can never be started again by \<open>Init\<close>, \<open>Start\<close>, \<open>Stop\<close> and further
  timed joins, even when the timed join succeeded: unlike \<open>Join\<close>, \<open>JoinWithTimeout\<close> does not
  release the start latch. The same holds after a start that failed.
\<close>

theorem timed_join_prevents_restart:
  "\<not> fst (StartImpl hooks (fold (node_call_step hooks) calls (snd (StartImpl hooks n))))"
proof -
  have "nl_started (snd (StartImpl hooks n))"
    by (auto simp: StartImpl_def Let_def split: prod.splits bool.splits)
  then have "nl_started (fold (node_call_step hooks) calls (snd (StartImpl hooks n)))"
    by (induction calls rule: rev_induct) (auto simp: node_call_keeps_latch)
  then show ?thesis by (simp add: StartImpl_def)
qed

end
