(* ===== verification/Policy_Chain.thy ===== *)
theory Policy_Chain
  imports Node_Lifecycle
begin

text \<open>
  Execution policies (\<open>libgraph/include/graph/IExecutionPolicy.hpp\<close>): the hooks a policy has, the
  chain that calls them in order and remembers which policies were initialised, and the
  \<open>CompletionPolicy\<close> (\<open>libgraph/include/policies/CompletionPolicy.hpp\<close>).

  A policy is a state of type \<open>'p\<close> with a table of hooks that also read and write the context
  (\<open>GraphCapability\<close>) and may throw. The linked list of \<open>ExecutionPolicyChain\<close> objects is a list
  of links; a chain has at least one link, so the empty list is the null pointer.
\<close>

section \<open>The chain\<close>

record ('p, 'c) policy_ops =
  po_OnInit :: "'p \<Rightarrow> 'c \<Rightarrow> bool call \<times> 'p \<times> 'c"
  po_OnStart :: "'p \<Rightarrow> 'c \<Rightarrow> bool call \<times> 'p \<times> 'c"
  po_OnRun :: "'p \<Rightarrow> 'c \<Rightarrow> bool call \<times> 'p \<times> 'c"
  po_OnStop :: "'p \<Rightarrow> 'c \<Rightarrow> unit call \<times> 'p \<times> 'c"
  po_OnJoin :: "'p \<Rightarrow> 'c \<Rightarrow> unit call \<times> 'p \<times> 'c"

text \<open>The hooks of \<open>IExecutionPolicy\<close> that a policy does not override.\<close>

definition IExecutionPolicy_defaults :: "('p, 'c) policy_ops" where
  "IExecutionPolicy_defaults = \<lparr>
     po_OnInit = (\<lambda>p c. (Returns True, p, c)), po_OnStart = (\<lambda>p c. (Returns True, p, c)),
     po_OnRun = (\<lambda>p c. (Returns True, p, c)), po_OnStop = (\<lambda>p c. (Returns (), p, c)),
     po_OnJoin = (\<lambda>p c. (Returns (), p, c))\<rparr>"

record 'p chain_link =
  cl_policy :: 'p
  cl_initialized :: bool

fun Chain_OnInit ::
    "('p, 'c) policy_ops \<Rightarrow> 'p chain_link list \<Rightarrow> 'c \<Rightarrow> bool call \<times> 'p chain_link list \<times> 'c" where
  "Chain_OnInit ops [] c = (Returns True, [], c)"
| "Chain_OnInit ops (l # ls) c =
     (case po_OnInit ops (cl_policy l) c of
        (Returns True, p, c') \<Rightarrow>
          (case Chain_OnInit ops ls c' of
             (r, ls', c'') \<Rightarrow> (r, l\<lparr>cl_policy := p, cl_initialized := True\<rparr> # ls', c''))
      | (r, p, c') \<Rightarrow> (r, l\<lparr>cl_policy := p, cl_initialized := False\<rparr> # ls, c'))"

text \<open>\<open>OnStart\<close> and \<open>OnRun\<close>: stop at the first policy that refuses.\<close>

fun chain_try ::
    "('p \<Rightarrow> 'c \<Rightarrow> bool call \<times> 'p \<times> 'c) \<Rightarrow> 'p chain_link list \<Rightarrow> 'c \<Rightarrow>
     bool call \<times> 'p chain_link list \<times> 'c" where
  "chain_try f [] c = (Returns True, [], c)"
| "chain_try f (l # ls) c =
     (case f (cl_policy l) c of
        (Returns True, p, c') \<Rightarrow>
          (case chain_try f ls c' of (r, ls', c'') \<Rightarrow> (r, l\<lparr>cl_policy := p\<rparr> # ls', c''))
      | (r, p, c') \<Rightarrow> (r, l\<lparr>cl_policy := p\<rparr> # ls, c'))"

definition Chain_OnStart ::
    "('p, 'c) policy_ops \<Rightarrow> 'p chain_link list \<Rightarrow> 'c \<Rightarrow> bool call \<times> 'p chain_link list \<times> 'c" where
  "Chain_OnStart ops = chain_try (po_OnStart ops)"

definition Chain_OnRun ::
    "('p, 'c) policy_ops \<Rightarrow> 'p chain_link list \<Rightarrow> 'c \<Rightarrow> bool call \<times> 'p chain_link list \<times> 'c" where
  "Chain_OnRun ops = chain_try (po_OnRun ops)"

fun Chain_OnStop ::
    "('p, 'c) policy_ops \<Rightarrow> 'p chain_link list \<Rightarrow> 'c \<Rightarrow> unit call \<times> 'p chain_link list \<times> 'c" where
  "Chain_OnStop ops [] c = (Returns (), [], c)"
| "Chain_OnStop ops (l # ls) c =
     (case po_OnStop ops (cl_policy l) c of
        (Returns _, p, c') \<Rightarrow>
          (case Chain_OnStop ops ls c' of (r, ls', c'') \<Rightarrow> (r, l\<lparr>cl_policy := p\<rparr> # ls', c''))
      | (Throws w, p, c') \<Rightarrow> (Throws w, l\<lparr>cl_policy := p\<rparr> # ls, c'))"

fun Chain_OnJoin ::
    "('p, 'c) policy_ops \<Rightarrow> 'p chain_link list \<Rightarrow> 'c \<Rightarrow> unit call \<times> 'p chain_link list \<times> 'c" where
  "Chain_OnJoin ops [] c = (Returns (), [], c)"
| "Chain_OnJoin ops (l # ls) c =
     (case po_OnJoin ops (cl_policy l) c of
        (Returns _, p, c') \<Rightarrow>
          (case Chain_OnJoin ops ls c' of
             (r, ls', c'') \<Rightarrow> (r, l\<lparr>cl_policy := p, cl_initialized := False\<rparr> # ls', c''))
      | (Throws w, p, c') \<Rightarrow> (Throws w, l\<lparr>cl_policy := p\<rparr> # ls, c'))"

fun Chain_OnInitializationRollbackStop ::
    "('p, 'c) policy_ops \<Rightarrow> 'p chain_link list \<Rightarrow> 'c \<Rightarrow> unit call \<times> 'p chain_link list \<times> 'c" where
  "Chain_OnInitializationRollbackStop ops [] c = (Returns (), [], c)"
| "Chain_OnInitializationRollbackStop ops (l # ls) c =
     (case (if cl_initialized l then po_OnStop ops (cl_policy l) c
            else (Returns (), cl_policy l, c)) of
        (Returns _, p, c') \<Rightarrow>
          (case Chain_OnInitializationRollbackStop ops ls c' of
             (r, ls', c'') \<Rightarrow> (r, l\<lparr>cl_policy := p\<rparr> # ls', c''))
      | (Throws w, p, c') \<Rightarrow> (Throws w, l\<lparr>cl_policy := p\<rparr> # ls, c'))"

fun Chain_OnInitializationRollbackJoin ::
    "('p, 'c) policy_ops \<Rightarrow> 'p chain_link list \<Rightarrow> 'c \<Rightarrow> unit call \<times> 'p chain_link list \<times> 'c" where
  "Chain_OnInitializationRollbackJoin ops [] c = (Returns (), [], c)"
| "Chain_OnInitializationRollbackJoin ops (l # ls) c =
     (case (if cl_initialized l then po_OnJoin ops (cl_policy l) c
            else (Returns (), cl_policy l, c)) of
        (Returns _, p, c') \<Rightarrow>
          (case Chain_OnInitializationRollbackJoin ops ls c' of
             (r, ls', c'') \<Rightarrow> (r, l\<lparr>cl_policy := p, cl_initialized := False\<rparr> # ls', c''))
      | (Throws w, p, c') \<Rightarrow> (Throws w, l\<lparr>cl_policy := p\<rparr> # ls, c'))"

definition AppendPolicy :: "'p \<Rightarrow> 'p chain_link list \<Rightarrow> 'p chain_link list" where
  "AppendPolicy policy ls = ls @ [\<lparr>cl_policy = policy, cl_initialized = False\<rparr>]"

definition AppendNext :: "'p chain_link list \<Rightarrow> 'p chain_link list \<Rightarrow> 'p chain_link list" where
  "AppendNext next_chain ls = ls @ next_chain"

section \<open>Which policies are marked\<close>

abbreviation marks :: "'p chain_link list \<Rightarrow> bool list" where
  "marks \<equiv> map cl_initialized"

lemma OnInit_ok_marks:
  "Chain_OnInit ops ls c = (Returns True, ls', c') \<Longrightarrow> marks ls' = replicate (length ls) True"
  by (induction ls arbitrary: c ls' c') (fastforce split: prod.splits call.splits bool.splits)+

lemma chain_try_marks: "chain_try f ls c = (r, ls', c') \<Longrightarrow> marks ls' = marks ls"
  by (induction ls arbitrary: c ls' c' r) (fastforce split: prod.splits call.splits bool.splits)+

lemma OnStop_marks: "Chain_OnStop ops ls c = (r, ls', c') \<Longrightarrow> marks ls' = marks ls"
  by (induction ls arbitrary: c ls' c' r) (fastforce split: prod.splits call.splits)+

lemma RollbackStop_marks:
  "Chain_OnInitializationRollbackStop ops ls c = (r, ls', c') \<Longrightarrow> marks ls' = marks ls"
  by (induction ls arbitrary: c ls' c' r) (fastforce split: prod.splits call.splits)+

lemma OnJoin_ok_marks:
  "Chain_OnJoin ops ls c = (Returns (), ls', c') \<Longrightarrow> marks ls' = replicate (length ls) False"
  by (induction ls arbitrary: c ls' c') (fastforce split: prod.splits call.splits)+

lemma RollbackJoin_ok_marks:
  "Chain_OnInitializationRollbackJoin ops ls c = (Returns (), ls', c') \<Longrightarrow>
   marks ls' = replicate (length ls) False"
  by (induction ls arbitrary: c ls' c') (fastforce split: prod.splits call.splits)+

lemma length_OnInit: "Chain_OnInit ops ls c = (r, ls', c') \<Longrightarrow> length ls' = length ls"
  by (induction ls arbitrary: c ls' c') (fastforce split: prod.splits call.splits bool.splits)+

lemma marked_iff: "(\<forall>l \<in> set ls. cl_initialized l) \<longleftrightarrow> marks ls = replicate (length ls) True"
  by (induction ls) auto

lemma unmarked_iff: "(\<forall>l \<in> set ls. \<not> cl_initialized l) \<longleftrightarrow> marks ls = replicate (length ls) False"
  by (induction ls) auto

lemma marks_transfer:
  assumes "marks ls' = marks ls"
  shows "(\<forall>l \<in> set (take k ls'). cl_initialized l) = (\<forall>l \<in> set (take k ls). cl_initialized l)"
    and "(\<forall>l \<in> set (drop k ls'). \<not> cl_initialized l) = (\<forall>l \<in> set (drop k ls). \<not> cl_initialized l)"
proof -
  have n: "length ls' = length ls" using assms by (metis length_map)
  have "marks (take k ls') = marks (take k ls)" "marks (drop k ls') = marks (drop k ls)"
    using assms by (simp_all add: take_map [symmetric] drop_map [symmetric])
  with n show "(\<forall>l \<in> set (take k ls'). cl_initialized l) = (\<forall>l \<in> set (take k ls). cl_initialized l)"
    "(\<forall>l \<in> set (drop k ls'). \<not> cl_initialized l) = (\<forall>l \<in> set (drop k ls). \<not> cl_initialized l)"
    by (simp_all add: marked_iff unmarked_iff)
qed

text \<open>On unmarked links the rollback does nothing; on marked ones it acts as \<open>OnStop\<close> and \<open>OnJoin\<close>.\<close>

lemma RollbackStop_unmarked:
  "\<forall>l \<in> set ls. \<not> cl_initialized l \<Longrightarrow>
   Chain_OnInitializationRollbackStop ops ls c = (Returns (), ls, c)"
  by (induction ls) auto

lemma RollbackJoin_unmarked:
  "\<forall>l \<in> set ls. \<not> cl_initialized l \<Longrightarrow>
   Chain_OnInitializationRollbackJoin ops ls c = (Returns (), ls, c)"
  by (induction ls) auto

definition on_prefix :: "('p chain_link list \<Rightarrow> 'c \<Rightarrow> unit call \<times> 'p chain_link list \<times> 'c) \<Rightarrow> nat \<Rightarrow>
    'p chain_link list \<Rightarrow> 'c \<Rightarrow> unit call \<times> 'p chain_link list \<times> 'c" where
  "on_prefix f k ls c = (case f (take k ls) c of (r, ls', c') \<Rightarrow> (r, ls' @ drop k ls, c'))"

lemma RollbackStop_prefix:
  "\<forall>l \<in> set (take k ls). cl_initialized l \<Longrightarrow> \<forall>l \<in> set (drop k ls). \<not> cl_initialized l \<Longrightarrow>
   Chain_OnInitializationRollbackStop ops ls c = on_prefix (Chain_OnStop ops) k ls c"
proof (induction ls arbitrary: k c)
  case (Cons l ls)
  then show ?case
    by (cases k) (auto simp: RollbackStop_unmarked on_prefix_def split: prod.splits call.splits)
qed (simp add: on_prefix_def)

lemma RollbackJoin_prefix:
  "\<forall>l \<in> set (take k ls). cl_initialized l \<Longrightarrow> \<forall>l \<in> set (drop k ls). \<not> cl_initialized l \<Longrightarrow>
   Chain_OnInitializationRollbackJoin ops ls c = on_prefix (Chain_OnJoin ops) k ls c"
proof (induction ls arbitrary: k c)
  case (Cons l ls)
  then show ?case
    by (cases k) (auto simp: RollbackJoin_unmarked on_prefix_def split: prod.splits call.splits)
qed (simp add: on_prefix_def)

text \<open>Where a failing \<open>OnInit\<close> stops.\<close>

lemma OnInit_failure_point:
  assumes "Chain_OnInit ops ls c = (r, ls', c')" and "r \<noteq> Returns True"
    and "\<forall>l \<in> set ls. \<not> cl_initialized l"
  shows "\<exists>k < length ls. fst (Chain_OnInit ops (take k ls) c) = Returns True \<and>
    fst (Chain_OnInit ops (take (Suc k) ls) c) = r \<and>
    (\<forall>l \<in> set (take k ls'). cl_initialized l) \<and> (\<forall>l \<in> set (drop k ls'). \<not> cl_initialized l)"
  using assms
proof (induction ls arbitrary: c ls')
  case (Cons l ls)
  obtain r1 p c1 where h: "po_OnInit ops (cl_policy l) c = (r1, p, c1)" by (metis prod_cases3)
  show ?case
  proof (cases "r1 = Returns True")
    case True
    then obtain ls1 where i: "Chain_OnInit ops ls c1 = (r, ls1, c')"
      and ls': "ls' = l\<lparr>cl_policy := p, cl_initialized := True\<rparr> # ls1"
      using Cons.prems h by (auto split: prod.splits)
    obtain k where "k < length ls" "fst (Chain_OnInit ops (take k ls) c1) = Returns True"
      "fst (Chain_OnInit ops (take (Suc k) ls) c1) = r"
      "\<forall>l \<in> set (take k ls1). cl_initialized l" "\<forall>l \<in> set (drop k ls1). \<not> cl_initialized l"
      using Cons.IH [OF i] Cons.prems by auto
    then show ?thesis using h True ls'
      by (intro exI [of _ "Suc k"]) (auto split: prod.splits)
  next
    case False
    then have "ls' = l\<lparr>cl_policy := p, cl_initialized := False\<rparr> # ls \<and> r = r1"
      using Cons.prems h by (auto split: call.splits bool.splits)
    then show ?thesis using h False Cons.prems
      by (intro exI [of _ 0]) (auto split: call.splits bool.splits)
  qed
qed simp

text \<open>
  C40. A failed initialisation is undone exactly. If no policy was initialised before and
  \<open>OnInit\<close> of the chain fails or throws, then some first \<open>k\<close> policies were initialised and
  the next one refused or threw; the rollback stops, and then joins, precisely these \<open>k\<close>
  policies in chain order, the other policies are not called, and a rollback that does not
  throw leaves every policy unmarked.
\<close>

theorem rollback_undoes_exactly_the_initialised:
  assumes "\<forall>l \<in> set ls. \<not> cl_initialized l"
    and "Chain_OnInit ops ls c = (r, ls', c')" and "r \<noteq> Returns True"
  shows "\<exists>k < length ls.
    fst (Chain_OnInit ops (take k ls) c) = Returns True \<and>
    fst (Chain_OnInit ops (take (Suc k) ls) c) = r \<and>
    (\<forall>d. Chain_OnInitializationRollbackStop ops ls' d = on_prefix (Chain_OnStop ops) k ls' d) \<and>
    (\<forall>ls'' d s d'. Chain_OnInitializationRollbackStop ops ls' d = (s, ls'', d') \<longrightarrow>
       (\<forall>e. Chain_OnInitializationRollbackJoin ops ls'' e = on_prefix (Chain_OnJoin ops) k ls'' e) \<and>
       (\<forall>e m e'. Chain_OnInitializationRollbackJoin ops ls'' e = (Returns (), m, e') \<longrightarrow>
          (\<forall>l \<in> set m. \<not> cl_initialized l)))"
proof -
  obtain k where k: "k < length ls" "fst (Chain_OnInit ops (take k ls) c) = Returns True"
    "fst (Chain_OnInit ops (take (Suc k) ls) c) = r"
    "\<forall>l \<in> set (take k ls'). cl_initialized l" "\<forall>l \<in> set (drop k ls'). \<not> cl_initialized l"
    using OnInit_failure_point [OF assms(2,3,1)] by blast
  have "(\<forall>e. Chain_OnInitializationRollbackJoin ops ls'' e = on_prefix (Chain_OnJoin ops) k ls'' e) \<and>
       (\<forall>e m e'. Chain_OnInitializationRollbackJoin ops ls'' e = (Returns (), m, e') \<longrightarrow>
          (\<forall>l \<in> set m. \<not> cl_initialized l))"
    if "Chain_OnInitializationRollbackStop ops ls' d = (s, ls'', d')" for ls'' d s d'
  proof -
    note m = RollbackStop_marks [OF that]
    have "\<forall>l \<in> set (take k ls''). cl_initialized l" "\<forall>l \<in> set (drop k ls''). \<not> cl_initialized l"
      using k(4,5) marks_transfer [OF m] by blast+
    then have "\<forall>e. Chain_OnInitializationRollbackJoin ops ls'' e = on_prefix (Chain_OnJoin ops) k ls'' e"
      by (intro allI) (rule RollbackJoin_prefix)
    moreover have "\<forall>l \<in> set m. \<not> cl_initialized l"
      if "Chain_OnInitializationRollbackJoin ops ls'' e = (Returns (), m, e')" for e m e'
      using RollbackJoin_ok_marks [OF that] by (simp add: unmarked_iff) (metis length_map length_replicate)
    ultimately show ?thesis by blast
  qed
  moreover have "\<forall>d. Chain_OnInitializationRollbackStop ops ls' d = on_prefix (Chain_OnStop ops) k ls' d"
    using RollbackStop_prefix [OF k(4,5)] by (intro allI)
  ultimately show ?thesis using k(1-3) by (intro exI [of _ k]) blast
qed

definition refusing_policy :: "(nat, nat list) policy_ops" where
  "refusing_policy = IExecutionPolicy_defaults\<lparr>
     po_OnInit := (\<lambda>p c. (Returns (p \<noteq> 2), p, c @ [p])),
     po_OnStop := (\<lambda>p c. (Returns (), p, c @ [p + 10]))\<rparr>"

theorem rollback_undoes_exactly_the_initialised_witness:
  "let ls = AppendPolicy 3 (AppendPolicy 2 (AppendPolicy 1 []));
       (r, ls', c) = Chain_OnInit refusing_policy ls []
   in c = [1, 2] \<and>
      snd (snd (Chain_OnInitializationRollbackStop refusing_policy ls' c)) = [1, 2, 11] \<and>
      (\<exists>k < length ls. fst (Chain_OnInit refusing_policy (take (Suc k) ls) []) = Returns False)"
proof -
  let ?ls = "AppendPolicy (3::nat) (AppendPolicy 2 (AppendPolicy 1 []))"
  let ?ls' = "[\<lparr>cl_policy = 1, cl_initialized = True\<rparr>, \<lparr>cl_policy = 2, cl_initialized = False\<rparr>,
    \<lparr>cl_policy = 3, cl_initialized = False\<rparr>]"
  have i: "Chain_OnInit refusing_policy ?ls [] = (Returns False, ?ls', [1, 2])"
    by (simp add: AppendPolicy_def refusing_policy_def IExecutionPolicy_defaults_def)
  have u: "\<forall>l \<in> set ?ls. \<not> cl_initialized l" by (simp add: AppendPolicy_def)
  have "snd (snd (Chain_OnInitializationRollbackStop refusing_policy ?ls' [1, 2])) = [1, 2, 11]"
    by (simp add: refusing_policy_def IExecutionPolicy_defaults_def)
  moreover have "\<exists>k < length ?ls. fst (Chain_OnInit refusing_policy (take (Suc k) ?ls) []) = Returns False"
    using rollback_undoes_exactly_the_initialised [OF u i] by (metis bool.distinct(1) call.inject(1))
  ultimately show ?thesis by (simp only: i Let_def prod.case)
qed

section \<open>GraphCapability\<close>

text \<open>
  The context the hooks work on (\<open>libgraph/include/capabilities/GraphCapability.hpp\<close>). The
  executor's \<open>graph_manager_\<close> and the capability's are one shared object: constructor, \<open>Init\<close>,
  \<open>ConfigureGraph\<close> and rollback set both, so it is stored once, here. Documents are values of
  type \<open>'d\<close>. The capability bus is not modelled.
\<close>

record ('g, 'd) graph_capability =
  gc_graph_manager :: "'g option"
  gc_node_provider :: bool
  gc_node_names :: "string list"
  gc_edge_descriptions :: "string list"
  gc_graph_document :: "'d option"
  gc_is_stopped :: bool
  gc_completion_signaled :: bool

definition GraphCapability :: "'g option \<Rightarrow> ('g, 'd) graph_capability" where
  "GraphCapability g = \<lparr>gc_graph_manager = g, gc_node_provider = False, gc_node_names = [],
     gc_edge_descriptions = [], gc_graph_document = None, gc_is_stopped = False,
     gc_completion_signaled = False\<rparr>"

definition ResetExecutionSignals :: "('g, 'd) graph_capability \<Rightarrow> ('g, 'd) graph_capability" where
  "ResetExecutionSignals c = c\<lparr>gc_is_stopped := False, gc_completion_signaled := False\<rparr>"

definition SetStopped :: "('g, 'd) graph_capability \<Rightarrow> ('g, 'd) graph_capability" where
  "SetStopped c = c\<lparr>gc_is_stopped := True\<rparr>"

definition SetCompletionSignaled :: "('g, 'd) graph_capability \<Rightarrow> ('g, 'd) graph_capability" where
  "SetCompletionSignaled c = c\<lparr>gc_completion_signaled := True\<rparr>"

section \<open>What the executor relies on\<close>

text \<open>Hooks may work on the graph manager, but neither install nor remove it.\<close>

abbreviation same_presence :: "('g, 'd) graph_capability \<Rightarrow> ('g, 'd) graph_capability \<Rightarrow> bool" where
  "same_presence c c' \<equiv> (gc_graph_manager c' = None) = (gc_graph_manager c = None)"

locale stable_policies =
  fixes ops :: "('p, ('g, 'd) graph_capability) policy_ops"
  assumes init_stable: "po_OnInit ops p c = (r, p', c') \<Longrightarrow> same_presence c c'"
    and start_stable: "po_OnStart ops p c = (r, p', c') \<Longrightarrow> same_presence c c'"
    and run_stable: "po_OnRun ops p c = (r, p', c') \<Longrightarrow> same_presence c c'"
    and stop_stable: "po_OnStop ops p c = (s, p', c') \<Longrightarrow> same_presence c c'"
    and join_stable: "po_OnJoin ops p c = (s, p', c') \<Longrightarrow> same_presence c c'"
begin

lemma OnInit_stable: "Chain_OnInit ops ls c = (r, ls', c') \<Longrightarrow> same_presence c c'"
  by (induction ls arbitrary: c ls' r)
     (fastforce dest: init_stable split: prod.splits call.splits bool.splits)+

lemma OnStart_stable: "Chain_OnStart ops ls c = (r, ls', c') \<Longrightarrow> same_presence c c'"
  unfolding Chain_OnStart_def
  by (induction ls arbitrary: c ls' r)
     (fastforce dest: start_stable split: prod.splits call.splits bool.splits)+

lemma OnRun_stable: "Chain_OnRun ops ls c = (r, ls', c') \<Longrightarrow> same_presence c c'"
  unfolding Chain_OnRun_def
  by (induction ls arbitrary: c ls' r)
     (fastforce dest: run_stable split: prod.splits call.splits bool.splits)+

lemma OnStop_stable: "Chain_OnStop ops ls c = (s, ls', c') \<Longrightarrow> same_presence c c'"
  by (induction ls arbitrary: c ls' s)
     (fastforce dest: stop_stable split: prod.splits call.splits)+

end

section \<open>CompletionPolicy\<close>

datatype completion_thread = CT_None | CT_Waiting | CT_Finished

record completion_policy =
  cp_completion_thread :: completion_thread
  cp_completion_signaled :: bool
  cp_stop_requested :: bool
  cp_completion_callbacks :: nat

definition CompletionPolicy :: completion_policy where
  "CompletionPolicy = \<lparr>cp_completion_thread = CT_None, cp_completion_signaled = False,
     cp_stop_requested = False, cp_completion_callbacks = 0\<rparr>"

text \<open>\<open>providers g\<close>: how many nodes of the graph report completion; each gets a callback.\<close>

definition InitCompletionCallbacks ::
    "('g \<Rightarrow> nat) \<Rightarrow> completion_policy \<Rightarrow> ('g, 'd) graph_capability \<Rightarrow> bool \<times> completion_policy" where
  "InitCompletionCallbacks providers p c =
     (case gc_graph_manager c of
        None \<Rightarrow> (False, p)
      | Some g \<Rightarrow> (True, p\<lparr>cp_completion_callbacks := providers g\<rparr>))"

definition CompletionPolicy_OnInit ::
    "('g \<Rightarrow> nat) \<Rightarrow> completion_policy \<Rightarrow> ('g, 'd) graph_capability \<Rightarrow>
     bool call \<times> completion_policy \<times> ('g, 'd) graph_capability" where
  "CompletionPolicy_OnInit providers p c =
     (Returns True,
      snd (InitCompletionCallbacks providers
        (p\<lparr>cp_completion_signaled := False, cp_stop_requested := False\<rparr>) c), c)"

text \<open>The end of the completion thread: signalled, stopped or past its deadline.\<close>

definition completion_thread_ends ::
    "completion_policy \<Rightarrow> ('g, 'd) graph_capability \<Rightarrow> completion_policy \<times> ('g, 'd) graph_capability" where
  "completion_thread_ends p c =
     (if cp_completion_thread p = CT_Waiting
      then (p\<lparr>cp_completion_thread := CT_Finished\<rparr>,
            SetStopped (if cp_completion_signaled p then SetCompletionSignaled c else c))
      else (p, c))"

text \<open>Assigning the new \<open>std::jthread\<close> joins an old one first.\<close>

definition CompletionPolicy_OnStart ::
    "completion_policy \<Rightarrow> ('g, 'd) graph_capability \<Rightarrow>
     bool call \<times> completion_policy \<times> ('g, 'd) graph_capability" where
  "CompletionPolicy_OnStart p c =
     (case completion_thread_ends p c of
        (p1, c1) \<Rightarrow> (Returns True, p1\<lparr>cp_completion_thread := CT_Waiting\<rparr>, c1))"

definition CompletionPolicy_OnStop ::
    "completion_policy \<Rightarrow> ('g, 'd) graph_capability \<Rightarrow>
     unit call \<times> completion_policy \<times> ('g, 'd) graph_capability" where
  "CompletionPolicy_OnStop p c = (Returns (), p\<lparr>cp_stop_requested := True\<rparr>, c)"

definition CompletionPolicy_OnJoin ::
    "completion_policy \<Rightarrow> ('g, 'd) graph_capability \<Rightarrow>
     unit call \<times> completion_policy \<times> ('g, 'd) graph_capability" where
  "CompletionPolicy_OnJoin p c =
     (case completion_thread_ends p c of
        (p1, c1) \<Rightarrow> (Returns (), p1\<lparr>cp_completion_thread := CT_None\<rparr>, c1))"

definition CompletionPolicy_SetCompletionSignaled :: "completion_policy \<Rightarrow> completion_policy" where
  "CompletionPolicy_SetCompletionSignaled p = p\<lparr>cp_completion_signaled := True\<rparr>"

definition completion_policy_ops ::
    "('g \<Rightarrow> nat) \<Rightarrow> (completion_policy, ('g, 'd) graph_capability) policy_ops" where
  "completion_policy_ops providers = IExecutionPolicy_defaults\<lparr>
     po_OnInit := CompletionPolicy_OnInit providers, po_OnStart := CompletionPolicy_OnStart,
     po_OnStop := CompletionPolicy_OnStop, po_OnJoin := CompletionPolicy_OnJoin\<rparr>"

lemmas capability_defs = SetStopped_def SetCompletionSignaled_def ResetExecutionSignals_def

lemmas completion_policy_defs = completion_policy_ops_def IExecutionPolicy_defaults_def
  CompletionPolicy_OnInit_def CompletionPolicy_OnStart_def CompletionPolicy_OnStop_def
  CompletionPolicy_OnJoin_def completion_thread_ends_def capability_defs

interpretation completion: stable_policies "completion_policy_ops providers"
  by unfold_locales (auto simp: completion_policy_defs split: prod.splits if_splits)

text \<open>Once stopped and joined, the policy's thread is gone and has raised the stop flag.\<close>

lemma CompletionPolicy_shutdown:
  assumes "CompletionPolicy_OnStart p c = (r, p1, c1)"
    and "CompletionPolicy_OnStop (if s then CompletionPolicy_SetCompletionSignaled p1 else p1) c1 = (r2, p2, c2)"
    and "CompletionPolicy_OnJoin p2 c2 = (r3, p3, c3)"
  shows "cp_completion_thread p3 = CT_None \<and> gc_is_stopped c3 \<and>
    (s \<longrightarrow> gc_completion_signaled c3)"
  using assms by (auto simp: completion_policy_defs CompletionPolicy_SetCompletionSignaled_def
      split: if_splits)

end
