(* ===== verification/Message_Pool.thy ===== *)
theory Message_Pool
  imports Prelude
begin

text \<open>
  Message buffers: \<open>MessageBufferPool\<close> (\<open>libgraph/include/graph/MessagePool.hpp\<close>), the registry
  of pools and the typed helper over it (\<open>libgraph/src/graph/PooledMessage.cpp\<close>,
  \<open>libgraph/include/graph/PooledMessage.hpp\<close>).

  The C heap is a map from the addresses of live blocks to their sizes. What \<open>std::malloc\<close>
  returns is an argument of the operations that call it (\<open>None\<close>: the null pointer; loops take
  the list of results); that it returns an address that is not live is a premise of the step
  relation. \<open>available_buffers_\<close> is a list whose last element is \<open>back()\<close>.
\<close>

section \<open>The heap\<close>

type_synonym heap = "nat \<rightharpoonup> nat"

definition heap_free :: "nat \<Rightarrow> heap \<Rightarrow> heap" where
  "heap_free a h = h(a := None)"

definition heap_free_all :: "nat list \<Rightarrow> heap \<Rightarrow> heap" where
  "heap_free_all as h = fold heap_free as h"

section \<open>MessageBufferPool\<close>

datatype allocation_mode = Prealloc | LazyAllocate | PreallocWithTTL

datatype pool_error = LogicError string | InvalidArgument string | BadAlloc

record pool_stats =
  st_total_requests :: u64
  st_total_allocations :: u64
  st_total_reuses :: u64
  st_current_available :: u64
  st_peak_capacity :: u64

record buffer_pool =
  bp_buffer_size :: nat
  bp_available :: "nat list"
  bp_stats :: pool_stats
  bp_total_capacity :: nat
  bp_initialized :: bool
  bp_max_capacity :: nat
  bp_allocated_count :: nat
  bp_mode :: allocation_mode

definition MessageBufferPool :: "nat \<Rightarrow> buffer_pool" where
  "MessageBufferPool buffer_size = \<lparr>bp_buffer_size = buffer_size, bp_available = [],
     bp_stats = \<lparr>st_total_requests = 0, st_total_allocations = 0, st_total_reuses = 0,
       st_current_available = 0, st_peak_capacity = 0\<rparr>,
     bp_total_capacity = 0, bp_initialized = False, bp_max_capacity = 0,
     bp_allocated_count = 0, bp_mode = Prealloc\<rparr>"

definition update_stats :: "(pool_stats \<Rightarrow> pool_stats) \<Rightarrow> buffer_pool \<Rightarrow> buffer_pool" where
  "update_stats f p = p\<lparr>bp_stats := f (bp_stats p)\<rparr>"

definition raise_peak :: "u64 \<Rightarrow> buffer_pool \<Rightarrow> buffer_pool" where
  "raise_peak n = update_stats (\<lambda>s. if st_peak_capacity s < n then s\<lparr>st_peak_capacity := n\<rparr> else s)"

text \<open>The allocation loop of \<open>Initialize\<close>; \<open>None\<close>: a null pointer came, everything was freed.\<close>

fun prealloc_loop ::
    "nat \<Rightarrow> nat \<Rightarrow> nat option list \<Rightarrow> nat list \<Rightarrow> heap \<Rightarrow> nat list option \<times> heap" where
  "prealloc_loop sz 0 ms avail h = (Some avail, h)"
| "prealloc_loop sz (Suc n) (Some a # ms) avail h =
     prealloc_loop sz n ms (avail @ [a]) (h(a \<mapsto> sz))"
| "prealloc_loop sz (Suc n) _ avail h = (None, heap_free_all avail h)"

definition MessageBufferPool_Initialize ::
    "allocation_mode \<Rightarrow> nat \<Rightarrow> nat option list \<Rightarrow> buffer_pool \<Rightarrow> heap \<Rightarrow>
     (unit, pool_error) expected \<times> buffer_pool \<times> heap" where
  "MessageBufferPool_Initialize mode capacity ms p h =
     (if bp_initialized p then (Inl (LogicError ''MessageBufferPool already initialized''), p, h)
      else if capacity = 0 then (Inl (InvalidArgument ''Pool capacity must be > 0''), p, h)
      else
        let p1 = p\<lparr>bp_max_capacity := capacity, bp_mode := mode\<rparr> in
        case mode of
          Prealloc \<Rightarrow>
            (case prealloc_loop (bp_buffer_size p) capacity ms (bp_available p1) h of
               (None, h') \<Rightarrow> (Inl BadAlloc, p1\<lparr>bp_available := []\<rparr>, h')
             | (Some avail, h') \<Rightarrow>
                 (Inr (), update_stats (\<lambda>s. s\<lparr>st_total_allocations := of_nat capacity,
                      st_current_available := of_nat capacity, st_peak_capacity := of_nat capacity\<rparr>)
                    (p1\<lparr>bp_available := avail, bp_allocated_count := capacity,
                        bp_total_capacity := capacity, bp_initialized := True\<rparr>), h'))
        | LazyAllocate \<Rightarrow>
            (Inr (), update_stats (\<lambda>s. s\<lparr>st_total_allocations := 0, st_current_available := 0,
                 st_peak_capacity := 0\<rparr>)
               (p1\<lparr>bp_allocated_count := 0, bp_total_capacity := capacity,
                   bp_initialized := True\<rparr>), h)
        | PreallocWithTTL \<Rightarrow> (Inl (LogicError ''Unsupported allocation mode''), p1, h))"

definition MessageBufferPool_Shutdown :: "buffer_pool \<Rightarrow> heap \<Rightarrow> buffer_pool \<times> heap" where
  "MessageBufferPool_Shutdown p h =
     (p\<lparr>bp_available := [], bp_total_capacity := 0, bp_initialized := False\<rparr>,
      heap_free_all (bp_available p) h)"

definition MessageBufferPool_AcquireBuffer ::
    "nat option \<Rightarrow> buffer_pool \<Rightarrow> heap \<Rightarrow> (nat, pool_error) expected \<times> buffer_pool \<times> heap" where
  "MessageBufferPool_AcquireBuffer m p h =
     (if \<not> bp_initialized p
      then (Inl (LogicError ''MessageBufferPool not initialized - call Initialize() first''), p, h)
      else
        let p1 = update_stats (\<lambda>s. s\<lparr>st_total_requests := st_total_requests s + 1\<rparr>) p in
        if bp_available p1 \<noteq> [] then
          (Inr (last (bp_available p1)),
           update_stats (\<lambda>s. s\<lparr>st_total_reuses := st_total_reuses s + 1,
               st_current_available := st_current_available s - 1\<rparr>)
             (p1\<lparr>bp_available := butlast (bp_available p1)\<rparr>), h)
        else case bp_mode p of
          PreallocWithTTL \<Rightarrow> (Inl (LogicError ''Unsupported allocation mode''), p1, h)
        | Prealloc \<Rightarrow>
            (case m of
               None \<Rightarrow> (Inl BadAlloc, p1, h)
             | Some a \<Rightarrow>
                 (Inr a, update_stats (\<lambda>s. s\<lparr>st_total_allocations := st_total_allocations s + 1\<rparr>) p1,
                  h(a \<mapsto> bp_buffer_size p)))
        | LazyAllocate \<Rightarrow>
            (case m of
               None \<Rightarrow> (Inl BadAlloc, p1, h)
             | Some a \<Rightarrow>
                 let p2 = update_stats (\<lambda>s. s\<lparr>st_total_allocations := st_total_allocations s + 1\<rparr>) p1
                 in (Inr a,
                     (if bp_max_capacity p \<le> bp_allocated_count p then p2
                      else raise_peak (of_nat (bp_allocated_count p + 1))
                             (p2\<lparr>bp_allocated_count := bp_allocated_count p + 1\<rparr>)),
                     h(a \<mapsto> bp_buffer_size p))))"

definition MessageBufferPool_ReleaseBuffer ::
    "nat option \<Rightarrow> buffer_pool \<Rightarrow> heap \<Rightarrow> buffer_pool \<times> heap" where
  "MessageBufferPool_ReleaseBuffer buffer p h =
     (case buffer of
        None \<Rightarrow> (p, h)
      | Some a \<Rightarrow>
          if \<not> bp_initialized p then (p, heap_free a h)
          else
            let pushed = update_stats (\<lambda>s. s\<lparr>st_current_available := st_current_available s + 1\<rparr>)
                  (p\<lparr>bp_available := bp_available p @ [a]\<rparr>)
            in case bp_mode p of
                 Prealloc \<Rightarrow> (raise_peak (of_nat (length (bp_available pushed))) pushed, h)
               | LazyAllocate \<Rightarrow>
                   if length (bp_available p) < bp_allocated_count p then (pushed, h)
                   else (p, heap_free a h)
               | PreallocWithTTL \<Rightarrow> (p, h))"

fun grow_loop :: "nat \<Rightarrow> nat option list \<Rightarrow> buffer_pool \<Rightarrow> heap \<Rightarrow> buffer_pool \<times> heap" where
  "grow_loop (Suc n) (Some a # ms) p h =
     grow_loop n ms (update_stats (\<lambda>s. s\<lparr>st_current_available := st_current_available s + 1\<rparr>)
         (p\<lparr>bp_available := bp_available p @ [a]\<rparr>)) (h(a \<mapsto> bp_buffer_size p))"
| "grow_loop _ _ p h = (p, h)"

text \<open>\<open>while (!available_buffers_.empty() && reclaimed < excess)\<close>, \<open>n\<close> being \<open>excess - reclaimed\<close>.\<close>

fun shrink_loop :: "nat \<Rightarrow> buffer_pool \<Rightarrow> heap \<Rightarrow> buffer_pool \<times> heap" where
  "shrink_loop 0 p h = (p, h)"
| "shrink_loop (Suc n) p h =
     (if bp_available p = [] then (p, h)
      else shrink_loop n
        (update_stats (\<lambda>s. s\<lparr>st_current_available := st_current_available s - 1\<rparr>)
          (p\<lparr>bp_available := butlast (bp_available p)\<rparr>))
        (heap_free (last (bp_available p)) h))"

definition MessageBufferPool_SetCapacity ::
    "nat \<Rightarrow> nat option list \<Rightarrow> buffer_pool \<Rightarrow> heap \<Rightarrow> buffer_pool \<times> heap" where
  "MessageBufferPool_SetCapacity new_capacity ms p h =
     (if \<not> bp_initialized p \<or> new_capacity = bp_total_capacity p then (p, h)
      else
        case (if bp_total_capacity p < new_capacity
              then grow_loop (new_capacity - bp_total_capacity p) ms p h
              else shrink_loop (bp_total_capacity p - new_capacity) p h) of
          (p1, h1) \<Rightarrow>
            (raise_peak (of_nat new_capacity) (p1\<lparr>bp_total_capacity := new_capacity\<rparr>), h1))"

definition MessageBufferPool_IsInitialized :: "buffer_pool \<Rightarrow> bool" where
  "MessageBufferPool_IsInitialized p \<longleftrightarrow> 0 < bp_total_capacity p"

section \<open>The registry and the typed helper\<close>

text \<open>
  \<open>MessagePoolRegistry::pools_\<close> maps a size to a pool. Every pool is a
  \<open>MessageBufferPool<64>\<close> with the default policy, whatever the key. The second component of
  the result of \<open>GetPoolForSize\<close> tells whether the returned pointer is valid.
\<close>

type_synonym pool_registry = "nat \<rightharpoonup> buffer_pool"

definition MessagePoolRegistry_GetPoolForSize ::
    "nat option list \<Rightarrow> nat \<Rightarrow> pool_registry \<Rightarrow> heap \<Rightarrow> buffer_pool option \<times> pool_registry \<times> heap"
where
  "MessagePoolRegistry_GetPoolForSize ms sz reg h =
     (case reg sz of
        Some pool \<Rightarrow> (Some pool, reg, h)
      | None \<Rightarrow>
          (case MessageBufferPool_Initialize Prealloc 1000 ms (MessageBufferPool 64) h of
             (Inr _, pool, h') \<Rightarrow> (Some pool, reg(sz \<mapsto> pool), h')
           | (Inl _, _, h') \<Rightarrow> (None, reg, h')))"

fun init_common ::
    "nat \<Rightarrow> nat option list list \<Rightarrow> nat list \<Rightarrow> pool_registry \<Rightarrow> heap \<Rightarrow> pool_registry \<times> heap" where
  "init_common cap mss [] reg h = (reg, h)"
| "init_common cap mss (sz # sizes) reg h =
     (if reg sz \<noteq> None then init_common cap mss sizes reg h
      else
        let ms = (case mss of [] \<Rightarrow> [] | ms # _ \<Rightarrow> ms) in
        (case MessageBufferPool_Initialize Prealloc cap ms (MessageBufferPool 64) h of
           (Inr _, pool, h') \<Rightarrow> init_common cap (tl mss) sizes (reg(sz \<mapsto> pool)) h'
         | (Inl _, _, h') \<Rightarrow> init_common cap (tl mss) sizes reg h'))"

definition MessagePoolRegistry_InitializeCommonPools ::
    "nat \<Rightarrow> nat option list list \<Rightarrow> pool_registry \<Rightarrow> heap \<Rightarrow> pool_registry \<times> heap" where
  "MessagePoolRegistry_InitializeCommonPools pool_capacity mss reg h =
     init_common pool_capacity mss [64, 128, 256] reg h"

text \<open>\<open>Reset\<close> and \<open>ShutdownAllPools\<close> have the same body; \<open>sizes\<close> are the keys in map order.\<close>

definition MessagePoolRegistry_ShutdownAllPools ::
    "nat list \<Rightarrow> pool_registry \<Rightarrow> heap \<Rightarrow> pool_registry \<times> heap" where
  "MessagePoolRegistry_ShutdownAllPools sizes reg h =
     (Map.empty, fold (\<lambda>sz h. case reg sz of
          Some pool \<Rightarrow> snd (MessageBufferPool_Shutdown pool h) | None \<Rightarrow> h) sizes h)"

text \<open>\<open>sizeof_T\<close> is \<open>sizeof(T)\<close>; messages up to \<open>SSO_THRESHOLD\<close> bytes are not pooled.\<close>

definition AllocateForType ::
    "nat \<Rightarrow> nat option list \<Rightarrow> nat option \<Rightarrow> nat \<Rightarrow> pool_registry \<Rightarrow> heap \<Rightarrow>
     (nat option, pool_error) expected \<times> pool_registry \<times> heap" where
  "AllocateForType sso_threshold ms m sizeof_T reg h =
     (if sso_threshold < sizeof_T then
        (case MessagePoolRegistry_GetPoolForSize ms sizeof_T reg h of
           (Some pool, reg1, h1) \<Rightarrow>
             (case MessageBufferPool_AcquireBuffer m pool h1 of
                (r, pool', h2) \<Rightarrow> (map_sum id Some r, reg1(sizeof_T \<mapsto> pool'), h2))
         | (None, reg1, h1) \<Rightarrow> (Inr None, reg1, h1))
      else (Inr None, reg, h))"

definition DeallocateForType ::
    "nat \<Rightarrow> nat option list \<Rightarrow> nat option \<Rightarrow> nat \<Rightarrow> pool_registry \<Rightarrow> heap \<Rightarrow> pool_registry \<times> heap" where
  "DeallocateForType sso_threshold ms buffer sizeof_T reg h =
     (if sso_threshold < sizeof_T \<and> buffer \<noteq> None then
        (case MessagePoolRegistry_GetPoolForSize ms sizeof_T reg h of
           (Some pool, reg1, h1) \<Rightarrow>
             (case MessageBufferPool_ReleaseBuffer buffer pool h1 of
                (pool', h2) \<Rightarrow> (reg1(sizeof_T \<mapsto> pool'), h2))
         | (None, reg1, h1) \<Rightarrow> (reg1, h1))
      else (reg, h))"

section \<open>One pool and its clients\<close>

text \<open>
  \<open>pw_held\<close> are the buffers clients have acquired and not yet given back. A client gives back
  only what it holds; \<open>malloc\<close> returns addresses that are not live.
\<close>

record pool_world =
  pw_pool :: buffer_pool
  pw_heap :: heap
  pw_held :: "nat list"

definition fresh_results :: "nat option list \<Rightarrow> heap \<Rightarrow> bool" where
  "fresh_results ms h \<longleftrightarrow> distinct (List.map_filter id ms) \<and>
     (\<forall>a \<in> set (List.map_filter id ms). h a = None)"

inductive pool_world_step :: "pool_world \<Rightarrow> pool_world \<Rightarrow> bool" where
  initialize:
    "fresh_results ms (pw_heap w) \<Longrightarrow>
     MessageBufferPool_Initialize mode cap ms (pw_pool w) (pw_heap w) = (r, p', h') \<Longrightarrow>
     pool_world_step w (w\<lparr>pw_pool := p', pw_heap := h'\<rparr>)"
| acquire:
    "fresh_results [m] (pw_heap w) \<Longrightarrow>
     MessageBufferPool_AcquireBuffer m (pw_pool w) (pw_heap w) = (Inr a, p', h') \<Longrightarrow>
     pool_world_step w (w\<lparr>pw_pool := p', pw_heap := h', pw_held := a # pw_held w\<rparr>)"
| acquire_fails:
    "fresh_results [m] (pw_heap w) \<Longrightarrow>
     MessageBufferPool_AcquireBuffer m (pw_pool w) (pw_heap w) = (Inl e, p', h') \<Longrightarrow>
     pool_world_step w (w\<lparr>pw_pool := p', pw_heap := h'\<rparr>)"
| release:
    "i < length (pw_held w) \<Longrightarrow>
     MessageBufferPool_ReleaseBuffer (Some (pw_held w ! i)) (pw_pool w) (pw_heap w) = (p', h') \<Longrightarrow>
     pool_world_step w (w\<lparr>pw_pool := p', pw_heap := h', pw_held := remove_nth i (pw_held w)\<rparr>)"
| shutdown:
    "MessageBufferPool_Shutdown (pw_pool w) (pw_heap w) = (p', h') \<Longrightarrow>
     pool_world_step w (w\<lparr>pw_pool := p', pw_heap := h'\<rparr>)"
| set_capacity:
    "fresh_results ms (pw_heap w) \<Longrightarrow>
     MessageBufferPool_SetCapacity n ms (pw_pool w) (pw_heap w) = (p', h') \<Longrightarrow>
     pool_world_step w (w\<lparr>pw_pool := p', pw_heap := h'\<rparr>)"

section \<open>Ownership of buffers\<close>

text \<open>
  The invariant: the free list and the held buffers together are exactly the live blocks,
  each once and each of the pool's block size; the statistics know the length of the free
  list.
\<close>

definition pool_world_ok :: "pool_world \<Rightarrow> bool" where
  "pool_world_ok w \<longleftrightarrow>
     distinct (bp_available (pw_pool w) @ pw_held w) \<and>
     (\<forall>a. pw_heap w a = (if a \<in> set (bp_available (pw_pool w) @ pw_held w)
           then Some (bp_buffer_size (pw_pool w)) else None)) \<and>
     (bp_initialized (pw_pool w) \<longrightarrow>
        st_current_available (bp_stats (pw_pool w)) = of_nat (length (bp_available (pw_pool w)))) \<and>
     (\<not> bp_initialized (pw_pool w) \<longrightarrow> bp_available (pw_pool w) = []) \<and>
     (bp_initialized (pw_pool w) \<longrightarrow> bp_mode (pw_pool w) \<noteq> PreallocWithTTL)"

lemma fresh_results_simps [simp]:
  "fresh_results [] h"
  "fresh_results (None # ms) h = fresh_results ms h"
  "fresh_results (Some a # ms) h \<longleftrightarrow> h a = None \<and> fresh_results ms (h(a \<mapsto> n))"
  by (auto simp: fresh_results_def map_filter_simps)

lemma update_stats_simps [simp]:
  "bp_buffer_size (update_stats f p) = bp_buffer_size p"
  "bp_available (update_stats f p) = bp_available p"
  "bp_initialized (update_stats f p) = bp_initialized p"
  "bp_mode (update_stats f p) = bp_mode p"
  "bp_total_capacity (update_stats f p) = bp_total_capacity p"
  "bp_stats (update_stats f p) = f (bp_stats p)"
  by (simp_all add: update_stats_def)

lemma raise_peak_simps [simp]:
  "bp_buffer_size (raise_peak n p) = bp_buffer_size p"
  "bp_available (raise_peak n p) = bp_available p"
  "bp_initialized (raise_peak n p) = bp_initialized p"
  "bp_mode (raise_peak n p) = bp_mode p"
  "st_current_available (bp_stats (raise_peak n p)) = st_current_available (bp_stats p)"
  by (simp_all add: raise_peak_def)

lemma heap_free_all_eq: "heap_free_all as h = (\<lambda>a. if a \<in> set as then None else h a)"
  unfolding heap_free_all_def
  by (induction as arbitrary: h) (auto simp: heap_free_def fun_eq_iff)

lemma prealloc_loop_ok:
  assumes "prealloc_loop sz n ms avail h = (r, h')" "fresh_results ms h"
  shows "case r of
      Some avail' \<Rightarrow> \<exists>new. avail' = avail @ new \<and> length new = n \<and> distinct new \<and>
        set new \<inter> dom h = {} \<and> h' = (\<lambda>a. if a \<in> set new then Some sz else h a)
    | None \<Rightarrow> h' = (\<lambda>a. if a \<in> set avail then None else h a)"
  using assms
proof (induction sz n ms avail h arbitrary: r h' rule: prealloc_loop.induct)
  case (2 sz n a ms avail h)
  have f: "h a = None" "fresh_results ms (h(a \<mapsto> sz))"
    and l: "prealloc_loop sz n ms (avail @ [a]) (h(a \<mapsto> sz)) = (r, h')"
    using 2(2,3) by (simp_all add: fresh_results_simps(3) [of a ms h sz])
  have ih: "case r of
      Some avail' \<Rightarrow> \<exists>new. avail' = (avail @ [a]) @ new \<and> length new = n \<and> distinct new \<and>
        set new \<inter> dom (h(a \<mapsto> sz)) = {} \<and>
        h' = (\<lambda>b. if b \<in> set new then Some sz else (h(a \<mapsto> sz)) b)
    | None \<Rightarrow> h' = (\<lambda>b. if b \<in> set (avail @ [a]) then None else (h(a \<mapsto> sz)) b)"
    by (rule 2(1) [OF l f(2)])
  show ?case
  proof (cases r)
    case None
    then show ?thesis using ih f(1) by (auto simp: fun_eq_iff)
  next
    case (Some avail')
    then obtain new where "avail' = avail @ a # new" "length new = n" "distinct new"
      "set new \<inter> dom (h(a \<mapsto> sz)) = {}"
      "h' = (\<lambda>b. if b \<in> set new then Some sz else (h(a \<mapsto> sz)) b)"
      using ih by auto
    then show ?thesis
      using Some f(1) by (auto intro!: exI [of _ "a # new"] simp: fun_eq_iff)
  qed
qed (auto simp: heap_free_all_eq)

lemma grow_loop_ok:
  assumes "grow_loop n ms (pw_pool w) (pw_heap w) = (p', h')" "fresh_results ms (pw_heap w)"
    and "pool_world_ok w" "bp_initialized (pw_pool w)"
  shows "pool_world_ok (w\<lparr>pw_pool := p', pw_heap := h'\<rparr>) \<and> bp_initialized p'"
  using assms
proof (induction n ms "pw_pool w" "pw_heap w" arbitrary: w rule: grow_loop.induct)
  case (1 n a ms)
  let ?w = "w\<lparr>pw_pool := update_stats (\<lambda>s. s\<lparr>st_current_available := st_current_available s + 1\<rparr>)
      ((pw_pool w)\<lparr>bp_available := bp_available (pw_pool w) @ [a]\<rparr>),
      pw_heap := (pw_heap w)(a \<mapsto> bp_buffer_size (pw_pool w))\<rparr>"
  have fresh: "pw_heap w a = None"
    and f2: "fresh_results ms ((pw_heap w)(a \<mapsto> bp_buffer_size (pw_pool w)))"
    using 1(3) by (simp_all add: fresh_results_simps(3) [of a ms "pw_heap w" "bp_buffer_size (pw_pool w)"])
  have "pool_world_ok ?w"
    using 1(4,5) fresh by (auto simp: pool_world_ok_def split: if_splits)
  then show ?case using 1(1) [of ?w] 1(2,5) f2 by simp
qed (auto simp: pool_world_ok_def)

lemma shrink_loop_ok:
  assumes "shrink_loop n (pw_pool w) (pw_heap w) = (p', h')"
    and "pool_world_ok w" "bp_initialized (pw_pool w)"
  shows "pool_world_ok (w\<lparr>pw_pool := p', pw_heap := h'\<rparr>) \<and> bp_initialized p'"
  using assms
proof (induction n "pw_pool w" "pw_heap w" arbitrary: w rule: shrink_loop.induct)
  case 1
  then show ?case by (simp add: pool_world_ok_def)
next
  case (2 n)
  show ?case
  proof (cases "bp_available (pw_pool w) = []")
    case True
    then show ?thesis using 2(2-) by (simp add: pool_world_ok_def)
  next
    case False
    then obtain as a where as: "bp_available (pw_pool w) = as @ [a]"
      by (metis append_butlast_last_id)
    let ?w = "w\<lparr>pw_pool := update_stats (\<lambda>s. s\<lparr>st_current_available := st_current_available s - 1\<rparr>)
        ((pw_pool w)\<lparr>bp_available := as\<rparr>), pw_heap := heap_free a (pw_heap w)\<rparr>"
    have "pool_world_ok ?w"
      using 2(3,4) as by (auto simp: pool_world_ok_def heap_free_def split: if_splits)
    then show ?thesis using 2(1) [OF False, of ?w] 2(2,4) as by simp
  qed
qed

lemma initialize_ok:
  assumes "MessageBufferPool_Initialize mode cap ms (pw_pool w) (pw_heap w) = (r, p', h')"
    and "fresh_results ms (pw_heap w)" "pool_world_ok w"
  shows "pool_world_ok (w\<lparr>pw_pool := p', pw_heap := h'\<rparr>)"
proof (cases "\<not> bp_initialized (pw_pool w) \<and> cap \<noteq> 0 \<and> mode = Prealloc")
  case True
  then have e: "bp_available (pw_pool w) = []" using assms(3) by (simp add: pool_world_ok_def)
  obtain x h1 where
    l: "prealloc_loop (bp_buffer_size (pw_pool w)) cap ms [] (pw_heap w) = (x, h1)"
    by (metis surj_pair)
  show ?thesis
  proof (cases x)
    case None
    then have "h1 = pw_heap w" using prealloc_loop_ok [OF l assms(2)] by simp
    then show ?thesis
      using assms True l None e by (auto simp: MessageBufferPool_Initialize_def pool_world_ok_def)
  next
    case (Some new)
    then have "length new = cap" "distinct new" "set new \<inter> dom (pw_heap w) = {}"
      "h1 = (\<lambda>a. if a \<in> set new then Some (bp_buffer_size (pw_pool w)) else pw_heap w a)"
      using prealloc_loop_ok [OF l assms(2)] by auto
    then show ?thesis
      using assms True l Some e
      by (auto simp: MessageBufferPool_Initialize_def pool_world_ok_def split: if_splits)
  qed
next
  case False
  then show ?thesis using assms
    by (auto simp: MessageBufferPool_Initialize_def pool_world_ok_def Let_def
        split: if_splits allocation_mode.splits)
qed

lemma acquire_ok:
  assumes "MessageBufferPool_AcquireBuffer m (pw_pool w) (pw_heap w) = (r, p', h')"
    and "fresh_results [m] (pw_heap w)" "pool_world_ok w"
  shows "pool_world_ok (w\<lparr>pw_pool := p', pw_heap := h',
    pw_held := (case r of Inr a \<Rightarrow> a # pw_held w | Inl _ \<Rightarrow> pw_held w)\<rparr>)"
proof (cases "bp_initialized (pw_pool w) \<and> bp_available (pw_pool w) \<noteq> []")
  case True
  then obtain as a where "bp_available (pw_pool w) = as @ [a]" by (metis append_butlast_last_id)
  then show ?thesis using assms True
    by (auto simp: MessageBufferPool_AcquireBuffer_def pool_world_ok_def Let_def)
next
  case False
  then show ?thesis using assms fresh_results_simps(3) [of _ "[]" "pw_heap w"]
    by (cases "bp_mode (pw_pool w)")
       (auto simp: MessageBufferPool_AcquireBuffer_def pool_world_ok_def Let_def
         split: if_splits option.splits)
qed

lemma remove_nth_facts:
  assumes "i < length xs" "distinct xs"
  shows "set (remove_nth i xs) = set xs - {xs ! i}" "distinct (remove_nth i xs)"
proof -
  have m: "mset xs = add_mset (xs ! i) (mset (remove_nth i xs))"
    using mset_remove_nth [OF assms(1)] by simp
  have "distinct (xs ! i # remove_nth i xs)"
    using assms(2) m by (metis distinct_count_atmost_1 mset.simps(2) set_mset_mset)
  moreover have "set xs = insert (xs ! i) (set (remove_nth i xs))"
    using m by (metis set_mset_add_mset_insert set_mset_mset)
  ultimately show "set (remove_nth i xs) = set xs - {xs ! i}" "distinct (remove_nth i xs)" by auto
qed

lemma free_held_ok:
  assumes "pool_world_ok w" "i < length (pw_held w)"
  shows "pool_world_ok (w\<lparr>pw_heap := heap_free (pw_held w ! i) (pw_heap w),
    pw_held := remove_nth i (pw_held w)\<rparr>)"
proof -
  let ?a = "pw_held w ! i"
  have d: "distinct (pw_held w)" and a: "?a \<in> set (pw_held w)"
    using assms by (simp_all add: pool_world_ok_def)
  show ?thesis
    using assms(1) a
    by (simp add: pool_world_ok_def remove_nth_facts [OF assms(2) d] heap_free_def)
       blast
qed

lemma park_held_ok:
  assumes "pool_world_ok w" "i < length (pw_held w)" "bp_initialized (pw_pool w)"
  shows "pool_world_ok (w\<lparr>pw_pool :=
      update_stats (\<lambda>s. s\<lparr>st_current_available := st_current_available s + 1\<rparr>)
        ((pw_pool w)\<lparr>bp_available := bp_available (pw_pool w) @ [pw_held w ! i]\<rparr>),
    pw_held := remove_nth i (pw_held w)\<rparr>)"
proof -
  have d: "distinct (pw_held w)" and a: "pw_held w ! i \<in> set (pw_held w)"
    using assms by (simp_all add: pool_world_ok_def)
  show ?thesis
    using assms(1,3) a
    by (simp add: pool_world_ok_def remove_nth_facts [OF assms(2) d]) blast
qed

lemma raise_peak_ok:
  "pool_world_ok (w\<lparr>pw_pool := p, pw_held := xs\<rparr>) \<Longrightarrow>
   pool_world_ok (w\<lparr>pw_pool := raise_peak n p, pw_held := xs\<rparr>)"
  by (simp add: pool_world_ok_def)

lemma release_ok:
  assumes "MessageBufferPool_ReleaseBuffer (Some (pw_held w ! i)) (pw_pool w) (pw_heap w) = (p', h')"
    and "i < length (pw_held w)" "pool_world_ok w"
  shows "pool_world_ok (w\<lparr>pw_pool := p', pw_heap := h', pw_held := remove_nth i (pw_held w)\<rparr>)"
  using assms(1) free_held_ok [OF assms(3,2)] park_held_ok [OF assms(3,2)] assms(3)
  by (auto simp: MessageBufferPool_ReleaseBuffer_def Let_def pool_world_ok_def [of w]
      intro: raise_peak_ok split: if_splits allocation_mode.splits)

lemma shutdown_ok:
  assumes "pool_world_ok w"
  shows "pool_world_ok (w\<lparr>pw_pool := fst (MessageBufferPool_Shutdown (pw_pool w) (pw_heap w)),
    pw_heap := snd (MessageBufferPool_Shutdown (pw_pool w) (pw_heap w))\<rparr>)"
  using assms
  by (auto simp: MessageBufferPool_Shutdown_def pool_world_ok_def heap_free_all_eq
      split: if_splits)

lemma set_capacity_ok:
  assumes "MessageBufferPool_SetCapacity n ms (pw_pool w) (pw_heap w) = (p', h')"
    and "fresh_results ms (pw_heap w)" "pool_world_ok w"
  shows "pool_world_ok (w\<lparr>pw_pool := p', pw_heap := h'\<rparr>)"
proof (cases "\<not> bp_initialized (pw_pool w) \<or> n = bp_total_capacity (pw_pool w)")
  case True
  then show ?thesis using assms by (auto simp: MessageBufferPool_SetCapacity_def pool_world_ok_def)
next
  case False
  obtain p1 where "p' = raise_peak (of_nat n) (p1\<lparr>bp_total_capacity := n\<rparr>)"
    and "pool_world_ok (w\<lparr>pw_pool := p1, pw_heap := h'\<rparr>)"
    using assms False grow_loop_ok [of "n - bp_total_capacity (pw_pool w)" ms w]
      shrink_loop_ok [of "bp_total_capacity (pw_pool w) - n" w]
    by (auto simp: MessageBufferPool_SetCapacity_def split: if_splits prod.splits)
  then show ?thesis by (auto simp: pool_world_ok_def split: if_splits)
qed

lemma pool_world_ok_step: "pool_world_step w w' \<Longrightarrow> pool_world_ok w \<Longrightarrow> pool_world_ok w'"
proof (induction rule: pool_world_step.induct)
  case (initialize ms w mode cap r p' h')
  then show ?case by (intro initialize_ok)
next
  case (acquire m w a p' h')
  then show ?case using acquire_ok by fastforce
next
  case (acquire_fails m w e p' h')
  then show ?case using acquire_ok [of m w "Inl e" p' h'] by simp
next
  case (release i w p' h')
  then show ?case by (intro release_ok)
next
  case (shutdown w p' h')
  then show ?case using shutdown_ok [of w] by simp
next
  case (set_capacity ms w n p' h')
  then show ?case by (intro set_capacity_ok)
qed

text \<open>
  \<open>Shutdown\<close> frees every free buffer and leaves the statistics as they were: a pool that was shut
  down still reports the buffers it had.
\<close>

lemma Shutdown_leaves_the_statistics:
  assumes "bp_initialized p"
  shows "bp_available (fst (MessageBufferPool_Shutdown p h)) = [] \<and>
    bp_stats (fst (MessageBufferPool_Shutdown p h)) = bp_stats p"
  using assms by (auto simp: MessageBufferPool_Shutdown_def)

definition pool_world_init :: "nat \<Rightarrow> pool_world" where
  "pool_world_init sz = \<lparr>pw_pool = MessageBufferPool sz, pw_heap = Map.empty, pw_held = []\<rparr>"

text \<open>
  C11. Buffers have exactly one owner and are neither leaked nor freed while in use. Whatever
  sequence of \<open>Initialize\<close>, \<open>AcquireBuffer\<close>, \<open>ReleaseBuffer\<close>, \<open>SetCapacity\<close> and \<open>Shutdown\<close> calls is
  made on a pool (failed allocations included), as long as clients give back only buffers
  they hold: no buffer is free and held, or held twice; the live heap blocks are exactly the
  free and the held buffers, all of the pool's block size; and while the pool is initialised its
  statistics report the number of free buffers. Of the statistics of a pool that is not initialised
  nothing is said: \<open>Shutdown_leaves_the_statistics\<close>.
\<close>

theorem buffers_have_one_owner:
  assumes "pool_world_step\<^sup>*\<^sup>* (pool_world_init sz) w"
  shows "distinct (bp_available (pw_pool w) @ pw_held w) \<and>
    dom (pw_heap w) = set (bp_available (pw_pool w)) \<union> set (pw_held w) \<and>
    (\<forall>a b. pw_heap w a = Some b \<longrightarrow> b = bp_buffer_size (pw_pool w)) \<and>
    (bp_initialized (pw_pool w) \<longrightarrow>
       st_current_available (bp_stats (pw_pool w)) = of_nat (length (bp_available (pw_pool w))))"
proof -
  have "pool_world_ok (pool_world_init sz)"
    by (simp add: pool_world_init_def pool_world_ok_def MessageBufferPool_def)
  then have "pool_world_ok w"
    by (rule rtranclp_invariant [OF assms]) (rule pool_world_ok_step)
  then show ?thesis by (auto simp: pool_world_ok_def dom_def split: if_splits)
qed

theorem buffers_have_one_owner_witness:
  "\<exists>w. pool_world_step\<^sup>*\<^sup>* (pool_world_init 64) w \<and> bp_available (pw_pool w) = [10] \<and>
     distinct (bp_available (pw_pool w) @ pw_held w) \<and>
     dom (pw_heap w) = set (bp_available (pw_pool w)) \<union> set (pw_held w)"
proof -
  let ?i = "MessageBufferPool_Initialize Prealloc 1 [Some 10] (MessageBufferPool 64) Map.empty"
  let ?w = "(pool_world_init 64)\<lparr>pw_pool := fst (snd ?i), pw_heap := snd (snd ?i)\<rparr>"
  have "pool_world_step (pool_world_init 64) ?w"
    by (rule initialize [of "[Some 10]" _ Prealloc 1 "fst ?i"])
       (simp_all add: pool_world_init_def fresh_results_def map_filter_simps)
  then have r: "pool_world_step\<^sup>*\<^sup>* (pool_world_init 64) ?w" by (rule r_into_rtranclp)
  have "bp_available (pw_pool ?w) = [10]"
    by (simp add: MessageBufferPool_Initialize_def MessageBufferPool_def numeral_eq_Suc)
  with r buffers_have_one_owner [OF r] show ?thesis by blast
qed

section \<open>Block sizes behind the registry\<close>

definition registry_ok :: "pool_registry \<Rightarrow> heap \<Rightarrow> bool" where
  "registry_ok reg h \<longleftrightarrow> (\<forall>sz pool. reg sz = Some pool \<longrightarrow>
     bp_buffer_size pool = 64 \<and> (\<forall>a \<in> set (bp_available pool). h a = Some 64))"

lemma initialize_blocks:
  assumes "MessageBufferPool_Initialize Prealloc cap ms (MessageBufferPool 64) h = (Inr u, p, h')"
    and "fresh_results ms h"
  shows "bp_buffer_size p = 64 \<and> (\<forall>a \<in> set (bp_available p). h' a = Some 64)"
proof -
  obtain x h1 where l: "prealloc_loop 64 cap ms [] h = (x, h1)" by (metis surj_pair)
  then show ?thesis
    using assms prealloc_loop_ok [OF l assms(2)]
    by (cases x)
       (auto simp: MessageBufferPool_Initialize_def MessageBufferPool_def split: if_splits)
qed

lemma acquire_block:
  assumes "MessageBufferPool_AcquireBuffer m pool h = (Inr a, pool', h')"
    and "bp_buffer_size pool = 64" "\<forall>a \<in> set (bp_available pool). h a = Some 64"
  shows "h' a = Some 64"
  using assms
  by (auto simp: MessageBufferPool_AcquireBuffer_def Let_def
      split: if_splits allocation_mode.splits option.splits)

text \<open>
  \<open>AllocateForType<T>\<close> hands out 64-byte blocks whatever \<open>sizeof(T)\<close> is: the registry keys its
  pools by size but builds each as \<open>MessageBufferPool<64>\<close>. For every type larger than 64
  bytes the buffer returned is therefore smaller than the object it is meant for.
\<close>

theorem AllocateForType_gives_64_bytes:
  assumes "registry_ok reg h" and "fresh_results ms h"
    and "AllocateForType threshold ms m sizeof_T reg h = (Inr (Some a), reg', h')"
  shows "h' a = Some 64 \<and> (64 < sizeof_T \<longrightarrow> the (h' a) < sizeof_T)"
proof -
  obtain pool reg1 h1 where g: "MessagePoolRegistry_GetPoolForSize ms sizeof_T reg h = (Some pool, reg1, h1)"
    and acq: "\<exists>r pool'. MessageBufferPool_AcquireBuffer m pool h1 = (r, pool', h') \<and> r = Inr a"
    using assms(3) by (auto simp: AllocateForType_def map_sum_def split: if_splits prod.splits option.splits sum.splits)
  have "bp_buffer_size pool = 64 \<and> (\<forall>a \<in> set (bp_available pool). h1 a = Some 64)"
    using g assms(1) initialize_blocks [OF _ assms(2), of 1000]
    by (auto simp: MessagePoolRegistry_GetPoolForSize_def registry_ok_def
        split: option.splits prod.splits sum.splits)
  with acq have "h' a = Some 64" using acquire_block by blast
  then show ?thesis by simp
qed

definition one_pool_registry :: pool_registry where
  "one_pool_registry = [200 \<mapsto> (MessageBufferPool 64)\<lparr>bp_available := [10], bp_initialized := True\<rparr>]"

theorem AllocateForType_gives_64_bytes_witness:
  "fst (AllocateForType 32 [] None 200 one_pool_registry [10 \<mapsto> 64]) = Inr (Some 10) \<and>
   (case snd (AllocateForType 32 [] None 200 one_pool_registry [10 \<mapsto> 64]) of
      (_, h') \<Rightarrow> the (h' 10) < 200)"
proof -
  have "registry_ok one_pool_registry [10 \<mapsto> 64]"
    by (simp add: registry_ok_def one_pool_registry_def MessageBufferPool_def)
  moreover have "fresh_results [] [10 \<mapsto> 64]" by simp
  moreover have f: "fst (AllocateForType 32 [] None 200 one_pool_registry [10 \<mapsto> 64]) = Inr (Some 10)"
    by (simp add: AllocateForType_def MessagePoolRegistry_GetPoolForSize_def one_pool_registry_def
        MessageBufferPool_def MessageBufferPool_AcquireBuffer_def)
  ultimately show ?thesis
    using AllocateForType_gives_64_bytes [of one_pool_registry "[10 \<mapsto> 64]" "[]" 32 None 200 10]
    by (cases "AllocateForType 32 [] None 200 one_pool_registry [10 \<mapsto> 64]") auto
qed

end
