(* ===== verification/Metrics_Sum.thy ===== *)
theory Metrics_Sum
  imports Dynamic_Edge
begin

text \<open>
  The overflow-aware sums of \<open>GraphManager::GetMetrics\<close>
  (\<open>libgraph/include/graph/GraphManagerCore.hpp\<close>): every total is a \<open>uint64_t\<close> that sticks at
  the largest value once it would exceed it, and one flag tells whether any of them did.
\<close>

section \<open>Checked addition\<close>

text \<open>The lambda \<open>checked_add\<close> of \<open>GetMetrics\<close>, on a total and the overflow flag.\<close>

definition checked_add :: "u64 \<Rightarrow> u64 \<times> bool \<Rightarrow> u64 \<times> bool" where
  "checked_add v s = (case s of (t, overflow) \<Rightarrow>
     if - 1 - t < v then (- 1, True) else (t + v, overflow))"

text \<open>
  One turn of the loops over edges: the values read from one edge are added to the totals in
  order. (Counting an inactive thread as 0 is not calling \<open>checked_add\<close> for it.)
\<close>

fun add_row :: "u64 list \<Rightarrow> u64 list \<Rightarrow> bool \<Rightarrow> u64 list \<times> bool" where
  "add_row (v # vs) (t # ts) ov =
     (case checked_add v (t, ov) of (t', ov') \<Rightarrow>
        case add_row vs ts ov' of (ts', ov'') \<Rightarrow> (t' # ts', ov''))"
| "add_row _ ts ov = (ts, ov)"

fun add_rows :: "u64 list list \<Rightarrow> u64 list \<Rightarrow> bool \<Rightarrow> u64 list \<times> bool" where
  "add_rows [] ts ov = (ts, ov)"
| "add_rows (r # rs) ts ov = (case add_row r ts ov of (ts', ov') \<Rightarrow> add_rows rs ts' ov')"

definition edge_fields :: "(edge_metrics \<Rightarrow> u64) list" where
  "edge_fields = [em_messages_enqueued, em_messages_dequeued, em_messages_rejected,
     em_total_queue_time_ns, em_backpressure_events]"

definition thread_fields :: "(thread_metrics \<Rightarrow> u64) list" where
  "thread_fields = [tm_total_transfer_time_ns, tm_total_idle_time_ns, tm_total_queue_wait_ns,
     (\<lambda>t. if tm_thread_active t then 1 else 0)]"

definition rows :: "('m \<Rightarrow> u64) list \<Rightarrow> 'm list \<Rightarrow> u64 list list" where
  "rows fs ms = map (\<lambda>m. map (\<lambda>f. f m) fs) ms"

section \<open>Saturation\<close>

text \<open>A total \<open>t\<close> represents the sum \<open>s\<close> when it is that sum, cut off at the largest \<open>uint64_t\<close>.\<close>

definition represents :: "u64 \<Rightarrow> nat \<Rightarrow> bool" where
  "represents t s \<longleftrightarrow> unat t = min u64_max s"

lemma unat_max: "unat (- 1 :: u64) = u64_max"
  by (simp add: u64_max_def unsigned_minus_1_eq_mask mask_eq_exp_minus_1)

lemma checked_add_represents:
  assumes "represents t s" "u64_max < s \<longrightarrow> ov" "checked_add v (t, ov) = (t', ov')"
  shows "represents t' (s + unat v) \<and> (ov' \<longleftrightarrow> ov \<or> u64_max < s + unat v)"
proof -
  have le: "unat t \<le> u64_max" using assms(1) by (simp add: represents_def)
  have sub: "unat (- 1 - t) = u64_max - unat t"
    using unat_max by (subst unat_sub) (simp_all)
  have lt: "- 1 - t < v \<longleftrightarrow> u64_max < unat t + unat v"
    using sub le by (auto simp: word_less_nat_alt)
  show ?thesis
  proof (cases "u64_max < unat t + unat v")
    case True
    then show ?thesis
      using assms lt unat_max by (auto simp: checked_add_def represents_def)
  next
    case False
    then have "unat (t + v) = unat t + unat v"
      by (subst unat_plus_if') (auto simp: u64_max_def)
    then show ?thesis
      using False assms lt by (auto simp: checked_add_def represents_def min_def split: if_splits)
  qed
qed

definition totals_ok :: "u64 list \<Rightarrow> nat list \<Rightarrow> bool \<Rightarrow> bool" where
  "totals_ok ts ss ov \<longleftrightarrow> list_all2 represents ts ss \<and> ((\<exists>s \<in> set ss. u64_max < s) \<longrightarrow> ov)"

lemma add_row_ok:
  assumes "totals_ok ts ss ov" "length vs = length ts" "add_row vs ts ov = (ts', ov')"
  shows "totals_ok ts' (map2 (\<lambda>s v. s + unat v) ss vs) ov' \<and>
    (ov' \<longleftrightarrow> ov \<or> (\<exists>s \<in> set (map2 (\<lambda>s v. s + unat v) ss vs). u64_max < s))"
  using assms
proof (induction vs ts ov arbitrary: ss ts' ov' rule: add_row.induct)
  case (1 v vs t ts ov)
  obtain t1 ov1 where c: "checked_add v (t, ov) = (t1, ov1)" by fastforce
  obtain ts1 where r: "add_row vs ts ov1 = (ts1, ov')" "ts' = t1 # ts1"
    using 1(4) c by (auto split: prod.splits)
  obtain s ss1 where ss: "ss = s # ss1" using 1(2) by (auto simp: totals_ok_def list_all2_Cons1)
  have h: "represents t1 (s + unat v) \<and> (ov1 \<longleftrightarrow> ov \<or> u64_max < s + unat v)"
    using checked_add_represents [OF _ _ c] 1(2) ss by (auto simp: totals_ok_def)
  have "totals_ok ts ss1 ov1" using 1(2) h ss by (auto simp: totals_ok_def)
  from 1(1) [OF c [symmetric] this _ r(1)] 1(3) h ss r(2) show ?case
    by (auto simp: totals_ok_def)
qed (auto simp: totals_ok_def)

text \<open>The sums of the columns of a table of values.\<close>

definition column_sum :: "('m \<Rightarrow> u64) \<Rightarrow> 'm list \<Rightarrow> nat" where
  "column_sum f ms = sum_list (map (\<lambda>m. unat (f m)) ms)"

lemma add_rows_ok:
  assumes "totals_ok ts (map (\<lambda>f. k f) fs) ov" "add_rows (rows fs ms) ts ov = (ts', ov')"
  shows "list_all2 represents ts' (map (\<lambda>f. k f + column_sum f ms) fs) \<and>
    (ov' \<longleftrightarrow> ov \<or> (\<exists>f \<in> set fs. u64_max < k f + column_sum f ms))"
  using assms
proof (induction ms arbitrary: ts k ov)
  case Nil
  then show ?case by (auto simp: rows_def column_sum_def totals_ok_def)
next
  case (Cons m ms)
  obtain ts1 ov1 where r: "add_row (map (\<lambda>f. f m) fs) ts ov = (ts1, ov1)" by fastforce
  have len: "length (map (\<lambda>f. f m) fs) = length ts"
    using Cons.prems(1) by (auto simp: totals_ok_def dest: list_all2_lengthD)
  have m2: "map2 (\<lambda>s v. s + unat v) (map k fs) (map (\<lambda>f. f m) fs) = map (\<lambda>f. k f + unat (f m)) fs"
    by (induction fs) auto
  note h = add_row_ok [OF Cons.prems(1) len r, unfolded m2]
  have rest: "add_rows (rows fs ms) ts1 ov1 = (ts', ov')"
    using Cons.prems(2) r by (simp add: rows_def)
  have "list_all2 represents ts' (map (\<lambda>f. k f + unat (f m) + column_sum f ms) fs) \<and>
    (ov' \<longleftrightarrow> ov1 \<or> (\<exists>f \<in> set fs. u64_max < k f + unat (f m) + column_sum f ms))"
    by (rule Cons.IH [OF conjunct1 [OF h] rest])
  moreover have "(\<exists>f \<in> set fs. u64_max < k f + unat (f m)) \<longrightarrow>
      (\<exists>f \<in> set fs. u64_max < k f + unat (f m) + column_sum f ms)"
    by (meson trans_less_add1)
  moreover have "k f + unat (f m) + column_sum f ms = k f + column_sum f (m # ms)" for f
    by (simp add: column_sum_def)
  ultimately show ?case using h by auto
qed

corollary add_rows_from_zero:
  assumes "add_rows (rows fs ms) (replicate (length fs) 0) ov = (ts, ov')"
  shows "list_all2 represents ts (map (\<lambda>f. column_sum f ms) fs) \<and>
    (ov' \<longleftrightarrow> ov \<or> (\<exists>f \<in> set fs. u64_max < column_sum f ms))"
proof -
  have "totals_ok (replicate (length fs) 0) (map (\<lambda>f. 0) fs) ov"
    by (auto simp: totals_ok_def represents_def u64_max_def list_all2_conv_all_nth)
  from add_rows_ok [OF this assms] show ?thesis by simp
qed

lemma represents_nth:
  "list_all2 represents zs (map k fs) \<Longrightarrow> i < length fs \<Longrightarrow> unat (zs ! i) = min u64_max (k (fs ! i))"
  by (simp add: list_all2_conv_all_nth represents_def)

lemma length_fields [simp]: "length edge_fields = 5" "length thread_fields = 4"
  by (simp_all add: edge_fields_def thread_fields_def)

end
