(* ===== verification/Errors.thy ===== *)
theory Errors
  imports Prelude
begin

text \<open>
  The error codes of \<open>libgraph/include/config/Errors.hpp\<close> and their messages, and
  \<open>GraphExecutionFailure\<close>, the error half of the runtime's \<open>std::expected\<close> results. An enum
  value outside the listed ones cannot be produced by the code, so the \<open>default\<close> branches of
  the \<open>ErrorMessage\<close> switches have no counterpart.
\<close>

section \<open>Codes and messages\<close>

datatype json_parse_error =
    JPE_InvalidSyntax
  | JPE_UnexpectedStructure
  | JPE_MissingRequiredField
  | JPE_TypeMismatch
  | JPE_Unknown

fun JsonParseError_message :: "json_parse_error \<Rightarrow> string" where
  "JsonParseError_message JPE_InvalidSyntax = ''JSON syntax error (invalid characters or structure)''"
| "JsonParseError_message JPE_UnexpectedStructure = ''JSON has unexpected structure (type mismatch)''"
| "JsonParseError_message JPE_MissingRequiredField = ''JSON missing required field''"
| "JsonParseError_message JPE_TypeMismatch = ''JSON field has incorrect type''"
| "JsonParseError_message JPE_Unknown = ''Unknown JSON parsing error''"

datatype plugin_load_error =
    PLE_FileNotFound
  | PLE_InvalidFormat
  | PLE_MissingSymbol
  | PLE_AlreadyLoaded
  | PLE_VersionMismatch
  | PLE_SystemError
  | PLE_InitializationFailed
  | PLE_Unknown

fun PluginLoadError_message :: "plugin_load_error \<Rightarrow> string" where
  "PluginLoadError_message PLE_FileNotFound = ''Plugin file not found''"
| "PluginLoadError_message PLE_InvalidFormat = ''Plugin file is not a valid dynamic library''"
| "PluginLoadError_message PLE_MissingSymbol = ''Plugin missing required entry point symbols''"
| "PluginLoadError_message PLE_AlreadyLoaded = ''Plugin with this ID already loaded''"
| "PluginLoadError_message PLE_VersionMismatch = ''Plugin version incompatible with dashboard''"
| "PluginLoadError_message PLE_SystemError = ''System error loading plugin library''"
| "PluginLoadError_message PLE_InitializationFailed = ''Plugin initialization failed''"
| "PluginLoadError_message PLE_Unknown = ''Unknown plugin loading error''"

datatype config_error =
    CFE_FileNotFound
  | CFE_PermissionDenied
  | CFE_InvalidFormat
  | CFE_OutOfRange
  | CFE_MissingRequired
  | CFE_ValidationFailed
  | CFE_TypeMismatch
  | CFE_Unknown

fun ConfigError_message :: "config_error \<Rightarrow> string" where
  "ConfigError_message CFE_FileNotFound = ''Configuration file not found''"
| "ConfigError_message CFE_PermissionDenied = ''Configuration file permission denied''"
| "ConfigError_message CFE_InvalidFormat = ''Configuration file is not valid JSON''"
| "ConfigError_message CFE_OutOfRange = ''Configuration value out of valid range''"
| "ConfigError_message CFE_MissingRequired = ''Required configuration field is missing''"
| "ConfigError_message CFE_ValidationFailed = ''Configuration validation failed''"
| "ConfigError_message CFE_TypeMismatch = ''Configuration field has incompatible type''"
| "ConfigError_message CFE_Unknown = ''Unknown configuration error''"

datatype deserialization_error =
    DSE_InvalidJson
  | DSE_TypeMismatch
  | DSE_MissingRequiredField
  | DSE_InvalidValue
  | DSE_UnexpectedField
  | DSE_ConversionFailed
  | DSE_ConstraintViolation
  | DSE_Unknown

fun DeserializationError_message :: "deserialization_error \<Rightarrow> string" where
  "DeserializationError_message DSE_InvalidJson = ''JSON input is not valid''"
| "DeserializationError_message DSE_TypeMismatch = ''JSON type doesn't match expected C++ type''"
| "DeserializationError_message DSE_MissingRequiredField = ''Required field is missing in JSON''"
| "DeserializationError_message DSE_InvalidValue = ''Field value is invalid''"
| "DeserializationError_message DSE_UnexpectedField = ''JSON contains unexpected field''"
| "DeserializationError_message DSE_ConversionFailed = ''Value conversion failed''"
| "DeserializationError_message DSE_ConstraintViolation = ''Value violates defined constraints''"
| "DeserializationError_message DSE_Unknown = ''Unknown deserialization error''"

datatype graph_execution_error =
    GE_NotInitialized
  | GE_AlreadyRunning
  | GE_MissingNode
  | GE_CyclicDependency
  | GE_NodeInitFailed
  | GE_Stopped
  | GE_PolicyFailed
  | GE_GraphManagerFailed
  | GE_InvalidState
  | GE_ConfigurationInvalid
  | GE_BuilderFailed
  | GE_Unknown

fun GraphExecutionError_message :: "graph_execution_error \<Rightarrow> string" where
  "GraphExecutionError_message GE_NotInitialized = ''Graph is not initialized''"
| "GraphExecutionError_message GE_AlreadyRunning = ''Graph is already running''"
| "GraphExecutionError_message GE_MissingNode = ''Required graph node is missing''"
| "GraphExecutionError_message GE_CyclicDependency = ''Graph has cyclic dependencies''"
| "GraphExecutionError_message GE_NodeInitFailed = ''Node initialization failed''"
| "GraphExecutionError_message GE_Stopped = ''Graph execution was stopped''"
| "GraphExecutionError_message GE_PolicyFailed = ''Execution policy hook failed''"
| "GraphExecutionError_message GE_GraphManagerFailed = ''Graph manager lifecycle operation failed''"
| "GraphExecutionError_message GE_InvalidState = ''Executor lifecycle method called in invalid state''"
| "GraphExecutionError_message GE_ConfigurationInvalid = ''Graph executor builder configuration is invalid''"
| "GraphExecutionError_message GE_BuilderFailed = ''Graph executor builder failed''"
| "GraphExecutionError_message GE_Unknown = ''Unknown graph execution error''"

section \<open>GraphExecutionFailure\<close>

record graph_execution_failure =
  gf_code :: graph_execution_error
  gf_message :: string

definition MakeGraphExecutionFailure ::
    "graph_execution_error \<Rightarrow> string \<Rightarrow> graph_execution_failure" where
  "MakeGraphExecutionFailure code message =
     \<lparr>gf_code = code, gf_message = (if message = [] then GraphExecutionError_message code else message)\<rparr>"

type_synonym 'a graph_result = "('a, graph_execution_failure) expected"

lemma MakeGraphExecutionFailure_simps [simp]:
  "gf_code (MakeGraphExecutionFailure c m) = c"
  "gf_message (MakeGraphExecutionFailure c m) \<noteq> []"
  by (simp add: MakeGraphExecutionFailure_def, cases c) (simp_all add: MakeGraphExecutionFailure_def)

lemma GraphExecutionError_message_inj: "inj GraphExecutionError_message"
proof (rule injI)
  fix a b
  assume "GraphExecutionError_message a = GraphExecutionError_message b"
  then show "a = b" by (cases a; cases b) simp_all
qed

end
