(* ===== verification/Graph_Manager.thy ===== *)
theory Graph_Manager
  imports Node_Lifecycle Message_Pool Metrics_Sum Errors
begin

text \<open>
  \<open>graph::GraphManager\<close> (\<open>libgraph/include/graph/GraphManagerCore.hpp\<close>,
  \<open>libgraph/include/graph/GraphManagerShutdown.hpp\<close>): the owner of nodes, edges and the thread
  pool, and their lifecycle.

  Nodes and edges are reached through virtual calls (\<open>INode\<close>, \<open>IEdgeBase\<close>); a record of
  operations (\<open>component_ops\<close>) is the table those calls dispatch on. A call returns or throws
  (\<open>Throws (Some what)\<close> for a \<open>std::exception\<close>). A timed join also tells how many
  milliseconds it took; clock readings are arguments. The process-wide
  \<open>MessagePoolRegistry\<close> and the heap are threaded through \<open>Init\<close>, which fills them.
\<close>

section \<open>Components behind interfaces\<close>

text \<open>\<open>for (auto& c : cs) if (!c->f()) return failure;\<close>\<close>

fun try_each :: "('c \<Rightarrow> bool call \<times> 'c) \<Rightarrow> 'c list \<Rightarrow> bool call \<times> 'c list" where
  "try_each f [] = (Returns True, [])"
| "try_each f (c # cs) =
     (case f c of
        (Returns True, c') \<Rightarrow> (case try_each f cs of (r, cs') \<Rightarrow> (r, c' # cs'))
      | (r, c') \<Rightarrow> (r, c' # cs))"

text \<open>\<open>for (auto& c : cs) c->f();\<close> an exception leaves the loop.\<close>

fun do_each :: "('c \<Rightarrow> unit call \<times> 'c) \<Rightarrow> 'c list \<Rightarrow> unit call \<times> 'c list" where
  "do_each f [] = (Returns (), [])"
| "do_each f (c # cs) =
     (case f c of
        (Returns _, c') \<Rightarrow> (case do_each f cs of (r, cs') \<Rightarrow> (r, c' # cs'))
      | (Throws w, c') \<Rightarrow> (Throws w, c' # cs))"

text \<open>\<open>for (auto& c : cs) try { c->f(); } catch (...) {}\<close>\<close>

definition do_each_caught :: "('c \<Rightarrow> unit call \<times> 'c) \<Rightarrow> 'c list \<Rightarrow> 'c list" where
  "do_each_caught f cs = map (\<lambda>c. snd (f c)) cs"

section \<open>State\<close>

record edge_metadata =
  md_source_node_id :: u64
  md_source_port_id :: u64
  md_dest_node_id :: u64
  md_dest_port_id :: u64
  md_message_type_name :: string
  md_message_type_demangled :: string

definition SIZE_MAX :: u64 where
  "SIZE_MAX = - 1"

definition EdgeMetadata_is_valid :: "edge_metadata \<Rightarrow> bool" where
  "EdgeMetadata_is_valid m \<longleftrightarrow> md_source_node_id m \<noteq> SIZE_MAX \<and> md_dest_node_id m \<noteq> SIZE_MAX \<and>
     md_source_port_id m \<noteq> SIZE_MAX \<and> md_dest_port_id m \<noteq> SIZE_MAX \<and> md_message_type_name m \<noteq> []"

record graph_metrics =
  gx_aggregation_overflow :: bool
  gx_init_time_ns :: u64
  gx_start_time_ns :: u64
  gx_execution_time_ns :: u64
  gx_total_items_processed :: u64
  gx_total_items_rejected :: u64
  gx_total_messages_processed :: u64
  gx_graph_total_enqueued :: u64
  gx_graph_total_dequeued :: u64
  gx_total_queue_time_ns :: u64
  gx_total_process_time_ns :: u64
  gx_total_thread_time_ns :: u64
  gx_backpressure_events :: u64
  gx_peak_active_threads :: u64
  gx_peak_queue_depth :: u64

definition zero_graph_metrics :: graph_metrics where
  "zero_graph_metrics = \<lparr>gx_aggregation_overflow = False, gx_init_time_ns = 0,
     gx_start_time_ns = 0, gx_execution_time_ns = 0, gx_total_items_processed = 0,
     gx_total_items_rejected = 0, gx_total_messages_processed = 0, gx_graph_total_enqueued = 0,
     gx_graph_total_dequeued = 0, gx_total_queue_time_ns = 0, gx_total_process_time_ns = 0,
     gx_total_thread_time_ns = 0, gx_backpressure_events = 0, gx_peak_active_threads = 0,
     gx_peak_queue_depth = 0\<rparr>"

record ('n, 'e, 't) graph_manager =
  gm_initialized :: bool
  gm_started :: bool
  gm_metrics_enabled :: bool
  gm_thread_pool_config :: deadlock_config
  gm_thread_pool :: "'t thread_pool option"
  gm_num_threads :: nat
  gm_nodes :: "'n list"
  gm_canonical_node_ids :: "string list"
  gm_edges :: "'e list"
  gm_edge_metadata :: "edge_metadata list"
  gm_edge_metrics :: "edge_metrics list"
  gm_execution_start_ns :: u64
  gm_metrics :: graph_metrics

definition GraphManager :: "nat \<Rightarrow> deadlock_config \<Rightarrow> ('n, 'e, 't) graph_manager" where
  "GraphManager num_threads config =
     \<lparr>gm_initialized = False, gm_started = False, gm_metrics_enabled = False,
      gm_thread_pool_config = config, gm_thread_pool = None, gm_num_threads = num_threads,
      gm_nodes = [], gm_canonical_node_ids = [], gm_edges = [], gm_edge_metadata = [],
      gm_edge_metrics = [], gm_execution_start_ns = 0, gm_metrics = zero_graph_metrics\<rparr>"

section \<open>Adding nodes\<close>

datatype manager_error = RuntimeError string | InvalidArg string

text \<open>The names tried for a node without an id: \<open>runtime-node-<i>\<close>, then \<open>...-<i>-<suffix>\<close>.\<close>

definition runtime_id :: "nat \<Rightarrow> nat \<Rightarrow> string" where
  "runtime_id index suffix =
     (if suffix = 0 then ''runtime-node-'' @ to_string index
      else ''runtime-node-'' @ to_string index @ ''-'' @ to_string suffix)"

text \<open>\<open>for (suffix = 1; find(ids, id) != end; ++suffix) id = ...;\<close>\<close>

lemma runtime_id_inj: "runtime_id i m = runtime_id i n \<longleftrightarrow> m = n"
  by (auto simp: runtime_id_def inj_to_string)

function fresh_runtime_id :: "nat \<Rightarrow> string list \<Rightarrow> nat \<Rightarrow> string" where
  "fresh_runtime_id index ids suffix =
     (if runtime_id index suffix \<in> set ids then fresh_runtime_id index ids (suffix + 1)
      else runtime_id index suffix)"
  by pat_completeness auto
termination
proof (relation "measure (\<lambda>(index, ids, suffix).
    card {s. s \<ge> suffix \<and> runtime_id index s \<in> set ids})")
  fix index ids and suffix :: nat
  assume hit: "runtime_id index suffix \<in> set ids"
  let ?S = "\<lambda>k. {s. s \<ge> k \<and> runtime_id index s \<in> set ids}"
  have "inj_on (runtime_id index) (?S suffix)" by (auto simp: inj_on_def runtime_id_inj)
  moreover have "runtime_id index ` ?S suffix \<subseteq> set ids" by auto
  ultimately have "finite (?S suffix)" using finite_imageD finite_subset by blast
  moreover have "?S (suffix + 1) \<subset> ?S suffix"
  proof
    show "?S (suffix + 1) \<subseteq> ?S suffix" by auto
    have "suffix \<in> ?S suffix" "suffix \<notin> ?S (suffix + 1)" using hit by auto
    then show "?S (suffix + 1) \<noteq> ?S suffix" by blast
  qed
  ultimately have "card (?S (suffix + 1)) < card (?S suffix)" by (rule psubset_card_mono)
  then show "((index, ids, suffix + 1), (index, ids, suffix)) \<in>
      measure (\<lambda>(index, ids, suffix). card {s. s \<ge> suffix \<and> runtime_id index s \<in> set ids})"
    by simp
qed simp

declare fresh_runtime_id.simps [simp del]

text \<open>\<open>AddNode(std::shared_ptr<INode>, std::string)\<close>; a null pointer is \<open>None\<close>.\<close>

definition GraphManager_AddNode ::
    "'n option \<Rightarrow> string \<Rightarrow> ('n, 'e, 't) graph_manager \<Rightarrow>
     (unit, manager_error) expected \<times> ('n, 'e, 't) graph_manager" where
  "GraphManager_AddNode node canonical_node_id g =
     (case node of
        None \<Rightarrow> (Inl (InvalidArg ''Cannot add null node to graph''), g)
      | Some n \<Rightarrow>
          if gm_initialized g
          then (Inl (RuntimeError ''Cannot AddNode after Init() - graph already locked''), g)
          else if canonical_node_id = []
          then (Inr (), g\<lparr>gm_nodes := gm_nodes g @ [n],
                 gm_canonical_node_ids := gm_canonical_node_ids g @
                   [fresh_runtime_id (length (gm_nodes g)) (gm_canonical_node_ids g) 0]\<rparr>)
          else if canonical_node_id \<in> set (gm_canonical_node_ids g)
          then (Inl (InvalidArg (''Canonical node ID is already in use: '' @ canonical_node_id)), g)
          else (Inr (), g\<lparr>gm_nodes := gm_nodes g @ [n],
                 gm_canonical_node_ids := gm_canonical_node_ids g @ [canonical_node_id]\<rparr>))"

text \<open>
  The template \<open>AddNode<NodeType>(args...)\<close>: constructing the node and converting it to \<open>INode\<close>
  gave \<open>inode\<close> (\<open>None\<close>: the conversion failed). The node is appended before its name is built.
\<close>

definition GraphManager_AddNode_typed ::
    "'n option \<Rightarrow> ('n, 'e, 't) graph_manager \<Rightarrow>
     (unit, manager_error) expected \<times> ('n, 'e, 't) graph_manager" where
  "GraphManager_AddNode_typed inode g =
     (if gm_initialized g
      then (Inl (RuntimeError ''Cannot AddNode after Init() - graph already locked''), g)
      else case inode of
        None \<Rightarrow> (Inl (RuntimeError ''Failed to convert node to INode''), g)
      | Some n \<Rightarrow>
          let nodes = gm_nodes g @ [n] in
          (Inr (), g\<lparr>gm_nodes := nodes,
             gm_canonical_node_ids := gm_canonical_node_ids g @
               [fresh_runtime_id (length nodes - 1) (gm_canonical_node_ids g) 0]\<rparr>))"

section \<open>Adding edges\<close>

text \<open>
  \<open>GetNodeIndex\<close>: \<open>is_it n\<close> tells whether the stored node \<open>n\<close> is, or wraps, the searched one.
\<close>

fun node_index_from :: "('n \<Rightarrow> bool) \<Rightarrow> nat \<Rightarrow> 'n list \<Rightarrow> u64" where
  "node_index_from is_it i [] = SIZE_MAX"
| "node_index_from is_it i (n # ns) = (if is_it n then of_nat i else node_index_from is_it (i + 1) ns)"

definition GraphManager_GetNodeIndex :: "('n \<Rightarrow> bool) \<Rightarrow> ('n, 'e, 't) graph_manager \<Rightarrow> u64" where
  "GraphManager_GetNodeIndex is_it g = node_index_from is_it 0 (gm_nodes g)"

definition append_edge ::
    "'e \<Rightarrow> edge_metadata \<Rightarrow> ('n, 'e, 't) graph_manager \<Rightarrow> ('n, 'e, 't) graph_manager" where
  "append_edge e md g = g\<lparr>gm_edges := gm_edges g @ [e], gm_edge_metadata := gm_edge_metadata g @ [md],
     gm_edge_metrics := gm_edge_metrics g @ [zero_edge_metrics]\<rparr>"

text \<open>The template \<open>AddEdge<Src, SrcPort, Dst, DstPort>\<close>; \<open>edge\<close> is the wrapped typed edge.\<close>

definition GraphManager_AddEdge ::
    "'e \<Rightarrow> ('n \<Rightarrow> bool) \<Rightarrow> nat \<Rightarrow> ('n \<Rightarrow> bool) \<Rightarrow> nat \<Rightarrow> string \<Rightarrow> string option \<Rightarrow>
     ('n, 'e, 't) graph_manager \<Rightarrow> (unit, manager_error) expected \<times> ('n, 'e, 't) graph_manager" where
  "GraphManager_AddEdge edge is_src src_port is_dst dst_port type_name demangled g =
     (if gm_initialized g
      then (Inl (RuntimeError ''Cannot AddEdge after Init() - graph already locked''), g)
      else (Inr (), append_edge edge
        \<lparr>md_source_node_id = GraphManager_GetNodeIndex is_src g, md_source_port_id = of_nat src_port,
         md_dest_node_id = GraphManager_GetNodeIndex is_dst g, md_dest_port_id = of_nat dst_port,
         md_message_type_name = type_name,
         md_message_type_demangled = (case demangled of Some d \<Rightarrow> d | None \<Rightarrow> type_name)\<rparr> g))"

definition GraphManager_AddDynamicEdgeExpected ::
    "(port_handle \<Rightarrow> port_handle \<Rightarrow> nat \<Rightarrow> 'e) \<Rightarrow> port_handle \<Rightarrow> port_handle \<Rightarrow> nat \<Rightarrow>
     ('n, 'e, 't) graph_manager \<Rightarrow> unit graph_result \<times> ('n, 'e, 't) graph_manager" where
  "GraphManager_AddDynamicEdgeExpected make_edge source destination capacity g =
     (if gm_initialized g
      then (Inl (MakeGraphExecutionFailure GE_InvalidState
             ''Cannot AddDynamicEdge after Init() - graph already locked''), g)
      else if length (gm_nodes g) \<le> ph_node_index source \<or>
              length (gm_nodes g) \<le> ph_node_index destination
      then (Inl (MakeGraphExecutionFailure GE_MissingNode
             ''AddDynamicEdgeExpected received node index outside graph node range''), g)
      else if \<not> has_value (ValidateDynamicEdgeCompatibility source destination capacity)
      then (Inl (MakeGraphExecutionFailure GE_ConfigurationInvalid
             ''AddDynamicEdgeExpected rejected incompatible runtime port handles''), g)
      else if \<not> executable_handles source destination
      then (Inl (MakeGraphExecutionFailure GE_ConfigurationInvalid
             ''AddDynamicEdgeExpected requires executable runtime ports (descriptor-only handles are non-executable)''), g)
      else (Inr (), append_edge (make_edge source destination capacity)
        \<lparr>md_source_node_id = of_nat (ph_node_index source),
         md_source_port_id = of_nat (pd_id (ph_descriptor source)),
         md_dest_node_id = of_nat (ph_node_index destination),
         md_dest_port_id = of_nat (pd_id (ph_descriptor destination)),
         md_message_type_name = pd_payload_type (ph_descriptor source),
         md_message_type_demangled = pd_payload_type (ph_descriptor source)\<rparr> g))"

section \<open>Init and Start\<close>

definition caught_failure :: "string \<Rightarrow> string option \<Rightarrow> graph_execution_failure" where
  "caught_failure method what =
     MakeGraphExecutionFailure GE_Unknown
       (case what of Some w \<Rightarrow> method @ '' failed: '' @ w
                   | None \<Rightarrow> method @ '' failed with unknown exception'')"

text \<open>The pool that \<open>Init\<close> creates; with \<open>num_threads_ == 0\<close> the configuration is not passed on.\<close>

definition make_thread_pool :: "nat \<Rightarrow> ('n, 'e, 't) graph_manager \<Rightarrow> 't thread_pool" where
  "make_thread_pool hw g =
     (if gm_num_threads g = 0 then ThreadPool hw 0 default_deadlock_config
      else ThreadPool hw (gm_num_threads g) (gm_thread_pool_config g))"

text \<open>Once the pool exists: message pools, nodes, edges, the flag and the timing.\<close>

definition Init_components ::
    "'n component_ops \<Rightarrow> 'e component_ops \<Rightarrow> u64 \<Rightarrow> nat option list list \<Rightarrow>
     ('n, 'e, 't) graph_manager \<Rightarrow> pool_registry \<Rightarrow> heap \<Rightarrow>
     unit graph_result \<times> ('n, 'e, 't) graph_manager \<times> pool_registry \<times> heap" where
  "Init_components nops eops init_ns mss g reg h =
     (case MessagePoolRegistry_InitializeCommonPools 256 mss reg h of
        (reg', h') \<Rightarrow>
          (case try_each (co_Init nops) (gm_nodes g) of
             (Throws w, ns) \<Rightarrow>
               (Inl (caught_failure ''GraphManager::Init()'' w), g\<lparr>gm_nodes := ns\<rparr>, reg', h')
           | (Returns False, ns) \<Rightarrow>
               (Inl (MakeGraphExecutionFailure GE_NodeInitFailed
                  ''GraphManager::Init() failed to initialize node''), g\<lparr>gm_nodes := ns\<rparr>, reg', h')
           | (Returns True, ns) \<Rightarrow>
               (case try_each (co_Init eops) (gm_edges g) of
                  (Throws w, es) \<Rightarrow>
                    (Inl (caught_failure ''GraphManager::Init()'' w),
                     g\<lparr>gm_nodes := ns, gm_edges := es\<rparr>, reg', h')
                | (Returns False, es) \<Rightarrow>
                    (Inl (MakeGraphExecutionFailure GE_GraphManagerFailed
                       ''GraphManager::Init() failed to initialize edge''),
                     g\<lparr>gm_nodes := ns, gm_edges := es\<rparr>, reg', h')
                | (Returns True, es) \<Rightarrow>
                    (Inr (), g\<lparr>gm_nodes := ns, gm_edges := es, gm_initialized := True,
                       gm_metrics := (gm_metrics g)\<lparr>gx_init_time_ns := init_ns\<rparr>\<rparr>, reg', h'))))"

definition GraphManager_InitExpected ::
    "'n component_ops \<Rightarrow> 'e component_ops \<Rightarrow> nat \<Rightarrow> u64 \<Rightarrow> nat option list list \<Rightarrow>
     ('n, 'e, 't) graph_manager \<Rightarrow> pool_registry \<Rightarrow> heap \<Rightarrow>
     unit graph_result \<times> ('n, 'e, 't) graph_manager \<times> pool_registry \<times> heap" where
  "GraphManager_InitExpected nops eops hw init_ns mss g reg h =
     (if gm_initialized g
      then (Inl (MakeGraphExecutionFailure GE_InvalidState
             ''GraphManager::Init() called after graph is already initialized''), g, reg, h)
      else
        let g1 = (case gm_thread_pool g of
                    None \<Rightarrow> g\<lparr>gm_thread_pool := Some (make_thread_pool hw g)\<rparr> | Some _ \<Rightarrow> g)
        in if gm_thread_pool g = None \<and> \<not> ThreadPool_Init (make_thread_pool hw g)
           then (Inl (MakeGraphExecutionFailure GE_GraphManagerFailed
                  ''GraphManager::Init() failed to initialize ThreadPool''), g1, reg, h)
           else Init_components nops eops init_ns mss g1 reg h)"

definition Start_components ::
    "'n component_ops \<Rightarrow> 'e component_ops \<Rightarrow> u64 \<Rightarrow> u64 \<Rightarrow> ('n, 'e, 't) graph_manager \<Rightarrow>
     unit graph_result \<times> ('n, 'e, 't) graph_manager" where
  "Start_components nops eops now_ns start_ns g =
     (case try_each (co_Start nops) (gm_nodes g) of
        (Throws w, ns) \<Rightarrow> (Inl (caught_failure ''GraphManager::Start()'' w), g\<lparr>gm_nodes := ns\<rparr>)
      | (Returns False, ns) \<Rightarrow>
          (Inl (MakeGraphExecutionFailure GE_GraphManagerFailed
             ''GraphManager::Start() failed to start node''), g\<lparr>gm_nodes := ns\<rparr>)
      | (Returns True, ns) \<Rightarrow>
          (case try_each (co_Start eops) (gm_edges g) of
             (Throws w, es) \<Rightarrow>
               (Inl (caught_failure ''GraphManager::Start()'' w), g\<lparr>gm_nodes := ns, gm_edges := es\<rparr>)
           | (Returns False, es) \<Rightarrow>
               (Inl (MakeGraphExecutionFailure GE_GraphManagerFailed
                  ''GraphManager::Start() failed to start edge''), g\<lparr>gm_nodes := ns, gm_edges := es\<rparr>)
           | (Returns True, es) \<Rightarrow>
               (Inr (), g\<lparr>gm_nodes := ns, gm_edges := es, gm_started := True,
                  gm_execution_start_ns := now_ns,
                  gm_metrics := (gm_metrics g)\<lparr>gx_start_time_ns := start_ns\<rparr>\<rparr>)))"

definition GraphManager_StartExpected ::
    "'n component_ops \<Rightarrow> 'e component_ops \<Rightarrow> spawn_outcome \<Rightarrow> bool \<Rightarrow> u64 \<Rightarrow> u64 \<Rightarrow>
     ('n, 'e, 't) graph_manager \<Rightarrow> unit graph_result \<times> ('n, 'e, 't) graph_manager" where
  "GraphManager_StartExpected nops eops workers watchdog_ok now_ns start_ns g =
     (if \<not> gm_initialized g
      then (Inl (MakeGraphExecutionFailure GE_InvalidState
             ''GraphManager::Start() requires successful Init()''), g)
      else if gm_started g
      then (Inl (MakeGraphExecutionFailure GE_InvalidState
             ''GraphManager::Start() called after graph is already started''), g)
      else case gm_thread_pool g of
        None \<Rightarrow> (Inl (MakeGraphExecutionFailure GE_GraphManagerFailed
                   ''GraphManager::Start() requires initialized ThreadPool''), g)
      | Some pool \<Rightarrow>
          (case ThreadPool_StartExpected workers watchdog_ok pool of
             (Inl _, pool') \<Rightarrow>
               (Inl (MakeGraphExecutionFailure GE_GraphManagerFailed
                  ''GraphManager::Start() failed to start ThreadPool''), g\<lparr>gm_thread_pool := Some pool'\<rparr>)
           | (Inr _, pool') \<Rightarrow>
               Start_components nops eops now_ns start_ns (g\<lparr>gm_thread_pool := Some pool'\<rparr>)))"

section \<open>Stop and Join\<close>

text \<open>\<open>None\<close>: the pool's drain loop does not return (it always does).\<close>

definition GraphManager_Stop ::
    "'n component_ops \<Rightarrow> 'e component_ops \<Rightarrow> u64 \<Rightarrow> ('n, 'e, 't) graph_manager \<Rightarrow>
     (unit call \<times> ('n, 'e, 't) graph_manager) option" where
  "GraphManager_Stop nops eops now_ns g =
     (let start_ns = gm_execution_start_ns g;
          g1 = (if start_ns \<noteq> 0
                then g\<lparr>gm_execution_start_ns := 0, gm_metrics := (gm_metrics g)
                       \<lparr>gx_execution_time_ns := (if start_ns < now_ns then now_ns - start_ns else 0)\<rparr>\<rparr>
                else g\<lparr>gm_execution_start_ns := 0\<rparr>)
      in case do_each (co_Stop eops) (gm_edges g1) of
        (Throws w, es) \<Rightarrow> Some (Throws w, g1\<lparr>gm_edges := es\<rparr>)
      | (Returns _, es) \<Rightarrow>
          (case do_each (co_Stop nops) (gm_nodes g1) of
             (Throws w, ns) \<Rightarrow> Some (Throws w, g1\<lparr>gm_edges := es, gm_nodes := ns\<rparr>)
           | (Returns _, ns) \<Rightarrow>
               (case gm_thread_pool g1 of
                  None \<Rightarrow> Some (Returns (), g1\<lparr>gm_edges := es, gm_nodes := ns\<rparr>)
                | Some pool \<Rightarrow>
                    map_option (\<lambda>pool'. (Returns (),
                        g1\<lparr>gm_edges := es, gm_nodes := ns, gm_thread_pool := Some pool'\<rparr>))
                      (ThreadPool_Stop pool))))"

text \<open>
  One of the loops of \<open>JoinWithTimeout\<close>: \<open>remaining elapsed\<close> is the budget given to the next
  component; the result tells success and the time elapsed.
\<close>

fun join_each ::
    "(int \<Rightarrow> int) \<Rightarrow> int \<Rightarrow> (int \<Rightarrow> 'c \<Rightarrow> (bool \<times> int) \<times> 'c) \<Rightarrow> int \<Rightarrow> 'c list \<Rightarrow>
     bool \<times> int \<times> 'c list" where
  "join_each remaining timeout join elapsed [] = (True, elapsed, [])"
| "join_each remaining timeout join elapsed (c # cs) =
     (if timeout \<le> elapsed then (False, elapsed, c # cs)
      else case join (remaining elapsed) c of
        ((True, d), c') \<Rightarrow>
          (case join_each remaining timeout join (elapsed + d) cs of (r, t, cs') \<Rightarrow> (r, t, c' # cs'))
      | ((False, d), c') \<Rightarrow> (False, elapsed + d, c' # cs))"

definition edge_remaining :: "int \<Rightarrow> int \<Rightarrow> int" where
  "edge_remaining timeout elapsed = timeout div 3 - min (timeout div 3) elapsed"

definition node_remaining :: "int \<Rightarrow> int \<Rightarrow> int" where
  "node_remaining timeout elapsed =
     max (timeout div 3 - min (timeout div 3) (elapsed - timeout div 3)) 1"

definition pool_remaining :: "int \<Rightarrow> int \<Rightarrow> int" where
  "pool_remaining timeout elapsed =
     (let pool_budget = timeout - timeout div 3 - timeout div 3 in
      max (pool_budget - min pool_budget (elapsed - timeout div 3 - timeout div 3)) 1)"

text \<open>The joins that follow \<open>Stop()\<close> in \<open>JoinWithTimeout\<close>.\<close>

definition GraphManager_join_all ::
    "'n component_ops \<Rightarrow> 'e component_ops \<Rightarrow> (int \<Rightarrow> 't thread_pool \<Rightarrow> (bool \<times> int) \<times> 't thread_pool) \<Rightarrow>
     int \<Rightarrow> ('n, 'e, 't) graph_manager \<Rightarrow> bool \<times> int \<times> ('n, 'e, 't) graph_manager" where
  "GraphManager_join_all nops eops pool_join timeout g =
     (case join_each (edge_remaining timeout) timeout (co_JoinWithTimeout eops) 0 (gm_edges g) of
        (False, t, es) \<Rightarrow> (False, t, g\<lparr>gm_edges := es\<rparr>)
      | (True, t, es) \<Rightarrow>
          (case join_each (node_remaining timeout) timeout (co_JoinWithTimeout nops) t (gm_nodes g) of
             (False, t', ns) \<Rightarrow> (False, t', g\<lparr>gm_edges := es, gm_nodes := ns\<rparr>)
           | (True, t', ns) \<Rightarrow>
               let g1 = g\<lparr>gm_edges := es, gm_nodes := ns\<rparr> in
               (case gm_thread_pool g of
                  None \<Rightarrow> (True, t', g1)
                | Some pool \<Rightarrow>
                    (case join_each (pool_remaining timeout) timeout pool_join t' [pool] of
                       (ok, t'', pools) \<Rightarrow> (ok, t'', g1\<lparr>gm_thread_pool := Some (hd pools)\<rparr>)))))"

definition GraphManager_JoinWithTimeout ::
    "'n component_ops \<Rightarrow> 'e component_ops \<Rightarrow> (int \<Rightarrow> 't thread_pool \<Rightarrow> (bool \<times> int) \<times> 't thread_pool) \<Rightarrow>
     u64 \<Rightarrow> int \<Rightarrow> ('n, 'e, 't) graph_manager \<Rightarrow>
     ((bool \<times> int) call \<times> ('n, 'e, 't) graph_manager) option" where
  "GraphManager_JoinWithTimeout nops eops pool_join now_ns timeout g =
     (case GraphManager_Stop nops eops now_ns g of
        None \<Rightarrow> None
      | Some (Throws w, g1) \<Rightarrow> Some (Throws w, g1)
      | Some (Returns _, g1) \<Rightarrow>
          (case GraphManager_join_all nops eops pool_join timeout g1 of
             (ok, t, g2) \<Rightarrow> Some (Returns (ok, t), g2)))"

text \<open>
  \<open>ThreadPool::Join\<close>: \<open>settle\<close> gives the pool after its last thread has ended, \<open>None\<close> when one
  never ends.
\<close>

definition ThreadPool_Join ::
    "('t thread_pool \<Rightarrow> 't thread_pool option) \<Rightarrow> 't thread_pool \<Rightarrow> 't thread_pool option" where
  "ThreadPool_Join settle p = settle (Join_begin p)"

text \<open>The untimed \<open>Join\<close>, which stops everything first.\<close>

definition GraphManager_Join ::
    "'n component_ops \<Rightarrow> 'e component_ops \<Rightarrow> ('t thread_pool \<Rightarrow> 't thread_pool option) \<Rightarrow> u64 \<Rightarrow>
     ('n, 'e, 't) graph_manager \<Rightarrow> (unit call \<times> ('n, 'e, 't) graph_manager) option" where
  "GraphManager_Join nops eops settle now_ns g =
     (case GraphManager_Stop nops eops now_ns g of
        None \<Rightarrow> None
      | Some (Throws w, g1) \<Rightarrow> Some (Throws w, g1)
      | Some (Returns _, g1) \<Rightarrow>
          (case do_each (co_Join eops) (gm_edges g1) of
             (Throws w, es) \<Rightarrow> Some (Throws w, g1\<lparr>gm_edges := es\<rparr>)
           | (Returns _, es) \<Rightarrow>
               (case do_each (co_Join nops) (gm_nodes g1) of
                  (Throws w, ns) \<Rightarrow> Some (Throws w, g1\<lparr>gm_edges := es, gm_nodes := ns\<rparr>)
                | (Returns _, ns) \<Rightarrow>
                    let g2 = g1\<lparr>gm_edges := es, gm_nodes := ns\<rparr> in
                    (case gm_thread_pool g2 of
                       None \<Rightarrow> Some (Returns (), g2)
                     | Some pool \<Rightarrow>
                         map_option (\<lambda>pool'. (Returns (), g2\<lparr>gm_thread_pool := Some pool'\<rparr>))
                           (ThreadPool_Join settle pool)))))"

text \<open>
  The destructor, which swallows every exception; \<open>cleanup\<close> is \<open>Cleanup()\<close> of wrapped plugin
  nodes. The result also names the edges and nodes as they are when released.
\<close>

definition GraphManager_Destroy ::
    "'n component_ops \<Rightarrow> 'e component_ops \<Rightarrow> ('t thread_pool \<Rightarrow> 't thread_pool option) \<Rightarrow> ('n \<Rightarrow> 'n) \<Rightarrow>
     ('n, 'e, 't) graph_manager \<Rightarrow> ('e list \<times> 'n list \<times> ('n, 'e, 't) graph_manager) option" where
  "GraphManager_Destroy nops eops settle cleanup g =
     (let es = do_each_caught (co_Stop eops) (gm_edges g);
          ns = do_each_caught (co_Stop nops) (gm_nodes g);
          stopped = (case gm_thread_pool g of
                       None \<Rightarrow> Some None | Some pool \<Rightarrow> map_option Some (ThreadPool_Stop pool));
          es' = map (\<lambda>e. snd (co_JoinWithTimeout eops 1000 e)) es;
          ns' = map (\<lambda>n. snd (co_JoinWithTimeout nops 1000 n)) ns;
          joined = (case stopped of
                      None \<Rightarrow> None
                    | Some None \<Rightarrow> Some None
                    | Some (Some pool) \<Rightarrow> map_option Some (ThreadPool_Join settle pool))
      in map_option (\<lambda>pool. (es', map cleanup ns',
           g\<lparr>gm_thread_pool := pool, gm_edges := [], gm_nodes := []\<rparr>)) joined)"

text \<open>\<open>Clear\<close> releases edges and nodes and unlocks the graph.\<close>

definition GraphManager_Clear :: "('n, 'e, 't) graph_manager \<Rightarrow> ('n, 'e, 't) graph_manager" where
  "GraphManager_Clear g = g\<lparr>gm_edges := [], gm_nodes := [], gm_canonical_node_ids := [],
     gm_initialized := False, gm_started := False\<rparr>"

definition GraphManager_GetEdgeMetadata ::
    "nat \<Rightarrow> ('n, 'e, 't) graph_manager \<Rightarrow> edge_metadata option" where
  "GraphManager_GetEdgeMetadata i g =
     (if length (gm_edge_metadata g) \<le> i then None else Some (gm_edge_metadata g ! i))"

definition GraphManager_EnableMetrics ::
    "bool \<Rightarrow> ('n, 'e, 't) graph_manager \<Rightarrow> ('n, 'e, 't) graph_manager" where
  "GraphManager_EnableMetrics b g = g\<lparr>gm_metrics_enabled := b\<rparr>"

definition GraphManager_ResetMetrics ::
    "('n, 'e, 't) graph_manager \<Rightarrow> ('n, 'e, 't) graph_manager" where
  "GraphManager_ResetMetrics g = g\<lparr>gm_metrics := zero_graph_metrics
     \<lparr>gx_aggregation_overflow := gx_aggregation_overflow (gm_metrics g)\<rparr>,
     gm_execution_start_ns := 0\<rparr>"

section \<open>Aggregated metrics\<close>

definition GraphManager_GetMetrics ::
    "('e \<Rightarrow> thread_metrics) \<Rightarrow> u64 \<Rightarrow> ('n, 'e, 't) graph_manager \<Rightarrow> ('n, 'e, 't) graph_manager" where
  "GraphManager_GetMetrics thread_metrics_of now_ns g =
     (case add_rows (rows edge_fields (gm_edge_metrics g)) [0, 0, 0, 0, 0] False of
        (es, ov1) \<Rightarrow>
      case add_rows (rows thread_fields (map thread_metrics_of (gm_edges g))) [0, 0, 0, 0] ov1 of
        (ts, ov2) \<Rightarrow>
      case add_rows [[ts ! 0], [ts ! 1], [ts ! 2]] [0] ov2 of
        (tt, ov3) \<Rightarrow>
          let m = gm_metrics g;
              m1 = m\<lparr>gx_aggregation_overflow := ov3,
                gx_graph_total_enqueued := es ! 0,
                gx_graph_total_dequeued := es ! 1,
                gx_total_items_rejected := es ! 2,
                gx_total_queue_time_ns := es ! 3,
                gx_backpressure_events := es ! 4,
                gx_peak_queue_depth :=
                  fold (\<lambda>em peak. if peak < em_peak_queue_depth em then em_peak_queue_depth em else peak)
                    (gm_edge_metrics g) 0,
                gx_total_messages_processed := es ! 1,
                gx_total_items_processed := es ! 1,
                gx_total_process_time_ns := ts ! 0,
                gx_total_thread_time_ns := tt ! 0,
                gx_peak_active_threads :=
                  (if gx_peak_active_threads m < ts ! 3 then ts ! 3 else gx_peak_active_threads m)\<rparr>;
              start_ns = gm_execution_start_ns g;
              m2 = (if start_ns \<noteq> 0
                    then m1\<lparr>gx_execution_time_ns := (if start_ns < now_ns then now_ns - start_ns else 0)\<rparr>
                    else m1)
          in g\<lparr>gm_metrics := m2\<rparr>)"

section \<open>The loops over components\<close>

lemma length_try_each [simp]: "length (snd (try_each f cs)) = length cs"
  by (induction cs) (auto split: prod.splits call.splits bool.splits)

lemma length_do_each [simp]: "length (snd (do_each f cs)) = length cs"
  by (induction cs) (auto split: prod.splits call.splits)

lemma try_each_length: "try_each f cs = (r, cs') \<Longrightarrow> length cs' = length cs"
  using length_try_each [of f cs] by simp

lemma do_each_length: "do_each f cs = (r, cs') \<Longrightarrow> length cs' = length cs"
  using length_do_each [of f cs] by simp

lemma try_each_True:
  "fst (try_each f cs) = Returns True \<longleftrightarrow> (\<forall>c \<in> set cs. fst (f c) = Returns True)"
  by (induction cs) (auto split: prod.splits call.splits bool.splits)

lemma try_each_True_map:
  "fst (try_each f cs) = Returns True \<Longrightarrow> snd (try_each f cs) = map (\<lambda>c. snd (f c)) cs"
  by (induction cs) (auto split: prod.splits call.splits bool.splits)

lemma do_each_map:
  "(\<forall>c \<in> set cs. fst (f c) = Returns ()) \<Longrightarrow>
   do_each f cs = (Returns (), map (\<lambda>c. snd (f c)) cs)"
  by (induction cs) (auto split: prod.splits call.splits)





section \<open>Names and parallel vectors\<close>

definition gm_ok :: "('n, 'e, 't) graph_manager \<Rightarrow> bool" where
  "gm_ok g \<longleftrightarrow> length (gm_canonical_node_ids g) = length (gm_nodes g) \<and>
     distinct (gm_canonical_node_ids g) \<and> [] \<notin> set (gm_canonical_node_ids g) \<and>
     length (gm_edge_metadata g) = length (gm_edges g) \<and>
     length (gm_edge_metrics g) = length (gm_edges g)"

text \<open>The same with \<open>k\<close> entries of metadata and metrics more than there are edges.\<close>

definition gm_slack :: "nat \<Rightarrow> ('n, 'e, 't) graph_manager \<Rightarrow> bool" where
  "gm_slack k g \<longleftrightarrow> length (gm_canonical_node_ids g) = length (gm_nodes g) \<and>
     distinct (gm_canonical_node_ids g) \<and> [] \<notin> set (gm_canonical_node_ids g) \<and>
     length (gm_edge_metadata g) = length (gm_edges g) + k \<and>
     length (gm_edge_metrics g) = length (gm_edges g) + k"

lemma gm_ok_slack: "gm_ok g = gm_slack 0 g"
  by (simp add: gm_ok_def gm_slack_def)

lemma fresh_runtime_id_fresh: "fresh_runtime_id index ids suffix \<notin> set ids"
  by (induction index ids suffix rule: fresh_runtime_id.induct) (subst fresh_runtime_id.simps, simp)

lemma fresh_runtime_id_nonempty: "fresh_runtime_id index ids suffix \<noteq> []"
  by (induction index ids suffix rule: fresh_runtime_id.induct)
     (subst fresh_runtime_id.simps, simp add: runtime_id_def)

text \<open>Everything a client of the manager can do; \<open>clears\<close> says whether it may call \<open>Clear\<close>.\<close>

inductive gm_step ::
    "bool \<Rightarrow> 'n component_ops \<Rightarrow> 'e component_ops \<Rightarrow> ('n, 'e, 't) graph_manager \<Rightarrow> ('n, 'e, 't) graph_manager \<Rightarrow> bool"
  for clears nops eops where
  add_node: "GraphManager_AddNode node nid g = (r, g') \<Longrightarrow> gm_step clears nops eops g g'"
| add_node_typed: "GraphManager_AddNode_typed node g = (r, g') \<Longrightarrow> gm_step clears nops eops g g'"
| add_edge: "GraphManager_AddEdge e is_src sp is_dst dp ty dm g = (r, g') \<Longrightarrow> gm_step clears nops eops g g'"
| add_dynamic_edge:
    "GraphManager_AddDynamicEdgeExpected mk src dst cap g = (r, g') \<Longrightarrow> gm_step clears nops eops g g'"
| init: "GraphManager_InitExpected nops eops hw ns mss g reg h = (r, g', reg', h') \<Longrightarrow>
    gm_step clears nops eops g g'"
| start: "GraphManager_StartExpected nops eops workers ok now ns g = (r, g') \<Longrightarrow> gm_step clears nops eops g g'"
| stop: "GraphManager_Stop nops eops now g = Some (r, g') \<Longrightarrow> gm_step clears nops eops g g'"
| join: "GraphManager_JoinWithTimeout nops eops pool_join now timeout g = Some (r, g') \<Longrightarrow>
    gm_step clears nops eops g g'"
| join_untimed: "GraphManager_Join nops eops settle now g = Some (r, g') \<Longrightarrow> gm_step clears nops eops g g'"
| get_metrics: "gm_step clears nops eops g (GraphManager_GetMetrics tm now g)"
| enable_metrics: "gm_step clears nops eops g (GraphManager_EnableMetrics b g)"
| reset_metrics: "gm_step clears nops eops g (GraphManager_ResetMetrics g)"
| clear: "clears \<Longrightarrow> gm_step clears nops eops g (GraphManager_Clear g)"

definition same_shape_gm :: "('n, 'e, 't) graph_manager \<Rightarrow> ('n, 'e, 't) graph_manager \<Rightarrow> bool" where
  "same_shape_gm g g' \<longleftrightarrow> length (gm_nodes g') = length (gm_nodes g) \<and>
     length (gm_edges g') = length (gm_edges g) \<and>
     gm_canonical_node_ids g' = gm_canonical_node_ids g \<and>
     gm_edge_metadata g' = gm_edge_metadata g \<and> gm_edge_metrics g' = gm_edge_metrics g"

lemma gm_slack_same_shape: "gm_slack k g \<Longrightarrow> same_shape_gm g g' \<Longrightarrow> gm_slack k g'"
  by (simp add: gm_slack_def same_shape_gm_def)

lemma Init_shape:
  assumes "GraphManager_InitExpected nops eops hw ns mss g reg h = (r, g', reg', h')"
  shows "same_shape_gm g g'"
  using assms
  by (auto simp: GraphManager_InitExpected_def Init_components_def same_shape_gm_def Let_def
      dest!: try_each_length split: if_splits prod.splits call.splits bool.splits option.splits)

lemma Start_shape:
  assumes "GraphManager_StartExpected nops eops workers ok now ns g = (r, g')"
  shows "same_shape_gm g g'"
  using assms
  by (auto simp: GraphManager_StartExpected_def Start_components_def same_shape_gm_def
      dest!: try_each_length split: if_splits prod.splits call.splits bool.splits option.splits sum.splits)

lemma Stop_shape:
  assumes "GraphManager_Stop nops eops now g = Some (r, g')"
  shows "same_shape_gm g g'"
  using assms
  by (auto simp: GraphManager_Stop_def same_shape_gm_def Let_def
      dest!: do_each_length split: if_splits prod.splits call.splits option.splits)

lemma join_each_length: "join_each rem timeout join t cs = (r, t', cs') \<Longrightarrow> length cs' = length cs"
  by (induction rem timeout join t cs arbitrary: r t' cs' rule: join_each.induct)
     (fastforce split: if_splits prod.splits bool.splits)+

lemma join_all_shape:
  assumes "GraphManager_join_all nops eops pool_join timeout g = (ok, t, g')"
  shows "same_shape_gm g g'"
  using assms
  by (auto simp: GraphManager_join_all_def same_shape_gm_def Let_def simp del: join_each.simps
      dest!: join_each_length split: prod.splits bool.splits option.splits)

lemma Join_shape:
  assumes "GraphManager_Join nops eops settle now g = Some (r, g')"
  shows "same_shape_gm g g'"
proof -
  obtain r1 g1 where s: "GraphManager_Stop nops eops now g = Some (r1, g1)"
    using assms by (auto simp: GraphManager_Join_def split: option.splits)
  have "same_shape_gm g1 g'"
    using assms s by (auto simp: GraphManager_Join_def same_shape_gm_def Let_def
        dest!: do_each_length split: prod.splits call.splits option.splits)
  then show ?thesis using Stop_shape [OF s] by (simp add: same_shape_gm_def)
qed

lemma gm_slack_step:
  "gm_step clears nops eops g g' \<Longrightarrow> gm_slack k g \<Longrightarrow> \<exists>j. gm_slack j g' \<and> (clears \<or> j = k)"
proof (induction rule: gm_step.induct)
  case (add_node node nid g r g')
  then show ?case
    by (auto simp: GraphManager_AddNode_def gm_slack_def fresh_runtime_id_fresh
        fresh_runtime_id_nonempty [symmetric] split: option.splits if_splits)
next
  case (add_node_typed node g r g')
  then show ?case
    by (auto simp: GraphManager_AddNode_typed_def gm_slack_def fresh_runtime_id_fresh
        fresh_runtime_id_nonempty [symmetric] Let_def split: option.splits if_splits)
next
  case (add_edge e is_src sp is_dst dp ty dm g r g')
  then show ?case by (auto simp: GraphManager_AddEdge_def append_edge_def gm_slack_def split: if_splits)
next
  case (add_dynamic_edge mk src dst cap g r g')
  then show ?case
    by (auto simp: GraphManager_AddDynamicEdgeExpected_def append_edge_def gm_slack_def split: if_splits)
next
  case (init hw ns mss g reg h r g' reg' h')
  then show ?case using Init_shape gm_slack_same_shape by blast
next
  case (start workers ok now ns g r g')
  then show ?case using Start_shape gm_slack_same_shape by blast
next
  case (stop now g r g')
  then show ?case using Stop_shape gm_slack_same_shape by blast
next
  case (join pool_join now timeout g r g')
  then obtain r1 g1 where s: "GraphManager_Stop nops eops now g = Some (r1, g1)"
    by (auto simp: GraphManager_JoinWithTimeout_def split: option.splits)
  have g1: "gm_slack k g1" using Stop_shape [OF s] gm_slack_same_shape join.prems by blast
  show ?case
  proof (cases r1)
    case (Returns u)
    obtain ok t g2 where a: "GraphManager_join_all nops eops pool_join timeout g1 = (ok, t, g2)"
      by (metis prod_cases3)
    then have "g' = g2" using join s Returns by (simp add: GraphManager_JoinWithTimeout_def)
    then show ?thesis using join_all_shape [OF a] gm_slack_same_shape g1 by blast
  next
    case (Throws w)
    then show ?thesis using join s g1 by (auto simp: GraphManager_JoinWithTimeout_def)
  qed
next
  case (join_untimed settle now g r g')
  then show ?case using Join_shape gm_slack_same_shape by blast
next
  case (clear g)
  then have "gm_slack (length (gm_edge_metadata g)) (GraphManager_Clear g)"
    by (simp add: gm_slack_def GraphManager_Clear_def)
  with clear show ?case by blast
qed (auto simp: gm_slack_def GraphManager_GetMetrics_def GraphManager_EnableMetrics_def
       GraphManager_ResetMetrics_def Let_def split: prod.splits)

text \<open>
  C12. Node names are unique and the parallel vectors stay aligned. Whatever sequence of calls a
  client makes on a new manager (additions, initialisations, starts, stops, joins, metrics and
  \<open>Clear\<close>; failing calls and exceptions included), every node has its own non-empty canonical id,
  and \<open>edge_metadata_\<close> and \<open>edge_metrics_\<close> have equally many entries, at least one per edge. As long as
  \<open>Clear\<close> is not called there is exactly one per edge; \<open>Clear\<close> leaves the entries of the edges that it
  drops. (In particular the search for a free generated name always ends.)
\<close>

theorem node_ids_unique_and_vectors_aligned:
  assumes "(gm_step clears nops eops)\<^sup>*\<^sup>* (GraphManager threads config) g"
  shows "length (gm_canonical_node_ids g) = length (gm_nodes g) \<and>
    distinct (gm_canonical_node_ids g) \<and> [] \<notin> set (gm_canonical_node_ids g) \<and>
    length (gm_edge_metrics g) = length (gm_edge_metadata g) \<and>
    length (gm_edges g) \<le> length (gm_edge_metadata g) \<and>
    (clears \<or> length (gm_edge_metadata g) = length (gm_edges g))"
proof -
  have "\<exists>k. gm_slack k (GraphManager threads config) \<and> (clears \<or> k = 0)"
    by (simp add: gm_slack_def GraphManager_def)
  then have "\<exists>k. gm_slack k g \<and> (clears \<or> k = 0)"
    by (rule rtranclp_invariant [OF assms, of "\<lambda>g. \<exists>k. gm_slack k g \<and> (clears \<or> k = 0)"])
       (use gm_slack_step in blast)
  then show ?thesis by (auto simp: gm_slack_def)
qed

text \<open>Concrete components: nodes without ports that always succeed, and dynamic edges.\<close>

definition unit_hooks :: "unit port_hooks" where
  "unit_hooks = \<lparr>ph_InitPorts = (\<lambda>p. (True, p)), ph_StartPorts = (\<lambda>p. (True, p)),
     ph_StopPorts = id, ph_JoinPorts = id, ph_JoinWithTimeoutPorts = (\<lambda>b p. ((True, 0), p))\<rparr>"

definition sample_manager :: "(unit lifecycle_node, nat dynamic_edge, nat) graph_manager" where
  "sample_manager = snd (GraphManager_AddNode (Some (NodeLifecycle ())) []
     (snd (GraphManager_AddNode (Some (NodeLifecycle ())) ''runtime-node-1''
       (GraphManager 2 default_deadlock_config))))"

theorem node_ids_unique_and_vectors_aligned_witness:
  "length (gm_nodes sample_manager) = 2 \<and> distinct (gm_canonical_node_ids sample_manager)"
proof -
  let ?nops = "lifecycle_node_ops unit_hooks" and ?eops = "dynamic_edge_ops (\<lambda>_. None)"
  let ?g0 = "GraphManager 2 default_deadlock_config ::
    (unit lifecycle_node, nat dynamic_edge, nat) graph_manager"
  let ?g1 = "snd (GraphManager_AddNode (Some (NodeLifecycle ())) ''runtime-node-1'' ?g0)"
  have "gm_step False ?nops ?eops ?g0 ?g1" by (rule add_node) (rule surjective_pairing)
  moreover have "gm_step False ?nops ?eops ?g1 sample_manager"
    unfolding sample_manager_def by (rule add_node) (rule surjective_pairing)
  ultimately have "(gm_step False ?nops ?eops)\<^sup>*\<^sup>* ?g0 sample_manager" by simp
  from node_ids_unique_and_vectors_aligned [OF this] show ?thesis
    by (auto simp: sample_manager_def GraphManager_AddNode_def GraphManager_def)
qed

section \<open>Init\<close>

lemma call_cases: "c = Returns True \<or> c = Returns False \<or> (\<exists>w. c = Throws w)"
  by (cases c) auto

lemma Init_components_outcome:
  assumes "Init_components nops eops ns mss g reg h = (r, g', reg', h')"
  shows "(has_value r \<longleftrightarrow> (\<forall>n \<in> set (gm_nodes g). fst (co_Init nops n) = Returns True) \<and>
      (\<forall>e \<in> set (gm_edges g). fst (co_Init eops e) = Returns True)) \<and>
    gm_initialized g' = (gm_initialized g \<or> has_value r) \<and> gm_thread_pool g' = gm_thread_pool g"
proof -
  obtain rn ns' where n: "try_each (co_Init nops) (gm_nodes g) = (rn, ns')" by fastforce
  obtain re es' where e: "try_each (co_Init eops) (gm_edges g) = (re, es')" by fastforce
  have "rn = Returns True \<longleftrightarrow> (\<forall>n \<in> set (gm_nodes g). fst (co_Init nops n) = Returns True)"
    using try_each_True [of "co_Init nops" "gm_nodes g"] n by simp
  moreover have "re = Returns True \<longleftrightarrow> (\<forall>e \<in> set (gm_edges g). fst (co_Init eops e) = Returns True)"
    using try_each_True [of "co_Init eops" "gm_edges g"] e by simp
  ultimately show ?thesis
    using assms n e call_cases [of rn] call_cases [of re]
    by (auto simp: Init_components_def split: prod.splits)
qed

text \<open>
  \<open>Init\<close> succeeds exactly when every node and every edge initialises: on a graph not yet
  initialised, the call reports success if and only if each node's and each edge's \<open>Init\<close>
  returned true without throwing; the graph is locked exactly in that case; and the thread
  pool exists afterwards either way.
\<close>

theorem Init_succeeds_iff:
  assumes "\<not> gm_initialized g"
    and "GraphManager_InitExpected nops eops hw ns mss g reg h = (r, g', reg', h')"
  shows "(has_value r \<longleftrightarrow> (\<forall>n \<in> set (gm_nodes g). fst (co_Init nops n) = Returns True) \<and>
      (\<forall>e \<in> set (gm_edges g). fst (co_Init eops e) = Returns True)) \<and>
    gm_initialized g' = has_value r \<and> gm_thread_pool g' \<noteq> None"
proof -
  let ?g1 = "case gm_thread_pool g of
      None \<Rightarrow> g\<lparr>gm_thread_pool := Some (make_thread_pool hw g)\<rparr> | Some _ \<Rightarrow> g"
  have c: "Init_components nops eops ns mss ?g1 reg h = (r, g', reg', h')"
    using assms by (simp add: GraphManager_InitExpected_def ThreadPool_Init_def Let_def)
  show ?thesis
    using Init_components_outcome [OF c] assms(1) by (cases "gm_thread_pool g") auto
qed

theorem Init_succeeds_iff_witness:
  "has_value (fst (GraphManager_InitExpected (lifecycle_node_ops unit_hooks)
     (dynamic_edge_ops (\<lambda>_. None)) 4 0 [] sample_manager Map.empty Map.empty))"
proof -
  let ?r = "GraphManager_InitExpected (lifecycle_node_ops unit_hooks) (dynamic_edge_ops (\<lambda>_. None))
     4 0 [] sample_manager Map.empty Map.empty"
  obtain r g' reg' h' where e: "?r = (r, g', reg', h')" by (metis prod_cases4)
  have s: "gm_nodes sample_manager = [NodeLifecycle (), NodeLifecycle ()]" "gm_edges sample_manager = []"
    "\<not> gm_initialized sample_manager"
    by (simp_all add: sample_manager_def GraphManager_AddNode_def GraphManager_def)
  from Init_succeeds_iff [OF s(3) e] show ?thesis
    using e s by (simp add: lifecycle_node_ops_def InitImpl_def unit_hooks_def)
qed

section \<open>Start\<close>

text \<open>
  A start that fails half-way cannot be repeated. When \<open>StartExpected\<close> has started the
  thread pool but some node or edge does not start, the pool is left running and the next
  \<open>StartExpected\<close> fails at the pool, whatever the nodes would do.
\<close>

theorem failed_start_is_not_retryable:
  assumes "gm_initialized g" and "\<not> gm_started g" and "gm_thread_pool g = Some pool"
    and "fst (ThreadPool_StartExpected AllSpawned True pool) = Inr ()"
    and "GraphManager_StartExpected nops eops AllSpawned True now ns g = (Inl failure, g')"
  shows "gf_code (projl (fst (GraphManager_StartExpected nops' eops' workers ok now' ns' g'))) =
      GE_GraphManagerFailed \<and>
    \<not> has_value (fst (GraphManager_StartExpected nops' eops' workers ok now' ns' g'))"
proof -
  obtain pool' where p: "ThreadPool_StartExpected AllSpawned True pool = (Inr (), pool')"
    using assms(4) by (cases "ThreadPool_StartExpected AllSpawned True pool") auto
  have run: "tp_running pool'"
    using p by (auto simp: ThreadPool_StartExpected_def spawn_workers_def Let_def split: if_splits)
  have "Start_components nops eops now ns (g\<lparr>gm_thread_pool := Some pool'\<rparr>) = (Inl failure, g')"
    using assms p by (simp add: GraphManager_StartExpected_def)
  then have "gm_thread_pool g' = Some pool' \<and> gm_initialized g' \<and> \<not> gm_started g'"
    using assms(1,2)
    by (auto simp: Start_components_def split: prod.splits call.splits bool.splits)
  with run show ?thesis
    by (simp add: GraphManager_StartExpected_def ThreadPool_StartExpected_def)
qed

theorem failed_start_is_not_retryable_witness:
  "\<exists>g' f. GraphManager_StartExpected (lifecycle_node_ops (unit_hooks\<lparr>ph_StartPorts := \<lambda>p. (False, p)\<rparr>))
      (dynamic_edge_ops (\<lambda>_. None)) AllSpawned True 5 0
      (sample_manager\<lparr>gm_initialized := True,
         gm_thread_pool := Some (ThreadPool 1 1 default_deadlock_config)\<rparr>) = (Inl f, g') \<and>
     \<not> has_value (fst (GraphManager_StartExpected (lifecycle_node_ops unit_hooks)
        (dynamic_edge_ops (\<lambda>_. None)) AllSpawned True 9 0 g'))"
proof -
  let ?nops = "lifecycle_node_ops (unit_hooks\<lparr>ph_StartPorts := \<lambda>p. (False, p)\<rparr>)"
  let ?g = "sample_manager\<lparr>gm_initialized := True,
         gm_thread_pool := Some (ThreadPool 1 1 default_deadlock_config)\<rparr>"
  let ?s = "GraphManager_StartExpected ?nops (dynamic_edge_ops (\<lambda>_. None)) AllSpawned True 5 0 ?g"
  have n: "gm_nodes sample_manager = [NodeLifecycle (), NodeLifecycle ()]" "\<not> gm_started sample_manager"
    by (simp_all add: sample_manager_def GraphManager_AddNode_def GraphManager_def)
  obtain f g' where s: "?s = (Inl f, g')"
    using n by (simp add: GraphManager_StartExpected_def ThreadPool_StartExpected_def ThreadPool_def
        Start_components_def lifecycle_node_ops_def StartImpl_def NodeLifecycle_def unit_hooks_def
        default_deadlock_config_def Let_def)
  have "fst (ThreadPool_StartExpected AllSpawned True (ThreadPool 1 1 default_deadlock_config)) = Inr ()"
    by (simp add: ThreadPool_StartExpected_def ThreadPool_def Let_def)
  from failed_start_is_not_retryable [OF _ _ _ this s] n s show ?thesis by simp
qed

section \<open>Joining in time\<close>

lemma remaining_bounds:
  assumes "0 \<le> timeout" "0 \<le> t" "t < timeout"
  shows "0 \<le> edge_remaining timeout t \<and> t + edge_remaining timeout t \<le> timeout"
    "0 \<le> node_remaining timeout t \<and> t + node_remaining timeout t \<le> timeout"
    "0 \<le> pool_remaining timeout t \<and> t + pool_remaining timeout t \<le> timeout"
  using assms by (auto simp: edge_remaining_def node_remaining_def pool_remaining_def Let_def)

context timed_join
begin

lemma join_each_in_time:
  assumes "\<And>t. 0 \<le> t \<Longrightarrow> t < timeout \<Longrightarrow> 0 \<le> remaining t \<and> t + remaining t \<le> timeout"
    and "0 \<le> elapsed" "elapsed \<le> timeout"
    and "join_each remaining timeout join elapsed cs = (r, t, cs')"
  shows "0 \<le> t \<and> t \<le> timeout"
  using assms(2-)
proof (induction cs arbitrary: elapsed r t cs')
  case Nil
  then show ?case by simp
next
  case (Cons c cs)
  show ?case
  proof (cases "timeout \<le> elapsed")
    case True
    then show ?thesis using Cons.prems by simp
  next
    case False
    obtain ok d c' where j: "join (remaining elapsed) c = ((ok, d), c')" by (metis surj_pair)
    have b: "0 \<le> remaining elapsed \<and> elapsed + remaining elapsed \<le> timeout"
      using assms(1) Cons.prems False by simp
    have d: "0 \<le> d \<and> d \<le> remaining elapsed"
      using join_in_time [of "remaining elapsed" c] b j by simp
    show ?thesis
    proof (cases ok)
      case True
      obtain r1 t1 cs1 where "join_each remaining timeout join (elapsed + d) cs = (r1, t1, cs1)"
        by (metis prod_cases3)
      with Cons.IH [OF _ _ this] Cons.prems False True j b d show ?thesis by simp
    next
      case False
      then show ?thesis using Cons.prems j b d \<open>\<not> timeout \<le> elapsed\<close> by simp
    qed
  qed
qed

end

text \<open>
  \<open>JoinWithTimeout\<close> keeps to its timeout. If every node and every edge returns from its
  timed join within the time it is given (dynamic edges and the thread pool do), the joins of
  the whole graph take at most the timeout, for every graph and every timeout: the budgets
  handed out, including what earlier components left over, never add up to more.
\<close>

theorem JoinWithTimeout_in_time:
  assumes "0 \<le> timeout" and "timed_join (co_JoinWithTimeout nops)"
    and "timed_join (co_JoinWithTimeout eops)"
    and "GraphManager_join_all nops eops (ThreadPool_JoinWithTimeout settle) timeout g = (ok, t, g')"
  shows "0 \<le> t \<and> t \<le> timeout"
proof -
  obtain r1 t1 es where e:
    "join_each (edge_remaining timeout) timeout (co_JoinWithTimeout eops) 0 (gm_edges g) = (r1, t1, es)"
    by (metis prod_cases3)
  have t1: "0 \<le> t1 \<and> t1 \<le> timeout"
    by (rule timed_join.join_each_in_time [OF assms(3) remaining_bounds(1) _ _ e])
       (use assms(1) in simp_all)
  obtain r2 t2 ns where n:
    "join_each (node_remaining timeout) timeout (co_JoinWithTimeout nops) t1 (gm_nodes g) = (r2, t2, ns)"
    by (metis prod_cases3)
  have t2: "0 \<le> t2 \<and> t2 \<le> timeout"
    by (rule timed_join.join_each_in_time [OF assms(2) remaining_bounds(2) _ _ n])
       (use assms(1) t1 in simp_all)
  have t3: "0 \<le> t3 \<and> t3 \<le> timeout"
    if "join_each (pool_remaining timeout) timeout (ThreadPool_JoinWithTimeout settle) t2 [pool] =
      (r3, t3, ps)" for r3 t3 ps pool
    by (rule pool_join.join_each_in_time [OF remaining_bounds(3) _ _ that])
       (use assms(1) t2 in simp_all)
  show ?thesis
    using assms(4) e n t1 t2 t3
    by (auto simp: GraphManager_join_all_def Let_def simp del: join_each.simps
        split: bool.splits option.splits prod.splits)
qed

theorem JoinWithTimeout_in_time_witness:
  "case GraphManager_join_all (lifecycle_node_ops unit_hooks) (dynamic_edge_ops (\<lambda>_. None))
      (ThreadPool_JoinWithTimeout (\<lambda>_. None)) 100
      (sample_manager\<lparr>gm_edges := [sample_edge\<lparr>de_joinable := True\<rparr>]\<rparr>) of
     (ok, t, _) \<Rightarrow> \<not> ok \<and> t \<le> 100"
proof -
  let ?j = "GraphManager_join_all (lifecycle_node_ops unit_hooks) (dynamic_edge_ops (\<lambda>_. None))
      (ThreadPool_JoinWithTimeout (\<lambda>_. None)) 100
      (sample_manager\<lparr>gm_edges := [sample_edge\<lparr>de_joinable := True\<rparr>]\<rparr>)"
  obtain ok t g' where j: "?j = (ok, t, g')" by (metis prod_cases3)
  have "\<not> ok"
    using j by (auto simp: GraphManager_join_all_def dynamic_edge_ops_def edge_remaining_def
        DynamicEdge_JoinWithTimeout_def)
  moreover have "timed_join (co_JoinWithTimeout (lifecycle_node_ops unit_hooks))"
    by unfold_locales (simp add: lifecycle_node_ops_def JoinWithTimeoutImpl_def unit_hooks_def)
  moreover have "timed_join (co_JoinWithTimeout (dynamic_edge_ops (\<lambda>_. None) :: nat dynamic_edge component_ops))"
    using edge_join.timed_join_axioms by (simp add: dynamic_edge_ops_def)
  ultimately show ?thesis using JoinWithTimeout_in_time [OF _ _ _ j] j by simp
qed

section \<open>Stopping\<close>



text \<open>
  The comment of \<open>Stop\<close> promises that exceptions are caught so that cleanup continues. They are not:
  when the \<open>Stop\<close> of the first edge throws, no other edge and no node is stopped.
\<close>

lemma throwing_stop_leaves_the_rest_running:
  assumes "gm_edges g = e # es" and "co_Stop eops e = (Throws w, e')"
  shows "\<exists>g'. GraphManager_Stop nops eops now g = Some (Throws w, g') \<and> gm_edges g' = e' # es \<and>
    gm_nodes g' = gm_nodes g \<and> gm_thread_pool g' = gm_thread_pool g"
  using assms by (auto simp: GraphManager_Stop_def Let_def)

section \<open>Metrics and Clear\<close>

text \<open>
  The aggregated metrics are exact or saturated, and say which. Each total reported by
  \<open>GetMetrics\<close> is the sum over all edges, cut off at the largest \<open>uint64_t\<close>; the overflow flag is
  set exactly when one of these sums, or the sum of the three thread-time totals, exceeds it.
\<close>

theorem GetMetrics_saturates:
  fixes g :: "('n, 'e, 't) graph_manager" and now_ns :: u64 and tm :: "'e \<Rightarrow> thread_metrics"
  shows "let m = gm_metrics (GraphManager_GetMetrics tm now_ns g);
     es = gm_edge_metrics g; ts = map tm (gm_edges g);
     thread_time = (\<Sum>f \<leftarrow> take 3 thread_fields. min u64_max (column_sum f ts))
   in unat (gx_graph_total_enqueued m) = min u64_max (column_sum em_messages_enqueued es) \<and>
      unat (gx_graph_total_dequeued m) = min u64_max (column_sum em_messages_dequeued es) \<and>
      unat (gx_total_items_rejected m) = min u64_max (column_sum em_messages_rejected es) \<and>
      unat (gx_total_queue_time_ns m) = min u64_max (column_sum em_total_queue_time_ns es) \<and>
      unat (gx_backpressure_events m) = min u64_max (column_sum em_backpressure_events es) \<and>
      unat (gx_total_process_time_ns m) = min u64_max (column_sum tm_total_transfer_time_ns ts) \<and>
      unat (gx_total_thread_time_ns m) = min u64_max thread_time \<and>
      (gx_aggregation_overflow m \<longleftrightarrow>
         (\<exists>f \<in> set edge_fields. u64_max < column_sum f es) \<or>
         (\<exists>f \<in> set thread_fields. u64_max < column_sum f ts) \<or> u64_max < thread_time)"
proof -
  let ?es = "gm_edge_metrics g" and ?ts = "map tm (gm_edges g)"
  obtain a ov1 where a: "add_rows (rows edge_fields ?es) [0, 0, 0, 0, 0] False = (a, ov1)"
    by fastforce
  obtain b ov2 where b: "add_rows (rows thread_fields ?ts) [0, 0, 0, 0] ov1 = (b, ov2)" by fastforce
  obtain c ov3 where c: "add_rows [[b ! 0], [b ! 1], [b ! 2]] [0] ov2 = (c, ov3)" by fastforce
  have A: "list_all2 represents a (map (\<lambda>f. column_sum f ?es) edge_fields) \<and>
      (ov1 \<longleftrightarrow> (\<exists>f \<in> set edge_fields. u64_max < column_sum f ?es))"
    using add_rows_from_zero [of edge_fields ?es False a ov1] a
    by (simp add: edge_fields_def numeral_eq_Suc)
  have B: "list_all2 represents b (map (\<lambda>f. column_sum f ?ts) thread_fields) \<and>
      (ov2 \<longleftrightarrow> ov1 \<or> (\<exists>f \<in> set thread_fields. u64_max < column_sum f ?ts))"
    using add_rows_from_zero [of thread_fields ?ts ov1 b ov2] b
    by (simp add: thread_fields_def numeral_eq_Suc)
  have "rows [\<lambda>x. x] [b ! 0, b ! 1, b ! 2] = [[b ! 0], [b ! 1], [b ! 2]]"
    by (simp add: rows_def)
  then have C: "list_all2 represents c [column_sum (\<lambda>x. x) [b ! 0, b ! 1, b ! 2]] \<and>
      (ov3 \<longleftrightarrow> ov2 \<or> u64_max < column_sum (\<lambda>x. x) [b ! 0, b ! 1, b ! 2])"
    using add_rows_from_zero [of "[\<lambda>x. x]" "[b ! 0, b ! 1, b ! 2]" ov2 c ov3] c by simp
  have bi: "unat (b ! i) = min u64_max (column_sum (thread_fields ! i) ?ts)" if "i < 4" for i
    using represents_nth [OF conjunct1 [OF B], of i] that by simp
  have bs: "unat (b ! 0) = min u64_max (column_sum tm_total_transfer_time_ns ?ts)"
    "unat (b ! Suc 0) = min u64_max (column_sum tm_total_idle_time_ns ?ts)"
    "unat (b ! 2) = min u64_max (column_sum tm_total_queue_wait_ns ?ts)"
    using bi [of 0] bi [of "Suc 0"] bi [of 2] by (simp_all add: thread_fields_def)
  have tt: "column_sum (\<lambda>x. x) [b ! 0, b ! 1, b ! 2] =
      (\<Sum>f \<leftarrow> take 3 thread_fields. min u64_max (column_sum f ?ts))"
    by (simp add: column_sum_def [of "\<lambda>x. x"] bs thread_fields_def)
  have as: "unat (a ! i) = min u64_max (column_sum (edge_fields ! i) ?es)" if "i < 5" for i
    using represents_nth [OF conjunct1 [OF A], of i] that by simp
  have cs: "unat (c ! 0) = min u64_max (column_sum (\<lambda>x. x) [b ! 0, b ! 1, b ! 2])"
    using C by (simp add: list_all2_Cons2 represents_def) (metis nth_Cons_0)
  let ?m = "gm_metrics (GraphManager_GetMetrics tm now_ns g)"
  have m: "gx_graph_total_enqueued ?m = a ! 0 \<and> gx_graph_total_dequeued ?m = a ! 1 \<and>
      gx_total_items_rejected ?m = a ! 2 \<and> gx_total_queue_time_ns ?m = a ! 3 \<and>
      gx_backpressure_events ?m = a ! 4 \<and> gx_total_process_time_ns ?m = b ! 0 \<and>
      gx_total_thread_time_ns ?m = c ! 0 \<and> gx_aggregation_overflow ?m = ov3"
    by (cases "gm_execution_start_ns g = 0")
       (simp_all add: GraphManager_GetMetrics_def Let_def a b c [unfolded One_nat_def] del: add_rows.simps)
  show ?thesis
    using m as [of 0] as [of 1] as [of 2] as [of 3] as [of 4] bs(1) cs A B C
    by (simp add: Let_def tt [unfolded One_nat_def] edge_fields_def)
qed

theorem GetMetrics_saturates_witness:
  "unat (gx_graph_total_enqueued (gm_metrics (GraphManager_GetMetrics de_thread_metrics 0
      (sample_manager\<lparr>gm_edge_metrics := [zero_edge_metrics\<lparr>em_messages_enqueued := - 1\<rparr>,
         zero_edge_metrics\<lparr>em_messages_enqueued := 5\<rparr>]\<rparr>)))) = u64_max"
  using GetMetrics_saturates [of de_thread_metrics 0
      "sample_manager\<lparr>gm_edge_metrics := [zero_edge_metrics\<lparr>em_messages_enqueued := - 1\<rparr>,
         zero_edge_metrics\<lparr>em_messages_enqueued := 5\<rparr>]\<rparr>"]
  by (simp add: Let_def column_sum_def unat_max)

text \<open>
  \<open>Clear\<close> leaves stale edge metadata behind. It empties the edge list but neither
  \<open>edge_metadata_\<close> nor \<open>edge_metrics_\<close>: after clearing a well-formed graph that had an edge,
  the metadata of the old edge 0 is still reported for an edge that no longer exists, and for
  the first edge added to the cleared graph.
\<close>

theorem Clear_keeps_stale_metadata:
  assumes "gm_ok g" and "gm_edges g \<noteq> []"
    and "GraphManager_AddEdge e is_src sp is_dst dp ty dm (GraphManager_Clear g) = (r, g')"
  shows "GraphManager_GetEdgeMetadata 0 (GraphManager_Clear g) = Some (hd (gm_edge_metadata g)) \<and>
    gm_edges g' = [e] \<and> GraphManager_GetEdgeMetadata 0 g' = Some (hd (gm_edge_metadata g)) \<and>
    \<not> gm_ok g'"
proof -
  have "gm_edge_metadata g \<noteq> []" using assms(1,2) by (auto simp: gm_ok_def)
  then show ?thesis
    using assms(3)
    by (auto simp: GraphManager_GetEdgeMetadata_def GraphManager_Clear_def GraphManager_AddEdge_def
        append_edge_def gm_ok_def hd_conv_nth nth_append)
qed

theorem Clear_keeps_stale_metadata_witness:
  "let g = snd (GraphManager_AddEdge sample_edge (\<lambda>_. True) 0 (\<lambda>_. False) 0 ''int'' None sample_manager)
   in gm_edges (GraphManager_Clear g) = [] \<and> GraphManager_GetEdgeMetadata 0 (GraphManager_Clear g) \<noteq> None"
proof -
  let ?g = "snd (GraphManager_AddEdge sample_edge (\<lambda>_. True) 0 (\<lambda>_. False) 0 ''int'' None sample_manager)"
  have s: "gm_ok sample_manager"
    using fresh_runtime_id_fresh [of 1 "[''runtime-node-1'']" 0] fresh_runtime_id_nonempty [of 1 "[''runtime-node-1'']" 0]
    by (auto simp: sample_manager_def GraphManager_AddNode_def GraphManager_def gm_ok_def)
  have "gm_ok ?g" "gm_edges ?g \<noteq> []"
    using s by (simp_all add: GraphManager_AddEdge_def append_edge_def gm_ok_def sample_manager_def
        GraphManager_AddNode_def GraphManager_def)
  from Clear_keeps_stale_metadata [OF this surjective_pairing, of sample_edge "\<lambda>_. True" 0 "\<lambda>_. True" 0 "[]" None]
  show ?thesis by (simp add: Let_def GraphManager_Clear_def)
qed

end
