(* ===== verification/Graph_Executor.thy ===== *)
theory Graph_Executor
  imports Policy_Chain Graph_Manager
begin

text \<open>
  \<open>graph::GraphExecutor\<close> (\<open>libgraph/src/graph/GraphExecutor.cpp\<close>,
  \<open>libgraph/include/graph/GraphExecutor.hpp\<close>): the lifecycle state machine that configures, builds,
  initialises, starts, runs, stops and joins a graph, with a policy hook at every stage.

  The graph manager is reached through a table of its operations; \<open>graph_manager_ops\<close> at the end
  is the table of the modelled \<open>GraphManager\<close>. Parsing and validating a document and building a
  graph from it are functions of the environment. An operation has the outcome \<open>None\<close> when it
  never returns (a join of a thread that does not end, a run nobody stops) or calls through a
  null manager. One thread controls the executor; while \<open>Run\<close> waits, another one may raise the
  stop flag (\<open>ev_external_stop\<close>).
\<close>

section \<open>Data\<close>

datatype execution_state = ES_CONFIGURED | ES_INITIALIZED | ES_PAUSED | ES_RUNNING | ES_STEPPING
  | ES_STOPPING | ES_STOPPED | ES_ERROR | ES_ANY

record initialization_result =
  ir_success :: bool
  ir_message :: string
  ir_nodes_initialized :: u32
  ir_nodes_failed :: u32
  ir_elapsed_time_ms :: u32
  ir_error_details :: string

record execution_result =
  er_success :: bool
  er_message :: string
  er_current_state :: execution_state
  er_elapsed_time_ms :: u32
  er_init_elapsed_time_ms :: u32
  er_start_elapsed_time_ms :: u32
  er_run_elapsed_time_ms :: u32
  er_stop_elapsed_time_ms :: u32
  er_join_elapsed_time_ms :: u32
  er_error_details :: string

definition ExecutionResult :: execution_result where
  "ExecutionResult = \<lparr>er_success = False, er_message = [], er_current_state = ES_ERROR,
     er_elapsed_time_ms = 0, er_init_elapsed_time_ms = 0, er_start_elapsed_time_ms = 0,
     er_run_elapsed_time_ms = 0, er_stop_elapsed_time_ms = 0, er_join_elapsed_time_ms = 0,
     er_error_details = []\<rparr>"

record 'd configuration_snapshot =
  sn_document :: 'd
  sn_revision :: u64

record 'g manager_ops =
  mo_Init :: "'g \<Rightarrow> unit graph_result \<times> 'g"
  mo_Start :: "'g \<Rightarrow> unit graph_result \<times> 'g"
  mo_Stop :: "'g \<Rightarrow> (unit call \<times> 'g) option"
  mo_Join :: "'g \<Rightarrow> (unit call \<times> 'g) option"
  mo_node_states :: "'g \<Rightarrow> lifecycle_state list"

record 'g build_result =
  br_success :: bool
  br_graph :: "'g option"
  br_error_message :: string
  br_node_names :: "string list"
  br_edge_descriptions :: "string list"

text \<open>
  \<open>ev_validation\<close>: \<open>ParseSafe\<close> and \<open>Validate\<close> of a document, \<open>None\<close> when it does not parse, else
  whether it is valid and the errors found. \<open>ev_provider\<close>: whether the plugin directories could be loaded. \<open>ev_elapsed\<close>: the
  duration of an operation.
\<close>

record ('p, 'g, 'd) exec_env =
  ev_policy :: "('p, ('g, 'd) graph_capability) policy_ops"
  ev_manager :: "'g manager_ops"
  ev_validation :: "'d \<Rightarrow> (bool \<times> string list) option"
  ev_provider :: "string list \<Rightarrow> bool call"
  ev_build :: "('g, 'd) graph_capability \<Rightarrow> 'g build_result call"
  ev_external_stop :: bool
  ev_elapsed :: "string \<Rightarrow> u32"

record ('p, 'g, 'd) graph_executor =
  ex_policy_chain :: "'p chain_link list"
  ex_graph_capability :: "('g, 'd) graph_capability"
  ex_current_state :: execution_state
  ex_configured_snapshot :: "'d configuration_snapshot option"
  ex_active_revision :: "u64 option"
  ex_plugin_directories :: "string list"
  ex_coordinator_revision :: u64
  ex_graph_generation :: u64
  ex_joined :: bool
  ex_execution_attempt :: u64
  ex_startup_complete_attempt :: u64
  ex_stop_sequence_count :: u64

text \<open>The constructor; a null capability is refused.\<close>

definition GraphExecutor ::
    "'p chain_link list \<Rightarrow> ('g, 'd) graph_capability option \<Rightarrow>
     (('p, 'g, 'd) graph_executor, string) expected" where
  "GraphExecutor chain capability =
     (case capability of
        None \<Rightarrow> Inl ''GraphExecutor requires a valid GraphCapability''
      | Some c \<Rightarrow> Inr \<lparr>ex_policy_chain = chain, ex_graph_capability = c,
          ex_current_state = ES_CONFIGURED, ex_configured_snapshot = None, ex_active_revision = None,
          ex_plugin_directories = [], ex_coordinator_revision = 0,
          ex_graph_generation = (if gc_graph_manager c \<noteq> None then 1 else 0), ex_joined = False,
          ex_execution_attempt = 0, ex_startup_complete_attempt = 0, ex_stop_sequence_count = 0\<rparr>)"

abbreviation manager_of :: "('p, 'g, 'd) graph_executor \<Rightarrow> 'g option" where
  "manager_of x \<equiv> gc_graph_manager (ex_graph_capability x)"

abbreviation set_state :: "execution_state \<Rightarrow> ('p, 'g, 'd) graph_executor \<Rightarrow> ('p, 'g, 'd) graph_executor" where
  "set_state s x \<equiv> x\<lparr>ex_current_state := s\<rparr>"

definition on_capability ::
    "(('g, 'd) graph_capability \<Rightarrow> ('g, 'd) graph_capability) \<Rightarrow> ('p, 'g, 'd) graph_executor \<Rightarrow>
     ('p, 'g, 'd) graph_executor" where
  "on_capability f x = x\<lparr>ex_graph_capability := f (ex_graph_capability x)\<rparr>"

section \<open>Calls to the chain and to the graph manager\<close>

definition chain_call ::
    "('p chain_link list \<Rightarrow> ('g, 'd) graph_capability \<Rightarrow>
        'r call \<times> 'p chain_link list \<times> ('g, 'd) graph_capability) \<Rightarrow>
     ('p, 'g, 'd) graph_executor \<Rightarrow> 'r call \<times> ('p, 'g, 'd) graph_executor" where
  "chain_call f x =
     (case f (ex_policy_chain x) (ex_graph_capability x) of
        (r, ls, c) \<Rightarrow> (r, x\<lparr>ex_policy_chain := ls, ex_graph_capability := c\<rparr>))"

definition manager_call ::
    "('g \<Rightarrow> (unit call \<times> 'g) option) \<Rightarrow> ('p, 'g, 'd) graph_executor \<Rightarrow>
     (unit call \<times> ('p, 'g, 'd) graph_executor) option" where
  "manager_call f x =
     (case manager_of x of
        None \<Rightarrow> None
      | Some g \<Rightarrow> map_option (\<lambda>(r, g'). (r, on_capability (\<lambda>c. c\<lparr>gc_graph_manager := Some g'\<rparr>) x)) (f g))"

definition manager_result ::
    "('g \<Rightarrow> unit graph_result \<times> 'g) \<Rightarrow> ('p, 'g, 'd) graph_executor \<Rightarrow>
     (unit graph_result \<times> ('p, 'g, 'd) graph_executor) option" where
  "manager_result f x =
     (case manager_of x of
        None \<Rightarrow> None
      | Some g \<Rightarrow> (case f g of
          (r, g') \<Rightarrow> Some (r, on_capability (\<lambda>c. c\<lparr>gc_graph_manager := Some g'\<rparr>) x)))"

text \<open>The next statement of a \<open>try\<close> block.\<close>

definition and_then ::
    "(unit call \<times> 'x) option \<Rightarrow> ('x \<Rightarrow> (unit call \<times> 'x) option) \<Rightarrow> (unit call \<times> 'x) option" where
  "and_then m k = (case m of Some (Returns _, x) \<Rightarrow> k x | _ \<Rightarrow> m)"

definition failure :: "graph_execution_error \<Rightarrow> string \<Rightarrow> 'a graph_result" where
  "failure code message = Inl (MakeGraphExecutionFailure code message)"

text \<open>\<open>CaptureLifecycleFailure\<close>: an exception becomes an \<open>Unknown\<close> failure.\<close>

definition captured_failure :: "string \<Rightarrow> 'a graph_result" where
  "captured_failure operation = failure GE_Unknown (''GraphExecutor::'' @ operation @ ''() threw an exception'')"

section \<open>Configuration\<close>

definition SetPluginDirectories ::
    "string list \<Rightarrow> ('p, 'g, 'd) graph_executor \<Rightarrow> ('p, 'g, 'd) graph_executor" where
  "SetPluginDirectories directories x = x\<lparr>ex_plugin_directories := directories\<rparr>"

definition ObserveCoordinatorRevision ::
    "u64 \<Rightarrow> ('p, 'g, 'd) graph_executor \<Rightarrow> ('p, 'g, 'd) graph_executor" where
  "ObserveCoordinatorRevision revision x = x\<lparr>ex_coordinator_revision := revision\<rparr>"

definition GetConfiguredRevision :: "('p, 'g, 'd) graph_executor \<Rightarrow> u64 option" where
  "GetConfiguredRevision x = map_option sn_revision (ex_configured_snapshot x)"

definition IsConfigurationDirty :: "('p, 'g, 'd) graph_executor \<Rightarrow> bool" where
  "IsConfigurationDirty x =
     (case GetConfiguredRevision x of
        None \<Rightarrow> False | Some configured \<Rightarrow> ex_coordinator_revision x \<noteq> configured)"

definition PrepareExecutionAttempt ::
    "('p, 'g, 'd) graph_executor \<Rightarrow> u64 \<times> ('p, 'g, 'd) graph_executor" where
  "PrepareExecutionAttempt x =
     (ex_execution_attempt x + 1,
      x\<lparr>ex_execution_attempt := ex_execution_attempt x + 1, ex_startup_complete_attempt := 0\<rparr>)"

definition HasStartedExecution :: "u64 \<Rightarrow> ('p, 'g, 'd) graph_executor \<Rightarrow> bool" where
  "HasStartedExecution attempt x \<longleftrightarrow> attempt \<noteq> 0 \<and> ex_startup_complete_attempt x = attempt"

definition IsRunning :: "('p, 'g, 'd) graph_executor \<Rightarrow> bool" where
  "IsRunning x \<longleftrightarrow> ex_current_state x = ES_RUNNING \<or> ex_current_state x = ES_STEPPING"

definition RequestStop :: "('p, 'g, 'd) graph_executor \<Rightarrow> ('p, 'g, 'd) graph_executor" where
  "RequestStop x = on_capability SetStopped x"

definition rejected :: "string \<Rightarrow> execution_state \<Rightarrow> execution_result" where
  "rejected message s = ExecutionResult\<lparr>er_current_state := s, er_message := message,
     er_error_details := message\<rparr>"

definition ConfigureGraph ::
    "('p, 'g, 'd) exec_env \<Rightarrow> 'd configuration_snapshot \<Rightarrow> ('p, 'g, 'd) graph_executor \<Rightarrow>
     execution_result \<times> ('p, 'g, 'd) graph_executor" where
  "ConfigureGraph env snapshot x =
     (let state = ex_current_state x in
      if state \<noteq> ES_CONFIGURED \<and> \<not> (state = ES_STOPPED \<and> ex_joined x)
      then (rejected ''GraphExecutor::ConfigureGraph() requires CONFIGURED or joined STOPPED state'' state, x)
      else case ev_validation env (sn_document snapshot) of
        None \<Rightarrow> (rejected ''Graph configuration could not be parsed'' state, x)
      | Some (False, errors) \<Rightarrow>
          (rejected (''Graph configuration validation failed'' @
             (case errors of [] \<Rightarrow> [] | e # _ \<Rightarrow> '': '' @ e)) state, x)
      | Some (True, _) \<Rightarrow>
          (ExecutionResult\<lparr>er_success := True, er_current_state := ES_CONFIGURED,
             er_message := ''Graph configuration recorded''\<rparr>,
           x\<lparr>ex_configured_snapshot := Some snapshot, ex_active_revision := None,
             ex_graph_capability := ResetExecutionSignals ((ex_graph_capability x)
               \<lparr>gc_graph_manager := None, gc_node_provider := False, gc_node_names := [],
                gc_edge_descriptions := [], gc_graph_document := Some (sn_document snapshot)\<rparr>),
             ex_coordinator_revision := sn_revision snapshot,
             ex_graph_generation := ex_graph_generation x + 1, ex_joined := False,
             ex_current_state := ES_CONFIGURED\<rparr>))"

text \<open>Clients may install another graph manager.\<close>

definition SetGraphManager :: "'g option \<Rightarrow> ('p, 'g, 'd) graph_executor \<Rightarrow> ('p, 'g, 'd) graph_executor" where
  "SetGraphManager manager x = on_capability (\<lambda>c. c\<lparr>gc_graph_manager := manager\<rparr>) x"

section \<open>Init\<close>

definition detach_graph :: "('g, 'd) graph_capability \<Rightarrow> ('g, 'd) graph_capability" where
  "detach_graph c = ResetExecutionSignals (c\<lparr>gc_graph_manager := None, gc_node_provider := False,
     gc_node_names := [], gc_edge_descriptions := []\<rparr>)"

text \<open>\<open>if (graph_initialization_started && graph_manager_) graph_manager_-> ...\<close>\<close>

definition manager_call_if ::
    "bool \<Rightarrow> ('g \<Rightarrow> (unit call \<times> 'g) option) \<Rightarrow> ('p, 'g, 'd) graph_executor \<Rightarrow>
     (unit call \<times> ('p, 'g, 'd) graph_executor) option" where
  "manager_call_if b f x = (if b \<and> manager_of x \<noteq> None then manager_call f x else Some (Returns (), x))"

definition RollbackInitializationAttempt ::
    "('p, 'g, 'd) exec_env \<Rightarrow> bool \<Rightarrow> ('p, 'g, 'd) graph_executor \<Rightarrow>
     (bool \<times> ('p, 'g, 'd) graph_executor) option" where
  "RollbackInitializationAttempt env graph_initialization_started x =
     (case and_then (and_then (and_then
              (manager_call_if graph_initialization_started (mo_Stop (ev_manager env)) x)
              (Some \<circ> chain_call (Chain_OnInitializationRollbackStop (ev_policy env))))
              (manager_call_if graph_initialization_started (mo_Join (ev_manager env))))
              (Some \<circ> chain_call (Chain_OnInitializationRollbackJoin (ev_policy env))) of
        None \<Rightarrow> None
      | Some (Returns _, y) \<Rightarrow> Some (True, set_state ES_CONFIGURED (on_capability detach_graph y))
      | Some (Throws _, y) \<Rightarrow> Some (False, set_state ES_ERROR y))"

text \<open>Building the graph when there is none yet.\<close>

definition Init_build ::
    "('p, 'g, 'd) exec_env \<Rightarrow> ('p, 'g, 'd) graph_executor \<Rightarrow>
     (unit graph_result call \<times> ('p, 'g, 'd) graph_executor) option" where
  "Init_build env x =
     (if manager_of x \<noteq> None then Some (Returns (Inr ()), x)
      else case ex_configured_snapshot x of
        None \<Rightarrow> Some (Returns (failure GE_ConfigurationInvalid
                  ''GraphExecutor::Init() has no configured graph snapshot''), x)
      | Some snapshot \<Rightarrow>
          (case ev_provider env (ex_plugin_directories x) of
             Throws w \<Rightarrow> Some (Throws w, x)
           | Returns False \<Rightarrow> Some (Returns (failure GE_BuilderFailed
                  ''Failed to bootstrap node provider and load plugins''), x)
           | Returns True \<Rightarrow>
               let x1 = on_capability (\<lambda>c. c\<lparr>gc_node_provider := True,
                          gc_graph_document := Some (sn_document snapshot)\<rparr>) x
               in case ev_build env (ex_graph_capability x1) of
                 Throws w \<Rightarrow> Some (Throws w, x1)
               | Returns built \<Rightarrow>
                   (case (br_success built, br_graph built) of
                      (True, Some g) \<Rightarrow>
                        Some (Returns (Inr ()), on_capability (\<lambda>c. c\<lparr>gc_graph_manager := Some g,
                          gc_node_names := br_node_names built,
                          gc_edge_descriptions := br_edge_descriptions built\<rparr>) x1)
                    | _ \<Rightarrow>
                        map_option (\<lambda>(_, x2). (Returns (failure GE_BuilderFailed
                            (''Graph construction failed: '' @ br_error_message built)), x2))
                          (RollbackInitializationAttempt env False x1))))"

definition CountNodesinLifecycleState ::
    "('p, 'g, 'd) exec_env \<Rightarrow> lifecycle_state \<Rightarrow> ('p, 'g, 'd) graph_executor \<Rightarrow> nat" where
  "CountNodesinLifecycleState env s x =
     (case manager_of x of
        None \<Rightarrow> 0 | Some g \<Rightarrow> length (filter (\<lambda>s'. s' = s) (mo_node_states (ev_manager env) g)))"

text \<open>A failed step of \<open>Init\<close>: roll back, and report a cleanup that failed too.\<close>

definition Init_rollback ::
    "('p, 'g, 'd) exec_env \<Rightarrow> bool \<Rightarrow> graph_execution_failure \<Rightarrow> string \<Rightarrow> ('p, 'g, 'd) graph_executor \<Rightarrow>
     (initialization_result graph_result call \<times> ('p, 'g, 'd) graph_executor) option" where
  "Init_rollback env graph_initialization_started f cleanup_message x =
     (case RollbackInitializationAttempt env graph_initialization_started x of
        None \<Rightarrow> None
      | Some (False, y) \<Rightarrow> Some (Returns (failure GE_Unknown cleanup_message), y)
      | Some (True, y) \<Rightarrow> Some (Returns (Inl f), y))"

definition Init_success ::
    "('p, 'g, 'd) exec_env \<Rightarrow> ('p, 'g, 'd) graph_executor \<Rightarrow>
     initialization_result \<times> ('p, 'g, 'd) graph_executor" where
  "Init_success env x =
     (\<lparr>ir_success = True, ir_message = ''GraphExecutor initialized successfully'',
       ir_nodes_initialized = of_nat (CountNodesinLifecycleState env LS_Initialized x),
       ir_nodes_failed = of_nat (CountNodesinLifecycleState env LS_Invalid x +
                                 CountNodesinLifecycleState env LS_Uninitialized x),
       ir_elapsed_time_ms = ev_elapsed env ''Init'', ir_error_details = []\<rparr>,
      x\<lparr>ex_active_revision := Some (case GetConfiguredRevision x of Some r \<Rightarrow> r | None \<Rightarrow> 0),
        ex_current_state := ES_INITIALIZED\<rparr>)"

text \<open>The body of the \<open>try\<close> block once the attempt has begun.\<close>

definition Init_attempt ::
    "('p, 'g, 'd) exec_env \<Rightarrow> ('p, 'g, 'd) graph_executor \<Rightarrow>
     (initialization_result graph_result call \<times> ('p, 'g, 'd) graph_executor) option" where
  "Init_attempt env x =
     (case Init_build env x of
        None \<Rightarrow> None
      | Some (Throws w, y) \<Rightarrow> Some (Throws w, y)
      | Some (Returns (Inl f), y) \<Rightarrow> Some (Returns (Inl f), y)
      | Some (Returns (Inr _), y) \<Rightarrow>
          (case chain_call (Chain_OnInit (ev_policy env)) y of
             (Throws w, z) \<Rightarrow> Some (Throws w, z)
           | (Returns False, z) \<Rightarrow>
               Init_rollback env False
                 (MakeGraphExecutionFailure GE_PolicyFailed ''ExecutionPolicyChain::OnInit() failed'')
                 ''ExecutionPolicyChain::OnInit() failed and cleanup failed'' z
           | (Returns True, z) \<Rightarrow>
               (case manager_result (mo_Init (ev_manager env)) z of
                  None \<Rightarrow> None
                | Some (Inl f, z') \<Rightarrow>
                    Init_rollback env True f (gf_message f @ ''; initialization cleanup failed'') z'
                | Some (Inr _, z') \<Rightarrow>
                    (case Init_success env z' of (r, z'') \<Rightarrow> Some (Returns (Inr r), z'')))))"

text \<open>
  An exception can only come from the build or from a policy, before the graph's own
  initialisation has begun (\<open>GraphManager::InitExpected\<close> is \<open>noexcept\<close>).
\<close>

definition GraphExecutor_InitExpected ::
    "('p, 'g, 'd) exec_env \<Rightarrow> ('p, 'g, 'd) graph_executor \<Rightarrow>
     (initialization_result graph_result \<times> ('p, 'g, 'd) graph_executor) option" where
  "GraphExecutor_InitExpected env x =
     (if ex_current_state x \<noteq> ES_CONFIGURED
      then Some (failure GE_InvalidState ''GraphExecutor::Init() requires CONFIGURED state'', x)
      else if IsConfigurationDirty x
      then Some (failure GE_InvalidState ''GraphExecutor::Init() rejected dirty configuration'', x)
      else case Init_attempt env x of
        None \<Rightarrow> None
      | Some (Returns r, y) \<Rightarrow> Some (r, y)
      | Some (Throws _, y) \<Rightarrow>
          (case RollbackInitializationAttempt env False y of
             None \<Rightarrow> None
           | Some (False, z) \<Rightarrow>
               Some (failure GE_Unknown ''GraphExecutor::Init() threw and initialization cleanup failed'', z)
           | Some (True, z) \<Rightarrow> Some (captured_failure ''Init'', z)))"

section \<open>Start, Run, Stop, Join, Execute\<close>

definition succeeded :: "('p, 'g, 'd) exec_env \<Rightarrow> string \<Rightarrow> string \<Rightarrow> execution_state \<Rightarrow> execution_result" where
  "succeeded env operation message s = ExecutionResult\<lparr>er_success := True, er_message := message,
     er_current_state := s, er_elapsed_time_ms := ev_elapsed env operation\<rparr>"

definition GraphExecutor_StartExpected ::
    "('p, 'g, 'd) exec_env \<Rightarrow> ('p, 'g, 'd) graph_executor \<Rightarrow>
     (execution_result graph_result \<times> ('p, 'g, 'd) graph_executor) option" where
  "GraphExecutor_StartExpected env x =
     (if ex_current_state x \<noteq> ES_INITIALIZED
      then Some (failure GE_InvalidState ''GraphExecutor::Start() requires INITIALIZED state'', x)
      else if IsConfigurationDirty x
      then Some (failure GE_InvalidState ''GraphExecutor::Start() rejected dirty configuration'', x)
      else case chain_call (Chain_OnStart (ev_policy env)) x of
        (Throws _, y) \<Rightarrow> Some (captured_failure ''Start'', set_state ES_ERROR y)
      | (Returns False, y) \<Rightarrow>
          Some (failure GE_PolicyFailed ''ExecutionPolicyChain::OnStart() failed'', set_state ES_ERROR y)
      | (Returns True, y) \<Rightarrow>
          (case manager_result (mo_Start (ev_manager env)) y of
             None \<Rightarrow> None
           | Some (Inl f, z) \<Rightarrow> Some (Inl f, set_state ES_ERROR z)
           | Some (Inr _, z) \<Rightarrow>
               Some (Inr (succeeded env ''Start'' ''GraphExecutor started successfully'' ES_RUNNING),
                 z\<lparr>ex_current_state := ES_RUNNING,
                   ex_startup_complete_attempt := ex_execution_attempt z\<rparr>)))"

text \<open>
  Without a chain \<open>Run\<close> fails. The polling loop ends when the stop flag is up, raised by a policy
  beforehand or by another thread.
\<close>

definition GraphExecutor_RunExpected ::
    "('p, 'g, 'd) exec_env \<Rightarrow> ('p, 'g, 'd) graph_executor \<Rightarrow>
     (execution_result graph_result \<times> ('p, 'g, 'd) graph_executor) option" where
  "GraphExecutor_RunExpected env x =
     (if ex_current_state x \<noteq> ES_RUNNING
      then Some (failure GE_InvalidState ''GraphExecutor::Run() requires RUNNING state'', x)
      else if IsConfigurationDirty x
      then Some (failure GE_InvalidState ''GraphExecutor::Run() rejected dirty configuration'', x)
      else case (if ex_policy_chain x = [] then (Returns False, x)
                 else chain_call (Chain_OnRun (ev_policy env)) x) of
        (Throws _, y) \<Rightarrow> Some (captured_failure ''Run'', set_state ES_ERROR y)
      | (Returns False, y) \<Rightarrow>
          Some (failure GE_PolicyFailed ''ExecutionPolicyChain::OnRun() failed'', set_state ES_ERROR y)
      | (Returns True, y) \<Rightarrow>
          let z = (if ev_external_stop env then on_capability SetStopped y else y) in
          if gc_is_stopped (ex_graph_capability z)
          then Some (Inr (succeeded env ''Run'' ''GraphExecutor run completed successfully''
                 (ex_current_state z)), z)
          else None)"

definition GraphExecutor_StopExpected ::
    "('p, 'g, 'd) exec_env \<Rightarrow> ('p, 'g, 'd) graph_executor \<Rightarrow>
     (execution_result graph_result \<times> ('p, 'g, 'd) graph_executor) option" where
  "GraphExecutor_StopExpected env x =
     (if ex_current_state x \<noteq> ES_INITIALIZED \<and> ex_current_state x \<noteq> ES_RUNNING
      then Some (failure GE_InvalidState ''GraphExecutor::Stop() requires INITIALIZED or RUNNING state'', x)
      else
        let x1 = on_capability SetStopped (x\<lparr>ex_stop_sequence_count := ex_stop_sequence_count x + 1,
                   ex_current_state := ES_STOPPING\<rparr>)
        in case and_then (manager_call (mo_Stop (ev_manager env)) x1)
                  (Some \<circ> chain_call (Chain_OnStop (ev_policy env))) of
          None \<Rightarrow> None
        | Some (Throws _, y) \<Rightarrow> Some (captured_failure ''Stop'', set_state ES_ERROR y)
        | Some (Returns _, y) \<Rightarrow>
            Some (Inr (succeeded env ''Stop'' ''GraphExecutor stopped successfully'' (ex_current_state y)), y))"

definition GraphExecutor_JoinExpected ::
    "('p, 'g, 'd) exec_env \<Rightarrow> ('p, 'g, 'd) graph_executor \<Rightarrow>
     (execution_result graph_result \<times> ('p, 'g, 'd) graph_executor) option" where
  "GraphExecutor_JoinExpected env x =
     (if ex_current_state x = ES_STOPPED \<and> ex_joined x
      then Some (Inr (ExecutionResult\<lparr>er_success := True, er_message := ''GraphExecutor already joined'',
             er_current_state := ES_STOPPED\<rparr>), x)
      else if ex_current_state x \<noteq> ES_STOPPING
      then Some (failure GE_InvalidState ''GraphExecutor::Join() requires STOPPING state'', x)
      else case and_then (manager_call (mo_Join (ev_manager env)) x)
                  (Some \<circ> chain_call (Chain_OnJoin (ev_policy env))) of
          None \<Rightarrow> None
        | Some (Throws _, y) \<Rightarrow> Some (captured_failure ''Join'', set_state ES_ERROR y)
        | Some (Returns _, y) \<Rightarrow>
            Some (Inr (succeeded env ''Join'' ''GraphExecutor joined successfully'' ES_STOPPED),
              y\<lparr>ex_joined := True, ex_current_state := ES_STOPPED\<rparr>))"

text \<open>\<open>if (!result) return std::unexpected(result.error());\<close>\<close>

definition if_expected ::
    "('a graph_result \<times> 'x) option \<Rightarrow> ('a \<Rightarrow> 'x \<Rightarrow> ('b graph_result \<times> 'x) option) \<Rightarrow>
     ('b graph_result \<times> 'x) option" where
  "if_expected m k =
     (case m of None \<Rightarrow> None | Some (Inl f, x) \<Rightarrow> Some (Inl f, x) | Some (Inr a, x) \<Rightarrow> k a x)"

definition Execute_from_initialized ::
    "('p, 'g, 'd) exec_env \<Rightarrow> u32 \<Rightarrow> ('p, 'g, 'd) graph_executor \<Rightarrow>
     (execution_result graph_result \<times> ('p, 'g, 'd) graph_executor) option" where
  "Execute_from_initialized env init_ms x =
     if_expected (GraphExecutor_StartExpected env x) (\<lambda>start x1.
     if_expected (GraphExecutor_RunExpected env x1) (\<lambda>run x2.
     if_expected (GraphExecutor_StopExpected env x2) (\<lambda>stop x3.
     if_expected (GraphExecutor_JoinExpected env x3) (\<lambda>join x4.
       Some (Inr ((succeeded env ''Execute'' ''Execute completed successfully'' (ex_current_state x4))
         \<lparr>er_init_elapsed_time_ms := init_ms, er_start_elapsed_time_ms := er_elapsed_time_ms start,
          er_run_elapsed_time_ms := er_elapsed_time_ms run,
          er_stop_elapsed_time_ms := er_elapsed_time_ms stop,
          er_join_elapsed_time_ms := er_elapsed_time_ms join\<rparr>), x4)))))"

definition GraphExecutor_ExecuteExpected ::
    "('p, 'g, 'd) exec_env \<Rightarrow> ('p, 'g, 'd) graph_executor \<Rightarrow>
     (execution_result graph_result \<times> ('p, 'g, 'd) graph_executor) option" where
  "GraphExecutor_ExecuteExpected env x =
     (if ex_current_state x = ES_CONFIGURED
      then if_expected (GraphExecutor_InitExpected env x)
             (\<lambda>init. Execute_from_initialized env (ir_elapsed_time_ms init))
      else if ex_current_state x \<noteq> ES_INITIALIZED
      then Some (failure GE_InvalidState
             ''GraphExecutor::Execute() requires CONFIGURED or INITIALIZED state'', x)
      else Execute_from_initialized env 0 x)"

text \<open>The destructor; exceptions are swallowed.\<close>

definition GraphExecutor_Destroy ::
    "('p, 'g, 'd) exec_env \<Rightarrow> ('p, 'g, 'd) graph_executor \<Rightarrow> ('p, 'g, 'd) graph_executor option" where
  "GraphExecutor_Destroy env x =
     (let state = ex_current_state x;
          x1 = (if state = ES_RUNNING then RequestStop x else x)
      in if manager_of x1 = None then Some x1
         else if state = ES_INITIALIZED \<or> state = ES_RUNNING
         then (case GraphExecutor_StopExpected env x1 of
                 None \<Rightarrow> None
               | Some (_, y) \<Rightarrow> map_option snd (GraphExecutor_JoinExpected env y))
         else if state = ES_STOPPING then map_option snd (GraphExecutor_JoinExpected env x1)
         else if state = ES_ERROR
         then map_option snd (and_then (and_then (and_then
                (manager_call (mo_Stop (ev_manager env)) x1)
                (Some \<circ> chain_call (Chain_OnStop (ev_policy env))))
                (manager_call (mo_Join (ev_manager env))))
                (Some \<circ> chain_call (Chain_OnJoin (ev_policy env))))
         else Some x1)"

section \<open>What calls leave alone\<close>

definition same_control :: "('p, 'g, 'd) graph_executor \<Rightarrow> ('p, 'g, 'd) graph_executor \<Rightarrow> bool" where
  "same_control x y \<longleftrightarrow> ex_current_state y = ex_current_state x \<and> ex_joined y = ex_joined x \<and>
     ex_active_revision y = ex_active_revision x \<and>
     ex_configured_snapshot y = ex_configured_snapshot x"

lemma same_control_refl [simp]: "same_control x x"
  by (simp add: same_control_def)

lemma same_control_trans: "same_control x y \<Longrightarrow> same_control y z \<Longrightarrow> same_control x z"
  by (simp add: same_control_def)

lemma same_control_on_capability [simp]: "same_control x (on_capability f y) = same_control x y"
  by (simp add: same_control_def on_capability_def)

lemma on_capability_simps [simp]:
  "ex_policy_chain (on_capability f x) = ex_policy_chain x"
  "ex_graph_capability (on_capability f x) = f (ex_graph_capability x)"
  "ex_current_state (on_capability f x) = ex_current_state x"
  "ex_joined (on_capability f x) = ex_joined x"
  "ex_active_revision (on_capability f x) = ex_active_revision x"
  "ex_configured_snapshot (on_capability f x) = ex_configured_snapshot x"
  "ex_coordinator_revision (on_capability f x) = ex_coordinator_revision x"
  by (simp_all add: on_capability_def)

lemma manager_call_frame:
  "manager_call f x = Some (r, y) \<Longrightarrow>
   same_control x y \<and> ex_policy_chain y = ex_policy_chain x \<and> manager_of y \<noteq> None"
  by (auto simp: manager_call_def split: option.splits)

lemma manager_call_if_frame:
  "manager_call_if b f x = Some (r, y) \<Longrightarrow> same_control x y \<and> ex_policy_chain y = ex_policy_chain x"
  by (auto simp: manager_call_if_def dest: manager_call_frame split: if_splits)

lemma manager_result_frame:
  "manager_result f x = Some (r, y) \<Longrightarrow>
   same_control x y \<and> ex_policy_chain y = ex_policy_chain x \<and> manager_of x \<noteq> None \<and> manager_of y \<noteq> None"
  by (auto simp: manager_result_def split: option.splits prod.splits)

lemma chain_call_frame:
  "chain_call f x = (r, y) \<Longrightarrow> same_control x y \<and>
     f (ex_policy_chain x) (ex_graph_capability x) = (r, ex_policy_chain y, ex_graph_capability y)"
  by (auto simp: chain_call_def same_control_def split: prod.splits)

lemma and_then_cases:
  assumes "and_then m k = Some (r, y)"
  obtains (first) w where "m = Some (r, y)" "r = Throws w"
    | (second) x where "m = Some (Returns (), x)" "k x = Some (r, y)"
  using assms by (cases r) (auto simp: and_then_def split: option.splits call.splits)

section \<open>The invariant\<close>

definition unmarked :: "('p, 'g, 'd) graph_executor \<Rightarrow> bool" where
  "unmarked x \<longleftrightarrow> (\<forall>l \<in> set (ex_policy_chain x). \<not> cl_initialized l)"

definition marked :: "('p, 'g, 'd) graph_executor \<Rightarrow> bool" where
  "marked x \<longleftrightarrow> (\<forall>l \<in> set (ex_policy_chain x). cl_initialized l)"

definition ex_ok :: "('p, 'g, 'd) graph_executor \<Rightarrow> bool" where
  "ex_ok x \<longleftrightarrow>
     ex_current_state x \<in> {ES_CONFIGURED, ES_INITIALIZED, ES_RUNNING, ES_STOPPING, ES_STOPPED, ES_ERROR} \<and>
     (ex_joined x \<longleftrightarrow> ex_current_state x = ES_STOPPED) \<and>
     (ex_current_state x \<in> {ES_CONFIGURED, ES_STOPPED} \<longrightarrow> unmarked x) \<and>
     (ex_current_state x \<in> {ES_INITIALIZED, ES_RUNNING, ES_STOPPING} \<longrightarrow>
        marked x \<and> manager_of x \<noteq> None \<and> ex_active_revision x \<noteq> None)"

lemma marks_eq_marked:
  assumes "marks (ex_policy_chain y) = marks (ex_policy_chain x)"
  shows "marked y = marked x" "unmarked y = unmarked x"
  using marks_transfer [of "ex_policy_chain y" "ex_policy_chain x" "length (ex_policy_chain x)"]
    marks_transfer [of "ex_policy_chain y" "ex_policy_chain x" 0] assms
  by (auto simp: marked_def unmarked_def dest: map_eq_imp_length_eq)

lemma marks_replicate:
  "marks (ex_policy_chain x) = replicate n True \<Longrightarrow> marked x"
  "marks (ex_policy_chain x) = replicate n False \<Longrightarrow> unmarked x"
  unfolding marked_def unmarked_def marked_iff unmarked_iff
  by (metis length_map length_replicate)+

text \<open>A rollback ends configured, unmarked and without a graph, or in the error state.\<close>

lemma Rollback_outcome:
  assumes "RollbackInitializationAttempt env b x = Some (r, y)"
  shows "ex_joined y = ex_joined x \<and> ex_configured_snapshot y = ex_configured_snapshot x \<and>
    (if r then ex_current_state y = ES_CONFIGURED \<and> unmarked y \<and> manager_of y = None
     else ex_current_state y = ES_ERROR)"
proof -
  obtain s z where
    z: "and_then (and_then (and_then
              (manager_call_if b (mo_Stop (ev_manager env)) x)
              (Some \<circ> chain_call (Chain_OnInitializationRollbackStop (ev_policy env))))
              (manager_call_if b (mo_Join (ev_manager env))))
              (Some \<circ> chain_call (Chain_OnInitializationRollbackJoin (ev_policy env))) = Some (s, z)"
    using assms unfolding RollbackInitializationAttempt_def by (auto split: option.splits)
  then have c: "same_control x z"
    by (elim and_then_cases)
       (auto dest!: manager_call_if_frame chain_call_frame intro: same_control_trans)
  have u: "unmarked z" if "s = Returns ()"
    using z that
    by (elim and_then_cases)
       (auto dest!: chain_call_frame RollbackJoin_ok_marks intro: marks_replicate)
  show ?thesis
    using assms z c u unfolding RollbackInitializationAttempt_def
    by (cases s) (auto simp: same_control_def detach_graph_def ResetExecutionSignals_def unmarked_def)
qed

section \<open>The lifecycle as an abstract state machine\<close>

text \<open>The transitions the documentation draws; an operation that fails may end in \<open>ERROR\<close>.\<close>

inductive phase_step :: "execution_state \<Rightarrow> execution_state \<Rightarrow> bool" where
  to_configured: "phase_step ES_STOPPED ES_CONFIGURED"
| to_initialized: "phase_step ES_CONFIGURED ES_INITIALIZED"
| to_running: "phase_step ES_INITIALIZED ES_RUNNING"
| abandon: "phase_step ES_INITIALIZED ES_STOPPING"
| to_stopping: "phase_step ES_RUNNING ES_STOPPING"
| to_stopped: "phase_step ES_STOPPING ES_STOPPED"
| to_error: "s \<in> {ES_CONFIGURED, ES_INITIALIZED, ES_RUNNING, ES_STOPPING} \<Longrightarrow> phase_step s ES_ERROR"

inductive_cases phase_step_from_error: "phase_step ES_ERROR s"

definition advances :: "('p, 'g, 'd) graph_executor \<Rightarrow> ('p, 'g, 'd) graph_executor \<Rightarrow> bool" where
  "advances x y \<longleftrightarrow> ex_ok y \<and>
     (ex_current_state y = ex_current_state x \<or> phase_step (ex_current_state x) (ex_current_state y))"

lemma advances_refl [simp]: "advances x x = ex_ok x"
  by (simp add: advances_def)

lemmas advance_defs = advances_def ex_ok_def phase_step.simps

text \<open>
  What \<open>Init_build\<close> may do: leave the state alone (with a graph exactly on success), or fail through
  a rollback.
\<close>

inductive built ::
    "('p, 'g, 'd) exec_env \<Rightarrow> ('p, 'g, 'd) graph_executor \<Rightarrow> unit graph_result call \<Rightarrow>
     ('p, 'g, 'd) graph_executor \<Rightarrow> bool" for env x where
  built_ok: "same_control x y \<Longrightarrow> ex_policy_chain y = ex_policy_chain x \<Longrightarrow> manager_of y \<noteq> None \<Longrightarrow>
    built env x (Returns (Inr ())) y"
| built_refused: "same_control x y \<Longrightarrow> ex_policy_chain y = ex_policy_chain x \<Longrightarrow> manager_of y = None \<Longrightarrow>
    built env x (Returns (Inl f)) y"
| built_threw: "same_control x y \<Longrightarrow> ex_policy_chain y = ex_policy_chain x \<Longrightarrow>
    built env x (Throws w) y"
| built_rolled_back: "same_control x x1 \<Longrightarrow> ex_policy_chain x1 = ex_policy_chain x \<Longrightarrow>
    map_option snd (RollbackInitializationAttempt env False x1) = Some y \<Longrightarrow> built env x (Returns (Inl f)) y"

lemma built_rolled_back_on_capability:
  "RollbackInitializationAttempt env False (on_capability h x) = Some (b, y) \<Longrightarrow>
   built env x (Returns (Inl f)) y"
  by (rule built_rolled_back [of _ "on_capability h x"]) simp_all

lemma Init_build_outcome:
  assumes "Init_build env x = Some (r, y)"
  shows "built env x r y"
  using assms unfolding Init_build_def failure_def Let_def
  by (auto split: if_splits option.splits call.splits bool.splits prod.splits
      intro: built_ok built_refused built_threw built_rolled_back_on_capability)

lemma same_controlD:
  assumes "same_control x y"
  shows "ex_current_state y = ex_current_state x" "ex_joined y = ex_joined x"
    "ex_active_revision y = ex_active_revision x" "ex_configured_snapshot y = ex_configured_snapshot x"
  using assms by (auto simp: same_control_def)

text \<open>The outcomes of \<open>Init\<close> in the state in which it is allowed.\<close>

lemma Init_rollback_outcome:
  assumes "Init_rollback env b f m x = Some (r, y)"
  shows "map_option snd (RollbackInitializationAttempt env b x) = Some y \<and> (\<exists>g. r = Returns (Inl g))"
proof (cases "RollbackInitializationAttempt env b x")
  case None
  then show ?thesis using assms by (simp add: Init_rollback_def)
next
  case (Some p)
  then show ?thesis
    using assms by (cases p; cases "fst p") (auto simp: Init_rollback_def failure_def)
qed

lemma Init_attempt_outcome:
  assumes "Init_attempt env x = Some (r, y)"
  obtains
    (success) ir where "r = Returns (Inr ir)" "ex_current_state y = ES_INITIALIZED"
      "ex_joined y = ex_joined x" "marked y" "manager_of y \<noteq> None" "ex_active_revision y \<noteq> None"
      "length (ex_policy_chain y) = length (ex_policy_chain x)"
  | (refused) f where "r = Returns (Inl f)" "same_control x y" "ex_policy_chain y = ex_policy_chain x"
      "manager_of y = None"
  | (rolled_back) f b x1 where "r = Returns (Inl f)" "same_control x x1"
      "map_option snd (RollbackInitializationAttempt env b x1) = Some y"
  | (threw) w where "r = Throws w" "same_control x y"
proof -
  obtain r1 x1 where b: "Init_build env x = Some (r1, x1)"
    using assms by (auto simp: Init_attempt_def split: option.splits)
  from Init_build_outcome [OF b] show thesis
  proof cases
    case built_ok
    obtain r2 x2 where c: "chain_call (Chain_OnInit (ev_policy env)) x1 = (r2, x2)"
      by (metis surj_pair)
    note frame = chain_call_frame [OF c] built_ok(2)
    have sc: "same_control x x2" using frame same_control_trans by blast
    consider (T) "r2 = Returns True" | (F) "r2 = Returns False" | (W) w where "r2 = Throws w"
      by (cases r2) auto
    then show thesis
    proof cases
      case T
      obtain r3 x3 where m: "manager_result (mo_Init (ev_manager env)) x2 = Some (r3, x3)"
        using assms b c T built_ok(1) by (auto simp: Init_attempt_def split: option.splits)
      note mf = manager_result_frame [OF m]
      have "marked x2" using frame T by (auto dest: OnInit_ok_marks intro: marks_replicate)
      then have "marked x3" using mf by (simp add: marked_def)
      have len: "length (ex_policy_chain x3) = length (ex_policy_chain x)"
        using frame mf built_ok(3) by (auto dest: length_OnInit)
      have sc3: "same_control x x3" using mf sc same_control_trans by blast
      show thesis
      proof (cases r3)
        case (Inl f)
        then have "Init_rollback env True f (gf_message f @ ''; initialization cleanup failed'') x3 = Some (r, y)"
          using assms b c T built_ok(1) m by (simp add: Init_attempt_def)
        from Init_rollback_outcome [OF this] show thesis using rolled_back [OF _ sc3] by blast
      next
        case (Inr u)
        then have "Some (r, y) = Some (Returns (Inr (fst (Init_success env x3))), snd (Init_success env x3))"
          using assms b c T built_ok(1) m by (simp add: Init_attempt_def split: prod.splits)
        then show thesis
          using \<open>marked x3\<close> len mf same_controlD(2) [OF sc3] success
          by (auto simp: Init_success_def marked_def)
      qed
    next
      case F
      then have "Init_rollback env False
          (MakeGraphExecutionFailure GE_PolicyFailed ''ExecutionPolicyChain::OnInit() failed'')
          ''ExecutionPolicyChain::OnInit() failed and cleanup failed'' x2 = Some (r, y)"
        using assms b c built_ok(1) by (simp add: Init_attempt_def)
      from Init_rollback_outcome [OF this] show thesis using rolled_back [OF _ sc] by blast
    next
      case W
      then show thesis using assms b c built_ok(1) sc threw by (auto simp: Init_attempt_def)
    qed
  next
    case (built_refused f)
    then show thesis using assms b refused by (auto simp: Init_attempt_def)
  next
    case (built_threw w)
    then show thesis using assms b threw by (auto simp: Init_attempt_def)
  next
    case (built_rolled_back x0 f)
    then show thesis using assms b rolled_back by (auto simp: Init_attempt_def)
  qed
qed

lemma rolled_back_outcome:
  assumes "map_option snd (RollbackInitializationAttempt env b x) = Some y"
  shows "ex_joined y = ex_joined x \<and> ex_configured_snapshot y = ex_configured_snapshot x \<and>
    (ex_current_state y = ES_ERROR \<or>
     ex_current_state y = ES_CONFIGURED \<and> unmarked y \<and> manager_of y = None)"
proof -
  obtain ok where "RollbackInitializationAttempt env b x = Some (ok, y)" using assms by auto
  then show ?thesis using Rollback_outcome by (cases ok) fastforce+
qed

lemma Init_outcome:
  assumes "GraphExecutor_InitExpected env x = Some (r, y)"
  obtains (rejected) f where "r = Inl f" "y = x" "gf_code f = GE_InvalidState"
      "ex_current_state x \<noteq> ES_CONFIGURED \<or> IsConfigurationDirty x"
    | (success) ir where "r = Inr ir" "ex_current_state x = ES_CONFIGURED" "\<not> IsConfigurationDirty x"
      "ex_current_state y = ES_INITIALIZED" "ex_joined y = ex_joined x" "marked y"
      "manager_of y \<noteq> None" "ex_active_revision y \<noteq> None"
      "length (ex_policy_chain y) = length (ex_policy_chain x)"
    | (undone) f where "r = Inl f" "ex_current_state x = ES_CONFIGURED" "\<not> IsConfigurationDirty x"
      "ex_current_state y = ES_CONFIGURED" "ex_joined y = ex_joined x" "manager_of y = None"
      "ex_configured_snapshot y = ex_configured_snapshot x"
      "unmarked y \<or> ex_policy_chain y = ex_policy_chain x"
    | (broken) f where "r = Inl f" "ex_current_state x = ES_CONFIGURED" "\<not> IsConfigurationDirty x"
      "ex_current_state y = ES_ERROR" "ex_joined y = ex_joined x"
proof (cases "ex_current_state x = ES_CONFIGURED \<and> \<not> IsConfigurationDirty x")
  case False
  then show thesis using assms rejected
    by (auto simp: GraphExecutor_InitExpected_def failure_def split: if_splits)
next
  case True
  note succeeds = success
  have via_rollback: thesis
    if "r = Inl f" "same_control x x2" "map_option snd (RollbackInitializationAttempt env b x2) = Some y"
    for f b x2
    using rolled_back_outcome [OF that(3)] that(1,2) True undone broken
    by (auto simp: same_control_def)
  obtain r1 x1 where a: "Init_attempt env x = Some (r1, x1)"
    using assms True by (auto simp: GraphExecutor_InitExpected_def split: option.splits)
  from a show thesis
  proof (cases rule: Init_attempt_outcome)
    case (success ir)
    then show thesis using assms True a succeeds by (auto simp: GraphExecutor_InitExpected_def)
  next
    case (refused f)
    then have "y = x1" "r = Inl f" using assms True a by (simp_all add: GraphExecutor_InitExpected_def)
    then show thesis using refused True undone by (auto simp: same_control_def)
  next
    case (rolled_back f b x2)
    then have "y = x1" "r = Inl f" using assms True a by (simp_all add: GraphExecutor_InitExpected_def)
    then show thesis using rolled_back via_rollback by blast
  next
    case (threw w)
    then have "map_option snd (RollbackInitializationAttempt env False x1) = Some y \<and> (\<exists>f. r = Inl f)"
      using assms True a
      by (cases "RollbackInitializationAttempt env False x1"; cases "fst (the (RollbackInitializationAttempt env False x1))")
         (auto simp: GraphExecutor_InitExpected_def captured_failure_def failure_def)
    then show thesis using threw via_rollback by blast
  qed
qed

lemma Init_advances:
  assumes "GraphExecutor_InitExpected env x = Some (r, y)" and ok: "ex_ok x"
  shows "advances x y"
  using assms(1)
proof (cases rule: Init_outcome)
  case (success ir)
  then show ?thesis using ok by (simp add: advance_defs)
next
  case (undone f)
  then have "unmarked y" using ok by (auto simp: ex_ok_def unmarked_def)
  then show ?thesis using undone ok by (simp add: advance_defs)
qed (use ok in \<open>auto simp: advance_defs\<close>)

lemma Start_advances:
  assumes "GraphExecutor_StartExpected env x = Some (r, y)" and ok: "ex_ok x"
  shows "advances x y"
proof (cases "ex_current_state x = ES_INITIALIZED \<and> \<not> IsConfigurationDirty x")
  case False
  then show ?thesis using assms by (auto simp: GraphExecutor_StartExpected_def split: if_splits)
next
  case True
  obtain r1 x1 where c: "chain_call (Chain_OnStart (ev_policy env)) x = (r1, x1)" by (metis surj_pair)
  note f = chain_call_frame [OF c]
  have m1: "marked x1" using f ok True
    by (auto simp: ex_ok_def Chain_OnStart_def dest!: chain_try_marks marks_eq_marked(1))
  consider (T) "r1 = Returns True" | (F) "r1 = Returns False" | (W) w where "r1 = Throws w"
    by (cases r1) auto
  then show ?thesis
  proof cases
    case T
    obtain r2 x2 where m: "manager_result (mo_Start (ev_manager env)) x1 = Some (r2, x2)"
      using assms True c T by (auto simp: GraphExecutor_StartExpected_def split: option.splits)
    show ?thesis
      using assms True c T m f m1 manager_result_frame [OF m]
      by (cases r2) (auto simp: GraphExecutor_StartExpected_def advance_defs same_control_def marked_def)
  qed (use assms True c f in \<open>auto simp: GraphExecutor_StartExpected_def advance_defs same_control_def\<close>)
qed

lemma Run_advances:
  assumes "GraphExecutor_RunExpected env x = Some (r, y)" and ok: "ex_ok x"
    and st: "stable_policies (ev_policy env)"
  shows "advances x y"
proof (cases "ex_current_state x = ES_RUNNING \<and> \<not> IsConfigurationDirty x \<and> ex_policy_chain x \<noteq> []")
  case False
  then show ?thesis using assms
    by (auto simp: GraphExecutor_RunExpected_def advance_defs split: if_splits)
next
  case True
  obtain r1 x1 where c: "chain_call (Chain_OnRun (ev_policy env)) x = (r1, x1)" by (metis surj_pair)
  note f = chain_call_frame [OF c]
  have m1: "marked x1" using f ok True
    by (auto simp: ex_ok_def Chain_OnRun_def dest!: chain_try_marks marks_eq_marked(1))
  have p1: "manager_of x1 \<noteq> None"
    using stable_policies.OnRun_stable [OF st conjunct2 [OF f]] ok True by (simp add: ex_ok_def)
  consider (T) "r1 = Returns True" | (F) "r1 = Returns False" | (W) w where "r1 = Throws w"
    by (cases r1) auto
  then show ?thesis
    by cases (use assms True c f m1 p1 in
      \<open>auto simp: GraphExecutor_RunExpected_def advance_defs same_control_def marked_def SetStopped_def Let_def
         split: if_splits\<close>)
qed

lemma Stop_advances:
  assumes "GraphExecutor_StopExpected env x = Some (r, y)" and ok: "ex_ok x"
    and st: "stable_policies (ev_policy env)"
  shows "advances x y"
proof (cases "ex_current_state x = ES_INITIALIZED \<or> ex_current_state x = ES_RUNNING")
  case False
  then show ?thesis using assms by (simp add: GraphExecutor_StopExpected_def)
next
  case True
  let ?x1 = "on_capability SetStopped (x\<lparr>ex_stop_sequence_count := ex_stop_sequence_count x + 1,
                   ex_current_state := ES_STOPPING\<rparr>)"
  obtain s z where a: "and_then (manager_call (mo_Stop (ev_manager env)) ?x1)
      (Some \<circ> chain_call (Chain_OnStop (ev_policy env))) = Some (s, z)"
    using assms True by (auto simp: GraphExecutor_StopExpected_def Let_def split: option.splits)
  then have "same_control ?x1 z \<and> (s = Returns () \<longrightarrow> marked z \<and> manager_of z \<noteq> None)"
  proof (cases rule: and_then_cases)
    case (second x2)
    then have m: "same_control ?x1 x2" "ex_policy_chain x2 = ex_policy_chain x" "manager_of x2 \<noteq> None"
      using manager_call_frame [of _ ?x1] by auto
    have c: "chain_call (Chain_OnStop (ev_policy env)) x2 = (s, z)" using second by simp
    note f = chain_call_frame [OF c]
    have "marked x2" using m ok True by (auto simp: ex_ok_def marked_def)
    then have "marked z" using f by (auto dest!: OnStop_marks marks_eq_marked(1))
    moreover have "manager_of z \<noteq> None"
      using stable_policies.OnStop_stable [OF st conjunct2 [OF f]] m by simp
    ultimately show ?thesis using m f same_control_trans by blast
  qed (auto dest: manager_call_frame)
  then have z: "ex_current_state z = ES_STOPPING" "\<not> ex_joined z" "ex_active_revision z \<noteq> None"
    "s = Returns () \<Longrightarrow> marked z \<and> manager_of z \<noteq> None"
    using True ok by (auto simp: same_control_def ex_ok_def)
  show ?thesis
  proof (cases s)
    case (Returns u)
    then have "y = z" using assms(1) True a
      by (elim disjE) (simp_all add: GraphExecutor_StopExpected_def Let_def)
    then show ?thesis using z Returns True by (auto simp: advance_defs)
  next
    case (Throws w)
    then have "y = set_state ES_ERROR z"
      using assms(1) True a by (elim disjE) (simp_all add: GraphExecutor_StopExpected_def Let_def)
    then show ?thesis using z True by (auto simp: advance_defs)
  qed
qed

lemma Join_advances:
  assumes "GraphExecutor_JoinExpected env x = Some (r, y)" and ok: "ex_ok x"
  shows "advances x y"
proof (cases "ex_current_state x = ES_STOPPING")
  case False
  then show ?thesis using assms by (auto simp: GraphExecutor_JoinExpected_def split: if_splits)
next
  case True
  obtain s z where a: "and_then (manager_call (mo_Join (ev_manager env)) x)
      (Some \<circ> chain_call (Chain_OnJoin (ev_policy env))) = Some (s, z)"
    using assms True by (auto simp: GraphExecutor_JoinExpected_def split: option.splits)
  then have "same_control x z \<and> (s = Returns () \<longrightarrow> unmarked z)"
    by (cases rule: and_then_cases)
       (auto dest!: manager_call_frame chain_call_frame OnJoin_ok_marks intro: marks_replicate same_control_trans)
  then show ?thesis
    using assms True a ok
    by (cases s) (auto simp: GraphExecutor_JoinExpected_def advance_defs same_control_def unmarked_def)
qed

lemma ConfigureGraph_outcome:
  assumes "ConfigureGraph env snapshot x = (r, y)"
  obtains (rejected) "y = x" "\<not> er_success r"
    | (recorded) "er_success r" "ex_current_state x = ES_CONFIGURED \<or> ex_current_state x = ES_STOPPED"
        "ex_current_state y = ES_CONFIGURED" "\<not> ex_joined y" "ex_policy_chain y = ex_policy_chain x"
        "\<not> IsConfigurationDirty y"
proof (cases "ex_current_state x \<noteq> ES_CONFIGURED \<and> \<not> (ex_current_state x = ES_STOPPED \<and> ex_joined x)")
  case True
  then show thesis using assms by (intro rejected) (auto simp: ConfigureGraph_def rejected_def ExecutionResult_def)
next
  case allowed: False
  show thesis
  proof (cases "ev_validation env (sn_document snapshot)")
    case None
    then show thesis using assms allowed
      by (intro rejected) (auto simp: ConfigureGraph_def Let_def rejected_def ExecutionResult_def)
  next
    case (Some v)
    obtain valid es where v: "v = (valid, es)" by (metis surj_pair)
    show thesis
    proof (cases valid)
      case True
      then show thesis using assms allowed Some v
        by (intro recorded)
           (auto simp: ConfigureGraph_def Let_def IsConfigurationDirty_def GetConfiguredRevision_def)
    next
      case False
      then show thesis using assms allowed Some v
        by (intro rejected) (auto simp: ConfigureGraph_def Let_def rejected_def ExecutionResult_def)
    qed
  qed
qed

lemma ConfigureGraph_advances:
  assumes "ConfigureGraph env snapshot x = (r, y)" and "ex_ok x"
  shows "advances x y"
  using assms(1)
proof (cases rule: ConfigureGraph_outcome)
  case recorded
  then have "unmarked x" using assms(2) by (auto simp: ex_ok_def)
  then show ?thesis using recorded by (auto simp: advance_defs unmarked_def)
qed (use assms(2) in simp)

section \<open>Runs of an executor\<close>

text \<open>
  Every public operation that changes the executor, with its name and whether it succeeded. Two raw
  setters are restricted: a manager that is installed is not null, and \<open>SetExecutionState\<close>, which
  only the executor's own operations and a test call, is no operation of its own.
\<close>

datatype ex_op = Op_Configure | Op_Init | Op_Start | Op_Run | Op_Stop | Op_Join | Op_Other

inductive ex_call ::
    "('p, 'g, 'd) exec_env \<Rightarrow> ex_op \<Rightarrow> bool \<Rightarrow> ('p, 'g, 'd) graph_executor \<Rightarrow> ('p, 'g, 'd) graph_executor \<Rightarrow> bool"
  for env where
  configure: "ConfigureGraph env snapshot x = (r, y) \<Longrightarrow> ex_call env Op_Configure (er_success r) x y"
| init: "GraphExecutor_InitExpected env x = Some (ri, y) \<Longrightarrow> ex_call env Op_Init (has_value ri) x y"
| start: "GraphExecutor_StartExpected env x = Some (rs, y) \<Longrightarrow> ex_call env Op_Start (has_value rs) x y"
| run: "GraphExecutor_RunExpected env x = Some (rs, y) \<Longrightarrow> ex_call env Op_Run (has_value rs) x y"
| stop: "GraphExecutor_StopExpected env x = Some (rs, y) \<Longrightarrow> ex_call env Op_Stop (has_value rs) x y"
| join: "GraphExecutor_JoinExpected env x = Some (rs, y) \<Longrightarrow> ex_call env Op_Join (has_value rs) x y"
| directories: "ex_call env Op_Other True x (SetPluginDirectories ds x)"
| observe: "ex_call env Op_Other True x (ObserveCoordinatorRevision revision x)"
| prepare: "ex_call env Op_Other True x (snd (PrepareExecutionAttempt x))"
| request_stop: "ex_call env Op_Other True x (RequestStop x)"
| set_manager: "ex_call env Op_Other True x (SetGraphManager (Some g) x)"

definition ex_step ::
    "('p, 'g, 'd) exec_env \<Rightarrow> ('p, 'g, 'd) graph_executor \<Rightarrow> ('p, 'g, 'd) graph_executor \<Rightarrow> bool" where
  "ex_step env x y \<longleftrightarrow> (\<exists>op ok. ex_call env op ok x y)"

lemma ex_call_advances:
  assumes "ex_call env op ok x y" and "stable_policies (ev_policy env)" and "ex_ok x"
  shows "advances x y"
  using assms
proof cases
  case directories
  then show ?thesis using assms(3) by (simp add: SetPluginDirectories_def advance_defs marked_def unmarked_def)
next
  case observe
  then show ?thesis
    using assms(3) by (simp add: ObserveCoordinatorRevision_def advance_defs marked_def unmarked_def)
next
  case prepare
  then show ?thesis
    using assms(3) by (simp add: PrepareExecutionAttempt_def advance_defs marked_def unmarked_def)
next
  case request_stop
  then show ?thesis
    using assms(3) by (simp add: RequestStop_def SetStopped_def advance_defs marked_def unmarked_def)
next
  case set_manager
  then show ?thesis
    using assms(3) by (simp add: SetGraphManager_def advance_defs marked_def unmarked_def)
qed (use assms in \<open>auto intro: ConfigureGraph_advances Init_advances Start_advances Run_advances Stop_advances Join_advances\<close>)

lemma ex_step_advances:
  "ex_step env x y \<Longrightarrow> stable_policies (ev_policy env) \<Longrightarrow> ex_ok x \<Longrightarrow> advances x y"
  using ex_call_advances by (auto simp: ex_step_def)

lemma reachable_ok:
  assumes "GraphExecutor chain capability = Inr x" and "\<forall>l \<in> set chain. \<not> cl_initialized l"
    and "stable_policies (ev_policy env)" and "(ex_step env)\<^sup>*\<^sup>* x y"
  shows "ex_ok y \<and> phase_step\<^sup>*\<^sup>* ES_CONFIGURED (ex_current_state y)"
proof -
  have "ex_ok x \<and> phase_step\<^sup>*\<^sup>* ES_CONFIGURED (ex_current_state x)"
    using assms(1,2) by (auto simp: GraphExecutor_def ex_ok_def unmarked_def split: option.splits)
  with assms(4) show ?thesis
    by (rule rtranclp_invariant [where I = "\<lambda>z. ex_ok z \<and> phase_step\<^sup>*\<^sup>* ES_CONFIGURED (ex_current_state z)"])
       (metis (no_types) assms(3) ex_step_advances advances_def rtranclp.rtrancl_into_rtrancl)
qed

text \<open>
  C15. The executor's invariant. In every state a client can reach from a new executor, by any
  sequence of calls, failing ones included: the execution state is never \<open>PAUSED\<close>, \<open>STEPPING\<close> or
  \<open>ANY\<close>; the joined flag says exactly that the state is \<open>STOPPED\<close>; no policy counts as
  initialised in \<open>CONFIGURED\<close> and \<open>STOPPED\<close>, all of them do in \<open>INITIALIZED\<close>, \<open>RUNNING\<close> and
  \<open>STOPPING\<close>; and in those three states the graph manager that the executor dereferences exists.
  In \<open>ERROR\<close> some policies may still be initialised; the destructor releases them. The
  assumptions are that the executor starts with no policy initialised and that policies neither
  install nor remove the graph manager.
\<close>

theorem executor_invariant:
  assumes "GraphExecutor chain capability = Inr x" and "\<forall>l \<in> set chain. \<not> cl_initialized l"
    and "stable_policies (ev_policy env)" and "(ex_step env)\<^sup>*\<^sup>* x y"
  shows "ex_current_state y \<in> {ES_CONFIGURED, ES_INITIALIZED, ES_RUNNING, ES_STOPPING, ES_STOPPED, ES_ERROR} \<and>
    (ex_joined y \<longleftrightarrow> ex_current_state y = ES_STOPPED) \<and>
    (ex_current_state y \<in> {ES_CONFIGURED, ES_STOPPED} \<longrightarrow>
       (\<forall>l \<in> set (ex_policy_chain y). \<not> cl_initialized l)) \<and>
    (ex_current_state y \<in> {ES_INITIALIZED, ES_RUNNING, ES_STOPPING} \<longrightarrow>
       (\<forall>l \<in> set (ex_policy_chain y). cl_initialized l) \<and>
       gc_graph_manager (ex_graph_capability y) \<noteq> None)"
  using reachable_ok [OF assms] by (simp add: ex_ok_def marked_def unmarked_def)

subsection \<open>The documented lifecycle\<close>

text \<open>
  The states in which an operation may leave the lifecycle, by the operation, whether it succeeds,
  whether the configuration has changed since it was recorded (\<open>dirty\<close>), and the state before. An
  operation out of turn fails and changes nothing; a failure in turn ends in \<open>ERROR\<close>, except that a
  dirty configuration is refused and a failed \<open>Init\<close> may be undone.
\<close>

fun lifecycle :: "ex_op \<Rightarrow> bool \<Rightarrow> bool \<Rightarrow> execution_state \<Rightarrow> execution_state set" where
  "lifecycle Op_Configure True dirty s = (if s \<in> {ES_CONFIGURED, ES_STOPPED} then {ES_CONFIGURED} else {})"
| "lifecycle Op_Init True dirty s = (if s = ES_CONFIGURED \<and> \<not> dirty then {ES_INITIALIZED} else {})"
| "lifecycle Op_Start True dirty s = (if s = ES_INITIALIZED \<and> \<not> dirty then {ES_RUNNING} else {})"
| "lifecycle Op_Run True dirty s = (if s = ES_RUNNING \<and> \<not> dirty then {ES_RUNNING} else {})"
| "lifecycle Op_Stop True dirty s = (if s \<in> {ES_INITIALIZED, ES_RUNNING} then {ES_STOPPING} else {})"
| "lifecycle Op_Join True dirty s = (if s \<in> {ES_STOPPING, ES_STOPPED} then {ES_STOPPED} else {})"
| "lifecycle Op_Other True dirty s = {s}"
| "lifecycle Op_Configure False dirty s = {s}"
| "lifecycle Op_Init False dirty s = (if s = ES_CONFIGURED \<and> \<not> dirty then {ES_CONFIGURED, ES_ERROR} else {s})"
| "lifecycle Op_Start False dirty s = (if s = ES_INITIALIZED \<and> \<not> dirty then {ES_ERROR} else {s})"
| "lifecycle Op_Run False dirty s = (if s = ES_RUNNING \<and> \<not> dirty then {ES_ERROR} else {s})"
| "lifecycle Op_Stop False dirty s = (if s \<in> {ES_INITIALIZED, ES_RUNNING} then {ES_ERROR} else {s})"
| "lifecycle Op_Join False dirty s =
     (if s = ES_STOPPING then {ES_ERROR} else if s = ES_STOPPED then {} else {s})"
| "lifecycle Op_Other False dirty s = {}"

text \<open>\<open>ERROR\<close> is never left, and in it nothing succeeds.\<close>

lemma lifecycle_error: "lifecycle op ok dirty ES_ERROR \<subseteq> {ES_ERROR} \<and> (op \<noteq> Op_Other \<longrightarrow> lifecycle op True dirty ES_ERROR = {})"
  by (cases op; cases ok) simp_all















section \<open>A failed Init\<close>

text \<open>
  C17. What a failed \<open>Init\<close> leaves. If no policy counts as initialised and \<open>Init\<close> fails, then either
  the call was refused (wrong state or changed configuration) and nothing changed; or cleaning up
  failed too and the executor is in \<open>ERROR\<close>; or the executor is configured as before, with no
  graph and no policy initialised, so that \<open>Init\<close> can be tried again. An executor constructed
  around a ready graph has no configuration to rebuild it from: its further \<open>Init\<close> calls fail.
\<close>

theorem failed_init_is_undone:
  assumes "\<forall>l \<in> set (ex_policy_chain x). \<not> cl_initialized l"
    and "GraphExecutor_InitExpected env x = Some (Inl f, y)"
  shows "y = x \<and> gf_code f = GE_InvalidState \<and>
       (ex_current_state x \<noteq> ES_CONFIGURED \<or> IsConfigurationDirty x) \<or>
     ex_current_state x = ES_CONFIGURED \<and> ex_current_state y = ES_ERROR \<or>
     ex_current_state x = ES_CONFIGURED \<and> ex_current_state y = ES_CONFIGURED \<and>
       gc_graph_manager (ex_graph_capability y) = None \<and>
       (\<forall>l \<in> set (ex_policy_chain y). \<not> cl_initialized l) \<and>
       ex_configured_snapshot y = ex_configured_snapshot x \<and>
       (ex_configured_snapshot x = None \<longrightarrow>
          GraphExecutor_InitExpected env' y = Some (failure GE_ConfigurationInvalid
            ''GraphExecutor::Init() has no configured graph snapshot'', y))"
  using assms(2)
proof (cases rule: Init_outcome)
  case (undone g)
  have "GraphExecutor_InitExpected env' y = Some (failure GE_ConfigurationInvalid
      ''GraphExecutor::Init() has no configured graph snapshot'', y)" if "ex_configured_snapshot x = None"
    using that undone
    by (simp add: GraphExecutor_InitExpected_def IsConfigurationDirty_def GetConfiguredRevision_def
        Init_attempt_def Init_build_def failure_def)
  then show ?thesis using undone assms(1) by (auto simp: unmarked_def)
qed auto

section \<open>Without a policy chain\<close>

text \<open>
  An executor without a policy chain cannot run. \<open>Start\<close> treats a missing chain as success,
  \<open>Run\<close> as failure: it always returns an error and, if it was called in the right state, leaves
  \<open>ERROR\<close> behind; so \<open>Execute\<close> never succeeds.
\<close>

theorem run_needs_policy_chain:
  assumes "ex_policy_chain x = []"
  shows "(\<exists>f y. GraphExecutor_RunExpected env x = Some (Inl f, y) \<and>
      (ex_current_state x = ES_RUNNING \<and> \<not> IsConfigurationDirty x \<longrightarrow>
         gf_code f = GE_PolicyFailed \<and> ex_current_state y = ES_ERROR)) \<and>
    GraphExecutor_ExecuteExpected env x \<noteq> Some (Inr r, z)"
proof -
  have run: "\<exists>f y. GraphExecutor_RunExpected env u = Some (Inl f, y) \<and>
      (ex_current_state u = ES_RUNNING \<and> \<not> IsConfigurationDirty u \<longrightarrow>
         gf_code f = GE_PolicyFailed \<and> ex_current_state y = ES_ERROR)"
    if "ex_policy_chain u = []" for u
    using that by (auto simp: GraphExecutor_RunExpected_def failure_def)
  have start: "ex_policy_chain v = []"
    if "GraphExecutor_StartExpected env u = Some (Inr q, v)" "ex_policy_chain u = []" for u v q
    using that
    by (auto simp: GraphExecutor_StartExpected_def failure_def chain_call_def Chain_OnStart_def
        dest!: manager_result_frame split: if_splits option.splits sum.splits)
  have init: "ex_policy_chain v = []"
    if i: "GraphExecutor_InitExpected env u = Some (Inr q, v)" and e: "ex_policy_chain u = []" for u v q
    using i by (cases rule: Init_outcome) (use e in auto)
  have "Execute_from_initialized env ms u \<noteq> Some (Inr r, z)" if e: "ex_policy_chain u = []" for ms u
  proof
    assume "Execute_from_initialized env ms u = Some (Inr r, z)"
    then obtain q v where "GraphExecutor_StartExpected env u = Some (Inr q, v)"
      "\<exists>q' w. GraphExecutor_RunExpected env v = Some (Inr q', w)"
      by (auto simp: Execute_from_initialized_def if_expected_def split: option.splits sum.splits)
    then show False using start e run by fastforce
  qed
  then have "GraphExecutor_ExecuteExpected env x \<noteq> Some (Inr r, z)"
    using assms init
    by (auto simp: GraphExecutor_ExecuteExpected_def failure_def if_expected_def
        split: option.splits sum.splits if_splits)
  with run [OF assms] show ?thesis by blast
qed

section \<open>Every call returns\<close>

text \<open>
  What the executor needs so that its calls come back: policies that leave the manager in place,
  and a graph manager whose \<open>Stop\<close> and \<open>Join\<close> return (or throw).
\<close>

locale executor_env = stable_policies "ev_policy env"
  for env :: "('p, 'g, 'd) exec_env" +
  assumes stop_returns: "mo_Stop (ev_manager env) g \<noteq> None"
    and join_returns: "mo_Join (ev_manager env) g \<noteq> None"
begin

lemma and_then_returns: "m \<noteq> None \<Longrightarrow> (\<And>x. k x \<noteq> None) \<Longrightarrow> and_then m k \<noteq> None"
  by (auto simp: and_then_def split: option.splits call.splits)

lemma manager_call_returns:
  assumes "manager_of x \<noteq> None"
  shows "manager_call (mo_Stop (ev_manager env)) x \<noteq> None"
    and "manager_call (mo_Join (ev_manager env)) x \<noteq> None"
  using assms stop_returns join_returns by (auto simp: manager_call_def)

lemma manager_call_if_returns:
  "manager_call_if b (mo_Stop (ev_manager env)) x \<noteq> None"
  "manager_call_if b (mo_Join (ev_manager env)) x \<noteq> None"
  by (simp_all add: manager_call_if_def manager_call_returns del: not_None_eq)

lemma Rollback_returns: "RollbackInitializationAttempt env b x \<noteq> None"
proof -
  have "and_then (and_then (and_then
              (manager_call_if b (mo_Stop (ev_manager env)) x)
              (Some \<circ> chain_call (Chain_OnInitializationRollbackStop (ev_policy env))))
              (manager_call_if b (mo_Join (ev_manager env))))
              (Some \<circ> chain_call (Chain_OnInitializationRollbackJoin (ev_policy env))) \<noteq> None"
    by (intro and_then_returns manager_call_if_returns) simp_all
  then obtain s z where "and_then (and_then (and_then
              (manager_call_if b (mo_Stop (ev_manager env)) x)
              (Some \<circ> chain_call (Chain_OnInitializationRollbackStop (ev_policy env))))
              (manager_call_if b (mo_Join (ev_manager env))))
              (Some \<circ> chain_call (Chain_OnInitializationRollbackJoin (ev_policy env))) = Some (s, z)"
    by auto
  then show ?thesis by (cases s) (simp_all add: RollbackInitializationAttempt_def)
qed

lemma manager_result_returns: "manager_of x \<noteq> None \<Longrightarrow> manager_result h x \<noteq> None"
  by (auto simp: manager_result_def split: prod.splits)

lemma Init_rollback_returns: "Init_rollback env b f m x \<noteq> None"
proof -
  obtain p where "RollbackInitializationAttempt env b x = Some p" using Rollback_returns by blast
  then show ?thesis by (cases p; cases "fst p") (simp_all add: Init_rollback_def)
qed

lemma Init_build_returns: "Init_build env x \<noteq> None"
  by (auto simp: Init_build_def Let_def Rollback_returns simp del: not_None_eq
      split: option.splits call.splits bool.splits)

lemma Init_attempt_returns: "Init_attempt env x \<noteq> None"
proof -
  obtain r1 x1 where b: "Init_build env x = Some (r1, x1)" using Init_build_returns by fastforce
  from Init_build_outcome [OF b] show ?thesis
  proof cases
    case built_ok
    obtain r2 x2 where c: "chain_call (Chain_OnInit (ev_policy env)) x1 = (r2, x2)"
      by (metis surj_pair)
    have "manager_of x2 \<noteq> None"
      using OnInit_stable [OF conjunct2 [OF chain_call_frame [OF c]]] built_ok by simp
    then obtain r3 x3 where m: "manager_result (mo_Init (ev_manager env)) x2 = Some (r3, x3)"
      using manager_result_returns by fastforce
    consider "r2 = Returns True" | "r2 = Returns False" | w where "r2 = Throws w"
      by (cases r2) auto
    then show ?thesis
      using b built_ok(1) c m
      by cases (simp_all add: Init_attempt_def Init_rollback_returns del: not_None_eq split: sum.splits prod.splits)
  qed (use b in \<open>auto simp: Init_attempt_def\<close>)
qed

lemma ex_Init_returns: "GraphExecutor_InitExpected env x \<noteq> None"
proof -
  obtain r1 x1 where a: "Init_attempt env x = Some (r1, x1)" using Init_attempt_returns by fastforce
  obtain p where "RollbackInitializationAttempt env False x1 = Some p" using Rollback_returns by blast
  then show ?thesis
    using a by (cases r1; cases p; cases "fst p") (auto simp: GraphExecutor_InitExpected_def)
qed

lemma ex_Start_returns: "ex_ok x \<Longrightarrow> GraphExecutor_StartExpected env x \<noteq> None"
proof (cases "ex_current_state x = ES_INITIALIZED \<and> \<not> IsConfigurationDirty x")
  case True
  assume ok: "ex_ok x"
  obtain r1 x1 where c: "chain_call (Chain_OnStart (ev_policy env)) x = (r1, x1)" by (metis surj_pair)
  have "manager_of x1 \<noteq> None"
    using OnStart_stable [OF conjunct2 [OF chain_call_frame [OF c]]] ok True by (simp add: ex_ok_def)
  then obtain r2 x2 where m: "manager_result (mo_Start (ev_manager env)) x1 = Some (r2, x2)"
    using manager_result_returns by fastforce
  consider "r1 = Returns True" | "r1 = Returns False" | w where "r1 = Throws w"
    by (cases r1) auto
  then show ?thesis
    using c True m by cases (auto simp: GraphExecutor_StartExpected_def split: sum.splits)
qed (auto simp: GraphExecutor_StartExpected_def)

lemma ex_Stop_returns: "ex_ok x \<Longrightarrow> GraphExecutor_StopExpected env x \<noteq> None"
proof (cases "ex_current_state x = ES_INITIALIZED \<or> ex_current_state x = ES_RUNNING")
  case True
  assume "ex_ok x"
  then have p: "manager_of x \<noteq> None" using True by (auto simp: ex_ok_def)
  let ?x1 = "on_capability SetStopped (x\<lparr>ex_stop_sequence_count := ex_stop_sequence_count x + 1,
                   ex_current_state := ES_STOPPING\<rparr>)"
  have "and_then (manager_call (mo_Stop (ev_manager env)) ?x1)
      (Some \<circ> chain_call (Chain_OnStop (ev_policy env))) \<noteq> None"
    using p by (intro and_then_returns manager_call_returns) (simp_all add: SetStopped_def)
  then obtain s z where "and_then (manager_call (mo_Stop (ev_manager env)) ?x1)
      (Some \<circ> chain_call (Chain_OnStop (ev_policy env))) = Some (s, z)" by fastforce
  then show ?thesis using True
    by (cases s; elim disjE) (simp_all add: GraphExecutor_StopExpected_def Let_def)
qed (auto simp: GraphExecutor_StopExpected_def)

lemma ex_Join_returns: "ex_ok x \<Longrightarrow> GraphExecutor_JoinExpected env x \<noteq> None"
proof (cases "ex_current_state x = ES_STOPPING")
  case True
  assume "ex_ok x"
  then have "and_then (manager_call (mo_Join (ev_manager env)) x)
      (Some \<circ> chain_call (Chain_OnJoin (ev_policy env))) \<noteq> None"
    using True by (intro and_then_returns manager_call_returns) (simp_all add: ex_ok_def)
  then obtain s z where "and_then (manager_call (mo_Join (ev_manager env)) x)
      (Some \<circ> chain_call (Chain_OnJoin (ev_policy env))) = Some (s, z)" by fastforce
  then show ?thesis using True by (cases s) (simp_all add: GraphExecutor_JoinExpected_def)
qed (auto simp: GraphExecutor_JoinExpected_def)

text \<open>\<open>Run\<close> returns when another thread raises the stop flag.\<close>

lemma ex_Run_returns: "ev_external_stop env \<Longrightarrow> GraphExecutor_RunExpected env x \<noteq> None"
proof -
  assume e: "ev_external_stop env"
  obtain r1 x1 where c: "chain_call (Chain_OnRun (ev_policy env)) x = (r1, x1)" by (metis surj_pair)
  consider "r1 = Returns True" | "r1 = Returns False" | w where "r1 = Throws w"
    by (cases r1) auto
  then show ?thesis
    using c e by cases (auto simp: GraphExecutor_RunExpected_def SetStopped_def Let_def)
qed

lemma if_expected_step:
  assumes "m \<noteq> None" and "\<And>r y. m = Some (r, y) \<Longrightarrow> ex_ok y"
    and "\<And>a y. m = Some (Inr a, y) \<Longrightarrow> ex_ok y \<Longrightarrow>
      \<exists>r z. k a y = Some (r, z) \<and> ex_ok z \<and> (\<forall>e. r = Inr e \<longrightarrow> Q e z)"
  shows "\<exists>r z. if_expected m k = Some (r, z) \<and> ex_ok z \<and> (\<forall>e. r = Inr e \<longrightarrow> Q e z)"
proof -
  obtain r y where m: "m = Some (r, y)" using assms(1) by auto
  show ?thesis
  proof (cases r)
    case (Inl f)
    then show ?thesis using m assms(2) by (simp add: if_expected_def)
  next
    case (Inr a)
    then show ?thesis using m assms(2,3) by (simp add: if_expected_def)
  qed
qed

lemma Join_success_state:
  "GraphExecutor_JoinExpected env x = Some (Inr e, y) \<Longrightarrow> ex_current_state y = ES_STOPPED"
  by (auto simp: GraphExecutor_JoinExpected_def failure_def captured_failure_def
      split: if_splits option.splits call.splits)

lemma Execute_from_initialized_returns:
  assumes "ev_external_stop env" and "ex_ok x"
  shows "\<exists>r y. Execute_from_initialized env ms x = Some (r, y) \<and> ex_ok y \<and>
    (\<forall>e. r = Inr e \<longrightarrow> er_success e \<and> er_current_state e = ES_STOPPED \<and> ex_current_state y = ES_STOPPED)"
proof -
  have ok: "stable_policies (ev_policy env)" by (rule stable_policies_axioms)
  have "advances v w \<Longrightarrow> ex_ok w" for v w :: "('p, 'g, 'd) graph_executor"
    by (simp add: advances_def)
  note next_ok = this [OF Start_advances] this [OF Run_advances] this [OF Stop_advances] this [OF Join_advances]
  show ?thesis
    unfolding Execute_from_initialized_def
    apply (rule if_expected_step)
      apply (rule ex_Start_returns [OF assms(2)])
     apply (erule next_ok(1) [OF _ assms(2)])
    apply (rule if_expected_step)
      apply (rule ex_Run_returns [OF assms(1)])
     apply (erule (1) next_ok(2) [OF _ _ ok])
    apply (rule if_expected_step)
      apply (erule ex_Stop_returns)
     apply (erule (1) next_ok(3) [OF _ _ ok])
    apply (rule if_expected_step)
      apply (erule ex_Join_returns)
     apply (erule (1) next_ok(4))
    apply (auto simp: succeeded_def dest: Join_success_state)
    done
qed

end

text \<open>
  C16. \<open>Execute\<close> always comes back. In every reachable state, with policies that leave the graph
  manager in place, a manager whose \<open>Stop\<close> and \<open>Join\<close> return, and a stop request that arrives
  while the graph runs, \<open>Execute\<close> returns a result; if it reports success, the executor is
  stopped and joined and no policy is left initialised.
\<close>

theorem Execute_returns:
  assumes "executor_env env" and "ev_external_stop env"
    and "GraphExecutor chain capability = Inr x0" and "\<forall>l \<in> set chain. \<not> cl_initialized l"
    and "(ex_step env)\<^sup>*\<^sup>* x0 x"
  shows "\<exists>r y. GraphExecutor_ExecuteExpected env x = Some (r, y) \<and>
    (\<forall>e. r = Inr e \<longrightarrow> er_success e \<and> er_current_state e = ES_STOPPED \<and>
       ex_current_state y = ES_STOPPED \<and> ex_joined y \<and>
       (\<forall>l \<in> set (ex_policy_chain y). \<not> cl_initialized l))"
proof -
  have st: "stable_policies (ev_policy env)" using assms(1) by (simp add: executor_env_def)
  have ok: "ex_ok x" using reachable_ok [OF assms(3,4) st assms(5)] by blast
  note go = executor_env.Execute_from_initialized_returns [OF assms(1,2)]
  have "\<exists>r y. GraphExecutor_ExecuteExpected env x = Some (r, y) \<and> ex_ok y \<and>
    (\<forall>e. r = Inr e \<longrightarrow> er_success e \<and> er_current_state e = ES_STOPPED \<and> ex_current_state y = ES_STOPPED)"
  proof (cases "ex_current_state x = ES_CONFIGURED")
    case True
    have "\<exists>r y. if_expected (GraphExecutor_InitExpected env x)
        (\<lambda>init. Execute_from_initialized env (ir_elapsed_time_ms init)) = Some (r, y) \<and> ex_ok y \<and>
      (\<forall>e. r = Inr e \<longrightarrow> er_success e \<and> er_current_state e = ES_STOPPED \<and> ex_current_state y = ES_STOPPED)"
      by (rule executor_env.if_expected_step [OF assms(1) executor_env.ex_Init_returns [OF assms(1)]])
         (use Init_advances [OF _ ok] go in \<open>auto simp: advances_def\<close>)
    then show ?thesis using True by (simp add: GraphExecutor_ExecuteExpected_def)
  next
    case False
    then show ?thesis
      using go [OF ok] ok by (simp add: GraphExecutor_ExecuteExpected_def failure_def)
  qed
  then obtain r y where "GraphExecutor_ExecuteExpected env x = Some (r, y)" "ex_ok y"
    "\<forall>e. r = Inr e \<longrightarrow> er_success e \<and> er_current_state e = ES_STOPPED \<and> ex_current_state y = ES_STOPPED"
    by blast
  then show ?thesis by (intro exI [of _ r] exI [of _ y]) (auto simp: ex_ok_def unmarked_def)
qed

section \<open>The executor over the modelled graph manager\<close>

text \<open>
  The table of the modelled \<open>GraphManager\<close>, with the message-pool registry and heap it fills. The
  other arguments are the component tables, the machine's thread count, clock readings, how
  thread creation goes, and how the pool's threads end.
\<close>

definition graph_manager_ops ::
    "'n component_ops \<Rightarrow> 'e component_ops \<Rightarrow> ('n \<Rightarrow> lifecycle_state) \<Rightarrow> nat \<Rightarrow> nat option list list \<Rightarrow>
     spawn_outcome \<Rightarrow> u64 \<Rightarrow> ('t thread_pool \<Rightarrow> 't thread_pool) \<Rightarrow>
     (('n, 'e, 't) graph_manager \<times> pool_registry \<times> heap) manager_ops" where
  "graph_manager_ops nops eops state_of hw mss workers now_ns settle = \<lparr>
     mo_Init = (\<lambda>(g, reg, h). GraphManager_InitExpected nops eops hw now_ns mss g reg h),
     mo_Start = (\<lambda>(g, rest). case GraphManager_StartExpected nops eops workers True now_ns now_ns g of
                   (r, g') \<Rightarrow> (r, g', rest)),
     mo_Stop = (\<lambda>(g, rest). map_option (\<lambda>(r, g'). (r, g', rest)) (GraphManager_Stop nops eops now_ns g)),
     mo_Join = (\<lambda>(g, rest). map_option (\<lambda>(r, g'). (r, g', rest))
                   (GraphManager_Join nops eops (Some \<circ> settle) now_ns g)),
     mo_node_states = (\<lambda>(g, rest). map state_of (gm_nodes g))\<rparr>"

definition completion_env ::
    "('g \<Rightarrow> nat) \<Rightarrow> 'g manager_ops \<Rightarrow> ('d \<Rightarrow> (bool \<times> string list) option) \<Rightarrow>
     (('g, 'd) graph_capability \<Rightarrow> 'g build_result call) \<Rightarrow> (completion_policy, 'g, 'd) exec_env" where
  "completion_env providers mops validation build = \<lparr>ev_policy = completion_policy_ops providers,
     ev_manager = mops, ev_validation = validation, ev_provider = (\<lambda>_. Returns True), ev_build = build,
     ev_external_stop = True, ev_elapsed = (\<lambda>_. 0)\<rparr>"

lemma GraphManager_Stop_returns: "GraphManager_Stop nops eops now g \<noteq> None"
  using Stop_returns
  by (fastforce simp: GraphManager_Stop_def Let_def split: prod.splits call.splits option.splits)

lemma GraphManager_Join_returns: "GraphManager_Join nops eops (Some \<circ> settle) now g \<noteq> None"
  using GraphManager_Stop_returns [of nops eops now g]
  by (auto simp: GraphManager_Join_def ThreadPool_Join_def Let_def
      split: prod.splits call.splits option.splits)

interpretation graph_env: executor_env
  "completion_env providers (graph_manager_ops nops eops state_of hw mss workers now settle) validation build"
proof (intro executor_env.intro executor_env_axioms.intro)
  show "stable_policies (ev_policy (completion_env providers
      (graph_manager_ops nops eops state_of hw mss workers now settle) validation build))"
    by (simp add: completion_env_def completion.stable_policies_axioms)
qed (auto simp: completion_env_def graph_manager_ops_def GraphManager_Stop_returns
       GraphManager_Join_returns simp del: not_None_eq split: prod.splits)

section \<open>A small executor\<close>

text \<open>
  Two nodes whose states are all there is of the manager, one completion policy, no configuration:
  the instance on which the theorems are applied.
\<close>

definition small_manager :: "lifecycle_state list manager_ops" where
  "small_manager = \<lparr>mo_Init = (\<lambda>g. (Inr (), map (\<lambda>_. LS_Initialized) g)),
     mo_Start = (\<lambda>g. (Inr (), map (\<lambda>_. LS_Started) g)),
     mo_Stop = (\<lambda>g. Some (Returns (), map (\<lambda>_. LS_Stopped) g)),
     mo_Join = (\<lambda>g. Some (Returns (), map (\<lambda>_. LS_Joined) g)), mo_node_states = (\<lambda>g. g)\<rparr>"

definition small_env :: "(completion_policy, lifecycle_state list, nat) exec_env" where
  "small_env = completion_env length small_manager (\<lambda>d. Some (d < 5, [])) (\<lambda>_. Throws None)"

definition small_capability :: "(lifecycle_state list, nat) graph_capability" where
  "small_capability = GraphCapability (Some [LS_Uninitialized, LS_Uninitialized])"

definition small_executor :: "(completion_policy, lifecycle_state list, nat) graph_executor" where
  "small_executor = (case GraphExecutor (AppendPolicy CompletionPolicy []) (Some small_capability) of
     Inr x \<Rightarrow> x)"

lemma small_executor_new:
  "GraphExecutor (AppendPolicy CompletionPolicy []) (Some small_capability) = Inr small_executor"
  by (simp add: small_executor_def GraphExecutor_def)

lemma small_unmarked: "\<forall>l \<in> set (AppendPolicy CompletionPolicy []). \<not> cl_initialized l"
  by (simp add: AppendPolicy_def)

interpretation small: executor_env small_env
  by (intro executor_env.intro executor_env_axioms.intro)
     (auto simp: small_env_def completion_env_def small_manager_def completion.stable_policies_axioms)

lemmas small_defs = small_env_def small_manager_def small_capability_def completion_env_def
  GraphCapability_def CompletionPolicy_def AppendPolicy_def IsConfigurationDirty_def
  GetConfiguredRevision_def

lemma small_executor_def': "small_executor = \<lparr>ex_policy_chain = AppendPolicy CompletionPolicy [],
    ex_graph_capability = small_capability, ex_current_state = ES_CONFIGURED,
    ex_configured_snapshot = None, ex_active_revision = None, ex_plugin_directories = [],
    ex_coordinator_revision = 0, ex_graph_generation = 1, ex_joined = False,
    ex_execution_attempt = 0, ex_startup_complete_attempt = 0, ex_stop_sequence_count = 0\<rparr>"
  by (simp add: small_executor_def GraphExecutor_def small_capability_def GraphCapability_def)

lemma small_init:
  "\<exists>r y. GraphExecutor_InitExpected small_env small_executor = Some (Inr r, y) \<and>
     ex_current_state y = ES_INITIALIZED \<and> ir_nodes_initialized r = 2"
  by (simp add: small_defs small_executor_def' GraphExecutor_InitExpected_def Init_attempt_def
      Init_build_def chain_call_def completion_policy_defs InitCompletionCallbacks_def
      manager_result_def on_capability_def Init_success_def CountNodesinLifecycleState_def)

lemma small_init_step: "\<exists>y. (ex_step small_env)\<^sup>*\<^sup>* small_executor y \<and> ex_current_state y = ES_INITIALIZED"
  using small_init ex_call.init unfolding ex_step_def by blast

theorem executor_invariant_witness:
  "\<exists>y. (ex_step small_env)\<^sup>*\<^sup>* small_executor y \<and> ex_current_state y = ES_INITIALIZED \<and>
     gc_graph_manager (ex_graph_capability y) \<noteq> None"
proof -
  obtain y where y: "(ex_step small_env)\<^sup>*\<^sup>* small_executor y" "ex_current_state y = ES_INITIALIZED"
    using small_init_step by blast
  then show ?thesis
    using executor_invariant [OF small_executor_new small_unmarked small.stable_policies_axioms y(1)]
    by blast
qed


theorem Execute_returns_witness:
  "\<exists>r y. GraphExecutor_ExecuteExpected small_env small_executor = Some (r, y)"
  using Execute_returns [OF small.executor_env_axioms _ small_executor_new small_unmarked
      rtranclp.rtrancl_refl]
  by (auto simp: small_env_def completion_env_def)

text \<open>The same executor after its graph is gone: initialising it fails.\<close>

theorem failed_init_is_undone_witness:
  "\<exists>y. GraphExecutor_InitExpected small_env (small_executor\<lparr>ex_graph_capability := GraphCapability None\<rparr>) =
      Some (failure GE_ConfigurationInvalid ''GraphExecutor::Init() has no configured graph snapshot'', y) \<and>
     ex_current_state y = ES_CONFIGURED \<and> gc_graph_manager (ex_graph_capability y) = None"
proof -
  let ?x = "small_executor\<lparr>ex_graph_capability := GraphCapability None\<rparr>"
  have i: "GraphExecutor_InitExpected small_env ?x =
      Some (failure GE_ConfigurationInvalid ''GraphExecutor::Init() has no configured graph snapshot'', ?x)"
    by (simp add: small_executor_def' GraphExecutor_InitExpected_def Init_attempt_def Init_build_def
        failure_def GraphCapability_def IsConfigurationDirty_def GetConfiguredRevision_def)
  have u: "\<forall>l \<in> set (ex_policy_chain ?x). \<not> cl_initialized l"
    by (simp add: small_executor_def' AppendPolicy_def)
  show ?thesis
    using failed_init_is_undone [OF u i [unfolded failure_def], of small_env] i
    by (auto simp: small_executor_def' GraphCapability_def)
qed

theorem run_needs_policy_chain_witness:
  "\<exists>f y. GraphExecutor_RunExpected small_env
      (small_executor\<lparr>ex_policy_chain := [], ex_current_state := ES_RUNNING\<rparr>) = Some (Inl f, y) \<and>
     gf_code f = GE_PolicyFailed \<and> ex_current_state y = ES_ERROR"
  using run_needs_policy_chain [of "small_executor\<lparr>ex_policy_chain := [], ex_current_state := ES_RUNNING\<rparr>" small_env]
  by (auto simp: small_executor_def' IsConfigurationDirty_def GetConfiguredRevision_def)

end
