(* ===== verification/Decimal.thy ===== *)
theory Decimal
  imports Prelude
begin

text \<open>
  Decimal numbers as \<open>std::to_string\<close> prints and \<open>std::stoi\<close> reads them: optional white space, an
  optional sign, digits up to the first other character, an exception without digits and an
  exception outside the range of \<open>int\<close>. Printing is injective and reading inverts it.
\<close>

definition int_to_string :: "int \<Rightarrow> string" where
  "int_to_string i = (if i < 0 then ''-'' @ to_string (nat (- i)) else to_string (nat i))"

definition is_digit :: "char \<Rightarrow> bool" where
  "is_digit c \<longleftrightarrow> 48 \<le> (of_char c :: nat) \<and> (of_char c :: nat) \<le> 57"

definition is_space :: "char \<Rightarrow> bool" where
  "is_space c \<longleftrightarrow> (of_char c :: nat) = 32 \<or> 9 \<le> (of_char c :: nat) \<and> (of_char c :: nat) \<le> 13"

text \<open>The result, or the text of the exception.\<close>

definition stoi :: "string \<Rightarrow> (int, string) expected" where
  "stoi s =
     (let t = dropWhile is_space s;
          negative = (t \<noteq> [] \<and> hd t = CHR ''-'');
          body = (if t \<noteq> [] \<and> (hd t = CHR ''-'' \<or> hd t = CHR ''+'') then tl t else t);
          ds = takeWhile is_digit body;
          v = (if negative then - int (read_digits ds) else int (read_digits ds))
      in if ds = [] then Inl ''stoi: no conversion''
         else if v < - (2 ^ 31) \<or> 2 ^ 31 \<le> v then Inl ''stoi: out of range''
         else Inr v)"

lemma is_digit_digit [simp]: "d < 10 \<Longrightarrow> is_digit (digit_char d)"
  by (simp add: is_digit_def of_char_digit)

lemma to_string_digits: "list_all is_digit (to_string n) \<and> to_string n \<noteq> []"
  by (induction n rule: to_string.induct) (subst (1 2) to_string.simps, simp)

lemma digit_not_space: "is_digit c \<Longrightarrow> \<not> is_space c \<and> c \<noteq> CHR ''-'' \<and> c \<noteq> CHR ''+''"
  by (auto simp: is_digit_def is_space_def)

lemma stoi_int_to_string:
  assumes "- (2 ^ 31) \<le> i" "i < 2 ^ 31"
  shows "stoi (int_to_string i) = Inr i"
proof -
  obtain c cs where n: "to_string (nat \<bar>i\<bar>) = c # cs"
    using to_string_digits [of "nat \<bar>i\<bar>"] by (cases "to_string (nat \<bar>i\<bar>)") auto
  have d: "takeWhile is_digit (c # cs) = c # cs"
    using to_string_digits [of "nat \<bar>i\<bar>"] n by (simp add: takeWhile_eq_all_conv list_all_iff)
  have c: "is_digit c" using to_string_digits [of "nat \<bar>i\<bar>"] n by simp
  have v: "read_digits (c # cs) = nat \<bar>i\<bar>" using read_to_string [of "nat \<bar>i\<bar>"] n by simp
  show ?thesis
  proof (cases "i < 0")
    case True
    then have "int_to_string i = CHR ''-'' # c # cs" using n by (simp add: int_to_string_def)
    moreover have "\<not> is_space CHR ''-''" by (simp add: is_space_def)
    ultimately show ?thesis using d v assms True by (simp add: stoi_def Let_def)
  next
    case False
    then have "int_to_string i = c # cs" using n by (simp add: int_to_string_def)
    then show ?thesis using d v assms False digit_not_space [OF c] by (simp add: stoi_def Let_def)
  qed
qed

end
