(* ===== verification/Fhss_Doubles.thy ===== *)
theory Fhss_Doubles
  imports Prelude Complex_Main
begin

text \<open>
  The floating-point arithmetic of the DSP library. A \<open>double\<close> is a value of an arbitrary type
  \<open>'f\<close>, and the operations the code applies to doubles are the fields of the record
  \<open>double_ops\<close>. Most theorems assume nothing about them. The ones that need arithmetic use the
  locale \<open>ieee_doubles\<close>, whose laws all hold of IEEE binary64 with rounding to nearest: the order of
  the numbers that are not NaN, monotone rounding of sums and differences, and exact arithmetic on
  small integers. The locale is interpreted by exact real arithmetic with an infinity.
\<close>

section \<open>Operations\<close>

record 'f double_ops =
  fd_of_int :: "int \<Rightarrow> 'f"
  fd_epsilon :: 'f
  fd_machine_epsilon :: 'f
  fd_infinity :: 'f
  fd_pi :: 'f
  fd_add :: "'f \<Rightarrow> 'f \<Rightarrow> 'f"
  fd_sub :: "'f \<Rightarrow> 'f \<Rightarrow> 'f"
  fd_mul :: "'f \<Rightarrow> 'f \<Rightarrow> 'f"
  fd_div :: "'f \<Rightarrow> 'f \<Rightarrow> 'f"
  fd_fmod :: "'f \<Rightarrow> 'f \<Rightarrow> 'f"
  fd_abs :: "'f \<Rightarrow> 'f"
  fd_less :: "'f \<Rightarrow> 'f \<Rightarrow> bool"
  fd_le :: "'f \<Rightarrow> 'f \<Rightarrow> bool"
  fd_isfinite :: "'f \<Rightarrow> bool"
  fd_llround :: "'f \<Rightarrow> int"

text \<open>\<open>fd_epsilon\<close> is the default tolerance \<open>1.0e-6\<close> of the comparison.\<close>

definition NearlyEqual :: "'f double_ops \<Rightarrow> 'f \<Rightarrow> 'f \<Rightarrow> bool" where
  "NearlyEqual fl lhs rhs = fd_le fl (fd_abs fl (fd_sub fl lhs rhs)) (fd_epsilon fl)"

text \<open>\<open>std::clamp\<close>, and the literal \<open>0.5\<close>.\<close>

definition fd_clamp :: "'f double_ops \<Rightarrow> 'f \<Rightarrow> 'f \<Rightarrow> 'f \<Rightarrow> 'f" where
  "fd_clamp fl v lo hi = (if fd_less fl v lo then lo else if fd_less fl hi v then hi else v)"

definition fd_half :: "'f double_ops \<Rightarrow> 'f" where
  "fd_half fl = fd_div fl (fd_of_int fl 1) (fd_of_int fl 2)"

text \<open>A value that compares with itself is a number.\<close>

definition fd_num :: "'f double_ops \<Rightarrow> 'f \<Rightarrow> bool" where
  "fd_num fl x \<longleftrightarrow> fd_le fl x x"

text \<open>Complex samples.\<close>

record ('f, 'z) complex_ops =
  cz_abs :: "'z \<Rightarrow> 'f"
  cz_arg :: "'z \<Rightarrow> 'f"
  cz_real :: "'z \<Rightarrow> 'f"
  cz_conj :: "'z \<Rightarrow> 'z"
  cz_mul :: "'z \<Rightarrow> 'z \<Rightarrow> 'z"
  cz_div_real :: "'z \<Rightarrow> 'f \<Rightarrow> 'z"
  cz_polar :: "'f \<Rightarrow> 'f \<Rightarrow> 'z"
  cz_exp_i :: "'f \<Rightarrow> 'z"

section \<open>Laws of the arithmetic\<close>

locale ieee_doubles =
  fixes fl :: "'f double_ops"
  assumes finite_num: "fd_isfinite fl x \<Longrightarrow> fd_num fl x"
    and infinity_num: "fd_num fl (fd_infinity fl)"
    and infinity_not_finite: "\<not> fd_isfinite fl (fd_infinity fl)"
    and less_iff: "fd_num fl x \<Longrightarrow> fd_num fl y \<Longrightarrow> fd_less fl x y \<longleftrightarrow> \<not> fd_le fl y x"
    and le_trans: "fd_le fl x y \<Longrightarrow> fd_le fl y z \<Longrightarrow> fd_le fl x z"
    and finite_less_infinity: "fd_isfinite fl x \<Longrightarrow> fd_less fl x (fd_infinity fl)"
    and le_linear: "fd_num fl x \<Longrightarrow> fd_num fl y \<Longrightarrow> fd_le fl x y \<or> fd_le fl y x"
    and finite_between: "fd_isfinite fl x \<Longrightarrow> fd_isfinite fl z \<Longrightarrow> fd_le fl x y \<Longrightarrow> fd_le fl y z \<Longrightarrow>
          fd_isfinite fl y"
    and add_mono: "fd_isfinite fl x \<Longrightarrow> fd_isfinite fl y \<Longrightarrow> fd_isfinite fl c \<Longrightarrow> fd_le fl x y \<Longrightarrow>
          fd_le fl (fd_add fl x c) (fd_add fl y c)"
    and add_small_finite: "fd_isfinite fl x \<Longrightarrow> fd_le fl (fd_of_int fl 0) c \<Longrightarrow>
          fd_le fl c (fd_of_int fl 2) \<Longrightarrow> fd_isfinite fl (fd_add fl x c)"
    and sub_antimono: "fd_isfinite fl x \<Longrightarrow> fd_isfinite fl y \<Longrightarrow> fd_isfinite fl c \<Longrightarrow> fd_le fl x y \<Longrightarrow>
          fd_le fl (fd_sub fl c y) (fd_sub fl c x)"
    and int_finite: "\<bar>i\<bar> \<le> 2 ^ 52 \<Longrightarrow> fd_isfinite fl (fd_of_int fl i)"
    and int_le: "\<bar>i\<bar> \<le> 2 ^ 52 \<Longrightarrow> \<bar>j\<bar> \<le> 2 ^ 52 \<Longrightarrow>
          fd_le fl (fd_of_int fl i) (fd_of_int fl j) \<longleftrightarrow> i \<le> j"
    and int_sub: "\<bar>i\<bar> \<le> 2 ^ 51 \<Longrightarrow> \<bar>j\<bar> \<le> 2 ^ 51 \<Longrightarrow>
          fd_sub fl (fd_of_int fl i) (fd_of_int fl j) = fd_of_int fl (i - j)"
    and int_abs: "\<bar>i\<bar> \<le> 2 ^ 52 \<Longrightarrow> fd_abs fl (fd_of_int fl i) = fd_of_int fl \<bar>i\<bar>"
    and epsilon_pos: "fd_le fl (fd_of_int fl 0) (fd_epsilon fl)"
    and epsilon_small: "\<not> fd_le fl (fd_of_int fl 1) (fd_epsilon fl)"
begin

lemma num_of_le: "fd_le fl x y \<Longrightarrow> fd_isfinite fl x \<Longrightarrow> fd_isfinite fl z \<Longrightarrow> fd_le fl y z \<Longrightarrow> fd_num fl y"
  using finite_between finite_num by blast

lemma small_int_finite [simp]:
  "fd_isfinite fl (fd_of_int fl 0)" "fd_isfinite fl (fd_of_int fl 1)"
  "fd_isfinite fl (fd_of_int fl (- 1))" "fd_isfinite fl (fd_of_int fl 2)"
  by (rule int_finite; simp)+

text \<open>Clamping a number to the interval from \<open>-1\<close> to \<open>1\<close> and subtracting it from one.\<close>

lemma clamp_bounds:
  assumes "fd_num fl x"
  shows "fd_le fl (fd_of_int fl (- 1)) (fd_clamp fl x (fd_of_int fl (- 1)) (fd_of_int fl 1))"
    and "fd_le fl (fd_clamp fl x (fd_of_int fl (- 1)) (fd_of_int fl 1)) (fd_of_int fl 1)"
proof -
  have n: "fd_num fl (fd_of_int fl (- 1))" "fd_num fl (fd_of_int fl 1)"
    by (simp_all add: finite_num)
  have o: "fd_le fl (fd_of_int fl (- 1)) (fd_of_int fl 1)"
    by (subst int_le) simp_all
  show "fd_le fl (fd_of_int fl (- 1)) (fd_clamp fl x (fd_of_int fl (- 1)) (fd_of_int fl 1))"
    using n o less_iff [OF assms n(1)] by (auto simp: fd_clamp_def fd_num_def)
  show "fd_le fl (fd_clamp fl x (fd_of_int fl (- 1)) (fd_of_int fl 1)) (fd_of_int fl 1)"
    using n o less_iff [OF n(2) assms] by (auto simp: fd_clamp_def fd_num_def)
qed

lemma one_minus_clamp:
  assumes "fd_num fl x"
  defines "c \<equiv> fd_sub fl (fd_of_int fl 1) (fd_clamp fl x (fd_of_int fl (- 1)) (fd_of_int fl 1))"
  shows "fd_le fl (fd_of_int fl 0) c" "fd_le fl c (fd_of_int fl 2)" "fd_isfinite fl c"
proof -
  let ?k = "fd_clamp fl x (fd_of_int fl (- 1)) (fd_of_int fl 1)"
  note b = clamp_bounds [OF assms(1)]
  have f: "fd_isfinite fl ?k" by (rule finite_between [OF _ _ b]) simp_all
  have "fd_le fl (fd_sub fl (fd_of_int fl 1) (fd_of_int fl 1)) c"
    unfolding c_def by (rule sub_antimono [OF f _ _ b(2)]) simp_all
  moreover have "fd_sub fl (fd_of_int fl 1) (fd_of_int fl 1) = fd_of_int fl 0"
    by (subst int_sub) simp_all
  ultimately show lo: "fd_le fl (fd_of_int fl 0) c" by simp
  have "fd_le fl c (fd_sub fl (fd_of_int fl 1) (fd_of_int fl (- 1)))"
    unfolding c_def by (rule sub_antimono [OF _ f _ b(1)]) simp_all
  moreover have "fd_sub fl (fd_of_int fl 1) (fd_of_int fl (- 1)) = fd_of_int fl 2"
    by (subst int_sub) simp_all
  ultimately show hi: "fd_le fl c (fd_of_int fl 2)" by simp
  show "fd_isfinite fl c" by (rule finite_between [OF _ _ lo hi]) simp_all
qed

lemma sign_tests:
  "fd_le fl (fd_of_int fl 0) (fd_of_int fl 1)" "\<not> fd_le fl (fd_of_int fl 0) (fd_of_int fl (- 1))"
  by (subst int_le; simp)+

lemma symbols_differ: "fd_of_int fl 1 \<noteq> fd_of_int fl (- 1)"
  using sign_tests by metis

lemma NearlyEqual_int:
  assumes "\<bar>i\<bar> \<le> 2 ^ 50" "\<bar>j\<bar> \<le> 2 ^ 50"
  shows "NearlyEqual fl (fd_of_int fl i) (fd_of_int fl j) \<longleftrightarrow> i = j"
proof -
  have s: "fd_sub fl (fd_of_int fl i) (fd_of_int fl j) = fd_of_int fl (i - j)"
    using assms by (intro int_sub) simp_all
  have a: "fd_abs fl (fd_of_int fl (i - j)) = fd_of_int fl \<bar>i - j\<bar>"
    using assms by (intro int_abs) simp
  show ?thesis
  proof (cases "i = j")
    case True
    then show ?thesis using s a epsilon_pos by (simp add: NearlyEqual_def)
  next
    case False
    then have "fd_le fl (fd_of_int fl 1) (fd_of_int fl \<bar>i - j\<bar>)"
      using assms by (subst int_le) auto
    then show ?thesis using s a epsilon_small le_trans False by (auto simp: NearlyEqual_def)
  qed
qed

end

section \<open>Exact arithmetic\<close>

text \<open>
  Real numbers with one more value, an infinity above all of them, satisfy the laws. A sum, a
  difference or a product with the infinity is the infinity.
\<close>

definition ext2 :: "(real \<Rightarrow> real \<Rightarrow> real) \<Rightarrow> real option \<Rightarrow> real option \<Rightarrow> real option" where
  "ext2 f x y = (case (x, y) of (Some a, Some b) \<Rightarrow> Some (f a b) | _ \<Rightarrow> None)"

definition ext_le :: "real option \<Rightarrow> real option \<Rightarrow> bool" where
  "ext_le x y = (case y of None \<Rightarrow> True | Some b \<Rightarrow> (case x of None \<Rightarrow> False | Some a \<Rightarrow> a \<le> b))"

definition exact_ops :: "real option double_ops" where
  "exact_ops = \<lparr>fd_of_int = (\<lambda>i. Some (of_int i)), fd_epsilon = Some (1 / 1000000),
     fd_machine_epsilon = Some (1 / 2 ^ 52), fd_infinity = None, fd_pi = Some pi,
     fd_add = ext2 (+), fd_sub = ext2 (-), fd_mul = ext2 (*), fd_div = ext2 (/),
     fd_fmod = ext2 (\<lambda>a b. a - b * of_int \<lfloor>a / b\<rfloor>), fd_abs = map_option abs,
     fd_less = (\<lambda>x y. \<not> ext_le y x), fd_le = ext_le, fd_isfinite = (\<lambda>x. x \<noteq> None),
     fd_llround = (\<lambda>x. case x of None \<Rightarrow> 0 | Some a \<Rightarrow> round a)\<rparr>"

lemma exact_num [simp]: "fd_num exact_ops x"
  by (cases x) (simp_all add: fd_num_def exact_ops_def ext_le_def)

interpretation exact: ieee_doubles exact_ops
proof
  fix x y z c :: "real option" and i j :: int
  show "fd_isfinite exact_ops x \<Longrightarrow> fd_num exact_ops x" "fd_num exact_ops (fd_infinity exact_ops)"
    by simp_all
  show "\<not> fd_isfinite exact_ops (fd_infinity exact_ops)"
    "fd_less exact_ops x y \<longleftrightarrow> \<not> fd_le exact_ops y x"
    "fd_isfinite exact_ops x \<Longrightarrow> fd_less exact_ops x (fd_infinity exact_ops)"
    "fd_isfinite exact_ops (fd_of_int exact_ops i)"
    "fd_le exact_ops (fd_of_int exact_ops i) (fd_of_int exact_ops j) \<longleftrightarrow> i \<le> j"
    "fd_sub exact_ops (fd_of_int exact_ops i) (fd_of_int exact_ops j) = fd_of_int exact_ops (i - j)"
    "fd_abs exact_ops (fd_of_int exact_ops i) = fd_of_int exact_ops \<bar>i\<bar>"
    "fd_le exact_ops (fd_of_int exact_ops 0) (fd_epsilon exact_ops)"
    "\<not> fd_le exact_ops (fd_of_int exact_ops 1) (fd_epsilon exact_ops)"
    by (auto simp: exact_ops_def ext_le_def ext2_def)
  show "fd_le exact_ops x y \<Longrightarrow> fd_le exact_ops y z \<Longrightarrow> fd_le exact_ops x z"
    "fd_le exact_ops x y \<or> fd_le exact_ops y x"
    by (auto simp: exact_ops_def ext_le_def split: option.splits)
  show "fd_isfinite exact_ops x \<Longrightarrow> fd_isfinite exact_ops z \<Longrightarrow> fd_le exact_ops x y \<Longrightarrow>
      fd_le exact_ops y z \<Longrightarrow> fd_isfinite exact_ops y"
    "fd_isfinite exact_ops x \<Longrightarrow> fd_le exact_ops (fd_of_int exact_ops 0) c \<Longrightarrow>
      fd_le exact_ops c (fd_of_int exact_ops 2) \<Longrightarrow> fd_isfinite exact_ops (fd_add exact_ops x c)"
    by (auto simp: exact_ops_def ext_le_def ext2_def split: option.splits)
  show "fd_isfinite exact_ops x \<Longrightarrow> fd_isfinite exact_ops y \<Longrightarrow> fd_isfinite exact_ops c \<Longrightarrow>
      fd_le exact_ops x y \<Longrightarrow> fd_le exact_ops (fd_add exact_ops x c) (fd_add exact_ops y c)"
    "fd_isfinite exact_ops x \<Longrightarrow> fd_isfinite exact_ops y \<Longrightarrow> fd_isfinite exact_ops c \<Longrightarrow>
      fd_le exact_ops x y \<Longrightarrow> fd_le exact_ops (fd_sub exact_ops c y) (fd_sub exact_ops c x)"
    by (auto simp: exact_ops_def ext_le_def ext2_def)
qed

end
