(* ===== verification/Fhss_Config.thy ===== *)
theory Fhss_Config
  imports Decimal Fhss_Doubles
begin

text \<open>
  Receiver configurations (\<open>libdsp/src/configuration\<close>): the source configuration the user edits, the
  derivation of the effective one (\<open>FHSSConfigurationDeriver.cpp\<close>) and the cross-node checks
  (\<open>FHSSCrossNodeValidator.cpp\<close>). A configuration passes the checks exactly when it meets the
  conditions of \<open>acceptable\<close>; the checks that compare the derived with the source configuration
  can only fail for values that are not numbers.

  Text produced from doubles, JSON text and the conversion of a double to an integer are operations
  of the environment \<open>config_env\<close>, about which nothing is assumed.
\<close>

type_synonym i32 = "32 word"

section \<open>Data\<close>

datatype 'f json_scalar = JNat nat | JBool bool | JInt i32 | JDouble 'f | JString string

record 'f config_env =
  ce_fl :: "'f double_ops"
  ce_stod :: "string \<Rightarrow> ('f, string) expected"
  ce_to_string :: "'f \<Rightarrow> string"
  ce_to_int32 :: "'f \<Rightarrow> i32"
  ce_dump :: "(string \<times> 'f json_scalar) list \<Rightarrow> string"

record 'f source_configuration =
  sc_messages :: "string list"
  sc_iq_center_frequency_hz :: 'f
  sc_iq_offsets :: "'f list"
  sc_idle_mode :: string
  sc_idle_duration_samples :: i32
  sc_occupied_bandwidth_hz :: 'f
  sc_max_abs_cfo_hz :: 'f
  sc_enable_noise :: bool
  sc_enable_doppler :: bool
  sc_enable_multipath :: bool
  sc_allow_overlap :: bool
  sc_message_id :: string
  sc_transmit_start_sample :: i32
  sc_frequency_index :: i32
  sc_value :: string
  sc_role :: string

text \<open>The effective configuration copies every field of the source and adds the derived ones.\<close>

record 'f effective_configuration = "'f source_configuration" +
  ec_active_frequency_indices_source :: "i32 list"
  ec_active_frequency_indices_preamble :: "i32 list"
  ec_active_frequency_indices_channelizer :: "i32 list"
  ec_preamble_pulses :: "string list"
  ec_rf_copies :: "string list"
  ec_impairment_copies :: "string list"
  ec_message_assembler_config :: string
  ec_pulse_frequency_indices_source :: "i32 list"
  ec_pulse_frequency_indices_preamble :: "i32 list"
  ec_pulse_frequency_indices_channelizer :: "i32 list"
  ec_revision :: u64
  ec_etag :: string

record config_validation_error =
  vx_error_code :: string
  vx_field :: string
  vx_message :: string
  vx_expected_constraint :: string
  vx_current_value :: string

section \<open>Derivation\<close>

text \<open>
  The phase argument is unused by the code. The sum of a frequency index and an offset is a signed
  addition: beyond \<open>INT_MAX\<close> it is undefined in C++ and wraps around here, so the model describes the
  code for indices below \<open>INT_MAX\<close> by twice the number of messages.
\<close>

definition DeriveFrequencyIndices :: "'f source_configuration \<Rightarrow> i32 list" where
  "DeriveFrequencyIndices source =
     sort_key sint
       (if sc_messages source \<noteq> [] \<and> 0 \<le> sint (sc_frequency_index source)
        then sc_frequency_index source #
             map (\<lambda>i. sc_frequency_index source + of_nat (i * 2)) [1 ..< length (sc_messages source)]
        else [])"

definition DerivePreamblePulses :: "'f source_configuration \<Rightarrow> string list" where
  "DerivePreamblePulses source =
     map (\<lambda>i. ''pulse_msg_'' @ to_string i @ ''_freq_'' @ int_to_string (sint (sc_frequency_index source)))
       [0 ..< length (sc_messages source)]"

definition DeriveRfCopies :: "'f config_env \<Rightarrow> 'f source_configuration \<Rightarrow> string list" where
  "DeriveRfCopies env source =
     map (\<lambda>i. ''rf_copy_msg_'' @ to_string i @ ''_bw_'' @
         int_to_string (sint (ce_to_int32 env (sc_occupied_bandwidth_hz source))))
       [0 ..< length (sc_messages source)]"

definition DeriveImpairmentCopies :: "'f source_configuration \<Rightarrow> string list" where
  "DeriveImpairmentCopies source =
     (if sc_enable_doppler source then [''impairment_doppler''] else []) @
     (if sc_enable_multipath source then [''impairment_multipath''] else []) @
     (if sc_enable_noise source then [''impairment_noise''] else [])"

text \<open>The members of the object in the order of their sorted keys.\<close>

definition DeriveMessageAssemblerConfig :: "'f config_env \<Rightarrow> 'f source_configuration \<Rightarrow> string" where
  "DeriveMessageAssemblerConfig env source =
     ce_dump env
       [(''allow_overlap'', JBool (sc_allow_overlap source)),
        (''cfo_max_hz'', JDouble (sc_max_abs_cfo_hz source)),
        (''idle_duration_samples'', JInt (sc_idle_duration_samples source)),
        (''idle_mode'', JString (sc_idle_mode source)),
        (''num_messages'', JNat (length (sc_messages source))),
        (''start_sample'', JInt (sc_transmit_start_sample source))]"

definition etag_of :: "u64 \<Rightarrow> string" where
  "etag_of revision = ''Rev:'' @ to_string (unat revision)"

definition Derive :: "'f config_env \<Rightarrow> 'f source_configuration \<Rightarrow> u64 \<Rightarrow> 'f effective_configuration" where
  "Derive env source revision =
     source_configuration.extend source
      \<lparr>ec_active_frequency_indices_source = DeriveFrequencyIndices source,
       ec_active_frequency_indices_preamble = DeriveFrequencyIndices source,
       ec_active_frequency_indices_channelizer = DeriveFrequencyIndices source,
       ec_preamble_pulses = DerivePreamblePulses source,
       ec_rf_copies = DeriveRfCopies env source,
       ec_impairment_copies = DeriveImpairmentCopies source,
       ec_message_assembler_config = DeriveMessageAssemblerConfig env source,
       ec_pulse_frequency_indices_source = DeriveFrequencyIndices source,
       ec_pulse_frequency_indices_preamble = DeriveFrequencyIndices source,
       ec_pulse_frequency_indices_channelizer = DeriveFrequencyIndices source,
       ec_revision = revision,
       ec_etag = etag_of revision\<rparr>"

section \<open>Validation\<close>

definition check_error :: "string \<Rightarrow> string \<Rightarrow> string \<Rightarrow> string \<Rightarrow> string \<Rightarrow> config_validation_error" where
  "check_error code field message expected current =
     \<lparr>vx_error_code = code, vx_field = field, vx_message = message, vx_expected_constraint = expected,
      vx_current_value = current\<rparr>"

fun uniqueness_loop :: "string set \<Rightarrow> string list \<Rightarrow> config_validation_error list" where
  "uniqueness_loop seen [] = []"
| "uniqueness_loop seen (m # ms) =
     (if m \<in> seen
      then [check_error ''ERR_MESSAGE_001'' ''messages'' ''Duplicate message ID found''
              ''All message IDs must be unique'' m]
      else []) @ uniqueness_loop (insert m seen) ms"

definition ValidateMessageUniqueness :: "'f source_configuration \<Rightarrow> config_validation_error list" where
  "ValidateMessageUniqueness source = uniqueness_loop {} (sc_messages source)"

definition ValidateFrequencyConstraint ::
    "'f config_env \<Rightarrow> 'f source_configuration \<Rightarrow> config_validation_error list" where
  "ValidateFrequencyConstraint env source =
     (let fl = ce_fl env; f = sc_iq_center_frequency_hz source
      in if fd_less fl f (fd_of_int fl 0) \<or> fd_less fl (fd_of_int fl 10000000000) f
         then [check_error ''ERR_FREQUENCY_001'' ''iq_center_frequency_hz''
                 ''Center frequency out of valid range'' ''Must be between 0 Hz and 10 GHz'' (ce_to_string env f)]
         else [])"

definition ValidateCfoConstraint ::
    "'f config_env \<Rightarrow> 'f source_configuration \<Rightarrow> config_validation_error list" where
  "ValidateCfoConstraint env source =
     (let fl = ce_fl env; c = sc_max_abs_cfo_hz source
      in (if fd_less fl c (fd_of_int fl 0)
          then [check_error ''ERR_CFO_001'' ''max_abs_cfo_hz'' ''Maximum CFO must be non-negative''
                  ''max_abs_cfo_hz >= 0'' (ce_to_string env c)]
          else []) @
         (if fd_less fl (fd_mul fl (sc_iq_center_frequency_hz source) (fd_half fl)) c
          then [check_error ''ERR_CFO_001'' ''max_abs_cfo_hz'' ''CFO exceeds 50% of center frequency''
                  ''max_abs_cfo_hz <= 0.5 * center_frequency'' (ce_to_string env c)]
          else []))"

definition ValidateBandwidthConstraint ::
    "'f config_env \<Rightarrow> 'f source_configuration \<Rightarrow> config_validation_error list" where
  "ValidateBandwidthConstraint env source =
     (let fl = ce_fl env; b = sc_occupied_bandwidth_hz source
      in (if fd_le fl b (fd_of_int fl 0)
          then [check_error ''ERR_BANDWIDTH_001'' ''occupied_bandwidth_hz''
                  ''Occupied bandwidth must be positive'' ''occupied_bandwidth_hz > 0'' (ce_to_string env b)]
          else []) @
         (if fd_less fl (fd_of_int fl 10000000000) b
          then [check_error ''ERR_BANDWIDTH_001'' ''occupied_bandwidth_hz''
                  ''Occupied bandwidth exceeds reasonable limit'' ''occupied_bandwidth_hz <= 10 GHz''
                  (ce_to_string env b)]
          else []))"

definition ValidateScheduleOrdering :: "'f source_configuration \<Rightarrow> config_validation_error list" where
  "ValidateScheduleOrdering source =
     (if sint (sc_transmit_start_sample source) < 0
      then [check_error ''ERR_SCHEDULE_001'' ''transmit_start_sample''
              ''Transmit start sample must be non-negative'' ''transmit_start_sample >= 0''
              (int_to_string (sint (sc_transmit_start_sample source)))]
      else [])"

definition ValidateBandwidthCfoAgreement ::
    "'f config_env \<Rightarrow> 'f source_configuration \<Rightarrow> config_validation_error list" where
  "ValidateBandwidthCfoAgreement env source =
     (let fl = ce_fl env; b = sc_occupied_bandwidth_hz source; c = sc_max_abs_cfo_hz source
      in if fd_less fl (fd_of_int fl 0) b \<and> fd_less fl (fd_of_int fl 0) c \<and>
            fd_less fl b (fd_mul fl (fd_of_int fl 2) c)
         then [check_error ''ERR_BANDWIDTH_CFO_001'' ''occupied_bandwidth_hz''
                 ''Bandwidth too narrow for CFO correction'' ''occupied_bandwidth_hz >= 2 * max_abs_cfo_hz''
                 (ce_to_string env b @ '' (CFO: '' @ ce_to_string env c @ '')'')]
         else [])"

definition ValidateIdleDurationValid :: "'f source_configuration \<Rightarrow> config_validation_error list" where
  "ValidateIdleDurationValid source =
     (if sint (sc_idle_duration_samples source) < 0
      then [check_error ''ERR_IDLE_001'' ''idle_duration_samples'' ''Idle duration must be non-negative''
              ''idle_duration_samples >= 0'' (int_to_string (sint (sc_idle_duration_samples source)))]
      else [])"

definition ValidatePreambleFormat :: "'f source_configuration \<Rightarrow> config_validation_error list" where
  "ValidatePreambleFormat source =
     (if sc_message_id source \<noteq> [] \<and> length (sc_message_id source) > 256
      then [check_error ''ERR_PREAMBLE_001'' ''message_id'' ''Message ID exceeds maximum length''
              ''message_id length <= 256'' (''length='' @ to_string (length (sc_message_id source)))]
      else [])"

definition ValidateTopologyInvariant ::
    "'f source_configuration \<Rightarrow> 'f effective_configuration \<Rightarrow> config_validation_error list" where
  "ValidateTopologyInvariant source effective =
     (if sc_messages source \<noteq> [] \<and> ec_active_frequency_indices_source effective = []
      then [check_error ''ERR_TOPOLOGY_001'' ''active_frequency_indices_source''
              ''Generated frequency indices missing for active messages''
              ''Must have derived frequency indices for each message phase'' ''empty'']
      else [])"

definition ValidateTopologyPreservation ::
    "'f source_configuration \<Rightarrow> 'f effective_configuration \<Rightarrow> config_validation_error list" where
  "ValidateTopologyPreservation source effective =
     (if length (sc_messages source) \<noteq> length (sc_messages effective)
      then [check_error ''ERR_TOPOLOGY_002'' ''messages'' ''Message topology changed during derivation''
              ''Message count must be preserved''
              (to_string (length (sc_messages source)) @ '' -> '' @
               to_string (length (sc_messages effective)))]
      else [])"

text \<open>The operator \<open>!=\<close> on doubles.\<close>

definition fd_differ :: "'f double_ops \<Rightarrow> 'f \<Rightarrow> 'f \<Rightarrow> bool" where
  "fd_differ fl x y \<longleftrightarrow> \<not> (fd_le fl x y \<and> fd_le fl y x)"

definition ValidateCrossNodeConsistency ::
    "'f config_env \<Rightarrow> 'f source_configuration \<Rightarrow> 'f effective_configuration \<Rightarrow> config_validation_error list" where
  "ValidateCrossNodeConsistency env source effective =
     (if fd_differ (ce_fl env) (sc_iq_center_frequency_hz source) (sc_iq_center_frequency_hz effective)
      then [check_error ''ERR_CONSISTENCY_001'' ''iq_center_frequency_hz''
              ''Center frequency changed during derivation'' ''Derived config must match source config''
              (''source='' @ ce_to_string env (sc_iq_center_frequency_hz source) @ '', effective='' @
               ce_to_string env (sc_iq_center_frequency_hz effective))]
      else []) @
     (if fd_differ (ce_fl env) (sc_max_abs_cfo_hz source) (sc_max_abs_cfo_hz effective)
      then [check_error ''ERR_CONSISTENCY_001'' ''max_abs_cfo_hz'' ''Max CFO changed during derivation''
              ''Derived config must match source config'' (ce_to_string env (sc_max_abs_cfo_hz source))]
      else [])"

definition ValidateDerivedProjectionMatch ::
    "'f config_env \<Rightarrow> 'f source_configuration \<Rightarrow> 'f effective_configuration \<Rightarrow> config_validation_error list" where
  "ValidateDerivedProjectionMatch env source effective =
     (let re_derived = Derive env source (ec_revision effective)
      in if ec_preamble_pulses effective \<noteq> ec_preamble_pulses re_derived
         then [check_error ''ERR_PROJECTION_001'' ''preamble_pulses''
                 ''Derived preamble pulses do not match expected'' ''Derivation must be deterministic''
                 ''mismatch'']
         else [])"

definition valid_roles :: "string list" where
  "valid_roles = [''transmitter'', ''receiver'', ''transceiver'']"

definition ValidateRoleConsistency :: "'f source_configuration \<Rightarrow> config_validation_error list" where
  "ValidateRoleConsistency source =
     (if sc_role source \<notin> set valid_roles
      then [check_error ''ERR_ROLE_001'' ''role'' ''Invalid or missing role specified''
              ''role must be one of: transmitter, receiver, transceiver''
              (if sc_role source = [] then ''(empty)'' else sc_role source)]
      else [])"

definition ValidateAll ::
    "'f config_env \<Rightarrow> 'f source_configuration \<Rightarrow> 'f effective_configuration \<Rightarrow> config_validation_error list" where
  "ValidateAll env source effective =
     ValidateMessageUniqueness source @ ValidateFrequencyConstraint env source @
     ValidateCfoConstraint env source @ ValidateBandwidthConstraint env source @
     ValidateScheduleOrdering source @ ValidateBandwidthCfoAgreement env source @
     ValidateIdleDurationValid source @ ValidatePreambleFormat source @
     ValidateTopologyInvariant source effective @ ValidateTopologyPreservation source effective @
     ValidateCrossNodeConsistency env source effective @
     ValidateDerivedProjectionMatch env source effective @ ValidateRoleConsistency source"

definition HasErrors :: "config_validation_error list \<Rightarrow> bool" where
  "HasErrors errors \<longleftrightarrow> errors \<noteq> []"

definition HasErrorCode :: "config_validation_error list \<Rightarrow> string \<Rightarrow> bool" where
  "HasErrorCode errors code \<longleftrightarrow> (\<exists>e \<in> set errors. vx_error_code e = code)"

fun summary_lines :: "nat \<Rightarrow> config_validation_error list \<Rightarrow> string" where
  "summary_lines i [] = []"
| "summary_lines i (e # es) =
     to_string (i + 1) @ ''. ['' @ vx_error_code e @ ''] '' @ vx_message e @ '' ('' @ vx_field e @ '')'' @
     (if es \<noteq> [] then [CHR 0x0A] else []) @ summary_lines (i + 1) es"

definition GetErrorSummary :: "config_validation_error list \<Rightarrow> string" where
  "GetErrorSummary errors =
     (if errors = [] then ''Configuration is valid''
      else ''Found '' @ to_string (length errors) @ '' validation error(s):'' @ [CHR 0x0A] @
           summary_lines 0 errors)"

section \<open>What the checks accept\<close>

text \<open>The conditions on a source configuration.\<close>

definition acceptable :: "'f config_env \<Rightarrow> 'f source_configuration \<Rightarrow> bool" where
  "acceptable env source \<longleftrightarrow>
     (let fl = ce_fl env; f = sc_iq_center_frequency_hz source; c = sc_max_abs_cfo_hz source;
          b = sc_occupied_bandwidth_hz source
      in distinct (sc_messages source) \<and>
         (sc_messages source \<noteq> [] \<longrightarrow> 0 \<le> sint (sc_frequency_index source)) \<and>
         fd_num fl f \<and> fd_num fl c \<and>
         \<not> fd_less fl f (fd_of_int fl 0) \<and> \<not> fd_less fl (fd_of_int fl 10000000000) f \<and>
         \<not> fd_less fl c (fd_of_int fl 0) \<and> \<not> fd_less fl (fd_mul fl f (fd_half fl)) c \<and>
         \<not> fd_le fl b (fd_of_int fl 0) \<and> \<not> fd_less fl (fd_of_int fl 10000000000) b \<and>
         \<not> (fd_less fl (fd_of_int fl 0) b \<and> fd_less fl (fd_of_int fl 0) c \<and>
            fd_less fl b (fd_mul fl (fd_of_int fl 2) c)) \<and>
         0 \<le> sint (sc_transmit_start_sample source) \<and> 0 \<le> sint (sc_idle_duration_samples source) \<and>
         length (sc_message_id source) \<le> 256 \<and> sc_role source \<in> set valid_roles)"

lemma uniqueness_loop_empty_iff:
  "uniqueness_loop seen ms = [] \<longleftrightarrow> distinct ms \<and> set ms \<inter> seen = {}"
  by (induction ms arbitrary: seen) auto

lemma Derive_simps [simp]:
  "sc_messages (Derive env source r) = sc_messages source"
  "sc_iq_center_frequency_hz (Derive env source r) = sc_iq_center_frequency_hz source"
  "sc_max_abs_cfo_hz (Derive env source r) = sc_max_abs_cfo_hz source"
  "ec_active_frequency_indices_source (Derive env source r) = DeriveFrequencyIndices source"
  "ec_preamble_pulses (Derive env source r) = DerivePreamblePulses source"
  "ec_revision (Derive env source r) = r"
  "ec_etag (Derive env source r) = etag_of r"
  by (simp_all add: Derive_def source_configuration.defs)

lemma DeriveFrequencyIndices_empty_iff:
  "DeriveFrequencyIndices source = [] \<longleftrightarrow> sc_messages source = [] \<or> sint (sc_frequency_index source) < 0"
  by (auto simp: DeriveFrequencyIndices_def sort_key_simps)

lemma etag_of_inject [simp]: "etag_of r = etag_of s \<longleftrightarrow> r = s"
  by (simp add: etag_of_def inj_to_string word_unat_eq_iff)

text \<open>
  What the cross-node checks accept. For the effective configuration derived from a source, at any
  revision, the list of errors is empty exactly when the source is acceptable: distinct messages,
  a frequency index that is not negative when there are messages, numbers within their ranges,
  samples that are not negative, a message id of at most 256 characters and a known role. The
  answer does not depend on the revision.
\<close>

lemma ValidateAll_accepts_iff:
  "ValidateAll env source (Derive env source revision) = [] \<longleftrightarrow> acceptable env source"
proof -
  have u: "ValidateMessageUniqueness source = [] \<longleftrightarrow> distinct (sc_messages source)"
    by (simp add: ValidateMessageUniqueness_def uniqueness_loop_empty_iff)
  have t: "ValidateTopologyInvariant source (Derive env source revision) = [] \<longleftrightarrow>
      (sc_messages source \<noteq> [] \<longrightarrow> 0 \<le> sint (sc_frequency_index source))"
    by (auto simp: ValidateTopologyInvariant_def DeriveFrequencyIndices_empty_iff)
  have c: "ValidateCrossNodeConsistency env source (Derive env source revision) = [] \<longleftrightarrow>
      fd_num (ce_fl env) (sc_iq_center_frequency_hz source) \<and> fd_num (ce_fl env) (sc_max_abs_cfo_hz source)"
    by (simp add: ValidateCrossNodeConsistency_def fd_differ_def fd_num_def)
  have r: "ValidateTopologyPreservation source (Derive env source revision) = []"
    "ValidateDerivedProjectionMatch env source (Derive env source revision) = []"
    by (simp_all add: ValidateTopologyPreservation_def ValidateDerivedProjectionMatch_def)
  have l: "ValidatePreambleFormat source = [] \<longleftrightarrow> length (sc_message_id source) \<le> 256"
    by (auto simp: ValidatePreambleFormat_def)
  show ?thesis
    unfolding ValidateAll_def append_is_Nil_conv u t c r l acceptable_def Let_def
      ValidateFrequencyConstraint_def ValidateCfoConstraint_def ValidateBandwidthConstraint_def
      ValidateScheduleOrdering_def ValidateBandwidthCfoAgreement_def ValidateIdleDurationValid_def
      ValidateRoleConsistency_def
    by (simp add: not_less) blast
qed

end
