(* ===== verification/Fhss_Config_State.thy ===== *)
theory Fhss_Config_State
  imports Fhss_Config
begin

text \<open>
  The editor of receiver configurations
  (\<open>libdsp/src/configuration/ConfigurationStateMachine.cpp\<close>): revisions with undo and redo, staged
  edits, commits with an \<open>If-Match\<close> precondition, and patches. Its history implements a bounded
  zipper (past, present, future); revision numbers, and with them the entity tags, are never
  reused; a patch either commits completely or leaves the configuration as it was.

  A \<open>Result\<close> is a sum with the failure on the left. \<open>Failed\<close> carries the message and the validation
  errors; \<open>Thrown\<close> is the exception of an index outside the history, which does not occur.
\<close>

section \<open>State\<close>

record 'f revision_snapshot =
  sn_revision :: u64
  sn_source :: "'f source_configuration"
  sn_effective :: "'f effective_configuration"
  sn_validation_errors :: "config_validation_error list"
  sn_is_valid :: bool

record 'f staged_edit_handle =
  sh_id :: u64
  sh_base_revision :: u64
  sh_staged_source :: "'f source_configuration"
  sh_is_valid :: bool

record 'f configuration_state_machine =
  cs_revision_history :: "'f revision_snapshot list"
  cs_current_revision_index :: nat
  cs_next_revision_counter :: u64
  cs_staged_edits :: "u64 \<Rightarrow> 'f staged_edit_handle option"
  cs_next_staged_edit_id :: u64

datatype config_failure = Failed string "config_validation_error list" | Thrown string

type_synonym 'v config_result = "('v, config_failure) expected"

definition MAX_REVISION_HISTORY :: nat where
  "MAX_REVISION_HISTORY = 10"

section \<open>Operations\<close>

definition CreateSnapshot :: "'f config_env \<Rightarrow> u64 \<Rightarrow> 'f source_configuration \<Rightarrow> 'f revision_snapshot" where
  "CreateSnapshot env revision source =
     \<lparr>sn_revision = revision, sn_source = source, sn_effective = Derive env source revision,
      sn_validation_errors = [], sn_is_valid = True\<rparr>"

definition ValidateAndUpdateSnapshot :: "'f config_env \<Rightarrow> 'f revision_snapshot \<Rightarrow> 'f revision_snapshot" where
  "ValidateAndUpdateSnapshot env snapshot =
     (let errors = ValidateAll env (sn_source snapshot) (sn_effective snapshot)
      in snapshot\<lparr>sn_validation_errors := errors, sn_is_valid := (errors = [])\<rparr>)"

definition ConfigurationStateMachine ::
    "'f config_env \<Rightarrow> 'f source_configuration \<Rightarrow> 'f configuration_state_machine" where
  "ConfigurationStateMachine env initial_source =
     \<lparr>cs_revision_history = [ValidateAndUpdateSnapshot env (CreateSnapshot env 1 initial_source)],
      cs_current_revision_index = 0, cs_next_revision_counter = 1, cs_staged_edits = (\<lambda>_. None),
      cs_next_staged_edit_id = 1\<rparr>"

definition GetCurrentSnapshot :: "'f configuration_state_machine \<Rightarrow> 'f revision_snapshot config_result" where
  "GetCurrentSnapshot s =
     (if cs_current_revision_index s \<ge> length (cs_revision_history s) then Inl (Thrown ''Invalid revision index'')
      else Inr (cs_revision_history s ! cs_current_revision_index s))"

definition GetSourceConfiguration :: "'f configuration_state_machine \<Rightarrow> 'f source_configuration config_result" where
  "GetSourceConfiguration s = map_sum id sn_source (GetCurrentSnapshot s)"

definition GetEffectiveConfiguration ::
    "'f configuration_state_machine \<Rightarrow> 'f effective_configuration config_result" where
  "GetEffectiveConfiguration s = map_sum id sn_effective (GetCurrentSnapshot s)"

definition GetActiveConfiguration ::
    "'f configuration_state_machine \<Rightarrow> 'f effective_configuration config_result" where
  "GetActiveConfiguration s = map_sum id sn_effective (GetCurrentSnapshot s)"

definition GetCurrentRevision :: "'f configuration_state_machine \<Rightarrow> u64 config_result" where
  "GetCurrentRevision s = map_sum id sn_revision (GetCurrentSnapshot s)"

definition GetCurrentETag :: "'f configuration_state_machine \<Rightarrow> string config_result" where
  "GetCurrentETag s = map_sum id etag_of (GetCurrentRevision s)"

definition IsCurrentlyValid :: "'f configuration_state_machine \<Rightarrow> bool config_result" where
  "IsCurrentlyValid s = map_sum id sn_is_valid (GetCurrentSnapshot s)"

definition GetCurrentValidationErrors ::
    "'f configuration_state_machine \<Rightarrow> config_validation_error list config_result" where
  "GetCurrentValidationErrors s = map_sum id sn_validation_errors (GetCurrentSnapshot s)"

definition CreateStagedEdit ::
    "'f configuration_state_machine \<Rightarrow> 'f configuration_state_machine \<times> 'f staged_edit_handle config_result" where
  "CreateStagedEdit s =
     (case GetCurrentSnapshot s of
        Inl e \<Rightarrow> (s, Inl e)
      | Inr current \<Rightarrow>
          let handle = \<lparr>sh_id = cs_next_staged_edit_id s, sh_base_revision = sn_revision current,
                sh_staged_source = sn_source current, sh_is_valid = False\<rparr>
          in (s\<lparr>cs_next_staged_edit_id := cs_next_staged_edit_id s + 1,
                cs_staged_edits := (cs_staged_edits s)(sh_id handle \<mapsto> handle)\<rparr>, Inr handle))"

text \<open>The assignment to one field; on the left the text of the exception, or \<open>None\<close> for an unknown field.\<close>

definition is_true :: "string \<Rightarrow> bool" where
  "is_true v \<longleftrightarrow> v = ''true'' \<or> v = ''1''"

definition set_field ::
    "'f config_env \<Rightarrow> string \<Rightarrow> string \<Rightarrow> 'f source_configuration \<Rightarrow>
     ('f source_configuration, string option) expected" where
  "set_field env path v src =
     (let double = (\<lambda>upd. map_sum Some upd (ce_stod env v));
          integer = (\<lambda>upd. map_sum Some (\<lambda>i. upd (of_int i)) (stoi v))
      in if path = ''iq_center_frequency_hz'' then double (\<lambda>d. src\<lparr>sc_iq_center_frequency_hz := d\<rparr>)
         else if path = ''max_abs_cfo_hz'' then double (\<lambda>d. src\<lparr>sc_max_abs_cfo_hz := d\<rparr>)
         else if path = ''occupied_bandwidth_hz'' then double (\<lambda>d. src\<lparr>sc_occupied_bandwidth_hz := d\<rparr>)
         else if path = ''idle_duration_samples'' then integer (\<lambda>i. src\<lparr>sc_idle_duration_samples := i\<rparr>)
         else if path = ''transmit_start_sample'' then integer (\<lambda>i. src\<lparr>sc_transmit_start_sample := i\<rparr>)
         else if path = ''frequency_index'' then integer (\<lambda>i. src\<lparr>sc_frequency_index := i\<rparr>)
         else if path = ''allow_overlap'' then Inr (src\<lparr>sc_allow_overlap := is_true v\<rparr>)
         else if path = ''enable_noise'' then Inr (src\<lparr>sc_enable_noise := is_true v\<rparr>)
         else if path = ''enable_doppler'' then Inr (src\<lparr>sc_enable_doppler := is_true v\<rparr>)
         else if path = ''enable_multipath'' then Inr (src\<lparr>sc_enable_multipath := is_true v\<rparr>)
         else if path = ''idle_mode'' then Inr (src\<lparr>sc_idle_mode := v\<rparr>)
         else if path = ''message_id'' then Inr (src\<lparr>sc_message_id := v\<rparr>)
         else if path = ''role'' then Inr (src\<lparr>sc_role := v\<rparr>)
         else if path = ''value'' then Inr (src\<lparr>sc_value := v\<rparr>)
         else Inl None)"

definition UpdateStagedField ::
    "'f config_env \<Rightarrow> 'f staged_edit_handle \<Rightarrow> string \<Rightarrow> string \<Rightarrow> 'f configuration_state_machine \<Rightarrow>
     'f configuration_state_machine \<times> unit config_result" where
  "UpdateStagedField env handle path v s =
     (case cs_staged_edits s (sh_id handle) of
        None \<Rightarrow> (s, Inl (Failed ''Staged edit handle not found'' []))
      | Some edit \<Rightarrow>
          (case set_field env path v (sh_staged_source edit) of
             Inl None \<Rightarrow> (s, Inl (Failed (''Unknown field: '' @ path) []))
           | Inl (Some what) \<Rightarrow>
               (s, Inl (Failed (''Failed to parse value for field '' @ path @ '': '' @ what) []))
           | Inr src \<Rightarrow>
               (s\<lparr>cs_staged_edits := (cs_staged_edits s)(sh_id handle \<mapsto> edit\<lparr>sh_staged_source := src\<rparr>)\<rparr>,
                Inr ())))"

definition ValidateStagedEdit ::
    "'f config_env \<Rightarrow> 'f staged_edit_handle \<Rightarrow> 'f configuration_state_machine \<Rightarrow>
     'f configuration_state_machine \<times> config_validation_error list config_result" where
  "ValidateStagedEdit env handle s =
     (case cs_staged_edits s (sh_id handle) of
        None \<Rightarrow> (s, Inl (Failed ''Staged edit handle not found'' []))
      | Some edit \<Rightarrow>
          let src = sh_staged_source edit;
              errors = ValidateAll env src (Derive env src (sh_base_revision handle))
          in (s\<lparr>cs_staged_edits := (cs_staged_edits s)(sh_id handle \<mapsto> edit\<lparr>sh_is_valid := (errors = [])\<rparr>)\<rparr>,
              if errors = [] then Inr errors else Inl (Failed (GetErrorSummary errors) errors)))"

definition CommitStagedEdit ::
    "'f config_env \<Rightarrow> 'f staged_edit_handle \<Rightarrow> string \<Rightarrow> 'f configuration_state_machine \<Rightarrow>
     'f configuration_state_machine \<times> u64 config_result" where
  "CommitStagedEdit env handle if_match_etag s =
     (case cs_staged_edits s (sh_id handle) of
        None \<Rightarrow> (s, Inl (Failed ''Staged edit handle not found'' []))
      | Some edit \<Rightarrow>
          (case GetCurrentSnapshot s of
             Inl e \<Rightarrow> (s, Inl e)
           | Inr current \<Rightarrow>
               if if_match_etag \<noteq> [] \<and> if_match_etag \<noteq> etag_of (sn_revision current)
               then (s, Inl (Failed ''Precondition Failed: ETag mismatch (409 Conflict)'' []))
               else
                 let src = sh_staged_source edit;
                     counter = cs_next_revision_counter s + 1;
                     errors = ValidateAll env src (Derive env src counter)
                 in if errors \<noteq> []
                    then (s\<lparr>cs_next_revision_counter := counter - 1\<rparr>,
                          Inl (Failed (''Validation failed: '' @ GetErrorSummary errors) errors))
                    else
                      let new_snapshot = ValidateAndUpdateSnapshot env (CreateSnapshot env counter src);
                          index = cs_current_revision_index s;
                          kept = (if index + 1 < length (cs_revision_history s)
                                  then take (index + 1) (cs_revision_history s) else cs_revision_history s);
                          history = kept @ [new_snapshot];
                          full = MAX_REVISION_HISTORY < length history
                      in (s\<lparr>cs_next_revision_counter := counter,
                            cs_revision_history := (if full then tl history else history),
                            cs_current_revision_index := (if full then index + 1 - 1 else index + 1),
                            cs_staged_edits := (cs_staged_edits s)(sh_id handle := None)\<rparr>,
                          Inr (sn_revision new_snapshot))))"

definition DiscardStagedEdit :: "'f staged_edit_handle \<Rightarrow> 'f configuration_state_machine \<Rightarrow> 'f configuration_state_machine" where
  "DiscardStagedEdit handle s = s\<lparr>cs_staged_edits := (cs_staged_edits s)(sh_id handle := None)\<rparr>"

definition CanUndo :: "'f configuration_state_machine \<Rightarrow> bool" where
  "CanUndo s \<longleftrightarrow> cs_current_revision_index s > 0"

definition CanRedo :: "'f configuration_state_machine \<Rightarrow> bool" where
  "CanRedo s \<longleftrightarrow> cs_current_revision_index s + 1 < length (cs_revision_history s)"

definition Undo :: "'f configuration_state_machine \<Rightarrow> 'f configuration_state_machine \<times> u64 config_result" where
  "Undo s =
     (if \<not> CanUndo s then (s, Inl (Failed ''Cannot undo: at beginning of history'' []))
      else let s' = s\<lparr>cs_current_revision_index := cs_current_revision_index s - 1\<rparr>
           in (s', GetCurrentRevision s'))"

definition Redo :: "'f configuration_state_machine \<Rightarrow> 'f configuration_state_machine \<times> u64 config_result" where
  "Redo s =
     (if \<not> CanRedo s then (s, Inl (Failed ''Cannot redo: at end of history'' []))
      else let s' = s\<lparr>cs_current_revision_index := cs_current_revision_index s + 1\<rparr>
           in (s', GetCurrentRevision s'))"

text \<open>The loop over the operations of a patch.\<close>

fun patch_loop ::
    "'f config_env \<Rightarrow> 'f staged_edit_handle \<Rightarrow> (string \<times> string) list \<Rightarrow> 'f configuration_state_machine \<Rightarrow>
     'f configuration_state_machine \<times> unit config_result" where
  "patch_loop env handle [] s = (s, Inr ())"
| "patch_loop env handle ((field, v) # ops) s =
     (case UpdateStagedField env handle field v s of
        (s', Inl e) \<Rightarrow> (DiscardStagedEdit handle s',
           Inl (case e of Failed m _ \<Rightarrow> Failed (''Failed to apply patch: '' @ m) [] | Thrown w \<Rightarrow> Thrown w))
      | (s', Inr _) \<Rightarrow> patch_loop env handle ops s')"

definition ApplyJsonPatch ::
    "'f config_env \<Rightarrow> (string \<times> string) list \<Rightarrow> 'f configuration_state_machine \<Rightarrow>
     'f configuration_state_machine \<times> u64 config_result" where
  "ApplyJsonPatch env operations s =
     (case CreateStagedEdit s of
        (s1, Inl e) \<Rightarrow> (s1, Inl e)
      | (s1, Inr handle) \<Rightarrow>
          (case patch_loop env handle operations s1 of
             (s2, Inl e) \<Rightarrow> (s2, Inl e)
           | (s2, Inr _) \<Rightarrow>
               (case ValidateStagedEdit env handle s2 of
                  (s3, Inl e) \<Rightarrow> (DiscardStagedEdit handle s3,
                     Inl (case e of Failed _ errors \<Rightarrow> Failed ''Patch validation failed'' errors | Thrown w \<Rightarrow> Thrown w))
                | (s3, Inr _) \<Rightarrow>
                    (case CommitStagedEdit env handle [] s3 of
                       (s4, Inl e) \<Rightarrow> (DiscardStagedEdit handle s4, Inl e)
                     | (s4, Inr r) \<Rightarrow> (s4, Inr r)))))"

definition InspectParameters :: "'f configuration_state_machine \<Rightarrow> string list config_result" where
  "InspectParameters s =
     map_sum id (\<lambda>_. [''iq_center_frequency_hz'', ''iq_offsets'', ''idle_mode'', ''idle_duration_samples'',
       ''occupied_bandwidth_hz'', ''max_abs_cfo_hz'', ''enable_noise'', ''enable_doppler'',
       ''enable_multipath'', ''allow_overlap'', ''message_id'']) (GetEffectiveConfiguration s)"

section \<open>Runs\<close>

text \<open>The operations that change the state, and the state after a sequence of them.\<close>

datatype 'f config_op = OpCreate | OpUpdate "'f staged_edit_handle" string string
  | OpValidate "'f staged_edit_handle" | OpCommit "'f staged_edit_handle" string
  | OpDiscard "'f staged_edit_handle" | OpUndo | OpRedo | OpPatch "(string \<times> string) list"

fun config_step :: "'f config_env \<Rightarrow> 'f config_op \<Rightarrow> 'f configuration_state_machine \<Rightarrow> 'f configuration_state_machine" where
  "config_step env OpCreate s = fst (CreateStagedEdit s)"
| "config_step env (OpUpdate h f v) s = fst (UpdateStagedField env h f v s)"
| "config_step env (OpValidate h) s = fst (ValidateStagedEdit env h s)"
| "config_step env (OpCommit h etag) s = fst (CommitStagedEdit env h etag s)"
| "config_step env (OpDiscard h) s = DiscardStagedEdit h s"
| "config_step env OpUndo s = fst (Undo s)"
| "config_step env OpRedo s = fst (Redo s)"
| "config_step env (OpPatch ops) s = fst (ApplyJsonPatch env ops s)"

definition config_run :: "'f config_env \<Rightarrow> 'f source_configuration \<Rightarrow> 'f config_op list \<Rightarrow> 'f configuration_state_machine" where
  "config_run env initial ops = fold (config_step env) ops (ConfigurationStateMachine env initial)"

section \<open>The specification: a bounded history\<close>

text \<open>The past with the latest entry last, the present, and the future with the next entry first.\<close>

datatype 'a zipper = Zipper (past: "'a list") (present: 'a) (future: "'a list")

text \<open>Ten entries are kept, the oldest is dropped.\<close>

definition push :: "'a \<Rightarrow> 'a zipper \<Rightarrow> 'a zipper" where
  "push x z = Zipper (if length (past z) = 9 then tl (past z @ [present z]) else past z @ [present z]) x []"

fun undo :: "'a zipper \<Rightarrow> 'a zipper" where
  "undo (Zipper ps x fs) = (if ps = [] then Zipper ps x fs else Zipper (butlast ps) (last ps) (x # fs))"

fun redo :: "'a zipper \<Rightarrow> 'a zipper" where
  "redo (Zipper ps x []) = Zipper ps x []"
| "redo (Zipper ps x (f # fs)) = Zipper (ps @ [x]) f fs"

definition history_of :: "'f configuration_state_machine \<Rightarrow> 'f revision_snapshot zipper" where
  "history_of s = Zipper (take (cs_current_revision_index s) (cs_revision_history s))
     (cs_revision_history s ! cs_current_revision_index s)
     (drop (Suc (cs_current_revision_index s)) (cs_revision_history s))"

text \<open>A snapshot a commit makes: derived from an acceptable source.\<close>

definition committed :: "'f config_env \<Rightarrow> u64 \<Rightarrow> 'f source_configuration \<Rightarrow> 'f revision_snapshot" where
  "committed env revision source =
     \<lparr>sn_revision = revision, sn_source = source, sn_effective = Derive env source revision,
      sn_validation_errors = [], sn_is_valid = True\<rparr>"

definition indexed :: "'f configuration_state_machine \<Rightarrow> bool" where
  "indexed s \<longleftrightarrow> cs_current_revision_index s < length (cs_revision_history s) \<and>
     length (cs_revision_history s) \<le> 10"

lemma indexed_snapshot: "indexed s \<Longrightarrow> GetCurrentSnapshot s = Inr (present (history_of s))"
  by (simp add: indexed_def GetCurrentSnapshot_def history_of_def)

lemma validated_snapshot:
  "acceptable env source \<Longrightarrow>
     ValidateAndUpdateSnapshot env (CreateSnapshot env r source) = committed env r source"
  using ValidateAll_accepts_iff [of env source r]
  by (simp add: ValidateAndUpdateSnapshot_def CreateSnapshot_def committed_def Let_def)

lemma Undo_spec:
  assumes "indexed s"
  shows "history_of (fst (Undo s)) = undo (history_of s)" "indexed (fst (Undo s))"
    "snd (Undo s) = (if past (history_of s) = [] then Inl (Failed ''Cannot undo: at beginning of history'' [])
       else Inr (sn_revision (last (past (history_of s)))))"
    "cs_next_revision_counter (fst (Undo s)) = cs_next_revision_counter s"
proof -
  let ?h = "cs_revision_history s" and ?i = "cs_current_revision_index s"
  have i: "?i < length ?h" "length ?h \<le> 10" using assms by (simp_all add: indexed_def)
  have e: "past (history_of s) = [] \<longleftrightarrow> ?i = 0" using i by (auto simp: history_of_def)
  show "history_of (fst (Undo s)) = undo (history_of s)"
  proof (cases ?i)
    case (Suc j)
    have "take (Suc j) ?h = take j ?h @ [?h ! j]" using i Suc by (simp add: take_Suc_conv_app_nth)
    moreover have "drop (Suc j) ?h = ?h ! Suc j # drop (Suc (Suc j)) ?h"
      using i Suc by (simp add: Cons_nth_drop_Suc)
    ultimately show ?thesis using Suc i by (simp add: Undo_def CanUndo_def history_of_def Let_def)
  qed (simp add: Undo_def CanUndo_def history_of_def)
  show "indexed (fst (Undo s))" using i by (simp add: Undo_def indexed_def Let_def less_imp_diff_less)
  show "cs_next_revision_counter (fst (Undo s)) = cs_next_revision_counter s"
    by (simp add: Undo_def Let_def)
  show "snd (Undo s) = (if past (history_of s) = [] then Inl (Failed ''Cannot undo: at beginning of history'' [])
       else Inr (sn_revision (last (past (history_of s)))))"
  proof (cases ?i)
    case (Suc j)
    have "take (Suc j) ?h = take j ?h @ [?h ! j]" using i Suc by (simp add: take_Suc_conv_app_nth)
    then show ?thesis
      using Suc i e by (simp add: Undo_def CanUndo_def history_of_def Let_def GetCurrentRevision_def GetCurrentSnapshot_def)
  qed (use e in \<open>simp add: Undo_def CanUndo_def\<close>)
qed

lemma Redo_spec:
  assumes "indexed s"
  shows "history_of (fst (Redo s)) = redo (history_of s)" "indexed (fst (Redo s))"
    "cs_next_revision_counter (fst (Redo s)) = cs_next_revision_counter s"
proof -
  let ?h = "cs_revision_history s" and ?i = "cs_current_revision_index s"
  have i: "?i < length ?h" "length ?h \<le> 10" using assms by (simp_all add: indexed_def)
  show "history_of (fst (Redo s)) = redo (history_of s)"
  proof (cases "Suc ?i < length ?h")
    case True
    have "drop (Suc ?i) ?h = ?h ! Suc ?i # drop (Suc (Suc ?i)) ?h"
      using True by (simp add: Cons_nth_drop_Suc)
    then show ?thesis
      using True i by (simp add: Redo_def CanRedo_def history_of_def Let_def take_Suc_conv_app_nth)
  next
    case False
    then have "drop (Suc ?i) ?h = []" by simp
    then show ?thesis using False by (simp add: Redo_def CanRedo_def history_of_def)
  qed
  show "indexed (fst (Redo s))" using i by (simp add: Redo_def CanRedo_def indexed_def Let_def)
  show "cs_next_revision_counter (fst (Redo s)) = cs_next_revision_counter s"
    by (simp add: Redo_def Let_def)
qed

text \<open>When a commit succeeds, and what it does.\<close>

definition commit_ok :: "'f config_env \<Rightarrow> string \<Rightarrow> 'f source_configuration \<Rightarrow> 'f configuration_state_machine \<Rightarrow> bool" where
  "commit_ok env etag source s \<longleftrightarrow>
     (etag = [] \<or> etag = etag_of (sn_revision (present (history_of s)))) \<and> acceptable env source"

lemma Commit_fails:
  assumes "indexed s" "cs_staged_edits s (sh_id h) = Some edit" "\<not> commit_ok env etag (sh_staged_source edit) s"
  shows "fst (CommitStagedEdit env h etag s) = s \<and> \<not> has_value (snd (CommitStagedEdit env h etag s))"
  using assms indexed_snapshot [OF assms(1)]
    ValidateAll_accepts_iff [of env "sh_staged_source edit" "cs_next_revision_counter s + 1"]
  by (auto simp: CommitStagedEdit_def commit_ok_def Let_def)

lemma push_history:
  fixes s :: "'f configuration_state_machine"
  assumes "indexed s"
    and "kept = take (Suc (cs_current_revision_index s)) (cs_revision_history s)"
    and "cs_revision_history s' = (if 10 < length (kept @ [x]) then tl (kept @ [x]) else kept @ [x])"
    and "cs_current_revision_index s' =
      (if 10 < length (kept @ [x]) then cs_current_revision_index s else Suc (cs_current_revision_index s))"
  shows "history_of s' = push x (history_of s) \<and> indexed s'"
proof -
  let ?h = "cs_revision_history s" and ?i = "cs_current_revision_index s"
  have i: "?i < length ?h" "length ?h \<le> 10" using assms(1) by (simp_all add: indexed_def)
  have k: "kept = take ?i ?h @ [?h ! ?i]" using i assms(2) by (simp add: take_Suc_conv_app_nth)
  have l: "length kept = Suc ?i" using i k by simp
  show ?thesis
  proof (cases "?i = 9")
    case True
    have "kept \<noteq> []" using k by simp
    then have "tl (kept @ [x]) = tl kept @ [x]" by simp
    moreover have "length (tl kept) = ?i" using l by simp
    ultimately have "take ?i (cs_revision_history s') = tl kept" "cs_revision_history s' ! ?i = x"
        "length (cs_revision_history s') = Suc ?i" "cs_current_revision_index s' = ?i"
      using True l assms(3,4) by (simp_all add: nth_append)
    then show ?thesis
      using True k i by (simp add: history_of_def push_def indexed_def)
  next
    case False
    then have "length (kept @ [x]) \<le> 10" using l i by simp
    then have "cs_revision_history s' = kept @ [x]" "cs_current_revision_index s' = Suc ?i"
      using assms(3,4) by simp_all
    then show ?thesis
      using False k l i by (simp add: history_of_def push_def indexed_def nth_append)
  qed
qed

lemma Commit_succeeds:
  assumes "indexed s" "cs_staged_edits s (sh_id h) = Some edit" "commit_ok env etag (sh_staged_source edit) s"
  defines "s' \<equiv> fst (CommitStagedEdit env h etag s)" and "r \<equiv> cs_next_revision_counter s + 1"
  shows "history_of s' = push (committed env r (sh_staged_source edit)) (history_of s)" "indexed s'"
    "snd (CommitStagedEdit env h etag s) = Inr r"
    "cs_next_revision_counter s' = r" "cs_staged_edits s' = (cs_staged_edits s)(sh_id h := None)"
    "cs_next_staged_edit_id s' = cs_next_staged_edit_id s"
proof -
  let ?kept = "take (Suc (cs_current_revision_index s)) (cs_revision_history s)"
  let ?x = "committed env r (sh_staged_source edit)"
  have a: "acceptable env (sh_staged_source edit)" using assms(3) by (simp add: commit_ok_def)
  have v: "ValidateAll env (sh_staged_source edit) (Derive env (sh_staged_source edit) r) = []"
    using a ValidateAll_accepts_iff by blast
  have kept: "(if cs_current_revision_index s + 1 < length (cs_revision_history s)
      then take (cs_current_revision_index s + 1) (cs_revision_history s) else cs_revision_history s) = ?kept"
    by simp
  have e: "\<not> (etag \<noteq> [] \<and> etag \<noteq> etag_of (sn_revision (present (history_of s))))"
    using assms(3) by (auto simp: commit_ok_def)
  have c: "CommitStagedEdit env h etag s =
     (s\<lparr>cs_next_revision_counter := r,
        cs_revision_history := (if 10 < length (?kept @ [?x]) then tl (?kept @ [?x]) else ?kept @ [?x]),
        cs_current_revision_index := (if 10 < length (?kept @ [?x]) then cs_current_revision_index s
           else Suc (cs_current_revision_index s)),
        cs_staged_edits := (cs_staged_edits s)(sh_id h := None)\<rparr>, Inr r)"
    unfolding CommitStagedEdit_def assms(2) option.case indexed_snapshot [OF assms(1)] sum.case
      if_not_P [OF e] Let_def r_def [symmetric] v kept validated_snapshot [OF a] MAX_REVISION_HISTORY_def
    by (simp add: committed_def)
  have "history_of s' = push ?x (history_of s) \<and> indexed s'"
    by (rule push_history [OF assms(1) refl]) (simp_all add: s'_def c)
  then show "history_of s' = push ?x (history_of s)" "indexed s'" by simp_all
  show "snd (CommitStagedEdit env h etag s) = Inr r"
    "cs_next_revision_counter s' = r" "cs_staged_edits s' = (cs_staged_edits s)(sh_id h := None)"
    "cs_next_staged_edit_id s' = cs_next_staged_edit_id s"
    by (simp_all add: s'_def c)
qed

section \<open>Patches\<close>

fun patched :: "'f config_env \<Rightarrow> (string \<times> string) list \<Rightarrow> 'f source_configuration \<Rightarrow> 'f source_configuration option" where
  "patched env [] src = Some src"
| "patched env ((field, v) # ops) src =
     (case set_field env field v src of Inl _ \<Rightarrow> None | Inr src' \<Rightarrow> patched env ops src')"

definition set_edit ::
    "u64 \<Rightarrow> 'f staged_edit_handle option \<Rightarrow> 'f configuration_state_machine \<Rightarrow> 'f configuration_state_machine" where
  "set_edit i e s = s\<lparr>cs_staged_edits := (cs_staged_edits s)(i := e)\<rparr>"

lemma set_edit_set_edit [simp]: "set_edit i e (set_edit i e' s) = set_edit i e s"
proof -
  have "((cs_staged_edits s)(i := e'))(i := e) = (cs_staged_edits s)(i := e)" by (rule fun_upd_upd)
  then show ?thesis by (simp add: set_edit_def del: fun_upd_apply)
qed

lemma set_edit_same: "cs_staged_edits s i = e \<Longrightarrow> set_edit i e s = s"
  by (simp add: set_edit_def fun_upd_idem del: fun_upd_apply)

lemma set_edit_get [simp]: "cs_staged_edits (set_edit i e s) i = e"
  by (simp add: set_edit_def)

lemma set_edit_keeps [simp]:
  "history_of (set_edit i e s) = history_of s" "indexed (set_edit i e s) = indexed s"
  "cs_next_revision_counter (set_edit i e s) = cs_next_revision_counter s"
  by (simp_all add: set_edit_def history_of_def indexed_def)

lemma Update_ok:
  "cs_staged_edits s (sh_id h) = Some edit \<Longrightarrow> set_field env f v (sh_staged_source edit) = Inr src \<Longrightarrow>
     UpdateStagedField env h f v s = (set_edit (sh_id h) (Some (edit\<lparr>sh_staged_source := src\<rparr>)) s, Inr ())"
  by (simp add: UpdateStagedField_def set_edit_def)

lemma Update_bad:
  "cs_staged_edits s (sh_id h) = Some edit \<Longrightarrow> set_field env f v (sh_staged_source edit) = Inl e \<Longrightarrow>
     \<exists>m. UpdateStagedField env h f v s = (s, Inl (Failed m []))"
  by (cases e) (simp_all add: UpdateStagedField_def)

lemma Discard_set_edit: "DiscardStagedEdit h s = set_edit (sh_id h) None s"
  by (simp add: DiscardStagedEdit_def set_edit_def)

lemma patch_loop_succeeds:
  assumes "patched env ops src = Some src'"
  shows "cs_staged_edits s (sh_id h) = Some edit \<Longrightarrow> sh_staged_source edit = src \<Longrightarrow>
     \<exists>edit'. sh_staged_source edit' = src' \<and> patch_loop env h ops s = (set_edit (sh_id h) (Some edit') s, Inr ())"
  using assms
proof (induction env ops src arbitrary: s edit rule: patched.induct)
  case (1 env src)
  then show ?case by (intro exI [of _ edit]) (simp add: set_edit_same)
next
  case (2 env field v ops src)
  obtain src1 where f: "set_field env field v src = Inr src1" and p: "patched env ops src1 = Some src'"
    using 2(4) by (auto split: sum.splits)
  let ?s1 = "set_edit (sh_id h) (Some (edit\<lparr>sh_staged_source := src1\<rparr>)) s"
  have "patch_loop env h ((field, v) # ops) s = patch_loop env h ops ?s1"
    using Update_ok [OF 2(2)] 2(3) f by simp
  then show ?case using 2(1) [OF f _ _ p, of ?s1 "edit\<lparr>sh_staged_source := src1\<rparr>"] by simp
qed

lemma patch_loop_fails:
  assumes "patched env ops src = None"
  shows "cs_staged_edits s (sh_id h) = Some edit \<Longrightarrow> sh_staged_source edit = src \<Longrightarrow>
     fst (patch_loop env h ops s) = set_edit (sh_id h) None s \<and> \<not> has_value (snd (patch_loop env h ops s))"
  using assms
proof (induction env ops src arbitrary: s edit rule: patched.induct)
  case (2 env field v ops src)
  show ?case
  proof (cases "set_field env field v src")
    case (Inl e)
    then obtain m where "UpdateStagedField env h field v s = (s, Inl (Failed m []))"
      using Update_bad [OF 2(2)] 2(3) by blast
    then show ?thesis by (simp add: Discard_set_edit)
  next
    case (Inr src1)
    let ?s1 = "set_edit (sh_id h) (Some (edit\<lparr>sh_staged_source := src1\<rparr>)) s"
    have "patch_loop env h ((field, v) # ops) s = patch_loop env h ops ?s1"
      using Update_ok [OF 2(2)] 2(3) Inr by simp
    then show ?thesis
      using 2(1) [OF Inr, of ?s1 "edit\<lparr>sh_staged_source := src1\<rparr>"] 2(4) Inr by simp
  qed
qed simp

text \<open>The handle of a patch, and the state with its staged edit set to \<open>e\<close>.\<close>

definition patch_handle :: "'f configuration_state_machine \<Rightarrow> 'f staged_edit_handle" where
  "patch_handle s = \<lparr>sh_id = cs_next_staged_edit_id s, sh_base_revision = sn_revision (present (history_of s)),
     sh_staged_source = sn_source (present (history_of s)), sh_is_valid = False\<rparr>"

definition patch_start ::
    "'f staged_edit_handle option \<Rightarrow> 'f configuration_state_machine \<Rightarrow> 'f configuration_state_machine" where
  "patch_start e s = set_edit (cs_next_staged_edit_id s) e
     (s\<lparr>cs_next_staged_edit_id := cs_next_staged_edit_id s + 1\<rparr>)"

lemma patch_start_simps [simp]:
  "history_of (patch_start e s) = history_of s" "indexed (patch_start e s) = indexed s"
  "cs_next_revision_counter (patch_start e s) = cs_next_revision_counter s"
  "cs_staged_edits (patch_start e s) (sh_id (patch_handle s)) = e"
  "set_edit (sh_id (patch_handle s)) e' (patch_start e s) = patch_start e' s"
  by (simp_all add: patch_start_def history_of_def indexed_def patch_handle_def)
    (simp_all add: set_edit_def)

lemma patch_start_edits:
  "cs_staged_edits (patch_start e s) = (cs_staged_edits s)(cs_next_staged_edit_id s := e)"
  by (simp add: patch_start_def set_edit_def)

lemma patch_create:
  "indexed s \<Longrightarrow> CreateStagedEdit s = (patch_start (Some (patch_handle s)) s, Inr (patch_handle s))"
  by (simp add: CreateStagedEdit_def indexed_snapshot patch_start_def patch_handle_def set_edit_def Let_def)

lemma patch_handle_source [simp]: "sh_staged_source (patch_handle s) = sn_source (present (history_of s))"
  by (simp add: patch_handle_def)

lemma patch_bad_field:
  assumes "indexed s" "patched env ops (sn_source (present (history_of s))) = None"
  shows "fst (ApplyJsonPatch env ops s) = patch_start None s \<and> \<not> has_value (snd (ApplyJsonPatch env ops s))"
proof -
  obtain s2 r where l: "patch_loop env (patch_handle s) ops (patch_start (Some (patch_handle s)) s) = (s2, r)"
    by fastforce
  have "s2 = patch_start None s" "\<not> has_value r"
    using patch_loop_fails [OF assms(2), of "patch_start (Some (patch_handle s)) s" "patch_handle s"] l by simp_all
  then show ?thesis using l by (cases r) (simp_all add: ApplyJsonPatch_def patch_create [OF assms(1)])
qed

lemma patch_validated:
  assumes "indexed s" "patched env ops (sn_source (present (history_of s))) = Some src"
  shows "\<exists>e. sh_staged_source e = src \<and> ApplyJsonPatch env ops s =
     (if acceptable env src
      then (case CommitStagedEdit env (patch_handle s) [] (patch_start (Some e) s) of
              (s4, Inl f) \<Rightarrow> (DiscardStagedEdit (patch_handle s) s4, Inl f) | (s4, Inr r) \<Rightarrow> (s4, Inr r))
      else (patch_start None s, Inl (Failed ''Patch validation failed''
              (ValidateAll env src (Derive env src (sh_base_revision (patch_handle s)))))))"
proof -
  obtain e where e: "sh_staged_source e = src"
    "patch_loop env (patch_handle s) ops (patch_start (Some (patch_handle s)) s) = (patch_start (Some e) s, Inr ())"
    using patch_loop_succeeds [OF assms(2), of "patch_start (Some (patch_handle s)) s" "patch_handle s"] by auto
  let ?errors = "ValidateAll env src (Derive env src (sh_base_revision (patch_handle s)))"
  have v: "ValidateStagedEdit env (patch_handle s) (patch_start (Some e) s) =
      (patch_start (Some (e\<lparr>sh_is_valid := (?errors = [])\<rparr>)) s,
       if ?errors = [] then Inr ?errors else Inl (Failed (GetErrorSummary ?errors) ?errors))"
    using e(1) by (simp add: ValidateStagedEdit_def Let_def flip: set_edit_def)
  have a: "?errors = [] \<longleftrightarrow> acceptable env src" by (rule ValidateAll_accepts_iff)
  have d: "DiscardStagedEdit (patch_handle s) (patch_start x s) = patch_start None s" for x
    by (simp add: Discard_set_edit)
  show ?thesis
    by (rule exI [of _ "e\<lparr>sh_is_valid := (?errors = [])\<rparr>"])
      (use a in \<open>simp add: e ApplyJsonPatch_def patch_create [OF assms(1)] v d\<close>)
qed

text \<open>The outcome of a patch on the history, the counter and the staged edits.\<close>

lemma ApplyJsonPatch_succeeds:
  assumes "indexed s" "patched env ops (sn_source (present (history_of s))) = Some src" "acceptable env src"
  defines "r \<equiv> cs_next_revision_counter s + 1" and "s' \<equiv> fst (ApplyJsonPatch env ops s)"
  shows "snd (ApplyJsonPatch env ops s) = Inr r" "history_of s' = push (committed env r src) (history_of s)"
    "indexed s'" "cs_next_revision_counter s' = r"
    "cs_staged_edits s' = (cs_staged_edits s)(cs_next_staged_edit_id s := None)"
proof -
  obtain e where e: "sh_staged_source e = src" and p: "ApplyJsonPatch env ops s =
     (case CommitStagedEdit env (patch_handle s) [] (patch_start (Some e) s) of
              (s4, Inl f) \<Rightarrow> (DiscardStagedEdit (patch_handle s) s4, Inl f) | (s4, Inr r) \<Rightarrow> (s4, Inr r))"
    using patch_validated [OF assms(1,2)] assms(3) by auto
  have ix: "indexed (patch_start (Some e) s)" using assms(1) by simp
  have ok: "commit_ok env [] (sh_staged_source e) (patch_start (Some e) s)"
    using assms(3) e by (simp add: commit_ok_def)
  note c = Commit_succeeds [OF ix patch_start_simps(4) ok]
  have "ApplyJsonPatch env ops s = (fst (CommitStagedEdit env (patch_handle s) [] (patch_start (Some e) s)), Inr r)"
    using p c(3) by (cases "CommitStagedEdit env (patch_handle s) [] (patch_start (Some e) s)") (simp add: r_def)
  moreover have edits: "(cs_staged_edits (patch_start (Some e) s))(sh_id (patch_handle s) := None) =
      (cs_staged_edits s)(cs_next_staged_edit_id s := None)"
    by (auto simp: patch_start_def patch_handle_def set_edit_def)
  ultimately show "snd (ApplyJsonPatch env ops s) = Inr r" "history_of s' = push (committed env r src) (history_of s)"
    "indexed s'" "cs_next_revision_counter s' = r"
    "cs_staged_edits s' = (cs_staged_edits s)(cs_next_staged_edit_id s := None)"
    using c e by (simp_all add: s'_def r_def edits)
qed

lemma ApplyJsonPatch_fails:
  assumes "indexed s"
    "\<forall>src. patched env ops (sn_source (present (history_of s))) = Some src \<longrightarrow> \<not> acceptable env src"
  shows "fst (ApplyJsonPatch env ops s) = patch_start None s \<and> \<not> has_value (snd (ApplyJsonPatch env ops s))"
proof (cases "patched env ops (sn_source (present (history_of s)))")
  case None
  then show ?thesis by (rule patch_bad_field [OF assms(1)])
next
  case (Some src)
  then show ?thesis using patch_validated [OF assms(1) Some] assms(2) by auto
qed

section \<open>Refinement\<close>

text \<open>
  The specification: what each operation does to a bounded history with a counter of the revisions
  given out, for the staged edits at the time of the call. Undo and redo move in the history; a
  commit with a known handle, an etag that is empty or current and an acceptable source pushes the
  snapshot derived from it under the next revision number, and a patch does so with the patched
  current source; anything else leaves the history alone.
\<close>

definition spec_push :: "'f config_env \<Rightarrow> 'f source_configuration \<Rightarrow> 'f revision_snapshot zipper \<times> u64 \<Rightarrow>
    'f revision_snapshot zipper \<times> u64" where
  "spec_push env source a =
     (if acceptable env source then (push (committed env (snd a + 1) source) (fst a), snd a + 1) else a)"

fun history_spec :: "'f config_env \<Rightarrow> (u64 \<Rightarrow> 'f staged_edit_handle option) \<Rightarrow> 'f config_op \<Rightarrow>
    'f revision_snapshot zipper \<times> u64 \<Rightarrow> 'f revision_snapshot zipper \<times> u64" where
  "history_spec env edits OpUndo (z, c) = (undo z, c)"
| "history_spec env edits OpRedo (z, c) = (redo z, c)"
| "history_spec env edits (OpCommit h etag) (z, c) =
     (case edits (sh_id h) of
        None \<Rightarrow> (z, c)
      | Some edit \<Rightarrow>
          if etag = [] \<or> etag = etag_of (sn_revision (present z)) then spec_push env (sh_staged_source edit) (z, c)
          else (z, c))"
| "history_spec env edits (OpPatch ops) (z, c) =
     (case patched env ops (sn_source (present z)) of None \<Rightarrow> (z, c) | Some source \<Rightarrow> spec_push env source (z, c))"
| "history_spec env edits _ a = a"

definition abstraction :: "'f configuration_state_machine \<Rightarrow> 'f revision_snapshot zipper \<times> u64" where
  "abstraction s = (history_of s, cs_next_revision_counter s)"

lemma commit_refines:
  assumes "indexed s"
  shows "abstraction (fst (CommitStagedEdit env h etag s)) =
      history_spec env (cs_staged_edits s) (OpCommit h etag) (abstraction s) \<and>
    indexed (fst (CommitStagedEdit env h etag s))"
proof (cases "cs_staged_edits s (sh_id h)")
  case None
  then show ?thesis using assms by (simp add: CommitStagedEdit_def abstraction_def)
next
  case (Some edit)
  show ?thesis
  proof (cases "commit_ok env etag (sh_staged_source edit) s")
    case True
    then show ?thesis
      using Commit_succeeds(1,2,4) [OF assms Some True] Some
      by (auto simp: abstraction_def commit_ok_def spec_push_def)
  next
    case False
    then show ?thesis using Commit_fails [OF assms Some False] assms Some
      by (auto simp: abstraction_def commit_ok_def spec_push_def)
  qed
qed

lemma patch_refines:
  assumes "indexed s"
  shows "abstraction (fst (ApplyJsonPatch env ops s)) =
      history_spec env (cs_staged_edits s) (OpPatch ops) (abstraction s) \<and>
    indexed (fst (ApplyJsonPatch env ops s))"
proof (cases "\<exists>src. patched env ops (sn_source (present (history_of s))) = Some src \<and> acceptable env src")
  case True
  then obtain src where "patched env ops (sn_source (present (history_of s))) = Some src" "acceptable env src"
    by blast
  then show ?thesis
    using ApplyJsonPatch_succeeds(2-4) [OF assms] by (simp add: abstraction_def spec_push_def)
next
  case False
  then show ?thesis
    using ApplyJsonPatch_fails [OF assms] assms by (auto simp: abstraction_def spec_push_def split: option.split)
qed

lemma config_step_refines:
  assumes "indexed s"
  shows "abstraction (config_step env op s) = history_spec env (cs_staged_edits s) op (abstraction s) \<and>
    indexed (config_step env op s)"
proof (cases op)
  case OpCreate
  have "CreateStagedEdit s = (patch_start (Some (patch_handle s)) s, Inr (patch_handle s))"
    by (rule patch_create [OF assms])
  then show ?thesis using OpCreate assms by (simp add: abstraction_def)
next
  case (OpUpdate h f v)
  have "config_step env op s = s \<or> (\<exists>e. config_step env op s = set_edit (sh_id h) e s)"
    using OpUpdate
    by (auto simp: UpdateStagedField_def set_edit_def split: option.splits sum.splits)
  then show ?thesis using assms OpUpdate by (auto simp: abstraction_def)
next
  case (OpValidate h)
  have "config_step env op s = s \<or> (\<exists>e. config_step env op s = set_edit (sh_id h) e s)"
    using OpValidate by (auto simp: ValidateStagedEdit_def set_edit_def Let_def split: option.splits)
  then show ?thesis using assms OpValidate by (auto simp: abstraction_def)
next
  case (OpDiscard h)
  then show ?thesis using assms by (simp add: Discard_set_edit abstraction_def)
next
  case OpUndo
  then show ?thesis using Undo_spec [OF assms] by (simp add: abstraction_def)
next
  case OpRedo
  then show ?thesis using Redo_spec [OF assms] by (simp add: abstraction_def)
qed (use commit_refines [OF assms] patch_refines [OF assms] in simp_all)

lemma config_run_snoc [simp]:
  "config_run env initial (ops @ [op]) = config_step env op (config_run env initial ops)"
  by (simp add: config_run_def)

lemma config_run_indexed: "indexed (config_run env initial ops)"
proof (induction ops rule: rev_induct)
  case Nil
  show ?case by (simp add: config_run_def ConfigurationStateMachine_def indexed_def)
next
  case (snoc op ops)
  then show ?case using config_step_refines by auto
qed

text \<open>
  C23. The revision history implements a bounded undo history. After any sequence of operations the
  current index lies inside a history of at most ten revisions, and every further operation acts on
  past, present and future exactly as its specification: undo and redo move by one revision, a
  successful commit or patch pushes the snapshot derived from its source with the next revision
  number, which drops the future and, when ten revisions are kept, the oldest one, and everything
  else leaves the history and the counter as they are.
\<close>

theorem config_history_refines_zipper:
  "indexed (config_run env initial ops) \<and>
   abstraction (config_run env initial (ops @ [op])) =
     history_spec env (cs_staged_edits (config_run env initial ops)) op (abstraction (config_run env initial ops))"
  using config_step_refines [OF config_run_indexed [of env initial ops], of env op]
    config_run_indexed [of env initial ops] by simp

section \<open>Revision numbers\<close>

definition entries :: "'a zipper \<Rightarrow> 'a list" where
  "entries z = past z @ present z # future z"

definition snapshot_ok :: "'f config_env \<Rightarrow> 'f revision_snapshot \<Rightarrow> bool" where
  "snapshot_ok env x \<longleftrightarrow> sn_effective x = Derive env (sn_source x) (sn_revision x) \<and>
     (sn_is_valid x \<longleftrightarrow> acceptable env (sn_source x)) \<and> (sn_revision x \<noteq> 1 \<longrightarrow> sn_is_valid x)"

text \<open>Revisions increase strictly along the history and do not exceed the counter.\<close>

definition revisions_ok :: "'f config_env \<Rightarrow> 'f revision_snapshot zipper \<times> u64 \<Rightarrow> bool" where
  "revisions_ok env a \<longleftrightarrow>
     sorted_wrt (<) (map (unat \<circ> sn_revision) (entries (fst a))) \<and>
     (\<forall>x \<in> set (entries (fst a)). 1 \<le> unat (sn_revision x) \<and> unat (sn_revision x) \<le> unat (snd a) \<and> snapshot_ok env x)"

lemma entries_undo [simp]: "entries (undo z) = entries z"
  by (cases z) (auto simp: entries_def)

lemma entries_redo [simp]: "entries (redo z) = entries z"
  by (cases z rule: redo.cases) (simp_all add: entries_def)

lemma entries_push:
  "entries (push x z) = (if length (past z) = 9 then tl (past z @ [present z]) else past z @ [present z]) @ [x]"
  by (simp add: entries_def push_def)

lemma revisions_ok_push:
  assumes ok: "revisions_ok env (z, c)" and b: "unat c + 1 < 2 ^ 64" and x: "snapshot_ok env x" "sn_revision x = c + 1"
  shows "revisions_ok env (push x z, c + 1)"
proof -
  let ?k = "if length (past z) = 9 then tl (past z @ [present z]) else past z @ [present z]"
  have u: "unat (c + 1) = unat c + 1" using b by (simp add: unat_word_ariths)
  have pre: "sorted_wrt (<) (map (unat \<circ> sn_revision) (past z @ [present z]))"
    using ok by (simp add: revisions_ok_def entries_def sorted_wrt_append)
  have all: "1 \<le> unat (sn_revision y) \<and> unat (sn_revision y) \<le> unat c \<and> snapshot_ok env y"
    if "y \<in> set (past z @ [present z])" for y
    using ok that by (auto simp: revisions_ok_def entries_def)
  have sub: "set ?k \<subseteq> set (past z @ [present z])"
    by (cases "past z") auto
  have "sorted_wrt (<) (map (unat \<circ> sn_revision) ?k)"
    using pre by (cases "past z") (auto simp: map_tl)
  then show ?thesis
    using all sub x u unfolding revisions_ok_def fst_conv snd_conv entries_push
    by (fastforce simp: sorted_wrt_append)
qed

lemma spec_push_revisions:
  assumes "revisions_ok env a" "unat (snd a) + 1 < 2 ^ 64"
  shows "revisions_ok env (spec_push env source a) \<and> unat (snd (spec_push env source a)) \<le> unat (snd a) + 1"
proof (cases "acceptable env source")
  case True
  then have "snapshot_ok env (committed env (snd a + 1) source)"
    by (simp add: snapshot_ok_def committed_def)
  then have "revisions_ok env (push (committed env (snd a + 1) source) (fst a), snd a + 1)"
    using assms by (intro revisions_ok_push) (simp_all add: committed_def)
  then show ?thesis using True assms(2) by (simp add: spec_push_def unat_word_ariths)
qed (use assms in \<open>simp add: spec_push_def\<close>)

lemma history_spec_revisions:
  assumes "revisions_ok env a" "unat (snd a) + 1 < 2 ^ 64"
  shows "revisions_ok env (history_spec env edits op a) \<and> unat (snd (history_spec env edits op a)) \<le> unat (snd a) + 1"
proof -
  obtain z c where a: "a = (z, c)" by (metis surj_pair)
  note push = spec_push_revisions [OF assms]
  show ?thesis
  proof (cases op)
    case (OpCommit h etag)
    then show ?thesis using assms push a by (simp split: option.split)
  next
    case (OpPatch ops)
    then show ?thesis using assms push a by (simp split: option.split)
  qed (use assms a in \<open>simp_all add: revisions_ok_def\<close>)
qed

lemma initial_revisions: "revisions_ok env (abstraction (ConfigurationStateMachine env initial))"
  using ValidateAll_accepts_iff [of env initial 1]
  by (simp add: revisions_ok_def abstraction_def history_of_def ConfigurationStateMachine_def entries_def
      ValidateAndUpdateSnapshot_def CreateSnapshot_def snapshot_ok_def Let_def)

lemma config_run_revisions:
  "length ops + 2 < 2 ^ 64 \<Longrightarrow> revisions_ok env (abstraction (config_run env initial ops)) \<and>
     unat (snd (abstraction (config_run env initial ops))) \<le> length ops + 1"
proof (induction ops rule: rev_induct)
  case Nil
  then show ?case
    using initial_revisions [of env initial] by (simp add: config_run_def abstraction_def ConfigurationStateMachine_def)
next
  case (snoc op ops)
  let ?s = "config_run env initial ops"
  have "abstraction (config_step env op ?s) = history_spec env (cs_staged_edits ?s) op (abstraction ?s)"
    using config_step_refines [OF config_run_indexed] by blast
  then show ?case
    using history_spec_revisions [of env "abstraction ?s" "cs_staged_edits ?s" op] snoc by fastforce
qed

text \<open>
  C24. Revision numbers are never reused. In any run of fewer operations than a 64-bit counter can count,
  the revisions kept in the history increase strictly from the oldest to the newest and none
  exceeds the counter the next commit starts from, so the next one is new; no two of them share an
  entity tag; each carries the effective configuration derived from its own source; and all but
  the initial one passed validation.
\<close>

theorem revisions_strictly_increase:
  assumes "length ops + 2 < 2 ^ 64"
  shows "let s = config_run env initial ops; h = cs_revision_history s in
    sorted_wrt (<) (map (unat \<circ> sn_revision) h) \<and> distinct (map (etag_of \<circ> sn_revision) h) \<and>
    (\<forall>x \<in> set h. unat (sn_revision x) \<le> unat (cs_next_revision_counter s) \<and>
       sn_effective x = Derive env (sn_source x) (sn_revision x) \<and>
       (sn_revision x \<noteq> 1 \<longrightarrow> acceptable env (sn_source x)))"
proof -
  let ?s = "config_run env initial ops"
  have e: "entries (history_of ?s) = cs_revision_history ?s"
    using config_run_indexed [of env initial ops]
    by (simp add: entries_def history_of_def indexed_def id_take_nth_drop [symmetric])
  have ok: "revisions_ok env (history_of ?s, cs_next_revision_counter ?s)"
    using config_run_revisions [OF assms] by (simp add: abstraction_def)
  have "distinct (map (unat \<circ> sn_revision) (cs_revision_history ?s))"
    using ok e by (simp add: revisions_ok_def strict_sorted_iff)
  then have "distinct (map (etag_of \<circ> sn_revision) (cs_revision_history ?s))"
    by (auto simp: distinct_map inj_on_def)
  then show ?thesis using ok e by (auto simp: revisions_ok_def snapshot_ok_def Let_def)
qed

section \<open>Commits, patches, undo and redo\<close>

lemma current_after_push:
  assumes "indexed s" "history_of s = push (committed env r src) z"
  shows "GetEffectiveConfiguration s = Inr (Derive env src r) \<and> GetCurrentETag s = Inr (etag_of r) \<and> \<not> CanRedo s"
proof -
  have "drop (Suc (cs_current_revision_index s)) (cs_revision_history s) = []"
    using assms(2) by (simp add: history_of_def push_def)
  then show ?thesis
    using indexed_snapshot [OF assms(1)] assms(2)
    by (simp add: GetEffectiveConfiguration_def GetCurrentETag_def GetCurrentRevision_def push_def committed_def
        CanRedo_def)
qed

text \<open>
  What a commit does. In every reachable state, committing an existing staged edit succeeds exactly
  when the \<open>If-Match\<close> tag is absent or names the current revision and the staged source is
  acceptable. It then returns the next revision number, the current configuration is the one
  derived from the staged source with that revision and tag, nothing is left to redo and the edit
  is gone. In every other case the state is exactly what it was.
\<close>

theorem commit_is_exact:
  assumes "cs_staged_edits (config_run env initial ops) (sh_id h) = Some edit"
  shows "let s = config_run env initial ops; source = sh_staged_source edit;
             r = cs_next_revision_counter s + 1; c = CommitStagedEdit env h etag s
         in if (etag = [] \<or> Inr etag = GetCurrentETag s) \<and> acceptable env source
            then snd c = Inr r \<and> GetEffectiveConfiguration (fst c) = Inr (Derive env source r) \<and>
                 GetCurrentETag (fst c) = Inr (etag_of r) \<and> \<not> CanRedo (fst c) \<and>
                 cs_staged_edits (fst c) = (cs_staged_edits s)(sh_id h := None)
            else fst c = s \<and> \<not> has_value (snd c)"
proof -
  let ?s = "config_run env initial ops"
  have ix: "indexed ?s" by (rule config_run_indexed)
  have t: "GetCurrentETag ?s = Inr (etag_of (sn_revision (present (history_of ?s))))"
    using indexed_snapshot [OF ix] by (simp add: GetCurrentETag_def GetCurrentRevision_def)
  have ok: "(etag = [] \<or> Inr etag = GetCurrentETag ?s) \<and> acceptable env (sh_staged_source edit) \<longleftrightarrow>
      commit_ok env etag (sh_staged_source edit) ?s"
    unfolding t by (simp add: commit_ok_def)
  show ?thesis
  proof (cases "commit_ok env etag (sh_staged_source edit) ?s")
    case True
    note c = Commit_succeeds [OF ix assms True]
    show ?thesis
      unfolding Let_def ok using True c(3,5) current_after_push [OF c(2,1)] by simp
  next
    case False
    then show ?thesis unfolding Let_def ok using Commit_fails [OF ix assms False] by simp
  qed
qed

text \<open>
  C25. A patch is atomic. In every reachable state, a patch succeeds exactly when all its fields can be
  assigned, in order, to the current source and the result is acceptable; the current
  configuration is then the one derived from that source under the next revision number. A patch
  that fails leaves history, position and revision counter as they were. In both cases no staged
  edit of the patch remains.
\<close>

theorem patch_is_atomic:
  "let s = config_run env initial ops; p = ApplyJsonPatch env operations s;
       r = cs_next_revision_counter s + 1
   in cs_staged_edits (fst p) = (cs_staged_edits s)(cs_next_staged_edit_id s := None) \<and>
      (case patched env operations (sn_source (present (history_of s))) of
         Some source \<Rightarrow>
           if acceptable env source
           then snd p = Inr r \<and> GetEffectiveConfiguration (fst p) = Inr (Derive env source r)
           else \<not> has_value (snd p) \<and> abstraction (fst p) = abstraction s
       | None \<Rightarrow> \<not> has_value (snd p) \<and> abstraction (fst p) = abstraction s)"
proof -
  let ?s = "config_run env initial ops" and ?src = "patched env operations (sn_source (present (history_of (config_run env initial ops))))"
  have ix: "indexed ?s" by (rule config_run_indexed)
  show ?thesis
  proof (cases "\<exists>source. ?src = Some source \<and> acceptable env source")
    case True
    then obtain source where source: "?src = Some source" "acceptable env source" by blast
    note c = ApplyJsonPatch_succeeds [OF ix source]
    show ?thesis unfolding Let_def using source c(1,5) current_after_push [OF c(3,2)] by simp
  next
    case False
    then have "fst (ApplyJsonPatch env operations ?s) = patch_start None ?s"
      "\<not> has_value (snd (ApplyJsonPatch env operations ?s))"
      using ApplyJsonPatch_fails [OF ix] by blast+
    then show ?thesis
      unfolding Let_def using False
      by (auto simp: abstraction_def patch_start_edits split: option.splits)
  qed
qed

lemma undo_redo: "CanUndo s \<Longrightarrow> indexed s \<Longrightarrow> fst (Redo (fst (Undo s))) = s"
  by (simp add: Undo_def Redo_def CanUndo_def CanRedo_def indexed_def Let_def)

section \<open>An example\<close>

definition sample_env :: "real option config_env" where
  "sample_env = \<lparr>ce_fl = exact_ops, ce_stod = (\<lambda>_. Inl ''stod''), ce_to_string = (\<lambda>_. ''number''),
     ce_to_int32 = (\<lambda>_. 0), ce_dump = (\<lambda>_. ''{}'')\<rparr>"

definition sample_source :: "real option source_configuration" where
  "sample_source = \<lparr>sc_messages = [''alpha'', ''beta''], sc_iq_center_frequency_hz = Some 1000000000,
     sc_iq_offsets = [], sc_idle_mode = ''standby'', sc_idle_duration_samples = 0,
     sc_occupied_bandwidth_hz = Some 1000000, sc_max_abs_cfo_hz = Some 0, sc_enable_noise = False,
     sc_enable_doppler = False, sc_enable_multipath = False, sc_allow_overlap = False,
     sc_message_id = ''alpha'', sc_transmit_start_sample = 0, sc_frequency_index = 5, sc_value = ''v'',
     sc_role = ''receiver''\<rparr>"

lemma sample_acceptable: "acceptable sample_env sample_source"
  by (simp add: acceptable_def sample_env_def sample_source_def exact_ops_def ext_le_def ext2_def fd_half_def
      fd_num_def Let_def valid_roles_def)

definition sample_handle :: "real option staged_edit_handle" where
  "sample_handle = \<lparr>sh_id = 1, sh_base_revision = 1, sh_staged_source = sample_source, sh_is_valid = False\<rparr>"

theorem revisions_strictly_increase_witness:
  "let s = config_run sample_env sample_source [OpPatch [(''role'', ''transmitter'')], OpUndo, OpRedo];
       h = cs_revision_history s in
    sorted_wrt (<) (map (unat \<circ> sn_revision) h) \<and> distinct (map (etag_of \<circ> sn_revision) h) \<and>
    (\<forall>x \<in> set h. unat (sn_revision x) \<le> unat (cs_next_revision_counter s) \<and>
       sn_effective x = Derive sample_env (sn_source x) (sn_revision x) \<and>
       (sn_revision x \<noteq> 1 \<longrightarrow> acceptable sample_env (sn_source x)))"
  by (rule revisions_strictly_increase) simp

theorem commit_is_exact_witness:
  "GetEffectiveConfiguration (fst (CommitStagedEdit sample_env sample_handle ''Rev:1''
     (config_run sample_env sample_source [OpCreate]))) = Inr (Derive sample_env sample_source 2)"
proof -
  let ?s = "config_run sample_env sample_source [OpCreate]"
  have etag: "etag_of 1 = ''Rev:1''" by code_simp
  have e: "cs_staged_edits ?s (sh_id sample_handle) = Some sample_handle"
    and r: "cs_next_revision_counter ?s = 1" and t: "GetCurrentETag ?s = Inr ''Rev:1''"
    by (simp_all add: config_run_def CreateStagedEdit_def GetCurrentSnapshot_def ConfigurationStateMachine_def
        ValidateAndUpdateSnapshot_def CreateSnapshot_def sample_handle_def Let_def GetCurrentETag_def
        GetCurrentRevision_def etag)
  show ?thesis
    using commit_is_exact [OF e, of "''Rev:1''"] r t sample_acceptable
    by (simp add: Let_def sample_handle_def)
qed

end
