(* ===== verification/Fhss_Staged_Config.thy ===== *)
theory Fhss_Staged_Config
  imports Decimal
begin

text \<open>
  The other configuration editor of the DSP library, of the namespace \<open>dsp::fhss\<close>
  (\<open>libdsp/src/dsp/fhss/ConfigurationStateMachine.cpp\<close>). The derivation of the twelve generated fields
  and the cross-node checks are arguments: what is shown holds whatever they compute. The generated
  fields are the value \<open>fe_body\<close>; the deriver always labels its result revision 1
  (\<open>FHSSConfigurationDeriver.cpp\<close>, \<open>Derive\<close>).

  The lemmas record where the code departs from the description in its header: the history never
  holds more than one revision, so nothing can ever be undone; validating a staged edit resets the
  entity tag; and a commit without validation discards the edit.
\<close>

section \<open>State\<close>

datatype configuration_state = CS_Source | CS_Effective | CS_Staged | CS_Active

record 'b fhss_effective =
  fe_body :: 'b
  fe_revision :: u64
  fe_etag :: string

record 'b configuration_revision =
  cr_revision_number :: u64
  cr_etag :: string
  cr_configuration :: "'b fhss_effective"
  cr_description :: string

record state_machine_error =
  se_code :: string
  se_message :: string

record ('s, 'b) staged_config_machine =
  cm_current_state :: configuration_state
  cm_effective_config :: "'b fhss_effective"
  cm_staged_config :: "'s option"
  cm_active_config :: "'b fhss_effective option"
  cm_revision_counter :: u64
  cm_revision_history :: "'b configuration_revision list"
  cm_history_position :: nat

definition kMaxHistorySize :: nat where
  "kMaxHistorySize = 10"

definition rev_etag :: "u64 \<Rightarrow> string" where
  "rev_etag n = ''Rev:'' @ to_string (unat n)"

section \<open>Operations\<close>

text \<open>The time stamp of a revision is left out.\<close>

definition SaveRevisionToHistory ::
    "string \<Rightarrow> ('s, 'b) staged_config_machine \<Rightarrow> ('s, 'b) staged_config_machine" where
  "SaveRevisionToHistory description m =
     (let rev = \<lparr>cr_revision_number = cm_revision_counter m, cr_etag = fe_etag (cm_effective_config m),
            cr_configuration = cm_effective_config m, cr_description = description\<rparr>;
          history = take (cm_history_position m) (cm_revision_history m) @ [rev]
      in if kMaxHistorySize < length history
         then m\<lparr>cm_revision_history := tl history\<rparr>
         else m\<lparr>cm_revision_history := history, cm_history_position := length history - 1\<rparr>)"

text \<open>A new revision number on the effective configuration.\<close>

definition next_revision :: "('s, 'b) staged_config_machine \<Rightarrow> ('s, 'b) staged_config_machine" where
  "next_revision m =
     (let n = cm_revision_counter m + 1
      in m\<lparr>cm_revision_counter := n,
           cm_effective_config := (cm_effective_config m)\<lparr>fe_revision := n, fe_etag := rev_etag n\<rparr>\<rparr>)"

definition derived :: "'b \<Rightarrow> 'b fhss_effective" where
  "derived body = \<lparr>fe_body = body, fe_revision = 1, fe_etag = ''Rev:1''\<rparr>"

definition StagedConfigMachine ::
    "('s \<Rightarrow> ('b, string) expected) \<Rightarrow> 'b \<Rightarrow> 's \<Rightarrow> ('s, 'b) staged_config_machine" where
  "StagedConfigMachine derive empty_body initial_source =
     (let m = \<lparr>cm_current_state = CS_Source,
            cm_effective_config = \<lparr>fe_body = empty_body, fe_revision = 0, fe_etag = ''''\<rparr>,
            cm_staged_config = None, cm_active_config = None, cm_revision_counter = 0,
            cm_revision_history = [], cm_history_position = 0\<rparr>
      in case derive initial_source of
           Inl _ \<Rightarrow> m
         | Inr body \<Rightarrow> SaveRevisionToHistory ''Initial configuration''
             ((next_revision (m\<lparr>cm_effective_config := derived body\<rparr>))\<lparr>cm_current_state := CS_Effective\<rparr>))"

definition StageEdit :: "'s \<Rightarrow> ('s, 'b) staged_config_machine \<Rightarrow> ('s, 'b) staged_config_machine" where
  "StageEdit source m = m\<lparr>cm_staged_config := Some source, cm_current_state := CS_Staged\<rparr>"

definition ValidateStaged ::
    "('s \<Rightarrow> ('b, string) expected) \<Rightarrow> ('b fhss_effective \<Rightarrow> string option) \<Rightarrow> ('s, 'b) staged_config_machine \<Rightarrow>
     ('s, 'b) staged_config_machine \<times> (unit, state_machine_error) expected" where
  "ValidateStaged derive validate m =
     (case cm_staged_config m of
        None \<Rightarrow> (m, Inl \<lparr>se_code = ''ERR_NO_STAGED'', se_message = ''No staged configuration to validate''\<rparr>)
      | Some source \<Rightarrow>
          (case derive source of
             Inl e \<Rightarrow> (m, Inl \<lparr>se_code = ''ERR_DERIVATION_FAILED'',
               se_message = ''Failed to derive configuration from staged changes: '' @ e\<rparr>)
           | Inr body \<Rightarrow>
               (case validate (derived body) of
                  Some report \<Rightarrow> (m, Inl \<lparr>se_code = ''ERR_VALIDATION_FAILED'', se_message = report\<rparr>)
                | None \<Rightarrow> (m\<lparr>cm_effective_config := derived body, cm_current_state := CS_Effective\<rparr>, Inr ()))))"

definition CommitStaged ::
    "string option \<Rightarrow> string \<Rightarrow> ('s, 'b) staged_config_machine \<Rightarrow>
     ('s, 'b) staged_config_machine \<times> (unit, state_machine_error) expected" where
  "CommitStaged etag_check description m =
     (let etag = fe_etag (cm_effective_config m) in
      if etag_check \<noteq> None \<and> etag_check \<noteq> Some etag
      then (m, Inl \<lparr>se_code = ''ERR_CONFLICT_409'',
              se_message = ''ETag mismatch: expected '' @ etag @ '' but got '' @ the etag_check\<rparr>)
      else if cm_staged_config m = None
      then (m, Inl \<lparr>se_code = ''ERR_NO_STAGED'', se_message = ''No staged configuration to commit''\<rparr>)
      else
        let m1 = next_revision (m\<lparr>cm_active_config := Some (cm_effective_config m)\<rparr>);
            m2 = SaveRevisionToHistory (if description = [] then ''Staged edit committed'' else description) m1
        in (m2\<lparr>cm_staged_config := None, cm_current_state := CS_Active\<rparr>, Inr ()))"

definition Staged_CanUndo :: "('s, 'b) staged_config_machine \<Rightarrow> bool" where
  "Staged_CanUndo m \<longleftrightarrow> cm_history_position m > 0"

text \<open>The subtraction on \<open>size_t\<close> wraps on an empty history.\<close>

definition Staged_CanRedo :: "('s, 'b) staged_config_machine \<Rightarrow> bool" where
  "Staged_CanRedo m \<longleftrightarrow> cm_history_position m <
     (if cm_revision_history m = [] then 2 ^ 64 - 1 else length (cm_revision_history m) - 1)"

text \<open>Moving to a position loads its configuration; \<open>None\<close> is an access outside the history.\<close>

definition load_position :: "nat \<Rightarrow> ('s, 'b) staged_config_machine \<Rightarrow> ('s, 'b) staged_config_machine option" where
  "load_position i m =
     (if i < length (cm_revision_history m)
      then let rev = cm_revision_history m ! i
           in Some (m\<lparr>cm_history_position := i, cm_effective_config := cr_configuration rev,
                cm_revision_counter := cr_revision_number rev\<rparr>)
      else None)"

definition Staged_Undo ::
    "('s, 'b) staged_config_machine \<Rightarrow> (('s, 'b) staged_config_machine \<times> (unit, state_machine_error) expected) option" where
  "Staged_Undo m =
     (if \<not> Staged_CanUndo m
      then Some (m, Inl \<lparr>se_code = ''ERR_NO_UNDO'', se_message = ''No undo history available''\<rparr>)
      else map_option (\<lambda>m'. (m', Inr ())) (load_position (cm_history_position m - 1) m))"

definition Staged_Redo ::
    "('s, 'b) staged_config_machine \<Rightarrow> (('s, 'b) staged_config_machine \<times> (unit, state_machine_error) expected) option" where
  "Staged_Redo m =
     (if \<not> Staged_CanRedo m
      then Some (m, Inl \<lparr>se_code = ''ERR_NO_REDO'', se_message = ''No redo history available''\<rparr>)
      else map_option (\<lambda>m'. (m', Inr ())) (load_position (cm_history_position m + 1) m))"

fun undo_stack :: "nat \<Rightarrow> 'b configuration_revision list \<Rightarrow> 'b configuration_revision list" where
  "undo_stack 0 history = []"
| "undo_stack (Suc i) history = history ! i # undo_stack i history"

definition GetUndoStack :: "('s, 'b) staged_config_machine \<Rightarrow> 'b configuration_revision list" where
  "GetUndoStack m =
     (if cm_history_position m > 0 then take 10 (undo_stack (cm_history_position m - 1) (cm_revision_history m)) else [])"

definition GetRedoStack :: "('s, 'b) staged_config_machine \<Rightarrow> 'b configuration_revision list" where
  "GetRedoStack m =
     (if Staged_CanRedo m then take 10 (drop (cm_history_position m + 1) (cm_revision_history m)) else [])"

definition GetRevision :: "u64 \<Rightarrow> ('s, 'b) staged_config_machine \<Rightarrow> 'b configuration_revision option" where
  "GetRevision n m = find (\<lambda>rev. cr_revision_number rev = n) (cm_revision_history m)"

section \<open>What the editor does\<close>

inductive staged_reachable ::
    "('s \<Rightarrow> ('b, string) expected) \<Rightarrow> ('b fhss_effective \<Rightarrow> string option) \<Rightarrow> ('s, 'b) staged_config_machine \<Rightarrow> bool"
  for derive :: "'s \<Rightarrow> ('b, string) expected" and validate :: "'b fhss_effective \<Rightarrow> string option" where
  start: "derive source = Inr body \<Longrightarrow> staged_reachable derive validate (StagedConfigMachine derive empty_body source)"
| stage: "staged_reachable derive validate m \<Longrightarrow> staged_reachable derive validate (StageEdit source m)"
| validate: "staged_reachable derive validate m \<Longrightarrow> staged_reachable derive validate (fst (ValidateStaged derive validate m))"
| commit: "staged_reachable derive validate m \<Longrightarrow> staged_reachable derive validate (fst (CommitStaged etag description m))"
| undo: "staged_reachable derive validate m \<Longrightarrow> Staged_Undo m = Some (m', r) \<Longrightarrow> staged_reachable derive validate m'"
| redo: "staged_reachable derive validate m \<Longrightarrow> Staged_Redo m = Some (m', r) \<Longrightarrow> staged_reachable derive validate m'"

definition single_revision :: "('s, 'b) staged_config_machine \<Rightarrow> bool" where
  "single_revision m \<longleftrightarrow> cm_history_position m = 0 \<and> length (cm_revision_history m) = 1"

lemma save_single:
  "cm_history_position m = 0 \<Longrightarrow> single_revision (SaveRevisionToHistory d m)"
  by (simp add: SaveRevisionToHistory_def single_revision_def kMaxHistorySize_def)

lemma single_revision_fixed:
  "single_revision m \<Longrightarrow> \<not> Staged_CanUndo m \<and> \<not> Staged_CanRedo m"
  by (auto simp: single_revision_def Staged_CanUndo_def Staged_CanRedo_def)

lemma reachable_single: "staged_reachable derive validate m \<Longrightarrow> single_revision m"
proof (induction rule: staged_reachable.induct)
  case (start source body empty_body)
  then show ?case by (simp add: StagedConfigMachine_def save_single next_revision_def Let_def)
next
  case (stage m source)
  then show ?case by (simp add: StageEdit_def single_revision_def)
next
  case (validate m)
  then show ?case by (simp add: ValidateStaged_def single_revision_def split: option.splits sum.splits)
next
  case (commit m etag description)
  have "single_revision (SaveRevisionToHistory d (next_revision (m\<lparr>cm_active_config := a\<rparr>)))" for a d
    using commit.IH by (intro save_single) (simp add: next_revision_def single_revision_def Let_def)
  then show ?case using commit.IH by (simp add: CommitStaged_def Let_def single_revision_def)
next
  case (undo m m' r)
  then show ?case using single_revision_fixed [OF undo.IH] by (simp add: Staged_Undo_def)
next
  case (redo m m' r)
  then show ?case using single_revision_fixed [OF redo.IH] by (simp add: Staged_Redo_def)
qed

text \<open>
  Nothing can be undone. Saving a revision erases the history from the current position on, which
  includes the current revision: in every reachable state the history holds exactly one revision,
  and both undo and redo are refused.
\<close>

theorem staged_editor_never_undoes:
  assumes "staged_reachable derive validate m"
  shows "length (cm_revision_history m) = 1 \<and>
    Staged_Undo m = Some (m, Inl \<lparr>se_code = ''ERR_NO_UNDO'', se_message = ''No undo history available''\<rparr>) \<and>
    Staged_Redo m = Some (m, Inl \<lparr>se_code = ''ERR_NO_REDO'', se_message = ''No redo history available''\<rparr>)"
  using reachable_single [OF assms] single_revision_fixed [OF reachable_single [OF assms]]
  by (simp add: Staged_Undo_def Staged_Redo_def single_revision_def)

text \<open>Two edits staged, validated and committed.\<close>

definition two_commits :: "(nat, nat) staged_config_machine" where
  "two_commits =
     (let edit = (\<lambda>n m. fst (CommitStaged None '''' (fst (ValidateStaged Inr (\<lambda>_. None) (StageEdit n m)))))
      in edit 6 (edit 5 (StagedConfigMachine Inr 0 (4 :: nat))))"

theorem staged_editor_never_undoes_witness:
  "length (cm_revision_history two_commits) = 1 \<and>
   Staged_Undo two_commits = Some (two_commits, Inl \<lparr>se_code = ''ERR_NO_UNDO'', se_message = ''No undo history available''\<rparr>)"
proof -
  have "staged_reachable Inr (\<lambda>_. None) two_commits"
    unfolding two_commits_def Let_def
    by (intro staged_reachable.commit staged_reachable.validate staged_reachable.stage)
      (rule staged_reachable.start, rule refl)
  then show ?thesis using staged_editor_never_undoes by blast
qed

text \<open>Validation resets the tag that a commit then compares with.\<close>

lemma validation_resets_etag:
  assumes "snd (ValidateStaged derive validate m) = Inr ()" "etag \<noteq> ''Rev:1''"
  shows "\<not> has_value (snd (CommitStaged (Some etag) description (fst (ValidateStaged derive validate m))))"
  using assms by (auto simp: ValidateStaged_def CommitStaged_def derived_def Let_def split: option.splits sum.splits)

text \<open>A commit without validation keeps the body and drops the edit.\<close>

lemma commit_without_validation_discards_edit:
  "let m' = fst (CommitStaged None description (StageEdit source m))
   in fe_body (cm_effective_config m') = fe_body (cm_effective_config m) \<and> cm_staged_config m' = None"
  by (simp add: CommitStaged_def StageEdit_def SaveRevisionToHistory_def next_revision_def Let_def)

end
