(* ===== verification/Fhss_Protocol.thy ===== *)
theory Fhss_Protocol
  imports Fhss_Doubles
begin

text \<open>
  The frequency-hopping protocol of the DSP library
  (\<open>libdsp/include/dsp/fhss/FHSSProtocol.hpp\<close>): its constants, the descriptions of messages and
  pulses, and the validation functions every stage of the receiver starts with.

  The code computes with \<open>double\<close>, here the operations of \<open>Fhss_Doubles\<close>; the lemmas of this
  theory assume nothing about them.
\<close>

section \<open>Constants and descriptions\<close>

definition kFrequencyCount :: u32 where [fhss_constants]: "kFrequencyCount = 64"
definition kLastFrequencyIndex :: u32 where [fhss_constants]: "kLastFrequencyIndex = 63"
definition kFirstSelectableFrequencyIndex :: u32 where [fhss_constants]: "kFirstSelectableFrequencyIndex = 1"
definition kLastSelectableFrequencyIndex :: u32 where [fhss_constants]: "kLastSelectableFrequencyIndex = 62"
definition kActiveFrequencyCount :: nat where [fhss_constants]: "kActiveFrequencyCount = 4"
definition kPreamblePulseCount :: nat where [fhss_constants]: "kPreamblePulseCount = 16"
definition kMaxMessagePulseCount :: nat where [fhss_constants]: "kMaxMessagePulseCount = 256"
definition kBaseFrequencyHz :: int where "kBaseFrequencyHz = 1000000000"
definition kFrequencySpacingHz :: int where "kFrequencySpacingHz = 8000000"
definition kSampleRateHz :: int where "kSampleRateHz = 500000000"
definition kBitRateHz :: int where "kBitRateHz = 5000000"
definition kBitsPerPulse :: u32 where [fhss_constants]: "kBitsPerPulse = 32"
definition kSamplesPerSymbol :: u32 where [fhss_constants]: "kSamplesPerSymbol = 100"
definition kPulseWidthSamples :: u64 where [fhss_constants]: "kPulseWidthSamples = 3200"
definition kPulseGapSamples :: u64 where [fhss_constants]: "kPulseGapSamples = 3300"
definition kPulsePeriodSamples :: u64 where [fhss_constants]: "kPulsePeriodSamples = 6500"

datatype fhss_validation_code = VC_Ok | VC_InvalidFrequencyCount | VC_InvalidFrequencyIndex
  | VC_ReservedFrequencyIndex | VC_InvalidFrequencyTable | VC_InvalidActiveFrequencySet
  | VC_InvalidPreambleLength | VC_InvalidPreambleFrequency | VC_InvalidPayloadFrequency
  | VC_InvalidMessageLength | VC_InvalidTiming | VC_InvalidGlobalTiming | VC_InvalidIqOffset
  | VC_DuplicateIqOffset | VC_PreambleWordMismatch | VC_InvalidMessageSchedule | VC_DuplicatePulse
  | VC_UnsupportedOverlap

record fhss_validation_error =
  ve_code :: fhss_validation_code
  ve_message :: string

type_synonym 'a fhss_result = "('a, fhss_validation_error) expected"

definition invalid :: "fhss_validation_code \<Rightarrow> string \<Rightarrow> 'a fhss_result" where
  "invalid code message = Inl \<lparr>ve_code = code, ve_message = message\<rparr>"

record 'f fhss_timing_config =
  tc_sample_rate_hz :: 'f
  tc_bit_rate_hz :: 'f
  tc_bits_per_pulse :: u32
  tc_pulse_gap_seconds :: 'f

record fhss_timing_model =
  tm_samples_per_symbol :: u32
  tm_pulse_width_samples :: u64
  tm_pulse_gap_samples :: u64
  tm_pulse_period_samples :: u64

record 'f fhss_frequency_config =
  fc_frequency_count :: u32
  fc_base_frequency_hz :: 'f
  fc_frequency_spacing_hz :: 'f
  fc_sample_rate_hz :: 'f
  fc_occupied_bandwidth_hz :: 'f
  fc_max_abs_cfo_hz :: 'f
  fc_iq_offset_frequency_hz :: "'f list"

record 'f fhss_frequency_map_entry =
  fm_index :: u32
  fm_rf_frequency_hz :: 'f
  fm_iq_offset_frequency_hz :: 'f

record fhss_preamble_pulse_spec =
  pp_frequency_index :: u32
  pp_word_value :: u32

datatype fhss_message_pulse_role = Role_Preamble | Role_Body

record fhss_message_pulse_spec =
  mp_frequency_index :: u32
  mp_value :: u32
  mp_role :: fhss_message_pulse_role

record fhss_scheduled_message_spec =
  ms_message_id :: u64
  ms_transmit_start_sample :: u64
  ms_pulses :: "fhss_message_pulse_spec list"

record fhss_payload_random_config =
  pr_rng_seed :: u64
  pr_deterministic :: bool

record 'f fhss_decode_config =
  dcf_timing :: "'f fhss_timing_config"
  dcf_frequency :: "'f fhss_frequency_config"
  dcf_payload_random :: fhss_payload_random_config
  dcf_active_frequency_indices :: "u32 list"
  dcf_preamble_pulses :: "fhss_preamble_pulse_spec list"
  dcf_payload_frequency_indices :: "u32 list"

definition PreambleSpecFromMessagePulse :: "fhss_message_pulse_spec \<Rightarrow> fhss_preamble_pulse_spec" where
  "PreambleSpecFromMessagePulse pulse =
     \<lparr>pp_frequency_index = mp_frequency_index pulse, pp_word_value = mp_value pulse\<rparr>"

definition PreamblePatternFromMessage ::
    "fhss_scheduled_message_spec \<Rightarrow> fhss_preamble_pulse_spec list" where
  "PreamblePatternFromMessage message =
     map PreambleSpecFromMessagePulse (take kPreamblePulseCount (ms_pulses message))"

section \<open>Validation\<close>

text \<open>\<open>if (auto v = check; !v) return v;\<close>\<close>

definition and_validate :: "unit fhss_result \<Rightarrow> unit fhss_result \<Rightarrow> unit fhss_result" where
  "and_validate v w = (case v of Inl e \<Rightarrow> Inl e | Inr _ \<Rightarrow> w)"

text \<open>\<open>for (x : xs) if (auto v = check(x); !v) return v;\<close>\<close>

fun validate_each :: "('a \<Rightarrow> unit fhss_result) \<Rightarrow> 'a list \<Rightarrow> unit fhss_result" where
  "validate_each check [] = Inr ()"
| "validate_each check (x # xs) = and_validate (check x) (validate_each check xs)"

definition IsFrequencyIndexInTable :: "u32 \<Rightarrow> bool" where
  "IsFrequencyIndexInTable index \<longleftrightarrow> index \<le> kLastFrequencyIndex"

definition IsReservedFrequencyIndex :: "u32 \<Rightarrow> bool" where
  "IsReservedFrequencyIndex index \<longleftrightarrow> index = 0 \<or> index = kLastFrequencyIndex"

definition IsSelectableFrequencyIndex :: "u32 \<Rightarrow> bool" where
  "IsSelectableFrequencyIndex index \<longleftrightarrow>
     kFirstSelectableFrequencyIndex \<le> index \<and> index \<le> kLastSelectableFrequencyIndex"

definition ValidateFrequencyIndex :: "u32 \<Rightarrow> unit fhss_result" where
  "ValidateFrequencyIndex index =
     (if \<not> IsFrequencyIndexInTable index
      then invalid VC_InvalidFrequencyIndex ''frequency index is outside the 64-entry FHSS table''
      else Inr ())"

definition ValidateSelectableFrequencyIndex :: "u32 \<Rightarrow> unit fhss_result" where
  "ValidateSelectableFrequencyIndex index =
     and_validate (ValidateFrequencyIndex index)
       (if IsReservedFrequencyIndex index
        then invalid VC_ReservedFrequencyIndex ''frequency index 0 or 63 is reserved and not selectable''
        else Inr ())"

definition DeriveTimingModel ::
    "'f double_ops \<Rightarrow> 'f fhss_timing_config \<Rightarrow> fhss_timing_model fhss_result" where
  "DeriveTimingModel fl config =
     (if \<not> NearlyEqual fl (tc_sample_rate_hz config) (fd_of_int fl kSampleRateHz) \<or>
         \<not> NearlyEqual fl (tc_bit_rate_hz config) (fd_of_int fl kBitRateHz) \<or>
         tc_bits_per_pulse config \<noteq> kBitsPerPulse
      then invalid VC_InvalidTiming ''FHSS PR1 timing must use 500 Msps, 5 Mbps, and 32 bits per pulse''
      else
        let exact = fd_div fl (tc_sample_rate_hz config) (tc_bit_rate_hz config);
            samples_per_symbol = (of_int (fd_llround fl exact) :: u32)
        in if \<not> NearlyEqual fl exact (fd_of_int fl (uint samples_per_symbol)) \<or>
              samples_per_symbol \<noteq> kSamplesPerSymbol
           then invalid VC_InvalidTiming
             ''sample rate must divide bit rate into exactly 100 samples per symbol''
           else
             let width = (ucast (tc_bits_per_pulse config) :: u64) * ucast samples_per_symbol;
                 gap = (of_int (fd_llround fl
                          (fd_mul fl (tc_pulse_gap_seconds config) (tc_sample_rate_hz config))) :: u64);
                 period = width + gap
             in if width \<noteq> kPulseWidthSamples \<or> gap \<noteq> kPulseGapSamples \<or> period \<noteq> kPulsePeriodSamples
                then invalid VC_InvalidTiming
                  ''FHSS PR1 timing must derive 3200 pulse, 3300 gap, and 6500 period samples''
                else Inr \<lparr>tm_samples_per_symbol = samples_per_symbol, tm_pulse_width_samples = width,
                          tm_pulse_gap_samples = gap, tm_pulse_period_samples = period\<rparr>)"

definition ValidateFrequencyConfig ::
    "'f double_ops \<Rightarrow> 'f fhss_frequency_config \<Rightarrow> unit fhss_result" where
  "ValidateFrequencyConfig fl config =
     (if fc_frequency_count config \<noteq> kFrequencyCount
      then invalid VC_InvalidFrequencyCount ''FHSS PR1 requires exactly 64 RF metadata frequencies''
      else if \<not> NearlyEqual fl (fc_base_frequency_hz config) (fd_of_int fl kBaseFrequencyHz) \<or>
              \<not> NearlyEqual fl (fc_frequency_spacing_hz config) (fd_of_int fl kFrequencySpacingHz)
      then invalid VC_InvalidFrequencyTable
        ''FHSS PR1 frequency table must start at 1 GHz with 8 MHz spacing''
      else if \<not> NearlyEqual fl (fc_sample_rate_hz config) (fd_of_int fl kSampleRateHz)
      then invalid VC_InvalidTiming ''FHSS PR1 frequency validation assumes 500 Msps fixture IQ''
      else if fd_less fl (fc_occupied_bandwidth_hz config) (fd_of_int fl 0) \<or>
              fd_less fl (fc_max_abs_cfo_hz config) (fd_of_int fl 0)
      then invalid VC_InvalidIqOffset ''occupied bandwidth and max CFO guards must be non-negative''
      else Inr ())"

definition RfFrequencyHz :: "'f double_ops \<Rightarrow> u32 \<Rightarrow> 'f fhss_frequency_config \<Rightarrow> 'f" where
  "RfFrequencyHz fl index config =
     fd_add fl (fc_base_frequency_hz config)
       (fd_mul fl (fd_of_int fl (uint index)) (fc_frequency_spacing_hz config))"

definition BuildFrequencyMap ::
    "'f double_ops \<Rightarrow> 'f fhss_frequency_config \<Rightarrow> 'f fhss_frequency_map_entry list fhss_result" where
  "BuildFrequencyMap fl config =
     (case ValidateFrequencyConfig fl config of
        Inl e \<Rightarrow> Inl e
      | Inr _ \<Rightarrow> Inr (map (\<lambda>i. \<lparr>fm_index = of_nat i, fm_rf_frequency_hz = RfFrequencyHz fl (of_nat i) config,
                  fm_iq_offset_frequency_hz = fc_iq_offset_frequency_hz config ! i\<rparr>) [0 ..< 64]))"

text \<open>The loop of \<open>ValidateIqOffsets\<close>, with the normalised offsets seen so far.\<close>

fun iq_offsets_loop ::
    "'f double_ops \<Rightarrow> 'f fhss_frequency_config \<Rightarrow> 'f list \<Rightarrow> u32 list \<Rightarrow> unit fhss_result" where
  "iq_offsets_loop fl config seen [] = Inr ()"
| "iq_offsets_loop fl config seen (index # indices) =
     (case ValidateSelectableFrequencyIndex index of
        Inl e \<Rightarrow> Inl e
      | Inr _ \<Rightarrow>
          let offset = fc_iq_offset_frequency_hz config ! unat index;
              two = fd_of_int fl 2;
              edge = fd_add fl (fd_add fl (fd_abs fl offset) (fd_div fl (fc_occupied_bandwidth_hz config) two))
                       (fc_max_abs_cfo_hz config);
              m = fd_fmod fl offset (fc_sample_rate_hz config);
              normalized = (if fd_less fl m (fd_of_int fl 0) then fd_add fl m (fc_sample_rate_hz config) else m)
          in if \<not> fd_isfinite fl offset
             then invalid VC_InvalidIqOffset ''IQ offset frequency must be finite''
             else if \<not> fd_less fl edge (fd_div fl (fc_sample_rate_hz config) two)
             then invalid VC_InvalidIqOffset
               ''IQ offset plus occupied-bandwidth/CFO guard must remain inside Nyquist''
             else if \<exists>existing \<in> set seen. NearlyEqual fl existing normalized
             then invalid VC_DuplicateIqOffset ''active IQ offsets must be distinct modulo sample rate''
             else iq_offsets_loop fl config (seen @ [normalized]) indices)"

definition ValidateIqOffsets ::
    "'f double_ops \<Rightarrow> 'f fhss_frequency_config \<Rightarrow> u32 list \<Rightarrow> unit fhss_result" where
  "ValidateIqOffsets fl config indices =
     and_validate (ValidateFrequencyConfig fl config) (iq_offsets_loop fl config [] indices)"

definition ValidateActiveFrequencySet :: "u32 list \<Rightarrow> unit fhss_result" where
  "ValidateActiveFrequencySet indices =
     (if length indices \<noteq> kActiveFrequencyCount
      then invalid VC_InvalidActiveFrequencySet ''FHSS PR1 requires exactly four active preamble frequencies''
      else and_validate (validate_each ValidateSelectableFrequencyIndex indices)
        (if card (set indices) \<noteq> kActiveFrequencyCount
         then invalid VC_InvalidActiveFrequencySet ''active preamble frequency indices must be distinct''
         else Inr ()))"

definition ContainsIndex :: "u32 list \<Rightarrow> u32 \<Rightarrow> bool" where
  "ContainsIndex indices index \<longleftrightarrow> index \<in> set indices"

definition ValidatePreamblePattern ::
    "fhss_preamble_pulse_spec list \<Rightarrow> u32 list \<Rightarrow> unit fhss_result" where
  "ValidatePreamblePattern pulses active =
     (if length pulses \<noteq> kPreamblePulseCount
      then invalid VC_InvalidPreambleLength ''FHSS PR1 preamble must contain exactly 16 pulses''
      else validate_each (\<lambda>p. and_validate (ValidateSelectableFrequencyIndex (pp_frequency_index p))
             (if \<not> ContainsIndex active (pp_frequency_index p)
              then invalid VC_InvalidPreambleFrequency
                ''preamble hop entry must be inside the active frequency set''
              else Inr ())) pulses)"

definition ValidatePayloadFrequencies :: "u32 list \<Rightarrow> u32 list \<Rightarrow> unit fhss_result" where
  "ValidatePayloadFrequencies payload active =
     validate_each (\<lambda>i. and_validate (ValidateSelectableFrequencyIndex i)
       (if \<not> ContainsIndex active i
        then invalid VC_InvalidPayloadFrequency
          ''payload/body frequency must be selected from the active preamble frequencies''
        else Inr ())) payload"

text \<open>The loop over the preamble with the table of words by frequency index.\<close>

fun word_consistency_loop ::
    "(u32 \<Rightarrow> u32 option) \<Rightarrow> fhss_preamble_pulse_spec list \<Rightarrow> unit fhss_result" where
  "word_consistency_loop words [] = Inr ()"
| "word_consistency_loop words (p # ps) =
     (case ValidateSelectableFrequencyIndex (pp_frequency_index p) of
        Inl e \<Rightarrow> Inl e
      | Inr _ \<Rightarrow>
          (case words (pp_frequency_index p) of
             None \<Rightarrow> word_consistency_loop (words(pp_frequency_index p \<mapsto> pp_word_value p)) ps
           | Some w \<Rightarrow>
               if w \<noteq> pp_word_value p
               then invalid VC_PreambleWordMismatch
                 ''identical preamble frequencies must have identical word values''
               else word_consistency_loop words ps))"

definition ValidatePreambleWordConsistency :: "fhss_preamble_pulse_spec list \<Rightarrow> unit fhss_result" where
  "ValidatePreambleWordConsistency pulses = word_consistency_loop (\<lambda>_. None) pulses"

definition ValidateMessageLength :: "nat \<Rightarrow> nat \<Rightarrow> unit fhss_result" where
  "ValidateMessageLength preamble_count payload_count =
     (if preamble_count + payload_count > kMaxMessagePulseCount
      then invalid VC_InvalidMessageLength
        ''FHSS PR1 messages may contain at most 256 pulses including preamble''
      else Inr ())"

definition ValidateDecodeConfig :: "'f double_ops \<Rightarrow> 'f fhss_decode_config \<Rightarrow> unit fhss_result" where
  "ValidateDecodeConfig fl config =
     and_validate (map_sum id (\<lambda>_. ()) (DeriveTimingModel fl (dcf_timing config)))
     (and_validate (ValidateFrequencyConfig fl (dcf_frequency config))
     (and_validate (ValidateActiveFrequencySet (dcf_active_frequency_indices config))
     (and_validate (ValidateIqOffsets fl (dcf_frequency config) (dcf_active_frequency_indices config))
     (and_validate (ValidatePreamblePattern (dcf_preamble_pulses config) (dcf_active_frequency_indices config))
     (and_validate (ValidatePreambleWordConsistency (dcf_preamble_pulses config))
     (and_validate (ValidatePayloadFrequencies (dcf_payload_frequency_indices config)
        (dcf_active_frequency_indices config))
     (and_validate (ValidateMessageLength (length (dcf_preamble_pulses config))
        (length (dcf_payload_frequency_indices config)))
     (if \<not> pr_deterministic (dcf_payload_random config)
      then invalid VC_InvalidPayloadFrequency
        ''FHSS PR1 payload/body random selection must be deterministic''
      else Inr ()))))))))"

section \<open>What validation accepts\<close>

lemma invalid_not_ok [simp]: "has_value (invalid c m) = False" "invalid c m \<noteq> Inr v" "Inr v \<noteq> invalid c m"
  by (simp_all add: invalid_def)

lemma has_value_and_validate [simp]: "has_value (and_validate v w) \<longleftrightarrow> has_value v \<and> has_value w"
  by (cases v) (simp_all add: and_validate_def)

lemma has_value_validate_each [simp]:
  "has_value (validate_each check xs) \<longleftrightarrow> (\<forall>x \<in> set xs. has_value (check x))"
  by (induction xs) simp_all

lemma selectable_iff: "has_value (ValidateSelectableFrequencyIndex i) \<longleftrightarrow> IsSelectableFrequencyIndex i"
proof -
  have "i \<le> 63 \<and> i \<noteq> 0 \<and> i \<noteq> 63 \<longleftrightarrow> 1 \<le> i \<and> i \<le> (62 :: u32)"
    by (auto simp: word_le_nat_alt word_less_nat_alt unat_eq_0 [symmetric]) (simp add: word_unat_eq_iff)+
  then show ?thesis
    by (auto simp: ValidateSelectableFrequencyIndex_def ValidateFrequencyIndex_def
        IsFrequencyIndexInTable_def IsReservedFrequencyIndex_def IsSelectableFrequencyIndex_def
        fhss_constants)
qed

lemma active_set_iff:
  "has_value (ValidateActiveFrequencySet is) \<longleftrightarrow>
     length is = 4 \<and> distinct is \<and> (\<forall>i \<in> set is. IsSelectableFrequencyIndex i)"
  by (auto simp: ValidateActiveFrequencySet_def selectable_iff fhss_constants distinct_card
      intro: card_distinct)

text \<open>The table-driven word check is the plain pairwise one.\<close>

lemma upd_map_le_iff: "m i = None \<Longrightarrow> m(i \<mapsto> v) \<subseteq>\<^sub>m g \<longleftrightarrow> m \<subseteq>\<^sub>m g \<and> g i = Some v"
proof
  assume n: "m i = None" and l: "m(i \<mapsto> v) \<subseteq>\<^sub>m g"
  have "m \<subseteq>\<^sub>m m(i \<mapsto> v)" using n by (auto simp: map_le_def)
  moreover have "g i = Some v" using l by (auto simp: map_le_def)
  ultimately show "m \<subseteq>\<^sub>m g \<and> g i = Some v" using l map_le_trans by blast
qed (auto simp: map_le_def)

definition words_extend :: "(u32 \<Rightarrow> u32 option) \<Rightarrow> fhss_preamble_pulse_spec list \<Rightarrow> (u32 \<Rightarrow> u32 option) \<Rightarrow> bool" where
  "words_extend words ps g \<longleftrightarrow> words \<subseteq>\<^sub>m g \<and> (\<forall>p \<in> set ps. g (pp_frequency_index p) = Some (pp_word_value p))"

lemma words_extend_Cons:
  "words (pp_frequency_index p) = None \<Longrightarrow>
     words_extend words (p # ps) g = words_extend (words(pp_frequency_index p \<mapsto> pp_word_value p)) ps g"
  "words (pp_frequency_index p) = Some w \<Longrightarrow>
     words_extend words (p # ps) g = (w = pp_word_value p \<and> words_extend words ps g)"
  by (auto simp: words_extend_def upd_map_le_iff) (auto simp: map_le_def dom_def)

lemma word_consistency_loop_iff:
  "has_value (word_consistency_loop words ps) \<longleftrightarrow>
     (\<forall>p \<in> set ps. IsSelectableFrequencyIndex (pp_frequency_index p)) \<and>
     (\<exists>g. words_extend words ps g)"
proof (induction words ps rule: word_consistency_loop.induct)
  case (1 words)
  have "words_extend words [] words" by (simp add: words_extend_def)
  then show ?case by auto
next
  case (2 words p ps)
  show ?case
  proof (cases "ValidateSelectableFrequencyIndex (pp_frequency_index p)")
    case (Inl e)
    then show ?thesis using selectable_iff [of "pp_frequency_index p"] by simp
  next
    case (Inr u)
    then have sel: "IsSelectableFrequencyIndex (pp_frequency_index p)"
      using selectable_iff [of "pp_frequency_index p"] by simp
    show ?thesis
    proof (cases "words (pp_frequency_index p)")
      case None
      then show ?thesis using 2(1) [OF Inr None] Inr sel by (simp add: words_extend_Cons(1) fun_upd_def)
    next
      case (Some w)
      then show ?thesis using 2(2) [OF Inr Some] Inr sel by (simp add: words_extend_Cons(2) [where words = words and p = p and w = w, OF Some])
    qed
  qed
qed

lemma word_consistency_iff:
  "has_value (ValidatePreambleWordConsistency ps) \<longleftrightarrow>
     (\<forall>p \<in> set ps. IsSelectableFrequencyIndex (pp_frequency_index p)) \<and>
     (\<forall>p \<in> set ps. \<forall>q \<in> set ps. pp_frequency_index p = pp_frequency_index q \<longrightarrow>
        pp_word_value p = pp_word_value q)"
proof -
  let ?kv = "\<lambda>p. (pp_frequency_index p, pp_word_value p)"
  have "words_extend (\<lambda>_. None) ps (map_of (map ?kv ps))"
    if "\<forall>p \<in> set ps. \<forall>q \<in> set ps. pp_frequency_index p = pp_frequency_index q \<longrightarrow>
        pp_word_value p = pp_word_value q"
    unfolding words_extend_def
  proof (intro conjI ballI)
    fix p assume p: "p \<in> set ps"
    then have "map_of (map ?kv ps) (pp_frequency_index p) \<noteq> None"
      by (simp add: map_of_eq_None_iff image_image)
    then obtain v where v: "map_of (map ?kv ps) (pp_frequency_index p) = Some v" by blast
    then obtain q where "q \<in> set ps" "pp_frequency_index q = pp_frequency_index p" "pp_word_value q = v"
      using map_of_SomeD [OF v] by auto
    then have "pp_word_value p = v" using p that by metis
    then show "map_of (map ?kv ps) (pp_frequency_index p) = Some (pp_word_value p)" using v by simp
  qed (simp add: map_le_def)
  moreover have "\<forall>p \<in> set ps. \<forall>q \<in> set ps. pp_frequency_index p = pp_frequency_index q \<longrightarrow>
        pp_word_value p = pp_word_value q" if "words_extend (\<lambda>_. None) ps g" for g
  proof (intro ballI impI)
    fix p q assume pq: "p \<in> set ps" "q \<in> set ps" "pp_frequency_index p = pp_frequency_index q"
    have e: "g (pp_frequency_index u) = Some (pp_word_value u)" if "u \<in> set ps" for u
      using that \<open>words_extend (\<lambda>_. None) ps g\<close> unfolding words_extend_def by (elim conjE bspec)
    show "pp_word_value p = pp_word_value q" using e [OF pq(1)] e [OF pq(2)] pq(3) by simp
  qed
  ultimately show ?thesis
    unfolding ValidatePreambleWordConsistency_def word_consistency_loop_iff by blast
qed

end
