(* ===== verification/Fhss_Viterbi.thy ===== *)
theory Fhss_Viterbi
  imports Fhss_Protocol
begin

text \<open>
  The demodulator of one pulse (\<open>libdsp/include/dsp/fhss/FHSSCpsmDecoder.hpp\<close>): the four-state
  phase trellis, the branch metrics and the Viterbi search. The main result is that the search is
  exact: for samples whose branch correlations are numbers it returns a path through the trellis
  with the least metric, sums rounded as the code rounds them, or rejects the pulse, which
  happens exactly when no path ends in the required phase state.

  Samples have an arbitrary type \<open>'z\<close> with the operations \<open>complex_ops\<close>. The arrays of four
  metrics are lists of length four. \<open>DeriveTimingModel(...).value()\<close> cannot throw inside the
  decoder, because the evidence has been validated with the same configuration.
\<close>

section \<open>Data\<close>

record 'f cpsm_decoder_config =
  cd_timing :: "'f fhss_timing_config"
  cd_modulation_index :: 'f
  cd_symbol_count :: u32
  cd_initial_phase_state :: u32
  cd_check_terminal_phase :: bool
  cd_expected_terminal_phase_state :: u32

record 'f cpsm_branch_metric =
  bm_symbol_index :: u32
  bm_from_state :: u32
  bm_to_state :: u32
  bm_symbol :: 'f
  bm_correlation :: 'f
  bm_cost :: 'f

record 'f cpsm_trellis_transition =
  tt_from_state :: u32
  tt_to_state :: u32
  tt_symbol :: 'f

record 'f cpsm_viterbi_result =
  vr_symbols :: "'f list"
  vr_phase_states :: "u32 list"
  vr_best_path_metric :: 'f
  vr_second_best_path_metric :: 'f
  vr_confidence :: 'f
  vr_terminal_phase_checked :: bool
  vr_terminal_phase_state :: u32

section \<open>The phase trellis\<close>

definition CPSMPhaseStateCount :: "'f double_ops \<Rightarrow> 'f \<Rightarrow> u32" where
  "CPSMPhaseStateCount fl h = (if \<not> NearlyEqual fl h (fd_half fl) then 0 else 4)"

definition CPSMStatePhaseRad :: "'f double_ops \<Rightarrow> u32 \<Rightarrow> 'f" where
  "CPSMStatePhaseRad fl state =
     fd_mul fl (fd_mul fl (fd_half fl) (fd_pi fl)) (fd_of_int fl (uint (state mod 4)))"

definition CPSMSymbolToPhaseStep :: "'f double_ops \<Rightarrow> 'f \<Rightarrow> u32" where
  "CPSMSymbolToPhaseStep fl symbol = (if fd_le fl (fd_of_int fl 0) symbol then 1 else 3)"

definition CPSMTransitionState :: "'f double_ops \<Rightarrow> u32 \<Rightarrow> 'f \<Rightarrow> u32" where
  "CPSMTransitionState fl from_state symbol = (from_state + CPSMSymbolToPhaseStep fl symbol) mod 4"

definition BuildCPSMTrellisTransitions :: "'f double_ops \<Rightarrow> 'f cpsm_trellis_transition list" where
  "BuildCPSMTrellisTransitions fl =
     concat (map (\<lambda>state. map (\<lambda>symbol.
         \<lparr>tt_from_state = state, tt_to_state = CPSMTransitionState fl state symbol, tt_symbol = symbol\<rparr>)
       [fd_of_int fl 1, fd_of_int fl (- 1)]) [0, 1, 2, 3])"

definition RectangularFullResponsePhasePulse :: "'f double_ops \<Rightarrow> u32 \<Rightarrow> u32 \<Rightarrow> 'f" where
  "RectangularFullResponsePhasePulse fl sample_in_symbol samples_per_symbol =
     fd_div fl (fd_mul fl (fd_half fl) (fd_of_int fl (uint sample_in_symbol)))
       (fd_of_int fl (uint samples_per_symbol))"

definition CPSMThetaRad :: "'f double_ops \<Rightarrow> u32 \<Rightarrow> 'f \<Rightarrow> u32 \<Rightarrow> u32 \<Rightarrow> 'f \<Rightarrow> 'f" where
  "CPSMThetaRad fl phase_state symbol sample_in_symbol samples_per_symbol h =
     (let q = RectangularFullResponsePhasePulse fl sample_in_symbol samples_per_symbol
      in fd_add fl (CPSMStatePhaseRad fl phase_state)
           (fd_mul fl (fd_mul fl (fd_mul fl (fd_mul fl (fd_of_int fl 2) (fd_pi fl)) h) symbol) q))"

definition CPSMPredictedSample ::
    "'f double_ops \<Rightarrow> ('f, 'z) complex_ops \<Rightarrow> u32 \<Rightarrow> 'f \<Rightarrow> u32 \<Rightarrow> u32 \<Rightarrow> 'f \<Rightarrow> 'z" where
  "CPSMPredictedSample fl zl phase_state symbol sample_in_symbol samples_per_symbol h =
     cz_exp_i zl (CPSMThetaRad fl phase_state symbol sample_in_symbol samples_per_symbol h)"

section \<open>Evidence\<close>

text \<open>
  The samples of one input sample of \<open>FHSSExpandDecimatedCpsmEvidence\<close>, with the phase step carried
  over to the last one.
\<close>

fun expand_loop ::
    "'f double_ops \<Rightarrow> ('f, 'z) complex_ops \<Rightarrow> u32 \<Rightarrow> 'f \<Rightarrow> 'z list \<Rightarrow> 'z list" where
  "expand_loop fl zl dec previous_delta [] = []"
| "expand_loop fl zl dec previous_delta (current # rest) =
     (let current_amplitude = cz_abs zl current;
          (phase_delta, next_amplitude) =
            (case rest of
               [] \<Rightarrow> (previous_delta, current_amplitude)
             | following # _ \<Rightarrow>
                 (cz_arg zl (cz_mul zl following (cz_conj zl current)), cz_abs zl following));
          current_phase = cz_arg zl current
      in map (\<lambda>sub.
           let fraction = fd_div fl (fd_of_int fl (int sub)) (fd_of_int fl (uint dec));
               amplitude = fd_add fl current_amplitude
                 (fd_mul fl fraction (fd_sub fl next_amplitude current_amplitude))
           in cz_polar zl amplitude (fd_add fl current_phase (fd_mul fl fraction phase_delta)))
           [0 ..< unat dec]
         @ expand_loop fl zl dec phase_delta rest)"

definition FHSSExpandDecimatedCpsmEvidence ::
    "'f double_ops \<Rightarrow> ('f, 'z) complex_ops \<Rightarrow> 'z list \<Rightarrow> u32 \<Rightarrow> 'z list" where
  "FHSSExpandDecimatedCpsmEvidence fl zl samples dec =
     (if dec = 0 then []
      else if dec = 1 then samples
      else if samples = [] \<or> dec > kSamplesPerSymbol \<or> kSamplesPerSymbol mod dec \<noteq> 0 \<or>
         length samples > (2 ^ 64 - 1) div unat dec then []
      else expand_loop fl zl dec (fd_of_int fl 0) samples)"

definition ValidateCPSMDecoderConfig ::
    "'f double_ops \<Rightarrow> 'f cpsm_decoder_config \<Rightarrow> unit fhss_result" where
  "ValidateCPSMDecoderConfig fl config =
     (if \<not> NearlyEqual fl (cd_modulation_index config) (fd_half fl)
      then invalid VC_InvalidTiming ''FHSS PR5 CPSM fixture requires modulation index h = 1/2''
      else if cd_symbol_count config = 0 \<or> cd_symbol_count config > kBitsPerPulse
      then invalid VC_InvalidTiming ''FHSS PR5 one-pulse decoder supports 1..32 CPSM symbols''
      else if cd_initial_phase_state config \<ge> CPSMPhaseStateCount fl (fd_half fl) \<or>
              cd_expected_terminal_phase_state config \<ge> CPSMPhaseStateCount fl (fd_half fl)
      then invalid VC_InvalidTiming ''FHSS PR5 CPSM phase states are accumulated phase modulo 2*pi''
      else map_sum id (\<lambda>_. ()) (DeriveTimingModel fl (cd_timing config)))"

text \<open>A successful validation carries the timing model, which the code derives again from the same configuration.\<close>

definition ValidateCPSMEvidence ::
    "'f double_ops \<Rightarrow> 'z list \<Rightarrow> 'f cpsm_decoder_config \<Rightarrow> fhss_timing_model fhss_result" where
  "ValidateCPSMEvidence fl samples config =
     (case ValidateCPSMDecoderConfig fl config of
        Inl e \<Rightarrow> Inl e
      | Inr _ \<Rightarrow> (case DeriveTimingModel fl (cd_timing config) of
            Inl e \<Rightarrow> Inl e
          | Inr timing \<Rightarrow>
              if length samples \<noteq> unat (cd_symbol_count config) * unat (tm_samples_per_symbol timing)
              then invalid VC_InvalidGlobalTiming
                ''FHSS PR5 CPSM evidence must contain exactly symbol_count * 100 complex samples''
              else Inr timing))"

section \<open>Branch metrics\<close>

text \<open>The search for the first sample that is not negligible; its index, or the length.\<close>

definition anchor_index :: "'f double_ops \<Rightarrow> ('f, 'z) complex_ops \<Rightarrow> 'z list \<Rightarrow> nat" where
  "anchor_index fl zl samples =
     length (takeWhile (\<lambda>z. fd_le fl (cz_abs zl z) (fd_machine_epsilon fl)) samples)"

text \<open>One iteration of the correlation loop on the pair (correlation sum, usable samples).\<close>

definition correlate ::
    "'f double_ops \<Rightarrow> ('z \<Rightarrow> u32 \<Rightarrow> 'f option) \<Rightarrow> 'z \<times> u32 \<Rightarrow> 'f \<times> 'f \<Rightarrow> 'f \<times> 'f" where
  "correlate fl term p acc =
     (case term (fst p) (snd p) of
        None \<Rightarrow> acc
      | Some t \<Rightarrow> (fd_add fl (fst acc) t, fd_add fl (snd acc) (fd_of_int fl 1)))"

definition ScoreBranch ::
    "'f double_ops \<Rightarrow> ('f, 'z) complex_ops \<Rightarrow> fhss_timing_model \<Rightarrow> 'f cpsm_decoder_config \<Rightarrow>
     'z list \<Rightarrow> u32 \<Rightarrow> u32 \<Rightarrow> 'f \<Rightarrow> 'f cpsm_branch_metric" where
  "ScoreBranch fl zl timing config samples symbol_index from_state symbol =
     (let spp = tm_samples_per_symbol timing;
          start = unat symbol_index * unat spp;
          anchor = anchor_index fl zl samples;
          h = cd_modulation_index config;
          zero = fd_of_int fl 0; one = fd_of_int fl 1; minus_one = fd_of_int fl (- 1);
          metric = (\<lambda>correlation cost.
            \<lparr>bm_symbol_index = symbol_index, bm_from_state = from_state,
             bm_to_state = CPSMTransitionState fl from_state symbol, bm_symbol = symbol,
             bm_correlation = correlation, bm_cost = cost\<rparr>)
      in if anchor \<ge> unat spp \<or> anchor \<ge> length samples
         then metric minus_one (fd_of_int fl 2)
         else
           let reference = samples ! anchor;
               observed_reference = cz_div_real zl reference (cz_abs zl reference);
               predicted_reference = CPSMPredictedSample fl zl (cd_initial_phase_state config) symbol
                 (of_nat anchor) spp h;
               term = (\<lambda>sample i.
                 let magnitude = cz_abs zl sample in
                 if fd_le fl magnitude (fd_machine_epsilon fl) then None
                 else
                   let observed_relative = cz_mul zl (cz_div_real zl sample magnitude)
                         (cz_conj zl observed_reference);
                       predicted_relative = cz_mul zl (CPSMPredictedSample fl zl from_state symbol i spp h)
                         (cz_conj zl predicted_reference)
                   in Some (cz_real zl (cz_mul zl observed_relative (cz_conj zl predicted_relative))));
               totals = fold (correlate fl term)
                 (map (\<lambda>i. (samples ! (start + i), of_nat i)) [0 ..< unat spp]) (zero, zero);
               correlation = (if fd_le fl (snd totals) zero \<and> fd_le fl zero (snd totals) then minus_one
                 else fd_div fl (fst totals) (snd totals))
           in metric correlation (fd_sub fl one (fd_clamp fl correlation minus_one one)))"

definition Compute ::
    "'f double_ops \<Rightarrow> ('f, 'z) complex_ops \<Rightarrow> 'z list \<Rightarrow> 'f cpsm_decoder_config \<Rightarrow>
     'f cpsm_branch_metric list fhss_result" where
  "Compute fl zl samples config =
     (case ValidateCPSMEvidence fl samples config of
        Inl e \<Rightarrow> Inl e
      | Inr timing \<Rightarrow> Inr (concat (map (\<lambda>symbol_index. concat (map (\<lambda>state.
            [ScoreBranch fl zl timing config samples symbol_index state (fd_of_int fl 1),
             ScoreBranch fl zl timing config samples symbol_index state (fd_of_int fl (- 1))])
            (map of_nat [0 ..< unat (CPSMPhaseStateCount fl (fd_half fl))])))
            (map of_nat [0 ..< unat (cd_symbol_count config)]))))"

section \<open>The Viterbi search\<close>

text \<open>One column of the three tables: the metrics of the states, and how each was reached.\<close>

record 'f trellis_column =
  cl_metrics :: "'f list"
  cl_predecessors :: "u32 list"
  cl_symbols :: "'f list"

definition empty_column :: "'f double_ops \<Rightarrow> 'f trellis_column" where
  "empty_column fl = \<lparr>cl_metrics = replicate 4 (fd_infinity fl), cl_predecessors = replicate 4 0,
     cl_symbols = replicate 4 (fd_of_int fl 1)\<rparr>"

definition relax ::
    "'f double_ops \<Rightarrow> 'f list \<Rightarrow> (u32 \<Rightarrow> 'f \<Rightarrow> 'f cpsm_branch_metric) \<Rightarrow> u32 \<Rightarrow> 'f \<Rightarrow>
     'f trellis_column \<Rightarrow> 'f trellis_column" where
  "relax fl previous score from_state symbol col =
     (let metric = score from_state symbol;
          candidate_metric = fd_add fl (previous ! unat from_state) (bm_cost metric);
          to = unat (bm_to_state metric)
      in if fd_less fl candidate_metric (cl_metrics col ! to)
         then \<lparr>cl_metrics = (cl_metrics col)[to := candidate_metric],
               cl_predecessors = (cl_predecessors col)[to := from_state],
               cl_symbols = (cl_symbols col)[to := symbol]\<rparr>
         else col)"

definition extend_from ::
    "'f double_ops \<Rightarrow> 'f list \<Rightarrow> (u32 \<Rightarrow> 'f \<Rightarrow> 'f cpsm_branch_metric) \<Rightarrow> u32 \<Rightarrow>
     'f trellis_column \<Rightarrow> 'f trellis_column" where
  "extend_from fl previous score from_state col =
     (if \<not> fd_isfinite fl (previous ! unat from_state) then col
      else fold (relax fl previous score from_state) [fd_of_int fl 1, fd_of_int fl (- 1)] col)"

definition viterbi_step ::
    "'f double_ops \<Rightarrow> (u32 \<Rightarrow> 'f \<Rightarrow> 'f cpsm_branch_metric) \<Rightarrow> 'f list \<Rightarrow> 'f trellis_column" where
  "viterbi_step fl score previous =
     fold (extend_from fl previous score) [0, 1, 2, 3] (empty_column fl)"

text \<open>
  The outer loop over the symbols, as the metrics reached and the columns computed so far, the
  latest first.
\<close>

fun viterbi_loop ::
    "'f double_ops \<Rightarrow> (u32 \<Rightarrow> u32 \<Rightarrow> 'f \<Rightarrow> 'f cpsm_branch_metric) \<Rightarrow> 'f list \<Rightarrow> nat \<Rightarrow>
     'f list \<times> 'f trellis_column list" where
  "viterbi_loop fl score start 0 = (start, [])"
| "viterbi_loop fl score start (Suc k) =
     (case viterbi_loop fl score start k of
        (previous, cols) \<Rightarrow>
          let col = viterbi_step fl (score (of_nat k)) previous in (cl_metrics col, col # cols))"

text \<open>The choice of the terminal state: best state, best metric, second-best metric.\<close>

definition select_state ::
    "'f double_ops \<Rightarrow> 'f cpsm_decoder_config \<Rightarrow> 'f list \<Rightarrow> u32 \<Rightarrow> u32 \<times> 'f \<times> 'f \<Rightarrow> u32 \<times> 'f \<times> 'f" where
  "select_state fl config previous state b =
     (case b of (best_state, best_metric, second_best_metric) \<Rightarrow>
        let metric = previous ! unat state in
        if cd_check_terminal_phase config \<and> state \<noteq> cd_expected_terminal_phase_state config then b
        else if fd_less fl metric best_metric then (state, metric, best_metric)
        else if fd_less fl metric second_best_metric then (best_state, best_metric, metric)
        else b)"

fun traceback :: "'f trellis_column list \<Rightarrow> u32 \<Rightarrow> 'f list \<times> u32 list" where
  "traceback [] state = ([], [state])"
| "traceback (col # cols) state =
     (case traceback cols (cl_predecessors col ! unat state) of
        (symbols, states) \<Rightarrow> (symbols @ [cl_symbols col ! unat state], states @ [state]))"

definition start_metrics :: "'f double_ops \<Rightarrow> u32 \<Rightarrow> 'f list" where
  "start_metrics fl initial = (replicate 4 (fd_infinity fl))[unat initial := fd_of_int fl 0]"

definition viterbi_confidence :: "'f double_ops \<Rightarrow> 'f cpsm_decoder_config \<Rightarrow> 'f \<Rightarrow> 'f \<Rightarrow> 'f" where
  "viterbi_confidence fl config best second =
     (let separation = (if fd_isfinite fl second then fd_sub fl second best
            else if fd_le fl best (fd_of_int fl 0) \<and> fd_le fl (fd_of_int fl 0) best then fd_of_int fl 1
            else best)
      in fd_clamp fl (fd_div fl separation (fd_of_int fl (uint (cd_symbol_count config))))
           (fd_of_int fl 0) (fd_of_int fl 1))"

definition CPSMViterbiDecoderKernel_Decode ::
    "'f double_ops \<Rightarrow> ('f, 'z) complex_ops \<Rightarrow> 'z list \<Rightarrow> 'f cpsm_decoder_config \<Rightarrow>
     'f cpsm_viterbi_result fhss_result" where
  "CPSMViterbiDecoderKernel_Decode fl zl samples config =
     (case ValidateCPSMEvidence fl samples config of
        Inl e \<Rightarrow> Inl e
      | Inr timing \<Rightarrow>
          (case viterbi_loop fl (ScoreBranch fl zl timing config samples)
                  (start_metrics fl (cd_initial_phase_state config)) (unat (cd_symbol_count config)) of
             (previous, cols) \<Rightarrow>
               (case fold (select_state fl config previous) [0, 1, 2, 3]
                       (0, fd_infinity fl, fd_infinity fl) of
                  (best_state, best_metric, second_best_metric) \<Rightarrow>
                    if \<not> fd_isfinite fl best_metric
                    then invalid VC_InvalidTiming
                      ''FHSS PR5 terminal phase policy rejected every Viterbi path''
                    else (case traceback cols best_state of
                      (symbols, states) \<Rightarrow>
                        Inr \<lparr>vr_symbols = symbols, vr_phase_states = states,
                             vr_best_path_metric = best_metric,
                             vr_second_best_path_metric = second_best_metric,
                             vr_confidence = viterbi_confidence fl config best_metric second_best_metric,
                             vr_terminal_phase_checked = cd_check_terminal_phase config,
                             vr_terminal_phase_state = best_state\<rparr>))))"

section \<open>Paths through the trellis\<close>

text \<open>
  The specification of the search: a path is a list of symbols, read from the initial state; its
  metric is the sum of the costs of its branches, added from left to right.
\<close>

definition symbol_words :: "'f double_ops \<Rightarrow> nat \<Rightarrow> 'f list set" where
  "symbol_words fl n = {xs. length xs = n \<and> set xs \<subseteq> {fd_of_int fl 1, fd_of_int fl (- 1)}}"

definition path_state :: "'f double_ops \<Rightarrow> u32 \<Rightarrow> 'f list \<Rightarrow> u32" where
  "path_state fl s xs = foldl (CPSMTransitionState fl) s xs"

fun path_states :: "'f double_ops \<Rightarrow> u32 \<Rightarrow> 'f list \<Rightarrow> u32 list" where
  "path_states fl s [] = [s]"
| "path_states fl s (x # xs) = s # path_states fl (CPSMTransitionState fl s x) xs"

fun path_metric_from ::
    "'f double_ops \<Rightarrow> (u32 \<Rightarrow> u32 \<Rightarrow> 'f \<Rightarrow> 'f cpsm_branch_metric) \<Rightarrow> nat \<Rightarrow> u32 \<Rightarrow> 'f \<Rightarrow> 'f list \<Rightarrow> 'f" where
  "path_metric_from fl score k s a [] = a"
| "path_metric_from fl score k s a (x # xs) =
     path_metric_from fl score (Suc k) (CPSMTransitionState fl s x)
       (fd_add fl a (bm_cost (score (of_nat k) s x))) xs"

definition path_metric ::
    "'f double_ops \<Rightarrow> (u32 \<Rightarrow> u32 \<Rightarrow> 'f \<Rightarrow> 'f cpsm_branch_metric) \<Rightarrow> u32 \<Rightarrow> 'f list \<Rightarrow> 'f" where
  "path_metric fl score initial xs = path_metric_from fl score 0 initial (fd_of_int fl 0) xs"

lemma path_state_snoc [simp]:
  "path_state fl s [] = s" "path_state fl s (xs @ [x]) = CPSMTransitionState fl (path_state fl s xs) x"
  by (simp_all add: path_state_def)

lemma path_states_snoc:
  "path_states fl s (xs @ [x]) = path_states fl s xs @ [path_state fl s (xs @ [x])]"
  by (induction xs arbitrary: s) (simp_all add: path_state_def)

lemma path_metric_from_snoc:
  "path_metric_from fl score k s a (xs @ [x]) =
     fd_add fl (path_metric_from fl score k s a xs)
       (bm_cost (score (of_nat (k + length xs)) (path_state fl s xs) x))"
  by (induction xs arbitrary: k s a) (simp_all add: path_state_def add.assoc)

lemma path_metric_snoc [simp]:
  "path_metric fl score s [] = fd_of_int fl 0"
  "path_metric fl score s (xs @ [x]) = fd_add fl (path_metric fl score s xs)
     (bm_cost (score (of_nat (length xs)) (path_state fl s xs) x))"
  by (simp_all add: path_metric_def path_metric_from_snoc)

lemma symbol_words_Suc:
  "xs \<in> symbol_words fl (Suc n) \<longleftrightarrow>
     (\<exists>ys x. xs = ys @ [x] \<and> ys \<in> symbol_words fl n \<and> x \<in> {fd_of_int fl 1, fd_of_int fl (- 1)})"
  by (cases xs rule: rev_cases) (auto simp: symbol_words_def)

lemma u32_mod4_less: "(w :: u32) mod 4 < 4"
  by (rule word_mod_less_divisor) simp

lemma trans_less4 [simp]: "CPSMTransitionState fl s x < 4" "unat (CPSMTransitionState fl s x) < 4"
  using u32_mod4_less [of "s + CPSMSymbolToPhaseStep fl x"]
  by (simp_all add: CPSMTransitionState_def word_less_nat_alt)

lemma path_state_less4: "s < 4 \<Longrightarrow> path_state fl s xs < 4"
  by (cases xs rule: rev_cases) (simp_all del: trans_less4 add: trans_less4(1))

lemma u32_less4_iff: "(t :: u32) < 4 \<longleftrightarrow> t \<in> set [0, 1, 2, 3]"
proof
  assume "t < 4"
  then have "unat t < 4" by (simp add: word_less_nat_alt)
  then have "unat t \<in> {0, 1, 2, 3}" by auto
  then show "t \<in> set [0, 1, 2, 3]" by (auto simp: word_unat_eq_iff)
qed (auto simp: word_less_nat_alt)

section \<open>The search is exact\<close>

text \<open>
  The entry of state \<open>t\<close> in a column that has been filled from the branches in \<open>S\<close>: no branch gives
  a smaller metric, and a finite metric is that of the recorded branch.
\<close>

definition entry_of ::
    "'f double_ops \<Rightarrow> (u32 \<Rightarrow> 'f \<Rightarrow> 'f cpsm_branch_metric) \<Rightarrow> 'f list \<Rightarrow> (u32 \<times> 'f) set \<Rightarrow> u32 \<Rightarrow>
     'f \<Rightarrow> u32 \<Rightarrow> 'f \<Rightarrow> bool" where
  "entry_of fl score previous S t m f x \<longleftrightarrow> fd_num fl m \<and>
     (\<forall>g y. (g, y) \<in> S \<longrightarrow> fd_isfinite fl (previous ! unat g) \<longrightarrow> CPSMTransitionState fl g y = t \<longrightarrow>
        fd_le fl m (fd_add fl (previous ! unat g) (bm_cost (score g y)))) \<and>
     (m = fd_infinity fl \<or> (f, x) \<in> S \<and> fd_isfinite fl (previous ! unat f) \<and>
        CPSMTransitionState fl f x = t \<and> m = fd_add fl (previous ! unat f) (bm_cost (score f x)))"

definition column_of ::
    "'f double_ops \<Rightarrow> (u32 \<Rightarrow> 'f \<Rightarrow> 'f cpsm_branch_metric) \<Rightarrow> 'f list \<Rightarrow> (u32 \<times> 'f) set \<Rightarrow>
     'f trellis_column \<Rightarrow> bool" where
  "column_of fl score previous S col \<longleftrightarrow>
     length (cl_metrics col) = 4 \<and> length (cl_predecessors col) = 4 \<and> length (cl_symbols col) = 4 \<and>
     (\<forall>t<4. entry_of fl score previous S t (cl_metrics col ! unat t) (cl_predecessors col ! unat t)
        (cl_symbols col ! unat t))"

text \<open>
  The metrics after \<open>n\<close> symbols: a bound for every path of that length, and the metric of the
  path that is traced back from the state.
\<close>

definition metrics_of ::
    "'f double_ops \<Rightarrow> (u32 \<Rightarrow> u32 \<Rightarrow> 'f \<Rightarrow> 'f cpsm_branch_metric) \<Rightarrow> u32 \<Rightarrow> nat \<Rightarrow> 'f list \<Rightarrow>
     'f trellis_column list \<Rightarrow> bool" where
  "metrics_of fl score initial n previous cols \<longleftrightarrow> (\<forall>t<4.
     fd_num fl (previous ! unat t) \<and>
     (\<forall>xs \<in> symbol_words fl n. path_state fl initial xs = t \<longrightarrow>
        fd_le fl (previous ! unat t) (path_metric fl score initial xs)) \<and>
     (previous ! unat t = fd_infinity fl \<or>
      (\<exists>xs \<in> symbol_words fl n. path_state fl initial xs = t \<and>
         path_metric fl score initial xs = previous ! unat t \<and>
         traceback cols t = (xs, path_states fl initial xs))))"

text \<open>The choice of the terminal state, over the states in \<open>T\<close> so far.\<close>

definition terminal_ok :: "'f cpsm_decoder_config \<Rightarrow> u32 \<Rightarrow> bool" where
  "terminal_ok config t \<longleftrightarrow>
     (cd_check_terminal_phase config \<longrightarrow> t = cd_expected_terminal_phase_state config)"

definition selection_of ::
    "'f double_ops \<Rightarrow> 'f cpsm_decoder_config \<Rightarrow> 'f list \<Rightarrow> u32 set \<Rightarrow> u32 \<times> 'f \<times> 'f \<Rightarrow> bool" where
  "selection_of fl config previous T b \<longleftrightarrow>
     (case b of (best_state, best_metric, second_best_metric) \<Rightarrow>
        fd_num fl best_metric \<and>
        (\<forall>t \<in> T. terminal_ok config t \<longrightarrow> fd_le fl best_metric (previous ! unat t)) \<and>
        (best_metric = fd_infinity fl \<or>
         best_state \<in> T \<and> terminal_ok config best_state \<and> previous ! unat best_state = best_metric))"

lemma symbol_step [simp]:
  "ieee_doubles fl \<Longrightarrow> CPSMSymbolToPhaseStep fl (fd_of_int fl 1) = 1"
  "ieee_doubles fl \<Longrightarrow> CPSMSymbolToPhaseStep fl (fd_of_int fl (- 1)) = 3"
  by (simp_all add: CPSMSymbolToPhaseStep_def ieee_doubles.sign_tests)

lemma unat_transition:
  assumes "s < 4"
  shows "unat (CPSMTransitionState fl s x) = (unat s + unat (CPSMSymbolToPhaseStep fl x)) mod 4"
proof -
  have "unat s < 4" using assms by (simp add: word_less_nat_alt)
  then have "unat (s + CPSMSymbolToPhaseStep fl x) = unat s + unat (CPSMSymbolToPhaseStep fl x)"
    by (simp add: unat_add_lem [symmetric] CPSMSymbolToPhaseStep_def)
  then show ?thesis by (simp add: CPSMTransitionState_def unat_mod)
qed

lemma transition_parity:
  assumes "s < 4"
  shows "even (unat (CPSMTransitionState fl s x)) \<longleftrightarrow> odd (unat s)"
proof -
  have "odd (unat (CPSMSymbolToPhaseStep fl x))" by (simp add: CPSMSymbolToPhaseStep_def)
  then have "even ((unat s + unat (CPSMSymbolToPhaseStep fl x)) mod 4) \<longleftrightarrow> odd (unat s)"
    by (simp add: dvd_mod_iff)
  then show ?thesis by (simp add: unat_transition [OF assms])
qed

lemma path_parity:
  "s < 4 \<Longrightarrow> even (unat (path_state fl s xs)) \<longleftrightarrow> even (unat s + length xs)"
  by (induction xs rule: rev_induct) (auto simp: transition_parity path_state_less4)

lemma transition_onto:
  assumes "ieee_doubles fl" "s < 4" "t < 4" "even (unat t) \<longleftrightarrow> odd (unat s)"
  shows "\<exists>x \<in> {fd_of_int fl 1, fd_of_int fl (- 1)}. CPSMTransitionState fl s x = t"
  using assms by (auto simp: u32_less4_iff CPSMTransitionState_def)

lemma path_to:
  assumes ie: "ieee_doubles fl" and s: "s < 4" and t: "t < 4" and p: "even (unat s + n + unat t)"
    and n: "0 < n"
  shows "\<exists>xs \<in> symbol_words fl n. path_state fl s xs = t"
proof -
  obtain m where m: "n = Suc m" using n by (cases n) auto
  let ?ys = "replicate m (fd_of_int fl 1)"
  have "even (unat t) \<longleftrightarrow> odd (unat (path_state fl s ?ys))"
    using p m path_parity [OF s, of fl ?ys] by auto
  then obtain x where "x \<in> {fd_of_int fl 1, fd_of_int fl (- 1)}"
      "CPSMTransitionState fl (path_state fl s ?ys) x = t"
    using transition_onto [OF ie path_state_less4 [OF s] t] by blast
  then have "?ys @ [x] \<in> symbol_words fl n" "path_state fl s (?ys @ [x]) = t"
    using m by (auto simp: symbol_words_def)
  then show ?thesis by blast
qed

text \<open>What the search needs of the branch metrics: the trellis successor and a cost from 0 to 2.\<close>

locale viterbi_trellis = ieee_doubles fl for fl :: "'f double_ops" +
  fixes score :: "u32 \<Rightarrow> u32 \<Rightarrow> 'f \<Rightarrow> 'f cpsm_branch_metric" and len :: nat
  assumes score_to: "bm_to_state (score i s x) = CPSMTransitionState fl s x"
    and score_low: "k < len \<Longrightarrow> s < 4 \<Longrightarrow> x \<in> {fd_of_int fl 1, fd_of_int fl (- 1)} \<Longrightarrow>
          fd_le fl (fd_of_int fl 0) (bm_cost (score (of_nat k) s x))"
    and score_high: "k < len \<Longrightarrow> s < 4 \<Longrightarrow> x \<in> {fd_of_int fl 1, fd_of_int fl (- 1)} \<Longrightarrow>
          fd_le fl (bm_cost (score (of_nat k) s x)) (fd_of_int fl 2)"
begin

lemma score_finite:
  "k < len \<Longrightarrow> s < 4 \<Longrightarrow> x \<in> {fd_of_int fl 1, fd_of_int fl (- 1)} \<Longrightarrow>
     fd_isfinite fl (bm_cost (score (of_nat k) s x))"
  by (rule finite_between [OF _ _ score_low score_high]) simp_all

lemma path_metric_finite:
  "n \<le> len \<Longrightarrow> s < 4 \<Longrightarrow> xs \<in> symbol_words fl n \<Longrightarrow> fd_isfinite fl (path_metric fl score s xs)"
proof (induction n arbitrary: xs)
  case (Suc n)
  then obtain ys x where x: "xs = ys @ [x]" "ys \<in> symbol_words fl n"
      "x \<in> {fd_of_int fl 1, fd_of_int fl (- 1)}"
    unfolding symbol_words_Suc by blast
  have l: "length ys < len" using x(2) Suc.prems(1) by (simp add: symbol_words_def)
  note b = l path_state_less4 [OF Suc.prems(2)] x(3)
  have "fd_isfinite fl (path_metric fl score s ys)" using Suc.IH x(2) Suc.prems by simp
  then show ?case using add_small_finite [OF _ score_low [OF b] score_high [OF b]] x(1) by simp
qed (simp add: symbol_words_def)

lemma column_of_empty: "column_of fl (score k) previous {} (empty_column fl)"
  by (simp add: column_of_def entry_of_def empty_column_def infinity_num word_less_nat_alt)

lemma not_less_le: "fd_num fl x \<Longrightarrow> fd_num fl y \<Longrightarrow> \<not> fd_less fl x y \<Longrightarrow> fd_le fl y x"
  using less_iff by blast

lemma less_le: "fd_num fl x \<Longrightarrow> fd_num fl y \<Longrightarrow> fd_less fl x y \<Longrightarrow> fd_le fl x y"
  using less_iff le_linear by blast

lemma candidate_num:
  "k < len \<Longrightarrow> f < 4 \<Longrightarrow> fd_isfinite fl (previous ! unat f) \<Longrightarrow> x \<in> {fd_of_int fl 1, fd_of_int fl (- 1)} \<Longrightarrow>
     fd_num fl (fd_add fl (previous ! unat f) (bm_cost (score (of_nat k) f x)))"
  by (intro finite_num add_small_finite score_low score_high)

lemma entry_of_other:
  "entry_of fl (score k) previous S t m g y \<Longrightarrow> CPSMTransitionState fl f x \<noteq> t \<Longrightarrow>
     entry_of fl (score k) previous (insert (f, x) S) t m g y"
  unfolding entry_of_def by blast

lemma entry_of_keep:
  assumes "entry_of fl (score k) previous S t m g y"
    and "fd_le fl m (fd_add fl (previous ! unat f) (bm_cost (score k f x)))"
  shows "entry_of fl (score k) previous (insert (f, x) S) t m g y"
  using assms unfolding entry_of_def by blast

lemma entry_of_new:
  assumes e: "entry_of fl (score k) previous S t m g y" and fin: "fd_isfinite fl (previous ! unat f)"
    and t: "CPSMTransitionState fl f x = t"
    and n: "fd_num fl (fd_add fl (previous ! unat f) (bm_cost (score k f x)))"
    and le: "fd_le fl (fd_add fl (previous ! unat f) (bm_cost (score k f x))) m"
  shows "entry_of fl (score k) previous (insert (f, x) S) t
     (fd_add fl (previous ! unat f) (bm_cost (score k f x))) f x"
  using e fin t n le_trans [OF le] unfolding entry_of_def fd_num_def by blast

lemma column_of_relax:
  assumes k: "k < len" and f: "f < 4" and c: "column_of fl (score (of_nat k)) previous S col" and fin: "fd_isfinite fl (previous ! unat f)"
    and x: "x \<in> {fd_of_int fl 1, fd_of_int fl (- 1)}"
  shows "column_of fl (score (of_nat k)) previous (insert (f, x) S) (relax fl previous (score (of_nat k)) f x col)"
proof -
  let ?to = "CPSMTransitionState fl f x"
  let ?cand = "fd_add fl (previous ! unat f) (bm_cost (score (of_nat k) f x))"
  have n: "fd_num fl ?cand" by (rule candidate_num [OF k f fin x])
  have len: "length (cl_metrics col) = 4" "length (cl_predecessors col) = 4" "length (cl_symbols col) = 4"
    using c by (simp_all add: column_of_def)
  have e: "entry_of fl (score (of_nat k)) previous S t (cl_metrics col ! unat t) (cl_predecessors col ! unat t)
      (cl_symbols col ! unat t)" if "t < 4" for t
    using c that by (simp add: column_of_def)
  have m: "fd_num fl (cl_metrics col ! unat ?to)" using e [of ?to] by (simp add: entry_of_def)
  have ne: "unat t \<noteq> unat ?to" if "t \<noteq> ?to" for t
    using that word_unat_eq_iff by blast
  show ?thesis
  proof (cases "fd_less fl ?cand (cl_metrics col ! unat ?to)")
    case True
    have r: "relax fl previous (score (of_nat k)) f x col =
        \<lparr>cl_metrics = (cl_metrics col)[unat ?to := ?cand],
         cl_predecessors = (cl_predecessors col)[unat ?to := f],
         cl_symbols = (cl_symbols col)[unat ?to := x]\<rparr>"
      using True by (simp add: relax_def score_to Let_def)
    have new: "entry_of fl (score (of_nat k)) previous (insert (f, x) S) ?to ?cand f x"
      by (rule entry_of_new [OF e fin refl n less_le [OF n m True]]) simp
    have "entry_of fl (score (of_nat k)) previous (insert (f, x) S) t ((cl_metrics col)[unat ?to := ?cand] ! unat t)
        ((cl_predecessors col)[unat ?to := f] ! unat t) ((cl_symbols col)[unat ?to := x] ! unat t)"
      if t: "t < 4" for t
    proof (cases "t = ?to")
      case True
      then show ?thesis using new len by simp
    next
      case False
      then show ?thesis using entry_of_other [OF e [OF t]] ne [OF False] by (metis nth_list_update_neq)
    qed
    then show ?thesis unfolding column_of_def r using len by simp
  next
    case False
    then have r: "relax fl previous (score (of_nat k)) f x col = col"
      by (simp add: relax_def score_to Let_def)
    note le = not_less_le [OF n m False]
    have "entry_of fl (score (of_nat k)) previous (insert (f, x) S) t (cl_metrics col ! unat t)
       (cl_predecessors col ! unat t) (cl_symbols col ! unat t)" if t: "t < 4" for t
      using entry_of_other [OF e [OF t]] entry_of_keep [OF e [OF t]] le by metis
    then show ?thesis unfolding column_of_def r using len by simp
  qed
qed

lemma column_of_skip:
  assumes "column_of fl (score (of_nat k)) previous S col" "\<not> fd_isfinite fl (previous ! unat f)"
  shows "column_of fl (score (of_nat k)) previous (insert (f, x) S) col"
  using assms unfolding column_of_def entry_of_def by blast

lemma column_of_extend:
  assumes k: "k < len" and f: "f < 4" and c: "column_of fl (score (of_nat k)) previous S col"
  shows "column_of fl (score (of_nat k)) previous
     (insert (f, fd_of_int fl (- 1)) (insert (f, fd_of_int fl 1) S)) (extend_from fl previous (score (of_nat k)) f col)"
proof (cases "fd_isfinite fl (previous ! unat f)")
  case True
  then show ?thesis
    using column_of_relax [OF k f column_of_relax [OF k f c True] True] by (simp add: extend_from_def)
next
  case False
  then show ?thesis
    using column_of_skip [OF column_of_skip [OF c False] False] by (simp add: extend_from_def)
qed

lemma viterbi_step_column:
  assumes k: "k < len"
  shows "column_of fl (score (of_nat k)) previous ({t. t < 4} \<times> {fd_of_int fl 1, fd_of_int fl (- 1)})
     (viterbi_step fl (score (of_nat k)) previous)"
proof -
  let ?c = "\<lambda>f. extend_from fl previous (score (of_nat k)) f"
  have "column_of fl (score (of_nat k)) previous
      (insert (3, fd_of_int fl (- 1)) (insert (3, fd_of_int fl 1)
      (insert (2, fd_of_int fl (- 1)) (insert (2, fd_of_int fl 1)
      (insert (1, fd_of_int fl (- 1)) (insert (1, fd_of_int fl 1)
      (insert (0, fd_of_int fl (- 1)) (insert (0, fd_of_int fl 1) {}))))))))
      (?c 3 (?c 2 (?c 1 (?c 0 (empty_column fl)))))"
    by (intro column_of_extend [OF k] column_of_empty) (simp_all add: u32_less4_iff)
  moreover have "{t :: u32. t < 4} \<times> {fd_of_int fl 1, fd_of_int fl (- 1)} =
      insert (3, fd_of_int fl (- 1)) (insert (3, fd_of_int fl 1)
      (insert (2, fd_of_int fl (- 1)) (insert (2, fd_of_int fl 1)
      (insert (1, fd_of_int fl (- 1)) (insert (1, fd_of_int fl 1)
      (insert (0, fd_of_int fl (- 1)) (insert (0, fd_of_int fl 1) {})))))))"
    by (auto simp: u32_less4_iff)
  ultimately show ?thesis by (simp add: viterbi_step_def)
qed

lemma metrics_of_start:
  assumes "initial < 4"
  shows "metrics_of fl score initial 0 (start_metrics fl initial) []"
proof -
  have i: "unat initial < 4" using assms by (simp add: word_less_nat_alt)
  have "start_metrics fl initial ! unat t =
      (if t = initial then fd_of_int fl 0 else fd_infinity fl)" if "t < 4" for t
  proof (cases "t = initial")
    case False
    then have "unat t \<noteq> unat initial" using word_unat_eq_iff by blast
    then show ?thesis using that False by (simp add: start_metrics_def word_less_nat_alt)
  qed (use i in \<open>simp add: start_metrics_def\<close>)
  moreover have "fd_num fl (fd_of_int fl 0)" by (rule finite_num) simp
  moreover have "symbol_words fl 0 = {[]}" by (auto simp: symbol_words_def)
  ultimately show ?thesis using infinity_num by (auto simp: metrics_of_def fd_num_def)
qed

lemma not_infinity_le: "fd_isfinite fl x \<Longrightarrow> \<not> fd_le fl (fd_infinity fl) x"
  using finite_less_infinity less_iff infinity_num finite_num by blast

lemma metrics_of_finite:
  assumes i: "initial < 4" and n: "n \<le> len" and m: "metrics_of fl score initial n previous cols" and xs: "xs \<in> symbol_words fl n"
  shows "fd_isfinite fl (previous ! unat (path_state fl initial xs))"
proof -
  let ?t = "path_state fl initial xs"
  have t: "?t < 4" by (rule path_state_less4 [OF i])
  note pf = path_metric_finite [OF n i]
  have le: "fd_le fl (previous ! unat ?t) (path_metric fl score initial xs)"
    using m xs t by (simp add: metrics_of_def)
  have "previous ! unat ?t \<noteq> fd_infinity fl"
    using le not_infinity_le [OF pf [OF xs]] by metis
  then obtain ys where "ys \<in> symbol_words fl n" "path_metric fl score initial ys = previous ! unat ?t"
    using m t unfolding metrics_of_def by blast
  then show ?thesis using pf by metis
qed

lemma metrics_of_bound:
  assumes i: "initial < 4" and n: "n < len" and m: "metrics_of fl score initial n previous cols"
    and ys: "ys \<in> symbol_words fl n" and x: "x \<in> {fd_of_int fl 1, fd_of_int fl (- 1)}"
    and e: "entry_of fl (score (of_nat n)) previous
      ({t. t < 4} \<times> {fd_of_int fl 1, fd_of_int fl (- 1)}) (path_state fl initial (ys @ [x])) v f z"
  shows "fd_le fl v (path_metric fl score initial (ys @ [x]))"
proof -
  let ?s = "path_state fl initial ys"
  have s: "?s < 4" by (rule path_state_less4 [OF i])
  have fin: "fd_isfinite fl (previous ! unat ?s)" by (rule metrics_of_finite [OF i less_imp_le [OF n] m ys])
  have "fd_le fl v (fd_add fl (previous ! unat ?s) (bm_cost (score (of_nat n) ?s x)))"
    using e fin s x unfolding entry_of_def by auto
  moreover have "fd_le fl (previous ! unat ?s) (path_metric fl score initial ys)"
    using m ys s by (simp add: metrics_of_def)
  then have "fd_le fl (fd_add fl (previous ! unat ?s) (bm_cost (score (of_nat n) ?s x)))
      (path_metric fl score initial (ys @ [x]))"
    using add_mono [OF fin path_metric_finite [OF less_imp_le [OF n] i ys] score_finite [OF n s x]] ys
    by (simp add: symbol_words_def)
  ultimately show ?thesis by (rule le_trans)
qed

lemma metrics_of_step:
  assumes i: "initial < 4" and n: "n < len" and m: "metrics_of fl score initial n previous cols"
    and col: "column_of fl (score (of_nat n)) previous
      ({t. t < 4} \<times> {fd_of_int fl 1, fd_of_int fl (- 1)}) col"
  shows "metrics_of fl score initial (Suc n) (cl_metrics col) (col # cols)"
  unfolding metrics_of_def
proof (intro allI impI conjI ballI)
  fix t :: u32 assume t: "t < 4"
  let ?v = "cl_metrics col ! unat t" and ?f = "cl_predecessors col ! unat t"
    and ?x = "cl_symbols col ! unat t"
  have e: "entry_of fl (score (of_nat n)) previous
      ({t. t < 4} \<times> {fd_of_int fl 1, fd_of_int fl (- 1)}) t ?v ?f ?x"
    using col t by (simp add: column_of_def)
  show "fd_num fl ?v" using e by (simp add: entry_of_def)
  show "fd_le fl ?v (path_metric fl score initial xs)"
    if xs: "xs \<in> symbol_words fl (Suc n)" and p: "path_state fl initial xs = t" for xs
  proof -
    obtain ys x where "xs = ys @ [x]" "ys \<in> symbol_words fl n"
        "x \<in> {fd_of_int fl 1, fd_of_int fl (- 1)}"
      using xs unfolding symbol_words_Suc by blast
    then show ?thesis using metrics_of_bound [OF i n m] e p by metis
  qed
  show "?v = fd_infinity fl \<or> (\<exists>xs \<in> symbol_words fl (Suc n). path_state fl initial xs = t \<and>
     path_metric fl score initial xs = ?v \<and> traceback (col # cols) t = (xs, path_states fl initial xs))"
  proof (cases "?v = fd_infinity fl")
    case False
    then have f: "?f < 4" "?x \<in> {fd_of_int fl 1, fd_of_int fl (- 1)}"
        "fd_isfinite fl (previous ! unat ?f)" "CPSMTransitionState fl ?f ?x = t"
        "?v = fd_add fl (previous ! unat ?f) (bm_cost (score (of_nat n) ?f ?x))"
      using e by (auto simp: entry_of_def)
    then have "previous ! unat ?f \<noteq> fd_infinity fl" using infinity_not_finite by metis
    then obtain ys where ys: "ys \<in> symbol_words fl n" "path_state fl initial ys = ?f"
        "path_metric fl score initial ys = previous ! unat ?f"
        "traceback cols ?f = (ys, path_states fl initial ys)"
      using m f(1) unfolding metrics_of_def by blast
    then have "ys @ [?x] \<in> symbol_words fl (Suc n)" using f(2) unfolding symbol_words_Suc by blast
    moreover have "path_metric fl score initial (ys @ [?x]) = ?v"
      using ys f(5) by (simp add: symbol_words_def)
    ultimately show ?thesis using ys f(4) by (auto simp: path_states_snoc)
  qed simp
qed

lemma viterbi_loop_metrics:
  assumes "initial < 4" "n \<le> len"
    "viterbi_loop fl score (start_metrics fl initial) n = (previous, cols)"
  shows "metrics_of fl score initial n previous cols"
  using assms(2,3)
proof (induction n arbitrary: previous cols)
  case 0
  then show ?case using metrics_of_start [OF assms(1)] by simp
next
  case (Suc n)
  obtain p cs where l: "viterbi_loop fl score (start_metrics fl initial) n = (p, cs)"
    by (cases "viterbi_loop fl score (start_metrics fl initial) n")
  show ?case
    using metrics_of_step [OF assms(1) _ Suc.IH [OF _ l] viterbi_step_column] Suc.prems l
    by (simp add: Let_def) 
qed

lemma selection_step:
  assumes "selection_of fl config previous T b" "fd_num fl (previous ! unat t)"
  shows "selection_of fl config previous (insert t T) (select_state fl config previous t b)"
proof -
  obtain bs bm sm where b: "b = (bs, bm, sm)" by (cases b)
  have n: "fd_num fl bm" using assms(1) b by (simp add: selection_of_def)
  show ?thesis
  proof (cases "terminal_ok config t \<and> fd_less fl (previous ! unat t) bm")
    case True
    then have le: "fd_le fl (previous ! unat t) bm" using less_le [OF assms(2) n] by blast
    have r: "select_state fl config previous t b = (t, previous ! unat t, bm)"
      using True b by (auto simp: select_state_def terminal_ok_def Let_def)
    show ?thesis
      using True assms b le_trans [OF le] unfolding selection_of_def r fd_num_def by auto
  next
    case False
    then have le: "terminal_ok config t \<longrightarrow> fd_le fl bm (previous ! unat t)"
      using not_less_le [OF assms(2) n] by blast
    have r: "select_state fl config previous t b = (bs, bm, snd (snd (select_state fl config previous t b)))"
      using False b by (auto simp: select_state_def terminal_ok_def Let_def)
    show ?thesis using assms b le by (subst r) (auto simp: selection_of_def)
  qed
qed

lemma selection_all:
  assumes "metrics_of fl score initial n previous cols"
  shows "selection_of fl config previous {t. t < 4}
    (fold (select_state fl config previous) [0, 1, 2, 3] (0, fd_infinity fl, fd_infinity fl))"
proof -
  let ?s = "select_state fl config previous"
  have n: "fd_num fl (previous ! unat t)" if "t < 4" for t :: u32
    using assms that unfolding metrics_of_def by blast
  have "selection_of fl config previous (insert 3 (insert 2 (insert 1 (insert 0 {}))))
      (?s 3 (?s 2 (?s 1 (?s 0 (0, fd_infinity fl, fd_infinity fl)))))"
    by (intro selection_step n) (simp_all add: selection_of_def infinity_num u32_less4_iff)
  moreover have "{t :: u32. t < 4} = insert 3 (insert 2 (insert 1 (insert 0 {})))"
    by (auto simp: u32_less4_iff)
  ultimately show ?thesis by simp
qed

lemma search_result:
  assumes i: "initial < 4"
    and l: "viterbi_loop fl score (start_metrics fl initial) len = (previous, cols)"
    and f: "fold (select_state fl config previous) [0, 1, 2, 3] (0, fd_infinity fl, fd_infinity fl)
      = (bs, bm, sm)"
  shows "fd_isfinite fl bm \<longleftrightarrow> (\<exists>xs \<in> symbol_words fl len. terminal_ok config (path_state fl initial xs))"
    and "fd_isfinite fl bm \<Longrightarrow> \<exists>xs \<in> symbol_words fl len. terminal_ok config bs \<and>
      traceback cols bs = (xs, path_states fl initial xs) \<and> path_state fl initial xs = bs \<and>
      path_metric fl score initial xs = bm"
    and "ys \<in> symbol_words fl len \<Longrightarrow> terminal_ok config (path_state fl initial ys) \<Longrightarrow>
      fd_le fl bm (path_metric fl score initial ys)"
proof -
  have m: "metrics_of fl score initial len previous cols"
    by (rule viterbi_loop_metrics [OF i order_refl l])
  have s: "selection_of fl config previous {t. t < 4} (bs, bm, sm)"
    using selection_all [OF m, of config] f by simp
  show best: "fd_le fl bm (path_metric fl score initial ys)"
    if "ys \<in> symbol_words fl len" "terminal_ok config (path_state fl initial ys)" for ys
  proof -
    have t: "path_state fl initial ys < 4" by (rule path_state_less4 [OF i])
    have "fd_le fl bm (previous ! unat (path_state fl initial ys))"
      using s t that(2) by (simp add: selection_of_def)
    moreover have "fd_le fl (previous ! unat (path_state fl initial ys)) (path_metric fl score initial ys)"
      using m t that(1) by (simp add: metrics_of_def)
    ultimately show ?thesis by (rule le_trans)
  qed
  show path: "\<exists>xs \<in> symbol_words fl len. terminal_ok config bs \<and>
      traceback cols bs = (xs, path_states fl initial xs) \<and> path_state fl initial xs = bs \<and>
      path_metric fl score initial xs = bm" if "fd_isfinite fl bm"
  proof -
    have "bm \<noteq> fd_infinity fl" using that infinity_not_finite by metis
    then have b: "bs < 4" "terminal_ok config bs" "previous ! unat bs = bm"
      using s by (simp_all add: selection_of_def)
    then show ?thesis using m \<open>bm \<noteq> fd_infinity fl\<close> unfolding metrics_of_def by metis
  qed
  show "fd_isfinite fl bm \<longleftrightarrow> (\<exists>xs \<in> symbol_words fl len. terminal_ok config (path_state fl initial xs))"
  proof
    assume "\<exists>xs \<in> symbol_words fl len. terminal_ok config (path_state fl initial xs)"
    then obtain xs where xs: "xs \<in> symbol_words fl len" "terminal_ok config (path_state fl initial xs)"
      by blast
    have "bm \<noteq> fd_infinity fl"
      using best [OF xs] not_infinity_le [OF path_metric_finite [OF order_refl i xs(1)]] by metis
    then have b: "bs < 4" "previous ! unat bs = bm" using s by (simp_all add: selection_of_def)
    then obtain zs where "zs \<in> symbol_words fl len" "path_metric fl score initial zs = bm"
      using m \<open>bm \<noteq> fd_infinity fl\<close> unfolding metrics_of_def by metis
    then show "fd_isfinite fl bm" using path_metric_finite [OF order_refl i] by metis
  qed (use path in blast)
qed

end

section \<open>The decoder\<close>

text \<open>
  The metrics \<open>Compute\<close> reports are those of every branch of the trellis, so numbers among their
  correlations make the costs of the search lie between 0 and 2.
\<close>

lemma phase_state_count:
  "has_value (ValidateCPSMDecoderConfig fl config) \<Longrightarrow>
     CPSMPhaseStateCount fl (fd_half fl) = 4 \<and> cd_initial_phase_state config < 4 \<and>
     cd_expected_terminal_phase_state config < 4 \<and> 0 < unat (cd_symbol_count config)"
  by (auto simp: ValidateCPSMDecoderConfig_def CPSMPhaseStateCount_def not_le unat_gt_0
      split: if_splits)

lemma evidence_config:
  "ValidateCPSMEvidence fl samples config = Inr timing \<Longrightarrow> has_value (ValidateCPSMDecoderConfig fl config)"
  by (auto simp: ValidateCPSMEvidence_def split: sum.splits)

lemma ScoreBranch_to [simp]:
  "bm_to_state (ScoreBranch fl zl timing config samples i s x) = CPSMTransitionState fl s x"
  by (simp add: ScoreBranch_def Let_def)

lemma ScoreBranch_cost:
  assumes "ieee_doubles fl" "fd_num fl (bm_correlation (ScoreBranch fl zl timing config samples i s x))"
  shows "fd_le fl (fd_of_int fl 0) (bm_cost (ScoreBranch fl zl timing config samples i s x))"
    and "fd_le fl (bm_cost (ScoreBranch fl zl timing config samples i s x)) (fd_of_int fl 2)"
  using assms ieee_doubles.one_minus_clamp [OF assms(1)] ieee_doubles.int_le [OF assms(1), of 0 2]
    ieee_doubles.int_le [OF assms(1), of 2 2]
  by (auto simp: ScoreBranch_def Let_def split: if_splits)

lemma Compute_covers:
  assumes "Compute fl zl samples config = Inr metrics" "ValidateCPSMEvidence fl samples config = Inr timing"
    and "k < unat (cd_symbol_count config)" "s < 4" "x \<in> {fd_of_int fl 1, fd_of_int fl (- 1)}"
  shows "ScoreBranch fl zl timing config samples (of_nat k) s x \<in> set metrics"
proof -
  have c: "CPSMPhaseStateCount fl (fd_half fl) = 4"
    using phase_state_count [OF evidence_config [OF assms(2)]] by simp
  have s: "s = of_nat (unat s)" "unat s < 4"
    using assms(4) by (simp_all add: word_less_nat_alt)
  have "ScoreBranch fl zl timing config samples (of_nat k) (of_nat (unat s)) x \<in> set metrics"
    using assms(1-3,5) s(2) c by (auto simp: Compute_def) (rule bexI [of _ k]; (rule bexI [of _ "unat s"])?; simp)+
  then show ?thesis using s(1) by simp
qed

lemma ScoreBranch_trellis:
  assumes "ieee_doubles fl" "Compute fl zl samples config = Inr metrics"
    "\<forall>m \<in> set metrics. fd_num fl (bm_correlation m)"
    "ValidateCPSMEvidence fl samples config = Inr timing"
  shows "viterbi_trellis fl (ScoreBranch fl zl timing config samples) (unat (cd_symbol_count config))"
proof -
  have "fd_num fl (bm_correlation (ScoreBranch fl zl timing config samples (of_nat k) s x))"
    if "k < unat (cd_symbol_count config)" "s < 4" "x \<in> {fd_of_int fl 1, fd_of_int fl (- 1)}" for k s x
    using Compute_covers [OF assms(2,4) that] assms(3) by blast
  then show ?thesis
    using assms(1) by (intro viterbi_trellis.intro viterbi_trellis_axioms.intro ScoreBranch_cost) simp_all
qed

lemma Decode_unfold:
  assumes "ValidateCPSMEvidence fl samples config = Inr timing"
    "viterbi_loop fl (ScoreBranch fl zl timing config samples)
       (start_metrics fl (cd_initial_phase_state config)) (unat (cd_symbol_count config)) = (previous, cols)"
    "fold (select_state fl config previous) [0, 1, 2, 3] (0, fd_infinity fl, fd_infinity fl) = (bs, bm, sm)"
    "traceback cols bs = (symbols, states)"
  shows "CPSMViterbiDecoderKernel_Decode fl zl samples config =
     (if \<not> fd_isfinite fl bm
      then invalid VC_InvalidTiming ''FHSS PR5 terminal phase policy rejected every Viterbi path''
      else Inr \<lparr>vr_symbols = symbols, vr_phase_states = states, vr_best_path_metric = bm,
        vr_second_best_path_metric = sm, vr_confidence = viterbi_confidence fl config bm sm,
        vr_terminal_phase_checked = cd_check_terminal_phase config, vr_terminal_phase_state = bs\<rparr>)"
  unfolding CPSMViterbiDecoderKernel_Decode_def assms(1,2) sum.case prod.case assms(3,4) by (rule refl)

text \<open>Which terminal states can be reached: the phase state changes parity with every symbol.\<close>

lemma some_path_ok_iff:
  assumes "ieee_doubles fl" "cd_initial_phase_state config < 4"
    "cd_expected_terminal_phase_state config < 4" "0 < n"
  shows "(\<exists>xs \<in> symbol_words fl n. terminal_ok config (path_state fl (cd_initial_phase_state config) xs)) \<longleftrightarrow>
     (cd_check_terminal_phase config \<longrightarrow> even (unat (cd_initial_phase_state config) + n +
        unat (cd_expected_terminal_phase_state config)))"
proof (cases "cd_check_terminal_phase config")
  case True
  have "even (unat (cd_initial_phase_state config) + n + unat (cd_expected_terminal_phase_state config))"
    if "xs \<in> symbol_words fl n"
      "path_state fl (cd_initial_phase_state config) xs = cd_expected_terminal_phase_state config" for xs
    using path_parity [OF assms(2), of fl xs] that by (auto simp: symbol_words_def)
  then show ?thesis
    using path_to [OF assms(1-3) _ assms(4)] True by (auto simp: terminal_ok_def)
next
  case False
  have "replicate n (fd_of_int fl 1) \<in> symbol_words fl n" by (auto simp: symbol_words_def)
  then show ?thesis using False by (auto simp: terminal_ok_def)
qed

text \<open>What a result of the decoder promises.\<close>

definition best_path ::
    "'f double_ops \<Rightarrow> ('f, 'z) complex_ops \<Rightarrow> fhss_timing_model \<Rightarrow> 'z list \<Rightarrow> 'f cpsm_decoder_config \<Rightarrow>
     'f cpsm_viterbi_result \<Rightarrow> bool" where
  "best_path fl zl timing samples config r \<longleftrightarrow>
     (let initial = cd_initial_phase_state config; n = unat (cd_symbol_count config);
          metric = path_metric fl (ScoreBranch fl zl timing config samples) initial
      in vr_symbols r \<in> symbol_words fl n \<and>
         vr_phase_states r = path_states fl initial (vr_symbols r) \<and>
         vr_terminal_phase_state r = path_state fl initial (vr_symbols r) \<and>
         terminal_ok config (vr_terminal_phase_state r) \<and>
         vr_best_path_metric r = metric (vr_symbols r) \<and>
         (\<forall>xs \<in> symbol_words fl n. terminal_ok config (path_state fl initial xs) \<longrightarrow>
            fd_le fl (vr_best_path_metric r) (metric xs)))"

text \<open>With exact arithmetic the costs of every branch are within the bounds.\<close>

interpretation exact_branches: viterbi_trellis exact_ops "ScoreBranch exact_ops zl timing config samples" len
  for zl :: "(real option, 'z) complex_ops" and timing config samples len
  by unfold_locales (simp_all add: ScoreBranch_cost exact.ieee_doubles_axioms)

text \<open>
  C18. The Viterbi search is exact. For evidence that validates and whose branch correlations are all
  numbers, the decoder rejects the pulse with its terminal-phase error exactly when a terminal
  phase is required whose parity no path of that many symbols can reach; in every other case it
  returns a path through the trellis, from the initial phase state to an admissible terminal state,
  whose metric is the one reported and is the least among all symbol sequences of that length
  that end in an admissible state.
\<close>

theorem Viterbi_search_is_exact:
  assumes "ieee_doubles fl"
    and "DeriveTimingModel fl (cd_timing config) = Inr timing"
    and "Compute fl zl samples config = Inr metrics"
    and "\<forall>m \<in> set metrics. fd_num fl (bm_correlation m)"
  shows "if cd_check_terminal_phase config \<and> odd (unat (cd_initial_phase_state config) +
            unat (cd_symbol_count config) + unat (cd_expected_terminal_phase_state config))
         then CPSMViterbiDecoderKernel_Decode fl zl samples config = invalid VC_InvalidTiming
                ''FHSS PR5 terminal phase policy rejected every Viterbi path''
         else \<exists>r. CPSMViterbiDecoderKernel_Decode fl zl samples config = Inr r \<and>
                best_path fl zl timing samples config r"
proof -
  have v: "ValidateCPSMEvidence fl samples config = Inr timing"
    using assms(2,3) by (auto simp: Compute_def ValidateCPSMEvidence_def split: sum.splits if_splits)
  note c = phase_state_count [OF evidence_config [OF v]]
  let ?n = "unat (cd_symbol_count config)" and ?i = "cd_initial_phase_state config"


  note vt = ScoreBranch_trellis [OF assms(1,3,4) v]
  obtain previous cols bs bm sm symbols states where
    l: "viterbi_loop fl (ScoreBranch fl zl timing config samples) (start_metrics fl ?i) ?n = (previous, cols)"
    and f: "fold (select_state fl config previous) [0, 1, 2, 3] (0, fd_infinity fl, fd_infinity fl) = (bs, bm, sm)"
    and t: "traceback cols bs = (symbols, states)"
    by (metis prod_cases3 surj_pair)
  note d = Decode_unfold [OF v l f t]
  have i: "?i < 4" "cd_expected_terminal_phase_state config < 4" "0 < ?n" using c by simp_all
  note s = viterbi_trellis.search_result [OF vt i(1) l f]
  show ?thesis
  proof (cases "cd_check_terminal_phase config \<and> odd (unat ?i + ?n + unat (cd_expected_terminal_phase_state config))")
    case True
    then have "\<not> fd_isfinite fl bm" using s(1) some_path_ok_iff [OF assms(1) i] by blast
    then show ?thesis using True d by simp
  next
    case False
    then have fin: "fd_isfinite fl bm" using s(1) some_path_ok_iff [OF assms(1) i] by blast
    obtain xs where "xs \<in> symbol_words fl ?n" "terminal_ok config bs"
        "traceback cols bs = (xs, path_states fl ?i xs)" "path_state fl ?i xs = bs"
        "path_metric fl (ScoreBranch fl zl timing config samples) ?i xs = bm"
      using s(2) [OF fin] by blast
    then have "best_path fl zl timing samples config
        \<lparr>vr_symbols = symbols, vr_phase_states = states, vr_best_path_metric = bm,
          vr_second_best_path_metric = sm, vr_confidence = viterbi_confidence fl config bm sm,
          vr_terminal_phase_checked = cd_check_terminal_phase config, vr_terminal_phase_state = bs\<rparr>"
      using s(3) t by (auto simp: best_path_def Let_def)
    then show ?thesis using False d fin by auto
  qed
qed

text \<open>The nominal timing, exact complex samples, and one symbol of an unmodulated carrier.\<close>

definition exact_complex :: "(real option, complex) complex_ops" where
  "exact_complex = \<lparr>cz_abs = (\<lambda>z. Some (cmod z)), cz_arg = (\<lambda>z. Some (Arg z)), cz_real = (\<lambda>z. Some (Re z)),
     cz_conj = cnj, cz_mul = (*), cz_div_real = (\<lambda>z a. case a of None \<Rightarrow> 0 | Some r \<Rightarrow> z / of_real r),
     cz_polar = (\<lambda>r a. case (r, a) of (Some x, Some y) \<Rightarrow> rcis x y | _ \<Rightarrow> 0),
     cz_exp_i = (\<lambda>a. case a of None \<Rightarrow> 0 | Some x \<Rightarrow> cis x)\<rparr>"

definition nominal_timing :: "real option fhss_timing_config" where
  "nominal_timing = \<lparr>tc_sample_rate_hz = Some 500000000, tc_bit_rate_hz = Some 5000000,
     tc_bits_per_pulse = 32, tc_pulse_gap_seconds = Some (33 / 5000000)\<rparr>"

definition nominal_model :: fhss_timing_model where
  "nominal_model = \<lparr>tm_samples_per_symbol = 100, tm_pulse_width_samples = 3200,
     tm_pulse_gap_samples = 3300, tm_pulse_period_samples = 6500\<rparr>"

definition one_symbol :: "bool \<Rightarrow> u32 \<Rightarrow> real option cpsm_decoder_config" where
  "one_symbol check expected = \<lparr>cd_timing = nominal_timing, cd_modulation_index = Some (1 / 2),
     cd_symbol_count = 1, cd_initial_phase_state = 0, cd_check_terminal_phase = check,
     cd_expected_terminal_phase_state = expected\<rparr>"

lemma nominal_timing_model: "DeriveTimingModel exact_ops nominal_timing = Inr nominal_model"
  by (simp add: DeriveTimingModel_def nominal_timing_def nominal_model_def NearlyEqual_def exact_ops_def
      ext2_def ext_le_def Let_def fhss_constants kSampleRateHz_def kBitRateHz_def)

lemma one_symbol_evidence:
  "expected < 4 \<Longrightarrow> ValidateCPSMEvidence exact_ops (replicate 100 z) (one_symbol check expected) = Inr nominal_model"
proof -
  assume "expected < 4"
  moreover have "NearlyEqual exact_ops (Some (1 / 2)) (fd_half exact_ops)"
    "NearlyEqual exact_ops (fd_half exact_ops) (fd_half exact_ops)"
    by (simp_all add: NearlyEqual_def fd_half_def exact_ops_def ext2_def ext_le_def)
  ultimately show ?thesis
    using nominal_timing_model
    by (auto simp: ValidateCPSMEvidence_def ValidateCPSMDecoderConfig_def CPSMPhaseStateCount_def
        one_symbol_def nominal_model_def fhss_constants)
qed

theorem Viterbi_search_is_exact_witness:
  "(\<exists>r. CPSMViterbiDecoderKernel_Decode exact_ops exact_complex (replicate 100 1) (one_symbol False 0) = Inr r \<and>
      best_path exact_ops exact_complex nominal_model (replicate 100 1) (one_symbol False 0) r) \<and>
   CPSMViterbiDecoderKernel_Decode exact_ops exact_complex (replicate 100 1) (one_symbol True 2) =
     invalid VC_InvalidTiming ''FHSS PR5 terminal phase policy rejected every Viterbi path''"
proof -
  have t: "DeriveTimingModel exact_ops (cd_timing (one_symbol c e)) = Inr nominal_model" for c e
    using nominal_timing_model by (simp add: one_symbol_def)
  have "\<exists>ms. Compute exact_ops exact_complex (replicate 100 1) (one_symbol False 0) = Inr ms"
    "\<exists>ms. Compute exact_ops exact_complex (replicate 100 1) (one_symbol True 2) = Inr ms"
    by (simp_all add: Compute_def one_symbol_evidence)
  then obtain ms ms' where
    c: "Compute exact_ops exact_complex (replicate 100 1) (one_symbol False 0) = Inr ms"
      "Compute exact_ops exact_complex (replicate 100 1) (one_symbol True 2) = Inr ms'" by blast
  show ?thesis
    using Viterbi_search_is_exact [OF exact.ieee_doubles_axioms t c(1)]
      Viterbi_search_is_exact [OF exact.ieee_doubles_axioms t c(2)]
    by (simp add: one_symbol_def)
qed

section \<open>The second-best metric\<close>

text \<open>
  With a required terminal phase only one state takes part in the selection, so nothing is ever
  second best.
\<close>

lemma required_phase_has_no_second:
  assumes "cd_check_terminal_phase config" "CPSMViterbiDecoderKernel_Decode fl zl samples config = Inr r"
  shows "vr_second_best_path_metric r = fd_infinity fl"
proof -
  let ?e = "cd_expected_terminal_phase_state config"
  have step: "select_state fl config previous s (b, bm, fd_infinity fl) =
      (if s = ?e \<and> fd_less fl (previous ! unat s) bm then (s, previous ! unat s, bm)
       else if s = ?e \<and> fd_less fl (previous ! unat s) (fd_infinity fl) then (b, bm, previous ! unat s)
       else (b, bm, fd_infinity fl))" for previous s b bm
    using assms(1) by (auto simp: select_state_def Let_def)
  have "snd (snd (fold (select_state fl config previous) [0, 1, 2, 3]
      (0, fd_infinity fl, fd_infinity fl))) = fd_infinity fl" for previous
    by (cases "?e = 0"; cases "?e = 1"; cases "?e = 2"; cases "?e = 3") (auto simp: step)
  then show ?thesis
    using assms(2)
    by (auto simp: CPSMViterbiDecoderKernel_Decode_def split: sum.splits prod.splits if_splits)
      (metis snd_conv)
qed

section \<open>Expansion of decimated evidence\<close>

lemma length_expand_loop: "length (expand_loop fl zl dec d xs) = length xs * unat dec"
  by (induction fl zl dec d xs rule: expand_loop.induct) (simp_all add: Let_def split: prod.splits)

lemma expanded_evidence_length:
  assumes "0 < dec" "dec \<le> 100" "100 mod dec = 0" "length samples \<le> (2 ^ 64 - 1) div 100"
  shows "length (FHSSExpandDecimatedCpsmEvidence fl zl samples dec) = length samples * unat dec"
proof -
  have "unat dec \<le> 100" "0 < unat dec" using assms(1,2) by (simp_all add: word_le_nat_alt unat_gt_0)
  then have "(2 ^ 64 - 1) div 100 \<le> (2 ^ 64 - 1 :: nat) div unat dec" by (intro div_le_mono2)
  then show ?thesis
    using assms by (auto simp: FHSSExpandDecimatedCpsmEvidence_def fhss_constants length_expand_loop)
qed

end
