(* ===== verification/Fhss_Merge.thy ===== *)
theory Fhss_Merge
  imports Fhss_Protocol "HOL-Library.Sublist"
begin

text \<open>
  Merging the pulses that the channel detectors report
  (\<open>libdsp/include/dsp/fhss/FHSSPulseMerge.hpp\<close>): the map from local to global sample numbers with
  its overflow checks, and the kernel that removes duplicates, orders the pulses and rejects
  overlaps between frequencies.

  A \<open>std::vector\<close> shared by pointer is an optional list. \<open>std::sort\<close> is an argument of the
  definitions that use it; what is known of it (a sorted permutation, not a stable one) is the
  locale \<open>std_sort\<close>. A period of zero samples, which the code would divide by, does not occur in
  the timing models it derives (HOL reads the division as zero).
\<close>

type_synonym i64 = "64 word"

section \<open>Data\<close>

record 'f fhss_detected_pulse =
  dp_global_start_sample :: u64
  dp_global_end_sample :: u64
  dp_duration_samples :: u64
  dp_channel_start_sample :: u64
  dp_channel_id :: u32
  dp_frequency_index :: u32
  dp_rf_frequency_hz :: 'f
  dp_iq_offset_frequency_hz :: 'f
  dp_estimated_center_frequency_hz :: 'f
  dp_frequency_error_hz :: 'f
  dp_amplitude :: 'f
  dp_power_db :: 'f
  dp_snr_db :: 'f
  dp_noise_floor_db :: 'f
  dp_phase_at_start_rad :: 'f
  dp_phase_slope_rad_per_sample :: 'f
  dp_cfo_hz :: 'f
  dp_bandwidth_hz :: 'f
  dp_confidence :: 'f
  dp_detector_id :: u64
  dp_packet_sequence :: u64

record 'f fhss_pulse_candidate =
  pc_detected_pulse :: "'f fhss_detected_pulse"
  pc_provisional_slot_index :: "u64 option"
  pc_final_slot_index :: "u64 option"

record 'f fhss_sample_time_map =
  st_has_input_global_start_sample :: bool
  st_input_packet_global_start_sample :: u64
  st_output_start_sample :: u64
  st_decimation_factor :: u32
  st_group_delay_input_samples :: i64
  st_sample_rate_hz :: 'f

record 'z fhss_complex_evidence =
  ce_samples :: "'z list option"
  ce_sample_offset :: u64
  ce_sample_count :: u64

record ('f, 'z) fhss_local_pulse_detection =
  ld_sample_time_map :: "'f fhss_sample_time_map"
  ld_local_start_offset :: u64
  ld_duration_samples :: u64
  ld_channel_id :: u32
  ld_frequency_index :: u32
  ld_rf_frequency_hz :: 'f
  ld_iq_offset_frequency_hz :: 'f
  ld_estimated_center_frequency_hz :: 'f
  ld_frequency_error_hz :: 'f
  ld_amplitude :: 'f
  ld_power_db :: 'f
  ld_snr_db :: 'f
  ld_noise_floor_db :: 'f
  ld_phase_at_start_rad :: 'f
  ld_phase_slope_rad_per_sample :: 'f
  ld_cfo_hz :: 'f
  ld_bandwidth_hz :: 'f
  ld_confidence :: 'f
  ld_detector_id :: u64
  ld_packet_sequence :: u64
  ld_complex_evidence :: "'z fhss_complex_evidence"

record ('f, 'z) candidate_with_evidence =
  cw_candidate :: "'f fhss_pulse_candidate"
  cw_complex_evidence :: "'z fhss_complex_evidence"
  cw_sample_time_map :: "'f fhss_sample_time_map"

datatype merge_reject_reason = MR_InvalidMetadata | MR_DuplicateLowerConfidence | MR_UnsupportedOverlap

text \<open>\<open>None\<close> is the default-constructed candidate of a detection that could not be normalised.\<close>

record ('f, 'z) merge_rejection =
  rj_rejected_candidate :: "('f, 'z) candidate_with_evidence option"
  rj_reason :: merge_reject_reason
  rj_message :: string

record fhss_pulse_merge_config =
  mc_timing :: fhss_timing_model
  mc_message_epoch_sample :: "u64 option"

record ('f, 'z) fhss_pulse_merge_result =
  mr_ordered_candidates :: "('f, 'z) candidate_with_evidence list"
  mr_rejections :: "('f, 'z) merge_rejection list"

abbreviation pulse_of :: "('f, 'z) candidate_with_evidence \<Rightarrow> 'f fhss_detected_pulse" where
  "pulse_of c \<equiv> pc_detected_pulse (cw_candidate c)"

abbreviation start_of :: "('f, 'z) candidate_with_evidence \<Rightarrow> u64" where
  "start_of c \<equiv> dp_global_start_sample (pulse_of c)"

section \<open>Global sample numbers\<close>

definition UINT64_MAX :: u64 where
  "UINT64_MAX = - 1"

definition ValidateSampleTimeMap ::
    "'f double_ops \<Rightarrow> 'f fhss_sample_time_map \<Rightarrow> unit fhss_result" where
  "ValidateSampleTimeMap fl m =
     (if \<not> st_has_input_global_start_sample m
      then invalid VC_InvalidGlobalTiming ''FHSS pulse association requires input global sample timing''
      else if st_decimation_factor m = 0
      then invalid VC_InvalidGlobalTiming ''decimation factor must be non-zero''
      else if \<not> NearlyEqual fl (st_sample_rate_hz m) (fd_of_int fl kSampleRateHz)
      then invalid VC_InvalidGlobalTiming
        ''FHSS PR3 sample-time map must identify the 500 Msps input domain''
      else Inr ())"

text \<open>The last part of the mapping: subtracting the group delay and adding the packet start.\<close>

definition apply_delay :: "u64 \<Rightarrow> u64 \<Rightarrow> i64 \<Rightarrow> u64 fhss_result" where
  "apply_delay input_start global_offset group_delay =
     (if 0 \<le> sint group_delay
      then let delay = group_delay in
           if global_offset < delay
           then let deficit = delay - global_offset in
                if input_start < deficit
                then invalid VC_InvalidGlobalTiming
                  ''sample-time mapping precedes the global sample origin''
                else Inr (input_start - deficit)
           else if input_start > UINT64_MAX - (global_offset - delay)
           then invalid VC_InvalidGlobalTiming ''sample-time mapping global result overflows uint64''
           else Inr (input_start + (global_offset - delay))
      else let advance = - (group_delay + 1) + 1 in
           if global_offset > UINT64_MAX - advance
           then invalid VC_InvalidGlobalTiming
             ''sample-time mapping group-delay adjustment overflows uint64''
           else if input_start > UINT64_MAX - (global_offset + advance)
           then invalid VC_InvalidGlobalTiming ''sample-time mapping global result overflows uint64''
           else Inr (input_start + (global_offset + advance)))"

definition NormalizeToGlobalStartSample ::
    "'f double_ops \<Rightarrow> 'f fhss_sample_time_map \<Rightarrow> u64 \<Rightarrow> u64 fhss_result" where
  "NormalizeToGlobalStartSample fl m local_start_offset =
     (case ValidateSampleTimeMap fl m of
        Inl e \<Rightarrow> Inl e
      | Inr _ \<Rightarrow>
          if local_start_offset > UINT64_MAX - st_output_start_sample m
          then invalid VC_InvalidGlobalTiming ''sample-time mapping output offset overflows uint64''
          else
            let output_sample = st_output_start_sample m + local_start_offset;
                dec = (ucast (st_decimation_factor m) :: u64);
                input_start = st_input_packet_global_start_sample m
            in if output_sample > UINT64_MAX div dec
               then invalid VC_InvalidGlobalTiming ''sample-time mapping decimation product overflows uint64''
               else
                 apply_delay input_start (output_sample * dec) (st_group_delay_input_samples m))"

section \<open>Normalising one detection\<close>

definition EvidenceRangeIsValid :: "'z fhss_complex_evidence \<Rightarrow> bool" where
  "EvidenceRangeIsValid e =
     (case ce_samples e of
        None \<Rightarrow> ce_sample_count e = 0
      | Some xs \<Rightarrow> unat (ce_sample_offset e) \<le> length xs \<and>
          unat (ce_sample_count e) \<le> length xs - unat (ce_sample_offset e))"

definition detected_at :: "('f, 'z) fhss_local_pulse_detection \<Rightarrow> u64 \<Rightarrow> 'f fhss_detected_pulse" where
  "detected_at d global_start =
     \<lparr>dp_global_start_sample = global_start,
      dp_global_end_sample = global_start + ld_duration_samples d,
      dp_duration_samples = ld_duration_samples d, dp_channel_start_sample = ld_local_start_offset d,
      dp_channel_id = ld_channel_id d, dp_frequency_index = ld_frequency_index d,
      dp_rf_frequency_hz = ld_rf_frequency_hz d,
      dp_iq_offset_frequency_hz = ld_iq_offset_frequency_hz d,
      dp_estimated_center_frequency_hz = ld_estimated_center_frequency_hz d,
      dp_frequency_error_hz = ld_frequency_error_hz d, dp_amplitude = ld_amplitude d,
      dp_power_db = ld_power_db d, dp_snr_db = ld_snr_db d, dp_noise_floor_db = ld_noise_floor_db d,
      dp_phase_at_start_rad = ld_phase_at_start_rad d,
      dp_phase_slope_rad_per_sample = ld_phase_slope_rad_per_sample d, dp_cfo_hz = ld_cfo_hz d,
      dp_bandwidth_hz = ld_bandwidth_hz d, dp_confidence = ld_confidence d,
      dp_detector_id = ld_detector_id d, dp_packet_sequence = ld_packet_sequence d\<rparr>"

definition NormalizeLocalDetection ::
    "'f double_ops \<Rightarrow> fhss_pulse_merge_config \<Rightarrow> ('f, 'z) fhss_local_pulse_detection \<Rightarrow>
     ('f, 'z) candidate_with_evidence fhss_result" where
  "NormalizeLocalDetection fl config d =
     (case ValidateFrequencyIndex (ld_frequency_index d) of
        Inl e \<Rightarrow> Inl e
      | Inr _ \<Rightarrow>
          if ld_duration_samples d = 0
          then invalid VC_InvalidGlobalTiming ''detected pulse duration must be non-zero''
          else if \<not> EvidenceRangeIsValid (ld_complex_evidence d)
          then invalid VC_InvalidGlobalTiming
            ''complex evidence range is outside the referenced sample payload''
          else case NormalizeToGlobalStartSample fl (ld_sample_time_map d) (ld_local_start_offset d) of
            Inl e \<Rightarrow> Inl e
          | Inr global_start \<Rightarrow>
              let period = tm_pulse_period_samples (mc_timing config);
                  make = (\<lambda>slot. Inr \<lparr>cw_candidate = \<lparr>pc_detected_pulse = detected_at d global_start,
                              pc_provisional_slot_index = Some (global_start div period),
                              pc_final_slot_index = slot\<rparr>,
                            cw_complex_evidence = ld_complex_evidence d,
                            cw_sample_time_map = ld_sample_time_map d\<rparr>)
              in (case mc_message_epoch_sample config of
                    None \<Rightarrow> make None
                  | Some epoch \<Rightarrow>
                      if global_start < epoch
                      then invalid VC_InvalidGlobalTiming
                        ''detected pulse starts before the message epoch sample''
                      else make (Some ((global_start - epoch) div period))))"

section \<open>The merge kernel\<close>

definition PulsesOverlap :: "'f fhss_detected_pulse \<Rightarrow> 'f fhss_detected_pulse \<Rightarrow> bool" where
  "PulsesOverlap lhs rhs \<longleftrightarrow> dp_global_start_sample lhs < dp_global_end_sample rhs \<and>
     dp_global_start_sample rhs < dp_global_end_sample lhs"

definition IsDuplicateDetection :: "'f fhss_detected_pulse \<Rightarrow> 'f fhss_detected_pulse \<Rightarrow> bool" where
  "IsDuplicateDetection lhs rhs \<longleftrightarrow>
     dp_frequency_index lhs = dp_frequency_index rhs \<and> PulsesOverlap lhs rhs"

definition IsHigherQualityCandidate ::
    "'f double_ops \<Rightarrow> ('f, 'z) candidate_with_evidence \<Rightarrow> ('f, 'z) candidate_with_evidence \<Rightarrow> bool" where
  "IsHigherQualityCandidate fl c incumbent =
     (if \<not> NearlyEqual fl (dp_confidence (pulse_of c)) (dp_confidence (pulse_of incumbent))
      then fd_less fl (dp_confidence (pulse_of incumbent)) (dp_confidence (pulse_of c))
      else fd_less fl (dp_snr_db (pulse_of incumbent)) (dp_snr_db (pulse_of c)))"

text \<open>The inner loop: the first duplicate incumbent decides; without one the candidate is appended.\<close>

fun merge_candidate ::
    "'f double_ops \<Rightarrow> ('f, 'z) candidate_with_evidence \<Rightarrow> ('f, 'z) candidate_with_evidence list \<Rightarrow>
     ('f, 'z) candidate_with_evidence list \<times> ('f, 'z) merge_rejection list" where
  "merge_candidate fl c [] = ([c], [])"
| "merge_candidate fl c (incumbent # cs) =
     (if \<not> IsDuplicateDetection (pulse_of c) (pulse_of incumbent)
      then (case merge_candidate fl c cs of (cs', rs) \<Rightarrow> (incumbent # cs', rs))
      else if IsHigherQualityCandidate fl c incumbent
      then (c # cs, [\<lparr>rj_rejected_candidate = Some incumbent, rj_reason = MR_DuplicateLowerConfidence,
              rj_message = ''duplicate pulse replaced by higher-quality detection''\<rparr>])
      else (incumbent # cs, [\<lparr>rj_rejected_candidate = Some c, rj_reason = MR_DuplicateLowerConfidence,
              rj_message = ''duplicate pulse rejected in favor of existing detection''\<rparr>]))"

fun merge_loop ::
    "'f double_ops \<Rightarrow> fhss_pulse_merge_config \<Rightarrow> ('f, 'z) fhss_local_pulse_detection list \<Rightarrow>
     ('f, 'z) candidate_with_evidence list \<times> ('f, 'z) merge_rejection list \<Rightarrow>
     ('f, 'z) candidate_with_evidence list \<times> ('f, 'z) merge_rejection list" where
  "merge_loop fl config [] s = s"
| "merge_loop fl config (d # ds) (cs, rs) =
     (case NormalizeLocalDetection fl config d of
        Inl e \<Rightarrow> merge_loop fl config ds (cs, rs @ [\<lparr>rj_rejected_candidate = None,
                   rj_reason = MR_InvalidMetadata, rj_message = ve_message e\<rparr>])
      | Inr c \<Rightarrow> (case merge_candidate fl c cs of (cs', rs') \<Rightarrow> merge_loop fl config ds (cs', rs @ rs')))"

definition cross_frequency_overlap ::
    "('f, 'z) candidate_with_evidence \<Rightarrow> ('f, 'z) candidate_with_evidence \<Rightarrow> bool" where
  "cross_frequency_overlap c incumbent \<longleftrightarrow>
     dp_frequency_index (pulse_of c) \<noteq> dp_frequency_index (pulse_of incumbent) \<and>
     PulsesOverlap (pulse_of c) (pulse_of incumbent)"

fun accept_loop ::
    "('f, 'z) candidate_with_evidence list \<Rightarrow> ('f, 'z) candidate_with_evidence list \<Rightarrow>
     ('f, 'z) merge_rejection list \<Rightarrow>
     ('f, 'z) candidate_with_evidence list \<times> ('f, 'z) merge_rejection list" where
  "accept_loop [] accepted rs = (accepted, rs)"
| "accept_loop (c # cs) accepted rs =
     (if \<exists>incumbent \<in> set accepted. cross_frequency_overlap c incumbent
      then accept_loop cs accepted (rs @ [\<lparr>rj_rejected_candidate = Some c,
             rj_reason = MR_UnsupportedOverlap,
             rj_message = ''cross-frequency overlapping pulses are unsupported in PR1''\<rparr>])
      else accept_loop cs (accepted @ [c]) rs)"

definition FHSSPulseMergeKernel_Merge ::
    "'f double_ops \<Rightarrow> (('f, 'z) candidate_with_evidence list \<Rightarrow> ('f, 'z) candidate_with_evidence list) \<Rightarrow>
     fhss_pulse_merge_config \<Rightarrow> ('f, 'z) fhss_local_pulse_detection list \<Rightarrow>
     ('f, 'z) fhss_pulse_merge_result" where
  "FHSSPulseMergeKernel_Merge fl sorter config detections =
     (case merge_loop fl config detections ([], []) of
        (cs, rs) \<Rightarrow> (case accept_loop (sorter cs) [] rs of
          (accepted, rejections) \<Rightarrow>
            \<lparr>mr_ordered_candidates = accepted, mr_rejections = rejections\<rparr>))"

section \<open>std::sort\<close>

locale std_sort =
  fixes key :: "'a \<Rightarrow> u64" and sorter :: "'a list \<Rightarrow> 'a list"
  assumes sorter_mset: "mset (sorter xs) = mset xs"
    and sorter_sorted: "sorted (map key (sorter xs))"
begin

lemma sorter_set [simp]: "set (sorter xs) = set xs"
  using sorter_mset mset_eq_setD by blast

lemma sorter_length [simp]: "length (sorter xs) = length xs"
  using sorter_mset mset_eq_length by blast

end

interpretation stable_sort: std_sort key "sort_key key"
  by unfold_locales simp_all

section \<open>The mapping to global samples is exact\<close>

lemma uint_add_ok: "uint (a :: u64) + uint b < 2 ^ 64 \<Longrightarrow> uint (a + b) = uint a + uint b"
  by (simp add: uint_word_ariths)

lemma uint_mult_ok: "uint (a :: u64) * uint b < 2 ^ 64 \<Longrightarrow> uint (a * b) = uint a * uint b"
  by (simp add: uint_word_ariths)

lemma uint_sub_ok: "b \<le> (a :: u64) \<Longrightarrow> uint (a - b) = uint a - uint b"
  by (simp add: uint_minus_simple_alt)

lemma uint_UINT64_MAX: "uint UINT64_MAX = 2 ^ 64 - 1"
  by (simp add: UINT64_MAX_def unsigned_minus_1_eq_mask mask_eq_exp_minus_1)

lemma add_overflows_iff: "a > UINT64_MAX - b \<longleftrightarrow> 2 ^ 64 \<le> uint a + uint b"
proof -
  have "b \<le> UINT64_MAX" by (simp add: UINT64_MAX_def)
  then have "uint (UINT64_MAX - b) = 2 ^ 64 - 1 - uint b"
    by (simp add: uint_sub_ok uint_UINT64_MAX)
  then show ?thesis by (simp add: word_less_def) linarith
qed

lemma zdiv_less_iff_mult: "0 < d \<Longrightarrow> n div d < a \<longleftrightarrow> n < a * (d :: int)"
proof (intro iffI)
  assume d: "0 < d" and "n div d < a"
  then have "d * (n div d + 1) \<le> d * a" by (intro mult_left_mono) auto
  moreover have "n < d * (n div d + 1)"
    using pos_mod_bound [OF d, of n] mult_div_mod_eq [of d n] unfolding distrib_left by linarith
  ultimately show "n < a * d" by (simp add: mult.commute)
next
  assume d: "0 < d" and n: "n < a * d"
  show "n div d < a"
  proof (rule ccontr)
    assume "\<not> n div d < a"
    then have "d * a \<le> d * (n div d)" using d by (intro mult_left_mono) auto
    also have "\<dots> \<le> n" using pos_mod_sign [OF d, of n] mult_div_mod_eq [of d n] by linarith
    finally show False using n by (simp add: mult.commute)
  qed
qed

lemma mult_overflows_iff:
  assumes "d \<noteq> 0"
  shows "a > UINT64_MAX div d \<longleftrightarrow> 2 ^ 64 \<le> uint a * uint d"
proof -
  have d: "0 < uint d" using assms by (metis uint_0_iff uint_ge_0 order_le_less)
  have "(2 ^ 64 - 1) div uint d < uint a \<longleftrightarrow> 2 ^ 64 - 1 < uint a * uint d"
    by (rule zdiv_less_iff_mult [OF d])
  then show ?thesis by (simp add: word_less_def uint_div uint_UINT64_MAX) linarith
qed

lemma uint_of_int64: "0 \<le> k \<Longrightarrow> k < 2 ^ 64 \<Longrightarrow> uint (of_int k :: u64) = k"
  by (simp add: unsigned_of_int take_bit_int_eq_self)

lemma uint_of_nonneg: "0 \<le> sint (g :: u64) \<Longrightarrow> uint g = sint g"
  using uint_of_int64 [of "sint g"] sint_less [of g] by simp

lemma uint_advance: "sint (g :: u64) < 0 \<Longrightarrow> uint (- (g + 1) + 1) = - sint g"
  using uint_of_int64 [of "- sint g"] sint_greater_eq [of g] by simp

text \<open>What the mapping means, in unbounded integers.\<close>

lemma apply_delay_in_integers:
  "case apply_delay start G g of
     Inr r \<Rightarrow> uint r = uint start + uint G - sint g
   | Inl _ \<Rightarrow> \<not> (0 \<le> uint start + uint G - sint g \<and> uint start + uint G - sint g < 2 ^ 64)"
proof (cases "0 \<le> sint g")
  case True
  note g = uint_of_nonneg [OF True]
  show ?thesis
  proof (cases "G < g")
    case less: True
    then have d: "uint (g - G) = sint g - uint G" using g by (simp add: uint_sub_ok)
    show ?thesis
    proof (cases "start < g - G")
      case True
      then have "uint start < sint g - uint G" using d by (simp add: word_less_def)
      then show ?thesis using \<open>0 \<le> sint g\<close> less True by (simp add: apply_delay_def invalid_def)
    next
      case False
      then show ?thesis using \<open>0 \<le> sint g\<close> less d by (simp add: apply_delay_def uint_sub_ok)
    qed
  next
    case False
    then have d: "uint (G - g) = uint G - sint g" using g by (simp add: uint_sub_ok)
    show ?thesis
      using True False d uint_add_ok [of start "G - g"]
      by (simp add: apply_delay_def invalid_def add_overflows_iff)
  qed
next
  case False
  define adv where "adv = - (g + 1) + 1"
  have e: "apply_delay start G g =
      (if G > UINT64_MAX - adv
       then invalid VC_InvalidGlobalTiming ''sample-time mapping group-delay adjustment overflows uint64''
       else if start > UINT64_MAX - (G + adv)
       then invalid VC_InvalidGlobalTiming ''sample-time mapping global result overflows uint64''
       else Inr (start + (G + adv)))"
    using False by (simp only: apply_delay_def Let_def adv_def if_False)
  have a: "uint adv = - sint g" using False unfolding adv_def by (intro uint_advance) simp
  show ?thesis
  proof (cases "G > UINT64_MAX - adv")
    case True
    then have "2 ^ 64 \<le> uint G - sint g" using a unfolding add_overflows_iff by simp
    then have "2 ^ 64 \<le> uint start + uint G - sint g" using uint_ge_0 [of start] by linarith
    then show ?thesis using True by (simp add: e invalid_def)
  next
    case ok: False
    then have "uint (G + adv) = uint G - sint g"
      using a uint_add_ok [of G adv] unfolding add_overflows_iff by simp
    then show ?thesis
      using ok uint_add_ok [of start "G + adv"] by (simp add: e invalid_def add_overflows_iff)
  qed
qed

definition global_sample :: "'f fhss_sample_time_map \<Rightarrow> u64 \<Rightarrow> int" where
  "global_sample m off =
     uint (st_input_packet_global_start_sample m) +
     (uint (st_output_start_sample m) + uint off) * uint (st_decimation_factor m) -
     sint (st_group_delay_input_samples m)"

lemma normalize_in_integers:
  assumes "has_value (ValidateSampleTimeMap fl m)"
  shows "case NormalizeToGlobalStartSample fl m off of
     Inr g \<Rightarrow> uint g = global_sample m off \<and>
       (uint (st_output_start_sample m) + uint off) * uint (st_decimation_factor m) < 2 ^ 64
   | Inl _ \<Rightarrow> \<not> (0 \<le> global_sample m off \<and> global_sample m off < 2 ^ 64 \<and>
       (uint (st_output_start_sample m) + uint off) * uint (st_decimation_factor m) < 2 ^ 64)"
proof -
  obtain u where v: "ValidateSampleTimeMap fl m = Inr u"
    using assms by (cases "ValidateSampleTimeMap fl m") auto
  let ?dec = "ucast (st_decimation_factor m) :: u64"
  let ?o = "st_output_start_sample m" let ?g = "st_group_delay_input_samples m"
  let ?start = "st_input_packet_global_start_sample m"
  let ?P = "(uint ?o + uint off) * uint (st_decimation_factor m)"
  have d0: "st_decimation_factor m \<noteq> 0"
    using v by (auto simp: ValidateSampleTimeMap_def split: if_splits)
  have dec: "uint ?dec = uint (st_decimation_factor m)"
    by (simp add: unsigned_ucast_eq take_bit_int_eq_self
        order.strict_trans [OF uint_bounded [of "st_decimation_factor m"]])
  have "0 < uint (st_decimation_factor m)"
    using d0 by (metis uint_0_iff uint_ge_0 order_le_less)
  then have one: "1 \<le> uint (st_decimation_factor m)" and dn: "?dec \<noteq> 0" using dec by auto
  have big: "uint ?o + uint off \<le> ?P"
    using one mult_left_mono [of 1 "uint (st_decimation_factor m)" "uint ?o + uint off"] by simp
  show ?thesis
  proof (cases "off > UINT64_MAX - ?o")
    case True
    then have "2 ^ 64 \<le> ?P" using big unfolding add_overflows_iff by linarith
    then show ?thesis using v True by (simp add: NormalizeToGlobalStartSample_def invalid_def)
  next
    case no1: False
    then have out: "uint (?o + off) = uint ?o + uint off"
      by (intro uint_add_ok) (simp add: add_overflows_iff)
    show ?thesis
    proof (cases "?o + off > UINT64_MAX div ?dec")
      case True
      then have "2 ^ 64 \<le> ?P" using out dec by (simp add: mult_overflows_iff [OF dn])
      then show ?thesis using v no1 True by (simp add: NormalizeToGlobalStartSample_def invalid_def Let_def)
    next
      case no2: False
      then have P: "?P < 2 ^ 64" using out dec by (simp add: mult_overflows_iff [OF dn])
      then have prod: "uint ((?o + off) * ?dec) = ?P" using out dec by (subst uint_mult_ok) simp_all
      have tail: "NormalizeToGlobalStartSample fl m off = apply_delay ?start ((?o + off) * ?dec) ?g"
        using v no1 no2 by (simp add: NormalizeToGlobalStartSample_def Let_def)
      have "global_sample m off = uint ?start + uint ((?o + off) * ?dec) - sint ?g"
        by (simp add: global_sample_def prod)
      then show ?thesis
        using apply_delay_in_integers [of ?start "(?o + off) * ?dec" ?g] P
        unfolding tail by (auto split: sum.splits)
    qed
  qed
qed

text \<open>
  C21. The mapping from local to global samples never wraps. Whenever it returns a sample number,
  that number is the mathematical value: packet start plus (output start plus local offset)
  times decimation minus group delay, for delays of either sign. It returns one exactly when the
  map is valid, the decimated offset fits 64 bits, and the value itself lies between zero and
  the largest 64-bit number; all other cases are errors.
\<close>

theorem NormalizeToGlobalStartSample_exact:
  "(case NormalizeToGlobalStartSample fl m off of Inr g \<Rightarrow> uint g = global_sample m off | Inl _ \<Rightarrow> True) \<and>
   has_value (NormalizeToGlobalStartSample fl m off) =
     (has_value (ValidateSampleTimeMap fl m) \<and>
      (uint (st_output_start_sample m) + uint off) * uint (st_decimation_factor m) < 2 ^ 64 \<and>
      0 \<le> global_sample m off \<and> global_sample m off < 2 ^ 64)"
proof (cases "has_value (ValidateSampleTimeMap fl m)")
  case False
  then show ?thesis
    by (cases "ValidateSampleTimeMap fl m") (simp_all add: NormalizeToGlobalStartSample_def)
next
  case True
  show ?thesis
  proof (cases "NormalizeToGlobalStartSample fl m off")
    case (Inl e)
    then show ?thesis using normalize_in_integers [OF True, of off] by auto
  next
    case (Inr g)
    then show ?thesis
      using normalize_in_integers [OF True, of off] True uint_bounded [of g] uint_ge_0 [of g] by simp
  qed
qed

section \<open>Every detection is accounted for\<close>

lemma PulsesOverlap_sym: "PulsesOverlap p q = PulsesOverlap q p"
  by (auto simp: PulsesOverlap_def)

lemma cross_frequency_overlap_sym: "cross_frequency_overlap c d = cross_frequency_overlap d c"
  using PulsesOverlap_sym by (auto simp: cross_frequency_overlap_def)

text \<open>
  The detections that can be normalised, and the messages for those that cannot; the candidates that
  rejections carry, and the messages of those without one.
\<close>

definition valid_candidates ::
    "'f double_ops \<Rightarrow> fhss_pulse_merge_config \<Rightarrow> ('f, 'z) fhss_local_pulse_detection list \<Rightarrow>
     ('f, 'z) candidate_with_evidence list" where
  "valid_candidates fl config ds =
     List.map_filter (\<lambda>d. case NormalizeLocalDetection fl config d of Inl _ \<Rightarrow> None | Inr c \<Rightarrow> Some c) ds"

definition invalid_messages ::
    "'f double_ops \<Rightarrow> fhss_pulse_merge_config \<Rightarrow> ('f, 'z) fhss_local_pulse_detection list \<Rightarrow> string list" where
  "invalid_messages fl config ds =
     List.map_filter (\<lambda>d. case NormalizeLocalDetection fl config d of Inl e \<Rightarrow> Some (ve_message e) | Inr _ \<Rightarrow> None) ds"

definition rejected_candidates :: "('f, 'z) merge_rejection list \<Rightarrow> ('f, 'z) candidate_with_evidence list" where
  "rejected_candidates rs = List.map_filter rj_rejected_candidate rs"

definition rejected_messages :: "('f, 'z) merge_rejection list \<Rightarrow> string list" where
  "rejected_messages rs = map rj_message (filter (\<lambda>r. rj_rejected_candidate r = None) rs)"

text \<open>
  When a rejection is justified, for the multiset \<open>cands\<close> of all candidates and the accepted ones: a
  duplicate lost against another candidate of the same frequency, which overlaps it and is better,
  or is not worse and came first; an overlap is with an accepted pulse of another frequency.
\<close>

definition justified ::
    "'f double_ops \<Rightarrow> ('f, 'z) candidate_with_evidence multiset \<Rightarrow> ('f, 'z) candidate_with_evidence set \<Rightarrow>
     ('f, 'z) merge_rejection \<Rightarrow> bool" where
  "justified fl cands accepted r =
     (case rj_rejected_candidate r of
        None \<Rightarrow> rj_reason r = MR_InvalidMetadata
      | Some c \<Rightarrow>
          rj_reason r = MR_DuplicateLowerConfidence \<and>
            (\<exists>w. {#c, w#} \<subseteq># cands \<and> IsDuplicateDetection (pulse_of c) (pulse_of w) \<and>
               (IsHigherQualityCandidate fl w c \<or> \<not> IsHigherQualityCandidate fl c w)) \<or>
          rj_reason r = MR_UnsupportedOverlap \<and> (\<exists>w \<in> accepted. cross_frequency_overlap c w))"

lemma rejection_lists [simp]:
  "rejected_candidates [] = []" "rejected_candidates (as @ bs) = rejected_candidates as @ rejected_candidates bs"
  "rejected_messages [] = []" "rejected_messages (as @ bs) = rejected_messages as @ rejected_messages bs"
  by (simp_all add: rejected_candidates_def rejected_messages_def List.map_filter_def)

lemma rejection_single [simp]:
  "rejected_candidates [\<lparr>rj_rejected_candidate = Some c, rj_reason = q, rj_message = m\<rparr>] = [c]"
  "rejected_messages [\<lparr>rj_rejected_candidate = Some c, rj_reason = q, rj_message = m\<rparr>] = []"
  "rejected_candidates [\<lparr>rj_rejected_candidate = None, rj_reason = q, rj_message = m\<rparr>] = []"
  "rejected_messages [\<lparr>rj_rejected_candidate = None, rj_reason = q, rj_message = m\<rparr>] = [m]"
  by (simp_all add: rejected_candidates_def rejected_messages_def List.map_filter_def)

lemma detection_lists [simp]:
  "valid_candidates fl config [] = []" "invalid_messages fl config [] = []"
  "NormalizeLocalDetection fl config d = Inl e \<Longrightarrow>
     valid_candidates fl config (d # ds) = valid_candidates fl config ds"
  "NormalizeLocalDetection fl config d = Inl e \<Longrightarrow>
     invalid_messages fl config (d # ds) = ve_message e # invalid_messages fl config ds"
  "NormalizeLocalDetection fl config d = Inr c \<Longrightarrow>
     valid_candidates fl config (d # ds) = c # valid_candidates fl config ds"
  "NormalizeLocalDetection fl config d = Inr c \<Longrightarrow>
     invalid_messages fl config (d # ds) = invalid_messages fl config ds"
  by (simp_all add: valid_candidates_def invalid_messages_def List.map_filter_def)

lemma IsDuplicateDetection_sym: "IsDuplicateDetection p q = IsDuplicateDetection q p"
  using PulsesOverlap_sym by (auto simp: IsDuplicateDetection_def)

lemma merge_candidate_outcome:
  assumes "merge_candidate fl c cs = (cs', rs)"
  shows "mset cs' + mset (rejected_candidates rs) = add_mset c (mset cs)" and "rejected_messages rs = []"
    and "mset cs + {#c#} \<subseteq># cands \<Longrightarrow> list_all (justified fl cands accepted) rs"
proof -
  show "mset cs' + mset (rejected_candidates rs) = add_mset c (mset cs)"
    using assms by (induction cs arbitrary: cs' rs) (auto split: if_splits prod.splits)
  show "rejected_messages rs = []"
    using assms by (induction cs arbitrary: cs' rs) (auto split: if_splits prod.splits)
  show "list_all (justified fl cands accepted) rs" if "mset cs + {#c#} \<subseteq># cands"
    using assms that
  proof (induction cs arbitrary: cs' rs)
    case (Cons incumbent cs)
    have "{#incumbent, c#} \<subseteq># mset (incumbent # cs) + {#c#}" by simp
    then have two: "{#incumbent, c#} \<subseteq># cands" "{#c, incumbent#} \<subseteq># cands"
      using Cons.prems(2) subset_mset.order_trans by (blast, metis add_mset_commute subset_mset.order_trans)
    have "mset cs + {#c#} \<subseteq># mset (incumbent # cs) + {#c#}" by simp
    then have rest: "mset cs + {#c#} \<subseteq># cands" using Cons.prems(2) subset_mset.order_trans by blast
    show ?case
    proof (cases "IsDuplicateDetection (pulse_of c) (pulse_of incumbent)")
      case True
      then have "IsDuplicateDetection (pulse_of incumbent) (pulse_of c)" using IsDuplicateDetection_sym by blast
      with True Cons.prems(1) two show ?thesis
        by (cases "IsHigherQualityCandidate fl c incumbent") (auto simp: justified_def)
    next
      case False
      obtain cs1 rs1 where m: "merge_candidate fl c cs = (cs1, rs1)" by (metis surj_pair)
      with False Cons.prems(1) have "rs = rs1" by simp
      with Cons.IH [OF m rest] show ?thesis by simp
    qed
  qed simp
qed

lemma merge_loop_outcome:
  assumes "merge_loop fl config ds (cs, rs) = (cs', rs')"
  shows "mset cs' + mset (rejected_candidates rs') =
      mset cs + mset (rejected_candidates rs) + mset (valid_candidates fl config ds) \<and>
    rejected_messages rs' = rejected_messages rs @ invalid_messages fl config ds \<and>
    (mset cs + mset (valid_candidates fl config ds) \<subseteq># cands \<longrightarrow> list_all (justified fl cands accepted) rs \<longrightarrow>
      list_all (justified fl cands accepted) rs')"
  using assms
proof (induction ds arbitrary: cs rs)
  case (Cons d ds)
  have step: "\<exists>cs1 rs1. merge_loop fl config ds (cs1, rs1) = (cs', rs') \<and>
      mset cs1 + mset (rejected_candidates rs1) + mset (valid_candidates fl config ds) =
        mset cs + mset (rejected_candidates rs) + mset (valid_candidates fl config (d # ds)) \<and>
      rejected_messages rs1 @ invalid_messages fl config ds = rejected_messages rs @ invalid_messages fl config (d # ds) \<and>
      (mset cs + mset (valid_candidates fl config (d # ds)) \<subseteq># cands \<longrightarrow> list_all (justified fl cands accepted) rs \<longrightarrow>
        mset cs1 + mset (valid_candidates fl config ds) \<subseteq># cands \<and> list_all (justified fl cands accepted) rs1)"
  proof (cases "NormalizeLocalDetection fl config d")
    case (Inl e)
    then show ?thesis using Cons.prems
      by (intro exI [of _ cs] exI [of _ "rs @ [\<lparr>rj_rejected_candidate = None, rj_reason = MR_InvalidMetadata,
          rj_message = ve_message e\<rparr>]"]) (simp add: justified_def)
  next
    case (Inr c)
    obtain cs1 rs1 where m: "merge_candidate fl c cs = (cs1, rs1)" by (metis surj_pair)
    note o = merge_candidate_outcome [OF m]
    have sub: "mset cs1 \<subseteq># add_mset c (mset cs)" using o(1) by (metis mset_subset_eq_add_left)
    have "mset cs1 + mset (valid_candidates fl config ds) \<subseteq># cands \<and> list_all (justified fl cands accepted) rs1"
      if "mset cs + mset (valid_candidates fl config (d # ds)) \<subseteq># cands"
    proof -
      have all: "add_mset c (mset cs) + mset (valid_candidates fl config ds) \<subseteq># cands" using that Inr by simp
      then have "mset cs + {#c#} \<subseteq># cands"
        by (metis add_mset_add_single mset_subset_eq_add_left subset_mset.order_trans)
      moreover have "mset cs1 + mset (valid_candidates fl config ds) \<subseteq># cands"
        using all sub by (metis subset_mset.add_right_mono subset_mset.order_trans)
      ultimately show ?thesis using o(3) by blast
    qed
    then show ?thesis using Cons.prems Inr m o(1,2)
      by (intro exI [of _ cs1] exI [of _ "rs @ rs1"]) (auto simp: ac_simps)
  qed
  then obtain cs1 rs1 where "merge_loop fl config ds (cs1, rs1) = (cs', rs')"
      "mset cs1 + mset (rejected_candidates rs1) + mset (valid_candidates fl config ds) =
        mset cs + mset (rejected_candidates rs) + mset (valid_candidates fl config (d # ds))"
      "rejected_messages rs1 @ invalid_messages fl config ds = rejected_messages rs @ invalid_messages fl config (d # ds)"
      "mset cs + mset (valid_candidates fl config (d # ds)) \<subseteq># cands \<longrightarrow> list_all (justified fl cands accepted) rs \<longrightarrow>
        mset cs1 + mset (valid_candidates fl config ds) \<subseteq># cands \<and> list_all (justified fl cands accepted) rs1"
    by blast
  with Cons.IH [OF this(1)] show ?case by simp
qed simp

lemma accept_loop_outcome:
  assumes "accept_loop cs accepted rs = (accepted', rs')"
    and "sorted_wrt (\<lambda>a b. \<not> cross_frequency_overlap a b) accepted"
  shows "mset accepted' + mset (rejected_candidates rs') = mset accepted + mset (rejected_candidates rs) + mset cs \<and>
    rejected_messages rs' = rejected_messages rs \<and>
    (\<exists>zs. accepted' = accepted @ zs \<and> subseq zs cs) \<and>
    (\<forall>r \<in> set rs'. r \<in> set rs \<or> justified fl cands (set accepted') r) \<and>
    sorted_wrt (\<lambda>a b. \<not> cross_frequency_overlap a b) accepted'"
  using assms
proof (induction cs arbitrary: accepted rs)
  case (Cons c cs)
  show ?case
  proof (cases "\<exists>incumbent \<in> set accepted. cross_frequency_overlap c incumbent")
    case True
    define rs1 where "rs1 = rs @ [\<lparr>rj_rejected_candidate = Some c, rj_reason = MR_UnsupportedOverlap,
      rj_message = ''cross-frequency overlapping pulses are unsupported in PR1''\<rparr>]"
    have "accept_loop cs accepted rs1 = (accepted', rs')"
      using Cons.prems(1) True by (simp add: rs1_def)
    note o = Cons.IH [OF this Cons.prems(2)]
    have "set accepted \<subseteq> set accepted'" using o by auto
    then have "justified fl cands (set accepted') \<lparr>rj_rejected_candidate = Some c, rj_reason = MR_UnsupportedOverlap,
      rj_message = ''cross-frequency overlapping pulses are unsupported in PR1''\<rparr>"
      using True by (auto simp: justified_def)
    with o show ?thesis by (auto simp: rs1_def)
  next
    case False
    then have "sorted_wrt (\<lambda>a b. \<not> cross_frequency_overlap a b) (accepted @ [c])"
      using Cons.prems(2) cross_frequency_overlap_sym by (auto simp: sorted_wrt_append)
    moreover have "accept_loop cs (accepted @ [c]) rs = (accepted', rs')" using Cons.prems(1) False by simp
    ultimately have o: "mset accepted' + mset (rejected_candidates rs') =
        mset (accepted @ [c]) + mset (rejected_candidates rs) + mset cs"
      "rejected_messages rs' = rejected_messages rs"
      "\<exists>zs. accepted' = (accepted @ [c]) @ zs \<and> subseq zs cs"
      "\<forall>r \<in> set rs'. r \<in> set rs \<or> justified fl cands (set accepted') r"
      "sorted_wrt (\<lambda>a b. \<not> cross_frequency_overlap a b) accepted'"
      using Cons.IH by blast+
    from o(3) obtain zs where "accepted' = accepted @ (c # zs)" "subseq (c # zs) (c # cs)" by auto
    then show ?thesis using o(1,2,4,5) by auto
  qed
qed simp

lemma subseq_mset: "subseq xs ys \<Longrightarrow> mset xs \<subseteq># mset ys"
  by (induction rule: list_emb.induct) (auto intro: subset_mset.order_trans)

lemma set_subseq: "subseq xs ys \<Longrightarrow> set xs \<subseteq> set ys"
  by (induction rule: list_emb.induct) auto

lemma sorted_subseq: "subseq xs ys \<Longrightarrow> sorted (map f ys) \<Longrightarrow> sorted (map f xs)"
  by (induction rule: list_emb.induct) (auto dest: list_emb_set)

text \<open>
  Duplicates are removed. As long as no detection replaced an incumbent, the candidates that are
  kept contain no two duplicates; being free of duplicates depends on the multiset only, so that the
  order \<open>std::sort\<close> produces does not matter.
\<close>

definition duplicate_free :: "('f, 'z) candidate_with_evidence list \<Rightarrow> bool" where
  "duplicate_free cs = sorted_wrt (\<lambda>a b. \<not> IsDuplicateDetection (pulse_of a) (pulse_of b)) cs"

definition no_replacement :: "('f, 'z) merge_rejection list \<Rightarrow> bool" where
  "no_replacement rs = list_all (\<lambda>r. rj_message r \<noteq> ''duplicate pulse replaced by higher-quality detection'') rs"

lemma sorted_wrt_symmetric:
  assumes "\<And>a b. R a b \<longleftrightarrow> R b a"
  shows "sorted_wrt R xs \<longleftrightarrow> (\<forall>a b. {#a, b#} \<subseteq># mset xs \<longrightarrow> R a b)"
proof (induction xs)
  case (Cons x xs)
  have "{#a, b#} \<subseteq># add_mset x (mset xs) \<longleftrightarrow>
      {#a, b#} \<subseteq># mset xs \<or> a = x \<and> b \<in> set xs \<or> b = x \<and> a \<in> set xs" for a b
    by (cases "a = x"; cases "b = x")
      (auto simp: insert_subset_eq_iff add_mset_remove_trivial_If dest: mset_subset_eqD in_diffD)
  then show ?case using Cons.IH assms by auto
qed simp

lemma duplicate_free_subset:
  "duplicate_free cs \<Longrightarrow> mset cs' \<subseteq># mset cs \<Longrightarrow> duplicate_free cs'"
  unfolding duplicate_free_def
  by (subst (asm) sorted_wrt_symmetric, use IsDuplicateDetection_sym in blast,
      subst sorted_wrt_symmetric, use IsDuplicateDetection_sym in blast) (meson subset_mset.order_trans)

lemma merge_candidate_duplicate_free:
  "merge_candidate fl c cs = (cs', rs) \<Longrightarrow> duplicate_free cs \<Longrightarrow> no_replacement rs \<Longrightarrow>
    duplicate_free cs' \<and> set cs' \<subseteq> insert c (set cs)"
proof (induction cs arbitrary: cs' rs)
  case (Cons incumbent cs)
  obtain cs1 rs1 where m: "merge_candidate fl c cs = (cs1, rs1)" by (metis surj_pair)
  then show ?case
    using Cons.prems Cons.IH [OF m] IsDuplicateDetection_sym [of "pulse_of c" "pulse_of incumbent"]
    by (auto simp: duplicate_free_def no_replacement_def split: if_splits) blast+
qed (simp add: duplicate_free_def)

lemma merge_loop_duplicate_free:
  "merge_loop fl config ds (cs, rs) = (cs', rs') \<Longrightarrow>
    set rs \<subseteq> set rs' \<and> (duplicate_free cs \<longrightarrow> no_replacement rs' \<longrightarrow> duplicate_free cs')"
proof (induction ds arbitrary: cs rs)
  case (Cons d ds)
  show ?case
  proof (cases "NormalizeLocalDetection fl config d")
    case (Inl e)
    then show ?thesis using Cons.IH Cons.prems by fastforce
  next
    case (Inr c)
    obtain cs1 rs1 where m: "merge_candidate fl c cs = (cs1, rs1)" by (metis surj_pair)
    with Inr Cons.prems have "merge_loop fl config ds (cs1, rs @ rs1) = (cs', rs')" by simp
    note o = Cons.IH [OF this]
    then have "no_replacement rs' \<Longrightarrow> no_replacement rs1" by (auto simp: no_replacement_def list_all_iff)
    with o show ?thesis using merge_candidate_duplicate_free [OF m] by auto
  qed
qed simp

lemma accept_loop_extends: "accept_loop cs accepted rs = (accepted', rs') \<Longrightarrow> set rs \<subseteq> set rs'"
  by (induction cs arbitrary: accepted rs) (fastforce split: if_splits)+

text \<open>
  C22. The merge accounts for every detection. Whatever sorting algorithm \<open>std::sort\<close> uses: the
  accepted pulses and the candidates of the rejections together are, as a multiset, the normalised
  detections, and the detections that cannot be normalised are rejected in order with their error
  messages. Every rejection is justified: a duplicate lost against another detection of the same
  frequency that overlaps it and is of higher quality, or came first and is not of lower quality; an
  unsupported overlap is with an accepted pulse of another frequency. The accepted pulses are ordered by
  their global start, and no two of different frequencies overlap; no two of the same frequency do,
  provided no detection replaced an earlier one (after a replacement they can, see below).
\<close>

theorem merge_accounts_for_detections:
  assumes "std_sort start_of sorter"
  shows "let r = FHSSPulseMergeKernel_Merge fl sorter config ds in
    mset (mr_ordered_candidates r) + mset (rejected_candidates (mr_rejections r)) =
      mset (valid_candidates fl config ds) \<and>
    rejected_messages (mr_rejections r) = invalid_messages fl config ds \<and>
    list_all (justified fl (mset (valid_candidates fl config ds)) (set (mr_ordered_candidates r))) (mr_rejections r) \<and>
    sorted (map start_of (mr_ordered_candidates r)) \<and>
    sorted_wrt (\<lambda>a b. \<not> cross_frequency_overlap a b) (mr_ordered_candidates r) \<and>
    (no_replacement (mr_rejections r) \<longrightarrow> duplicate_free (mr_ordered_candidates r))"
proof -
  let ?cands = "mset (valid_candidates fl config ds)"
  obtain cs rs where m: "merge_loop fl config ds ([], []) = (cs, rs)" by (metis surj_pair)
  obtain acc rj where a: "accept_loop (sorter cs) [] rs = (acc, rj)" by (metis surj_pair)
  have r: "FHSSPulseMergeKernel_Merge fl sorter config ds = \<lparr>mr_ordered_candidates = acc, mr_rejections = rj\<rparr>"
    by (simp add: FHSSPulseMergeKernel_Merge_def m a)
  note o = accept_loop_outcome [OF a, of fl ?cands]
  have acc: "mset acc + mset (rejected_candidates rj) = mset (rejected_candidates rs) + mset cs"
      "rejected_messages rj = rejected_messages rs" "subseq acc (sorter cs)"
      "\<forall>r \<in> set rj. r \<in> set rs \<or> justified fl ?cands (set acc) r"
      "sorted_wrt (\<lambda>a b. \<not> cross_frequency_overlap a b) acc"
    using o std_sort.sorter_mset [OF assms, of cs] by auto
  have "list_all (justified fl ?cands (set acc)) rs"
    using merge_loop_outcome [OF m, of ?cands "set acc"] by simp
  then have "list_all (justified fl ?cands (set acc)) rj" using acc(4) by (auto simp: list_all_iff)
  moreover have "sorted (map start_of acc)"
    using acc(3) std_sort.sorter_sorted [OF assms] by (rule sorted_subseq)
  moreover have "duplicate_free acc" if "no_replacement rj"
  proof -
    have "no_replacement rs" using that accept_loop_extends [OF a] by (auto simp: no_replacement_def list_all_iff)
    then have "duplicate_free cs" using merge_loop_duplicate_free [OF m] by (simp add: duplicate_free_def)
    moreover have "mset acc \<subseteq># mset cs"
      using subseq_mset [OF acc(3)] std_sort.sorter_mset [OF assms, of cs] by simp
    ultimately show ?thesis by (rule duplicate_free_subset)
  qed
  ultimately show ?thesis
    using merge_loop_outcome [OF m] acc(1,2,5) unfolding r by (simp add: ac_simps)
qed

section \<open>Overlaps that survive the merge\<close>

text \<open>Exact integers in place of doubles, for examples.\<close>

definition int_double :: "int double_ops" where
  "int_double = \<lparr>fd_of_int = (\<lambda>i. i), fd_epsilon = 0, fd_machine_epsilon = 0, fd_infinity = 0,
     fd_pi = 3, fd_add = (+), fd_sub = (-), fd_mul = (*),
     fd_div = (div), fd_fmod = (mod), fd_abs = abs, fd_less = (<), fd_le = (\<le>),
     fd_isfinite = (\<lambda>_. True), fd_llround = (\<lambda>i. i)\<rparr>"

definition sample_detection :: "u64 \<Rightarrow> u64 \<Rightarrow> int \<Rightarrow> (int, unit) fhss_local_pulse_detection" where
  "sample_detection start dur confidence =
     \<lparr>ld_sample_time_map = \<lparr>st_has_input_global_start_sample = True,
        st_input_packet_global_start_sample = 0, st_output_start_sample = 0, st_decimation_factor = 1,
        st_group_delay_input_samples = 0, st_sample_rate_hz = kSampleRateHz\<rparr>,
      ld_local_start_offset = start, ld_duration_samples = dur, ld_channel_id = 5,
      ld_frequency_index = 5, ld_rf_frequency_hz = 0, ld_iq_offset_frequency_hz = 0,
      ld_estimated_center_frequency_hz = 0, ld_frequency_error_hz = 0, ld_amplitude = 0,
      ld_power_db = 0, ld_snr_db = 0, ld_noise_floor_db = 0, ld_phase_at_start_rad = 0,
      ld_phase_slope_rad_per_sample = 0, ld_cfo_hz = 0, ld_bandwidth_hz = 0,
      ld_confidence = confidence, ld_detector_id = 0, ld_packet_sequence = 0,
      ld_complex_evidence = \<lparr>ce_samples = None, ce_sample_offset = 0, ce_sample_count = 0\<rparr>\<rparr>"

definition sample_merge_config :: fhss_pulse_merge_config where
  "sample_merge_config = \<lparr>mc_timing = \<lparr>tm_samples_per_symbol = 100, tm_pulse_width_samples = 3200,
     tm_pulse_gap_samples = 3300, tm_pulse_period_samples = 6500\<rparr>, mc_message_epoch_sample = None\<rparr>"

definition three_detections :: "(int, unit) fhss_local_pulse_detection list" where
  "three_detections = [sample_detection 0 10 1, sample_detection 12 10 1, sample_detection 8 6 2]"

text \<open>
  Three detections on one frequency, at samples 0 to 10, 12 to 22 and 8 to 14. The third overlaps
  both others and is better than the first, which it replaces; it is not compared with the
  second. Both are accepted, although they are duplicates of each other by the kernel's own
  test.
\<close>

lemma replacement_leaves_duplicates:
  "\<exists>a b. mr_ordered_candidates
       (FHSSPulseMergeKernel_Merge int_double (sort_key start_of) sample_merge_config three_detections) = [a, b] \<and>
     IsDuplicateDetection (pulse_of a) (pulse_of b)"
  by (simp add: FHSSPulseMergeKernel_Merge_def three_detections_def NormalizeLocalDetection_def
      sample_detection_def sample_merge_config_def ValidateFrequencyIndex_def IsFrequencyIndexInTable_def
      fhss_constants EvidenceRangeIsValid_def NormalizeToGlobalStartSample_def ValidateSampleTimeMap_def
      NearlyEqual_def int_double_def kSampleRateHz_def UINT64_MAX_def apply_delay_def detected_at_def
      IsDuplicateDetection_def PulsesOverlap_def IsHigherQualityCandidate_def cross_frequency_overlap_def
      insort_key_def)

theorem merge_accounts_for_detections_witness:
  "let r = FHSSPulseMergeKernel_Merge int_double (sort_key start_of) sample_merge_config three_detections in
    mset (mr_ordered_candidates r) + mset (rejected_candidates (mr_rejections r)) =
      mset (valid_candidates int_double sample_merge_config three_detections) \<and>
    sorted (map start_of (mr_ordered_candidates r))"
  using merge_accounts_for_detections [OF stable_sort.std_sort_axioms, of int_double sample_merge_config
      three_detections]
  by (simp add: Let_def)

end
