(* ===== verification/Fhss_Word.thy ===== *)
theory Fhss_Word
  imports Fhss_Viterbi Fhss_Merge
begin

unbundle bit_operations_syntax

text \<open>
  Pulse words (\<open>libdsp/include/dsp/fhss/FHSSPulseWordDecoder.hpp\<close>): the bits of the 32 symbols of a
  pulse, most significant first, and the checks on the metrics of the demodulator. The
  transmitter's mapping of a word to symbols is \<open>CpsmSymbolForBit\<close> of
  \<open>FHSSSyntheticIqGenerator.hpp\<close>; receiving what was sent gives the word back.
\<close>

section \<open>Operations\<close>

datatype pulse_word_status = PW_Ok | PW_InvalidSymbolCount | PW_InvalidSymbolDecision
  | PW_LowConfidence | PW_InvalidPathMetric

record 'f fhss_decoded_pulse_word =
  dw_candidate :: "'f fhss_pulse_candidate"
  dw_decoded_value :: u32
  dw_confidence :: 'f
  dw_viterbi_path_metric :: 'f
  dw_viterbi_second_best_path_metric :: 'f
  dw_status :: pulse_word_status
  dw_status_message :: string

fun FHSSPulseWordDecodeStatusName :: "pulse_word_status \<Rightarrow> string" where
  "FHSSPulseWordDecodeStatusName PW_Ok = ''Ok''"
| "FHSSPulseWordDecodeStatusName PW_InvalidSymbolCount = ''InvalidSymbolCount''"
| "FHSSPulseWordDecodeStatusName PW_InvalidSymbolDecision = ''InvalidSymbolDecision''"
| "FHSSPulseWordDecodeStatusName PW_LowConfidence = ''LowConfidence''"
| "FHSSPulseWordDecodeStatusName PW_InvalidPathMetric = ''InvalidPathMetric''"

definition CpsmSymbolForBit :: "'f double_ops \<Rightarrow> u32 \<Rightarrow> nat \<Rightarrow> 'f" where
  "CpsmSymbolForBit fl value bit_index =
     (let b = drop_bit (31 - bit_index) value AND 1
      in if b = 0 then fd_of_int fl 1 else fd_of_int fl (- 1))"

definition FHSSCpsmSymbolToBit :: "'f double_ops \<Rightarrow> 'f \<Rightarrow> u32 fhss_result" where
  "FHSSCpsmSymbolToBit fl symbol =
     (if NearlyEqual fl symbol (fd_of_int fl 1) then Inr 0
      else if NearlyEqual fl symbol (fd_of_int fl (- 1)) then Inr 1
      else invalid VC_InvalidTiming ''FHSS PR6 pulse-word decode requires CPSM symbols exactly +1 or -1'')"

fun assemble_bits :: "'f double_ops \<Rightarrow> u32 \<Rightarrow> 'f list \<Rightarrow> u32 fhss_result" where
  "assemble_bits fl value [] = Inr value"
| "assemble_bits fl value (symbol # symbols) =
     (case FHSSCpsmSymbolToBit fl symbol of
        Inl e \<Rightarrow> Inl e
      | Inr b \<Rightarrow> assemble_bits fl (push_bit 1 value OR b) symbols)"

definition AssembleFHSSPulseWordMsbFirst :: "'f double_ops \<Rightarrow> 'f list \<Rightarrow> u32 fhss_result" where
  "AssembleFHSSPulseWordMsbFirst fl symbols =
     (if length symbols \<noteq> unat kBitsPerPulse
      then invalid VC_InvalidTiming ''FHSS PR6 pulse-word decode requires exactly 32 CPSM symbols''
      else assemble_bits fl 0 symbols)"

text \<open>The configuration of the decoder is one number, the minimum confidence.\<close>

definition FHSSPulseWordDecoderKernel_Decode ::
    "'f double_ops \<Rightarrow> 'f fhss_pulse_candidate \<Rightarrow> 'f cpsm_viterbi_result \<Rightarrow> 'f \<Rightarrow>
     'f fhss_decoded_pulse_word" where
  "FHSSPulseWordDecoderKernel_Decode fl candidate viterbi_result minimum_confidence =
     (let decoded = (\<lambda>value status message.
            \<lparr>dw_candidate = candidate, dw_decoded_value = value, dw_confidence = vr_confidence viterbi_result,
             dw_viterbi_path_metric = vr_best_path_metric viterbi_result,
             dw_viterbi_second_best_path_metric = vr_second_best_path_metric viterbi_result,
             dw_status = status, dw_status_message = message\<rparr>)
      in if length (vr_symbols viterbi_result) \<noteq> unat kBitsPerPulse
         then decoded 0 PW_InvalidSymbolCount
           ''FHSS pulse word decode requires exactly 32 CPSM symbol decisions''
         else if \<not> fd_isfinite fl (vr_best_path_metric viterbi_result) \<or>
                 \<not> fd_isfinite fl (vr_second_best_path_metric viterbi_result) \<or>
                 \<not> fd_isfinite fl (vr_confidence viterbi_result)
         then decoded 0 PW_InvalidPathMetric
           ''FHSS pulse word decode received non-finite Viterbi best-path, second-best-path, or confidence metric''
         else (case AssembleFHSSPulseWordMsbFirst fl (vr_symbols viterbi_result) of
             Inl e \<Rightarrow> decoded 0 PW_InvalidSymbolDecision (ve_message e)
           | Inr value \<Rightarrow>
               if fd_less fl (vr_confidence viterbi_result) minimum_confidence
               then decoded value PW_LowConfidence
                 ''FHSS pulse word decode confidence is below configured threshold''
               else decoded value PW_Ok (FHSSPulseWordDecodeStatusName PW_Ok)))"

section \<open>Sending and receiving a word\<close>

text \<open>The symbols of a pulse, as the loop over the bits of the transmitter produces them.\<close>

definition pulse_symbols :: "'f double_ops \<Rightarrow> u32 \<Rightarrow> 'f list" where
  "pulse_symbols fl value = map (CpsmSymbolForBit fl value) [0 ..< 32]"

lemma symbol_to_bit:
  assumes "ieee_doubles fl"
  shows "FHSSCpsmSymbolToBit fl (CpsmSymbolForBit fl v i) = Inr (drop_bit (31 - i) v AND 1)"
proof -
  have "drop_bit (31 - i) v AND 1 = 0 \<or> drop_bit (31 - i) v AND 1 = 1"
    by (simp add: and_one_eq mod2_eq_if)
  then show ?thesis
    by (auto simp: FHSSCpsmSymbolToBit_def CpsmSymbolForBit_def Let_def
        ieee_doubles.NearlyEqual_int [OF assms])
qed

lemma drop_bit_next: "drop_bit (Suc n) v * 2 OR (drop_bit n v AND 1) = drop_bit n (v :: u32)"
proof (rule bit_word_eqI)
  fix k assume "k < LENGTH(32)"
  then have k: "k < 32" by simp
  have "drop_bit (Suc n) v * 2 = push_bit 1 (drop_bit (Suc n) v)" by (simp add: push_bit_eq_mult)
  then have "bit (drop_bit (Suc n) v * 2) k \<longleftrightarrow> 1 \<le> k \<and> bit v (Suc n + (k - 1))"
    using k by (simp only: bit_push_bit_iff bit_drop_bit_eq comp_def) (auto simp: possible_bit_word)
  moreover have "bit (drop_bit n v AND 1) k \<longleftrightarrow> k = 0 \<and> bit v n"
    by (auto simp: bit_and_iff bit_1_iff bit_drop_bit_eq)
  ultimately show "bit (drop_bit (Suc n) v * 2 OR (drop_bit n v AND 1)) k \<longleftrightarrow> bit (drop_bit n v) k"
    by (cases k) (simp_all add: bit_or_iff bit_drop_bit_eq)
qed

lemma assemble_bits_from:
  assumes "ieee_doubles fl" "n \<le> 32"
  shows "assemble_bits fl (drop_bit n v) (map (CpsmSymbolForBit fl v) [32 - n ..< 32]) = Inr v"
  using assms(2)
proof (induction n)
  case (Suc n)
  have "[32 - Suc n ..< 32] = (31 - n) # [32 - n ..< 32]"
    using Suc.prems by (subst upt_conv_Cons) (simp_all add: Suc_diff_le [symmetric])
  moreover have "31 - (31 - n) = n" using Suc.prems by simp
  ultimately show ?case
    using Suc by (simp add: symbol_to_bit [OF assms(1)] drop_bit_next)
qed simp

text \<open>
  C19. A word survives transmission: assembling the 32 symbols that the transmitter derives from any
  32-bit value, most significant bit first, gives the value back. The receiver decodes these symbols
  to the value exactly when the three metrics of the demodulator are finite, with status Ok when the
  confidence is not below the threshold and low confidence otherwise; with a metric that is not
  finite (which a required terminal phase always causes) the value is 0 with an invalid path metric.
\<close>

theorem pulse_word_roundtrip:
  assumes "ieee_doubles fl" "vr_symbols r = pulse_symbols fl word"
  shows "AssembleFHSSPulseWordMsbFirst fl (pulse_symbols fl word) = Inr word \<and>
    (let w = FHSSPulseWordDecoderKernel_Decode fl candidate r minimum in
     (dw_decoded_value w, dw_status w) =
       (if fd_isfinite fl (vr_best_path_metric r) \<and> fd_isfinite fl (vr_second_best_path_metric r) \<and>
           fd_isfinite fl (vr_confidence r)
        then (word, if fd_less fl (vr_confidence r) minimum then PW_LowConfidence else PW_Ok)
        else (0, PW_InvalidPathMetric)))"
proof -
  have "drop_bit 32 word = 0" by (rule bit_word_eqI) (simp add: bit_simps)
  then have a: "AssembleFHSSPulseWordMsbFirst fl (pulse_symbols fl word) = Inr word"
    using assemble_bits_from [OF assms(1), of 32 word]
    by (simp add: AssembleFHSSPulseWordMsbFirst_def pulse_symbols_def fhss_constants)
  have "length (vr_symbols r) = 32" by (simp add: assms(2) pulse_symbols_def)
  then show ?thesis
    using a assms(2) by (simp add: FHSSPulseWordDecoderKernel_Decode_def fhss_constants Let_def)
qed

definition clean_result :: "u32 \<Rightarrow> real option cpsm_viterbi_result" where
  "clean_result word = \<lparr>vr_symbols = pulse_symbols exact_ops word, vr_phase_states = [],
     vr_best_path_metric = Some 0, vr_second_best_path_metric = Some 8, vr_confidence = Some 1,
     vr_terminal_phase_checked = False, vr_terminal_phase_state = 0\<rparr>"

theorem pulse_word_roundtrip_witness:
  "\<forall>candidate. AssembleFHSSPulseWordMsbFirst exact_ops (pulse_symbols exact_ops 0xDEADBEEF) = Inr 0xDEADBEEF \<and>
    dw_decoded_value (FHSSPulseWordDecoderKernel_Decode exact_ops candidate (clean_result 0xDEADBEEF) (Some 0))
      = 0xDEADBEEF \<and>
    dw_status (FHSSPulseWordDecoderKernel_Decode exact_ops candidate (clean_result 0xDEADBEEF) (Some 0)) = PW_Ok"
proof
  fix candidate
  have "vr_symbols (clean_result 0xDEADBEEF) = pulse_symbols exact_ops 0xDEADBEEF"
    by (simp add: clean_result_def)
  from pulse_word_roundtrip [OF exact.ieee_doubles_axioms this, of candidate "Some 0"]
  show "AssembleFHSSPulseWordMsbFirst exact_ops (pulse_symbols exact_ops 0xDEADBEEF) = Inr 0xDEADBEEF \<and>
    dw_decoded_value (FHSSPulseWordDecoderKernel_Decode exact_ops candidate (clean_result 0xDEADBEEF) (Some 0))
      = 0xDEADBEEF \<and>
    dw_status (FHSSPulseWordDecoderKernel_Decode exact_ops candidate (clean_result 0xDEADBEEF) (Some 0)) = PW_Ok"
    by (simp add: clean_result_def exact_ops_def ext_le_def Let_def)
qed

section \<open>A required terminal phase\<close>

text \<open>
  A demodulator that requires a terminal phase reports an infinite second-best metric, which the
  word decoder refuses: no pulse is ever decoded in that configuration.
\<close>

lemma required_phase_blocks_words:
  assumes "ieee_doubles fl" "cd_check_terminal_phase config"
    "CPSMViterbiDecoderKernel_Decode fl zl samples config = Inr r"
  shows "dw_status (FHSSPulseWordDecoderKernel_Decode fl candidate r minimum)
    \<in> {PW_InvalidSymbolCount, PW_InvalidPathMetric}"
  using required_phase_has_no_second [OF assms(2,3)] ieee_doubles.infinity_not_finite [OF assms(1)]
  by (simp add: FHSSPulseWordDecoderKernel_Decode_def)

end
