(* ===== verification/Fhss_Assembly.thy ===== *)
theory Fhss_Assembly
  imports Fhss_Word
begin

text \<open>
  Assembly of messages from decoded pulses
  (\<open>libdsp/include/dsp/fhss/FHSSMessageAssembly.hpp\<close>): ordering by global start sample, the check
  for overlapping pulses, the detection of the preamble by its hop pattern and the split into
  preamble and payload.
\<close>

section \<open>Data\<close>

datatype assembly_status = AS_Ok | AS_MissingPreamble | AS_InvalidPreambleFixture | AS_InvalidActiveSet
  | AS_PayloadFrequencyRejected | AS_MessageTooLong | AS_UnsupportedOverlap

fun FHSSMessageAssemblyStatusName :: "assembly_status \<Rightarrow> string" where
  "FHSSMessageAssemblyStatusName AS_Ok = ''Ok''"
| "FHSSMessageAssemblyStatusName AS_MissingPreamble = ''MissingPreamble''"
| "FHSSMessageAssemblyStatusName AS_InvalidPreambleFixture = ''InvalidPreambleFixture''"
| "FHSSMessageAssemblyStatusName AS_InvalidActiveSet = ''InvalidActiveSet''"
| "FHSSMessageAssemblyStatusName AS_PayloadFrequencyRejected = ''PayloadFrequencyRejected''"
| "FHSSMessageAssemblyStatusName AS_MessageTooLong = ''MessageTooLong''"
| "FHSSMessageAssemblyStatusName AS_UnsupportedOverlap = ''UnsupportedOverlap''"

record message_diagnostics =
  md_pulse_count :: nat
  md_rejected_count :: nat
  md_preamble_lock :: bool

record preamble_detection_result =
  pd_preamble_lock :: bool
  pd_active_frequency_indices :: "u32 list"
  pd_status :: assembly_status
  pd_status_message :: string

record 'f assembled_message =
  am_ordered_pulses :: "'f fhss_decoded_pulse_word list"
  am_preamble_pulses :: "'f fhss_decoded_pulse_word list"
  am_payload_pulses :: "'f fhss_decoded_pulse_word list"
  am_active_frequency_indices :: "u32 list"
  am_diagnostics :: message_diagnostics
  am_status :: assembly_status
  am_status_message :: string

abbreviation word_pulse :: "'f fhss_decoded_pulse_word \<Rightarrow> 'f fhss_detected_pulse" where
  "word_pulse w \<equiv> pc_detected_pulse (dw_candidate w)"

abbreviation word_start :: "'f fhss_decoded_pulse_word \<Rightarrow> u64" where
  "word_start w \<equiv> dp_global_start_sample (word_pulse w)"

section \<open>Operations\<close>

definition GloballyOrderDecodedPulses ::
    "('f fhss_decoded_pulse_word list \<Rightarrow> 'f fhss_decoded_pulse_word list) \<Rightarrow>
     'f fhss_decoded_pulse_word list \<Rightarrow> 'f fhss_decoded_pulse_word list" where
  "GloballyOrderDecodedPulses sorter pulses = sorter pulses"

definition DecodedPulsesOverlap :: "'f fhss_decoded_pulse_word \<Rightarrow> 'f fhss_decoded_pulse_word \<Rightarrow> bool" where
  "DecodedPulsesOverlap lhs rhs = PulsesOverlap (word_pulse lhs) (word_pulse rhs)"

fun HasUnsupportedOverlap :: "'f fhss_decoded_pulse_word list \<Rightarrow> bool" where
  "HasUnsupportedOverlap (p # q # ps) \<longleftrightarrow> DecodedPulsesOverlap p q \<or> HasUnsupportedOverlap (q # ps)"
| "HasUnsupportedOverlap _ \<longleftrightarrow> False"

definition DeriveActiveFrequenciesFromPreamble :: "fhss_preamble_pulse_spec list \<Rightarrow> u32 list" where
  "DeriveActiveFrequenciesFromPreamble preamble = sorted_list_of_set (set (map pp_frequency_index preamble))"

definition Detect ::
    "'f fhss_decoded_pulse_word list \<Rightarrow> fhss_preamble_pulse_spec list \<Rightarrow> preamble_detection_result" where
  "Detect ordered preamble =
     (let result = (\<lambda>lock active status message. \<lparr>pd_preamble_lock = lock,
            pd_active_frequency_indices = active, pd_status = status, pd_status_message = message\<rparr>)
      in if length preamble \<noteq> kPreamblePulseCount
         then result False [] AS_InvalidPreambleFixture
           ''FHSS PR7 preamble fixture must contain exactly 16 pulses''
         else case ValidatePreambleWordConsistency preamble of
           Inl e \<Rightarrow> result False [] AS_InvalidPreambleFixture (ve_message e)
         | Inr _ \<Rightarrow>
             let active = DeriveActiveFrequenciesFromPreamble preamble in
             case ValidateActiveFrequencySet active of
               Inl e \<Rightarrow> result False active AS_InvalidActiveSet (ve_message e)
             | Inr _ \<Rightarrow>
                 if length ordered < kPreamblePulseCount
                 then result False active AS_MissingPreamble
                   ''FHSS PR7 message does not contain the 16-pulse preamble''
                 else if \<exists>i \<in> set [0 ..< kPreamblePulseCount].
                     dp_frequency_index (word_pulse (ordered ! i)) \<noteq> pp_frequency_index (preamble ! i)
                 then result False active AS_MissingPreamble
                   ''FHSS PR7 hop-only preamble frequencies did not match''
                 else result True active AS_Ok (FHSSMessageAssemblyStatusName AS_Ok))"

text \<open>The \<open>reject\<close> closure of \<open>Assemble\<close>.\<close>

definition reject_message :: "assembly_status \<Rightarrow> string \<Rightarrow> 'f assembled_message \<Rightarrow> 'f assembled_message" where
  "reject_message status message m =
     m\<lparr>am_status := status, am_status_message := message,
       am_diagnostics := (am_diagnostics m)\<lparr>md_rejected_count := length (am_ordered_pulses m),
         md_preamble_lock := False\<rparr>\<rparr>"

text \<open>The configuration of the assembler is the preamble.\<close>

definition Assemble ::
    "('f fhss_decoded_pulse_word list \<Rightarrow> 'f fhss_decoded_pulse_word list) \<Rightarrow>
     'f fhss_decoded_pulse_word list \<Rightarrow> fhss_preamble_pulse_spec list \<Rightarrow> 'f assembled_message" where
  "Assemble sorter decoded preamble =
     (let ordered = GloballyOrderDecodedPulses sorter decoded;
          m0 = \<lparr>am_ordered_pulses = ordered, am_preamble_pulses = [], am_payload_pulses = [],
                am_active_frequency_indices = [],
                am_diagnostics = \<lparr>md_pulse_count = length ordered, md_rejected_count = 0,
                  md_preamble_lock = False\<rparr>,
                am_status = AS_Ok, am_status_message = ''''\<rparr>
      in if length ordered > kMaxMessagePulseCount
         then reject_message AS_MessageTooLong ''FHSS PR7 messages may contain at most 256 pulses'' m0
         else if HasUnsupportedOverlap ordered
         then reject_message AS_UnsupportedOverlap ''FHSS PR7 keeps PR1 overlapped-message rejection'' m0
         else
           let d = Detect ordered preamble;
               m1 = m0\<lparr>am_active_frequency_indices := pd_active_frequency_indices d,
                 am_diagnostics := (am_diagnostics m0)\<lparr>md_preamble_lock := pd_preamble_lock d\<rparr>\<rparr>
           in if \<not> pd_preamble_lock d then reject_message (pd_status d) (pd_status_message d) m1
              else
                let m2 = m1\<lparr>am_preamble_pulses := take kPreamblePulseCount ordered,
                      am_payload_pulses := drop kPreamblePulseCount ordered\<rparr>
                in if \<exists>payload \<in> set (am_payload_pulses m2).
                     \<not> ContainsIndex (am_active_frequency_indices m2) (dp_frequency_index (word_pulse payload))
                   then reject_message AS_PayloadFrequencyRejected
                     ''FHSS PR7 payload frequency is outside locked active set'' m2
                   else m2\<lparr>am_status := AS_Ok, am_status_message := FHSSMessageAssemblyStatusName AS_Ok\<rparr>)"

section \<open>The overlap check\<close>

text \<open>The reference: some two pulses of the message overlap.\<close>

definition some_pulses_overlap :: "'f fhss_decoded_pulse_word list \<Rightarrow> bool" where
  "some_pulses_overlap ps \<longleftrightarrow>
     (\<exists>i j. i < j \<and> j < length ps \<and> DecodedPulsesOverlap (ps ! i) (ps ! j))"

lemma overlap_sym: "DecodedPulsesOverlap p q \<longleftrightarrow> DecodedPulsesOverlap q p"
  by (auto simp: DecodedPulsesOverlap_def PulsesOverlap_def)

lemma sorted_wrt_permutation:
  assumes "\<forall>x y. R x y \<longrightarrow> R y x"
  shows "mset xs = mset ys \<Longrightarrow> sorted_wrt R xs \<Longrightarrow> sorted_wrt R ys"
proof (induction xs arbitrary: ys)
  case (Cons x xs)
  then have "x \<in> set ys" by (metis list.set_intros(1) mset_eq_setD)
  then obtain as bs where ys: "ys = as @ x # bs" by (meson split_list)
  then have m: "mset xs = mset (as @ bs)" using Cons.prems(1) by simp
  then have "sorted_wrt R (as @ bs)" using Cons by simp
  moreover have "\<forall>y \<in> set (as @ bs). R x y" using Cons.prems(2) mset_eq_setD [OF m] by simp
  ultimately show ?case using assms by (auto simp: ys sorted_wrt_append)
qed simp

lemma some_pulses_overlap_iff:
  "some_pulses_overlap ps \<longleftrightarrow> \<not> sorted_wrt (\<lambda>p q. \<not> DecodedPulsesOverlap p q) ps"
  by (auto simp: some_pulses_overlap_def sorted_wrt_iff_nth_less)

lemma some_pulses_overlap_permutation:
  assumes "mset ps = mset qs"
  shows "some_pulses_overlap ps \<longleftrightarrow> some_pulses_overlap qs"
proof -
  have "\<forall>p q :: 'a fhss_decoded_pulse_word. \<not> DecodedPulsesOverlap p q \<longrightarrow> \<not> DecodedPulsesOverlap q p"
    using overlap_sym by blast
  note perm = sorted_wrt_permutation [OF this]
  show ?thesis unfolding some_pulses_overlap_iff using perm [OF assms] perm [OF assms [symmetric]] by blast
qed

lemma adjacent_check_sorted:
  assumes "sorted (map word_start ps)" "\<forall>p \<in> set ps. word_start p < dp_global_end_sample (word_pulse p)"
  shows "HasUnsupportedOverlap ps \<longleftrightarrow> some_pulses_overlap ps"
  using assms unfolding some_pulses_overlap_iff
proof (induction ps rule: HasUnsupportedOverlap.induct)
  case (1 p q ps)
  have pq: "word_start p \<le> word_start q" "\<forall>r \<in> set ps. word_start q \<le> word_start r"
    using 1(2) by simp_all
  have "DecodedPulsesOverlap p q" if "r \<in> set ps" "DecodedPulsesOverlap p r" for r
  proof -
    have "word_start r < dp_global_end_sample (word_pulse p)"
      using that(2) by (simp add: DecodedPulsesOverlap_def PulsesOverlap_def)
    moreover have "word_start q < dp_global_end_sample (word_pulse q)" using 1(3) by simp
    ultimately show ?thesis
      using pq that(1) unfolding DecodedPulsesOverlap_def PulsesOverlap_def by (meson le_less_trans)
  qed
  then show ?case using 1 by auto
qed simp_all

text \<open>
  The overlap check is complete. Although the code compares only neighbours, on pulses ordered by
  their start (by any sort) and of positive length it answers exactly whether some two pulses of
  the message overlap, wherever they stand.
\<close>

theorem overlap_check_is_complete:
  assumes "std_sort word_start sorter"
    and "\<forall>p \<in> set ps. word_start p < dp_global_end_sample (word_pulse p)"
  shows "HasUnsupportedOverlap (GloballyOrderDecodedPulses sorter ps) \<longleftrightarrow> some_pulses_overlap ps"
proof -
  have m: "mset (sorter ps) = mset ps" and s: "sorted (map word_start (sorter ps))"
    using assms(1) by (simp_all add: std_sort_def)
  have "HasUnsupportedOverlap (sorter ps) \<longleftrightarrow> some_pulses_overlap (sorter ps)"
    by (rule adjacent_check_sorted [OF s]) (use assms(2) mset_eq_setD [OF m] in simp)
  then show ?thesis
    unfolding GloballyOrderDecodedPulses_def some_pulses_overlap_permutation [OF m] .
qed

section \<open>Assembly\<close>

text \<open>A preamble the detector accepts as a fixture.\<close>

definition preamble_fixture :: "fhss_preamble_pulse_spec list \<Rightarrow> bool" where
  "preamble_fixture preamble \<longleftrightarrow> length preamble = 16 \<and>
     (\<forall>p \<in> set preamble. IsSelectableFrequencyIndex (pp_frequency_index p)) \<and>
     (\<forall>p \<in> set preamble. \<forall>q \<in> set preamble. pp_frequency_index p = pp_frequency_index q \<longrightarrow>
        pp_word_value p = pp_word_value q) \<and>
     card (pp_frequency_index ` set preamble) = 4"

definition hops :: "'f fhss_decoded_pulse_word list \<Rightarrow> u32 list" where
  "hops ps = map (\<lambda>p. dp_frequency_index (word_pulse p)) ps"

lemma Detect_lock_iff:
  "pd_preamble_lock (Detect ordered preamble) \<longleftrightarrow> preamble_fixture preamble \<and> 16 \<le> length ordered \<and>
     take 16 (hops ordered) = map pp_frequency_index preamble"
proof -
  have active: "has_value (ValidateActiveFrequencySet (DeriveActiveFrequenciesFromPreamble preamble)) \<longleftrightarrow>
      card (pp_frequency_index ` set preamble) = 4 \<and>
      (\<forall>p \<in> set preamble. IsSelectableFrequencyIndex (pp_frequency_index p))"
    by (auto simp: active_set_iff DeriveActiveFrequenciesFromPreamble_def)
  have hop: "(\<forall>i \<in> set [0 ..< 16]. dp_frequency_index (word_pulse (ordered ! i)) = pp_frequency_index (preamble ! i))
      \<longleftrightarrow> take 16 (hops ordered) = map pp_frequency_index preamble"
    if "length preamble = 16" "16 \<le> length ordered"
    using that by (auto simp: list_eq_iff_nth_eq hops_def)
  have "pd_preamble_lock (Detect ordered preamble) \<longleftrightarrow> length preamble = 16 \<and>
      has_value (ValidatePreambleWordConsistency preamble) \<and>
      has_value (ValidateActiveFrequencySet (DeriveActiveFrequenciesFromPreamble preamble)) \<and>
      16 \<le> length ordered \<and>
      (\<forall>i \<in> set [0 ..< 16]. dp_frequency_index (word_pulse (ordered ! i)) = pp_frequency_index (preamble ! i))"
    by (simp add: Detect_def Let_def fhss_constants not_less del: set_upt split: sum.split)
  then show ?thesis
    unfolding active word_consistency_iff preamble_fixture_def using hop by blast
qed

lemma Detect_active:
  assumes "pd_preamble_lock (Detect ordered preamble)"
  shows "pd_active_frequency_indices (Detect ordered preamble) = DeriveActiveFrequenciesFromPreamble preamble"
  using assms by (simp add: Detect_def Let_def split: sum.splits if_splits)

lemma Detect_not_ok: "\<not> pd_preamble_lock (Detect ordered preamble) \<Longrightarrow> pd_status (Detect ordered preamble) \<noteq> AS_Ok"
  by (simp add: Detect_def Let_def split: sum.splits if_splits)

lemma ContainsIndex_active:
  "ContainsIndex (DeriveActiveFrequenciesFromPreamble preamble) i \<longleftrightarrow> i \<in> pp_frequency_index ` set preamble"
  by (simp add: ContainsIndex_def DeriveActiveFrequenciesFromPreamble_def)

text \<open>The status, the counters and the split of an assembled message.\<close>

lemma Assemble_cases:
  fixes sorter :: "'f fhss_decoded_pulse_word list \<Rightarrow> 'f fhss_decoded_pulse_word list"
  defines "m ps preamble \<equiv> Assemble sorter ps preamble"
  shows "am_status (m ps preamble) = AS_Ok \<longleftrightarrow> length (sorter ps) \<le> 256 \<and>
      \<not> HasUnsupportedOverlap (sorter ps) \<and> pd_preamble_lock (Detect (sorter ps) preamble) \<and>
      (\<forall>p \<in> set (drop 16 (sorter ps)).
         dp_frequency_index (word_pulse p) \<in> pp_frequency_index ` set preamble)"
    and "am_ordered_pulses (m ps preamble) = sorter ps"
    and "md_pulse_count (am_diagnostics (m ps preamble)) = length (sorter ps)"
    and "md_preamble_lock (am_diagnostics (m ps preamble)) \<longleftrightarrow> am_status (m ps preamble) = AS_Ok"
    and "md_rejected_count (am_diagnostics (m ps preamble)) =
      (if am_status (m ps preamble) = AS_Ok then 0 else length (sorter ps))"
    and "am_status (m ps preamble) = AS_Ok \<Longrightarrow>
      am_preamble_pulses (m ps preamble) = take 16 (sorter ps) \<and>
      am_payload_pulses (m ps preamble) = drop 16 (sorter ps)"
proof -
  let ?o = "sorter ps" and ?d = "Detect (sorter ps) preamble"
  have "am_status (m ps preamble) = AS_Ok \<longleftrightarrow> length ?o \<le> 256 \<and> \<not> HasUnsupportedOverlap ?o \<and>
      pd_preamble_lock ?d \<and> (\<forall>p \<in> set (drop 16 ?o).
         ContainsIndex (pd_active_frequency_indices ?d) (dp_frequency_index (word_pulse p)))"
    using Detect_not_ok [of ?o preamble]
    by (auto simp: m_def Assemble_def Let_def GloballyOrderDecodedPulses_def reject_message_def fhss_constants)
  then show "am_status (m ps preamble) = AS_Ok \<longleftrightarrow> length ?o \<le> 256 \<and> \<not> HasUnsupportedOverlap ?o \<and>
      pd_preamble_lock ?d \<and> (\<forall>p \<in> set (drop 16 ?o).
         dp_frequency_index (word_pulse p) \<in> pp_frequency_index ` set preamble)"
    using Detect_active [of ?o preamble] ContainsIndex_active [of preamble] by metis
qed (use Detect_not_ok [of "sorter ps" preamble] in
    \<open>simp_all add: m_def Assemble_def Let_def GloballyOrderDecodedPulses_def reject_message_def fhss_constants split: if_splits\<close>)

text \<open>
  C20. What the assembler accepts. For pulses of positive length, a message is Ok exactly when it has at
  most 256 pulses, no two of them overlap, the configured preamble is a valid fixture (16 pulses on
  four selectable frequencies, one word per frequency), the first 16 pulses in time follow its hop
  pattern and every later pulse uses one of its frequencies. The ordered pulses are those received,
  sorted by start sample; an accepted message is split into preamble and payload without loss and
  counts no rejected pulse, and any other message counts every pulse as rejected and reports no
  lock.
\<close>

theorem Assemble_spec:
  assumes "std_sort word_start sorter"
    and "\<forall>p \<in> set ps. word_start p < dp_global_end_sample (word_pulse p)"
  shows "(am_status (Assemble sorter ps preamble) = AS_Ok \<longleftrightarrow>
            length ps \<le> 256 \<and> \<not> some_pulses_overlap ps \<and> preamble_fixture preamble \<and> 16 \<le> length ps \<and>
            take 16 (hops (sorter ps)) = map pp_frequency_index preamble \<and>
            set (drop 16 (hops (sorter ps))) \<subseteq> pp_frequency_index ` set preamble) \<and>
         mset (am_ordered_pulses (Assemble sorter ps preamble)) = mset ps \<and>
         sorted (map word_start (am_ordered_pulses (Assemble sorter ps preamble))) \<and>
         (let m = Assemble sorter ps preamble; d = am_diagnostics m
          in md_pulse_count d = length ps \<and>
             (if am_status m = AS_Ok
              then am_preamble_pulses m @ am_payload_pulses m = am_ordered_pulses m \<and>
                   length (am_preamble_pulses m) = 16 \<and> md_rejected_count d = 0 \<and> md_preamble_lock d
              else md_rejected_count d = length ps \<and> \<not> md_preamble_lock d))"
proof -
  have m: "mset (sorter ps) = mset ps" and s: "sorted (map word_start (sorter ps))"
    using assms(1) by (simp_all add: std_sort_def)
  have l: "length (sorter ps) = length ps" using mset_eq_length [OF m] .
  have o: "HasUnsupportedOverlap (sorter ps) \<longleftrightarrow> some_pulses_overlap ps"
    using adjacent_check_sorted [OF s] assms(2) mset_eq_setD [OF m] some_pulses_overlap_permutation [OF m]
    by simp
  have h: "(\<forall>p \<in> set (drop 16 (sorter ps)). dp_frequency_index (word_pulse p) \<in> pp_frequency_index ` set preamble) \<longleftrightarrow>
      set (drop 16 (hops (sorter ps))) \<subseteq> pp_frequency_index ` set preamble"
    by (auto simp: hops_def drop_map)
  note c = Assemble_cases [where sorter = sorter and ps = ps and preamble = preamble]
  have ok: "am_status (Assemble sorter ps preamble) = AS_Ok \<longleftrightarrow>
            length ps \<le> 256 \<and> \<not> some_pulses_overlap ps \<and> preamble_fixture preamble \<and> 16 \<le> length ps \<and>
            take 16 (hops (sorter ps)) = map pp_frequency_index preamble \<and>
            set (drop 16 (hops (sorter ps))) \<subseteq> pp_frequency_index ` set preamble"
    unfolding c(1) o l h Detect_lock_iff by blast
  have "16 \<le> length ps" if "am_status (Assemble sorter ps preamble) = AS_Ok" using ok that by blast
  then have rest: "mset (am_ordered_pulses (Assemble sorter ps preamble)) = mset ps \<and>
         sorted (map word_start (am_ordered_pulses (Assemble sorter ps preamble))) \<and>
         (let m = Assemble sorter ps preamble; d = am_diagnostics m
          in md_pulse_count d = length ps \<and>
             (if am_status m = AS_Ok
              then am_preamble_pulses m @ am_payload_pulses m = am_ordered_pulses m \<and>
                   length (am_preamble_pulses m) = 16 \<and> md_rejected_count d = 0 \<and> md_preamble_lock d
              else md_rejected_count d = length ps \<and> \<not> md_preamble_lock d))"
    using m s l c(2-5) c(6)
    by (cases "am_status (Assemble sorter ps preamble) = AS_Ok") (simp_all add: Let_def)
  show ?thesis using ok rest by blast
qed

section \<open>Example messages\<close>

text \<open>Pulses on four frequencies in turn, \<open>period\<close> samples apart; the numbers the assembler ignores are units.\<close>

definition sample_pulse :: "u64 \<Rightarrow> u32 \<Rightarrow> unit fhss_detected_pulse" where
  "sample_pulse start frequency = \<lparr>dp_global_start_sample = start, dp_global_end_sample = start + 3200,
     dp_duration_samples = 3200, dp_channel_start_sample = 0, dp_channel_id = 0,
     dp_frequency_index = frequency, dp_rf_frequency_hz = (), dp_iq_offset_frequency_hz = (),
     dp_estimated_center_frequency_hz = (), dp_frequency_error_hz = (), dp_amplitude = (),
     dp_power_db = (), dp_snr_db = (), dp_noise_floor_db = (), dp_phase_at_start_rad = (),
     dp_phase_slope_rad_per_sample = (), dp_cfo_hz = (), dp_bandwidth_hz = (), dp_confidence = (),
     dp_detector_id = 0, dp_packet_sequence = 0\<rparr>"

definition sample_word :: "u64 \<Rightarrow> nat \<Rightarrow> unit fhss_decoded_pulse_word" where
  "sample_word period i = \<lparr>dw_candidate = \<lparr>pc_detected_pulse = sample_pulse (of_nat i * period) (of_nat (i mod 4 + 1)),
       pc_provisional_slot_index = None, pc_final_slot_index = None\<rparr>,
     dw_decoded_value = of_nat i, dw_confidence = (), dw_viterbi_path_metric = (),
     dw_viterbi_second_best_path_metric = (), dw_status = PW_Ok, dw_status_message = ''Ok''\<rparr>"

definition sample_preamble :: "fhss_preamble_pulse_spec list" where
  "sample_preamble = map (\<lambda>i. \<lparr>pp_frequency_index = of_nat (i mod 4 + 1), pp_word_value = of_nat (i mod 4)\<rparr>) [0 ..< 16]"

definition sample_message :: "u64 \<Rightarrow> unit fhss_decoded_pulse_word list" where
  "sample_message period = map (sample_word period) [0 ..< 18]"


lemma upt_18: "[0 ..< 18] = [0, 1, 2, 3, 4, 5, 6, 7, 8, 9, 10, 11, 12, 13, 14, 15, 16, 17 :: nat]"
  by (simp add: upt_rec)

lemma upt_16: "[0 ..< 16] = [0, 1, 2, 3, 4, 5, 6, 7, 8, 9, 10, 11, 12, 13, 14, 15 :: nat]"
  by (simp add: upt_rec)

lemmas sample_defs = sample_message_def upt_18 sample_word_def sample_pulse_def

lemma sample_nonempty:
  "\<forall>p \<in> set (sample_message 6500). word_start p < dp_global_end_sample (word_pulse p)"
  "\<forall>p \<in> set (sample_message 3000). word_start p < dp_global_end_sample (word_pulse p)"
  by (simp_all add: sample_defs)

lemma sample_sorted: "sort_key word_start (sample_message 6500) = sample_message 6500"
  by (rule sort_key_id_if_sorted) (simp add: sample_defs)

lemma sample_no_overlap: "\<not> some_pulses_overlap (sample_message 6500)"
proof -
  have "\<not> HasUnsupportedOverlap (sample_message 6500)" "sorted (map word_start (sample_message 6500))"
    by (simp_all add: sample_defs DecodedPulsesOverlap_def PulsesOverlap_def)
  then show ?thesis using adjacent_check_sorted sample_nonempty(1) by blast
qed

lemma sample_fixture: "preamble_fixture sample_preamble"
  by (simp add: preamble_fixture_def sample_preamble_def upt_16 IsSelectableFrequencyIndex_def fhss_constants card_insert_if)

theorem overlap_check_is_complete_witness:
  "\<not> HasUnsupportedOverlap (GloballyOrderDecodedPulses (sort_key word_start) (sample_message 6500)) \<and>
   some_pulses_overlap (sample_message 3000)"
proof -
  have "HasUnsupportedOverlap (sample_message 3000)"
    by (simp add: sample_defs DecodedPulsesOverlap_def PulsesOverlap_def)
  moreover have "sort_key word_start (sample_message 3000) = sample_message 3000"
    by (rule sort_key_id_if_sorted) (simp add: sample_defs)
  ultimately show ?thesis
    using overlap_check_is_complete [OF stable_sort.std_sort_axioms sample_nonempty(1)] sample_no_overlap
      overlap_check_is_complete [OF stable_sort.std_sort_axioms sample_nonempty(2)]
    by (simp add: GloballyOrderDecodedPulses_def)
qed

theorem Assemble_spec_witness:
  "am_status (Assemble (sort_key word_start) (sample_message 6500) sample_preamble) = AS_Ok"
proof -
  have "length (sample_message 6500) = 18" by (simp add: sample_message_def)
  moreover have "take 16 (hops (sample_message 6500)) = map pp_frequency_index sample_preamble"
    "set (drop 16 (hops (sample_message 6500))) \<subseteq> pp_frequency_index ` set sample_preamble"
    by (simp_all add: sample_message_def hops_def upt_18 upt_16 sample_word_def sample_pulse_def sample_preamble_def)
  ultimately show ?thesis
    using Assemble_spec [OF stable_sort.std_sort_axioms sample_nonempty(1), of sample_preamble]
      sample_no_overlap sample_fixture sample_sorted by simp
qed

end
