(* ===== verification/Fhss_Packets.thy ===== *)
theory Fhss_Packets
  imports Fhss_Assembly Edge_Control
begin

text \<open>
  The packets that travel on the edges of the FHSS receiver graph
  (\<open>libdsp/include/dsp/fhss/FHSSPackets.hpp\<close>) and their conversions from and to the types of the
  kernels (\<open>FHSSPacketConversions.hpp\<close>). A shared pointer to immutable samples is an optional list.
  A token is the control envelope around a packet; its accelerator transport fields keep their
  defaults in all nodes modelled here and are left out.
\<close>

section \<open>Packets\<close>

datatype sample_format = SF_ComplexFloat64 | SF_ComplexFloat32

datatype payload_residency = PR_Empty | PR_HostSharedImmutable | PR_ExternalImmutableReference
  | PR_FutureAccelTokenSidecar

datatype decode_status = DS_Ok | DS_LowConfidence | DS_InvalidEvidence | DS_Unsupported

record 'f gx_sample_time_map =
  gt_has_input_global_start_sample :: bool
  gt_input_packet_global_start_sample :: u64
  gt_output_start_sample :: u64
  gt_decimation_factor :: u32
  gt_group_delay_input_samples :: i64
  gt_input_sample_rate_hz :: 'f
  gt_output_sample_rate_hz :: 'f

record ('f, 'z) gx_complex_evidence =
  ge_host_complex64_samples :: "'z list option"
  ge_sample_offset :: u64
  ge_sample_count :: u64
  ge_sample_format :: sample_format
  ge_residency :: payload_residency
  ge_sample_time_map :: "'f gx_sample_time_map"
  ge_decoder_usable_complex_iq :: bool

record 'f gx_frequency_metadata =
  gf_frequency_index :: u32
  gf_rf_frequency_hz :: 'f
  gf_iq_offset_frequency_hz :: 'f
  gf_estimated_center_frequency_hz :: 'f
  gf_frequency_error_hz :: 'f

record 'f gx_pulse_timing =
  gp_global_start_sample :: u64
  gp_global_end_sample :: u64
  gp_duration_samples :: u64
  gp_channel_start_sample :: u64
  gp_channel_id :: u32
  gp_sample_time_map :: "'f gx_sample_time_map"

record 'f gx_pulse_metadata =
  gm_timing :: "'f gx_pulse_timing"
  gm_frequency :: "'f gx_frequency_metadata"
  gm_downconverter_passthrough :: bool
  gm_downconverter_translation_frequency_hz :: 'f
  gm_amplitude :: 'f
  gm_power_db :: 'f
  gm_snr_db :: 'f
  gm_noise_floor_db :: 'f
  gm_phase_at_start_rad :: 'f
  gm_phase_slope_rad_per_sample :: 'f
  gm_cfo_hz :: 'f
  gm_bandwidth_hz :: 'f
  gm_confidence :: 'f
  gm_detector_id :: u64
  gm_packet_sequence :: u64

datatype phase_convention = OutputTimesExpNegativeJTwoPiTranslationT | PassthroughNoPhaseRotation

record 'f gx_downconverter_metadata =
  gd_input_iq_center_frequency_hz :: 'f
  gd_input_reference_frequency_hz :: 'f
  gd_output_iq_center_frequency_hz :: 'f
  gd_output_reference_frequency_hz :: 'f
  gd_translation_frequency_hz :: 'f
  gd_passthrough :: bool
  gd_phase_convention :: phase_convention
  gd_sample_rate_hz :: 'f
  gd_input_global_start_sample :: u64
  gd_output_global_start_sample :: u64
  gd_sample_time_map :: "'f gx_sample_time_map"

record 'f gx_channel_metadata =
  gc_channel_id :: u32
  gc_frequency_index :: u32
  gc_rf_frequency_hz :: 'f
  gc_iq_offset_frequency_hz :: 'f
  gc_downconverter_passthrough :: bool
  gc_downconverter_translation_frequency_hz :: 'f
  gc_channel_sample_rate_hz :: 'f
  gc_decimation_factor :: u32
  gc_filter_group_delay_input_samples :: i64
  gc_input_global_start_sample :: u64
  gc_channel_global_start_sample :: u64
  gc_sample_time_map :: "'f gx_sample_time_map"

record ('f, 'z) gx_pulse_candidate =
  gk_pulse :: "'f gx_pulse_metadata"
  gk_provisional_slot_index :: "u64 option"
  gk_final_slot_index :: "u64 option"
  gk_complex_evidence :: "('f, 'z) gx_complex_evidence"

record ('f, 'z) pulse_branch_metric =
  pm_candidate :: "('f, 'z) gx_pulse_candidate"
  pm_branch_costs :: "'f list"
  pm_trellis_state_count :: u32
  pm_best_path_metric :: 'f
  pm_second_best_path_metric :: 'f

record 'f pulse_symbol_decision =
  ps_pulse :: "'f gx_pulse_metadata"
  ps_symbols :: "'f list"
  ps_phase_states :: "u32 list"
  ps_best_path_metric :: 'f
  ps_second_best_path_metric :: 'f
  ps_confidence :: 'f
  ps_status :: decode_status
  ps_status_message :: string

record message_correlation =
  co_scenario_id :: string
  co_message_id :: u64
  co_release_sequence :: u64

record ('f, 'z) per_channel_evidence_packet =
  pe_correlation :: message_correlation
  pe_channel :: "'f gx_channel_metadata"
  pe_detected_pulses :: "'f gx_pulse_metadata list"
  pe_pulse_evidence :: "('f, 'z) gx_complex_evidence list"
  pe_channel_iq :: "('f, 'z) gx_complex_evidence"

record ('f, 'z) detected_evidence_packet =
  de_correlation :: message_correlation
  de_detected_pulses :: "'f gx_pulse_metadata list"
  de_pulse_evidence :: "('f, 'z) gx_complex_evidence list"
  de_source_iq :: "('f, 'z) gx_complex_evidence"

record ('f, 'z) candidate_packet =
  cp_correlation :: message_correlation
  cp_ordered_candidates :: "('f, 'z) gx_pulse_candidate list"
  cp_globally_ordered :: bool
  cp_unsupported_overlap_rejected :: bool

record ('f, 'z) branch_metric_packet =
  bp_correlation :: message_correlation
  bp_candidate :: "('f, 'z) gx_pulse_candidate"
  bp_branch_costs :: "'f list"
  bp_pulse_metrics :: "('f, 'z) pulse_branch_metric list"
  bp_trellis_state_count :: u32
  bp_best_path_metric :: 'f
  bp_second_best_path_metric :: 'f

record 'f symbol_decision_packet =
  sd_correlation :: message_correlation
  sd_pulse :: "'f gx_pulse_metadata"
  sd_symbols :: "'f list"
  sd_phase_states :: "u32 list"
  sd_pulse_decisions :: "'f pulse_symbol_decision list"
  sd_best_path_metric :: 'f
  sd_second_best_path_metric :: 'f
  sd_confidence :: 'f
  sd_status :: decode_status
  sd_status_message :: string

record 'f word_packet =
  wp_correlation :: message_correlation
  wp_pulse :: "'f gx_pulse_metadata"
  wp_decoded_value :: u32
  wp_confidence :: 'f
  wp_viterbi_path_metric :: 'f
  wp_viterbi_second_best_path_metric :: 'f
  wp_status :: decode_status
  wp_status_message :: string

record 'f words_packet =
  ws_correlation :: message_correlation
  ws_decoded_pulses :: "'f word_packet list"
  ws_globally_ordered :: bool

record 'f diagnostics_packet =
  dg_pulse_count :: nat
  dg_rejected_count :: nat
  dg_preamble_lock :: bool
  dg_global_start_sample :: "u64 option"
  dg_frequency_index :: "u32 option"
  dg_confidence :: "'f option"
  dg_viterbi_path_metric :: "'f option"
  dg_decoded_value :: "u32 option"
  dg_unsupported_overlap_rejected :: bool
  dg_unsupported_impairments_rejected :: bool
  dg_synchronization_assumption :: string

record 'f message_packet =
  mp_correlation :: message_correlation
  mp_ordered_pulses :: "'f word_packet list"
  mp_active_frequency_indices :: "u32 list"
  mp_preamble_lock :: bool
  mp_diagnostics :: "'f diagnostics_packet"
  mp_status :: decode_status
  mp_status_message :: string

record 'p control_token =
  tk_token_id :: u64
  tk_edge_control :: edge_control
  tk_sidecar :: 'p

text \<open>Default member initialisers.\<close>

definition default_correlation :: message_correlation where
  "default_correlation = \<lparr>co_scenario_id = '''', co_message_id = 0, co_release_sequence = 0\<rparr>"

definition default_time_map :: "'f double_ops \<Rightarrow> 'f gx_sample_time_map" where
  "default_time_map fl = \<lparr>gt_has_input_global_start_sample = True,
     gt_input_packet_global_start_sample = 0, gt_output_start_sample = 0, gt_decimation_factor = 1,
     gt_group_delay_input_samples = 0, gt_input_sample_rate_hz = fd_of_int fl kSampleRateHz,
     gt_output_sample_rate_hz = fd_of_int fl kSampleRateHz\<rparr>"

definition default_complex_evidence :: "'f double_ops \<Rightarrow> ('f, 'z) gx_complex_evidence" where
  "default_complex_evidence fl = \<lparr>ge_host_complex64_samples = None, ge_sample_offset = 0,
     ge_sample_count = 0, ge_sample_format = SF_ComplexFloat64, ge_residency = PR_HostSharedImmutable,
     ge_sample_time_map = default_time_map fl, ge_decoder_usable_complex_iq = True\<rparr>"

definition default_pulse_metadata :: "'f double_ops \<Rightarrow> 'f gx_pulse_metadata" where
  "default_pulse_metadata fl = (let z = fd_of_int fl 0 in
     \<lparr>gm_timing = \<lparr>gp_global_start_sample = 0, gp_global_end_sample = 0, gp_duration_samples = 0,
        gp_channel_start_sample = 0, gp_channel_id = 0, gp_sample_time_map = default_time_map fl\<rparr>,
      gm_frequency = \<lparr>gf_frequency_index = 0, gf_rf_frequency_hz = z, gf_iq_offset_frequency_hz = z,
        gf_estimated_center_frequency_hz = z, gf_frequency_error_hz = z\<rparr>,
      gm_downconverter_passthrough = True, gm_downconverter_translation_frequency_hz = z,
      gm_amplitude = z, gm_power_db = z, gm_snr_db = z, gm_noise_floor_db = z,
      gm_phase_at_start_rad = z, gm_phase_slope_rad_per_sample = z, gm_cfo_hz = z,
      gm_bandwidth_hz = z, gm_confidence = z, gm_detector_id = 0, gm_packet_sequence = 0\<rparr>)"

definition default_candidate :: "'f double_ops \<Rightarrow> ('f, 'z) gx_pulse_candidate" where
  "default_candidate fl = \<lparr>gk_pulse = default_pulse_metadata fl, gk_provisional_slot_index = None,
     gk_final_slot_index = None, gk_complex_evidence = default_complex_evidence fl\<rparr>"

definition default_channel_metadata :: "'f double_ops \<Rightarrow> 'f gx_channel_metadata" where
  "default_channel_metadata fl = (let z = fd_of_int fl 0 in
     \<lparr>gc_channel_id = 0, gc_frequency_index = 0, gc_rf_frequency_hz = z, gc_iq_offset_frequency_hz = z,
      gc_downconverter_passthrough = True, gc_downconverter_translation_frequency_hz = z,
      gc_channel_sample_rate_hz = fd_of_int fl kSampleRateHz, gc_decimation_factor = 1,
      gc_filter_group_delay_input_samples = 0, gc_input_global_start_sample = 0,
      gc_channel_global_start_sample = 0, gc_sample_time_map = default_time_map fl\<rparr>)"

definition default_diagnostics :: "'f diagnostics_packet" where
  "default_diagnostics = \<lparr>dg_pulse_count = 0, dg_rejected_count = 0, dg_preamble_lock = False,
     dg_global_start_sample = None, dg_frequency_index = None, dg_confidence = None,
     dg_viterbi_path_metric = None, dg_decoded_value = None, dg_unsupported_overlap_rejected = True,
     dg_unsupported_impairments_rejected = True,
     dg_synchronization_assumption = ''known message_start_sample = 0''\<rparr>"

section \<open>Predicates\<close>

definition GraphXEvidenceRangeIsValid :: "('f, 'z) gx_complex_evidence \<Rightarrow> bool" where
  "GraphXEvidenceRangeIsValid e =
     (if ge_residency e = PR_Empty then ge_sample_count e = 0 \<and> ge_sample_offset e = 0
      else case ge_host_complex64_samples e of
        None \<Rightarrow> ge_residency e \<noteq> PR_HostSharedImmutable
      | Some samples \<Rightarrow> unat (ge_sample_offset e) \<le> length samples \<and>
          unat (ge_sample_count e) \<le> length samples - unat (ge_sample_offset e))"

definition GraphXEvidenceHasHostComplexIq :: "('f, 'z) gx_complex_evidence \<Rightarrow> bool" where
  "GraphXEvidenceHasHostComplexIq e \<longleftrightarrow> ge_decoder_usable_complex_iq e \<and>
     ge_residency e = PR_HostSharedImmutable \<and> ge_host_complex64_samples e \<noteq> None \<and>
     GraphXEvidenceRangeIsValid e"

definition GraphXEvidenceIsFutureAccelSidecarCompatible :: "('f, 'z) gx_complex_evidence \<Rightarrow> bool" where
  "GraphXEvidenceIsFutureAccelSidecarCompatible e \<longleftrightarrow>
     ge_residency e = PR_FutureAccelTokenSidecar \<and>
     gt_has_input_global_start_sample (ge_sample_time_map e)"

definition GraphXDownconverterMetadataIsValid ::
    "'f double_ops \<Rightarrow> 'f gx_downconverter_metadata \<Rightarrow> bool" where
  "GraphXDownconverterMetadataIsValid fl d =
     (if fd_le fl (gd_sample_rate_hz d) (fd_of_int fl 0) then False
      else if gd_passthrough d
      then NearlyEqual fl (gd_translation_frequency_hz d) (fd_of_int fl 0) \<and>
           gd_phase_convention d = PassthroughNoPhaseRotation \<and>
           NearlyEqual fl (gd_input_iq_center_frequency_hz d) (gd_output_iq_center_frequency_hz d)
      else gd_phase_convention d = OutputTimesExpNegativeJTwoPiTranslationT)"

definition GraphXChannelCountMatchesFrequencyTable ::
    "'f double_ops \<Rightarrow> nat \<Rightarrow> 'f fhss_frequency_config \<Rightarrow> bool" where
  "GraphXChannelCountMatchesFrequencyTable fl channel_count config \<longleftrightarrow>
     \<not> isl (ValidateFrequencyConfig fl config) \<and> channel_count = unat (fc_frequency_count config)"

definition GraphXChannelMetadataMatchesFrequencyEntry ::
    "'f double_ops \<Rightarrow> 'f gx_channel_metadata \<Rightarrow> 'f fhss_frequency_map_entry \<Rightarrow> bool" where
  "GraphXChannelMetadataMatchesFrequencyEntry fl m entry \<longleftrightarrow>
     \<not> isl (ValidateFrequencyIndex (gc_frequency_index m)) \<and>
     gc_channel_id m = gc_frequency_index m \<and> gc_frequency_index m = fm_index entry \<and>
     NearlyEqual fl (gc_rf_frequency_hz m) (fm_rf_frequency_hz entry) \<and>
     NearlyEqual fl (gc_iq_offset_frequency_hz m) (fm_iq_offset_frequency_hz entry) \<and>
     gc_decimation_factor m > 0 \<and> fd_less fl (fd_of_int fl 0) (gc_channel_sample_rate_hz m)"

text \<open>The signed sum and product are those of 64-bit words; a signed overflow is undefined in C++.\<close>

definition GraphXInputGlobalSampleForChannelSample :: "'f gx_channel_metadata \<Rightarrow> u64 \<Rightarrow> i64" where
  "GraphXInputGlobalSampleForChannelSample m channel_sample =
     gc_input_global_start_sample m + gc_filter_group_delay_input_samples m +
     channel_sample * ucast (gc_decimation_factor m)"

section \<open>Conversions\<close>

definition GraphXComplexEvidenceFromHostSamples ::
    "'z list option \<Rightarrow> u64 \<Rightarrow> 'f gx_sample_time_map \<Rightarrow> ('f, 'z) gx_complex_evidence" where
  "GraphXComplexEvidenceFromHostSamples samples sample_count time_map =
     \<lparr>ge_host_complex64_samples = samples, ge_sample_offset = 0, ge_sample_count = sample_count,
      ge_sample_format = SF_ComplexFloat64, ge_residency = PR_HostSharedImmutable,
      ge_sample_time_map = time_map, ge_decoder_usable_complex_iq = True\<rparr>"

definition SampleTimeMapFromGraphX :: "'f gx_sample_time_map \<Rightarrow> 'f fhss_sample_time_map" where
  "SampleTimeMapFromGraphX m =
     \<lparr>st_has_input_global_start_sample = gt_has_input_global_start_sample m,
      st_input_packet_global_start_sample = gt_input_packet_global_start_sample m,
      st_output_start_sample = gt_output_start_sample m,
      st_decimation_factor = gt_decimation_factor m,
      st_group_delay_input_samples = gt_group_delay_input_samples m,
      st_sample_rate_hz = gt_input_sample_rate_hz m\<rparr>"

definition GraphXSampleTimeMapFromMergeMap ::
    "'f double_ops \<Rightarrow> 'f fhss_sample_time_map \<Rightarrow> 'f gx_sample_time_map" where
  "GraphXSampleTimeMapFromMergeMap fl m =
     \<lparr>gt_has_input_global_start_sample = st_has_input_global_start_sample m,
      gt_input_packet_global_start_sample = st_input_packet_global_start_sample m,
      gt_output_start_sample = st_output_start_sample m,
      gt_decimation_factor = st_decimation_factor m,
      gt_group_delay_input_samples = st_group_delay_input_samples m,
      gt_input_sample_rate_hz = st_sample_rate_hz m,
      gt_output_sample_rate_hz =
        (if st_decimation_factor m = 0 then fd_of_int fl 0
         else fd_div fl (st_sample_rate_hz m) (fd_of_int fl (uint (st_decimation_factor m))))\<rparr>"

definition GraphXSampleTimeMapFromPulse ::
    "'f double_ops \<Rightarrow> 'f fhss_detected_pulse \<Rightarrow> 'f gx_sample_time_map" where
  "GraphXSampleTimeMapFromPulse fl p = (default_time_map fl)
     \<lparr>gt_input_packet_global_start_sample := dp_global_start_sample p - dp_channel_start_sample p,
      gt_output_start_sample := dp_global_start_sample p,
      gt_input_sample_rate_hz := fd_of_int fl kSampleRateHz,
      gt_output_sample_rate_hz := fd_of_int fl kSampleRateHz\<rparr>"

definition ComplexEvidenceFromGraphX :: "('f, 'z) gx_complex_evidence \<Rightarrow> 'z fhss_complex_evidence" where
  "ComplexEvidenceFromGraphX e = \<lparr>ce_samples = ge_host_complex64_samples e,
     ce_sample_offset = ge_sample_offset e, ce_sample_count = ge_sample_count e\<rparr>"

definition GraphXComplexEvidenceSamples :: "('f, 'z) gx_complex_evidence \<Rightarrow> 'z list" where
  "GraphXComplexEvidenceSamples e =
     (if \<not> GraphXEvidenceHasHostComplexIq e then []
      else case ge_host_complex64_samples e of
        None \<Rightarrow> []
      | Some source \<Rightarrow>
          if unat (ge_sample_offset e) > length source \<or>
             unat (ge_sample_count e) > length source - unat (ge_sample_offset e) then []
          else take (unat (ge_sample_offset e + ge_sample_count e) - unat (ge_sample_offset e))
                 (drop (unat (ge_sample_offset e)) source))"

definition GraphXComplexEvidenceFromMergeEvidence ::
    "'z fhss_complex_evidence \<Rightarrow> 'f gx_sample_time_map \<Rightarrow> ('f, 'z) gx_complex_evidence" where
  "GraphXComplexEvidenceFromMergeEvidence e time_map =
     \<lparr>ge_host_complex64_samples = ce_samples e, ge_sample_offset = ce_sample_offset e,
      ge_sample_count = ce_sample_count e, ge_sample_format = SF_ComplexFloat64,
      ge_residency = (if ce_samples e \<noteq> None then PR_HostSharedImmutable else PR_Empty),
      ge_sample_time_map = time_map,
      ge_decoder_usable_complex_iq = (ce_samples e \<noteq> None)\<rparr>"

definition GraphXPulseMetadataFromDetectedPulse ::
    "'f double_ops \<Rightarrow> 'f fhss_detected_pulse \<Rightarrow> 'f gx_sample_time_map \<Rightarrow> 'f gx_pulse_metadata" where
  "GraphXPulseMetadataFromDetectedPulse fl p time_map =
     \<lparr>gm_timing = \<lparr>gp_global_start_sample = dp_global_start_sample p,
        gp_global_end_sample = dp_global_end_sample p, gp_duration_samples = dp_duration_samples p,
        gp_channel_start_sample = dp_channel_start_sample p, gp_channel_id = dp_channel_id p,
        gp_sample_time_map = time_map\<rparr>,
      gm_frequency = \<lparr>gf_frequency_index = dp_frequency_index p,
        gf_rf_frequency_hz = dp_rf_frequency_hz p,
        gf_iq_offset_frequency_hz = dp_iq_offset_frequency_hz p,
        gf_estimated_center_frequency_hz = dp_estimated_center_frequency_hz p,
        gf_frequency_error_hz = dp_frequency_error_hz p\<rparr>,
      gm_downconverter_passthrough = True,
      gm_downconverter_translation_frequency_hz = fd_of_int fl 0,
      gm_amplitude = dp_amplitude p, gm_power_db = dp_power_db p, gm_snr_db = dp_snr_db p,
      gm_noise_floor_db = dp_noise_floor_db p, gm_phase_at_start_rad = dp_phase_at_start_rad p,
      gm_phase_slope_rad_per_sample = dp_phase_slope_rad_per_sample p, gm_cfo_hz = dp_cfo_hz p,
      gm_bandwidth_hz = dp_bandwidth_hz p, gm_confidence = dp_confidence p,
      gm_detector_id = dp_detector_id p, gm_packet_sequence = dp_packet_sequence p\<rparr>"

definition DetectedPulseFromGraphX :: "'f gx_pulse_metadata \<Rightarrow> 'f fhss_detected_pulse" where
  "DetectedPulseFromGraphX m =
     \<lparr>dp_global_start_sample = gp_global_start_sample (gm_timing m),
      dp_global_end_sample = gp_global_end_sample (gm_timing m),
      dp_duration_samples = gp_duration_samples (gm_timing m),
      dp_channel_start_sample = gp_channel_start_sample (gm_timing m),
      dp_channel_id = gp_channel_id (gm_timing m),
      dp_frequency_index = gf_frequency_index (gm_frequency m),
      dp_rf_frequency_hz = gf_rf_frequency_hz (gm_frequency m),
      dp_iq_offset_frequency_hz = gf_iq_offset_frequency_hz (gm_frequency m),
      dp_estimated_center_frequency_hz = gf_estimated_center_frequency_hz (gm_frequency m),
      dp_frequency_error_hz = gf_frequency_error_hz (gm_frequency m),
      dp_amplitude = gm_amplitude m, dp_power_db = gm_power_db m, dp_snr_db = gm_snr_db m,
      dp_noise_floor_db = gm_noise_floor_db m, dp_phase_at_start_rad = gm_phase_at_start_rad m,
      dp_phase_slope_rad_per_sample = gm_phase_slope_rad_per_sample m, dp_cfo_hz = gm_cfo_hz m,
      dp_bandwidth_hz = gm_bandwidth_hz m, dp_confidence = gm_confidence m,
      dp_detector_id = gm_detector_id m, dp_packet_sequence = gm_packet_sequence m\<rparr>"

definition LocalPulseDetectionFromGraphX ::
    "'f gx_pulse_metadata \<Rightarrow> ('f, 'z) gx_complex_evidence \<Rightarrow> ('f, 'z) fhss_local_pulse_detection" where
  "LocalPulseDetectionFromGraphX m evidence =
     \<lparr>ld_sample_time_map = SampleTimeMapFromGraphX (gp_sample_time_map (gm_timing m)),
      ld_local_start_offset = gp_channel_start_sample (gm_timing m),
      ld_duration_samples = gp_duration_samples (gm_timing m),
      ld_channel_id = gp_channel_id (gm_timing m),
      ld_frequency_index = gf_frequency_index (gm_frequency m),
      ld_rf_frequency_hz = gf_rf_frequency_hz (gm_frequency m),
      ld_iq_offset_frequency_hz = gf_iq_offset_frequency_hz (gm_frequency m),
      ld_estimated_center_frequency_hz = gf_estimated_center_frequency_hz (gm_frequency m),
      ld_frequency_error_hz = gf_frequency_error_hz (gm_frequency m),
      ld_amplitude = gm_amplitude m, ld_power_db = gm_power_db m, ld_snr_db = gm_snr_db m,
      ld_noise_floor_db = gm_noise_floor_db m, ld_phase_at_start_rad = gm_phase_at_start_rad m,
      ld_phase_slope_rad_per_sample = gm_phase_slope_rad_per_sample m, ld_cfo_hz = gm_cfo_hz m,
      ld_bandwidth_hz = gm_bandwidth_hz m, ld_confidence = gm_confidence m,
      ld_detector_id = gm_detector_id m, ld_packet_sequence = gm_packet_sequence m,
      ld_complex_evidence = ComplexEvidenceFromGraphX evidence\<rparr>"

definition GraphXPulseCandidateFromMergeCandidate ::
    "'f double_ops \<Rightarrow> ('f, 'z) candidate_with_evidence \<Rightarrow> ('f, 'z) gx_pulse_candidate" where
  "GraphXPulseCandidateFromMergeCandidate fl c =
     (let time_map = GraphXSampleTimeMapFromMergeMap fl (cw_sample_time_map c) in
      \<lparr>gk_pulse = GraphXPulseMetadataFromDetectedPulse fl (pulse_of c) time_map,
       gk_provisional_slot_index = pc_provisional_slot_index (cw_candidate c),
       gk_final_slot_index = pc_final_slot_index (cw_candidate c),
       gk_complex_evidence = GraphXComplexEvidenceFromMergeEvidence (cw_complex_evidence c) time_map\<rparr>)"

definition PulseCandidateFromGraphX :: "('f, 'z) gx_pulse_candidate \<Rightarrow> 'f fhss_pulse_candidate" where
  "PulseCandidateFromGraphX c = \<lparr>pc_detected_pulse = DetectedPulseFromGraphX (gk_pulse c),
     pc_provisional_slot_index = gk_provisional_slot_index c,
     pc_final_slot_index = gk_final_slot_index c\<rparr>"

definition DecodedPulseWordFromGraphX :: "'f word_packet \<Rightarrow> 'f fhss_decoded_pulse_word" where
  "DecodedPulseWordFromGraphX p =
     \<lparr>dw_candidate = \<lparr>pc_detected_pulse = DetectedPulseFromGraphX (wp_pulse p),
        pc_provisional_slot_index = None, pc_final_slot_index = None\<rparr>,
      dw_decoded_value = wp_decoded_value p, dw_confidence = wp_confidence p,
      dw_viterbi_path_metric = wp_viterbi_path_metric p,
      dw_viterbi_second_best_path_metric = wp_viterbi_second_best_path_metric p,
      dw_status = (if wp_status p = DS_Ok then PW_Ok else PW_InvalidPathMetric),
      dw_status_message = wp_status_message p\<rparr>"

definition GraphXDecodedPulseWordFromKernel ::
    "'f double_ops \<Rightarrow> 'f fhss_decoded_pulse_word \<Rightarrow> 'f word_packet" where
  "GraphXDecodedPulseWordFromKernel fl d =
     \<lparr>wp_correlation = default_correlation,
      wp_pulse = GraphXPulseMetadataFromDetectedPulse fl (word_pulse d)
        (GraphXSampleTimeMapFromPulse fl (word_pulse d)),
      wp_decoded_value = dw_decoded_value d, wp_confidence = dw_confidence d,
      wp_viterbi_path_metric = dw_viterbi_path_metric d,
      wp_viterbi_second_best_path_metric = dw_viterbi_second_best_path_metric d,
      wp_status = (if dw_status d = PW_Ok then DS_Ok else DS_InvalidEvidence),
      wp_status_message = dw_status_message d\<rparr>"

definition GraphXDiagnosticsFromKernel :: "message_diagnostics \<Rightarrow> 'f diagnostics_packet" where
  "GraphXDiagnosticsFromKernel d = default_diagnostics\<lparr>dg_pulse_count := md_pulse_count d,
     dg_rejected_count := md_rejected_count d, dg_preamble_lock := md_preamble_lock d\<rparr>"

text \<open>The diagnostics of the first pulse, as the conversion and the preamble detector fill them in.\<close>

definition describe_first :: "'f word_packet list \<Rightarrow> 'f diagnostics_packet \<Rightarrow> 'f diagnostics_packet" where
  "describe_first ps d = (case ps of
     [] \<Rightarrow> d
   | first # _ \<Rightarrow> d\<lparr>dg_global_start_sample := Some (gp_global_start_sample (gm_timing (wp_pulse first))),
       dg_frequency_index := Some (gf_frequency_index (gm_frequency (wp_pulse first))),
       dg_confidence := Some (wp_confidence first),
       dg_viterbi_path_metric := Some (wp_viterbi_path_metric first),
       dg_decoded_value := Some (wp_decoded_value first)\<rparr>)"

definition assume_supported :: "'f diagnostics_packet \<Rightarrow> 'f diagnostics_packet" where
  "assume_supported d = d\<lparr>dg_unsupported_overlap_rejected := True,
     dg_unsupported_impairments_rejected := True,
     dg_synchronization_assumption := ''known message_start_sample = 0''\<rparr>"

definition GraphXAssembledMessageFromKernel ::
    "'f double_ops \<Rightarrow> 'f assembled_message \<Rightarrow> 'f message_packet" where
  "GraphXAssembledMessageFromKernel fl m =
     (let ps = map (GraphXDecodedPulseWordFromKernel fl) (am_ordered_pulses m) in
      \<lparr>mp_correlation = default_correlation, mp_ordered_pulses = ps,
       mp_active_frequency_indices = am_active_frequency_indices m,
       mp_preamble_lock = md_preamble_lock (am_diagnostics m),
       mp_diagnostics = assume_supported (describe_first ps (GraphXDiagnosticsFromKernel (am_diagnostics m))),
       mp_status = (if am_status m = AS_Ok then DS_Ok else DS_InvalidEvidence),
       mp_status_message = am_status_message m\<rparr>)"

section \<open>Round trips\<close>

lemma DetectedPulse_roundtrip [simp]:
  "DetectedPulseFromGraphX (GraphXPulseMetadataFromDetectedPulse fl p time_map) = p"
  by (simp add: DetectedPulseFromGraphX_def GraphXPulseMetadataFromDetectedPulse_def)

lemma SampleTimeMap_roundtrip [simp]:
  "SampleTimeMapFromGraphX (GraphXSampleTimeMapFromMergeMap fl m) = m"
  by (simp add: SampleTimeMapFromGraphX_def GraphXSampleTimeMapFromMergeMap_def)

lemma ComplexEvidence_roundtrip [simp]:
  "ComplexEvidenceFromGraphX (GraphXComplexEvidenceFromMergeEvidence e time_map) = e"
  by (simp add: ComplexEvidenceFromGraphX_def GraphXComplexEvidenceFromMergeEvidence_def)

lemma PulseCandidate_roundtrip [simp]:
  "PulseCandidateFromGraphX (GraphXPulseCandidateFromMergeCandidate fl c) = cw_candidate c"
  by (simp add: PulseCandidateFromGraphX_def GraphXPulseCandidateFromMergeCandidate_def Let_def)

text \<open>Only the slot indices and the kind of a failure are lost on the way of a word through the graph.\<close>

lemma DecodedPulseWord_roundtrip:
  "DecodedPulseWordFromGraphX (GraphXDecodedPulseWordFromKernel fl d) =
     d\<lparr>dw_candidate := \<lparr>pc_detected_pulse = word_pulse d, pc_provisional_slot_index = None,
          pc_final_slot_index = None\<rparr>,
       dw_status := if dw_status d = PW_Ok then PW_Ok else PW_InvalidPathMetric\<rparr>"
  by (simp add: DecodedPulseWordFromGraphX_def GraphXDecodedPulseWordFromKernel_def)

text \<open>
  Reading the samples of evidence: the window of the shared vector, all of it or nothing. The
  end of the window, a sum of 64-bit words, does not wrap around.
\<close>

lemma GraphXComplexEvidenceSamples_window:
  assumes "GraphXEvidenceHasHostComplexIq e" "ge_host_complex64_samples e = Some source"
    and "length source < 2 ^ 64"
  shows "GraphXComplexEvidenceSamples e =
           take (unat (ge_sample_count e)) (drop (unat (ge_sample_offset e)) source)"
    and "length (GraphXComplexEvidenceSamples e) = unat (ge_sample_count e)"
proof -
  have range: "unat (ge_sample_offset e) \<le> length source"
    "unat (ge_sample_count e) \<le> length source - unat (ge_sample_offset e)"
    using assms(1,2) by (auto simp: GraphXEvidenceHasHostComplexIq_def GraphXEvidenceRangeIsValid_def)
  have "unat (ge_sample_offset e + ge_sample_count e) = unat (ge_sample_offset e) + unat (ge_sample_count e)"
    using range assms(3) by (intro unat_add_lem [THEN iffD1]) simp
  then show window: "GraphXComplexEvidenceSamples e =
      take (unat (ge_sample_count e)) (drop (unat (ge_sample_offset e)) source)"
    using range assms(1,2) by (simp add: GraphXComplexEvidenceSamples_def)
  show "length (GraphXComplexEvidenceSamples e) = unat (ge_sample_count e)"
    using range by (simp add: window)
qed

lemma merge_evidence_usable:
  assumes "EvidenceRangeIsValid e" "ce_samples e \<noteq> None"
  shows "GraphXEvidenceHasHostComplexIq (GraphXComplexEvidenceFromMergeEvidence e time_map)"
  using assms
  by (auto simp: GraphXEvidenceHasHostComplexIq_def GraphXEvidenceRangeIsValid_def
      GraphXComplexEvidenceFromMergeEvidence_def EvidenceRangeIsValid_def)

end
