(* ===== verification/Fhss_Merge_Node.thy ===== *)
theory Fhss_Merge_Node
  imports Fhss_Packets Active_Queue
begin

text \<open>
  The node that merges the detections of the 64 channels
  (\<open>libdsp/include/dsp/fhss/FHSSPulseMergeNode.hpp\<close>) on top of the storage it inherits from
  \<open>TypedFixedFanNode\<close> (\<open>libgraph/include/graph/TypedFixedFanNode.hpp\<close>): one output queue per output
  port and the completion tracking of the inputs. Input port 0 takes detections that were already
  collected; ports 1 to 64 are the channels. \<open>ConsumeInput\<close> for a channel runs under one mutex, so a
  run of the node is a sequence of calls. The theorems show when the barrier over the channels opens
  and what comes out of it.
\<close>

section \<open>State\<close>

record ('f, 'z) merge_node =
  mn_config :: fhss_pulse_merge_config
  mn_output_queue0 :: "('f, 'z) candidate_packet control_token active_queue"
  mn_output_queue1 :: "('f, 'z) candidate_packet control_token active_queue"
  mn_input_completion :: required_input_completion
  mn_pending_per_channel_detections :: "('f, 'z) fhss_local_pulse_detection list"
  mn_batch_token_id :: "u64 option"
  mn_per_channel_output_emitted :: bool
  mn_last_merged_pulse_count :: nat

definition kPerChannelInputCount :: nat where
  "kPerChannelInputCount = unat kFrequencyCount"

definition MergeNode_NInputs :: nat where
  "MergeNode_NInputs = 1 + kPerChannelInputCount"

definition FHSSPulseMergeNode :: "fhss_pulse_merge_config \<Rightarrow> ('f, 'z) merge_node" where
  "FHSSPulseMergeNode config =
     \<lparr>mn_config = config, mn_output_queue0 = ActiveQueue 0 False, mn_output_queue1 = ActiveQueue 0 False,
      mn_input_completion = snd (SetRequired 0 False (RequiredInputCompletion MergeNode_NInputs)),
      mn_pending_per_channel_detections = [], mn_batch_token_id = None,
      mn_per_channel_output_emitted = False, mn_last_merged_pulse_count = 0\<rparr>"

section \<open>Operations\<close>

text \<open>\<open>Enqueue\<close> on an output queue, which has no bound: it returns without waiting.\<close>

definition EnqueueOutput :: "'e \<Rightarrow> 'e active_queue \<Rightarrow> bool \<times> 'e active_queue" where
  "EnqueueOutput output q =
     (case ActiveQueue_Enqueue_enter False 0 output q of Ret r \<Rightarrow> r | Wait \<Rightarrow> (False, q))"

definition ObserveInputControl ::
    "nat \<Rightarrow> edge_control \<Rightarrow> ('f, 'z) merge_node \<Rightarrow> bool \<times> ('f, 'z) merge_node" where
  "ObserveInputControl port control n =
     (case Observe port control (mn_input_completion n) of
        (b, c) \<Rightarrow> (b, n\<lparr>mn_input_completion := c\<rparr>))"

definition InputCompletionStatus :: "('f, 'z) merge_node \<Rightarrow> required_input_status" where
  "InputCompletionStatus n = Status (mn_input_completion n)"

definition DisableOutputQueues :: "('f, 'z) merge_node \<Rightarrow> ('f, 'z) merge_node" where
  "DisableOutputQueues n = n\<lparr>mn_output_queue0 := ActiveQueue_Disable (mn_output_queue0 n),
     mn_output_queue1 := ActiveQueue_Disable (mn_output_queue1 n)\<rparr>"

text \<open>A candidate token with the default sidecar.\<close>

definition candidate_token :: "u64 \<Rightarrow> edge_control \<Rightarrow> ('f, 'z) candidate_packet control_token" where
  "candidate_token token_id control = \<lparr>tk_token_id = token_id, tk_edge_control = control,
     tk_sidecar = \<lparr>cp_correlation = default_correlation, cp_ordered_candidates = [],
       cp_globally_ordered = False, cp_unsupported_overlap_rejected = True\<rparr>\<rparr>"

definition BuildOutput ::
    "'f double_ops \<Rightarrow> (('f, 'z) candidate_with_evidence list \<Rightarrow> ('f, 'z) candidate_with_evidence list) \<Rightarrow>
     u64 \<Rightarrow> ('f, 'z) fhss_local_pulse_detection list \<Rightarrow> ('f, 'z) merge_node \<Rightarrow>
     ('f, 'z) candidate_packet control_token \<times> ('f, 'z) merge_node" where
  "BuildOutput fl sorter token_id detections n =
     (let merged = FHSSPulseMergeKernel_Merge fl sorter (mn_config n) detections;
          candidates = map (GraphXPulseCandidateFromMergeCandidate fl) (mr_ordered_candidates merged)
      in (\<lparr>tk_token_id = token_id, tk_edge_control = Monostate,
           tk_sidecar = \<lparr>cp_correlation = default_correlation, cp_ordered_candidates = candidates,
             cp_globally_ordered = True, cp_unsupported_overlap_rejected = True\<rparr>\<rparr>,
          n\<lparr>mn_last_merged_pulse_count := length candidates\<rparr>))"

definition local_detections ::
    "'f gx_pulse_metadata list \<Rightarrow> ('f, 'z) gx_complex_evidence list \<Rightarrow>
     ('f, 'z) fhss_local_pulse_detection list" where
  "local_detections pulses evidence = map (\<lambda>(p, e). LocalPulseDetectionFromGraphX p e) (zip pulses evidence)"

definition MergeNode_Transfer ::
    "'f double_ops \<Rightarrow> (('f, 'z) candidate_with_evidence list \<Rightarrow> ('f, 'z) candidate_with_evidence list) \<Rightarrow>
     ('f, 'z) detected_evidence_packet control_token \<Rightarrow> ('f, 'z) merge_node \<Rightarrow>
     ('f, 'z) candidate_packet control_token option \<times> ('f, 'z) merge_node" where
  "MergeNode_Transfer fl sorter input n =
     (if length (de_detected_pulses (tk_sidecar input)) \<noteq> length (de_pulse_evidence (tk_sidecar input))
      then (None, n)
      else case BuildOutput fl sorter (tk_token_id input)
             (local_detections (de_detected_pulses (tk_sidecar input)) (de_pulse_evidence (tk_sidecar input))) n of
        (output, n') \<Rightarrow> (Some output, n'))"

definition ConsumeInput_detected ::
    "'f double_ops \<Rightarrow> (('f, 'z) candidate_with_evidence list \<Rightarrow> ('f, 'z) candidate_with_evidence list) \<Rightarrow>
     ('f, 'z) detected_evidence_packet control_token \<Rightarrow> ('f, 'z) merge_node \<Rightarrow>
     bool \<times> ('f, 'z) merge_node" where
  "ConsumeInput_detected fl sorter input n =
     (case MergeNode_Transfer fl sorter input n of
        (None, n') \<Rightarrow> (False, n')
      | (Some output, n') \<Rightarrow>
          (case EnqueueOutput output (mn_output_queue0 n') of
             (b, q) \<Rightarrow> (b, n'\<lparr>mn_output_queue0 := q\<rparr>)))"

definition emit :: "('f, 'z) candidate_packet control_token \<Rightarrow> ('f, 'z) merge_node \<Rightarrow>
    bool \<times> ('f, 'z) merge_node" where
  "emit output n =
     (case EnqueueOutput output (mn_output_queue1 n) of
        (b, q) \<Rightarrow> (b, n\<lparr>mn_pending_per_channel_detections := [], mn_per_channel_output_emitted := True,
                     mn_output_queue1 := q\<rparr>))"

text \<open>What follows when the control of the token was accepted: the barrier over the channels.\<close>

definition barrier ::
    "'f double_ops \<Rightarrow> (('f, 'z) candidate_with_evidence list \<Rightarrow> ('f, 'z) candidate_with_evidence list) \<Rightarrow>
     u64 \<Rightarrow> edge_control \<Rightarrow> ('f, 'z) merge_node \<Rightarrow> bool \<times> ('f, 'z) merge_node" where
  "barrier fl sorter batch control n =
     (let status = InputCompletionStatus n in
      if ris_outcome status = RI_Failed \<or> ris_outcome status = RI_Cancelled
      then emit (candidate_token batch control) n
      else if \<not> RequiredInputStatus_IsComplete status then (True, n)
      else case BuildOutput fl sorter batch (mn_pending_per_channel_detections n) n of
        (output, n') \<Rightarrow> emit (output\<lparr>tk_edge_control := EdgeEndOfStream\<rparr>) n')"

text \<open>A token of the batch: collect its detections, observe its control, then the barrier.\<close>

definition consume_batch ::
    "'f double_ops \<Rightarrow> (('f, 'z) candidate_with_evidence list \<Rightarrow> ('f, 'z) candidate_with_evidence list) \<Rightarrow>
     nat \<Rightarrow> u64 \<Rightarrow> ('f, 'z) per_channel_evidence_packet control_token \<Rightarrow> ('f, 'z) merge_node \<Rightarrow>
     bool \<times> ('f, 'z) merge_node" where
  "consume_batch fl sorter port batch input n =
     (let n1 = n\<lparr>mn_batch_token_id := Some batch,
            mn_pending_per_channel_detections := mn_pending_per_channel_detections n @
              local_detections (pe_detected_pulses (tk_sidecar input)) (pe_pulse_evidence (tk_sidecar input))\<rparr>
      in case ObserveInputControl port (tk_edge_control input) n1 of
           (observed, n2) \<Rightarrow>
             if \<not> observed then (False, n2\<lparr>mn_pending_per_channel_detections := []\<rparr>)
             else barrier fl sorter batch (tk_edge_control input) n2)"

definition ConsumeInput_channel ::
    "'f double_ops \<Rightarrow> (('f, 'z) candidate_with_evidence list \<Rightarrow> ('f, 'z) candidate_with_evidence list) \<Rightarrow>
     nat \<Rightarrow> ('f, 'z) per_channel_evidence_packet control_token \<Rightarrow> ('f, 'z) merge_node \<Rightarrow>
     bool \<times> ('f, 'z) merge_node" where
  "ConsumeInput_channel fl sorter port input n =
     (let pulses = pe_detected_pulses (tk_sidecar input);
          evidence = pe_pulse_evidence (tk_sidecar input);
          has_payload = (pulses \<noteq> [] \<or> evidence \<noteq> [])
      in if mn_per_channel_output_emitted n
         then (if has_payload then (False, n) else ObserveInputControl port (tk_edge_control input) n)
         else if length pulses \<noteq> length evidence then (False, n)
         else case mn_batch_token_id n of
           Some batch \<Rightarrow>
             if batch \<noteq> tk_token_id input
             then (False, (snd (ObserveInputControl port
                (EdgeFailure ''FHSS merge inputs must share one deterministic token_id'') n))
                  \<lparr>mn_pending_per_channel_detections := []\<rparr>)
             else consume_batch fl sorter port batch input n
         | None \<Rightarrow> consume_batch fl sorter port (tk_token_id input) input n)"

section \<open>Runs\<close>

text \<open>A run is a sequence of channel tokens in the order in which the node locks its mutex for them.\<close>

type_synonym ('f, 'z) channel_event = "nat \<times> ('f, 'z) per_channel_evidence_packet control_token"

definition channel_step ::
    "'f double_ops \<Rightarrow> (('f, 'z) candidate_with_evidence list \<Rightarrow> ('f, 'z) candidate_with_evidence list) \<Rightarrow>
     ('f, 'z) channel_event \<Rightarrow> bool list \<times> ('f, 'z) merge_node \<Rightarrow> bool list \<times> ('f, 'z) merge_node" where
  "channel_step fl sorter ev r =
     (case ConsumeInput_channel fl sorter (fst ev) (snd ev) (snd r) of (b, n) \<Rightarrow> (fst r @ [b], n))"

definition channel_run ::
    "'f double_ops \<Rightarrow> (('f, 'z) candidate_with_evidence list \<Rightarrow> ('f, 'z) candidate_with_evidence list) \<Rightarrow>
     ('f, 'z) channel_event list \<Rightarrow> ('f, 'z) merge_node \<Rightarrow> bool list \<times> ('f, 'z) merge_node" where
  "channel_run fl sorter es n = fold (channel_step fl sorter) es ([], n)"

lemma channel_run_snoc:
  "channel_run fl sorter (es @ [e]) n = channel_step fl sorter e (channel_run fl sorter es n)"
  by (simp add: channel_run_def)

lemma channel_run_Nil [simp]: "channel_run fl sorter [] n = ([], n)"
  by (simp add: channel_run_def)

section \<open>At most one batch\<close>

lemma EnqueueOutput_open:
  assumes "q_capacity q = 0" "\<not> q_exit q" "q_comparator q = None" "\<not> q_metrics_enabled q"
  shows "EnqueueOutput x q = (True, q\<lparr>q_deque := q_deque q @ [x]\<rparr>)"
  using assms
  by (simp add: EnqueueOutput_def ActiveQueue_Enqueue_enter_def is_full_def insert_element_def
      record_enqueue_def with_metrics_def)

definition emission_ok :: "('f, 'z) merge_node \<Rightarrow> bool" where
  "emission_ok n \<longleftrightarrow>
     (\<exists>xs. mn_output_queue1 n = (ActiveQueue 0 False)\<lparr>q_deque := xs\<rparr> \<and>
           length xs = (if mn_per_channel_output_emitted n then 1 else 0)) \<and>
     (mn_per_channel_output_emitted n \<longrightarrow> mn_pending_per_channel_detections n = [] \<and> mn_batch_token_id n \<noteq> None)"

lemma ObserveInputControl_frame [simp]:
  "mn_output_queue1 (snd (ObserveInputControl port control n)) = mn_output_queue1 n"
  "mn_per_channel_output_emitted (snd (ObserveInputControl port control n)) = mn_per_channel_output_emitted n"
  "mn_pending_per_channel_detections (snd (ObserveInputControl port control n)) = mn_pending_per_channel_detections n"
  "mn_batch_token_id (snd (ObserveInputControl port control n)) = mn_batch_token_id n"
  "mn_config (snd (ObserveInputControl port control n)) = mn_config n"
  "mn_input_completion (snd (ObserveInputControl port control n)) = snd (Observe port control (mn_input_completion n))"
  "fst (ObserveInputControl port control n) = fst (Observe port control (mn_input_completion n))"
  by (simp_all add: ObserveInputControl_def split: prod.split)

lemma emission_ok_emit:
  assumes "emission_ok n" "\<not> mn_per_channel_output_emitted n" "mn_batch_token_id n \<noteq> None"
  shows "emission_ok (snd (emit output n))"
  using assms
  by (auto simp: emission_ok_def emit_def EnqueueOutput_open ActiveQueue_def)

lemma emission_ok_barrier:
  assumes "emission_ok n" "\<not> mn_per_channel_output_emitted n" "mn_batch_token_id n \<noteq> None"
  shows "emission_ok (snd (barrier fl sorter batch control n))"
proof -
  have "emission_ok (n\<lparr>mn_last_merged_pulse_count := k\<rparr>)" for k
    using assms(1) by (simp add: emission_ok_def)
  then show ?thesis
    using assms by (auto simp: barrier_def BuildOutput_def Let_def intro!: emission_ok_emit)
qed

text \<open>The node with the detections of a token added, before its control is observed.\<close>

definition collected ::
    "u64 \<Rightarrow> ('f, 'z) per_channel_evidence_packet control_token \<Rightarrow> ('f, 'z) merge_node \<Rightarrow> ('f, 'z) merge_node" where
  "collected batch input n = n\<lparr>mn_batch_token_id := Some batch,
     mn_pending_per_channel_detections := mn_pending_per_channel_detections n @
       local_detections (pe_detected_pulses (tk_sidecar input)) (pe_pulse_evidence (tk_sidecar input))\<rparr>"

lemma consume_batch_eq:
  "consume_batch fl sorter port batch input n =
     (let r = ObserveInputControl port (tk_edge_control input) (collected batch input n)
      in if fst r then barrier fl sorter batch (tk_edge_control input) (snd r)
         else (False, (snd r)\<lparr>mn_pending_per_channel_detections := []\<rparr>))"
  by (simp add: consume_batch_def collected_def Let_def case_prod_beta del: ObserveInputControl_frame)

lemma emission_ok_batch:
  assumes "emission_ok n" "\<not> mn_per_channel_output_emitted n"
  shows "emission_ok (snd (consume_batch fl sorter port batch input n))"
proof -
  let ?m = "snd (ObserveInputControl port (tk_edge_control input) (collected batch input n))"
  have "emission_ok ?m" "\<not> mn_per_channel_output_emitted ?m" "mn_batch_token_id ?m \<noteq> None"
    using assms by (simp_all add: emission_ok_def collected_def)
  moreover from this have "emission_ok (?m\<lparr>mn_pending_per_channel_detections := []\<rparr>)"
    by (simp add: emission_ok_def)
  ultimately show ?thesis
    by (simp add: consume_batch_eq Let_def emission_ok_barrier)
qed

lemma emission_ok_step:
  assumes "emission_ok n"
  shows "emission_ok (snd (ConsumeInput_channel fl sorter port input n))"
proof -
  have "emission_ok (snd (ObserveInputControl port control n))"
    "emission_ok ((snd (ObserveInputControl port control n))\<lparr>mn_pending_per_channel_detections := []\<rparr>)" for control
    using assms by (simp_all add: emission_ok_def)
  then show ?thesis
    using assms emission_ok_batch [OF assms]
    by (auto simp: ConsumeInput_channel_def Let_def split: option.split)
qed

lemma channel_step_simps:
  "snd (channel_step fl sorter e r) = snd (ConsumeInput_channel fl sorter (fst e) (snd e) (snd r))"
  "fst (channel_step fl sorter e r) = fst r @ [fst (ConsumeInput_channel fl sorter (fst e) (snd e) (snd r))]"
  by (simp_all add: channel_step_def split: prod.split)

lemma emission_ok_run: "emission_ok n \<Longrightarrow> emission_ok (snd (channel_run fl sorter es n))"
  by (induction es rule: rev_induct) (simp_all add: channel_run_snoc channel_step_simps emission_ok_step)

lemma emission_ok_init: "emission_ok (FHSSPulseMergeNode config)"
  by (simp add: emission_ok_def FHSSPulseMergeNode_def ActiveQueue_def)

text \<open>
  For every sequence of tokens on the channel ports, in every order and with every control:
  the node puts at most one token on its per-channel output, exactly when it marks the batch as
  emitted, and from then on it holds no pending detections.
\<close>

theorem merge_emits_at_most_once:
  "let n = snd (channel_run fl sorter es (FHSSPulseMergeNode config)) in
     ActiveQueue_Size (mn_output_queue1 n) = (if mn_per_channel_output_emitted n then 1 else 0) \<and>
     (mn_per_channel_output_emitted n \<longrightarrow> mn_pending_per_channel_detections n = [])"
  using emission_ok_run [OF emission_ok_init, of fl sorter es config]
  by (auto simp: Let_def emission_ok_def ActiveQueue_Size_def)

section \<open>When the channels are complete\<close>

text \<open>
  An orderly run: every token carries the same id and as much evidence as pulses, and each channel
  sends tokens without control until it ends its stream, and nothing afterwards. The channels may
  interleave in any way.
\<close>

definition finished :: "('f, 'z) channel_event list \<Rightarrow> nat \<Rightarrow> bool" where
  "finished es port \<longleftrightarrow> (\<exists>e \<in> set es. fst e = port \<and> tk_edge_control (snd e) = EdgeEndOfStream)"

definition orderly_event :: "u64 \<Rightarrow> ('f, 'z) channel_event \<Rightarrow> bool" where
  "orderly_event t e \<longleftrightarrow> 1 \<le> fst e \<and> fst e \<le> kPerChannelInputCount \<and> tk_token_id (snd e) = t \<and>
     (tk_edge_control (snd e) = Monostate \<or> tk_edge_control (snd e) = EdgeEndOfStream) \<and>
     length (pe_detected_pulses (tk_sidecar (snd e))) = length (pe_pulse_evidence (tk_sidecar (snd e)))"

definition orderly :: "u64 \<Rightarrow> ('f, 'z) channel_event list \<Rightarrow> bool" where
  "orderly t es \<longleftrightarrow> (\<forall>i < length es. orderly_event t (es ! i) \<and> \<not> finished (take i es) (fst (es ! i)))"

definition all_finished :: "('f, 'z) channel_event list \<Rightarrow> bool" where
  "all_finished es \<longleftrightarrow> (\<forall>port \<in> {1..kPerChannelInputCount}. finished es port)"

definition event_detections :: "('f, 'z) channel_event \<Rightarrow> ('f, 'z) fhss_local_pulse_detection list" where
  "event_detections e =
     local_detections (pe_detected_pulses (tk_sidecar (snd e))) (pe_pulse_evidence (tk_sidecar (snd e)))"

lemma orderly_snoc:
  "orderly t (es @ [e]) \<longleftrightarrow> orderly t es \<and> orderly_event t e \<and> \<not> finished es (fst e)"
  by (auto simp: orderly_def nth_append less_Suc_eq)

lemma finished_snoc:
  "finished (es @ [e]) port \<longleftrightarrow>
     finished es port \<or> fst e = port \<and> tk_edge_control (snd e) = EdgeEndOfStream"
  by (auto simp: finished_def)

text \<open>What the completion tracking and the node hold while channels are still open.\<close>

definition tracks :: "('f, 'z) channel_event list \<Rightarrow> required_input_completion \<Rightarrow> bool" where
  "tracks es c \<longleftrightarrow> input_count c = MergeNode_NInputs \<and> length (rc_observed c) = MergeNode_NInputs \<and>
     length (rc_terminal c) = MergeNode_NInputs \<and> length (rc_controls c) = MergeNode_NInputs \<and>
     (\<forall>i < MergeNode_NInputs. (rc_required c ! i \<longleftrightarrow> 0 < i) \<and> (rc_terminal c ! i \<longleftrightarrow> finished es i) \<and>
        rc_controls c ! i = (if finished es i then EdgeEndOfStream else Monostate))"

lemma tracks_observe:
  assumes "tracks es c" "orderly_event t e" "\<not> finished es (fst e)"
  shows "fst (Observe (fst e) (tk_edge_control (snd e)) c)"
    and "tracks (es @ [e]) (snd (Observe (fst e) (tk_edge_control (snd e)) c))"
proof -
  have port: "fst e < input_count c" "rc_required c ! fst e" "\<not> rc_terminal c ! fst e"
    using assms by (auto simp: tracks_def orderly_event_def MergeNode_NInputs_def)
  have control: "tk_edge_control (snd e) = Monostate \<or> tk_edge_control (snd e) = EdgeEndOfStream"
    using assms(2) by (simp add: orderly_event_def)
  show "fst (Observe (fst e) (tk_edge_control (snd e)) c)"
    using port control by (auto simp: Observe_def Let_def)
  show "tracks (es @ [e]) (snd (Observe (fst e) (tk_edge_control (snd e)) c))"
    using control
  proof
    assume "tk_edge_control (snd e) = Monostate"
    then show ?thesis
      using assms(1) port by (simp add: tracks_def Observe_def finished_snoc input_count_def)
  next
    assume "tk_edge_control (snd e) = EdgeEndOfStream"
    then show ?thesis
      using assms(1) port
      by (simp add: tracks_def Observe_def Let_def finished_snoc input_count_def nth_list_update eq_commute)
  qed
qed

lemma tracks_status:
  assumes "tracks es c"
  shows "ris_outcome (Status c) = (if all_finished es then RI_Complete else RI_Open)"
proof -
  have ports: "set (required_ports c) = {1..kPerChannelInputCount}"
    using assms by (auto simp: required_ports_def tracks_def MergeNode_NInputs_def)
  have "rc_controls c ! i = (if finished es i then EdgeEndOfStream else Monostate)"
    "rc_terminal c ! i \<longleftrightarrow> finished es i" if "i \<in> {1..kPerChannelInputCount}" for i
    using that assms by (auto simp: tracks_def MergeNode_NInputs_def)
  then have "status_outcome False c = (if all_finished es then RI_Complete else RI_Open)"
    unfolding status_outcome_def all_finished_def ports by (auto split: if_splits)
  then show ?thesis
    using BuildStatus_closed [of False c] by (simp add: Status_def)
qed

definition collecting ::
    "fhss_pulse_merge_config \<Rightarrow> u64 \<Rightarrow> ('f, 'z) channel_event list \<Rightarrow> ('f, 'z) merge_node \<Rightarrow> bool" where
  "collecting config t es n \<longleftrightarrow> mn_config n = config \<and> mn_output_queue1 n = ActiveQueue 0 False \<and>
     \<not> mn_per_channel_output_emitted n \<and>
     mn_pending_per_channel_detections n = concat (map event_detections es) \<and>
     (mn_batch_token_id n = None \<or> mn_batch_token_id n = Some t) \<and> tracks es (mn_input_completion n)"

definition merged_token ::
    "'f double_ops \<Rightarrow> (('f, 'z) candidate_with_evidence list \<Rightarrow> ('f, 'z) candidate_with_evidence list) \<Rightarrow>
     fhss_pulse_merge_config \<Rightarrow> u64 \<Rightarrow> ('f, 'z) fhss_local_pulse_detection list \<Rightarrow>
     ('f, 'z) candidate_packet control_token" where
  "merged_token fl sorter config t detections =
     \<lparr>tk_token_id = t, tk_edge_control = EdgeEndOfStream,
      tk_sidecar = \<lparr>cp_correlation = default_correlation,
        cp_ordered_candidates = map (GraphXPulseCandidateFromMergeCandidate fl)
          (mr_ordered_candidates (FHSSPulseMergeKernel_Merge fl sorter config detections)),
        cp_globally_ordered = True, cp_unsupported_overlap_rejected = True\<rparr>\<rparr>"

lemma collecting_step:
  fixes fl :: "'f double_ops"
    and sorter :: "('f, 'z) candidate_with_evidence list \<Rightarrow> ('f, 'z) candidate_with_evidence list"
  assumes "collecting config t es n" "orderly_event t e" "\<not> finished es (fst e)"
  defines "r \<equiv> ConsumeInput_channel fl sorter (fst e) (snd e) n"
  shows "fst r"
    and "\<not> all_finished (es @ [e]) \<Longrightarrow> collecting config t (es @ [e]) (snd r)"
    and "all_finished (es @ [e]) \<Longrightarrow> q_deque (mn_output_queue1 (snd r)) =
           [merged_token fl sorter config t (concat (map event_detections (es @ [e])))]"
proof -
  let ?n = "collected t (snd e) n" and ?o = "ObserveInputControl (fst e) (tk_edge_control (snd e))"
  have batch: "r = consume_batch fl sorter (fst e) t (snd e) n"
    using assms by (auto simp: r_def ConsumeInput_channel_def collecting_def orderly_event_def Let_def
        split: option.split)
  have t: "tracks es (mn_input_completion ?n)"
    using assms(1) by (simp add: collecting_def collected_def)
  note obs = tracks_observe [OF t assms(2,3)]
  have observed: "collecting config t (es @ [e]) (snd (?o ?n))"
    using assms(1) obs(2) by (simp add: collecting_def collected_def event_detections_def)
  have status: "ris_outcome (InputCompletionStatus (snd (?o ?n))) =
      (if all_finished (es @ [e]) then RI_Complete else RI_Open)"
    using tracks_status [OF obs(2)] by (simp add: InputCompletionStatus_def)
  have r: "r = barrier fl sorter t (tk_edge_control (snd e)) (snd (?o ?n))"
    using obs(1) by (simp add: batch consume_batch_eq Let_def)
  show "\<not> all_finished (es @ [e]) \<Longrightarrow> collecting config t (es @ [e]) (snd r)"
    using observed status by (simp add: r barrier_def RequiredInputStatus_IsComplete_def)
  have opened: "r = emit (merged_token fl sorter config t (concat (map event_detections (es @ [e]))))
      ((snd (?o ?n))\<lparr>mn_last_merged_pulse_count := length (mr_ordered_candidates
         (FHSSPulseMergeKernel_Merge fl sorter config (concat (map event_detections (es @ [e])))))\<rparr>)"
    if "all_finished (es @ [e])"
    using observed status that
    by (simp add: r barrier_def RequiredInputStatus_IsComplete_def BuildOutput_def merged_token_def
        collecting_def Let_def)
  have queue: "mn_output_queue1 (snd (?o ?n)) = ActiveQueue 0 False"
    using observed by (simp add: collecting_def)
  show "all_finished (es @ [e]) \<Longrightarrow> q_deque (mn_output_queue1 (snd r)) =
      [merged_token fl sorter config t (concat (map event_detections (es @ [e])))]"
    using queue by (simp add: opened emit_def EnqueueOutput_open ActiveQueue_def)
  show "fst r"
  proof (cases "all_finished (es @ [e])")
    case True
    then show ?thesis using queue by (simp add: opened emit_def EnqueueOutput_open ActiveQueue_def)
  next
    case False
    then show ?thesis using status by (simp add: r barrier_def RequiredInputStatus_IsComplete_def)
  qed
qed

lemma collecting_init: "collecting config t [] (FHSSPulseMergeNode config)"
  by (auto simp: collecting_def FHSSPulseMergeNode_def tracks_def finished_def SetRequired_def
      RequiredInputCompletion_def MergeNode_NInputs_def input_count_def nth_Cons')

lemma last_event_finishes:
  assumes "orderly t (es @ [e])"
  shows "\<not> all_finished es"
  using assms by (auto simp: orderly_snoc orderly_event_def all_finished_def)

lemma orderly_run:
  fixes fl :: "'f double_ops"
    and sorter :: "('f, 'z) candidate_with_evidence list \<Rightarrow> ('f, 'z) candidate_with_evidence list"
    and config :: fhss_pulse_merge_config
  assumes "orderly t es"
  defines "r \<equiv> channel_run fl sorter es (FHSSPulseMergeNode config)"
  shows "False \<notin> set (fst r) \<and>
    (if all_finished es
     then q_deque (mn_output_queue1 (snd r)) =
            [merged_token fl sorter config t (concat (map event_detections es))]
     else collecting config t es (snd r))"
  using assms(1) unfolding r_def
proof (induction es rule: rev_induct)
  case Nil
  have "\<not> all_finished ([] :: ('f, 'z) channel_event list)"
    by (auto simp: all_finished_def finished_def kPerChannelInputCount_def kFrequencyCount_def)
  then show ?case by (simp add: collecting_init)
next
  case (snoc e es)
  let ?n = "snd (channel_run fl sorter es (FHSSPulseMergeNode config))"
  have prefix: "orderly t es" "orderly_event t e" "\<not> finished es (fst e)"
    using snoc.prems by (simp_all add: orderly_snoc)
  with snoc.IH last_event_finishes [OF snoc.prems]
  have ih: "collecting config t es ?n" "False \<notin> set (fst (channel_run fl sorter es (FHSSPulseMergeNode config)))"
    by simp_all
  show ?case
    using collecting_step [OF ih(1) prefix(2,3), of fl sorter] ih(2)
    by (simp add: channel_run_snoc channel_step_simps)
qed

text \<open>
  The barrier over the channels. In an orderly run every call succeeds, nothing is emitted
  while one of the 64 channels is open, and as soon as the last one has ended its stream the node
  emits one token that ends the stream and carries the merge of all detections of all channels, for
  every interleaving of the channels.
\<close>

theorem channels_merge_when_complete:
  fixes fl :: "'f double_ops"
    and sorter :: "('f, 'z) candidate_with_evidence list \<Rightarrow> ('f, 'z) candidate_with_evidence list"
    and config :: fhss_pulse_merge_config
  assumes "orderly t es"
  defines "r \<equiv> channel_run fl sorter es (FHSSPulseMergeNode config)"
  shows "False \<notin> set (fst r) \<and>
    q_deque (mn_output_queue1 (snd r)) =
      (if all_finished es then [merged_token fl sorter config t (concat (map event_detections es))] else [])"
  using orderly_run [OF assms(1), of fl sorter config]
  by (auto simp: r_def collecting_def ActiveQueue_def split: if_splits)

text \<open>All 64 channels end an empty stream: one token, with the merge of no detections.\<close>

definition quiet_token :: "edge_control \<Rightarrow> u64 \<Rightarrow> (int, int) per_channel_evidence_packet control_token" where
  "quiet_token control t = \<lparr>tk_token_id = t, tk_edge_control = control,
     tk_sidecar = \<lparr>pe_correlation = default_correlation, pe_channel = default_channel_metadata int_double,
       pe_detected_pulses = [], pe_pulse_evidence = [], pe_channel_iq = default_complex_evidence int_double\<rparr>\<rparr>"

definition quiet_channels :: "(int, int) channel_event list" where
  "quiet_channels = map (\<lambda>port. (port, quiet_token EdgeEndOfStream 7)) [1..<65]"

theorem channels_merge_when_complete_witness:
  "q_deque (mn_output_queue1 (snd (channel_run int_double id quiet_channels
      (FHSSPulseMergeNode sample_merge_config)))) = [merged_token int_double id sample_merge_config 7 []]"
proof -
  have count: "kPerChannelInputCount = 64" by (simp add: kPerChannelInputCount_def kFrequencyCount_def)
  have "orderly 7 quiet_channels"
    by (auto simp: orderly_def orderly_event_def finished_def quiet_channels_def quiet_token_def count
        in_set_conv_nth)
  moreover have "all_finished quiet_channels"
    by (auto simp: all_finished_def finished_def quiet_channels_def quiet_token_def count)
  moreover have "map event_detections quiet_channels = replicate 64 []"
    by (simp add: list_eq_iff_nth_eq quiet_channels_def quiet_token_def event_detections_def local_detections_def)
  ultimately show ?thesis
    using channels_merge_when_complete [of 7 quiet_channels int_double id sample_merge_config] by simp
qed

section \<open>A failure that is not passed on\<close>

lemma failed_port_fails_status:
  assumes "port \<in> set (required_ports c)" "is_EdgeFailure (rc_controls c ! port)"
  shows "ris_outcome (Status c) = RI_Failed"
  using assms BuildStatus_closed [of False c] by (auto simp: Status_def status_outcome_def)

lemma foreign_token_fails_channel:
  fixes fl :: "'f double_ops"
    and sorter :: "('f, 'z) candidate_with_evidence list \<Rightarrow> ('f, 'z) candidate_with_evidence list"
  assumes "collecting config t es n" "mn_batch_token_id n = Some t" "tk_token_id foreign \<noteq> t"
    and "1 \<le> port" "port \<le> kPerChannelInputCount" "\<not> finished es port"
    and "length (pe_detected_pulses (tk_sidecar foreign)) = length (pe_pulse_evidence (tk_sidecar foreign))"
  defines "r \<equiv> ConsumeInput_channel fl sorter port foreign n"
  shows "\<not> fst r" "mn_output_queue1 (snd r) = ActiveQueue 0 False"
    "\<not> mn_per_channel_output_emitted (snd r)" "mn_batch_token_id (snd r) = Some t"
    "mn_input_completion (snd r) = snd (Observe port
       (EdgeFailure ''FHSS merge inputs must share one deterministic token_id'') (mn_input_completion n))"
  using assms by (simp_all add: r_def ConsumeInput_channel_def collecting_def Let_def)

text \<open>
  A token with a foreign id fails its channel, and the node says nothing downstream. The failure is
  noticed with the next token of the batch on another channel, and the emitted token carries the
  control of that token: when it ends its stream, the failed batch looks like an empty one that
  ended normally.
\<close>

theorem merge_failure_looks_like_end_of_stream:
  fixes fl :: "'f double_ops"
    and sorter :: "('f, 'z) candidate_with_evidence list \<Rightarrow> ('f, 'z) candidate_with_evidence list"
    and n :: "('f, 'z) merge_node"
  assumes "collecting config t es n" "mn_batch_token_id n = Some t" "tk_token_id foreign \<noteq> t"
    and port: "1 \<le> port" "port \<le> kPerChannelInputCount" "\<not> finished es port"
    and "length (pe_detected_pulses (tk_sidecar foreign)) = length (pe_pulse_evidence (tk_sidecar foreign))"
    and e: "orderly_event t e" "\<not> finished es (fst e)" "fst e \<noteq> port" "tk_edge_control (snd e) = EdgeEndOfStream"
  shows "q_deque (mn_output_queue1 (snd (ConsumeInput_channel fl sorter (fst e) (snd e)
      (snd (ConsumeInput_channel fl sorter port foreign n))))) = [candidate_token t EdgeEndOfStream]"
proof -
  let ?m = "snd (ConsumeInput_channel fl sorter port foreign n)"
  let ?c = "mn_input_completion ?m" and ?o = "ObserveInputControl (fst e) EdgeEndOfStream (collected t (snd e) ?m)"
  note m = foreign_token_fails_channel [OF assms(1-7), of fl sorter]
  have tracked: "tracks es (mn_input_completion n)" using assms(1) by (simp add: collecting_def)
  have c: "input_count ?c = MergeNode_NInputs" "is_EdgeFailure (rc_controls ?c ! port)"
    "rc_required ?c = rc_required (mn_input_completion n)" "\<not> rc_terminal ?c ! fst e"
    using tracked port e by (auto simp: m(5) tracks_def Observe_def Let_def input_count_def MergeNode_NInputs_def
        orderly_event_def)
  have q: "fst e < MergeNode_NInputs" "rc_required ?c ! fst e" "port < MergeNode_NInputs" "rc_required ?c ! port"
    using tracked port e by (auto simp: c(3) tracks_def orderly_event_def MergeNode_NInputs_def)
  have observed: "fst ?o" "is_EdgeFailure (rc_controls (mn_input_completion (snd ?o)) ! port)"
    "required_ports (mn_input_completion (snd ?o)) = required_ports ?c"
    using c q e(3) by (auto simp: collected_def Observe_def Let_def required_ports_def input_count_def)
  have "port \<in> set (required_ports ?c)" using c(1) q by (simp add: required_ports_def)
  then have "ris_outcome (InputCompletionStatus (snd ?o)) = RI_Failed"
    using failed_port_fails_status [of port "mn_input_completion (snd ?o)"] observed
    by (simp add: InputCompletionStatus_def)
  then have "ConsumeInput_channel fl sorter (fst e) (snd e) ?m = emit (candidate_token t EdgeEndOfStream) (snd ?o)"
    using m e observed(1)
    by (simp add: ConsumeInput_channel_def Let_def orderly_event_def consume_batch_eq barrier_def)
  then show ?thesis
    using m(2) by (simp add: emit_def collected_def EnqueueOutput_open ActiveQueue_def)
qed

text \<open>A refused control discards the detections of all channels; the batch still completes without them.\<close>

theorem refused_control_discards_the_batch:
  assumes "\<not> mn_per_channel_output_emitted n" "mn_batch_token_id n = Some (tk_token_id input)"
    and "length (pe_detected_pulses (tk_sidecar input)) = length (pe_pulse_evidence (tk_sidecar input))"
    and "\<not> fst (Observe port (tk_edge_control input) (mn_input_completion n))"
  shows "\<not> fst (ConsumeInput_channel fl sorter port input n) \<and>
    mn_pending_per_channel_detections (snd (ConsumeInput_channel fl sorter port input n)) = [] \<and>
    \<not> mn_per_channel_output_emitted (snd (ConsumeInput_channel fl sorter port input n)) \<and>
    Status (mn_input_completion (snd (ConsumeInput_channel fl sorter port input n))) =
      Status (snd (Observe port (tk_edge_control input) (mn_input_completion n)))"
  using assms by (simp add: ConsumeInput_channel_def consume_batch_eq collected_def)

end
