(* ===== verification/Results.thy ===== *)
theory Results
  imports Prelude
begin

text \<open>
  Sequencing of fallible steps: the code returns from a function as soon as a step has failed.
  \<open>bind_ok\<close> continues with the value of a successful step, and \<open>collect\<close> is a loop that appends
  the result of each step and returns the first failure.
\<close>

definition bind_ok :: "('a, 'e) expected \<Rightarrow> ('a \<Rightarrow> ('b, 'e) expected) \<Rightarrow> ('b, 'e) expected" where
  "bind_ok r f = (case r of Inl e \<Rightarrow> Inl e | Inr x \<Rightarrow> f x)"

fun collect :: "('a \<Rightarrow> ('b, 'e) expected) \<Rightarrow> 'a list \<Rightarrow> ('b list, 'e) expected" where
  "collect f [] = Inr []"
| "collect f (x # xs) =
     (case f x of
        Inl e \<Rightarrow> Inl e
      | Inr y \<Rightarrow> (case collect f xs of Inl e \<Rightarrow> Inl e | Inr ys \<Rightarrow> Inr (y # ys)))"

lemma bind_ok_simps [simp]:
  "bind_ok (Inl e) f = Inl e" "bind_ok (Inr x) f = f x"
  by (simp_all add: bind_ok_def)

lemma bind_ok_Inr_iff: "bind_ok r f = Inr y \<longleftrightarrow> (\<exists>x. r = Inr x \<and> f x = Inr y)"
  by (cases r) auto

lemma has_value_iff: "has_value r \<longleftrightarrow> (\<exists>x. r = Inr x)"
  by (cases r) (auto simp: has_value_def)

lemma has_value_bind_ok: "has_value (bind_ok r f) \<longleftrightarrow> (\<exists>x. r = Inr x \<and> has_value (f x))"
  by (cases r) (auto simp: has_value_def)

lemma collect_Inr_iff:
  "collect f xs = Inr ys \<longleftrightarrow> list_all2 (\<lambda>x y. f x = Inr y) xs ys"
proof (induction xs arbitrary: ys)
  case (Cons x xs)
  have "collect f (x # xs) = Inr ys \<longleftrightarrow> (\<exists>y zs. f x = Inr y \<and> collect f xs = Inr zs \<and> ys = y # zs)"
    by (auto split: sum.splits)
  with Cons.IH show ?case by (auto simp: list_all2_Cons1)
qed auto

lemma collect_total:
  "(\<And>x. x \<in> set xs \<Longrightarrow> f x = Inr (g x)) \<Longrightarrow> collect f xs = Inr (map g xs)"
  by (simp add: collect_Inr_iff list_all2_conv_all_nth)

lemma collect_fails_iff: "(\<exists>e. collect f xs = Inl e) \<longleftrightarrow> (\<exists>x \<in> set xs. \<exists>e. f x = Inl e)"
  by (induction xs) (auto split: sum.splits)

lemma collect_length: "collect f xs = Inr ys \<Longrightarrow> length ys = length xs"
  by (auto simp: collect_Inr_iff dest: list_all2_lengthD)

lemma collect_has_value: "has_value (collect f xs) \<longleftrightarrow> (\<forall>x \<in> set xs. has_value (f x))"
  by (induction xs) (auto simp: has_value_def split: sum.splits)

end
