(* ===== verification/Fhss_Receiver.thy ===== *)
theory Fhss_Receiver
  imports Fhss_Packets Results
begin

text \<open>
  The nodes of the FHSS receiver graph behind the merge node, each with its \<open>Transfer\<close> method
  (\<open>CPSMBranchMetricNode.hpp\<close>, \<open>CPSMViterbiDecoderNode.hpp\<close>, \<open>FHSSPulseWordDecoderNode.hpp\<close>,
  \<open>FHSSPreambleDetectorNode.hpp\<close>, \<open>FHSSMessageAssemblerNode.hpp\<close>, \<open>FHSSMessageSinkNode.hpp\<close> under
  \<open>libdsp/include/dsp/fhss/\<close>), and their composition from candidates to a message. The counters and
  the rejection text a node keeps for its diagnostics are part of its result; the transfer
  functions of the other nodes have no state.
\<close>

section \<open>Branch metrics\<close>

record branch_metric_node =
  bn_last_metric_pulse_count :: nat
  bn_last_rejection_reason :: string

text \<open>The checks on the evidence of a candidate, with the text each leaves behind.\<close>

definition candidate_samples ::
    "'f double_ops \<Rightarrow> ('f, 'z) complex_ops \<Rightarrow> ('f, 'z) gx_pulse_candidate \<Rightarrow> string + 'z list" where
  "candidate_samples fl zl c =
     (if \<not> GraphXEvidenceHasHostComplexIq (gk_complex_evidence c)
      then Inl ''candidate has no usable complex evidence''
      else let samples = GraphXComplexEvidenceSamples (gk_complex_evidence c) in
      if samples = [] then Inl ''candidate evidence range is empty or invalid''
      else let expanded = FHSSExpandDecimatedCpsmEvidence fl zl samples
             (gt_decimation_factor (gp_sample_time_map (gm_timing (gk_pulse c)))) in
      if expanded = [] then Inl ''candidate decimation cannot be expanded to canonical evidence''
      else Inr expanded)"

definition candidate_metric ::
    "'f double_ops \<Rightarrow> ('f, 'z) complex_ops \<Rightarrow> 'f cpsm_decoder_config \<Rightarrow> ('f, 'z) gx_pulse_candidate \<Rightarrow>
     string + ('f, 'z) pulse_branch_metric" where
  "candidate_metric fl zl config c =
     (case candidate_samples fl zl c of
        Inl reason \<Rightarrow> Inl reason
      | Inr samples \<Rightarrow>
          (case Compute fl zl samples config of
             Inl e \<Rightarrow> Inl (ve_message e)
           | Inr metrics \<Rightarrow> Inr \<lparr>pm_candidate = c, pm_branch_costs = map bm_cost metrics,
               pm_trellis_state_count = CPSMPhaseStateCount fl (cd_modulation_index config),
               pm_best_path_metric = fd_of_int fl 0, pm_second_best_path_metric = fd_of_int fl 0\<rparr>))"

definition branch_metric_output ::
    "'f double_ops \<Rightarrow> ('f, 'z) candidate_packet control_token \<Rightarrow> ('f, 'z) pulse_branch_metric list \<Rightarrow>
     ('f, 'z) branch_metric_packet control_token" where
  "branch_metric_output fl input metrics =
     \<lparr>tk_token_id = tk_token_id input, tk_edge_control = tk_edge_control input,
      tk_sidecar = \<lparr>bp_correlation = cp_correlation (tk_sidecar input),
        bp_candidate = (case metrics of [] \<Rightarrow> default_candidate fl | m # _ \<Rightarrow> pm_candidate m),
        bp_branch_costs = (case metrics of [] \<Rightarrow> [] | m # _ \<Rightarrow> pm_branch_costs m),
        bp_pulse_metrics = metrics,
        bp_trellis_state_count = (case metrics of [] \<Rightarrow> 0 | m # _ \<Rightarrow> pm_trellis_state_count m),
        bp_best_path_metric = fd_of_int fl 0, bp_second_best_path_metric = fd_of_int fl 0\<rparr>\<rparr>"

definition BranchMetricNode_Transfer ::
    "'f double_ops \<Rightarrow> ('f, 'z) complex_ops \<Rightarrow> 'f cpsm_decoder_config \<Rightarrow>
     ('f, 'z) candidate_packet control_token \<Rightarrow> branch_metric_node \<Rightarrow>
     ('f, 'z) branch_metric_packet control_token option \<times> branch_metric_node" where
  "BranchMetricNode_Transfer fl zl config input node =
     (if cp_ordered_candidates (tk_sidecar input) = []
      then (Some (branch_metric_output fl input []),
            node\<lparr>bn_last_metric_pulse_count := 0, bn_last_rejection_reason := ''''\<rparr>)
      else case collect (candidate_metric fl zl config) (cp_ordered_candidates (tk_sidecar input)) of
        Inl reason \<Rightarrow> (None, node\<lparr>bn_last_rejection_reason := reason\<rparr>)
      | Inr metrics \<Rightarrow>
          (Some (branch_metric_output fl input metrics),
           node\<lparr>bn_last_metric_pulse_count := length metrics, bn_last_rejection_reason := ''''\<rparr>))"

section \<open>Symbol decisions\<close>

definition candidate_decision ::
    "'f double_ops \<Rightarrow> ('f, 'z) complex_ops \<Rightarrow> 'f cpsm_decoder_config \<Rightarrow> ('f, 'z) pulse_branch_metric \<Rightarrow>
     string + 'f pulse_symbol_decision" where
  "candidate_decision fl zl config metric =
     (case candidate_samples fl zl (pm_candidate metric) of
        Inl reason \<Rightarrow> Inl reason
      | Inr samples \<Rightarrow>
          (case CPSMViterbiDecoderKernel_Decode fl zl samples config of
             Inl e \<Rightarrow> Inl (ve_message e)
           | Inr decoded \<Rightarrow> Inr \<lparr>ps_pulse = gk_pulse (pm_candidate metric),
               ps_symbols = vr_symbols decoded, ps_phase_states = vr_phase_states decoded,
               ps_best_path_metric = vr_best_path_metric decoded,
               ps_second_best_path_metric = vr_second_best_path_metric decoded,
               ps_confidence = vr_confidence decoded, ps_status = DS_Ok, ps_status_message = ''Ok''\<rparr>))"

definition decision_output ::
    "'f double_ops \<Rightarrow> ('f, 'z) branch_metric_packet control_token \<Rightarrow> 'f pulse_symbol_decision list \<Rightarrow>
     'f symbol_decision_packet control_token" where
  "decision_output fl input decisions =
     (let z = fd_of_int fl 0; base =
        \<lparr>sd_correlation = bp_correlation (tk_sidecar input), sd_pulse = default_pulse_metadata fl,
         sd_symbols = [], sd_phase_states = [], sd_pulse_decisions = decisions,
         sd_best_path_metric = z, sd_second_best_path_metric = z, sd_confidence = z,
         sd_status = DS_Ok, sd_status_message = ''''\<rparr>
      in \<lparr>tk_token_id = tk_token_id input, tk_edge_control = tk_edge_control input,
          tk_sidecar = (case decisions of
             [] \<Rightarrow> base
           | d # _ \<Rightarrow> base\<lparr>sd_pulse := ps_pulse d, sd_symbols := ps_symbols d,
               sd_phase_states := ps_phase_states d, sd_best_path_metric := ps_best_path_metric d,
               sd_second_best_path_metric := ps_second_best_path_metric d,
               sd_confidence := ps_confidence d, sd_status := ps_status d,
               sd_status_message := ps_status_message d\<rparr>)\<rparr>)"

definition ViterbiNode_Transfer ::
    "'f double_ops \<Rightarrow> ('f, 'z) complex_ops \<Rightarrow> 'f cpsm_decoder_config \<Rightarrow>
     ('f, 'z) branch_metric_packet control_token \<Rightarrow> nat \<Rightarrow>
     'f symbol_decision_packet control_token option \<times> nat" where
  "ViterbiNode_Transfer fl zl config input last_count =
     (let packet = tk_sidecar input in
      if bp_pulse_metrics packet = [] \<and> bp_branch_costs packet = [] \<and>
         \<not> GraphXEvidenceHasHostComplexIq (gk_complex_evidence (bp_candidate packet))
      then (Some (decision_output fl input []), 0)
      else
        let metrics = (if bp_pulse_metrics packet = []
              then [\<lparr>pm_candidate = bp_candidate packet, pm_branch_costs = [], pm_trellis_state_count = 0,
                     pm_best_path_metric = fd_of_int fl 0, pm_second_best_path_metric = fd_of_int fl 0\<rparr>]
              else bp_pulse_metrics packet)
        in case collect (candidate_decision fl zl config) metrics of
             Inl _ \<Rightarrow> (None, last_count)
           | Inr decisions \<Rightarrow> (Some (decision_output fl input decisions), length decisions))"

section \<open>Pulse words\<close>

definition decode_decision ::
    "'f double_ops \<Rightarrow> 'f \<Rightarrow> 'f pulse_symbol_decision \<Rightarrow> 'f word_packet" where
  "decode_decision fl minimum_confidence d =
     (let viterbi = \<lparr>vr_symbols = ps_symbols d, vr_phase_states = ps_phase_states d,
            vr_best_path_metric = ps_best_path_metric d,
            vr_second_best_path_metric = ps_second_best_path_metric d,
            vr_confidence = ps_confidence d, vr_terminal_phase_checked = False,
            vr_terminal_phase_state = 0\<rparr>;
          candidate = \<lparr>pc_detected_pulse = DetectedPulseFromGraphX (ps_pulse d),
            pc_provisional_slot_index = None, pc_final_slot_index = None\<rparr>
      in (GraphXDecodedPulseWordFromKernel fl
            (FHSSPulseWordDecoderKernel_Decode fl candidate viterbi minimum_confidence))
         \<lparr>wp_pulse := ps_pulse d\<rparr>)"

definition WordDecoderNode_Transfer ::
    "'f double_ops \<Rightarrow> 'f \<Rightarrow> 'f symbol_decision_packet control_token \<Rightarrow>
     'f words_packet control_token \<times> nat" where
  "WordDecoderNode_Transfer fl minimum_confidence input =
     (let packet = tk_sidecar input;
          output = (\<lambda>words. \<lparr>tk_token_id = tk_token_id input, tk_edge_control = tk_edge_control input,
            tk_sidecar = \<lparr>ws_correlation = sd_correlation packet, ws_decoded_pulses = words,
              ws_globally_ordered = True\<rparr>\<rparr>)
      in if sd_pulse_decisions packet = [] \<and> sd_symbols packet = [] then (output [], 0)
         else
           let decisions = (if sd_pulse_decisions packet = []
                 then [\<lparr>ps_pulse = sd_pulse packet, ps_symbols = sd_symbols packet,
                        ps_phase_states = sd_phase_states packet,
                        ps_best_path_metric = sd_best_path_metric packet,
                        ps_second_best_path_metric = sd_second_best_path_metric packet,
                        ps_confidence = sd_confidence packet, ps_status = sd_status packet,
                        ps_status_message = sd_status_message packet\<rparr>]
                 else sd_pulse_decisions packet);
               words = map (decode_decision fl minimum_confidence) decisions
           in (output words, length words))"

section \<open>Preamble and message\<close>

definition PreambleDetectorNode_Transfer ::
    "('f fhss_decoded_pulse_word list \<Rightarrow> 'f fhss_decoded_pulse_word list) \<Rightarrow>
     fhss_preamble_pulse_spec list \<Rightarrow> 'f words_packet control_token \<Rightarrow> 'f message_packet control_token" where
  "PreambleDetectorNode_Transfer sorter preamble input =
     (let words = ws_decoded_pulses (tk_sidecar input);
          lock = Detect (GloballyOrderDecodedPulses sorter (map DecodedPulseWordFromGraphX words)) preamble
      in \<lparr>tk_token_id = tk_token_id input, tk_edge_control = tk_edge_control input,
          tk_sidecar = \<lparr>mp_correlation = ws_correlation (tk_sidecar input), mp_ordered_pulses = words,
            mp_active_frequency_indices = pd_active_frequency_indices lock,
            mp_preamble_lock = pd_preamble_lock lock,
            mp_diagnostics = describe_first words (assume_supported
              (default_diagnostics\<lparr>dg_pulse_count := length words, dg_preamble_lock := pd_preamble_lock lock\<rparr>)),
            mp_status = (if pd_status lock = AS_Ok then DS_Ok else DS_InvalidEvidence),
            mp_status_message = pd_status_message lock\<rparr>\<rparr>)"

definition MessageAssemblerNode_Transfer ::
    "'f double_ops \<Rightarrow> ('f fhss_decoded_pulse_word list \<Rightarrow> 'f fhss_decoded_pulse_word list) \<Rightarrow>
     fhss_preamble_pulse_spec list \<Rightarrow> 'f message_packet control_token \<Rightarrow> 'f message_packet control_token" where
  "MessageAssemblerNode_Transfer fl sorter preamble input =
     (let assembled = GraphXAssembledMessageFromKernel fl
            (Assemble sorter (map DecodedPulseWordFromGraphX (mp_ordered_pulses (tk_sidecar input))) preamble)
      in \<lparr>tk_token_id = tk_token_id input, tk_edge_control = tk_edge_control input,
          tk_sidecar = assembled\<lparr>mp_correlation := mp_correlation (tk_sidecar input),
            mp_ordered_pulses := mp_ordered_pulses (tk_sidecar input),
            mp_diagnostics := assume_supported (mp_diagnostics assembled)\<rparr>\<rparr>)"

section \<open>The message sink\<close>

record 'f message_sink =
  mk_last_diagnostics :: "'f diagnostics_packet"
  mk_last_message :: "'f message_packet option"
  mk_completions :: nat

definition FHSSMessageSinkNode :: "'f message_sink" where
  "FHSSMessageSinkNode = \<lparr>mk_last_diagnostics = default_diagnostics, mk_last_message = None,
     mk_completions = 0\<rparr>"

text \<open>\<open>OnProcessingComplete\<close> calls the completion callback; the sink counts the calls.\<close>

definition MessageSinkNode_Consume ::
    "'f message_packet control_token \<Rightarrow> 'f message_sink \<Rightarrow> bool \<times> 'f message_sink" where
  "MessageSinkNode_Consume input s =
     (True, s\<lparr>mk_last_diagnostics := mp_diagnostics (tk_sidecar input),
        mk_last_message := Some (tk_sidecar input), mk_completions := mk_completions s + 1\<rparr>)"

record 'f observed_pulse =
  op_global_start_sample :: u64
  op_duration_samples :: u64
  op_logical_frequency_index :: u32
  op_physical_channel_index :: u32
  op_rf_frequency_hz :: 'f
  op_iq_offset_frequency_hz :: 'f
  op_estimated_center_frequency_hz :: 'f
  op_detector_frequency_error_hz :: 'f
  op_confidence_score :: 'f
  op_viterbi_path_metric :: 'f
  op_viterbi_second_best_path_metric :: 'f
  op_decoded_value :: u32

text \<open>The sink fills these fields; it leaves the sample captures and the allocation counter at their defaults.\<close>

record 'f receiver_observation =
  ro_source_schema :: string
  ro_source_kind :: string
  ro_detected_pulse_count :: "nat option"
  ro_rejected_count :: "nat option"
  ro_preamble_lock :: "bool option"
  ro_rejection_reason_codes :: "string list"
  ro_active_frequencies :: "u32 list"
  ro_assembler_status :: "string option"
  ro_receiver_message_status :: "string option"
  ro_receiver_message_accepted :: "bool option"
  ro_decoded_pulses :: "'f observed_pulse list"

definition observe_pulse :: "'f word_packet \<Rightarrow> 'f observed_pulse" where
  "observe_pulse w = (let t = gm_timing (wp_pulse w); f = gm_frequency (wp_pulse w) in
     \<lparr>op_global_start_sample = gp_global_start_sample t, op_duration_samples = gp_duration_samples t,
      op_logical_frequency_index = gf_frequency_index f, op_physical_channel_index = gp_channel_id t,
      op_rf_frequency_hz = gf_rf_frequency_hz f, op_iq_offset_frequency_hz = gf_iq_offset_frequency_hz f,
      op_estimated_center_frequency_hz = gf_estimated_center_frequency_hz f,
      op_detector_frequency_error_hz = gf_frequency_error_hz f, op_confidence_score = wp_confidence w,
      op_viterbi_path_metric = wp_viterbi_path_metric w,
      op_viterbi_second_best_path_metric = wp_viterbi_second_best_path_metric w,
      op_decoded_value = wp_decoded_value w\<rparr>)"

definition SnapshotReceiverObservation :: "'f message_sink \<Rightarrow> 'f receiver_observation" where
  "SnapshotReceiverObservation s =
     (let empty = \<lparr>ro_source_schema = ''graphx.fhss.message_sink.observation.v1'',
            ro_source_kind = ''message_sink'', ro_detected_pulse_count = None, ro_rejected_count = None,
            ro_preamble_lock = None, ro_rejection_reason_codes = [], ro_active_frequencies = [],
            ro_assembler_status = None, ro_receiver_message_status = None,
            ro_receiver_message_accepted = None, ro_decoded_pulses = []\<rparr>;
          d = mk_last_diagnostics s
      in case mk_last_message s of
        None \<Rightarrow> empty
      | Some m \<Rightarrow> empty\<lparr>ro_detected_pulse_count := Some (dg_pulse_count d), ro_rejected_count := Some (dg_rejected_count d),
          ro_preamble_lock := Some (dg_preamble_lock d),
          ro_rejection_reason_codes :=
            (if dg_unsupported_overlap_rejected d then [''unsupported_overlap''] else []) @
            (if dg_unsupported_impairments_rejected d then [''unsupported_impairment''] else []),
          ro_active_frequencies := mp_active_frequency_indices m,
          ro_assembler_status := Some (mp_status_message m), ro_receiver_message_status := Some (mp_status_message m),
          ro_receiver_message_accepted := Some
            (mp_status m = DS_Ok \<and> mp_preamble_lock m \<and> mp_ordered_pulses m \<noteq> []),
          ro_decoded_pulses := map observe_pulse (mp_ordered_pulses m)\<rparr>)"

section \<open>The pipeline\<close>

text \<open>The four decoding nodes in a row, as the receiver graph connects them.\<close>

definition receiver ::
    "'f double_ops \<Rightarrow> ('f, 'z) complex_ops \<Rightarrow> 'f cpsm_decoder_config \<Rightarrow> 'f \<Rightarrow>
     ('f fhss_decoded_pulse_word list \<Rightarrow> 'f fhss_decoded_pulse_word list) \<Rightarrow> fhss_preamble_pulse_spec list \<Rightarrow>
     branch_metric_node \<Rightarrow> nat \<Rightarrow> ('f, 'z) candidate_packet control_token \<Rightarrow>
     'f message_packet control_token option" where
  "receiver fl zl config minimum_confidence sorter preamble node k input =
     (case fst (BranchMetricNode_Transfer fl zl config input node) of
        None \<Rightarrow> None
      | Some metrics \<Rightarrow>
          (case fst (ViterbiNode_Transfer fl zl config metrics k) of
             None \<Rightarrow> None
           | Some decisions \<Rightarrow> Some (MessageAssemblerNode_Transfer fl sorter preamble
               (PreambleDetectorNode_Transfer sorter preamble
                 (fst (WordDecoderNode_Transfer fl minimum_confidence decisions))))))"

text \<open>The reference: what becomes of one candidate on its own.\<close>

definition candidate_word ::
    "'f double_ops \<Rightarrow> ('f, 'z) complex_ops \<Rightarrow> 'f cpsm_decoder_config \<Rightarrow> 'f \<Rightarrow> ('f, 'z) gx_pulse_candidate \<Rightarrow>
     string + 'f word_packet" where
  "candidate_word fl zl config minimum_confidence c =
     (case candidate_samples fl zl c of
        Inl reason \<Rightarrow> Inl reason
      | Inr samples \<Rightarrow>
          (case CPSMViterbiDecoderKernel_Decode fl zl samples config of
             Inl e \<Rightarrow> Inl (ve_message e)
           | Inr v \<Rightarrow> Inr ((GraphXDecodedPulseWordFromKernel fl (FHSSPulseWordDecoderKernel_Decode fl
               \<lparr>pc_detected_pulse = DetectedPulseFromGraphX (gk_pulse c), pc_provisional_slot_index = None,
                pc_final_slot_index = None\<rparr> v minimum_confidence))\<lparr>wp_pulse := gk_pulse c\<rparr>)))"

text \<open>The word decoder looks at the symbols and the metrics only, so the forwarded result is enough.\<close>

lemma Decode_forwarded:
  "FHSSPulseWordDecoderKernel_Decode fl candidate
     \<lparr>vr_symbols = vr_symbols v, vr_phase_states = vr_phase_states v,
      vr_best_path_metric = vr_best_path_metric v, vr_second_best_path_metric = vr_second_best_path_metric v,
      vr_confidence = vr_confidence v, vr_terminal_phase_checked = b, vr_terminal_phase_state = k\<rparr> m =
   FHSSPulseWordDecoderKernel_Decode fl candidate v m"
  by (simp add: FHSSPulseWordDecoderKernel_Decode_def split: sum.split)

lemma Decode_needs_evidence:
  "CPSMViterbiDecoderKernel_Decode fl zl samples config = Inr v \<Longrightarrow>
   \<exists>metrics. Compute fl zl samples config = Inr metrics"
  by (auto simp: CPSMViterbiDecoderKernel_Decode_def Compute_def split: sum.splits)

lemma candidate_word_decomposed:
  assumes "candidate_word fl zl config mc c = Inr w"
  obtains metric decision where "candidate_metric fl zl config c = Inr metric" "pm_candidate metric = c"
    "candidate_decision fl zl config metric = Inr decision" "decode_decision fl mc decision = w"
proof -
  obtain samples v where sv: "candidate_samples fl zl c = Inr samples"
      "CPSMViterbiDecoderKernel_Decode fl zl samples config = Inr v"
    using assms by (auto simp: candidate_word_def split: sum.splits)
  obtain metrics where "Compute fl zl samples config = Inr metrics"
    using Decode_needs_evidence [OF sv(2)] by blast
  then obtain metric where m: "candidate_metric fl zl config c = Inr metric" "pm_candidate metric = c"
    using sv(1) by (simp add: candidate_metric_def)
  obtain decision where d: "candidate_decision fl zl config metric = Inr decision"
    "decode_decision fl mc decision = w"
  proof
    show "candidate_decision fl zl config metric = Inr \<lparr>ps_pulse = gk_pulse c, ps_symbols = vr_symbols v,
        ps_phase_states = vr_phase_states v, ps_best_path_metric = vr_best_path_metric v,
        ps_second_best_path_metric = vr_second_best_path_metric v, ps_confidence = vr_confidence v,
        ps_status = DS_Ok, ps_status_message = ''Ok''\<rparr>" (is "_ = Inr ?d")
      using sv m(2) by (simp add: candidate_decision_def)
    show "decode_decision fl mc ?d = w"
      using assms sv by (simp add: decode_decision_def candidate_word_def Decode_forwarded Let_def)
  qed
  with m show ?thesis using that by blast
qed

lemma candidate_word_pulse: "candidate_word fl zl config mc c = Inr w \<Longrightarrow> wp_pulse w = gk_pulse c"
  by (auto simp: candidate_word_def split: sum.splits)

lemma candidate_word_failure:
  assumes "candidate_word fl zl config mc c = Inl e" "candidate_metric fl zl config c = Inr metric"
  shows "\<exists>e'. candidate_decision fl zl config metric = Inl e'"
  using assms by (auto simp: candidate_word_def candidate_metric_def candidate_decision_def split: sum.splits)

lemma pipeline_decisions:
  assumes "\<forall>c \<in> set cs. candidate_word fl zl config mc c = Inr (w c)"
  obtains metrics decisions where
    "collect (candidate_metric fl zl config) cs = Inr metrics"
    "collect (candidate_decision fl zl config) metrics = Inr decisions"
    "length metrics = length cs" "length decisions = length cs"
    "map (decode_decision fl mc) decisions = map w cs"
proof -
  have "\<exists>m d. candidate_metric fl zl config c = Inr m \<and> candidate_decision fl zl config m = Inr d \<and>
      decode_decision fl mc d = w c" if "c \<in> set cs" for c
    using candidate_word_decomposed [of fl zl config mc c "w c"] assms that by metis
  then obtain m d where md: "c \<in> set cs \<Longrightarrow> candidate_metric fl zl config c = Inr (m c) \<and>
      candidate_decision fl zl config (m c) = Inr (d c) \<and> decode_decision fl mc (d c) = w c" for c
    by metis
  show ?thesis
  proof
    show "collect (candidate_metric fl zl config) cs = Inr (map m cs)"
      using md by (intro collect_total) blast
    show "collect (candidate_decision fl zl config) (map m cs) = Inr (map d cs)"
      using md by (simp add: collect_Inr_iff list_all2_conv_all_nth)
    show "map (decode_decision fl mc) (map d cs) = map w cs"
      using md by simp
  qed simp_all
qed

lemma receiver_fails:
  assumes "c \<in> set (cp_ordered_candidates (tk_sidecar input))" "candidate_word fl zl config mc c = Inl e"
  shows "receiver fl zl config mc sorter preamble node k input = None"
proof -
  let ?cs = "cp_ordered_candidates (tk_sidecar input)"
  have ne: "?cs \<noteq> []" using assms(1) by auto
  show ?thesis
  proof (cases "collect (candidate_metric fl zl config) ?cs")
    case (Inl reason)
    then show ?thesis using ne by (simp add: receiver_def BranchMetricNode_Transfer_def)
  next
    case (Inr metrics)
    then have l2: "list_all2 (\<lambda>x y. candidate_metric fl zl config x = Inr y) ?cs metrics"
      by (simp add: collect_Inr_iff)
    obtain i where i: "i < length ?cs" "?cs ! i = c" using assms(1) by (auto simp: in_set_conv_nth)
    then have "metrics ! i \<in> set metrics" "candidate_metric fl zl config c = Inr (metrics ! i)"
      using l2 by (auto simp: list_all2_conv_all_nth)
    with candidate_word_failure [OF assms(2)] have "\<exists>e. collect (candidate_decision fl zl config) metrics = Inl e"
      using collect_fails_iff by blast
    moreover have "metrics \<noteq> []" using l2 ne by auto
    ultimately show ?thesis
      using Inr ne by (auto simp: receiver_def BranchMetricNode_Transfer_def ViterbiNode_Transfer_def
          branch_metric_output_def)
  qed
qed

lemma receiver_succeeds:
  assumes "\<forall>c \<in> set (cp_ordered_candidates (tk_sidecar input)). candidate_word fl zl config mc c = Inr (w c)"
  defines "words \<equiv> map w (cp_ordered_candidates (tk_sidecar input))"
  shows "receiver fl zl config mc sorter preamble node k input =
    Some (MessageAssemblerNode_Transfer fl sorter preamble (PreambleDetectorNode_Transfer sorter preamble
      \<lparr>tk_token_id = tk_token_id input, tk_edge_control = tk_edge_control input,
       tk_sidecar = \<lparr>ws_correlation = cp_correlation (tk_sidecar input), ws_decoded_pulses = words,
         ws_globally_ordered = True\<rparr>\<rparr>))"
proof (cases "cp_ordered_candidates (tk_sidecar input) = []")
  case True
  then show ?thesis
    by (simp add: receiver_def BranchMetricNode_Transfer_def ViterbiNode_Transfer_def branch_metric_output_def
        default_candidate_def default_complex_evidence_def GraphXEvidenceHasHostComplexIq_def
        WordDecoderNode_Transfer_def decision_output_def words_def Let_def)
next
  case False
  obtain metrics decisions where md: "collect (candidate_metric fl zl config) (cp_ordered_candidates (tk_sidecar input)) = Inr metrics"
    "collect (candidate_decision fl zl config) metrics = Inr decisions"
    "length metrics = length (cp_ordered_candidates (tk_sidecar input))"
    "length decisions = length (cp_ordered_candidates (tk_sidecar input))"
    "map (decode_decision fl mc) decisions = words"
    using pipeline_decisions [OF assms(1)] unfolding words_def by metis
  have metrics: "metrics \<noteq> []" using False md(3) by auto
  obtain d ds where ds: "decisions = d # ds"
    using False md(4) by (cases decisions) auto
  have "words = decode_decision fl mc d # map (decode_decision fl mc) ds" using md(5) ds by simp
  then show ?thesis
    using False md(1,2) metrics ds
    by (simp add: receiver_def BranchMetricNode_Transfer_def ViterbiNode_Transfer_def branch_metric_output_def
        WordDecoderNode_Transfer_def decision_output_def Let_def)
qed

text \<open>
  C26. The decoding pipeline. A token of candidates yields a message exactly when every candidate
  decodes on its own, so one candidate without usable evidence drops the token; the message then
  holds the word of each candidate, in the order of the candidates and with the metadata of its
  pulse, keeps the id, the control and the correlation of the token, and is accepted exactly when
  the assembler kernel accepts these words.
\<close>

theorem receiver_decodes_each_candidate:
  fixes input :: "('f, 'z) candidate_packet control_token"
  defines "cs \<equiv> cp_ordered_candidates (tk_sidecar input)"
  shows "case receiver fl zl config mc sorter preamble node k input of
      None \<Rightarrow> \<exists>c \<in> set cs. isl (candidate_word fl zl config mc c)
    | Some out \<Rightarrow>
        map Inr (mp_ordered_pulses (tk_sidecar out)) = map (candidate_word fl zl config mc) cs \<and>
        map wp_pulse (mp_ordered_pulses (tk_sidecar out)) = map gk_pulse cs \<and>
        tk_token_id out = tk_token_id input \<and> tk_edge_control out = tk_edge_control input \<and>
        mp_correlation (tk_sidecar out) = cp_correlation (tk_sidecar input) \<and>
        (mp_status (tk_sidecar out) = DS_Ok \<longleftrightarrow> am_status (Assemble sorter
           (map DecodedPulseWordFromGraphX (mp_ordered_pulses (tk_sidecar out))) preamble) = AS_Ok)"
proof (cases "\<exists>c \<in> set cs. isl (candidate_word fl zl config mc c)")
  case True
  then obtain c e where "c \<in> set cs" "candidate_word fl zl config mc c = Inl e" by (auto simp: isl_def)
  then show ?thesis
    using receiver_fails [of c input] True by (auto simp: cs_def)
next
  case False
  define w where "w = projr \<circ> candidate_word fl zl config mc"
  have ok: "\<forall>c \<in> set cs. candidate_word fl zl config mc c = Inr (w c)"
    using False by (auto simp: w_def)
  have "wp_pulse (w c) = gk_pulse c" if "c \<in> set cs" for c
    using candidate_word_pulse [of fl zl config mc c "w c"] ok that by simp
  then show ?thesis
    using receiver_succeeds [of input fl zl config mc w] ok
    by (simp add: cs_def MessageAssemblerNode_Transfer_def PreambleDetectorNode_Transfer_def
        GraphXAssembledMessageFromKernel_def Let_def)
qed

section \<open>What the sink reports\<close>

text \<open>The diagnostics flags are constants, so every message is observed with both rejection reasons.\<close>

theorem sink_always_reports_rejections:
  "ro_rejection_reason_codes (SnapshotReceiverObservation (snd (MessageSinkNode_Consume
     (MessageAssemblerNode_Transfer fl sorter preamble input) s))) =
   [''unsupported_overlap'', ''unsupported_impairment'']"
  by (simp add: SnapshotReceiverObservation_def MessageSinkNode_Consume_def MessageAssemblerNode_Transfer_def
      assume_supported_def Let_def)

text \<open>
  Neither the assembler nor the preamble detector reads the status or the value of a word: a word
  that was not decoded does not stop the message from being accepted.
\<close>

lemma sort_key_map: "sort_key f (map g xs) = map g (sort_key (\<lambda>x. f (g x)) xs)"
proof (induction xs)
  case (Cons x xs)
  have "insort_key f (g x) (map g ys) = map g (insort_key (\<lambda>x. f (g x)) x ys)" for ys
    by (induction ys) auto
  with Cons show ?case by simp
qed simp

lemma HasUnsupportedOverlap_map:
  assumes "\<And>w. word_pulse (g w) = word_pulse w"
  shows "HasUnsupportedOverlap (map g ws) = HasUnsupportedOverlap ws"
  by (induction ws rule: HasUnsupportedOverlap.induct) (auto simp: assms DecodedPulsesOverlap_def)

theorem assembly_ignores_word_status:
  fixes ws :: "'f fhss_decoded_pulse_word list"
  defines "lose \<equiv> (\<lambda>w :: 'f fhss_decoded_pulse_word.
      w\<lparr>dw_status := PW_InvalidSymbolDecision, dw_decoded_value := 0\<rparr>)"
  shows "am_status (Assemble (sort_key word_start) (map lose ws) preamble) =
         am_status (Assemble (sort_key word_start) ws preamble)"
proof -
  have p: "word_pulse (lose w) = word_pulse w" for w by (simp add: lose_def)
  have s: "sort_key word_start (map lose ws) = map lose (sort_key word_start ws)"
    using sort_key_map [of word_start lose ws] by (simp add: p)
  have d: "Detect (map lose xs) preamble = Detect xs preamble" for xs
  proof (cases "length xs < kPreamblePulseCount")
    case False
    then have same: "(\<exists>i \<in> set [0 ..< kPreamblePulseCount].
          dp_frequency_index (word_pulse (map lose xs ! i)) \<noteq> pp_frequency_index (preamble ! i)) \<longleftrightarrow>
        (\<exists>i \<in> set [0 ..< kPreamblePulseCount].
          dp_frequency_index (word_pulse (xs ! i)) \<noteq> pp_frequency_index (preamble ! i))"
      using p by (intro bex_cong) simp_all
    show ?thesis by (simp only: Detect_def length_map same)
  qed (simp only: Detect_def length_map if_True)
  show ?thesis
    by (simp add: Assemble_def GloballyOrderDecodedPulses_def s d HasUnsupportedOverlap_map [OF p] p drop_map
        reject_message_def Let_def)
qed

end
