(* ===== verification/Json_Values.thy ===== *)
theory Json_Values
  imports Results
begin

text \<open>
  The values of a JSON document as \<open>nlohmann::json\<close> holds them: integers are kept signed or
  unsigned at 64 bits, floating-point numbers are of an unspecified type \<open>'f\<close> (no code of the graph
  configuration looks into one), an object is the list of its members. The library itself, in
  particular the parser, is not part of the development; what is defined here are the predicates
  and conversions of its documentation that the sources use. Types of documents are values of
  \<open>jtype\<close>, so that the format that a parser accepts can be stated.
\<close>

section \<open>Values\<close>

datatype 'f json =
    JNull
  | JBool bool
  | JInteger "64 word"
  | JUnsigned u64
  | JFloat 'f
  | JString string
  | JArray "'f json list"
  | JObject "(string \<times> 'f json) list"

fun is_object :: "'f json \<Rightarrow> bool" where
  "is_object (JObject _) = True"
| "is_object _ = False"

fun is_array :: "'f json \<Rightarrow> bool" where
  "is_array (JArray _) = True"
| "is_array _ = False"

fun is_string :: "'f json \<Rightarrow> bool" where
  "is_string (JString _) = True"
| "is_string _ = False"

fun is_boolean :: "'f json \<Rightarrow> bool" where
  "is_boolean (JBool _) = True"
| "is_boolean _ = False"

fun is_number_integer :: "'f json \<Rightarrow> bool" where
  "is_number_integer (JInteger _) = True"
| "is_number_integer (JUnsigned _) = True"
| "is_number_integer _ = False"

fun is_number :: "'f json \<Rightarrow> bool" where
  "is_number (JInteger _) = True"
| "is_number (JUnsigned _) = True"
| "is_number (JFloat _) = True"
| "is_number _ = False"

text \<open>
  \<open>contains\<close> is false of anything but an object; \<open>empty\<close> is true of null, of an empty array and of
  an empty object only.
\<close>

fun member :: "'f json \<Rightarrow> string \<Rightarrow> 'f json option" where
  "member (JObject ms) key = map_of ms key"
| "member _ key = None"

fun json_empty :: "'f json \<Rightarrow> bool" where
  "json_empty JNull = True"
| "json_empty (JArray xs) = (xs = [])"
| "json_empty (JObject ms) = (ms = [])"
| "json_empty _ = False"

fun elements :: "'f json \<Rightarrow> 'f json list" where
  "elements (JArray xs) = xs"
| "elements _ = []"

fun members :: "'f json \<Rightarrow> (string \<times> 'f json) list" where
  "members (JObject ms) = ms"
| "members _ = []"

section \<open>Document types\<close>

datatype jtype =
    TAny
  | TString
  | TNonempty
  | TOneOf "string list"
  | TName "string \<Rightarrow> string" "string list"
  | TBool
  | TUnsigned
  | TNatural
  | TPort "string \<Rightarrow> bool"
  | TMap
  | TArray jtype
  | TArray1 jtype
  | TRecord "(string \<times> bool \<times> jtype) list"
  | TLax "(string \<times> bool \<times> jtype) list"
  | TOr jtype jtype

text \<open>
  A record type lists its fields with a flag that says whether the field is required; other
  members are allowed. A lax record admits also every value that is not an object.
\<close>

fun conforms :: "jtype \<Rightarrow> 'f json \<Rightarrow> bool" where
  "conforms TAny j = True"
| "conforms TString j = is_string j"
| "conforms TNonempty j = (case j of JString s \<Rightarrow> s \<noteq> [] | _ \<Rightarrow> False)"
| "conforms (TOneOf names) j = (case j of JString s \<Rightarrow> s \<in> set names | _ \<Rightarrow> False)"
| "conforms (TName normal names) j = (case j of JString s \<Rightarrow> normal s \<in> set names | _ \<Rightarrow> False)"
| "conforms TBool j = is_boolean j"
| "conforms TUnsigned j = (case j of JUnsigned _ \<Rightarrow> True | _ \<Rightarrow> False)"
| "conforms TNatural j = (case j of JUnsigned w \<Rightarrow> 0 \<le> sint w | JInteger w \<Rightarrow> 0 \<le> sint w | _ \<Rightarrow> False)"
| "conforms (TPort token) j = (case j of JUnsigned w \<Rightarrow> True | JInteger w \<Rightarrow> 0 \<le> sint w
     | JString s \<Rightarrow> token s | _ \<Rightarrow> False)"
| "conforms TMap j = is_object j"
| "conforms (TArray t) j = (is_array j \<and> (\<forall>x \<in> set (elements j). conforms t x))"
| "conforms (TArray1 t) j = (is_array j \<and> elements j \<noteq> [] \<and> (\<forall>x \<in> set (elements j). conforms t x))"
| "conforms (TRecord fields) j = (is_object j \<and> (\<forall>(key, required, t) \<in> set fields.
     case member j key of None \<Rightarrow> \<not> required | Some v \<Rightarrow> conforms t v))"
| "conforms (TLax fields) j = (is_object j \<longrightarrow> (\<forall>(key, required, t) \<in> set fields.
     case member j key of None \<Rightarrow> \<not> required | Some v \<Rightarrow> conforms t v))"
| "conforms (TOr s t) j = (conforms s j \<or> conforms t j)"

section \<open>Reading typed members\<close>

text \<open>
  The three ways in which the sources read a member: with a type check, where a missing member is
  either an error or leaves a default. A reader of a value returns the error \<open>mismatch\<close> on a value
  of another type.
\<close>

definition required_member ::
    "'e \<Rightarrow> ('f json \<Rightarrow> ('a, 'e) expected) \<Rightarrow> 'f json \<Rightarrow> string \<Rightarrow> ('a, 'e) expected" where
  "required_member missing reader j key = (case member j key of None \<Rightarrow> Inl missing | Some v \<Rightarrow> reader v)"

definition optional_member ::
    "'a \<Rightarrow> ('f json \<Rightarrow> ('a, 'e) expected) \<Rightarrow> 'f json \<Rightarrow> string \<Rightarrow> ('a, 'e) expected" where
  "optional_member dflt reader j key = (case member j key of None \<Rightarrow> Inr dflt | Some v \<Rightarrow> reader v)"

definition get_string :: "'e \<Rightarrow> 'f json \<Rightarrow> (string, 'e) expected" where
  "get_string mismatch v = (case v of JString s \<Rightarrow> Inr s | _ \<Rightarrow> Inl mismatch)"

definition get_bool :: "'e \<Rightarrow> 'f json \<Rightarrow> (bool, 'e) expected" where
  "get_bool mismatch v = (case v of JBool b \<Rightarrow> Inr b | _ \<Rightarrow> Inl mismatch)"

definition get_unsigned :: "'e \<Rightarrow> 'f json \<Rightarrow> (u64, 'e) expected" where
  "get_unsigned mismatch v = (case v of JUnsigned w \<Rightarrow> Inr w | _ \<Rightarrow> Inl mismatch)"

text \<open>
  \<open>is_number_integer\<close>, then \<open>get<long long>() < 0\<close>: an unsigned value of \<open>2 ^ 63\<close> or more becomes
  negative and is out of range.
\<close>

definition get_natural :: "'e \<Rightarrow> 'e \<Rightarrow> 'f json \<Rightarrow> (u64, 'e) expected" where
  "get_natural mismatch bounds v = (case v of
     JUnsigned w \<Rightarrow> if sint w < 0 then Inl bounds else Inr w
   | JInteger w \<Rightarrow> if sint w < 0 then Inl bounds else Inr w
   | _ \<Rightarrow> Inl mismatch)"

definition get_array :: "'e \<Rightarrow> 'f json \<Rightarrow> ('f json list, 'e) expected" where
  "get_array mismatch v = (case v of JArray xs \<Rightarrow> Inr xs | _ \<Rightarrow> Inl mismatch)"

definition get_map :: "'e \<Rightarrow> 'f json \<Rightarrow> ((string \<times> 'f json) list, 'e) expected" where
  "get_map mismatch v = (case v of JObject ms \<Rightarrow> Inr ms | _ \<Rightarrow> Inl mismatch)"

lemma member_object: "member j key = Some v \<Longrightarrow> is_object j"
  by (cases j) auto

named_theorems conform \<open>when a reader accepts a value, by the type of the value\<close>

lemma get_conforms [conform]:
  "has_value (get_string e v) = conforms TString v"
  "has_value (get_bool e v) = conforms TBool v"
  "has_value (get_unsigned e v) = conforms TUnsigned v"
  "has_value (get_natural e e' v) = conforms TNatural v"
  "has_value (get_map e v) = conforms TMap v"
  by (cases v; simp add: get_string_def get_bool_def get_unsigned_def get_natural_def get_map_def)+

definition member_is :: "bool \<Rightarrow> ('f json \<Rightarrow> bool) \<Rightarrow> 'f json \<Rightarrow> string \<Rightarrow> bool" where
  "member_is required P j key = (case member j key of None \<Rightarrow> \<not> required | Some v \<Rightarrow> P v)"

lemma member_conforms [conform]:
  "has_value (required_member e reader j key) = member_is True (\<lambda>v. has_value (reader v)) j key"
  "has_value (optional_member d reader j key) = member_is False (\<lambda>v. has_value (reader v)) j key"
  by (simp_all add: member_is_def required_member_def optional_member_def split: option.split)

lemma member_is_simps [simp]:
  "\<not> is_object j \<Longrightarrow> member_is required P j key \<longleftrightarrow> \<not> required"
  "member_is False (\<lambda>v. True) j key"
  by (cases j) (auto simp: member_is_def split: option.split)

lemma array_conforms [conform]:
  "has_value (bind_ok (get_array e v) (collect reader)) \<longleftrightarrow>
     is_array v \<and> (\<forall>x \<in> set (elements v). has_value (reader x))"
  by (cases v) (simp_all add: get_array_def collect_has_value)

lemma conforms_record [conform]:
  "conforms (TRecord []) j = is_object j"
  "conforms (TRecord ((key, required, t) # fields)) j \<longleftrightarrow>
     member_is required (conforms t) j key \<and> conforms (TRecord fields) j"
  "conforms (TLax fields) j \<longleftrightarrow> \<not> is_object j \<or> conforms (TRecord fields) j"
  by (auto simp: member_is_def)

lemma conforms_any [conform]: "conforms TAny = (\<lambda>v. True)"
  by (simp add: fun_eq_iff)

declare conforms.simps [simp del]

end
