(* ===== verification/Numeric_Text.thy ===== *)
theory Numeric_Text
  imports Decimal
begin

text \<open>
  \<open>std::stoull\<close>: optional white space, an optional sign, decimal digits up to the first other
  character. Without digits it throws \<open>invalid_argument\<close>, with a magnitude of \<open>2 ^ 64\<close> or more
  \<open>out_of_range\<close>; a minus sign negates the value modulo \<open>2 ^ 64\<close>. The second result is the number of
  characters read.
\<close>

datatype number_exception = Not_A_Number | Number_Out_Of_Range

definition stoull :: "string \<Rightarrow> (u64 \<times> nat, number_exception) expected" where
  "stoull s =
     (let t = dropWhile is_space s;
          signed = (t \<noteq> [] \<and> (hd t = CHR ''-'' \<or> hd t = CHR ''+''));
          body = (if signed then tl t else t);
          ds = takeWhile is_digit body;
          v = read_digits ds
      in if ds = [] then Inl Not_A_Number
         else if 2 ^ 64 \<le> v then Inl Number_Out_Of_Range
         else Inr (if signed \<and> hd t = CHR ''-'' then - of_nat v else of_nat v,
                   length s - length body + length ds))"

lemma stoull_digits:
  assumes "list_all is_digit s" "s \<noteq> []"
  shows "stoull s = (if 2 ^ 64 \<le> read_digits s then Inl Number_Out_Of_Range
                     else Inr (of_nat (read_digits s), length s))"
proof -
  obtain c cs where s: "s = c # cs" using assms(2) by (cases s) auto
  then have "\<not> is_space c" "c \<noteq> CHR ''-''" "c \<noteq> CHR ''+''"
    using assms(1) digit_not_space [of c] by simp_all
  moreover have "takeWhile is_digit s = s"
    using assms(1) by (simp add: takeWhile_eq_all_conv list_all_iff)
  ultimately show ?thesis using s by (simp add: stoull_def Let_def)
qed

lemma stoull_to_string: "n < 2 ^ 64 \<Longrightarrow> stoull (to_string n) = Inr (of_nat n, length (to_string n))"
  using stoull_digits [of "to_string n"] to_string_digits [of n] read_to_string [of n] by simp

end
