(* ===== verification/Node_Providers.thy ===== *)
theory Node_Providers
  imports Prelude "HOL-Library.Finite_Map" "HOL-Library.List_Lexorder" "HOL-Library.Char_ord"
begin

text \<open>
  Where the nodes of a graph come from: the registry of the node types that plugins provide
  (\<open>libgraph/src/plugins/PluginRegistry.cpp\<close>, \<open>PluginInterop.cpp\<close>), the provider over it
  (\<open>RegisteredNodeProvider.cpp\<close>), the registry of backend contracts
  (\<open>NodeResolutionRegistry.cpp\<close>) and the provider that resolves an intent to the node of a backend
  (\<open>ResolvingNodeProvider.cpp\<close>). A \<open>std::map\<close> is a finite map, iterated in the order of its keys.
  The operations of a plugin are arguments: \<open>dlsym\<close> finds a create function in a plugin handle, and
  \<open>invoke\<close> is what a call of a create function does. The interface \<open>INodeProvider\<close> is the locale
  \<open>node_provider\<close>; both providers are interpretations of it.
\<close>

section \<open>The plugin registry\<close>

datatype plugin_interop_error = PI_InvalidPluginHandle | PI_MissingSymbol | PI_CreationFailed | PI_CreationThrew

datatype plugin_registry_error = PR_InvalidPluginHandle | PR_NullFacade | PR_MissingCreateFunction
  | PR_TypeNotRegistered | PR_CreationFailed | PR_CreationThrew | PR_Unknown

text \<open>A call of a create function returns a handle, or null, or throws.\<close>

datatype 'h creation = Created 'h | NullNode | CreateThrows

record ('d, 'c, 'a) plugin_node_info =
  pn_type_name :: string
  pn_description :: string
  pn_plugin_path :: string
  pn_create_function :: string
  pn_abi_tag :: string
  pn_plugin_handle :: 'd
  pn_create_func :: 'c
  pn_facade :: 'a
  pn_version :: string

type_synonym ('d, 'c, 'a) plugin_registry = "(string, ('d, 'c, 'a) plugin_node_info) fmap"

definition ResolveCreateNodeFunction ::
    "('d \<Rightarrow> string \<Rightarrow> 'c option) \<Rightarrow> 'd option \<Rightarrow> string \<Rightarrow> ('c, plugin_interop_error) expected" where
  "ResolveCreateNodeFunction dlsym plugin_handle symbol_name =
     (case plugin_handle of
        None \<Rightarrow> Inl PI_InvalidPluginHandle
      | Some h \<Rightarrow> (case dlsym h symbol_name of None \<Rightarrow> Inl PI_MissingSymbol | Some f \<Rightarrow> Inr f))"

text \<open>The registry stores resolved functions only, so the check for a null function is void.\<close>

definition CreateNodeFromPlugin ::
    "('c \<Rightarrow> 'h creation) \<Rightarrow> 'c \<Rightarrow> ('h, plugin_interop_error) expected" where
  "CreateNodeFromPlugin invoke create_func =
     (case invoke create_func of
        Created h \<Rightarrow> Inr h | NullNode \<Rightarrow> Inl PI_CreationFailed | CreateThrows \<Rightarrow> Inl PI_CreationThrew)"

definition RegisterNodeTypeExpected ::
    "('d \<Rightarrow> string \<Rightarrow> 'c option) \<Rightarrow> string \<Rightarrow> string \<Rightarrow> string \<Rightarrow> string \<Rightarrow> string \<Rightarrow> string \<Rightarrow>
     'd option \<Rightarrow> 'a option \<Rightarrow> ('d, 'c, 'a) plugin_registry \<Rightarrow>
     (unit, plugin_registry_error) expected \<times> ('d, 'c, 'a) plugin_registry" where
  "RegisterNodeTypeExpected dlsym type_name description plugin_path create_function abi_tag version
     plugin_handle facade r =
     (case plugin_handle of
        None \<Rightarrow> (Inl PR_InvalidPluginHandle, r)
      | Some handle \<Rightarrow>
          (case facade of
             None \<Rightarrow> (Inl PR_NullFacade, r)
           | Some table \<Rightarrow>
               (case ResolveCreateNodeFunction dlsym plugin_handle create_function of
                  Inl _ \<Rightarrow> (Inl PR_MissingCreateFunction, r)
                | Inr create_func \<Rightarrow>
                    (Inr (), fmupd type_name
                       \<lparr>pn_type_name = type_name, pn_description = description, pn_plugin_path = plugin_path,
                        pn_create_function = create_function, pn_abi_tag = abi_tag, pn_plugin_handle = handle,
                        pn_create_func = create_func, pn_facade = table, pn_version = version\<rparr> r))))"

definition PluginRegistry_CreateNodeExpected ::
    "('c \<Rightarrow> 'h creation) \<Rightarrow> string \<Rightarrow> ('d, 'c, 'a) plugin_registry \<Rightarrow>
     ('h \<times> 'a, plugin_registry_error) expected" where
  "PluginRegistry_CreateNodeExpected invoke type_name r =
     (case fmlookup r type_name of
        None \<Rightarrow> Inl PR_TypeNotRegistered
      | Some info \<Rightarrow>
          (case CreateNodeFromPlugin invoke (pn_create_func info) of
             Inl PI_CreationFailed \<Rightarrow> Inl PR_CreationFailed
           | Inl PI_CreationThrew \<Rightarrow> Inl PR_CreationThrew
           | Inl _ \<Rightarrow> Inl PR_Unknown
           | Inr handle \<Rightarrow> Inr (handle, pn_facade info)))"

definition HasNodeType :: "string \<Rightarrow> ('d, 'c, 'a) plugin_registry \<Rightarrow> bool" where
  "HasNodeType type_name r \<longleftrightarrow> fmlookup r type_name \<noteq> None"

definition GetRegisteredNodeTypes :: "('d, 'c, 'a) plugin_registry \<Rightarrow> string list" where
  "GetRegisteredNodeTypes r = sorted_list_of_fset (fmdom r)"

record type_info =
  ti_type_name :: string
  ti_description :: string
  ti_plugin_path :: string
  ti_version :: string
  ti_abi_tag :: string

definition GetNodeTypeInfo :: "string \<Rightarrow> ('d, 'c, 'a) plugin_registry \<Rightarrow> type_info option" where
  "GetNodeTypeInfo type_name r = map_option (\<lambda>info. \<lparr>ti_type_name = pn_type_name info,
     ti_description = pn_description info, ti_plugin_path = pn_plugin_path info,
     ti_version = pn_version info, ti_abi_tag = pn_abi_tag info\<rparr>) (fmlookup r type_name)"

definition GetRegisteredTypeCount :: "('d, 'c, 'a) plugin_registry \<Rightarrow> nat" where
  "GetRegisteredTypeCount r = fcard (fmdom r)"

definition UnregisterNodeType ::
    "string \<Rightarrow> ('d, 'c, 'a) plugin_registry \<Rightarrow> bool \<times> ('d, 'c, 'a) plugin_registry" where
  "UnregisterNodeType type_name r =
     (case fmlookup r type_name of None \<Rightarrow> (False, r) | Some _ \<Rightarrow> (True, fmdrop type_name r))"

definition UnregisterNodeTypesForHandle ::
    "'d option \<Rightarrow> ('d, 'c, 'a) plugin_registry \<Rightarrow> nat \<times> ('d, 'c, 'a) plugin_registry" where
  "UnregisterNodeTypesForHandle plugin_handle r =
     (case plugin_handle of
        None \<Rightarrow> (0, r)
      | Some h \<Rightarrow>
          let owned = (\<lambda>t. map_option pn_plugin_handle (fmlookup r t) = Some h)
          in (fcard (ffilter owned (fmdom r)), fmfilter (\<lambda>t. \<not> owned t) r))"

definition PluginRegistry_Clear :: "('d, 'c, 'a) plugin_registry \<Rightarrow> ('d, 'c, 'a) plugin_registry" where
  "PluginRegistry_Clear r = fmempty"

section \<open>The provider over the plugin registry\<close>

datatype node_creation_error = NC_TypeNotFound | NC_NotInitialized | NC_CreationFailed | NC_InvalidArgument
  | NC_Unsupported | NC_BackendUnavailable | NC_Unknown

fun NodeCreation_ErrorMessage :: "node_creation_error \<Rightarrow> string" where
  "NodeCreation_ErrorMessage NC_TypeNotFound = ''Node type not found''"
| "NodeCreation_ErrorMessage NC_NotInitialized = ''RegisteredNodeProvider not initialized''"
| "NodeCreation_ErrorMessage NC_CreationFailed = ''Node creation failed''"
| "NodeCreation_ErrorMessage NC_InvalidArgument = ''Invalid node provider argument''"
| "NodeCreation_ErrorMessage NC_Unsupported = ''Node operation is unsupported''"
| "NodeCreation_ErrorMessage NC_BackendUnavailable = ''Node backend is unavailable''"
| "NodeCreation_ErrorMessage NC_Unknown = ''Unknown node creation error''"

record ('d, 'c, 'a) registered_node_provider =
  rp_plugin_registry :: "('d, 'c, 'a) plugin_registry option"
  rp_initialized :: bool

definition RegisteredNodeProvider :: "('d, 'c, 'a) plugin_registry option \<Rightarrow> ('d, 'c, 'a) registered_node_provider" where
  "RegisteredNodeProvider plugin_registry = \<lparr>rp_plugin_registry = plugin_registry, rp_initialized = False\<rparr>"

definition Registered_IsNodeTypeAvailable :: "('d, 'c, 'a) registered_node_provider \<Rightarrow> string \<Rightarrow> bool" where
  "Registered_IsNodeTypeAvailable p node_type_name \<longleftrightarrow>
     (case rp_plugin_registry p of None \<Rightarrow> False | Some r \<Rightarrow> HasNodeType node_type_name r)"

definition Registered_GetAvailableNodeTypes :: "('d, 'c, 'a) registered_node_provider \<Rightarrow> string list" where
  "Registered_GetAvailableNodeTypes p = remdups_adj (sort
     (case rp_plugin_registry p of None \<Rightarrow> [] | Some r \<Rightarrow> GetRegisteredNodeTypes r))"

definition Registered_Initialize :: "('d, 'c, 'a) registered_node_provider \<Rightarrow> ('d, 'c, 'a) registered_node_provider" where
  "Registered_Initialize p = (if rp_initialized p then p else p\<lparr>rp_initialized := True\<rparr>)"

definition Registered_CreateNodeExpected ::
    "('c \<Rightarrow> 'h creation) \<Rightarrow> string \<Rightarrow> ('d, 'c, 'a) registered_node_provider \<Rightarrow>
     ('h \<times> 'a, node_creation_error) expected \<times> ('d, 'c, 'a) registered_node_provider" where
  "Registered_CreateNodeExpected invoke node_type_name p =
     (if node_type_name = [] then (Inl NC_InvalidArgument, p)
      else
        let p' = (if \<not> rp_initialized p then Registered_Initialize p else p)
        in case rp_plugin_registry p' of
             None \<Rightarrow> (Inl NC_NotInitialized, p')
           | Some r \<Rightarrow>
               (case PluginRegistry_CreateNodeExpected invoke node_type_name r of
                  Inl PR_TypeNotRegistered \<Rightarrow> (Inl NC_TypeNotFound, p')
                | Inl _ \<Rightarrow> (Inl NC_CreationFailed, p')
                | Inr node \<Rightarrow> (Inr node, p')))"

section \<open>Backends and contracts\<close>

datatype resolver_backend = RB_Auto | RB_Metal | RB_Cuda | RB_Stub | RB_Direct | RB_Unknown

datatype resolver_fallback_policy = FP_Strict | FP_AllowFallback

datatype resolver_fallback_reason = FR_None | FR_RequestedBackendUnavailable

datatype resolver_capability = RC_Supported | RC_Unsupported

datatype resolver_resolution_state = RS_Selected | RS_Fallback | RS_Unavailable | RS_Unsupported

text \<open>\<open>std::tolower\<close> in the C locale.\<close>

definition tolower :: "char \<Rightarrow> char" where
  "tolower c = (if 65 \<le> (of_char c :: nat) \<and> (of_char c :: nat) \<le> 90 then char_of ((of_char c :: nat) + 32) else c)"

definition ToLowerCopy :: "string \<Rightarrow> string" where
  "ToLowerCopy s = map tolower s"

fun Backend_ToString :: "resolver_backend \<Rightarrow> string" where
  "Backend_ToString RB_Auto = ''auto''"
| "Backend_ToString RB_Metal = ''metal''"
| "Backend_ToString RB_Cuda = ''cuda''"
| "Backend_ToString RB_Stub = ''stub''"
| "Backend_ToString RB_Direct = ''direct''"
| "Backend_ToString RB_Unknown = ''unknown''"

fun FallbackPolicy_ToString :: "resolver_fallback_policy \<Rightarrow> string" where
  "FallbackPolicy_ToString FP_Strict = ''strict''"
| "FallbackPolicy_ToString FP_AllowFallback = ''allow_fallback''"

fun FallbackReason_ToString :: "resolver_fallback_reason \<Rightarrow> string" where
  "FallbackReason_ToString FR_None = ''none''"
| "FallbackReason_ToString FR_RequestedBackendUnavailable = ''requested-backend-unavailable''"

fun Capability_ToString :: "resolver_capability \<Rightarrow> string" where
  "Capability_ToString RC_Supported = ''supported''"
| "Capability_ToString RC_Unsupported = ''unsupported''"

fun ResolutionState_ToString :: "resolver_resolution_state \<Rightarrow> string" where
  "ResolutionState_ToString RS_Selected = ''selected''"
| "ResolutionState_ToString RS_Fallback = ''fallback''"
| "ResolutionState_ToString RS_Unavailable = ''unavailable''"
| "ResolutionState_ToString RS_Unsupported = ''unsupported''"

definition ParseResolverBackend :: "string \<Rightarrow> resolver_backend option" where
  "ParseResolverBackend backend =
     (let normalized = ToLowerCopy backend in
      if normalized = ''auto'' then Some RB_Auto
      else if normalized = ''metal'' then Some RB_Metal
      else if normalized = ''cuda'' then Some RB_Cuda
      else if normalized = ''stub'' then Some RB_Stub
      else if normalized = ''direct'' then Some RB_Direct
      else if normalized = ''unknown'' then Some RB_Unknown
      else None)"

definition ParseResolverFallbackPolicy :: "string \<Rightarrow> resolver_fallback_policy option" where
  "ParseResolverFallbackPolicy policy =
     (let normalized = ToLowerCopy policy in
      if normalized = ''strict'' then Some FP_Strict
      else if normalized = ''allow_fallback'' then Some FP_AllowFallback
      else None)"

definition ParseResolverCapability :: "string \<Rightarrow> resolver_capability option" where
  "ParseResolverCapability capability =
     (let normalized = ToLowerCopy capability in
      if normalized = ''supported'' then Some RC_Supported
      else if normalized = ''unsupported'' then Some RC_Unsupported
      else None)"

record resolution_variant =
  rv_backend :: resolver_backend
  rv_concrete_type :: string
  rv_capability :: resolver_capability

record resolution_contract =
  rt_intent_type :: string
  rt_input_token_type :: string
  rt_output_token_type :: string
  rt_variants :: "resolution_variant list"

type_synonym resolution_registry = "(string, resolution_contract) fmap"

definition AddContract :: "resolution_contract \<Rightarrow> resolution_registry \<Rightarrow> resolution_registry" where
  "AddContract contract registry =
     (if rt_intent_type contract = [] then registry
      else fmupd (rt_intent_type contract) contract registry)"

text \<open>A mapping of the configuration has the fields of a contract; \<open>AddMappings\<close> copies it.\<close>

definition AddMappings :: "resolution_contract list \<Rightarrow> resolution_registry \<Rightarrow> resolution_registry" where
  "AddMappings mappings registry = fold AddContract mappings registry"

abbreviation supported :: "resolver_backend \<Rightarrow> string \<Rightarrow> resolution_variant" where
  "supported backend concrete \<equiv>
     \<lparr>rv_backend = backend, rv_concrete_type = concrete, rv_capability = RC_Supported\<rparr>"

definition CreateDefault :: resolution_registry where
  "CreateDefault = fold AddContract
     [\<lparr>rt_intent_type = ''H2DAsyncNode'', rt_input_token_type = ''HostPinnedBufferView'',
       rt_output_token_type = ''DeviceBufferView'',
       rt_variants = [supported RB_Metal ''H2DAsyncNodeMetal'', supported RB_Stub ''H2DAsyncNode'',
         supported RB_Cuda ''H2DAsyncNode'']\<rparr>,
      \<lparr>rt_intent_type = ''D2HAsyncNode'', rt_input_token_type = ''DeviceBufferView'',
       rt_output_token_type = ''HostPinnedBufferView'',
       rt_variants = [supported RB_Metal ''D2HAsyncNodeMetal'', supported RB_Stub ''D2HAsyncNode'',
         supported RB_Cuda ''D2HAsyncNode'']\<rparr>,
      \<lparr>rt_intent_type = ''DeviceTransformNode'', rt_input_token_type = ''DeviceBufferView'',
       rt_output_token_type = ''DeviceBufferView'',
       rt_variants = [supported RB_Metal ''DeviceTransformNodeMetal'', supported RB_Stub ''DeviceTransformNode'']\<rparr>,
      \<lparr>rt_intent_type = ''DeviceKernelNode'', rt_input_token_type = ''DeviceBufferView'',
       rt_output_token_type = ''DeviceBufferView'',
       rt_variants = [supported RB_Metal ''DeviceKernelNodeMetal'']\<rparr>,
      \<lparr>rt_intent_type = ''DeviceReduceNode'', rt_input_token_type = ''DeviceBufferView'',
       rt_output_token_type = ''DeviceBufferView'',
       rt_variants = [supported RB_Metal ''DeviceReduceNodeMetal'', supported RB_Stub ''DeviceReduceNode'']\<rparr>,
      \<lparr>rt_intent_type = ''QueueSyncNode'', rt_input_token_type = ''DeviceBufferView'',
       rt_output_token_type = ''DeviceBufferView'',
       rt_variants = [supported RB_Metal ''QueueSyncNodeMetal'', supported RB_Stub ''QueueSyncNode'']\<rparr>]
     fmempty"

definition Registry_Find :: "string \<Rightarrow> resolution_registry \<Rightarrow> resolution_contract option" where
  "Registry_Find intent_type registry = fmlookup registry intent_type"

definition IntentTypes :: "resolution_registry \<Rightarrow> string list" where
  "IntentTypes registry = sorted_list_of_fset (fmdom registry)"

section \<open>The resolving provider\<close>

record resolver_config =
  cf_execution_backend :: resolver_backend
  cf_backend_fallback_policy :: resolver_fallback_policy
  cf_resolver_diagnostics :: bool
  cf_edge_contract :: string

record resolution_diagnostic =
  rd_intent_type :: string
  rd_concrete_type :: string
  rd_selected_backend :: resolver_backend
  rd_fallback_reason :: resolver_fallback_reason
  rd_input_token_type :: string
  rd_output_token_type :: string
  rd_fallback_used :: bool
  rd_state :: resolver_resolution_state

record resolution_failure =
  rf_intent_type :: string
  rf_requested_backend :: resolver_backend
  rf_state :: resolver_resolution_state
  rf_detail :: string

text \<open>The inner provider is a value of any type; its methods are arguments of the methods below.\<close>

record 's resolving_node_provider =
  vp_inner :: "'s option"
  vp_resolver_config :: resolver_config
  vp_resolution_registry :: resolution_registry
  vp_diagnostics :: "resolution_diagnostic list"
  vp_resolution_failures :: "resolution_failure list"

definition ResolvingNodeProvider ::
    "'s option \<Rightarrow> resolver_config \<Rightarrow> resolution_registry \<Rightarrow> 's resolving_node_provider" where
  "ResolvingNodeProvider inner config registry = \<lparr>vp_inner = inner, vp_resolver_config = config,
     vp_resolution_registry = registry, vp_diagnostics = [], vp_resolution_failures = []\<rparr>"

definition auto_order :: "resolver_backend list" where
  "auto_order = [RB_Metal, RB_Stub, RB_Cuda]"

definition BackendPreference :: "resolver_backend \<Rightarrow> resolver_fallback_policy \<Rightarrow> resolver_backend list" where
  "BackendPreference requested_backend fallback_policy =
     (if requested_backend = RB_Auto then auto_order
      else if fallback_policy \<noteq> FP_AllowFallback then [requested_backend]
      else fold (\<lambda>backend order. if backend \<in> set order then order else order @ [backend])
             auto_order [requested_backend])"

definition VariantForBackend :: "resolution_contract \<Rightarrow> resolver_backend \<Rightarrow> resolution_variant option" where
  "VariantForBackend contract backend = find (\<lambda>variant. rv_backend variant = backend) (rt_variants contract)"

text \<open>
  The loop over the preferred backends: the first variant that is supported and available, and
  whether a supported one was seen.
\<close>

fun select_variant ::
    "resolution_contract \<Rightarrow> (string \<Rightarrow> bool) \<Rightarrow> resolver_backend list \<Rightarrow> bool \<Rightarrow>
     (resolver_backend \<times> resolution_variant) option \<times> bool" where
  "select_variant contract available [] seen = (None, seen)"
| "select_variant contract available (backend # backends) seen =
     (case VariantForBackend contract backend of
        None \<Rightarrow> select_variant contract available backends seen
      | Some variant \<Rightarrow>
          if rv_capability variant = RC_Unsupported then select_variant contract available backends seen
          else if \<not> available (rv_concrete_type variant) then select_variant contract available backends True
          else (Some (backend, variant), True))"

definition ResolveWithAvailability ::
    "'s resolving_node_provider \<Rightarrow> string \<Rightarrow> (string \<Rightarrow> bool) option \<Rightarrow>
     (resolution_diagnostic, resolution_failure) expected" where
  "ResolveWithAvailability p node_type_name availability =
     (let requested = cf_execution_backend (vp_resolver_config p);
          failure = (\<lambda>backend state detail. Inl \<lparr>rf_intent_type = node_type_name,
            rf_requested_backend = backend, rf_state = state, rf_detail = detail\<rparr>)
      in case availability of
           None \<Rightarrow> failure requested RS_Unavailable ''node availability query is not configured''
         | Some available \<Rightarrow>
             (case Registry_Find node_type_name (vp_resolution_registry p) of
                None \<Rightarrow>
                  if \<not> available node_type_name
                  then failure RB_Direct RS_Unavailable ''direct node type is unavailable''
                  else Inr \<lparr>rd_intent_type = node_type_name, rd_concrete_type = node_type_name,
                    rd_selected_backend = RB_Direct, rd_fallback_reason = FR_None,
                    rd_input_token_type = '''', rd_output_token_type = '''', rd_fallback_used = False,
                    rd_state = RS_Selected\<rparr>
              | Some contract \<Rightarrow>
                  (case select_variant contract available (BackendPreference requested
                          (cf_backend_fallback_policy (vp_resolver_config p))) False of
                     (Some (backend, variant), _) \<Rightarrow>
                       let fallback_used = (requested \<noteq> RB_Auto \<and> backend \<noteq> requested) in
                       Inr \<lparr>rd_intent_type = node_type_name, rd_concrete_type = rv_concrete_type variant,
                         rd_selected_backend = backend,
                         rd_fallback_reason = (if fallback_used then FR_RequestedBackendUnavailable else FR_None),
                         rd_input_token_type = rt_input_token_type contract,
                         rd_output_token_type = rt_output_token_type contract,
                         rd_fallback_used = fallback_used,
                         rd_state = (if fallback_used then RS_Fallback else RS_Selected)\<rparr>
                   | (None, supported_variant_seen) \<Rightarrow>
                       let requested_has_variant = (requested = RB_Auto \<or>
                             VariantForBackend contract requested \<noteq> None)
                       in if \<not> requested_has_variant \<or> \<not> supported_variant_seen
                          then failure requested RS_Unsupported
                            ''requested backend does not support this node intent''
                          else failure requested RS_Unavailable
                            ''supported backend node is unavailable'')))"

definition ResolveNodeType ::
    "('s \<Rightarrow> string \<Rightarrow> bool) \<Rightarrow> 's resolving_node_provider \<Rightarrow> string \<Rightarrow>
     (resolution_diagnostic, resolution_failure) expected" where
  "ResolveNodeType inner_available p node_type_name =
     (case vp_inner p of
        None \<Rightarrow> Inl \<lparr>rf_intent_type = node_type_name,
          rf_requested_backend = cf_execution_backend (vp_resolver_config p),
          rf_state = RS_Unavailable, rf_detail = ''node provider is not initialized''\<rparr>
      | Some inner \<Rightarrow> ResolveWithAvailability p node_type_name (Some (inner_available inner)))"

definition Resolving_IsNodeTypeAvailable ::
    "('s \<Rightarrow> string \<Rightarrow> bool) \<Rightarrow> 's resolving_node_provider \<Rightarrow> string \<Rightarrow> bool" where
  "Resolving_IsNodeTypeAvailable inner_available p node_type_name \<longleftrightarrow>
     has_value (ResolveNodeType inner_available p node_type_name)"

definition Resolving_GetAvailableNodeTypes ::
    "('s \<Rightarrow> string \<Rightarrow> bool) \<Rightarrow> ('s \<Rightarrow> string list) \<Rightarrow> 's resolving_node_provider \<Rightarrow> string list" where
  "Resolving_GetAvailableNodeTypes inner_available inner_types p =
     (case vp_inner p of
        None \<Rightarrow> []
      | Some inner \<Rightarrow> sorted_list_of_set (set (inner_types inner) \<union>
          set (filter (Resolving_IsNodeTypeAvailable inner_available p) (IntentTypes (vp_resolution_registry p)))))"

definition Resolving_CreateNodeExpected ::
    "('s \<Rightarrow> string \<Rightarrow> bool) \<Rightarrow> (string \<Rightarrow> 's \<Rightarrow> ('n, node_creation_error) expected \<times> 's) \<Rightarrow> string \<Rightarrow>
     's resolving_node_provider \<Rightarrow> ('n, node_creation_error) expected \<times> 's resolving_node_provider" where
  "Resolving_CreateNodeExpected inner_available inner_create node_type_name p =
     (case vp_inner p of
        None \<Rightarrow> (Inl NC_NotInitialized, p)
      | Some inner \<Rightarrow>
          (case ResolveNodeType inner_available p node_type_name of
             Inl failure \<Rightarrow>
               (Inl (if rf_state failure = RS_Unsupported then NC_Unsupported else NC_BackendUnavailable),
                if cf_resolver_diagnostics (vp_resolver_config p)
                then p\<lparr>vp_resolution_failures := vp_resolution_failures p @ [failure]\<rparr> else p)
           | Inr resolved \<Rightarrow>
               let p' = (if cf_resolver_diagnostics (vp_resolver_config p)
                     then p\<lparr>vp_diagnostics := vp_diagnostics p @ [resolved]\<rparr> else p)
               in case inner_create (rd_concrete_type resolved) inner of
                    (r, inner') \<Rightarrow> (r, p'\<lparr>vp_inner := Some inner'\<rparr>)))"

section \<open>Names\<close>

lemma parse_backend_name: "ParseResolverBackend s = Some b \<longleftrightarrow> ToLowerCopy s = Backend_ToString b"
  by (cases b) (auto simp: ParseResolverBackend_def Let_def)

lemma parse_policy_name: "ParseResolverFallbackPolicy s = Some f \<longleftrightarrow> ToLowerCopy s = FallbackPolicy_ToString f"
  by (cases f) (auto simp: ParseResolverFallbackPolicy_def Let_def)

lemma parse_capability_name: "ParseResolverCapability s = Some c \<longleftrightarrow> ToLowerCopy s = Capability_ToString c"
  by (cases c) (auto simp: ParseResolverCapability_def Let_def)

lemmas parse_resolver_names = parse_backend_name parse_policy_name parse_capability_name

text \<open>
  The names of the backends, policies and capabilities: printing a value and parsing the text
  gives the value back, and the parser accepts exactly the spellings of a printed name, in upper or
  lower case.
\<close>

theorem resolver_names_roundtrip:
  "ParseResolverBackend (Backend_ToString b) = Some b \<and>
   ParseResolverFallbackPolicy (FallbackPolicy_ToString f) = Some f \<and>
   ParseResolverCapability (Capability_ToString c) = Some c \<and>
   (ParseResolverBackend s = Some b \<longleftrightarrow> ToLowerCopy s = Backend_ToString b) \<and>
   (ParseResolverFallbackPolicy s = Some f \<longleftrightarrow> ToLowerCopy s = FallbackPolicy_ToString f) \<and>
   (ParseResolverCapability s = Some c \<longleftrightarrow> ToLowerCopy s = Capability_ToString c)"
proof -
  have "ToLowerCopy (Backend_ToString b) = Backend_ToString b"
    "ToLowerCopy (FallbackPolicy_ToString f) = FallbackPolicy_ToString f"
    "ToLowerCopy (Capability_ToString c) = Capability_ToString c"
    by (cases b; cases f; cases c; simp add: ToLowerCopy_def tolower_def)+
  then show ?thesis by (simp add: parse_resolver_names)
qed

section \<open>Resolution\<close>

definition supported_variant :: "resolution_contract \<Rightarrow> resolver_backend \<Rightarrow> resolution_variant option" where
  "supported_variant contract backend =
     (case VariantForBackend contract backend of
        Some v \<Rightarrow> if rv_capability v = RC_Supported then Some v else None
      | None \<Rightarrow> None)"

definition usable :: "resolution_contract \<Rightarrow> (string \<Rightarrow> bool) \<Rightarrow> resolver_backend \<Rightarrow> bool" where
  "usable contract available backend \<longleftrightarrow>
     (case supported_variant contract backend of
        Some v \<Rightarrow> available (rv_concrete_type v) | None \<Rightarrow> False)"

lemma select_variant_eq:
  "select_variant contract available backends seen =
     (case find (usable contract available) backends of
        Some b \<Rightarrow> (Some (b, the (supported_variant contract b)), True)
      | None \<Rightarrow> (None, seen \<or> (\<exists>b \<in> set backends. supported_variant contract b \<noteq> None)))"
proof (induction backends arbitrary: seen)
  case (Cons b bs)
  have capability: "rv_capability v = RC_Unsupported \<longleftrightarrow> rv_capability v \<noteq> RC_Supported" for v :: resolution_variant
    by (cases "rv_capability v") auto
  show ?case
    by (auto simp: Cons.IH usable_def supported_variant_def capability split: option.split)
qed simp

lemma BackendPreference_set:
  "set (BackendPreference requested policy) =
     (if requested = RB_Auto then set auto_order
      else if policy = FP_AllowFallback then insert requested (set auto_order) else {requested})"
  by (cases requested; cases policy) (auto simp: BackendPreference_def auto_order_def)

lemma find_SomeD: "find P xs = Some x \<Longrightarrow> x \<in> set xs \<and> P x"
  by (auto simp: find_Some_iff)

text \<open>
  Resolution of an intent that has a contract. It succeeds exactly when some backend in the order
  of preference has a supported and available variant, takes the first such backend, selects an
  available node type and keeps the token types of the contract. It falls back only when a backend
  other than the requested one was selected, which the strict policy never does. It fails as
  unsupported exactly when the requested backend has no variant or no preferred backend supports the
  intent, and as unavailable otherwise.
\<close>

theorem resolution_of_intents:
  assumes "Registry_Find t (vp_resolution_registry p) = Some contract"
  defines "requested \<equiv> cf_execution_backend (vp_resolver_config p)"
    and "policy \<equiv> cf_backend_fallback_policy (vp_resolver_config p)"
  defines "order \<equiv> BackendPreference requested policy"
  shows "case ResolveWithAvailability p t (Some available) of
      Inr d \<Rightarrow> find (usable contract available) order = Some (rd_selected_backend d) \<and>
        supported_variant contract (rd_selected_backend d) \<noteq> None \<and>
        rd_concrete_type d = rv_concrete_type (the (supported_variant contract (rd_selected_backend d))) \<and>
        available (rd_concrete_type d) \<and>
        rd_input_token_type d = rt_input_token_type contract \<and>
        rd_output_token_type d = rt_output_token_type contract \<and>
        (rd_fallback_used d \<longleftrightarrow> requested \<noteq> RB_Auto \<and> rd_selected_backend d \<noteq> requested) \<and>
        (rd_fallback_used d \<longleftrightarrow> rd_state d = RS_Fallback) \<and>
        (rd_fallback_used d \<longrightarrow> policy = FP_AllowFallback)
    | Inl f \<Rightarrow> (\<forall>b \<in> set order. \<not> usable contract available b) \<and>
        rf_state f = (if (requested = RB_Auto \<or> VariantForBackend contract requested \<noteq> None) \<and>
            (\<exists>b \<in> set order. supported_variant contract b \<noteq> None) then RS_Unavailable else RS_Unsupported)"
proof (cases "find (usable contract available) order")
  case None
  then have "\<forall>b \<in> set order. \<not> usable contract available b" by (auto simp: find_None_iff)
  with None show ?thesis
    using assms(1) by (auto simp add: ResolveWithAvailability_def select_variant_eq requested_def policy_def
        order_def Let_def)
next
  case (Some b)
  then have b: "b \<in> set order" "usable contract available b" by (auto dest: find_SomeD)
  then obtain v where v: "supported_variant contract b = Some v" "available (rv_concrete_type v)"
    by (auto simp: usable_def split: option.splits)
  have "policy = FP_AllowFallback" if "requested \<noteq> RB_Auto" "b \<noteq> requested"
    using b(1) that by (auto simp: order_def BackendPreference_set split: if_splits)
  with Some v show ?thesis
    using assms(1) by (auto simp: ResolveWithAvailability_def select_variant_eq requested_def policy_def
        order_def Let_def)
qed

section \<open>The provider interface\<close>

locale node_provider =
  fixes available :: "'s \<Rightarrow> string \<Rightarrow> bool"
    and types :: "'s \<Rightarrow> string list"
    and create :: "string \<Rightarrow> 's \<Rightarrow> ('n, node_creation_error) expected \<times> 's"
  assumes types_sorted: "sorted (types s)"
    and types_distinct: "distinct (types s)"
    and available_listed: "available s t \<Longrightarrow> t \<in> set (types s)"
    and created_available: "fst (create t s) = Inr n \<Longrightarrow> available s t"
    and create_keeps_available: "available (snd (create t s)) = available s"
begin

lemma created_listed: "fst (create t s) = Inr n \<Longrightarrow> t \<in> set (types s)"
  using created_available available_listed by blast

lemma resolved_keeps:
  defines "q \<equiv> \<lambda>t p. snd (Resolving_CreateNodeExpected available create t p)"
  shows "Resolving_IsNodeTypeAvailable available (q t p) = Resolving_IsNodeTypeAvailable available p"
proof -
  have config: "vp_resolver_config (q t p) = vp_resolver_config p"
    "vp_resolution_registry (q t p) = vp_resolution_registry p"
    by (simp_all add: q_def Resolving_CreateNodeExpected_def Let_def split: option.split sum.split prod.split)
  have inner: "map_option available (vp_inner (q t p)) = map_option available (vp_inner p)"
    using create_keeps_available
    by (simp add: q_def Resolving_CreateNodeExpected_def Let_def case_prod_beta split: option.split sum.split)
  have same: "ResolveWithAvailability (q t p) u = ResolveWithAvailability p u" for u
    by (intro ext) (simp only: ResolveWithAvailability_def config)
  have "ResolveNodeType available r u = (case map_option available (vp_inner r) of
        None \<Rightarrow> Inl \<lparr>rf_intent_type = u, rf_requested_backend = cf_execution_backend (vp_resolver_config r),
          rf_state = RS_Unavailable, rf_detail = ''node provider is not initialized''\<rparr>
      | Some av \<Rightarrow> ResolveWithAvailability r u (Some av))" for r u
    by (simp add: ResolveNodeType_def split: option.split)
  then show ?thesis
    by (simp only: fun_eq_iff Resolving_IsNodeTypeAvailable_def inner same config simp_thms)
qed

lemma resolving_is_provider:
  "node_provider (Resolving_IsNodeTypeAvailable available) (Resolving_GetAvailableNodeTypes available types)
     (Resolving_CreateNodeExpected available create)"
proof
  fix p :: "'s resolving_node_provider" and t :: string and n :: 'n
  show "sorted (Resolving_GetAvailableNodeTypes available types p)"
    "distinct (Resolving_GetAvailableNodeTypes available types p)"
    by (simp_all add: Resolving_GetAvailableNodeTypes_def split: option.split)
  show "t \<in> set (Resolving_GetAvailableNodeTypes available types p)"
    if av: "Resolving_IsNodeTypeAvailable available p t"
  proof -
    obtain inner where inner: "vp_inner p = Some inner"
      using av by (cases "vp_inner p") (auto simp: Resolving_IsNodeTypeAvailable_def ResolveNodeType_def has_value_def)
    show ?thesis
    proof (cases "Registry_Find t (vp_resolution_registry p)")
      case None
      then have "available inner t"
        using av inner by (auto simp: Resolving_IsNodeTypeAvailable_def ResolveNodeType_def
            ResolveWithAvailability_def has_value_def split: if_splits)
      then show ?thesis using inner available_listed by (simp add: Resolving_GetAvailableNodeTypes_def)
    next
      case (Some contract)
      then have "t \<in> set (IntentTypes (vp_resolution_registry p))"
        by (simp add: Registry_Find_def IntentTypes_def fmdomI)
      then show ?thesis using inner av by (simp add: Resolving_GetAvailableNodeTypes_def)
    qed
  qed
  show "Resolving_IsNodeTypeAvailable available p t"
    if "fst (Resolving_CreateNodeExpected available create t p) = Inr n"
    using that by (auto simp: Resolving_CreateNodeExpected_def Resolving_IsNodeTypeAvailable_def has_value_def
        split: option.splits sum.splits)
  show "Resolving_IsNodeTypeAvailable available (snd (Resolving_CreateNodeExpected available create t p)) =
      Resolving_IsNodeTypeAvailable available p"
    by (rule resolved_keeps)
qed

end

lemma Registered_types_sorted:
  "sorted (Registered_GetAvailableNodeTypes p)" "distinct (Registered_GetAvailableNodeTypes p)"
  by (simp_all add: Registered_GetAvailableNodeTypes_def GetRegisteredNodeTypes_def remdups_adj_distinct
      sorted_list_of_fset.rep_eq split: option.split)

lemma Registered_available_listed:
  "Registered_IsNodeTypeAvailable p t \<Longrightarrow> t \<in> set (Registered_GetAvailableNodeTypes p)"
  by (auto simp: Registered_IsNodeTypeAvailable_def Registered_GetAvailableNodeTypes_def HasNodeType_def
      GetRegisteredNodeTypes_def fmdomI split: option.splits)

lemma Registered_created_available:
  "fst (Registered_CreateNodeExpected invoke t p) = Inr n \<Longrightarrow> Registered_IsNodeTypeAvailable p t"
  by (auto simp: Registered_CreateNodeExpected_def Registered_IsNodeTypeAvailable_def HasNodeType_def
      PluginRegistry_CreateNodeExpected_def Registered_Initialize_def Let_def
      split: if_splits option.splits sum.splits plugin_registry_error.splits)

lemma Registered_create_keeps:
  "Registered_IsNodeTypeAvailable (snd (Registered_CreateNodeExpected invoke t p)) = Registered_IsNodeTypeAvailable p"
proof -
  have "rp_plugin_registry (snd (Registered_CreateNodeExpected invoke t p)) = rp_plugin_registry p"
    by (simp add: Registered_CreateNodeExpected_def Registered_Initialize_def Let_def
        split: option.split sum.split plugin_registry_error.split)
  then show ?thesis by (simp add: fun_eq_iff Registered_IsNodeTypeAvailable_def)
qed

interpretation registered: node_provider Registered_IsNodeTypeAvailable Registered_GetAvailableNodeTypes
  "Registered_CreateNodeExpected invoke" for invoke
  by unfold_locales (auto simp: Registered_types_sorted Registered_create_keeps
      intro: Registered_available_listed Registered_created_available)

interpretation resolving: node_provider "Resolving_IsNodeTypeAvailable Registered_IsNodeTypeAvailable"
  "Resolving_GetAvailableNodeTypes Registered_IsNodeTypeAvailable Registered_GetAvailableNodeTypes"
  "Resolving_CreateNodeExpected Registered_IsNodeTypeAvailable (Registered_CreateNodeExpected invoke)" for invoke
  by (rule registered.resolving_is_provider)

text \<open>
  C27. The provider interface over the plugin registry, through the resolver: a node that was created
  had been reported as available, an available type is listed, the list is sorted without
  duplicates, and creating nodes never changes which types are available.
\<close>

theorem resolving_provider_contract:
  "(fst (Resolving_CreateNodeExpected Registered_IsNodeTypeAvailable (Registered_CreateNodeExpected invoke) t p) = Inr n \<longrightarrow>
      Resolving_IsNodeTypeAvailable Registered_IsNodeTypeAvailable p t) \<and>
   (Resolving_IsNodeTypeAvailable Registered_IsNodeTypeAvailable p t \<longrightarrow>
      t \<in> set (Resolving_GetAvailableNodeTypes Registered_IsNodeTypeAvailable Registered_GetAvailableNodeTypes p)) \<and>
   sorted (Resolving_GetAvailableNodeTypes Registered_IsNodeTypeAvailable Registered_GetAvailableNodeTypes p) \<and>
   distinct (Resolving_GetAvailableNodeTypes Registered_IsNodeTypeAvailable Registered_GetAvailableNodeTypes p) \<and>
   Resolving_IsNodeTypeAvailable Registered_IsNodeTypeAvailable
     (snd (Resolving_CreateNodeExpected Registered_IsNodeTypeAvailable (Registered_CreateNodeExpected invoke) t p)) =
   Resolving_IsNodeTypeAvailable Registered_IsNodeTypeAvailable p"
  using resolving.created_available resolving.available_listed resolving.types_sorted
    resolving.types_distinct resolving.create_keeps_available
  by blast

section \<open>Examples\<close>

definition sample_plugins :: "(nat, nat, nat) plugin_registry" where
  "sample_plugins = snd (RegisterNodeTypeExpected (\<lambda>h f. Some 1) ''H2DAsyncNode'' '''' '''' ''create'' '''' ''1.0''
     (Some 1) (Some 1) fmempty)"

definition sample_provider ::
    "resolver_backend \<Rightarrow> resolver_fallback_policy \<Rightarrow> (nat, nat, nat) registered_node_provider resolving_node_provider" where
  "sample_provider backend policy = ResolvingNodeProvider (Some (RegisteredNodeProvider (Some sample_plugins)))
     \<lparr>cf_execution_backend = backend, cf_backend_fallback_policy = policy, cf_resolver_diagnostics = True,
      cf_edge_contract = ''''\<rparr> CreateDefault"

lemma sample_available:
  "Registered_IsNodeTypeAvailable (RegisteredNodeProvider (Some sample_plugins)) t \<longleftrightarrow> t = ''H2DAsyncNode''"
  by (simp add: Registered_IsNodeTypeAvailable_def RegisteredNodeProvider_def sample_plugins_def HasNodeType_def
      RegisterNodeTypeExpected_def ResolveCreateNodeFunction_def)

definition sample_contract :: resolution_contract where
  "sample_contract = \<lparr>rt_intent_type = ''H2DAsyncNode'', rt_input_token_type = ''HostPinnedBufferView'',
     rt_output_token_type = ''DeviceBufferView'',
     rt_variants = [supported RB_Metal ''H2DAsyncNodeMetal'', supported RB_Stub ''H2DAsyncNode'',
       supported RB_Cuda ''H2DAsyncNode'']\<rparr>"

lemma sample_contract_found: "Registry_Find ''H2DAsyncNode'' CreateDefault = Some sample_contract"
  by (simp add: Registry_Find_def CreateDefault_def AddContract_def sample_contract_def)

text \<open>Metal is requested and missing; with fallback the stub node is selected.\<close>

theorem resolution_of_intents_witness:
  "case ResolveWithAvailability (sample_provider RB_Metal FP_AllowFallback) ''H2DAsyncNode''
      (Some (\<lambda>t. t = ''H2DAsyncNode'')) of
     Inr d \<Rightarrow> rd_selected_backend d = RB_Stub \<and> rd_fallback_used d \<and> rd_output_token_type d = ''DeviceBufferView''
   | Inl _ \<Rightarrow> False"
proof -
  let ?p = "sample_provider RB_Metal FP_AllowFallback" and ?av = "\<lambda>t. t = ''H2DAsyncNode''"
  have c: "Registry_Find ''H2DAsyncNode'' (vp_resolution_registry ?p) = Some sample_contract"
    by (simp add: sample_provider_def ResolvingNodeProvider_def sample_contract_found)
  have f: "find (usable sample_contract ?av) (BackendPreference RB_Metal FP_AllowFallback) = Some RB_Stub"
    by (simp add: BackendPreference_def auto_order_def usable_def supported_variant_def VariantForBackend_def
        sample_contract_def)
  then have "\<exists>b \<in> set (BackendPreference RB_Metal FP_AllowFallback). usable sample_contract ?av b"
    using find_SomeD by fast
  then show ?thesis
    using resolution_of_intents [OF c, of ?av] f
    by (auto simp: sample_provider_def ResolvingNodeProvider_def sample_contract_def split: sum.splits)
qed

lemma sample_resolves:
  "Resolving_IsNodeTypeAvailable Registered_IsNodeTypeAvailable (sample_provider backend policy) ''H2DAsyncNode'' \<longleftrightarrow>
   backend \<noteq> RB_Metal \<and> backend \<noteq> RB_Direct \<and> backend \<noteq> RB_Unknown \<or> policy = FP_AllowFallback"
  by (cases backend; cases policy)
     (simp_all add: Resolving_IsNodeTypeAvailable_def has_value_def ResolveNodeType_def sample_provider_def
       ResolvingNodeProvider_def ResolveWithAvailability_def sample_contract_found sample_contract_def
       sample_available BackendPreference_def auto_order_def VariantForBackend_def)

theorem resolving_provider_contract_witness:
  "''H2DAsyncNode'' \<in> set (Resolving_GetAvailableNodeTypes Registered_IsNodeTypeAvailable
     Registered_GetAvailableNodeTypes (sample_provider RB_Auto FP_Strict))"
  using resolving_provider_contract [of "\<lambda>_. Created (0 :: nat)" "''H2DAsyncNode''" "sample_provider RB_Auto FP_Strict"]
    sample_resolves [of RB_Auto FP_Strict] by simp

text \<open>
  The list of available types is not exact: it contains every type of the inner provider, also one
  that is an intent which the resolver refuses, as here, where only the stub variant exists and Metal
  is required.
\<close>

theorem refused_intent_is_listed:
  "let p = sample_provider RB_Metal FP_Strict in
     ''H2DAsyncNode'' \<in> set (Resolving_GetAvailableNodeTypes Registered_IsNodeTypeAvailable
        Registered_GetAvailableNodeTypes p) \<and>
     \<not> Resolving_IsNodeTypeAvailable Registered_IsNodeTypeAvailable p ''H2DAsyncNode''"
proof -
  have "''H2DAsyncNode'' \<in> set (Registered_GetAvailableNodeTypes (RegisteredNodeProvider (Some sample_plugins)))"
    using Registered_available_listed sample_available by blast
  then show ?thesis
    by (simp add: sample_resolves) (simp add: Resolving_GetAvailableNodeTypes_def sample_provider_def ResolvingNodeProvider_def)
qed

end
