(* ===== verification/Graph_Config.thy ===== *)
theory Graph_Config
  imports Json_Values Numeric_Text Errors Node_Providers
begin

text \<open>
  The graph configuration (\<open>libgraph/include/graph/GraphConfig.hpp\<close>), its parser and its validation
  (\<open>libgraph/src/graph/GraphConfigParser.cpp\<close>). \<open>json::parse\<close> is the argument \<open>parse\<close>, which returns
  no document on a \<open>parse_error\<close>, and \<open>hw\<close> is \<open>std::thread::hardware_concurrency()\<close>. A \<open>type_error\<close>
  of a conversion is the error that the surrounding handler turns it into.
\<close>

section \<open>The configuration\<close>

record 'f node_config =
  nf_id :: string
  nf_type :: string
  nf_name :: string
  nf_description :: string
  nf_node_config :: "'f json"
  nf_port_config :: "(string \<times> 'f json) list"

definition lower_letter :: "char \<Rightarrow> bool" where
  "lower_letter c \<longleftrightarrow> 97 \<le> (of_char c :: nat) \<and> (of_char c :: nat) \<le> 122"

definition upper_letter :: "char \<Rightarrow> bool" where
  "upper_letter c \<longleftrightarrow> 65 \<le> (of_char c :: nat) \<and> (of_char c :: nat) \<le> 90"

definition NodeConfig_Validate :: "'f node_config \<Rightarrow> bool" where
  "NodeConfig_Validate n =
     (case nf_id n of
        [] \<Rightarrow> False
      | c # _ \<Rightarrow>
          if \<not> (lower_letter c \<or> upper_letter c \<or> c = CHR ''_'') then False
          else if list_ex (\<lambda>c. \<not> lower_letter c \<and> \<not> upper_letter c \<and> \<not> is_digit c \<and> c \<noteq> CHR ''_'') (nf_id n)
          then False
          else nf_type n \<noteq> [])"

record edge_config =
  ef_source_node_id :: string
  ef_source_port :: u64
  ef_source_port_name :: string
  ef_target_node_id :: string
  ef_target_port :: u64
  ef_target_port_name :: string
  ef_buffer_size :: u64
  ef_backpressure_enabled :: bool
  ef_payload_contract :: string
  ef_description :: string

definition EdgeConfig_Validate :: "edge_config \<Rightarrow> bool" where
  "EdgeConfig_Validate e \<longleftrightarrow> ef_source_node_id e \<noteq> [] \<and> ef_target_node_id e \<noteq> [] \<and> 0 < ef_buffer_size e"

record graph_metadata =
  mt_version :: string
  mt_description :: string
  mt_author :: string
  mt_created :: string

text \<open>A \<open>ResolverMapping\<close> has the fields of a \<open>NodeResolutionContract\<close>.\<close>

type_synonym resolver_mapping = resolution_contract

record 'f graph_config =
  gf_metadata :: graph_metadata
  gf_name :: string
  gf_description :: string
  gf_num_threads :: u64
  gf_resolver :: resolver_config
  gf_resolver_mappings :: "resolver_mapping list"
  gf_deadlock_enabled :: bool
  gf_deadlock_timeout_ms :: u32
  gf_nodes :: "'f node_config list"
  gf_edges :: "edge_config list"

definition default_resolver :: resolver_config where
  "default_resolver = \<lparr>cf_execution_backend = RB_Auto, cf_backend_fallback_policy = FP_Strict,
     cf_resolver_diagnostics = True, cf_edge_contract = []\<rparr>"

definition GraphConfig_Validate :: "'f graph_config \<Rightarrow> bool" where
  "GraphConfig_Validate c \<longleftrightarrow>
     gf_nodes c \<noteq> [] \<and> gf_name c \<noteq> [] \<and> list_all NodeConfig_Validate (gf_nodes c) \<and>
     list_all EdgeConfig_Validate (gf_edges c) \<and>
     list_all (\<lambda>n. length (filter (\<lambda>m. nf_id m = nf_id n) (gf_nodes c)) \<le> 1) (gf_nodes c)"

section \<open>Names\<close>

definition contract_space :: "char \<Rightarrow> bool" where
  "contract_space c \<longleftrightarrow> c = CHR '' '' \<or> c = CHR 0x09 \<or> c = CHR 0x0A \<or> c = CHR 0x0D"

definition NormalizeContractName :: "string \<Rightarrow> string" where
  "NormalizeContractName raw =
     map tolower (rev (dropWhile contract_space (rev (dropWhile contract_space raw))))"

definition IsLegacySarPayloadContract :: "string \<Rightarrow> bool" where
  "IsLegacySarPayloadContract payload_contract \<longleftrightarrow> NormalizeContractName payload_contract \<in> set
     [''sarpulseblockmessage'', ''sarrangetilemessage'', ''sarimagetilemessage'', ''sardeviceleasemessage'',
      ''sartransferticketmessage'']"

definition word_char :: "char \<Rightarrow> bool" where
  "word_char c \<longleftrightarrow> lower_letter c \<or> upper_letter c \<or> is_digit c \<or> c = CHR ''_''"

definition IsValidNodeId :: "string \<Rightarrow> bool" where
  "IsValidNodeId nid \<longleftrightarrow> nid \<noteq> [] \<and> length nid \<le> 255 \<and> list_all (\<lambda>c. word_char c \<or> c = CHR ''-'') nid"

text \<open>The regular expression: a letter or underscore, word characters, an optional \<open>_\<close> with digits.\<close>

definition port_suffix :: "string \<Rightarrow> bool" where
  "port_suffix s \<longleftrightarrow> s = [] \<or> (hd s = CHR ''_'' \<and> tl s \<noteq> [] \<and> list_all is_digit (tl s))"

definition IsValidPortSpec :: "string \<Rightarrow> bool" where
  "IsValidPortSpec port_spec \<longleftrightarrow> port_spec \<noteq> [] \<and> length port_spec \<le> 255 \<and>
     (lower_letter (hd port_spec) \<or> upper_letter (hd port_spec) \<or> hd port_spec = CHR ''_'') \<and>
     list_ex (\<lambda>i. list_all word_char (take i (tl port_spec)) \<and> port_suffix (drop i (tl port_spec)))
       [0..<length port_spec]"

section \<open>Parsing\<close>

abbreviation string_of :: "'f json \<Rightarrow> (string, config_error) expected" where
  "string_of \<equiv> get_string CFE_TypeMismatch"

abbreviation bool_of :: "'f json \<Rightarrow> (bool, config_error) expected" where
  "bool_of \<equiv> get_bool CFE_TypeMismatch"

definition ParseMetadata :: "'f json \<Rightarrow> (graph_metadata, config_error) expected" where
  "ParseMetadata config_json =
     (case member config_json ''metadata'' of
        None \<Rightarrow> Inr \<lparr>mt_version = [], mt_description = [], mt_author = [], mt_created = []\<rparr>
      | Some meta_json \<Rightarrow>
          bind_ok (optional_member [] string_of meta_json ''version'') (\<lambda>version.
          bind_ok (optional_member [] string_of meta_json ''description'') (\<lambda>description.
          bind_ok (optional_member [] string_of meta_json ''author'') (\<lambda>author.
          bind_ok (optional_member [] string_of meta_json ''created'') (\<lambda>created.
          Inr \<lparr>mt_version = version, mt_description = description, mt_author = author, mt_created = created\<rparr>)))))"

definition ParseNodeSafe :: "'f json \<Rightarrow> ('f node_config, config_error) expected" where
  "ParseNodeSafe node_json =
     (if \<not> is_object node_json then Inl CFE_TypeMismatch
      else
        bind_ok (required_member CFE_MissingRequired string_of node_json ''id'') (\<lambda>id.
        bind_ok (required_member CFE_MissingRequired string_of node_json ''type'') (\<lambda>type.
        bind_ok (optional_member [] string_of node_json ''name'') (\<lambda>name.
        bind_ok (optional_member [] string_of node_json ''description'') (\<lambda>description.
        bind_ok (optional_member JNull Inr node_json ''node_config'') (\<lambda>node_config.
        bind_ok (optional_member [] (get_map CFE_TypeMismatch) node_json ''port_config'') (\<lambda>port_config.
        Inr \<lparr>nf_id = id, nf_type = type, nf_name = name, nf_description = description,
             nf_node_config = node_config, nf_port_config = port_config\<rparr>)))))))"

text \<open>The same code reads the source and the target of an edge: an index and a name.\<close>

definition numeric_token :: "string \<Rightarrow> bool" where
  "numeric_token token \<longleftrightarrow> token \<noteq> [] \<and> list_all is_digit token"

definition read_port :: "string \<Rightarrow> 'f json \<Rightarrow> (u64 \<times> string, config_error) expected" where
  "read_port port_name v =
     (case v of
        JUnsigned w \<Rightarrow> Inr (w, port_name)
      | JInteger w \<Rightarrow> if sint w < 0 then Inl CFE_OutOfRange else Inr (w, port_name)
      | JString token \<Rightarrow>
          if numeric_token token
          then (case stoull token of
                  Inr (w, _) \<Rightarrow> Inr (w, port_name)
                | Inl Not_A_Number \<Rightarrow> Inl CFE_TypeMismatch
                | Inl Number_Out_Of_Range \<Rightarrow> Inl CFE_OutOfRange)
          else Inr (0, token)
      | _ \<Rightarrow> Inl CFE_TypeMismatch)"

definition ParsePort :: "'f json \<Rightarrow> string \<Rightarrow> string \<Rightarrow> (u64 \<times> string, config_error) expected" where
  "ParsePort edge_json port_key name_key =
     (if member edge_json port_key = None \<and> member edge_json name_key = None then Inl CFE_MissingRequired
      else
        bind_ok (optional_member [] string_of edge_json name_key) (\<lambda>port_name.
        optional_member (0, port_name) (read_port port_name) edge_json port_key))"

definition ParseEdgeSafe :: "'f json \<Rightarrow> (edge_config, config_error) expected" where
  "ParseEdgeSafe edge_json =
     (if \<not> is_object edge_json then Inl CFE_TypeMismatch
      else
        bind_ok (required_member CFE_MissingRequired string_of edge_json ''source_node_id'') (\<lambda>source.
        bind_ok (ParsePort edge_json ''source_port'' ''source_port_name'') (\<lambda>source_port.
        bind_ok (required_member CFE_MissingRequired string_of edge_json ''target_node_id'') (\<lambda>target.
        bind_ok (ParsePort edge_json ''target_port'' ''target_port_name'') (\<lambda>target_port.
        bind_ok (optional_member 100 (get_unsigned CFE_TypeMismatch) edge_json ''buffer_size'') (\<lambda>buffer_size.
        bind_ok (optional_member True bool_of edge_json ''backpressure_enabled'') (\<lambda>backpressure.
        bind_ok (optional_member [] string_of edge_json ''payload_contract'') (\<lambda>payload_contract.
        Inr \<lparr>ef_source_node_id = source, ef_source_port = fst source_port, ef_source_port_name = snd source_port,
             ef_target_node_id = target, ef_target_port = fst target_port, ef_target_port_name = snd target_port,
             ef_buffer_size = buffer_size, ef_backpressure_enabled = backpressure,
             ef_payload_contract = payload_contract, ef_description = []\<rparr>))))))))"

text \<open>The options of the resolver.\<close>

definition parse_named ::
    "(string \<Rightarrow> 'a option) \<Rightarrow> 'a list \<Rightarrow> 'f json \<Rightarrow> ('a, config_error) expected" where
  "parse_named parser refused v =
     bind_ok (string_of v) (\<lambda>s. case parser s of
         None \<Rightarrow> Inl CFE_ValidationFailed
       | Some x \<Rightarrow> if x \<in> set refused then Inl CFE_ValidationFailed else Inr x)"

definition parse_edge_contract :: "'f json \<Rightarrow> (string, config_error) expected" where
  "parse_edge_contract v =
     bind_ok (string_of v) (\<lambda>s. if s \<noteq> [] \<and> s \<noteq> ''accel-token'' then Inl CFE_ValidationFailed else Inr s)"

definition ParseResolver :: "'f json \<Rightarrow> (resolver_config, config_error) expected" where
  "ParseResolver json_data =
     bind_ok (optional_member RB_Auto (parse_named ParseResolverBackend [RB_Direct, RB_Unknown]) json_data
       ''execution_backend'') (\<lambda>backend.
     bind_ok (optional_member FP_Strict (parse_named ParseResolverFallbackPolicy []) json_data
       ''backend_fallback_policy'') (\<lambda>policy.
     bind_ok (optional_member True bool_of json_data ''resolver_diagnostics'') (\<lambda>diagnostics.
     bind_ok (optional_member [] parse_edge_contract json_data ''edge_contract'') (\<lambda>edge_contract.
     Inr \<lparr>cf_execution_backend = backend, cf_backend_fallback_policy = policy,
          cf_resolver_diagnostics = diagnostics, cf_edge_contract = edge_contract\<rparr>))))"

definition ParseVariant :: "'f json \<Rightarrow> (resolution_variant, config_error) expected" where
  "ParseVariant variant_json =
     (case (member variant_json ''backend'', member variant_json ''concrete_type'') of
        (Some (JString backend), Some (JString concrete_type)) \<Rightarrow>
          bind_ok (parse_named ParseResolverBackend [RB_Auto, RB_Direct, RB_Unknown] (JString backend :: 'f json))
            (\<lambda>parsed_backend.
          if concrete_type = [] then Inl CFE_ValidationFailed
          else bind_ok (optional_member RC_Supported (parse_named ParseResolverCapability []) variant_json
            ''capability'') (\<lambda>capability.
          Inr \<lparr>rv_backend = parsed_backend, rv_concrete_type = concrete_type, rv_capability = capability\<rparr>))
      | _ \<Rightarrow> Inl CFE_TypeMismatch)"

definition token_type :: "string \<Rightarrow> 'f json \<Rightarrow> (string, config_error) expected" where
  "token_type edge_contract v =
     bind_ok (string_of v) (\<lambda>s. if edge_contract = ''accel-token'' \<and> IsLegacySarPayloadContract s
       then Inl CFE_ValidationFailed else Inr s)"

definition ParseMapping :: "string \<Rightarrow> 'f json \<Rightarrow> (resolver_mapping, config_error) expected" where
  "ParseMapping edge_contract mapping_json =
     (case member mapping_json ''intent_type'' of
        Some (JString intent_type) \<Rightarrow>
          (case member mapping_json ''variants'' of
             Some (JArray variants) \<Rightarrow>
               if variants = [] then Inl CFE_ValidationFailed
               else if intent_type = [] then Inl CFE_ValidationFailed
               else
                 bind_ok (optional_member [] (token_type edge_contract) mapping_json ''input_token_type'') (\<lambda>input.
                 bind_ok (optional_member [] (token_type edge_contract) mapping_json ''output_token_type'') (\<lambda>output.
                 bind_ok (collect ParseVariant variants) (\<lambda>vs.
                 Inr \<lparr>rt_intent_type = intent_type, rt_input_token_type = input,
                      rt_output_token_type = output, rt_variants = vs\<rparr>)))
           | _ \<Rightarrow> Inl CFE_ValidationFailed)
      | _ \<Rightarrow> Inl CFE_TypeMismatch)"

definition ParseDeadlock :: "'f json \<Rightarrow> (bool \<times> u32, config_error) expected" where
  "ParseDeadlock dd_obj =
     (case dd_obj of
        JObject _ \<Rightarrow>
          bind_ok (optional_member True bool_of dd_obj ''enabled'') (\<lambda>enabled.
          bind_ok (optional_member 5000 (\<lambda>v. bind_ok (get_natural CFE_TypeMismatch CFE_OutOfRange v)
            (\<lambda>w. Inr (ucast w))) dd_obj ''timeout_ms'') (\<lambda>timeout_ms.
          Inr (enabled, timeout_ms)))
      | JBool b \<Rightarrow> Inr (b, 5000)
      | _ \<Rightarrow> Inl CFE_TypeMismatch)"

definition ParseContractEdge :: "string \<Rightarrow> 'f json \<Rightarrow> (edge_config, config_error) expected" where
  "ParseContractEdge edge_contract edge_json =
     bind_ok (ParseEdgeSafe edge_json) (\<lambda>edge.
     if edge_contract = ''accel-token'' \<and> IsLegacySarPayloadContract (ef_payload_contract edge)
     then Inl CFE_ValidationFailed else Inr edge)"

definition array_of :: "('f json \<Rightarrow> ('a, config_error) expected) \<Rightarrow> 'f json \<Rightarrow> ('a list, config_error) expected" where
  "array_of reader v = bind_ok (get_array CFE_TypeMismatch v) (collect reader)"

definition ParseDocument :: "u32 \<Rightarrow> 'f json \<Rightarrow> ('f graph_config, config_error) expected" where
  "ParseDocument hw json_data =
     (if \<not> is_object json_data then Inl CFE_TypeMismatch
      else
        bind_ok (ParseMetadata json_data) (\<lambda>metadata.
        bind_ok (optional_member [] string_of json_data ''name'') (\<lambda>name.
        bind_ok (optional_member [] string_of json_data ''description'') (\<lambda>description.
        bind_ok (ParseResolver json_data) (\<lambda>resolver.
        bind_ok (optional_member [] (array_of (ParseMapping (cf_edge_contract resolver))) json_data
          ''resolver_mappings'') (\<lambda>mappings.
        bind_ok (optional_member (ucast hw) (get_natural CFE_TypeMismatch CFE_OutOfRange) json_data
          ''num_threads'') (\<lambda>num_threads.
        bind_ok (optional_member (True, 5000) ParseDeadlock json_data ''deadlock_detection'') (\<lambda>deadlock.
        bind_ok (required_member CFE_MissingRequired (array_of ParseNodeSafe) json_data ''nodes'') (\<lambda>nodes.
        bind_ok (optional_member [] (array_of (ParseContractEdge (cf_edge_contract resolver))) json_data
          ''edges'') (\<lambda>edges.
        Inr \<lparr>gf_metadata = metadata, gf_name = name, gf_description = description, gf_num_threads = num_threads,
             gf_resolver = resolver, gf_resolver_mappings = mappings, gf_deadlock_enabled = fst deadlock,
             gf_deadlock_timeout_ms = snd deadlock, gf_nodes = nodes, gf_edges = edges\<rparr>))))))))))"

definition ParseSafe ::
    "(string \<Rightarrow> 'f json option) \<Rightarrow> u32 \<Rightarrow> string \<Rightarrow> ('f graph_config, config_error) expected" where
  "ParseSafe parse hw json_text =
     (case parse json_text of None \<Rightarrow> Inl CFE_InvalidFormat | Some json_data \<Rightarrow> ParseDocument hw json_data)"

text \<open>\<open>read_file\<close> is the content of a file, or no value when it cannot be opened.\<close>

definition ParseFileSafe ::
    "(string \<Rightarrow> 'f json option) \<Rightarrow> u32 \<Rightarrow> (string \<Rightarrow> string option) \<Rightarrow> string \<Rightarrow>
     ('f graph_config, config_error) expected" where
  "ParseFileSafe parse hw read_file filepath =
     (case read_file filepath of None \<Rightarrow> Inl CFE_FileNotFound | Some text \<Rightarrow> ParseSafe parse hw text)"

section \<open>Validation\<close>

record validation_result =
  vr_valid :: bool
  vr_errors :: "string list"

definition complain :: "bool \<Rightarrow> string \<Rightarrow> validation_result \<Rightarrow> validation_result" where
  "complain bad message r =
     (if bad then r\<lparr>vr_valid := False, vr_errors := vr_errors r @ [message]\<rparr> else r)"

definition validate_node ::
    "'f node_config \<Rightarrow> string list \<times> validation_result \<Rightarrow> string list \<times> validation_result" where
  "validate_node n s = (case s of (node_ids, result) \<Rightarrow>
     (node_ids @ [nf_id n],
      complain (nf_id n \<in> set node_ids) (''Duplicate node ID: '' @ nf_id n)
        (complain (\<not> NodeConfig_Validate n) (''Node '' @ [CHR 0x27] @ nf_id n @ [CHR 0x27] @ '' validation failed'') result)))"

definition validate_edge ::
    "string \<Rightarrow> string list \<Rightarrow> edge_config \<Rightarrow> validation_result \<Rightarrow> validation_result" where
  "validate_edge edge_contract node_ids e result =
     complain (ef_source_node_id e = ef_target_node_id e) (''Cannot create self-loop: '' @ ef_source_node_id e)
       (complain (ef_target_node_id e \<notin> set node_ids) (''Edge target node not found: '' @ ef_target_node_id e)
         (complain (ef_source_node_id e \<notin> set node_ids) (''Edge source node not found: '' @ ef_source_node_id e)
           (complain (edge_contract = ''accel-token'' \<and> IsLegacySarPayloadContract (ef_payload_contract e))
             (''Legacy SAR payload contract is not allowed on accel-token edge: '' @ ef_payload_contract e)
             (complain (\<not> EdgeConfig_Validate e) ''Edge validation failed'' result))))"

definition GraphConfigParser_Validate :: "'f graph_config \<Rightarrow> validation_result" where
  "GraphConfigParser_Validate config =
     (case fold validate_node (gf_nodes config)
        ([], complain (gf_num_threads config = 0) ''Number of threads must be greater than 0''
           \<lparr>vr_valid = True, vr_errors = []\<rparr>) of
        (node_ids, result) \<Rightarrow>
          fold (validate_edge (cf_edge_contract (gf_resolver config)) node_ids) (gf_edges config) result)"

section \<open>Which documents are graph configurations\<close>

text \<open>
  The format of a graph configuration as a document type. Two conditions span several members: an
  edge names each of its ports by index or by name, and no legacy payload contract occurs when the
  edge contract is \<open>accel-token\<close>.
\<close>

definition port_token :: "string \<Rightarrow> bool" where
  "port_token s \<longleftrightarrow> (numeric_token s \<longrightarrow> read_digits s < 2 ^ 64)"

definition node_type :: jtype where
  "node_type = TRecord [(''id'', True, TString), (''type'', True, TString), (''name'', False, TString),
     (''description'', False, TString), (''node_config'', False, TAny), (''port_config'', False, TMap)]"

definition edge_type :: jtype where
  "edge_type = TRecord [(''source_node_id'', True, TString), (''source_port'', False, TPort port_token),
     (''source_port_name'', False, TString), (''target_node_id'', True, TString),
     (''target_port'', False, TPort port_token), (''target_port_name'', False, TString),
     (''buffer_size'', False, TUnsigned), (''backpressure_enabled'', False, TBool),
     (''payload_contract'', False, TString)]"

definition variant_type :: jtype where
  "variant_type = TRecord [(''backend'', True, TName ToLowerCopy [''metal'', ''cuda'', ''stub'']),
     (''concrete_type'', True, TNonempty),
     (''capability'', False, TName ToLowerCopy [''supported'', ''unsupported''])]"

definition mapping_type :: jtype where
  "mapping_type = TRecord [(''intent_type'', True, TNonempty), (''variants'', True, TArray1 variant_type),
     (''input_token_type'', False, TString), (''output_token_type'', False, TString)]"

definition metadata_type :: jtype where
  "metadata_type = TLax [(''version'', False, TString), (''description'', False, TString),
     (''author'', False, TString), (''created'', False, TString)]"

definition graph_type :: jtype where
  "graph_type = TRecord [(''metadata'', False, metadata_type), (''name'', False, TString),
     (''description'', False, TString),
     (''execution_backend'', False, TName ToLowerCopy [''auto'', ''metal'', ''cuda'', ''stub'']),
     (''backend_fallback_policy'', False, TName ToLowerCopy [''strict'', ''allow_fallback'']),
     (''resolver_diagnostics'', False, TBool), (''edge_contract'', False, TOneOf ['''', ''accel-token'']),
     (''resolver_mappings'', False, TArray mapping_type), (''num_threads'', False, TNatural),
     (''deadlock_detection'', False, TOr TBool (TRecord [(''enabled'', False, TBool), (''timeout_ms'', False, TNatural)])),
     (''nodes'', True, TArray node_type), (''edges'', False, TArray edge_type)]"

definition names_ports :: "'f json \<Rightarrow> bool" where
  "names_ports e \<longleftrightarrow>
     (member e ''source_port'' \<noteq> None \<or> member e ''source_port_name'' \<noteq> None) \<and>
     (member e ''target_port'' \<noteq> None \<or> member e ''target_port_name'' \<noteq> None)"

fun legacy_text :: "'f json option \<Rightarrow> bool" where
  "legacy_text (Some (JString s)) = IsLegacySarPayloadContract s"
| "legacy_text _ = False"

definition member_elements :: "'f json \<Rightarrow> string \<Rightarrow> 'f json list" where
  "member_elements j key = (case member j key of None \<Rightarrow> [] | Some v \<Rightarrow> elements v)"

definition contracts_allowed :: "'f json \<Rightarrow> bool" where
  "contracts_allowed j \<longleftrightarrow> (member j ''edge_contract'' = Some (JString ''accel-token'') \<longrightarrow>
     (\<forall>m \<in> set (member_elements j ''resolver_mappings''). \<not> legacy_text (member m ''input_token_type'') \<and>
        \<not> legacy_text (member m ''output_token_type'')) \<and>
     (\<forall>e \<in> set (member_elements j ''edges''). \<not> legacy_text (member e ''payload_contract'')))"

lemmas parser_type = has_value_bind_ok has_value_iff [symmetric] conform

lemma ParseMetadata_type:
  "has_value (ParseMetadata j) \<longleftrightarrow> member_is False (conforms metadata_type) j ''metadata''"
proof (cases "member j ''metadata''")
  case (Some v)
  then have "has_value (ParseMetadata j) \<longleftrightarrow> conforms metadata_type v"
    by (cases "is_object v") (simp_all add: ParseMetadata_def metadata_type_def parser_type)
  with Some show ?thesis by (simp add: member_is_def)
qed (simp add: ParseMetadata_def member_is_def)

lemma ParseNodeSafe_type: "has_value (ParseNodeSafe j) \<longleftrightarrow> conforms node_type j"
  by (simp add: ParseNodeSafe_def node_type_def parser_type)

lemma read_port_type: "has_value (read_port name v) \<longleftrightarrow> conforms (TPort port_token) v"
  by (cases v) (auto simp: conforms.simps read_port_def port_token_def numeric_token_def stoull_digits)

lemma ParsePort_type:
  "has_value (ParsePort j port_key name_key) \<longleftrightarrow>
     (member j port_key \<noteq> None \<or> member j name_key \<noteq> None) \<and>
     member_is False (conforms TString) j name_key \<and> member_is False (conforms (TPort port_token)) j port_key"
  by (simp add: ParsePort_def parser_type read_port_type)

lemma ParseEdgeSafe_type: "has_value (ParseEdgeSafe j) \<longleftrightarrow> conforms edge_type j \<and> names_ports j"
proof (cases "is_object j")
  case True
  then show ?thesis
    by (simp add: ParseEdgeSafe_def edge_type_def names_ports_def parser_type ParsePort_type
        del: split_paired_Ex) blast
qed (simp add: ParseEdgeSafe_def edge_type_def conforms.simps)

lemma parse_named_type:
  "has_value (parse_named parser refused v) \<longleftrightarrow>
     (case v of JString s \<Rightarrow> \<exists>x. parser s = Some x \<and> x \<notin> set refused | _ \<Rightarrow> False)"
  by (cases v) (simp_all add: parse_named_def get_string_def split: option.split)

lemma ex_backend: "(\<exists>b. P b) \<longleftrightarrow> P RB_Auto \<or> P RB_Metal \<or> P RB_Cuda \<or> P RB_Stub \<or> P RB_Direct \<or> P RB_Unknown"
  by (metis resolver_backend.exhaust)

lemma ex_policy: "(\<exists>f. P f) \<longleftrightarrow> P FP_Strict \<or> P FP_AllowFallback"
  by (metis resolver_fallback_policy.exhaust)

lemma ex_capability: "(\<exists>c. P c) \<longleftrightarrow> P RC_Supported \<or> P RC_Unsupported"
  by (metis resolver_capability.exhaust)

lemma parse_named_types:
  "has_value (parse_named ParseResolverBackend [RB_Direct, RB_Unknown] v) =
     conforms (TName ToLowerCopy [''auto'', ''metal'', ''cuda'', ''stub'']) v"
  "has_value (parse_named ParseResolverBackend [RB_Auto, RB_Direct, RB_Unknown] v) =
     conforms (TName ToLowerCopy [''metal'', ''cuda'', ''stub'']) v"
  "has_value (parse_named ParseResolverFallbackPolicy [] v) =
     conforms (TName ToLowerCopy [''strict'', ''allow_fallback'']) v"
  "has_value (parse_named ParseResolverCapability [] v) =
     conforms (TName ToLowerCopy [''supported'', ''unsupported'']) v"
  subgoal by (cases v) (simp_all only: parse_named_type json.case conforms.simps ex_backend parse_backend_name, simp_all)
  subgoal by (cases v) (simp_all only: parse_named_type json.case conforms.simps ex_backend parse_backend_name, simp_all)
  subgoal by (cases v) (simp_all only: parse_named_type json.case conforms.simps ex_policy parse_policy_name, simp_all)
  subgoal by (cases v) (simp_all only: parse_named_type json.case conforms.simps ex_capability parse_capability_name, simp_all)
  done

lemma ParseVariant_type: "has_value (ParseVariant j) \<longleftrightarrow> conforms variant_type j"
proof -
  have rest: "conforms (TRecord fs) j \<Longrightarrow> is_object j" for fs by (simp add: conforms.simps)
  consider (ok) b c where "member j ''backend'' = Some (JString b)" "member j ''concrete_type'' = Some (JString c)"
    | (bad) "\<not> member_is True (conforms TString) j ''backend'' \<or> \<not> member_is True (conforms TString) j ''concrete_type''"
    by (cases "member j ''backend''"; cases "member j ''concrete_type''";
        cases "the (member j ''backend'')"; cases "the (member j ''concrete_type'')")
       (auto simp: member_is_def conforms.simps)
  then show ?thesis
  proof cases
    case ok
    then have "is_object j" using member_object by blast
    with ok show ?thesis
      by (simp add: ParseVariant_def variant_type_def parser_type parse_named_types)
         (auto simp: member_is_def conforms.simps)
  next
    case bad
    then show ?thesis
      by (auto simp: ParseVariant_def variant_type_def conform member_is_def conforms.simps
          split: option.splits json.splits)
  qed
qed

lemma token_type_type:
  "has_value (token_type ec v) \<longleftrightarrow> conforms TString v \<and> (ec = ''accel-token'' \<longrightarrow> \<not> legacy_text (Some v))"
  by (cases v) (simp_all add: token_type_def get_string_def conforms.simps)

definition token_allowed :: "string \<Rightarrow> 'f json \<Rightarrow> bool" where
  "token_allowed ec m \<longleftrightarrow> (ec = ''accel-token'' \<longrightarrow>
     \<not> legacy_text (member m ''input_token_type'') \<and> \<not> legacy_text (member m ''output_token_type''))"

lemma token_member_type:
  "member_is False (\<lambda>v. has_value (token_type ec v)) j key \<longleftrightarrow>
     member_is False (conforms TString) j key \<and> (ec = ''accel-token'' \<longrightarrow> \<not> legacy_text (member j key))"
  by (auto simp: member_is_def token_type_type split: option.split)

lemma ParseMapping_type:
  "has_value (ParseMapping ec j) \<longleftrightarrow> conforms mapping_type j \<and> token_allowed ec j"
proof -
  consider (ok) i vs where "member j ''intent_type'' = Some (JString i)" "member j ''variants'' = Some (JArray vs)"
    | (bad) "\<not> member_is True (conforms TString) j ''intent_type'' \<or> \<not> member_is True is_array j ''variants''"
    by (cases "member j ''intent_type''"; cases "member j ''variants''";
        cases "the (member j ''intent_type'')"; cases "the (member j ''variants'')")
       (auto simp: member_is_def conforms.simps)
  then show ?thesis
  proof cases
    case ok
    then have "is_object j" using member_object by blast
    with ok show ?thesis
      by (simp add: ParseMapping_def mapping_type_def parser_type token_member_type token_allowed_def
          collect_has_value ParseVariant_type) (auto simp: member_is_def conforms.simps)
  next
    case bad
    then show ?thesis
      by (auto simp: ParseMapping_def mapping_type_def conform member_is_def conforms.simps
          split: option.splits json.splits)
  qed
qed

lemma ParseDeadlock_type:
  "has_value (ParseDeadlock v) \<longleftrightarrow>
     conforms (TOr TBool (TRecord [(''enabled'', False, TBool), (''timeout_ms'', False, TNatural)])) v"
proof (cases v)
  case (JObject ms)
  have "\<not> conforms TBool (JObject ms)" by (simp add: conforms.simps)
  with JObject show ?thesis by (simp add: ParseDeadlock_def parser_type conforms.simps(15))
qed (simp_all add: ParseDeadlock_def conforms.simps)

lemma ParseContractEdge_type:
  "has_value (ParseContractEdge ec j) \<longleftrightarrow> conforms edge_type j \<and> names_ports j \<and>
     (ec = ''accel-token'' \<longrightarrow> \<not> legacy_text (member j ''payload_contract''))"
proof (cases "ParseEdgeSafe j")
  case (Inl e)
  then show ?thesis using ParseEdgeSafe_type [of j] by (auto simp: ParseContractEdge_def)
next
  case (Inr e)
  then have "optional_member [] string_of j ''payload_contract'' = Inr (ef_payload_contract e)"
    by (auto simp: ParseEdgeSafe_def bind_ok_Inr_iff split: if_splits)
  then have "legacy_text (member j ''payload_contract'') \<longleftrightarrow> IsLegacySarPayloadContract (ef_payload_contract e)"
    by (auto simp: optional_member_def get_string_def IsLegacySarPayloadContract_def NormalizeContractName_def
        split: option.splits json.splits)
  with Inr show ?thesis using ParseEdgeSafe_type [of j] by (simp add: ParseContractEdge_def)
qed

lemma array_of_type: "has_value (array_of reader v) \<longleftrightarrow> is_array v \<and> (\<forall>x \<in> set (elements v). has_value (reader x))"
  by (simp add: array_of_def conform)

lemma parse_edge_contract_type:
  "has_value (parse_edge_contract v) \<longleftrightarrow> conforms (TOneOf ['''', ''accel-token'']) v"
  by (cases v) (auto simp: parse_edge_contract_def get_string_def conforms.simps)

lemma ParseResolver_contract:
  assumes "ParseResolver j = Inr r"
  shows "cf_edge_contract r = ''accel-token'' \<longleftrightarrow> member j ''edge_contract'' = Some (JString ''accel-token'')"
  using assms by (auto simp: ParseResolver_def bind_ok_Inr_iff optional_member_def parse_edge_contract_def
      get_string_def split: option.splits json.splits if_splits)

lemma ParseResolver_type:
  "has_value (ParseResolver j) \<longleftrightarrow>
     member_is False (conforms (TName ToLowerCopy [''auto'', ''metal'', ''cuda'', ''stub''])) j ''execution_backend'' \<and>
     member_is False (conforms (TName ToLowerCopy [''strict'', ''allow_fallback''])) j ''backend_fallback_policy'' \<and>
     member_is False (conforms TBool) j ''resolver_diagnostics'' \<and>
     member_is False (conforms (TOneOf ['''', ''accel-token''])) j ''edge_contract''"
  by (simp add: ParseResolver_def parser_type parse_named_types parse_edge_contract_type)

lemma array_member_type:
  "member_is required (\<lambda>v. is_array v \<and> (\<forall>x \<in> set (elements v). conforms t x \<and> P x)) j key \<longleftrightarrow>
     member_is required (conforms (TArray t)) j key \<and> (\<forall>x \<in> set (member_elements j key). P x)"
  by (auto simp: member_is_def member_elements_def conforms.simps split: option.split)

lemma ParseDocument_type:
  "has_value (ParseDocument hw j) \<longleftrightarrow> conforms graph_type j \<and>
     list_all names_ports (member_elements j ''edges'') \<and> contracts_allowed j"
proof (cases "is_object j")
  case object: True
  show ?thesis
  proof (cases "ParseResolver j")
    case (Inl e)
    then have "\<not> has_value (ParseDocument hw j)" by (auto simp: ParseDocument_def has_value_bind_ok)
    moreover have "\<not> conforms graph_type j"
      using Inl ParseResolver_type [of j] by (simp add: graph_type_def conform) blast
    ultimately show ?thesis by blast
  next
    case (Inr r)
    then have resolver: "has_value (ParseResolver j)" by simp
    have array: "member_is b (\<lambda>v. is_array v \<and> (\<forall>x \<in> set (elements v). conforms t x)) j key =
        member_is b (conforms (TArray t)) j key" for b t key
      using array_member_type [of b t "\<lambda>_. True"] by simp
    have "has_value (ParseDocument hw j) \<longleftrightarrow> conforms graph_type j \<and>
        (\<forall>m \<in> set (member_elements j ''resolver_mappings''). token_allowed (cf_edge_contract r) m) \<and>
        (\<forall>e \<in> set (member_elements j ''edges''). names_ports e \<and>
           (cf_edge_contract r = ''accel-token'' \<longrightarrow> \<not> legacy_text (member e ''payload_contract'')))"
      using object iffD1 [OF ParseResolver_type resolver]
      by (simp add: ParseDocument_def Inr parser_type ParseMetadata_type array_of_type ParseMapping_type
          ParseNodeSafe_type ParseContractEdge_type ParseDeadlock_type array_member_type array graph_type_def
          del: split_paired_Ex) blast
    then show ?thesis
      using ParseResolver_contract [OF Inr] by (auto simp: contracts_allowed_def token_allowed_def list_all_iff)
  qed
qed (simp add: ParseDocument_def graph_type_def conforms.simps)

text \<open>
  C28. The parser accepts exactly the documents of the type \<open>graph_type\<close> in which every edge names
  both of its ports and no legacy payload contract occurs under the contract \<open>accel-token\<close>; every
  other text is refused with an error.
\<close>

theorem ParseSafe_accepts_graph_type:
  "(\<exists>config. ParseSafe parse hw text = Inr config) \<longleftrightarrow>
     (\<exists>j. parse text = Some j \<and> conforms graph_type j \<and>
        list_all names_ports (member_elements j ''edges'') \<and> contracts_allowed j)"
  by (simp add: has_value_iff [symmetric] ParseSafe_def ParseDocument_type split: option.split)

section \<open>What is read\<close>

text \<open>
  A document for a configuration, with every member written out. Reading it gives the configuration
  back, for all configurations that a document can describe; the parser produces no others.
\<close>

definition node_to_json :: "'f node_config \<Rightarrow> 'f json" where
  "node_to_json n = JObject [(''id'', JString (nf_id n)), (''type'', JString (nf_type n)),
     (''name'', JString (nf_name n)), (''description'', JString (nf_description n)),
     (''node_config'', nf_node_config n), (''port_config'', JObject (nf_port_config n))]"

definition edge_to_json :: "edge_config \<Rightarrow> 'f json" where
  "edge_to_json e = JObject [(''source_node_id'', JString (ef_source_node_id e)),
     (''source_port'', JUnsigned (ef_source_port e)), (''source_port_name'', JString (ef_source_port_name e)),
     (''target_node_id'', JString (ef_target_node_id e)),
     (''target_port'', JUnsigned (ef_target_port e)), (''target_port_name'', JString (ef_target_port_name e)),
     (''buffer_size'', JUnsigned (ef_buffer_size e)), (''backpressure_enabled'', JBool (ef_backpressure_enabled e)),
     (''payload_contract'', JString (ef_payload_contract e))]"

definition variant_to_json :: "resolution_variant \<Rightarrow> 'f json" where
  "variant_to_json v = JObject [(''backend'', JString (Backend_ToString (rv_backend v))),
     (''concrete_type'', JString (rv_concrete_type v)),
     (''capability'', JString (Capability_ToString (rv_capability v)))]"

definition mapping_to_json :: "resolver_mapping \<Rightarrow> 'f json" where
  "mapping_to_json m = JObject [(''intent_type'', JString (rt_intent_type m)),
     (''variants'', JArray (map variant_to_json (rt_variants m))),
     (''input_token_type'', JString (rt_input_token_type m)),
     (''output_token_type'', JString (rt_output_token_type m))]"

definition config_to_json :: "'f graph_config \<Rightarrow> 'f json" where
  "config_to_json c = JObject [
     (''metadata'', JObject [(''version'', JString (mt_version (gf_metadata c))),
        (''description'', JString (mt_description (gf_metadata c))),
        (''author'', JString (mt_author (gf_metadata c))), (''created'', JString (mt_created (gf_metadata c)))]),
     (''name'', JString (gf_name c)), (''description'', JString (gf_description c)),
     (''execution_backend'', JString (Backend_ToString (cf_execution_backend (gf_resolver c)))),
     (''backend_fallback_policy'', JString (FallbackPolicy_ToString (cf_backend_fallback_policy (gf_resolver c)))),
     (''resolver_diagnostics'', JBool (cf_resolver_diagnostics (gf_resolver c))),
     (''edge_contract'', JString (cf_edge_contract (gf_resolver c))),
     (''resolver_mappings'', JArray (map mapping_to_json (gf_resolver_mappings c))),
     (''num_threads'', JUnsigned (gf_num_threads c)),
     (''deadlock_detection'', JObject [(''enabled'', JBool (gf_deadlock_enabled c)),
        (''timeout_ms'', JUnsigned (ucast (gf_deadlock_timeout_ms c)))]),
     (''nodes'', JArray (map node_to_json (gf_nodes c))), (''edges'', JArray (map edge_to_json (gf_edges c)))]"

definition legacy_here :: "string \<Rightarrow> string \<Rightarrow> bool" where
  "legacy_here edge_contract s \<longleftrightarrow> edge_contract = ''accel-token'' \<and> IsLegacySarPayloadContract s"

definition variant_expressible :: "resolution_variant \<Rightarrow> bool" where
  "variant_expressible v \<longleftrightarrow> rv_backend v \<notin> {RB_Auto, RB_Direct, RB_Unknown} \<and> rv_concrete_type v \<noteq> []"

definition mapping_expressible :: "string \<Rightarrow> resolver_mapping \<Rightarrow> bool" where
  "mapping_expressible edge_contract m \<longleftrightarrow> rt_intent_type m \<noteq> [] \<and> rt_variants m \<noteq> [] \<and>
     list_all variant_expressible (rt_variants m) \<and> \<not> legacy_here edge_contract (rt_input_token_type m) \<and>
     \<not> legacy_here edge_contract (rt_output_token_type m)"

definition edge_expressible :: "string \<Rightarrow> edge_config \<Rightarrow> bool" where
  "edge_expressible edge_contract e \<longleftrightarrow>
     ef_description e = [] \<and> \<not> legacy_here edge_contract (ef_payload_contract e)"

definition expressible :: "'f graph_config \<Rightarrow> bool" where
  "expressible c \<longleftrightarrow> (let edge_contract = cf_edge_contract (gf_resolver c) in
     cf_execution_backend (gf_resolver c) \<notin> {RB_Direct, RB_Unknown} \<and>
     edge_contract \<in> {[], ''accel-token''} \<and> 0 \<le> sint (gf_num_threads c) \<and>
     list_all (mapping_expressible edge_contract) (gf_resolver_mappings c) \<and>
     list_all (edge_expressible edge_contract) (gf_edges c))"

lemma names_read_back:
  "ParseResolverBackend (Backend_ToString b) = Some b"
  "ParseResolverFallbackPolicy (FallbackPolicy_ToString f) = Some f"
  "ParseResolverCapability (Capability_ToString c) = Some c"
  by (cases b; cases f; cases c; simp add: parse_resolver_names ToLowerCopy_def tolower_def)+

lemmas read_member = optional_member_def required_member_def get_string_def get_bool_def get_unsigned_def
  get_map_def parse_named_def names_read_back

lemma node_read_back: "ParseNodeSafe (node_to_json n) = Inr n"
  by (simp add: ParseNodeSafe_def node_to_json_def read_member)

lemma edge_read_back:
  "edge_expressible ec e \<Longrightarrow> ParseContractEdge ec (edge_to_json e) = Inr e"
  by (auto simp: ParseContractEdge_def ParseEdgeSafe_def ParsePort_def edge_to_json_def read_member read_port_def
      edge_expressible_def legacy_here_def)

lemma variant_read_back: "variant_expressible v \<Longrightarrow> ParseVariant (variant_to_json v) = Inr v"
  by (simp add: ParseVariant_def variant_to_json_def read_member variant_expressible_def)

lemma mapping_read_back:
  assumes "mapping_expressible ec m"
  shows "ParseMapping ec (mapping_to_json m :: 'f json) = Inr m"
proof -
  have "collect ParseVariant (map variant_to_json (rt_variants m) :: 'f json list) = Inr (rt_variants m)"
    using assms by (simp add: mapping_expressible_def list_all_iff collect_Inr_iff list_all2_conv_all_nth
        variant_read_back)
  then show ?thesis
    using assms by (simp add: ParseMapping_def mapping_to_json_def mapping_expressible_def token_type_def
        legacy_here_def read_member)
qed

lemma array_read_back:
  "(\<And>x. x \<in> set xs \<Longrightarrow> reader (printer x) = Inr x) \<Longrightarrow> array_of reader (JArray (map printer xs)) = Inr xs"
  by (simp add: array_of_def get_array_def collect_Inr_iff list_all2_conv_all_nth)

lemma ucast_timeout: "\<not> sint (ucast (t :: u32) :: u64) < 0" "ucast (ucast (t :: u32) :: u64) = t"
  by (simp add: signed_ucast_eq bit_uint_iff) (rule ucast_up_ucast_id, simp add: is_up)

text \<open>
  C29. Every field of a configuration is read from its member: the document that spells out a
  configuration is parsed to exactly that configuration.
\<close>

theorem config_roundtrip:
  fixes c :: "'f graph_config"
  assumes "expressible c"
  shows "ParseDocument hw (config_to_json c) = Inr c"
proof -
  let ?ec = "cf_edge_contract (gf_resolver c)"
  have m: "array_of (ParseMapping ?ec) (JArray (map mapping_to_json (gf_resolver_mappings c)) :: 'f json) =
      Inr (gf_resolver_mappings c)"
    using assms by (intro array_read_back mapping_read_back) (simp add: expressible_def Let_def list_all_iff)
  have e: "array_of (ParseContractEdge ?ec) (JArray (map edge_to_json (gf_edges c)) :: 'f json) = Inr (gf_edges c)"
    using assms by (intro array_read_back edge_read_back) (simp add: expressible_def Let_def list_all_iff)
  have n: "array_of ParseNodeSafe (JArray (map node_to_json (gf_nodes c))) = Inr (gf_nodes c)"
    by (intro array_read_back node_read_back)
  show ?thesis
    using assms m e n
    by (auto simp: ParseDocument_def config_to_json_def ParseMetadata_def ParseResolver_def ParseDeadlock_def
        parse_edge_contract_def get_natural_def read_member expressible_def Let_def ucast_timeout)
qed

section \<open>What validation checks\<close>

definition edge_acceptable :: "'f graph_config \<Rightarrow> edge_config \<Rightarrow> bool" where
  "edge_acceptable c e \<longleftrightarrow> EdgeConfig_Validate e \<and>
     ef_source_node_id e \<in> nf_id ` set (gf_nodes c) \<and> ef_target_node_id e \<in> nf_id ` set (gf_nodes c) \<and>
     ef_source_node_id e \<noteq> ef_target_node_id e \<and>
     \<not> legacy_here (cf_edge_contract (gf_resolver c)) (ef_payload_contract e)"

lemma complain_valid [simp]: "vr_valid (complain bad m r) \<longleftrightarrow> vr_valid r \<and> \<not> bad"
  by (simp add: complain_def)

definition consistent_result :: "validation_result \<Rightarrow> bool" where
  "consistent_result r \<longleftrightarrow> (vr_valid r \<longleftrightarrow> vr_errors r = [])"

lemma complain_consistent [simp]: "consistent_result r \<Longrightarrow> consistent_result (complain bad m r)"
  by (simp add: complain_def consistent_result_def)

lemma validate_nodes:
  "fst (fold validate_node ns s) = fst s @ map nf_id ns"
  "vr_valid (snd (fold validate_node ns s)) \<longleftrightarrow> vr_valid (snd s) \<and> list_all NodeConfig_Validate ns \<and>
     distinct (map nf_id ns) \<and> set (fst s) \<inter> nf_id ` set ns = {}"
  "consistent_result (snd s) \<Longrightarrow> consistent_result (snd (fold validate_node ns s))"
  by (induction ns arbitrary: s) (auto simp: validate_node_def, (metis imageI disjoint_iff)+)

lemma validate_edges:
  "vr_valid (fold (validate_edge ec ids) es r) \<longleftrightarrow> vr_valid r \<and>
     list_all (\<lambda>e. EdgeConfig_Validate e \<and> ef_source_node_id e \<in> set ids \<and> ef_target_node_id e \<in> set ids \<and>
       ef_source_node_id e \<noteq> ef_target_node_id e \<and> \<not> legacy_here ec (ef_payload_contract e)) es"
  "consistent_result r \<Longrightarrow> consistent_result (fold (validate_edge ec ids) es r)"
  by (induction es arbitrary: r) (auto simp: validate_edge_def legacy_here_def)

lemma initially_consistent: "consistent_result \<lparr>vr_valid = True, vr_errors = []\<rparr>"
  by (simp add: consistent_result_def)

lemma Validate_eq:
  "vr_valid (GraphConfigParser_Validate c) \<longleftrightarrow> gf_num_threads c \<noteq> 0 \<and> list_all NodeConfig_Validate (gf_nodes c) \<and>
     distinct (map nf_id (gf_nodes c)) \<and> list_all (edge_acceptable c) (gf_edges c)"
  by (simp add: GraphConfigParser_Validate_def case_prod_beta validate_edges(1) validate_nodes(1, 2)
      edge_acceptable_def [abs_def])

text \<open>
  Validation accepts a configuration if and only if it asks for at least one thread, all nodes
  have valid names and types, no two nodes share an identifier, and every edge joins two different
  nodes of the configuration with a nonempty buffer and an allowed payload contract; it reports at
  least one message exactly when it refuses.
\<close>

theorem Validate_accepts:
  "(vr_valid (GraphConfigParser_Validate c) \<longleftrightarrow> gf_num_threads c \<noteq> 0 \<and>
     list_all NodeConfig_Validate (gf_nodes c) \<and> distinct (map nf_id (gf_nodes c)) \<and>
     list_all (edge_acceptable c) (gf_edges c)) \<and>
   (vr_valid (GraphConfigParser_Validate c) \<longleftrightarrow> vr_errors (GraphConfigParser_Validate c) = [])"
  by (simp only: Validate_eq [symmetric] simp_thms)
     (simp add: GraphConfigParser_Validate_def case_prod_beta validate_edges(2) validate_nodes(3)
      consistent_result_def [symmetric] initially_consistent)

section \<open>Examples and limits\<close>

definition sample_node_config :: "string \<Rightarrow> string \<Rightarrow> nat node_config" where
  "sample_node_config nid name = \<lparr>nf_id = nid, nf_type = ''Source'', nf_name = name, nf_description = [],
     nf_node_config = JNull, nf_port_config = []\<rparr>"

definition sample_edge_config :: "string \<Rightarrow> string \<Rightarrow> edge_config" where
  "sample_edge_config source target = \<lparr>ef_source_node_id = source, ef_source_port = 0, ef_source_port_name = [],
     ef_target_node_id = target, ef_target_port = 0, ef_target_port_name = [], ef_buffer_size = 100,
     ef_backpressure_enabled = True, ef_payload_contract = [], ef_description = []\<rparr>"

definition sample_config :: "nat graph_config" where
  "sample_config = \<lparr>gf_metadata = \<lparr>mt_version = ''1.0'', mt_description = [], mt_author = [], mt_created = []\<rparr>,
     gf_name = ''pair'', gf_description = [], gf_num_threads = 2, gf_resolver = default_resolver,
     gf_resolver_mappings = [sample_contract], gf_deadlock_enabled = True, gf_deadlock_timeout_ms = 5000,
     gf_nodes = [sample_node_config ''a'' [], sample_node_config ''b'' []], gf_edges = [sample_edge_config ''a'' ''b'']\<rparr>"

lemma sample_config_expressible: "expressible sample_config"
  by (simp add: expressible_def sample_config_def default_resolver_def mapping_expressible_def edge_expressible_def
      variant_expressible_def legacy_here_def sample_contract_def sample_edge_config_def)

theorem config_roundtrip_witness: "ParseDocument 0 (config_to_json sample_config) = Inr sample_config"
  by (rule config_roundtrip [OF sample_config_expressible])

text \<open>
  The timeout of the deadlock detection is checked as a 64-bit number and then cut to 32 bits: a
  timeout of \<open>2 ^ 32\<close> milliseconds becomes 0.
\<close>

lemma deadlock_timeout_is_truncated:
  "ParseDeadlock (JObject [(''timeout_ms'', JUnsigned 0x100000000)]) = Inr (True, 0)"
  by (simp add: ParseDeadlock_def optional_member_def get_natural_def)

text \<open>
  A configuration without \<open>num_threads\<close> takes the hardware concurrency, which is 0 on a platform
  that does not know it, and validation then refuses the configuration; the documentation of the
  field calls 0 the automatic choice.
\<close>

lemma automatic_threads_are_refused:
  "gf_num_threads c = 0 \<Longrightarrow> \<not> vr_valid (GraphConfigParser_Validate c)"
  by (simp add: Validate_eq)

text \<open>\<open>IsValidNodeId\<close> accepts identifiers that the validation of a node refuses.\<close>

lemma node_id_checks_disagree:
  "IsValidNodeId ''fft-1'' \<and> \<not> NodeConfig_Validate (sample_node_config ''fft-1'' [])"
  "IsValidNodeId ''1'' \<and> \<not> NodeConfig_Validate (sample_node_config ''1'' [])"
  by (simp_all add: IsValidNodeId_def NodeConfig_Validate_def sample_node_config_def word_char_def lower_letter_def
      upper_letter_def is_digit_def)

text \<open>The suffix of the port pattern is void: word characters already cover it.\<close>

lemma IsValidPortSpec_simple:
  "IsValidPortSpec s \<longleftrightarrow> s \<noteq> [] \<and> length s \<le> 255 \<and>
     (lower_letter (hd s) \<or> upper_letter (hd s) \<or> hd s = CHR ''_'') \<and> list_all word_char (tl s)"
proof -
  have suffix: "port_suffix t \<Longrightarrow> list_all word_char t" for t
    by (cases t) (auto simp: port_suffix_def word_char_def list_all_iff)
  have "list_ex (\<lambda>i. list_all word_char (take i (tl s)) \<and> port_suffix (drop i (tl s))) [0..<length s] \<longleftrightarrow>
      list_all word_char (tl s)" if "s \<noteq> []"
  proof
    assume "list_ex (\<lambda>i. list_all word_char (take i (tl s)) \<and> port_suffix (drop i (tl s))) [0..<length s]"
    then obtain i where "list_all word_char (take i (tl s))" "list_all word_char (drop i (tl s))"
      using suffix by (auto simp: list_ex_iff)
    then show "list_all word_char (tl s)" by (metis append_take_drop_id list_all_append)
  next
    assume "list_all word_char (tl s)"
    then show "list_ex (\<lambda>i. list_all word_char (take i (tl s)) \<and> port_suffix (drop i (tl s))) [0..<length s]"
      using that by (auto simp: list_ex_iff port_suffix_def intro!: bexI [of _ "length s - 1"])
  qed
  then show ?thesis by (auto simp: IsValidPortSpec_def)
qed

end
