(* ===== verification/Node_Facade.thy ===== *)
theory Node_Facade
  imports Dynamic_Edge Numeric_Text
begin

text \<open>
  The adapter around a plugin node (\<open>libgraph/src/graph/NodeFacade.cpp\<close>, \<open>NodeFacadeInterop.cpp\<close>): it
  owns the handle of the node and calls the functions of the table that the plugin exports
  (\<open>NodeFacadeAbi.hpp\<close>). A table entry can be null. The functions themselves are plugin code: an
  entry is an arbitrary function on the state \<open>'w\<close> of the plugins; queries only read that state. The
  functions of a table are assumed to return. First the adapter and its operations, then the
  lookup of ports, then the ownership of handles under construction, moves and destruction.
\<close>

section \<open>The function table\<close>

record port_metadata =
  pm_index :: nat
  pm_port_name :: string
  pm_payload_type :: string
  pm_direction :: string

record config_field =
  fd_name :: string
  fd_type :: string
  fd_required :: bool

datatype node_interface = NI_DataInjectionNodeConfig | NI_Configurable | NI_Diagnosable | NI_Parameterized
  | NI_MetricsCallbackProvider | NI_CompletionCallback | NI_GpuCapabilityBinding

record ('h, 'p, 'w) node_facade =
  ft_GetLifecycleState :: "('h \<Rightarrow> 'w \<Rightarrow> int) option"
  ft_Init :: "('h \<Rightarrow> 'w \<Rightarrow> bool \<times> 'w) option"
  ft_Start :: "('h \<Rightarrow> 'w \<Rightarrow> bool \<times> 'w) option"
  ft_Stop :: "('h \<Rightarrow> 'w \<Rightarrow> 'w) option"
  ft_Join :: "('h \<Rightarrow> 'w \<Rightarrow> bool \<times> 'w) option"
  ft_JoinWithTimeout :: "(nat \<Rightarrow> 'h \<Rightarrow> 'w \<Rightarrow> bool \<times> 'w) option"
  ft_Execute :: "('h \<Rightarrow> 'w \<Rightarrow> 'w) option"
  ft_GetName :: "('h \<Rightarrow> 'w \<Rightarrow> string option) option"
  ft_SetName :: "(string \<Rightarrow> 'h \<Rightarrow> 'w \<Rightarrow> 'w) option"
  ft_GetType :: "('h \<Rightarrow> 'w \<Rightarrow> string option) option"
  ft_GetInputPortCount :: "('h \<Rightarrow> 'w \<Rightarrow> nat) option"
  ft_GetOutputPortCount :: "('h \<Rightarrow> 'w \<Rightarrow> nat) option"
  ft_GetInputPortName :: "('h \<Rightarrow> nat \<Rightarrow> 'w \<Rightarrow> string option) option"
  ft_GetOutputPortName :: "('h \<Rightarrow> nat \<Rightarrow> 'w \<Rightarrow> string option) option"
  ft_GetInputPortMetadata :: "('h \<Rightarrow> 'w \<Rightarrow> port_metadata list option) option"
  ft_GetOutputPortMetadata :: "('h \<Rightarrow> 'w \<Rightarrow> port_metadata list option) option"
  ft_GetConfigFieldMetadata :: "('h \<Rightarrow> 'w \<Rightarrow> config_field list option) option"
  ft_CreateInputRuntimePort :: "('h \<Rightarrow> nat \<Rightarrow> 'w \<Rightarrow> (string \<times> string) option) option"
  ft_CreateOutputRuntimePort :: "('h \<Rightarrow> nat \<Rightarrow> 'w \<Rightarrow> (string \<times> string) option) option"
  ft_DestroyRuntimePort :: bool
  ft_GetAs :: "node_interface \<Rightarrow> ('h \<Rightarrow> 'w \<Rightarrow> 'p option) option"
  ft_Destroy :: "('h \<Rightarrow> 'w \<Rightarrow> 'w) option"

record ('h, 'p, 'w) adapter =
  na_handle :: "'h option"
  na_facade :: "('h, 'p, 'w) node_facade option"
  na_initialized :: bool
  na_started :: bool
  na_interfaces :: "node_interface \<Rightarrow> 'p option"

text \<open>An operation is available when the adapter has a handle and the table has the entry.\<close>

definition entry :: "(('h, 'p, 'w) node_facade \<Rightarrow> 'f option) \<Rightarrow> ('h, 'p, 'w) adapter \<Rightarrow> ('f \<times> 'h) option" where
  "entry field a =
     (case na_facade a of
        None \<Rightarrow> None
      | Some fa \<Rightarrow> (case field fa of None \<Rightarrow> None | Some f \<Rightarrow> map_option (Pair f) (na_handle a)))"

definition ExtractNodeInterfaces ::
    "'h \<Rightarrow> ('h, 'p, 'w) node_facade \<Rightarrow> 'w \<Rightarrow> node_interface \<Rightarrow> 'p option" where
  "ExtractNodeInterfaces handle facade w i =
     (case ft_GetAs facade i of None \<Rightarrow> None | Some callback \<Rightarrow> callback handle w)"

definition NodeFacadeAdapter :: "'h \<Rightarrow> ('h, 'p, 'w) node_facade \<Rightarrow> 'w \<Rightarrow> ('h, 'p, 'w) adapter" where
  "NodeFacadeAdapter handle facade w =
     \<lparr>na_handle = Some handle, na_facade = Some facade, na_initialized = False, na_started = False,
      na_interfaces = ExtractNodeInterfaces handle facade w\<rparr>"

section \<open>Lifecycle\<close>

definition Adapter_GetLifecycleState :: "('h, 'p, 'w) adapter \<Rightarrow> 'w \<Rightarrow> int" where
  "Adapter_GetLifecycleState a w = (case entry ft_GetLifecycleState a of None \<Rightarrow> - 1 | Some (f, h) \<Rightarrow> f h w)"

definition Adapter_Init :: "('h, 'p, 'w) adapter \<Rightarrow> 'w \<Rightarrow> bool \<times> ('h, 'p, 'w) adapter \<times> 'w" where
  "Adapter_Init a w =
     (case entry ft_Init a of
        None \<Rightarrow> (False, a, w)
      | Some (f, h) \<Rightarrow> (case f h w of (ok, w') \<Rightarrow> (ok, a\<lparr>na_initialized := ok\<rparr>, w')))"

definition Adapter_Start :: "('h, 'p, 'w) adapter \<Rightarrow> 'w \<Rightarrow> bool \<times> ('h, 'p, 'w) adapter \<times> 'w" where
  "Adapter_Start a w =
     (if \<not> na_initialized a then (False, a, w)
      else case entry ft_Start a of
        None \<Rightarrow> (False, a, w)
      | Some (f, h) \<Rightarrow> (case f h w of (ok, w') \<Rightarrow> (ok, a\<lparr>na_started := ok\<rparr>, w')))"

definition Adapter_Stop :: "('h, 'p, 'w) adapter \<Rightarrow> 'w \<Rightarrow> ('h, 'p, 'w) adapter \<times> 'w" where
  "Adapter_Stop a w =
     (if \<not> na_started a then (a, w)
      else case entry ft_Stop a of None \<Rightarrow> (a, w) | Some (f, h) \<Rightarrow> (a, f h w))"

definition Adapter_Join :: "('h, 'p, 'w) adapter \<Rightarrow> 'w \<Rightarrow> bool \<times> ('h, 'p, 'w) adapter \<times> 'w" where
  "Adapter_Join a w =
     (if \<not> na_started a then (True, a, w)
      else case entry ft_Join a of
        None \<Rightarrow> (False, a, w)
      | Some (f, h) \<Rightarrow>
          (case f h w of (ok, w') \<Rightarrow> (ok, if ok then a\<lparr>na_started := False\<rparr> else a, w')))"

definition Adapter_JoinWithTimeout ::
    "nat \<Rightarrow> ('h, 'p, 'w) adapter \<Rightarrow> 'w \<Rightarrow> bool \<times> ('h, 'p, 'w) adapter \<times> 'w" where
  "Adapter_JoinWithTimeout timeout a w =
     (if \<not> na_started a then (True, a, w)
      else case entry ft_JoinWithTimeout a of
        None \<Rightarrow> (False, a, w)
      | Some (f, h) \<Rightarrow>
          (case f timeout h w of (ok, w') \<Rightarrow> (ok, if ok then a\<lparr>na_started := False\<rparr> else a, w')))"

definition Adapter_Execute :: "('h, 'p, 'w) adapter \<Rightarrow> 'w \<Rightarrow> 'w" where
  "Adapter_Execute a w = (case entry ft_Execute a of None \<Rightarrow> w | Some (f, h) \<Rightarrow> f h w)"

definition Adapter_Cleanup :: "('h, 'p, 'w) adapter \<Rightarrow> 'w \<Rightarrow> ('h, 'p, 'w) adapter \<times> 'w" where
  "Adapter_Cleanup a w =
     (case na_handle a of
        None \<Rightarrow> (a, w)
      | Some h \<Rightarrow>
          let (a1, w1) = (if na_started a
                then (case Adapter_Stop a w of (a', w') \<Rightarrow> snd (Adapter_Join a' w')) else (a, w));
              destroy = Option.bind (na_facade a1) ft_Destroy
          in (a1\<lparr>na_handle := None, na_initialized := False, na_started := False, na_interfaces := (\<lambda>_. None)\<rparr>,
              case destroy of None \<Rightarrow> w1 | Some f \<Rightarrow> f h w1))"

text \<open>The move operations: the new value of the target, and what is left in the source.\<close>

definition moved_from :: "('h, 'p, 'w) adapter \<Rightarrow> ('h, 'p, 'w) adapter" where
  "moved_from other = other\<lparr>na_handle := None, na_facade := None, na_interfaces := (\<lambda>_. None)\<rparr>"

definition move_construct :: "('h, 'p, 'w) adapter \<Rightarrow> ('h, 'p, 'w) adapter \<times> ('h, 'p, 'w) adapter" where
  "move_construct other = (other, moved_from other)"

definition move_assign ::
    "('h, 'p, 'w) adapter \<Rightarrow> ('h, 'p, 'w) adapter \<Rightarrow> 'w \<Rightarrow>
     ('h, 'p, 'w) adapter \<times> ('h, 'p, 'w) adapter \<times> 'w" where
  "move_assign a other w = (case Adapter_Cleanup a w of (_, w') \<Rightarrow> (other, moved_from other, w'))"

section \<open>Queries\<close>

definition Adapter_GetName :: "('h, 'p, 'w) adapter \<Rightarrow> 'w \<Rightarrow> string" where
  "Adapter_GetName a w =
     (case entry ft_GetName a of None \<Rightarrow> [] | Some (f, h) \<Rightarrow> (case f h w of None \<Rightarrow> [] | Some name \<Rightarrow> name))"

definition Adapter_SetName :: "string \<Rightarrow> ('h, 'p, 'w) adapter \<Rightarrow> 'w \<Rightarrow> 'w" where
  "Adapter_SetName name a w = (case entry ft_SetName a of None \<Rightarrow> w | Some (f, h) \<Rightarrow> f name h w)"

definition Adapter_GetType :: "('h, 'p, 'w) adapter \<Rightarrow> 'w \<Rightarrow> string" where
  "Adapter_GetType a w =
     (case entry ft_GetType a of None \<Rightarrow> [] | Some (f, h) \<Rightarrow> (case f h w of None \<Rightarrow> [] | Some t \<Rightarrow> t))"

definition Adapter_GetInputPortCount :: "('h, 'p, 'w) adapter \<Rightarrow> 'w \<Rightarrow> nat" where
  "Adapter_GetInputPortCount a w = (case entry ft_GetInputPortCount a of None \<Rightarrow> 0 | Some (f, h) \<Rightarrow> f h w)"

definition Adapter_GetOutputPortCount :: "('h, 'p, 'w) adapter \<Rightarrow> 'w \<Rightarrow> nat" where
  "Adapter_GetOutputPortCount a w = (case entry ft_GetOutputPortCount a of None \<Rightarrow> 0 | Some (f, h) \<Rightarrow> f h w)"

definition Adapter_GetInputPortName :: "nat \<Rightarrow> ('h, 'p, 'w) adapter \<Rightarrow> 'w \<Rightarrow> string" where
  "Adapter_GetInputPortName port a w = (case entry ft_GetInputPortName a of
     None \<Rightarrow> [] | Some (f, h) \<Rightarrow> (case f h port w of None \<Rightarrow> [] | Some name \<Rightarrow> name))"

definition Adapter_GetOutputPortName :: "nat \<Rightarrow> ('h, 'p, 'w) adapter \<Rightarrow> 'w \<Rightarrow> string" where
  "Adapter_GetOutputPortName port a w = (case entry ft_GetOutputPortName a of
     None \<Rightarrow> [] | Some (f, h) \<Rightarrow> (case f h port w of None \<Rightarrow> [] | Some name \<Rightarrow> name))"

definition GetInputPortNames :: "('h, 'p, 'w) adapter \<Rightarrow> 'w \<Rightarrow> string list" where
  "GetInputPortNames a w = map (\<lambda>i. Adapter_GetInputPortName i a w) [0..<Adapter_GetInputPortCount a w]"

definition GetOutputPortNames :: "('h, 'p, 'w) adapter \<Rightarrow> 'w \<Rightarrow> string list" where
  "GetOutputPortNames a w = map (\<lambda>i. Adapter_GetOutputPortName i a w) [0..<Adapter_GetOutputPortCount a w]"

definition GetInputPortMetadata :: "('h, 'p, 'w) adapter \<Rightarrow> 'w \<Rightarrow> port_metadata list" where
  "GetInputPortMetadata a w = (case entry ft_GetInputPortMetadata a of
     None \<Rightarrow> [] | Some (f, h) \<Rightarrow> (case f h w of None \<Rightarrow> [] | Some ms \<Rightarrow> ms))"

definition GetOutputPortMetadata :: "('h, 'p, 'w) adapter \<Rightarrow> 'w \<Rightarrow> port_metadata list" where
  "GetOutputPortMetadata a w = (case entry ft_GetOutputPortMetadata a of
     None \<Rightarrow> [] | Some (f, h) \<Rightarrow> (case f h w of None \<Rightarrow> [] | Some ms \<Rightarrow> ms))"

definition GetConfigFieldMetadata :: "('h, 'p, 'w) adapter \<Rightarrow> 'w \<Rightarrow> config_field list" where
  "GetConfigFieldMetadata a w = (case entry ft_GetConfigFieldMetadata a of
     None \<Rightarrow> [] | Some (f, h) \<Rightarrow> (case f h w of None \<Rightarrow> [] | Some fs \<Rightarrow> fs))"

definition GetInterface :: "string \<Rightarrow> ('h, 'p, 'w) adapter \<Rightarrow> 'p option" where
  "GetInterface name a =
     (if name = ''csv_injection'' then na_interfaces a NI_DataInjectionNodeConfig
      else if name = ''metrics_callback'' then na_interfaces a NI_MetricsCallbackProvider
      else if name = ''completion_callback'' then na_interfaces a NI_CompletionCallback
      else if name = ''gpu_capability_binding'' then na_interfaces a NI_GpuCapabilityBinding
      else if name = ''configurable'' then na_interfaces a NI_Configurable
      else if name = ''diagnosable'' then na_interfaces a NI_Diagnosable
      else if name = ''parameterized'' then na_interfaces a NI_Parameterized
      else None)"

section \<open>Port lookup\<close>

datatype port_lookup_error = PL_PortNotFound | PL_MetadataUnavailable

text \<open>\<open>std::from_chars\<close> for \<open>size_t\<close>, required to consume the whole text.\<close>

definition from_chars :: "string \<Rightarrow> nat option" where
  "from_chars s = (if s \<noteq> [] \<and> list_all is_digit s \<and> read_digits s < 2 ^ 64 then Some (read_digits s) else None)"

definition port_alias :: "string \<Rightarrow> nat option" where
  "port_alias name_or_id =
     (case from_chars name_or_id of
        Some i \<Rightarrow> Some i
      | None \<Rightarrow>
          if name_or_id = [] then None
          else if name_or_id \<in> set [''In'', ''Input'', ''Out'', ''Output'', ''Data'', ''State''] then Some 0
          else if list_all is_digit name_or_id then None
          else from_chars (rev (takeWhile is_digit (rev name_or_id))))"

definition try_create_runtime_port ::
    "port_direction \<Rightarrow> nat \<Rightarrow> ('h, 'p, 'w) adapter \<Rightarrow> 'w \<Rightarrow> (string \<times> string) option" where
  "try_create_runtime_port dir i a w =
     (case (na_facade a, na_handle a) of
        (Some fa, Some h) \<Rightarrow>
          if \<not> ft_DestroyRuntimePort fa then None
          else (case (case dir of PD_Input \<Rightarrow> ft_CreateInputRuntimePort fa | PD_Output \<Rightarrow> ft_CreateOutputRuntimePort fa) of
                  None \<Rightarrow> None | Some create \<Rightarrow> create h i w)
      | _ \<Rightarrow> None)"

definition metadata_handle ::
    "port_direction \<Rightarrow> nat \<Rightarrow> ('h, 'p, 'w) adapter \<Rightarrow> 'w \<Rightarrow> port_metadata \<Rightarrow> port_handle" where
  "metadata_handle dir node_index a w port =
     \<lparr>ph_node_index = node_index,
      ph_descriptor = \<lparr>pd_id = pm_index port, pd_name = pm_port_name port, pd_direction = dir,
        pd_payload_type = pm_payload_type port,
        pd_transport_type = (case try_create_runtime_port dir (pm_index port) a w of
          None \<Rightarrow> ''runtime.descriptor'' | Some (_, transport) \<Rightarrow> transport)\<rparr>,
      ph_has_port = True\<rparr>"

definition runtime_handle ::
    "port_direction \<Rightarrow> nat \<Rightarrow> string \<Rightarrow> nat \<Rightarrow> string \<times> string \<Rightarrow> port_handle" where
  "runtime_handle dir node_index name_or_id i port =
     \<lparr>ph_node_index = node_index,
      ph_descriptor = \<lparr>pd_id = i, pd_name = (if name_or_id = [] then to_string i else name_or_id),
        pd_direction = dir, pd_payload_type = fst port, pd_transport_type = snd port\<rparr>,
      ph_has_port = True\<rparr>"

definition LookupPortHandle ::
    "port_metadata list \<Rightarrow> string \<Rightarrow> nat \<Rightarrow> port_direction \<Rightarrow> ('h, 'p, 'w) adapter \<Rightarrow> 'w \<Rightarrow>
     (port_handle, port_lookup_error) expected" where
  "LookupPortHandle metadata name_or_id node_index dir a w =
     (let named = (\<lambda>port. case from_chars name_or_id of
            Some i \<Rightarrow> pm_index port = i | None \<Rightarrow> name_or_id = pm_port_name port);
          by_alias = (case port_alias name_or_id of
            None \<Rightarrow> None | Some i \<Rightarrow> find (\<lambda>port. pm_index port = i) metadata)
      in case find named metadata of
           Some port \<Rightarrow> Inr (metadata_handle dir node_index a w port)
         | None \<Rightarrow>
             (case by_alias of
                Some port \<Rightarrow> Inr (metadata_handle dir node_index a w port)
              | None \<Rightarrow>
                  (case Option.bind (port_alias name_or_id)
                          (\<lambda>i. map_option (Pair i) (try_create_runtime_port dir i a w)) of
                     Some (i, port) \<Rightarrow> Inr (runtime_handle dir node_index name_or_id i port)
                   | None \<Rightarrow> Inl (if metadata = [] then PL_MetadataUnavailable else PL_PortNotFound))))"

definition GetInputPortHandle ::
    "string \<Rightarrow> nat \<Rightarrow> ('h, 'p, 'w) adapter \<Rightarrow> 'w \<Rightarrow> (port_handle, port_lookup_error) expected" where
  "GetInputPortHandle name_or_id node_index a w =
     LookupPortHandle (GetInputPortMetadata a w) name_or_id node_index PD_Input a w"

definition GetOutputPortHandle ::
    "string \<Rightarrow> nat \<Rightarrow> ('h, 'p, 'w) adapter \<Rightarrow> 'w \<Rightarrow> (port_handle, port_lookup_error) expected" where
  "GetOutputPortHandle name_or_id node_index a w =
     LookupPortHandle (GetOutputPortMetadata a w) name_or_id node_index PD_Output a w"

section \<open>Ownership of handles\<close>

text \<open>
  To see which functions are called, a table is instrumented: \<open>logged\<close> writes every call of a
  function that acts on a node into a log beside the state of the plugins.
\<close>

datatype facade_fn = F_Init | F_Start | F_Stop | F_Join | F_JoinWithTimeout | F_Execute | F_SetName | F_Destroy

type_synonym 'h call_log = "('h \<times> facade_fn) list"

definition log_result ::
    "facade_fn \<Rightarrow> ('h \<Rightarrow> 'w \<Rightarrow> bool \<times> 'w) \<Rightarrow> 'h \<Rightarrow> 'h call_log \<times> 'w \<Rightarrow> bool \<times> 'h call_log \<times> 'w" where
  "log_result tag f h lw = (case f h (snd lw) of (b, w) \<Rightarrow> (b, fst lw @ [(h, tag)], w))"

definition log_effect :: "facade_fn \<Rightarrow> ('h \<Rightarrow> 'w \<Rightarrow> 'w) \<Rightarrow> 'h \<Rightarrow> 'h call_log \<times> 'w \<Rightarrow> 'h call_log \<times> 'w" where
  "log_effect tag f h lw = (fst lw @ [(h, tag)], f h (snd lw))"

definition logged :: "('h, 'p, 'w) node_facade \<Rightarrow> ('h, 'p, 'h call_log \<times> 'w) node_facade" where
  "logged fa =
     \<lparr>ft_GetLifecycleState = map_option (\<lambda>f h lw. f h (snd lw)) (ft_GetLifecycleState fa),
      ft_Init = map_option (log_result F_Init) (ft_Init fa),
      ft_Start = map_option (log_result F_Start) (ft_Start fa),
      ft_Stop = map_option (log_effect F_Stop) (ft_Stop fa),
      ft_Join = map_option (log_result F_Join) (ft_Join fa),
      ft_JoinWithTimeout = map_option (\<lambda>f t. log_result F_JoinWithTimeout (f t)) (ft_JoinWithTimeout fa),
      ft_Execute = map_option (log_effect F_Execute) (ft_Execute fa),
      ft_GetName = map_option (\<lambda>f h lw. f h (snd lw)) (ft_GetName fa),
      ft_SetName = map_option (\<lambda>f n. log_effect F_SetName (f n)) (ft_SetName fa),
      ft_GetType = map_option (\<lambda>f h lw. f h (snd lw)) (ft_GetType fa),
      ft_GetInputPortCount = map_option (\<lambda>f h lw. f h (snd lw)) (ft_GetInputPortCount fa),
      ft_GetOutputPortCount = map_option (\<lambda>f h lw. f h (snd lw)) (ft_GetOutputPortCount fa),
      ft_GetInputPortName = map_option (\<lambda>f h i lw. f h i (snd lw)) (ft_GetInputPortName fa),
      ft_GetOutputPortName = map_option (\<lambda>f h i lw. f h i (snd lw)) (ft_GetOutputPortName fa),
      ft_GetInputPortMetadata = map_option (\<lambda>f h lw. f h (snd lw)) (ft_GetInputPortMetadata fa),
      ft_GetOutputPortMetadata = map_option (\<lambda>f h lw. f h (snd lw)) (ft_GetOutputPortMetadata fa),
      ft_GetConfigFieldMetadata = map_option (\<lambda>f h lw. f h (snd lw)) (ft_GetConfigFieldMetadata fa),
      ft_CreateInputRuntimePort = map_option (\<lambda>f h i lw. f h i (snd lw)) (ft_CreateInputRuntimePort fa),
      ft_CreateOutputRuntimePort = map_option (\<lambda>f h i lw. f h i (snd lw)) (ft_CreateOutputRuntimePort fa),
      ft_DestroyRuntimePort = ft_DestroyRuntimePort fa,
      ft_GetAs = (\<lambda>i. map_option (\<lambda>f h lw. f h (snd lw)) (ft_GetAs fa i)),
      ft_Destroy = map_option (log_effect F_Destroy) (ft_Destroy fa)\<rparr>"

text \<open>
  A program with several adapter objects: it constructs them around new handles, calls their
  operations, moves them and ends their lifetime, in any order. The constructor asserts that the
  table has a function \<open>Destroy\<close>.
\<close>

record ('h, 'p, 'w) adapter_program =
  ap_adapters :: "('h, 'p, 'h call_log \<times> 'w) adapter list"
  ap_created :: "'h list"
  ap_world :: "'h call_log \<times> 'w"

definition put ::
    "nat \<Rightarrow> ('h, 'p, 'h call_log \<times> 'w) adapter \<Rightarrow> 'h call_log \<times> 'w \<Rightarrow> ('h, 'p, 'w) adapter_program \<Rightarrow>
     ('h, 'p, 'w) adapter_program" where
  "put i a w s = s\<lparr>ap_adapters := (ap_adapters s)[i := a], ap_world := w\<rparr>"

inductive adapter_step :: "('h, 'p, 'w) adapter_program \<Rightarrow> ('h, 'p, 'w) adapter_program \<Rightarrow> bool" where
  construct: "h \<notin> set (ap_created s) \<Longrightarrow> ft_Destroy fa \<noteq> None \<Longrightarrow>
    adapter_step s (s\<lparr>ap_adapters := ap_adapters s @ [NodeFacadeAdapter h (logged fa) (ap_world s)],
      ap_created := ap_created s @ [h]\<rparr>)"
| init: "i < length (ap_adapters s) \<Longrightarrow> Adapter_Init (ap_adapters s ! i) (ap_world s) = (b, a, w) \<Longrightarrow>
    adapter_step s (put i a w s)"
| start: "i < length (ap_adapters s) \<Longrightarrow> Adapter_Start (ap_adapters s ! i) (ap_world s) = (b, a, w) \<Longrightarrow>
    adapter_step s (put i a w s)"
| stop: "i < length (ap_adapters s) \<Longrightarrow> Adapter_Stop (ap_adapters s ! i) (ap_world s) = (a, w) \<Longrightarrow>
    adapter_step s (put i a w s)"
| join: "i < length (ap_adapters s) \<Longrightarrow> Adapter_Join (ap_adapters s ! i) (ap_world s) = (b, a, w) \<Longrightarrow>
    adapter_step s (put i a w s)"
| join_timeout: "i < length (ap_adapters s) \<Longrightarrow>
    Adapter_JoinWithTimeout t (ap_adapters s ! i) (ap_world s) = (b, a, w) \<Longrightarrow> adapter_step s (put i a w s)"
| execute: "i < length (ap_adapters s) \<Longrightarrow>
    adapter_step s (s\<lparr>ap_world := Adapter_Execute (ap_adapters s ! i) (ap_world s)\<rparr>)"
| set_name: "i < length (ap_adapters s) \<Longrightarrow>
    adapter_step s (s\<lparr>ap_world := Adapter_SetName name (ap_adapters s ! i) (ap_world s)\<rparr>)"
| cleanup: "i < length (ap_adapters s) \<Longrightarrow> Adapter_Cleanup (ap_adapters s ! i) (ap_world s) = (a, w) \<Longrightarrow>
    adapter_step s (put i a w s)"
| move_constructed: "i < length (ap_adapters s) \<Longrightarrow> move_construct (ap_adapters s ! i) = (a, rest) \<Longrightarrow>
    adapter_step s (s\<lparr>ap_adapters := (ap_adapters s)[i := rest] @ [a]\<rparr>)"
| move_assigned: "i < length (ap_adapters s) \<Longrightarrow> j < length (ap_adapters s) \<Longrightarrow> i \<noteq> j \<Longrightarrow>
    move_assign (ap_adapters s ! i) (ap_adapters s ! j) (ap_world s) = (a, rest, w) \<Longrightarrow>
    adapter_step s (s\<lparr>ap_adapters := (ap_adapters s)[i := a, j := rest], ap_world := w\<rparr>)"

definition no_adapters :: "'w \<Rightarrow> ('h, 'p, 'w) adapter_program" where
  "no_adapters w = \<lparr>ap_adapters = [], ap_created = [], ap_world = ([], w)\<rparr>"

definition program_states :: "'w \<Rightarrow> ('h, 'p, 'w) adapter_program set" where
  "program_states w = {s. adapter_step\<^sup>*\<^sup>* (no_adapters w) s}"

subsection \<open>Handles that are owned and handles that were destroyed\<close>

fun held :: "'h option \<Rightarrow> 'h multiset" where
  "held None = {#}"
| "held (Some h) = {#h#}"

definition owned :: "'h option list \<Rightarrow> 'h multiset" where
  "owned hs = (\<Sum>h \<leftarrow> hs. held h)"

definition destroyed :: "'h call_log \<Rightarrow> 'h list" where
  "destroyed l = map fst (filter (\<lambda>c. snd c = F_Destroy) l)"

text \<open>After its destruction a handle is not passed to any function.\<close>

fun dead_untouched :: "'h call_log \<Rightarrow> bool" where
  "dead_untouched [] = True"
| "dead_untouched ((h, f) # l) = ((f = F_Destroy \<longrightarrow> h \<notin> fst ` set l) \<and> dead_untouched l)"

lemma owned_simps [simp]:
  "owned [] = {#}" "owned (h # hs) = held h + owned hs" "owned (hs @ ks) = owned hs + owned ks"
  by (simp_all add: owned_def)

lemma owned_update: "i < length hs \<Longrightarrow> owned (hs[i := x]) + held (hs ! i) = owned hs + held x"
proof (induction hs arbitrary: i)
  case (Cons k hs)
  then show ?case by (cases i) (simp_all add: ac_simps)
qed simp

lemma held_owned:
  assumes "i < length hs" "hs ! i = Some h"
  shows "h \<in># owned hs"
proof -
  have "owned hs = owned (hs[i := None]) + {#h#}" using owned_update [of i hs None] assms by simp
  then show ?thesis by simp
qed

lemma destroyed_append [simp]: "destroyed (l @ k) = destroyed l @ destroyed k"
  by (simp add: destroyed_def)

lemma dead_untouched_append:
  "dead_untouched (l @ k) \<longleftrightarrow> dead_untouched l \<and> dead_untouched k \<and> set (destroyed l) \<inter> fst ` set k = {}"
  by (induction l rule: dead_untouched.induct) (auto simp: destroyed_def)

text \<open>
  What one call of an operation does: it leaves the adapter with its handle and table and appends
  calls on that handle, none of them \<open>Destroy\<close>.
\<close>

definition calls_on :: "'h option \<Rightarrow> 'h call_log \<times> 'w \<Rightarrow> 'h call_log \<times> 'w \<Rightarrow> bool" where
  "calls_on handle w w' \<longleftrightarrow> (\<exists>cs. fst w' = fst w @ cs \<and>
     (\<forall>c \<in> set cs. Some (fst c) = handle \<and> snd c \<noteq> F_Destroy))"

definition sound_adapter :: "('h, 'p, 'h call_log \<times> 'w) adapter \<Rightarrow> bool" where
  "sound_adapter a \<longleftrightarrow> (na_handle a \<noteq> None \<longrightarrow> (\<exists>fa. na_facade a = Some (logged fa) \<and> ft_Destroy fa \<noteq> None))"

definition program_inv :: "('h, 'p, 'w) adapter_program \<Rightarrow> bool" where
  "program_inv s \<longleftrightarrow>
     list_all sound_adapter (ap_adapters s) \<and> distinct (ap_created s) \<and>
     mset (ap_created s) = owned (map na_handle (ap_adapters s)) + mset (destroyed (fst (ap_world s))) \<and>
     dead_untouched (fst (ap_world s)) \<and> fst ` set (fst (ap_world s)) \<subseteq> set (ap_created s)"

lemma calls_destroy_nothing:
  assumes "\<forall>c \<in> set cs. P c \<and> snd c \<noteq> F_Destroy"
  shows "destroyed cs = []" "dead_untouched cs"
  using assms by (induction cs) (auto simp: destroyed_def)

lemma calls_on_refl [simp]: "calls_on h w w"
  by (auto simp: calls_on_def intro: exI [of _ "[]"])

lemma calls_on_one: "fst w' = fst w @ [(h, f)] \<Longrightarrow> f \<noteq> F_Destroy \<Longrightarrow> calls_on (Some h) w w'"
  by (auto simp: calls_on_def)

lemma calls_on_trans: "calls_on h w w' \<Longrightarrow> calls_on h w' w'' \<Longrightarrow> calls_on h w w''"
  unfolding calls_on_def by (metis (no_types, lifting) Un_iff append.assoc set_append)

lemma logged_simps [simp]:
  "ft_Init (logged fa) = map_option (log_result F_Init) (ft_Init fa)"
  "ft_Start (logged fa) = map_option (log_result F_Start) (ft_Start fa)"
  "ft_Stop (logged fa) = map_option (log_effect F_Stop) (ft_Stop fa)"
  "ft_Join (logged fa) = map_option (log_result F_Join) (ft_Join fa)"
  "ft_JoinWithTimeout (logged fa) = map_option (\<lambda>f t. log_result F_JoinWithTimeout (f t)) (ft_JoinWithTimeout fa)"
  "ft_Execute (logged fa) = map_option (log_effect F_Execute) (ft_Execute fa)"
  "ft_SetName (logged fa) = map_option (\<lambda>f n. log_effect F_SetName (f n)) (ft_SetName fa)"
  "ft_Destroy (logged fa) = map_option (log_effect F_Destroy) (ft_Destroy fa)"
  by (simp_all add: logged_def)

lemma log_result_calls: "log_result tag f h w = (b, w') \<Longrightarrow> tag \<noteq> F_Destroy \<Longrightarrow> calls_on (Some h) w w'"
  by (rule calls_on_one) (auto simp: log_result_def split: prod.splits)

lemma log_effect_calls: "tag \<noteq> F_Destroy \<Longrightarrow> calls_on (Some h) w (log_effect tag f h w)"
  by (rule calls_on_one) (auto simp: log_effect_def)

lemma entry_logged:
  assumes "sound_adapter a" "entry field a = Some (f, h)"
  obtains fa where "na_handle a = Some h" "na_facade a = Some (logged fa)" "field (logged fa) = Some f"
  using assms by (auto simp: entry_def sound_adapter_def split: option.splits)

lemma op_keeps:
  assumes "sound_adapter a"
  shows "Adapter_Init a w = (b, a', w') \<Longrightarrow>
      na_handle a' = na_handle a \<and> na_facade a' = na_facade a \<and> calls_on (na_handle a) w w'"
    and "Adapter_Start a w = (b, a', w') \<Longrightarrow>
      na_handle a' = na_handle a \<and> na_facade a' = na_facade a \<and> calls_on (na_handle a) w w'"
    and "Adapter_Stop a w = (a', w') \<Longrightarrow>
      na_handle a' = na_handle a \<and> na_facade a' = na_facade a \<and> calls_on (na_handle a) w w'"
    and "Adapter_Join a w = (b, a', w') \<Longrightarrow>
      na_handle a' = na_handle a \<and> na_facade a' = na_facade a \<and> calls_on (na_handle a) w w'"
    and "Adapter_JoinWithTimeout t a w = (b, a', w') \<Longrightarrow>
      na_handle a' = na_handle a \<and> na_facade a' = na_facade a \<and> calls_on (na_handle a) w w'"
    and "calls_on (na_handle a) w (Adapter_Execute a w)"
    and "calls_on (na_handle a) w (Adapter_SetName name a w)"
  using assms
  by (auto simp: Adapter_Init_def Adapter_Start_def Adapter_Stop_def Adapter_Join_def Adapter_JoinWithTimeout_def
      Adapter_Execute_def Adapter_SetName_def log_effect_calls
      elim!: entry_logged dest: log_result_calls split: if_splits option.splits prod.splits)

lemma sound_same: "na_handle a' = na_handle a \<Longrightarrow> na_facade a' = na_facade a \<Longrightarrow> sound_adapter a' = sound_adapter a"
  by (simp add: sound_adapter_def)

text \<open>Cleaning up an adapter that holds a handle: its last call destroys the handle.\<close>

lemma cleanup_destroys:
  assumes "sound_adapter a" "Adapter_Cleanup a w = (a', w')"
  shows "na_handle a' = None"
    and "\<exists>w1. calls_on (na_handle a) w w1 \<and> fst w' = fst w1 @ map (\<lambda>h. (h, F_Destroy)) (case_option [] (\<lambda>h. [h]) (na_handle a))"
proof -
  show "na_handle a' = None"
    using assms(2) by (auto simp: Adapter_Cleanup_def Let_def split: option.splits prod.splits)
  show "\<exists>w1. calls_on (na_handle a) w w1 \<and> fst w' = fst w1 @ map (\<lambda>h. (h, F_Destroy)) (case_option [] (\<lambda>h. [h]) (na_handle a))"
  proof (cases "na_handle a")
    case None
    then have "w' = w" using assms(2) by (simp add: Adapter_Cleanup_def)
    then show ?thesis using None by (intro exI [of _ w]) simp
  next
    case (Some h)
    define r where "r = (if na_started a then (case Adapter_Stop a w of (a', w') \<Rightarrow> snd (Adapter_Join a' w')) else (a, w))"
    obtain a1 w1 where r1: "r = (a1, w1)" by (cases r)
    have keeps: "na_handle a1 = na_handle a \<and> na_facade a1 = na_facade a \<and> calls_on (na_handle a) w w1"
    proof (cases "na_started a")
      case True
      obtain a2 w2 where s: "Adapter_Stop a w = (a2, w2)" by (cases "Adapter_Stop a w")
      then have k: "na_handle a2 = na_handle a" "na_facade a2 = na_facade a" "calls_on (na_handle a) w w2"
        using op_keeps(3) [OF assms(1)] by blast+
      obtain b where "Adapter_Join a2 w2 = (b, a1, w1)"
        using r1 s True by (cases "Adapter_Join a2 w2") (auto simp: r_def)
      then show ?thesis
        using op_keeps(4) k sound_same [OF k(1, 2)] assms(1) calls_on_trans by metis
    qed (use r1 in \<open>auto simp: r_def\<close>)
    obtain fa d where fa: "na_facade a = Some (logged fa)" "ft_Destroy fa = Some d"
      using assms(1) Some by (auto simp: sound_adapter_def)
    have "w' = log_effect F_Destroy d h w1"
      using assms(2) Some keeps fa r1 by (auto simp: Adapter_Cleanup_def r_def [symmetric])
    then show ?thesis using keeps Some by (intro exI [of _ w1]) (simp add: log_effect_def)
  qed
qed

subsection \<open>The invariant\<close>

lemma owned_alive:
  assumes "distinct created" "mset created = held_by + mset dead" "h \<in># held_by"
  shows "h \<in> set created" "h \<notin> set dead"
proof -
  have one: "count (mset created) h \<le> 1" using assms(1) by (simp add: distinct_count_atmost_1)
  have "0 < count held_by h" using assms(3) by simp
  then have "count (mset dead) h = 0" using one unfolding assms(2) count_union by linarith
  then show "h \<notin> set dead" by simp
  show "h \<in> set created" using assms(2, 3) by (metis set_mset_mset union_iff)
qed

lemma sound_update: "list_all sound_adapter as \<Longrightarrow> sound_adapter a \<Longrightarrow> list_all sound_adapter (as[i := a])"
  by (auto simp: list_all_iff dest: set_update_subset_insert [THEN subsetD])

lemma inv_call:
  assumes inv: "program_inv s" and i: "i < length (ap_adapters s)"
    and handle: "na_handle a = na_handle (ap_adapters s ! i)" and sound: "sound_adapter a"
    and calls: "calls_on (na_handle (ap_adapters s ! i)) (ap_world s) w"
  shows "program_inv (put i a w s)"
proof -
  let ?hs = "map na_handle (ap_adapters s)"
  obtain cs where cs: "fst w = fst (ap_world s) @ cs"
      "\<forall>c \<in> set cs. Some (fst c) = na_handle (ap_adapters s ! i) \<and> snd c \<noteq> F_Destroy"
    using calls by (auto simp: calls_on_def)
  have hs: "map na_handle ((ap_adapters s)[i := a]) = ?hs"
    using handle i by (simp add: map_update) (metis list_update_id nth_map)
  have inv': "distinct (ap_created s)" "mset (ap_created s) = owned ?hs + mset (destroyed (fst (ap_world s)))"
    using inv by (simp_all add: program_inv_def)
  have alive: "h \<in> set (ap_created s) \<and> h \<notin> set (destroyed (fst (ap_world s)))" if "h \<in> fst ` set cs" for h
  proof -
    have "?hs ! i = Some h" using that cs(2) i by auto
    then have "h \<in># owned ?hs" using held_owned [of i ?hs] i by simp
    then show ?thesis using owned_alive [OF inv'] by blast
  qed
  show ?thesis
    using alive inv cs sound hs calls_destroy_nothing [OF cs(2)]
    by (auto simp: program_inv_def put_def dead_untouched_append sound_update)
qed

lemma inv_world:
  assumes "program_inv s" "i < length (ap_adapters s)"
    and "calls_on (na_handle (ap_adapters s ! i)) (ap_world s) w"
  shows "program_inv (s\<lparr>ap_world := w\<rparr>)"
proof -
  have "sound_adapter (ap_adapters s ! i)" using assms(1, 2) by (simp add: program_inv_def list_all_length)
  then show ?thesis using inv_call [OF assms(1, 2) refl _ assms(3)] by (simp add: put_def)
qed

lemma inv_destroy:
  assumes inv: "program_inv s" and i: "i < length (ap_adapters s)" and gone: "na_handle x = None"
    and calls: "calls_on (na_handle (ap_adapters s ! i)) (ap_world s) w1"
    and log: "fst w = fst w1 @ map (\<lambda>h. (h, F_Destroy)) (case_option [] (\<lambda>h. [h]) (na_handle (ap_adapters s ! i)))"
  shows "program_inv (put i x w s)"
proof -
  let ?hs = "map na_handle (ap_adapters s)"
  have inv1: "program_inv (s\<lparr>ap_world := w1\<rparr>)" using inv_world [OF inv i calls] .
  have x: "sound_adapter x" using gone by (simp add: sound_adapter_def)
  show ?thesis
  proof (cases "na_handle (ap_adapters s ! i)")
    case None
    then have "map na_handle ((ap_adapters s)[i := x]) = ?hs"
      using gone i by (simp add: map_update) (metis list_update_id nth_map)
    then show ?thesis using inv1 log None x by (auto simp: program_inv_def put_def sound_update)
  next
    case (Some h)
    have d: "distinct (ap_created s)" "mset (ap_created s) = owned ?hs + mset (destroyed (fst w1))"
      using inv1 by (simp_all add: program_inv_def)
    have split: "owned ?hs = owned (?hs[i := None]) + {#h#}" using owned_update [of i ?hs None] i Some by simp
    then have "h \<in> set (ap_created s)" "h \<notin> set (destroyed (fst w1))" using owned_alive [OF d, of h] by auto
    moreover have "destroyed (fst w) = destroyed (fst w1) @ [h]" using log Some by (simp add: destroyed_def)
    moreover have "map na_handle ((ap_adapters s)[i := x]) = ?hs[i := None]" using gone by (simp add: map_update)
    ultimately show ?thesis
      using inv1 log Some x split by (auto simp: program_inv_def put_def sound_update dead_untouched_append)
  qed
qed

lemma sound_nth: "program_inv s \<Longrightarrow> i < length (ap_adapters s) \<Longrightarrow> sound_adapter (ap_adapters s ! i)"
  by (simp add: program_inv_def list_all_length)

lemma inv_cleanup:
  assumes "program_inv s" "i < length (ap_adapters s)"
    and "Adapter_Cleanup (ap_adapters s ! i) (ap_world s) = (a, w)" "na_handle x = None"
  shows "program_inv (put i x w s)"
  using cleanup_destroys [OF sound_nth [OF assms(1, 2)] assms(3)] inv_destroy [OF assms(1, 2, 4)] by blast

lemma inv_move:
  assumes inv: "program_inv s" and ij: "i < length (ap_adapters s)" "j < length (ap_adapters s)" "i \<noteq> j"
    and empty: "na_handle (ap_adapters s ! i) = None"
  shows "program_inv (s\<lparr>ap_adapters := (ap_adapters s)[i := ap_adapters s ! j, j := moved_from (ap_adapters s ! j)]\<rparr>)"
proof -
  let ?hs = "map na_handle (ap_adapters s)"
  have "owned (?hs[i := ?hs ! j]) = owned ?hs + held (?hs ! j)"
    using owned_update [of i ?hs "?hs ! j"] ij empty by simp
  moreover have "owned (?hs[i := ?hs ! j, j := None]) + held (?hs ! j) = owned (?hs[i := ?hs ! j])"
    using owned_update [of j "?hs[i := ?hs ! j]" None] ij by simp
  ultimately have "owned (?hs[i := ?hs ! j, j := None]) = owned ?hs" by simp
  moreover have "sound_adapter (moved_from a)" for a :: "('a, 'b, 'a call_log \<times> 'c) adapter"
    by (simp add: sound_adapter_def moved_from_def)
  ultimately show ?thesis
    using inv ij sound_nth [OF inv ij(2)] by (simp add: program_inv_def sound_update map_update moved_from_def)
qed

lemma inv_op:
  assumes "program_inv s" "i < length (ap_adapters s)"
    and k: "na_handle a = na_handle (ap_adapters s ! i) \<and> na_facade a = na_facade (ap_adapters s ! i) \<and>
      calls_on (na_handle (ap_adapters s ! i)) (ap_world s) w"
  shows "program_inv (put i a w s)"
  using inv_call [OF assms(1, 2)] sound_nth [OF assms(1, 2)] sound_same k by blast

lemma step_inv: "adapter_step s s' \<Longrightarrow> program_inv s \<Longrightarrow> program_inv s'"
proof (induction rule: adapter_step.induct)
  case (construct h s fa)
  have "sound_adapter (NodeFacadeAdapter h (logged fa) (ap_world s))"
    using construct by (auto simp: sound_adapter_def NodeFacadeAdapter_def)
  then show ?case using construct by (auto simp: program_inv_def NodeFacadeAdapter_def)
next
  case (init i s b a w)
  then show ?case using inv_op op_keeps(1) sound_nth by blast
next
  case (start i s b a w)
  then show ?case using inv_op op_keeps(2) sound_nth by blast
next
  case (stop i s a w)
  then show ?case using inv_op op_keeps(3) sound_nth by blast
next
  case (join i s b a w)
  then show ?case using inv_op op_keeps(4) sound_nth by blast
next
  case (join_timeout i s t b a w)
  then show ?case using inv_op op_keeps(5) sound_nth by blast
next
  case (execute i s)
  show ?case by (rule inv_world [OF execute(2, 1) op_keeps(6) [OF sound_nth [OF execute(2, 1)]]])
next
  case (set_name i s name)
  show ?case by (rule inv_world [OF set_name(2, 1) op_keeps(7) [OF sound_nth [OF set_name(2, 1)]]])
next
  case (cleanup i s a w)
  show ?case
    by (rule inv_cleanup [OF cleanup(3, 1, 2) cleanup_destroys(1) [OF sound_nth [OF cleanup(3, 1)] cleanup(2)]])
next
  case (move_constructed i s a rest)
  let ?hs = "map na_handle (ap_adapters s)"
  have "owned (?hs[i := None]) + held (?hs ! i) = owned ?hs" using owned_update [of i ?hs None] move_constructed by simp
  then show ?case
    using move_constructed sound_nth [OF move_constructed(3, 1)]
    by (auto simp: program_inv_def move_construct_def map_update moved_from_def sound_adapter_def intro!: sound_update)
next
  case (move_assigned i s j a rest w)
  obtain a' where c: "Adapter_Cleanup (ap_adapters s ! i) (ap_world s) = (a', w)"
    and a: "a = ap_adapters s ! j" "rest = moved_from (ap_adapters s ! j)"
    using move_assigned(4) by (auto simp: move_assign_def split: prod.splits)
  let ?x = "(ap_adapters s ! i)\<lparr>na_handle := None\<rparr>" and ?s = "put i ((ap_adapters s ! i)\<lparr>na_handle := None\<rparr>) w s"
  have "program_inv ?s" using inv_cleanup [OF move_assigned(5, 1) c] by simp
  from inv_move [OF this, of i j] show ?case
    using move_assigned a by (simp add: put_def program_inv_def)
qed

lemma program_invariant: "s \<in> program_states w \<Longrightarrow> program_inv s"
proof -
  assume "s \<in> program_states w"
  then have "adapter_step\<^sup>*\<^sup>* (no_adapters w) s" by (simp add: program_states_def)
  then show "program_inv s"
  proof induction
    case base
    show ?case by (simp add: program_inv_def no_adapters_def destroyed_def)
  qed (use step_inv in blast)
qed

text \<open>
  C30. Handles of plugin nodes are owned: whatever a program does with adapters (constructing,
  running, moving, cleaning up), a handle is destroyed at most once, no function is called on it
  afterwards, two adapters never hold the same handle, and a handle that no adapter holds any more
  has been destroyed.
\<close>

theorem handles_are_destroyed_once:
  assumes "s \<in> program_states w"
  shows "distinct (destroyed (fst (ap_world s))) \<and> dead_untouched (fst (ap_world s)) \<and>
    mset (ap_created s) = owned (map na_handle (ap_adapters s)) + mset (destroyed (fst (ap_world s))) \<and>
    distinct (ap_created s)"
proof -
  have inv: "distinct (ap_created s)"
    "mset (ap_created s) = owned (map na_handle (ap_adapters s)) + mset (destroyed (fst (ap_world s)))"
    using program_invariant [OF assms] by (simp_all add: program_inv_def)
  have "count (mset (destroyed (fst (ap_world s)))) h \<le> 1" for h
    using inv by (metis count_union distinct_count_atmost_1 le_add2 order_trans zero_le_one le_refl)
  then have "distinct (destroyed (fst (ap_world s)))"
    by (metis count_mset_0_iff distinct_count_atmost_1 le_antisym less_one not_le)
  with inv show ?thesis using program_invariant [OF assms] by (simp add: program_inv_def)
qed

definition sample_table :: "(nat, unit, nat) node_facade" where
  "sample_table =
     \<lparr>ft_GetLifecycleState = None, ft_Init = Some (\<lambda>h w. (True, w + 1)), ft_Start = Some (\<lambda>h w. (True, w + 1)),
      ft_Stop = Some (\<lambda>h w. w), ft_Join = Some (\<lambda>h w. (True, w)), ft_JoinWithTimeout = None, ft_Execute = None,
      ft_GetName = None, ft_SetName = None, ft_GetType = None, ft_GetInputPortCount = None,
      ft_GetOutputPortCount = None, ft_GetInputPortName = None, ft_GetOutputPortName = None,
      ft_GetInputPortMetadata = None,
      ft_GetOutputPortMetadata = Some (\<lambda>h w. Some [\<lparr>pm_index = 1, pm_port_name = ''Left'', pm_payload_type = ''int'',
        pm_direction = ''output''\<rparr>]), ft_GetConfigFieldMetadata = None,
      ft_CreateInputRuntimePort = None, ft_CreateOutputRuntimePort = None, ft_DestroyRuntimePort = False,
      ft_GetAs = (\<lambda>_. None), ft_Destroy = Some (\<lambda>h w. 0)\<rparr>"

definition sample_constructed :: "(nat, unit, nat) adapter_program" where
  "sample_constructed = (no_adapters 0)\<lparr>ap_adapters := [NodeFacadeAdapter 7 (logged sample_table) ([], 0)],
     ap_created := [7]\<rparr>"

definition sample_started :: "(nat, unit, nat) adapter_program" where
  "sample_started = (case Adapter_Init (ap_adapters sample_constructed ! 0) (ap_world sample_constructed) of
     (_, a, w) \<Rightarrow> (case Adapter_Start a w of (_, a', w') \<Rightarrow> put 0 a' w' (put 0 a w sample_constructed)))"

definition sample_moved :: "(nat, unit, nat) adapter_program" where
  "sample_moved = (case move_construct (ap_adapters sample_started ! 0) of
     (a, rest) \<Rightarrow> sample_started\<lparr>ap_adapters := (ap_adapters sample_started)[0 := rest] @ [a]\<rparr>)"

definition sample_program :: "(nat, unit, nat) adapter_program" where
  "sample_program = (case Adapter_Cleanup (ap_adapters sample_moved ! 1) (ap_world sample_moved) of
     (a, w) \<Rightarrow> put 1 a w sample_moved)"

lemmas sample_defs = sample_constructed_def sample_started_def sample_moved_def sample_program_def no_adapters_def
  NodeFacadeAdapter_def put_def Adapter_Init_def Adapter_Start_def Adapter_Stop_def Adapter_Join_def
  Adapter_Cleanup_def entry_def logged_simps sample_table_def log_result_def log_effect_def move_construct_def
  moved_from_def

lemma sample_program_reachable: "sample_program \<in> program_states 0"
proof -
  let ?c = sample_constructed
  have "adapter_step (no_adapters 0) ?c"
    using construct [of 7 "no_adapters 0" sample_table] by (simp add: sample_constructed_def no_adapters_def sample_table_def)
  moreover obtain b a w where i: "Adapter_Init (ap_adapters ?c ! 0) (ap_world ?c) = (b, a, w)"
    by (cases "Adapter_Init (ap_adapters ?c ! 0) (ap_world ?c)") auto
  moreover have "adapter_step ?c (put 0 a w ?c)" using init [OF _ i] by (simp add: sample_constructed_def)
  moreover obtain b' a' w' where s: "Adapter_Start a w = (b', a', w')" by (cases "Adapter_Start a w") auto
  moreover have "adapter_step (put 0 a w ?c) (put 0 a' w' (put 0 a w ?c))"
    using start [of 0 "put 0 a w ?c" b' a' w'] s by (simp add: put_def sample_constructed_def)
  ultimately have "adapter_step\<^sup>*\<^sup>* (no_adapters 0) sample_started"
    by (auto simp: sample_started_def intro: rtranclp.rtrancl_into_rtrancl)
  moreover have "adapter_step sample_started sample_moved"
    using move_constructed [of 0 sample_started] by (auto simp: sample_defs)
  moreover have "adapter_step sample_moved sample_program"
    using cleanup [of 1 sample_moved] by (auto simp: sample_program_def sample_moved_def sample_started_def
        sample_constructed_def put_def split: prod.splits)
  ultimately show ?thesis
    by (auto simp: program_states_def intro: rtranclp.rtrancl_into_rtrancl)
qed

theorem handles_are_destroyed_once_witness:
  "destroyed (fst (ap_world sample_program)) = [7] \<and> distinct (destroyed (fst (ap_world sample_program))) \<and>
   fst (ap_world sample_program) = [(7, F_Init), (7, F_Start), (7, F_Stop), (7, F_Join), (7, F_Destroy)]"
  using handles_are_destroyed_once [OF sample_program_reachable] by (simp add: sample_defs destroyed_def)

section \<open>What a lookup finds\<close>

lemma from_chars_to_string: "i < 2 ^ 64 \<Longrightarrow> from_chars (to_string i) = Some i"
  using to_string_digits [of i] by (simp add: from_chars_def read_to_string)

lemma lookup_shape:
  "LookupPortHandle ms t n dir a w = Inr h \<Longrightarrow>
     ph_node_index h = n \<and> pd_direction (ph_descriptor h) = dir \<and> ph_has_port h"
  by (auto simp: LookupPortHandle_def Let_def metadata_handle_def runtime_handle_def split: option.splits if_splits)

lemma lookup_index:
  assumes "LookupPortHandle ms t n dir a w = Inr h" "from_chars t = Some i"
  shows "pd_id (ph_descriptor h) = i"
  using assms by (auto simp: LookupPortHandle_def Let_def port_alias_def metadata_handle_def runtime_handle_def
      find_Some_iff split: option.splits if_splits)

text \<open>How a lookup succeeds.\<close>

definition names_port :: "string \<Rightarrow> port_metadata \<Rightarrow> bool" where
  "names_port t port \<longleftrightarrow> (case from_chars t of Some i \<Rightarrow> pm_index port = i | None \<Rightarrow> t = pm_port_name port)"

lemma lookup_cases:
  assumes "LookupPortHandle ms t n dir a w = Inr h"
  obtains (direct) p where "p \<in> set ms" "names_port t p" "h = metadata_handle dir n a w p"
    | (aliased) i p where "\<forall>p \<in> set ms. \<not> names_port t p" "port_alias t = Some i" "p \<in> set ms" "pm_index p = i"
        "h = metadata_handle dir n a w p"
    | (runtime) i r where "\<forall>p \<in> set ms. \<not> names_port t p" "port_alias t = Some i" "h = runtime_handle dir n t i r"
proof -
  consider (1) p where "find (names_port t) ms = Some p" "h = metadata_handle dir n a w p"
    | (2) i p where "find (names_port t) ms = None" "port_alias t = Some i" "find (\<lambda>p. pm_index p = i) ms = Some p"
        "h = metadata_handle dir n a w p"
    | (3) i r where "find (names_port t) ms = None" "port_alias t = Some i" "h = runtime_handle dir n t i r"
    using assms
    by (auto simp: LookupPortHandle_def Let_def names_port_def [abs_def] split: option.splits if_splits)
  then show thesis
  proof cases
    case 1
    then have "p \<in> set ms" "names_port t p" by (auto simp: find_Some_iff)
    then show thesis using 1 direct by blast
  next
    case 2
    then have "p \<in> set ms" "pm_index p = i" by (auto simp: find_Some_iff)
    then show thesis using 2 aliased unfolding find_None_iff by blast
  next
    case 3
    then show thesis using runtime unfolding find_None_iff by blast
  qed
qed

text \<open>
  A name that is not a number is the name of a port that the metadata declare, if there is one, and
  otherwise an alias.
\<close>

lemma lookup_named:
  assumes "LookupPortHandle ms t n dir a w = Inr h" "from_chars t = None"
  shows "if t \<in> pm_port_name ` set ms
    then (\<exists>p \<in> set ms. pm_port_name p = t \<and> pm_index p = pd_id (ph_descriptor h))
    else port_alias t = Some (pd_id (ph_descriptor h))"
  using assms(1)
proof (cases rule: lookup_cases)
  case (direct p)
  then show ?thesis using assms(2) by (auto simp: names_port_def metadata_handle_def)
next
  case (aliased i p)
  then have "t \<notin> pm_port_name ` set ms" using assms(2) by (auto simp: names_port_def)
  then show ?thesis using aliased by (simp add: metadata_handle_def)
next
  case (runtime i r)
  then have "t \<notin> pm_port_name ` set ms" using assms(2) by (auto simp: names_port_def)
  then show ?thesis using runtime by (simp add: runtime_handle_def)
qed

text \<open>
  A port that is named by its index is that port: the handle has the index, the direction and
  the node that were asked for, and it is the entry of the metadata with this index when there is
  one. A port name that the metadata declare is found under that name.
\<close>

theorem lookup_finds_the_port:
  assumes "LookupPortHandle ms t n dir a w = Inr h"
  shows "ph_node_index h = n \<and> pd_direction (ph_descriptor h) = dir \<and>
    (\<forall>i. from_chars t = Some i \<longrightarrow> pd_id (ph_descriptor h) = i) \<and>
    (from_chars t = None \<and> t \<in> pm_port_name ` set ms \<longrightarrow> pd_name (ph_descriptor h) = t) \<and>
    (pd_id (ph_descriptor h) \<in> pm_index ` set ms \<or> port_alias t = Some (pd_id (ph_descriptor h)))"
  using assms
proof (cases rule: lookup_cases)
  case (direct p)
  then show ?thesis by (auto simp: names_port_def metadata_handle_def split: option.splits)
next
  case (aliased i p)
  then show ?thesis by (auto simp: names_port_def metadata_handle_def port_alias_def)
next
  case (runtime i r)
  then show ?thesis by (auto simp: names_port_def runtime_handle_def port_alias_def)
qed

theorem lookup_finds_the_port_witness:
  "case GetOutputPortHandle ''1'' 3 (NodeFacadeAdapter 7 sample_table 0) (0 :: nat) of
     Inr h \<Rightarrow> pd_id (ph_descriptor h) = 1 \<and> pd_name (ph_descriptor h) = ''Left'' | Inl _ \<Rightarrow> False"
proof -
  let ?a = "NodeFacadeAdapter 7 sample_table (0 :: nat)"
  have one: "from_chars ''1'' = Some 1" by (simp add: from_chars_def is_digit_def read_digits_def)
  then have l: "GetOutputPortHandle ''1'' 3 ?a 0 = Inr (metadata_handle PD_Output 3 ?a 0
      \<lparr>pm_index = 1, pm_port_name = ''Left'', pm_payload_type = ''int'', pm_direction = ''output''\<rparr>)"
    by (simp add: GetOutputPortHandle_def GetOutputPortMetadata_def entry_def NodeFacadeAdapter_def sample_table_def
        LookupPortHandle_def)
  then show ?thesis
    using lookup_finds_the_port [OF l [unfolded GetOutputPortHandle_def]] one by (simp add: metadata_handle_def)
qed

text \<open>
  A name that no port has is not an error when it ends in digits: the digits are taken as an
  index, so that a misspelt name is silently bound to another port.
\<close>

lemma misspelt_name_is_an_index:
  assumes "GetOutputPortMetadata a w = [p]" "pm_index p = 1" "pm_port_name p = ''Left''"
  shows "GetOutputPortHandle ''Right1'' n a w = Inr (metadata_handle PD_Output n a w p)"
  using assms by (simp add: GetOutputPortHandle_def LookupPortHandle_def port_alias_def from_chars_def is_digit_def
      read_digits_def)

end
