(* ===== verification/Graph_Loader.thy ===== *)
theory Graph_Loader
  imports Graph_Config Node_Facade
begin

text \<open>
  Loading the nodes of a configuration (\<open>libgraph/src/graph/JsonDynamicGraphLoader.cpp\<close>): validate the
  configuration, create every node through the provider, name it, check its \<open>port_config\<close> and
  \<open>node_config\<close> against the schema of the node and apply the latter. Arguments: \<open>create\<close> is the
  provider, \<open>schema\<close> the descriptor schema provider of the metadata service (applied to the
  descriptor of the adapter), and \<open>configure\<close> is \<open>IConfigurable::Configure\<close> of a plugin, which reports
  whether it returned or threw.
\<close>

section \<open>Checks against the descriptor schema\<close>

definition ValidateConfigSafe :: "'f graph_config \<Rightarrow> (unit, config_error) expected" where
  "ValidateConfigSafe config =
     (if vr_valid (GraphConfigParser_Validate config) then Inr () else Inl CFE_ValidationFailed)"

text \<open>The elements of an array member; another value or a missing member counts as empty.\<close>

definition array_member :: "'f json \<Rightarrow> string \<Rightarrow> 'f json list" where
  "array_member j key = (case member j key of Some (JArray xs) \<Rightarrow> xs | _ \<Rightarrow> [])"

definition string_member :: "'f json \<Rightarrow> string \<Rightarrow> string option" where
  "string_member j key = (case member j key of Some (JString s) \<Rightarrow> Some s | _ \<Rightarrow> None)"

definition true_member :: "'f json \<Rightarrow> string \<Rightarrow> bool" where
  "true_member j key = (case member j key of Some (JBool b) \<Rightarrow> b | _ \<Rightarrow> False)"

definition port_names :: "'f json \<Rightarrow> string \<Rightarrow> string list" where
  "port_names descriptor_schema key =
     List.map_filter (\<lambda>port. string_member port ''name'') (array_member descriptor_schema key)"

definition ValidatePortConfigAgainstDescriptorSchema ::
    "'f node_config \<Rightarrow> 'f json \<Rightarrow> (unit, config_error) expected" where
  "ValidatePortConfigAgainstDescriptorSchema node_config descriptor_schema =
     (let valid_ports = port_names descriptor_schema ''inputs'' @ port_names descriptor_schema ''outputs''
      in if list_all (\<lambda>(port_name, _). port_name \<in> set valid_ports) (nf_port_config node_config)
         then Inr () else Inl CFE_ValidationFailed)"

fun matches_type :: "'f json \<Rightarrow> string \<Rightarrow> bool" where
  "matches_type v expected_type =
     (if expected_type = ''string'' then is_string v
      else if expected_type = ''number'' then is_number v
      else if expected_type = ''integer'' then is_number_integer v
      else if expected_type = ''boolean'' then is_boolean v
      else if expected_type = ''array'' then is_array v
      else if expected_type = ''object'' then is_object v
      else True)"

text \<open>The declared fields; a later declaration of a name replaces an earlier one.\<close>

definition expected_fields :: "'f json \<Rightarrow> (string \<times> string \<times> bool) list" where
  "expected_fields descriptor_schema = rev (List.map_filter
     (\<lambda>field. map_option (\<lambda>name. (name,
        (case string_member field ''type'' of Some t \<Rightarrow> t | None \<Rightarrow> ''object''), true_member field ''required''))
       (string_member field ''name'')) (array_member descriptor_schema ''config_fields''))"

definition ValidateNodeConfigAgainstDescriptorSchema ::
    "'f node_config \<Rightarrow> 'f json \<Rightarrow> (unit, config_error) expected" where
  "ValidateNodeConfigAgainstDescriptorSchema node_config descriptor_schema =
     (let fields = array_member descriptor_schema ''config_fields'';
          has_config_fields = (fields \<noteq> []);
          supports_configuration = true_member descriptor_schema ''supports_configuration'';
          expected = expected_fields descriptor_schema
      in case nf_node_config node_config of
           JNull \<Rightarrow> if list_ex (\<lambda>field. true_member field ''required'') fields then Inl CFE_ValidationFailed else Inr ()
         | v \<Rightarrow>
             if \<not> supports_configuration \<and> \<not> has_config_fields then Inl CFE_ValidationFailed
             else if \<not> is_object v then Inl CFE_ValidationFailed
             else if supports_configuration \<and> \<not> has_config_fields
             then (if members v \<noteq> [] then Inl CFE_ValidationFailed else Inr ())
             else if list_ex (\<lambda>(name, _). case map_of expected name of
                 Some (_, required) \<Rightarrow> required \<and> member v name = None | None \<Rightarrow> False) expected
             then Inl CFE_ValidationFailed
             else if list_all (\<lambda>(name, field_value). case map_of expected name of
                 None \<Rightarrow> False | Some (field_type, _) \<Rightarrow> matches_type field_value field_type) (members v)
             then Inr () else Inl CFE_ValidationFailed)"

section \<open>Applying a configuration\<close>

definition InternalApplyNodeConfiguration ::
    "('p \<Rightarrow> 'f json \<Rightarrow> 'w \<Rightarrow> bool \<times> 'w) \<Rightarrow> ('h, 'p, 'w) adapter \<Rightarrow> 'f json \<Rightarrow> 'w \<Rightarrow>
     (unit, config_error) expected \<times> 'w" where
  "InternalApplyNodeConfiguration configure a config_json w =
     (if json_empty config_json then (Inr (), w)
      else case na_interfaces a NI_Configurable of
        None \<Rightarrow> (Inl CFE_ValidationFailed, w)
      | Some configurable \<Rightarrow>
          (case configure configurable config_json w of
             (ok, w') \<Rightarrow> (if ok then Inr () else Inl CFE_ValidationFailed, w')))"

definition InternalApplyPortConfiguration :: "(string \<times> 'f json) list \<Rightarrow> (unit, config_error) expected" where
  "InternalApplyPortConfiguration port_config = (if port_config = [] then Inr () else Inl CFE_ValidationFailed)"

definition configure_node ::
    "(('h, 'p, 'w) adapter \<Rightarrow> 'w \<Rightarrow> 'f json) \<Rightarrow> ('p \<Rightarrow> 'f json \<Rightarrow> 'w \<Rightarrow> bool \<times> 'w) \<Rightarrow> 'f node_config \<Rightarrow>
     ('h, 'p, 'w) adapter \<Rightarrow> 'w \<Rightarrow> (unit, config_error) expected \<times> 'w" where
  "configure_node schema configure nc a w =
     (case bind_ok (ValidatePortConfigAgainstDescriptorSchema nc (schema a w))
             (\<lambda>_. ValidateNodeConfigAgainstDescriptorSchema nc (schema a w)) of
        Inl e \<Rightarrow> (Inl e, w)
      | Inr _ \<Rightarrow>
          (case InternalApplyNodeConfiguration configure a (nf_node_config nc) w of
             (Inl e, w') \<Rightarrow> (Inl e, w')
           | (Inr _, w') \<Rightarrow> (InternalApplyPortConfiguration (nf_port_config nc), w')))"

section \<open>Building the adapters\<close>

type_synonym ('h, 'p, 'w, 's) node_factory =
  "string \<Rightarrow> 's \<Rightarrow> ('h \<times> ('h, 'p, 'w) node_facade, node_creation_error) expected \<times> 's"

definition runtime_name :: "'f node_config \<Rightarrow> string" where
  "runtime_name nc = (if nf_name nc \<noteq> [] then nf_name nc else nf_id nc)"

definition load_node ::
    "('h, 'p, 'w, 's) node_factory \<Rightarrow> (('h, 'p, 'w) adapter \<Rightarrow> 'w \<Rightarrow> 'f json) \<Rightarrow>
     ('p \<Rightarrow> 'f json \<Rightarrow> 'w \<Rightarrow> bool \<times> 'w) \<Rightarrow> 'f node_config \<Rightarrow> 's \<Rightarrow> 'w \<Rightarrow>
     (('h, 'p, 'w) adapter, config_error) expected \<times> 's \<times> 'w" where
  "load_node create schema configure nc s w =
     (case create (nf_type nc) s of
        (Inl _, s') \<Rightarrow> (Inl CFE_ValidationFailed, s', w)
      | (Inr (handle, facade), s') \<Rightarrow>
          let a = NodeFacadeAdapter handle facade w;
              w1 = (if runtime_name nc \<noteq> [] then Adapter_SetName (runtime_name nc) a w else w)
          in case configure_node schema configure nc a w1 of
               (Inl e, w2) \<Rightarrow> (Inl e, s', snd (Adapter_Cleanup a w2))
             | (Inr _, w2) \<Rightarrow> (Inr a, s', w2))"

text \<open>When a node fails, the adapters that were built before it are destroyed.\<close>

definition abandon :: "('h, 'p, 'w) adapter list \<Rightarrow> 'w \<Rightarrow> 'w" where
  "abandon as w = fold (\<lambda>a w. snd (Adapter_Cleanup a w)) as w"

fun load_nodes ::
    "('h, 'p, 'w, 's) node_factory \<Rightarrow> (('h, 'p, 'w) adapter \<Rightarrow> 'w \<Rightarrow> 'f json) \<Rightarrow>
     ('p \<Rightarrow> 'f json \<Rightarrow> 'w \<Rightarrow> bool \<times> 'w) \<Rightarrow> 'f node_config list \<Rightarrow> ('h, 'p, 'w) adapter list \<Rightarrow> 's \<Rightarrow> 'w \<Rightarrow>
     (('h, 'p, 'w) adapter list, config_error) expected \<times> 's \<times> 'w" where
  "load_nodes create schema configure [] nodes s w = (Inr nodes, s, w)"
| "load_nodes create schema configure (nc # ncs) nodes s w =
     (case load_node create schema configure nc s w of
        (Inl e, s', w') \<Rightarrow> (Inl e, s', abandon nodes w')
      | (Inr a, s', w') \<Rightarrow> load_nodes create schema configure ncs (nodes @ [a]) s' w')"

definition BuildNodeAdaptersFromConfig ::
    "('h, 'p, 'w, 's) node_factory \<Rightarrow> (('h, 'p, 'w) adapter \<Rightarrow> 'w \<Rightarrow> 'f json) \<Rightarrow>
     ('p \<Rightarrow> 'f json \<Rightarrow> 'w \<Rightarrow> bool \<times> 'w) \<Rightarrow> 'f graph_config \<Rightarrow> 's option \<Rightarrow> 'w \<Rightarrow>
     (('h, 'p, 'w) adapter list, config_error) expected \<times> 's option \<times> 'w" where
  "BuildNodeAdaptersFromConfig create schema configure config provider w =
     (case provider of
        None \<Rightarrow> (Inl CFE_ValidationFailed, None, w)
      | Some s \<Rightarrow>
          (case load_nodes create schema configure (gf_nodes config) [] s w of
             (r, s', w') \<Rightarrow> (r, Some s', w')))"

definition LoadGraphSafe ::
    "('h, 'p, 'w, 's) node_factory \<Rightarrow> (('h, 'p, 'w) adapter \<Rightarrow> 'w \<Rightarrow> 'f json) \<Rightarrow>
     ('p \<Rightarrow> 'f json \<Rightarrow> 'w \<Rightarrow> bool \<times> 'w) \<Rightarrow> 'f graph_config \<Rightarrow> 's option \<Rightarrow> 'w \<Rightarrow>
     (('h, 'p, 'w) adapter list \<times> edge_config list, config_error) expected \<times> 's option \<times> 'w" where
  "LoadGraphSafe create schema configure config provider w =
     (case ValidateConfigSafe config of
        Inl e \<Rightarrow> (Inl e, provider, w)
      | Inr _ \<Rightarrow>
          (case BuildNodeAdaptersFromConfig create schema configure config provider w of
             (Inl e, s', w') \<Rightarrow> (Inl e, s', w')
           | (Inr nodes, s', w') \<Rightarrow> (Inr (nodes, gf_edges config), s', w')))"

text \<open>The entry points that read the configuration from a file; \<open>parsed\<close> is the parsed file.\<close>

definition LoadGraphSafe_file ::
    "('h, 'p, 'w, 's) node_factory \<Rightarrow> (('h, 'p, 'w) adapter \<Rightarrow> 'w \<Rightarrow> 'f json) \<Rightarrow>
     ('p \<Rightarrow> 'f json \<Rightarrow> 'w \<Rightarrow> bool \<times> 'w) \<Rightarrow> ('f graph_config, config_error) expected \<Rightarrow> 's option \<Rightarrow> 'w \<Rightarrow>
     (('h, 'p, 'w) adapter list \<times> edge_config list, config_error) expected \<times> 's option \<times> 'w" where
  "LoadGraphSafe_file create schema configure parsed provider w =
     (case parsed of
        Inl e \<Rightarrow> (Inl e, provider, w)
      | Inr config \<Rightarrow> LoadGraphSafe create schema configure config provider w)"

definition LoadNodesSafe ::
    "('h, 'p, 'w, 's) node_factory \<Rightarrow> (('h, 'p, 'w) adapter \<Rightarrow> 'w \<Rightarrow> 'f json) \<Rightarrow>
     ('p \<Rightarrow> 'f json \<Rightarrow> 'w \<Rightarrow> bool \<times> 'w) \<Rightarrow> ('f graph_config, config_error) expected \<Rightarrow> 's option \<Rightarrow> 'w \<Rightarrow>
     (('h, 'p, 'w) adapter list, config_error) expected \<times> 's option \<times> 'w" where
  "LoadNodesSafe create schema configure parsed provider w =
     (case bind_ok parsed (\<lambda>config. bind_ok (ValidateConfigSafe config) (\<lambda>_. Inr config)) of
        Inl e \<Rightarrow> (Inl e, provider, w)
      | Inr config \<Rightarrow> BuildNodeAdaptersFromConfig create schema configure config provider w)"

definition LoadEdgesSafe ::
    "('f graph_config, config_error) expected \<Rightarrow> (edge_config list, config_error) expected" where
  "LoadEdgesSafe parsed =
     bind_ok parsed (\<lambda>config. bind_ok (ValidateConfigSafe config) (\<lambda>_. Inr (gf_edges config)))"

section \<open>Which configurations of a node are accepted\<close>

text \<open>
  What the checks amount to: a node configuration fits a schema when every declared required field
  is present and every present field is declared with a matching type.
\<close>

definition fits_schema :: "'f json \<Rightarrow> 'f json \<Rightarrow> bool" where
  "fits_schema descriptor_schema v \<longleftrightarrow>
     (let declared = map_of (expected_fields descriptor_schema) in
      (\<forall>name field_type. declared name = Some (field_type, True) \<longrightarrow> member v name \<noteq> None) \<and>
      (\<forall>(name, x) \<in> set (members v). \<exists>field_type required.
         declared name = Some (field_type, required) \<and> matches_type x field_type))"

lemma expected_fields_of_none: "array_member d ''config_fields'' = [] \<Longrightarrow> expected_fields d = []"
  by (simp add: expected_fields_def List.map_filter_def)

text \<open>
  A \<open>node_config\<close> object passes the check against the descriptor of the node if and only if it
  fits the declared fields and the node supports configuration or declares a field.
\<close>

theorem node_config_check:
  assumes "nf_node_config nc = JObject ms"
  shows "ValidateNodeConfigAgainstDescriptorSchema nc d = Inr () \<longleftrightarrow>
    (true_member d ''supports_configuration'' \<or> array_member d ''config_fields'' \<noteq> []) \<and> fits_schema d (JObject ms)"
proof (cases "array_member d ''config_fields'' = []")
  case True
  then show ?thesis
    using assms by (cases ms) (auto simp: ValidateNodeConfigAgainstDescriptorSchema_def fits_schema_def
        expected_fields_of_none Let_def)
next
  case False
  have req: "list_ex (\<lambda>(name, _). case map_of xs name of Some (_, required) \<Rightarrow> required \<and> member v name = None
      | None \<Rightarrow> False) xs \<longleftrightarrow> (\<exists>name t. map_of xs name = Some (t, True) \<and> member v name = None)"
    for xs :: "(string \<times> string \<times> bool) list" and v :: "'a json"
    by (force simp: list_ex_iff dest: map_of_SomeD split: option.splits)
  have fields: "list_all (\<lambda>(name, x). case m name of None \<Rightarrow> False | Some (t, _) \<Rightarrow> matches_type x t) xs \<longleftrightarrow>
      (\<forall>(name, x) \<in> set xs. \<exists>t r. m name = Some (t, r) \<and> matches_type x t)"
    for m :: "string \<Rightarrow> (string \<times> bool) option" and xs :: "(string \<times> 'a json) list"
    by (auto simp: list_all_iff split: option.splits simp del: matches_type.simps)
  show ?thesis
    using assms False
    by (simp add: ValidateNodeConfigAgainstDescriptorSchema_def Let_def req fields fits_schema_def del: matches_type.simps)
       blast
qed

text \<open>
  \<open>port_config\<close> is parsed and checked against the ports of the node, but a node with a nonempty one
  is never loaded.
\<close>

lemma port_config_is_refused:
  assumes "nf_port_config nc \<noteq> []"
  shows "\<nexists>a. fst (load_node create schema configure nc s w) = Inr a"
  using assms
  by (auto simp: load_node_def configure_node_def InternalApplyPortConfiguration_def Let_def
      split: prod.splits sum.splits)

section \<open>The names of the loaded nodes\<close>

text \<open>
  What is assumed of plugins: the tables that the provider hands out have \<open>GetName\<close> and \<open>SetName\<close>,
  where a name is \<open>name_of\<close> the handle, setting the name of a node changes no other name, and
  configuring a node changes no name.
\<close>

definition plugin_names ::
    "('h \<Rightarrow> 'w \<Rightarrow> string) \<Rightarrow> ('h, 'p, 'w) node_facade set \<Rightarrow> ('p \<Rightarrow> 'f json \<Rightarrow> 'w \<Rightarrow> bool \<times> 'w) \<Rightarrow> bool" where
  "plugin_names name_of tables configure \<longleftrightarrow>
     (\<forall>fa \<in> tables. ft_GetName fa = Some (\<lambda>h w. Some (name_of h w)) \<and>
        (\<exists>set_name. ft_SetName fa = Some set_name \<and>
           (\<forall>n h k w. name_of k (set_name n h w) = (if k = h then n else name_of k w)))) \<and>
     (\<forall>p j w k. name_of k (snd (configure p j w)) = name_of k w)"

definition provides :: "('h, 'p, 'w, 's) node_factory \<Rightarrow> ('h, 'p, 'w) node_facade set \<Rightarrow> bool" where
  "provides create tables \<longleftrightarrow> (\<forall>t s n s'. create t s = (Inr n, s') \<longrightarrow> snd n \<in> tables)"

definition named_node ::
    "('h \<Rightarrow> 'w \<Rightarrow> string) \<Rightarrow> ('h, 'p, 'w) node_facade set \<Rightarrow> 'w \<Rightarrow> ('h, 'p, 'w) adapter \<Rightarrow> string \<Rightarrow> bool" where
  "named_node name_of tables w a n \<longleftrightarrow>
     (\<exists>h fa. na_handle a = Some h \<and> na_facade a = Some fa \<and> fa \<in> tables \<and> name_of h w = n)"

lemma configure_node_names:
  "plugin_names name_of tables configure \<Longrightarrow>
     name_of k (snd (configure_node schema configure nc a w)) = name_of k w"
  by (auto simp: plugin_names_def configure_node_def InternalApplyNodeConfiguration_def
      split: sum.split prod.splits option.split if_splits) (metis snd_conv)+

lemma load_node_names:
  assumes laws: "plugin_names name_of tables configure" "provides create tables"
    and load: "load_node create schema configure nc s w = (Inr a, s', w')" and named: "runtime_name nc \<noteq> []"
  obtains h fa where "na_handle a = Some h" "na_facade a = Some fa" "fa \<in> tables"
    "\<And>k. name_of k w' = (if k = h then runtime_name nc else name_of k w)"
proof -
  obtain h fa where c: "create (nf_type nc) s = (Inr (h, fa), s')" and a: "a = NodeFacadeAdapter h fa w"
    and w': "w' = snd (configure_node schema configure nc a (Adapter_SetName (runtime_name nc) a w))"
    using load named by (auto simp: load_node_def Let_def split: prod.splits sum.splits)
  have fa: "fa \<in> tables" using c laws(2) by (force simp: provides_def)
  then obtain set_name where "ft_SetName fa = Some set_name"
    "\<And>n h k w. name_of k (set_name n h w) = (if k = h then n else name_of k w)"
    using laws(1) by (fastforce simp: plugin_names_def)
  then have "name_of k w' = (if k = h then runtime_name nc else name_of k w)" for k
    using w' a by (simp add: configure_node_names [OF laws(1)] Adapter_SetName_def entry_def NodeFacadeAdapter_def)
  then show ?thesis using that [of h fa] a fa by (simp add: NodeFacadeAdapter_def)
qed

lemma load_nodes_prefix:
  "load_nodes create schema configure ncs nodes s w = (Inr as, s', w') \<Longrightarrow>
     \<exists>more. as = nodes @ more \<and> length more = length ncs"
proof (induction ncs arbitrary: nodes s w)
  case (Cons nc ncs)
  then show ?case by (fastforce split: prod.splits sum.splits)
qed simp

lemma load_nodes_names:
  assumes laws: "plugin_names name_of tables configure" "provides create tables"
    and "load_nodes create schema configure ncs nodes s w = (Inr as, s', w')"
    and "distinct (map na_handle as)" "\<forall>nc \<in> set ncs. runtime_name nc \<noteq> []"
    and "list_all2 (named_node name_of tables w) nodes names"
  shows "list_all2 (named_node name_of tables w') as (names @ map runtime_name ncs)"
  using assms(3-6)
proof (induction ncs arbitrary: nodes s w names)
  case (Cons nc ncs)
  obtain a s1 w1 where l: "load_node create schema configure nc s w = (Inr a, s1, w1)"
    and rest: "load_nodes create schema configure ncs (nodes @ [a]) s1 w1 = (Inr as, s', w')"
    using Cons.prems(1) by (auto split: prod.splits sum.splits)
  obtain h fa where a: "na_handle a = Some h" "na_facade a = Some fa" "fa \<in> tables"
    and names: "\<And>k. name_of k w1 = (if k = h then runtime_name nc else name_of k w)"
    using load_node_names [OF laws l] Cons.prems(3) by auto
  have "\<exists>more. as = nodes @ a # more" using load_nodes_prefix [OF rest] by auto
  then have "Some h \<notin> na_handle ` set nodes" using Cons.prems(2) a by auto
  then have "list_all2 (named_node name_of tables w1) nodes names"
    using Cons.prems(4) by (auto simp: list_all2_conv_all_nth named_node_def names)
       (metis image_eqI nth_mem)
  then have "list_all2 (named_node name_of tables w1) (nodes @ [a]) (names @ [runtime_name nc])"
    using a names by (intro list_all2_appendI) (auto simp: named_node_def)
  from Cons.IH [OF rest Cons.prems(2) _ this] Cons.prems(3) show ?case by simp
qed simp

lemma named_node_GetName:
  assumes "plugin_names name_of tables configure" "named_node name_of tables w a n"
  shows "Adapter_GetName a w = n"
  using assms by (auto simp: named_node_def plugin_names_def Adapter_GetName_def entry_def)

end
