(* ===== verification/Graph_Builder.thy ===== *)
theory Graph_Builder
  imports Graph_Loader Graph_Manager
begin

text \<open>
  From a configuration to a graph (\<open>libgraph/src/graph/GraphBuilder.cpp\<close>): validate, load the nodes
  through the resolving provider, register them with a new graph manager under their configured
  identifiers, and wire the edges. The configuration is read twice, by \<open>Validate\<close> and by \<open>Build\<close>;
  the two readings are arguments, as are the provider of the capability (\<open>available\<close>, \<open>create\<close>) and
  the plugin code of \<open>Graph_Loader\<close>. Exceptions are values of \<open>build_error\<close>, from which the text of
  the error message is made.
\<close>

section \<open>The builder\<close>

datatype build_error =
    BE_NodeCountMismatch
  | BE_Register manager_error
  | BE_EdgeInvalid
  | BE_SourceNotFound string
  | BE_DestinationNotFound string
  | BE_BackpressureDisabled
  | BE_IndexOutOfRange
  | BE_SourcePort port_lookup_error
  | BE_DestinationPort port_lookup_error
  | BE_Edge graph_execution_failure

text \<open>The value of \<open>last_error_\<close>: empty, a message, or the text of a caught exception.\<close>

datatype last_error = NoError | Message string | Raised build_error

record ('h, 'p, 'w, 'e, 't) graph_builder =
  gb_graph :: "(('h, 'p, 'w) adapter, 'e, 't) graph_manager option"
  gb_nodes :: "('h, 'p, 'w) adapter list"
  gb_node_count :: nat
  gb_edge_count :: nat
  gb_last_error :: last_error

datatype build_failure = BF_Validation last_error | BF_Parse | BF_Load | BF_Exception build_error | BF_Topology last_error

record ('h, 'p, 'w, 'e, 't) build_result =
  br_failure :: "build_failure option"
  br_graph :: "(('h, 'p, 'w) adapter, 'e, 't) graph_manager option"
  br_node_count :: nat
  br_edge_count :: nat
  br_node_names :: "string list"
  br_edge_descriptions :: "string list"
  br_resolver_diagnostics :: "resolution_diagnostic list"

definition failed :: "build_failure \<Rightarrow> ('h, 'p, 'w, 'e, 't) build_result" where
  "failed f = \<lparr>br_failure = Some f, br_graph = None, br_node_count = 0, br_edge_count = 0, br_node_names = [],
     br_edge_descriptions = [], br_resolver_diagnostics = []\<rparr>"

fun join_messages :: "string list \<Rightarrow> string" where
  "join_messages [] = []"
| "join_messages [m] = m"
| "join_messages (m # ms) = m @ ''; '' @ join_messages ms"

definition validation_message :: "string list \<Rightarrow> string" where
  "validation_message errors =
     ''Graph configuration validation failed'' @ (if errors = [] then [] else '': '' @ join_messages errors)"

definition GraphBuilder_Validate ::
    "('f graph_config, config_error) expected \<Rightarrow> ('h, 'p, 'w, 'e, 't) graph_builder \<Rightarrow>
     bool \<times> ('h, 'p, 'w, 'e, 't) graph_builder" where
  "GraphBuilder_Validate parsed_config b =
     (case parsed_config of
        Inl _ \<Rightarrow> (False, b\<lparr>gb_last_error := Message ''Failed to parse graph configuration''\<rparr>)
      | Inr config \<Rightarrow>
          let result = GraphConfigParser_Validate config
          in if \<not> vr_valid result then (False, b\<lparr>gb_last_error := Message (validation_message (vr_errors result))\<rparr>)
             else (True, b\<lparr>gb_last_error := NoError\<rparr>))"

section \<open>Registering nodes\<close>

fun register_nodes ::
    "('n \<times> string) list \<Rightarrow> ('n, 'e, 't) graph_manager \<Rightarrow>
     (unit, build_error) expected \<times> ('n, 'e, 't) graph_manager" where
  "register_nodes [] g = (Inr (), g)"
| "register_nodes ((n, nid) # rest) g =
     (case GraphManager_AddNode (Some n) nid g of
        (Inl e, g') \<Rightarrow> (Inl (BE_Register e), g')
      | (Inr _, g') \<Rightarrow> register_nodes rest g')"

definition RegisterNodes ::
    "('h, 'p, 'w) adapter list \<Rightarrow> 'f node_config list \<Rightarrow> (('h, 'p, 'w) adapter, 'e, 't) graph_manager \<Rightarrow>
     (unit, build_error) expected \<times> (('h, 'p, 'w) adapter, 'e, 't) graph_manager" where
  "RegisterNodes nodes node_configs g =
     (if length node_configs \<noteq> length nodes then (Inl BE_NodeCountMismatch, g)
      else register_nodes (zip nodes (map nf_id node_configs)) g)"

section \<open>Wiring edges\<close>

text \<open>The map from the \<^emph>\<open>names\<close> of the nodes to their indices; a later node replaces an earlier one.\<close>

definition node_type_map :: "('h, 'p, 'w) adapter list \<Rightarrow> 'w \<Rightarrow> (string \<times> nat \<times> string) list" where
  "node_type_map nodes w =
     rev (map (\<lambda>i. (Adapter_GetName (nodes ! i) w, i, Adapter_GetType (nodes ! i) w)) [0..<length nodes])"

definition source_port_token :: "edge_config \<Rightarrow> string" where
  "source_port_token e =
     (if ef_source_port_name e \<noteq> [] then ef_source_port_name e else to_string (unat (ef_source_port e)))"

definition target_port_token :: "edge_config \<Rightarrow> string" where
  "target_port_token e =
     (if ef_target_port_name e \<noteq> [] then ef_target_port_name e else to_string (unat (ef_target_port e)))"

definition WireEdge ::
    "(port_handle \<Rightarrow> port_handle \<Rightarrow> nat \<Rightarrow> 'e) \<Rightarrow> ('h, 'p, 'w) adapter list \<Rightarrow> (string \<times> nat \<times> string) list \<Rightarrow>
     'w \<Rightarrow> edge_config \<Rightarrow> (('h, 'p, 'w) adapter, 'e, 't) graph_manager \<Rightarrow>
     (unit, build_error) expected \<times> (('h, 'p, 'w) adapter, 'e, 't) graph_manager" where
  "WireEdge make_edge nodes type_map w edge g =
     (if \<not> EdgeConfig_Validate edge then (Inl BE_EdgeInvalid, g)
      else case map_of type_map (ef_source_node_id edge) of
        None \<Rightarrow> (Inl (BE_SourceNotFound (ef_source_node_id edge)), g)
      | Some (src_idx, src_type) \<Rightarrow>
          (case map_of type_map (ef_target_node_id edge) of
             None \<Rightarrow> (Inl (BE_DestinationNotFound (ef_target_node_id edge)), g)
           | Some (dst_idx, dst_type) \<Rightarrow>
               if \<not> ef_backpressure_enabled edge then (Inl BE_BackpressureDisabled, g)
               else if length nodes \<le> src_idx \<or> length nodes \<le> dst_idx then (Inl BE_IndexOutOfRange, g)
               else
                 (case GetOutputPortHandle (source_port_token edge) src_idx (nodes ! src_idx) w of
                    Inl e \<Rightarrow> (Inl (BE_SourcePort e), g)
                  | Inr source \<Rightarrow>
                      (case GetInputPortHandle (target_port_token edge) dst_idx (nodes ! dst_idx) w of
                         Inl e \<Rightarrow> (Inl (BE_DestinationPort e), g)
                       | Inr destination \<Rightarrow>
                           (case GraphManager_AddDynamicEdgeExpected make_edge source destination
                                   (unat (ef_buffer_size edge)) g of
                              (Inl e, g') \<Rightarrow> (Inl (BE_Edge e), g')
                            | (Inr _, g') \<Rightarrow> (Inr (), g'))))))"

fun WireEdges ::
    "(port_handle \<Rightarrow> port_handle \<Rightarrow> nat \<Rightarrow> 'e) \<Rightarrow> ('h, 'p, 'w) adapter list \<Rightarrow> (string \<times> nat \<times> string) list \<Rightarrow>
     'w \<Rightarrow> edge_config list \<Rightarrow> (('h, 'p, 'w) adapter, 'e, 't) graph_manager \<Rightarrow>
     (unit, build_error) expected \<times> (('h, 'p, 'w) adapter, 'e, 't) graph_manager" where
  "WireEdges make_edge nodes type_map w [] g = (Inr (), g)"
| "WireEdges make_edge nodes type_map w (edge # edges) g =
     (case WireEdge make_edge nodes type_map w edge g of
        (Inl e, g') \<Rightarrow> (Inl e, g')
      | (Inr _, g') \<Rightarrow> WireEdges make_edge nodes type_map w edges g')"

section \<open>Building\<close>

definition ValidateTopology ::
    "('h, 'p, 'w, 'e, 't) graph_builder \<Rightarrow> bool \<times> ('h, 'p, 'w, 'e, 't) graph_builder" where
  "ValidateTopology b =
     (case gb_graph b of
        None \<Rightarrow> (False, b\<lparr>gb_last_error := Message ''GraphManager is null''\<rparr>)
      | Some _ \<Rightarrow>
          (True, b\<lparr>gb_last_error := (if gb_node_count b = 0 then Message ''Graph has no nodes'' else NoError)\<rparr>))"

definition describe_edge :: "edge_config \<Rightarrow> string" where
  "describe_edge e = ef_source_node_id e @ '':'' @ to_string (unat (ef_source_port e)) @
     [CHR '' '', CHR 0xE2, CHR 0x86, CHR 0x92, CHR '' ''] @
     ef_target_node_id e @ '':'' @ to_string (unat (ef_target_port e))"

definition make_graph ::
    "(port_handle \<Rightarrow> port_handle \<Rightarrow> nat \<Rightarrow> 'e) \<Rightarrow> 'f node_config list \<Rightarrow> ('h, 'p, 'w) adapter list \<Rightarrow>
     edge_config list \<Rightarrow> 'w \<Rightarrow>
     (unit, build_error) expected \<times> (('h, 'p, 'w) adapter, 'e, 't) graph_manager" where
  "make_graph make_edge node_configs nodes edges w =
     (case RegisterNodes nodes node_configs (GraphManager 0 default_deadlock_config) of
        (Inl e, g) \<Rightarrow> (Inl e, g)
      | (Inr _, g) \<Rightarrow> WireEdges make_edge nodes (node_type_map nodes w) w edges g)"

definition Build ::
    "('s \<Rightarrow> string \<Rightarrow> bool) \<Rightarrow> ('h, 'p, 'w, 's) node_factory \<Rightarrow> (('h, 'p, 'w) adapter \<Rightarrow> 'w \<Rightarrow> 'f json) \<Rightarrow>
     ('p \<Rightarrow> 'f json \<Rightarrow> 'w \<Rightarrow> bool \<times> 'w) \<Rightarrow> (port_handle \<Rightarrow> port_handle \<Rightarrow> nat \<Rightarrow> 'e) \<Rightarrow>
     ('f graph_config, config_error) expected \<Rightarrow> ('f graph_config, config_error) expected \<Rightarrow> 's \<Rightarrow> 'w \<Rightarrow>
     ('h, 'p, 'w, 'e, 't) graph_builder \<Rightarrow>
     ('h, 'p, 'w, 'e, 't) build_result \<times> ('h, 'p, 'w, 'e, 't) graph_builder \<times> 'w" where
  "Build available create schema configure make_edge first_reading second_reading inner w b =
     (let b0 = b\<lparr>gb_last_error := NoError, gb_node_count := 0, gb_edge_count := 0\<rparr>
      in case GraphBuilder_Validate first_reading b0 of
           (ok, b1) \<Rightarrow>
             if \<not> ok then (failed (BF_Validation (gb_last_error b1)), b1, w)
             else case second_reading of
               Inl _ \<Rightarrow> (failed BF_Parse, b1, w)
             | Inr config \<Rightarrow>
                 let registry = AddMappings (gf_resolver_mappings config) CreateDefault;
                     provider = ResolvingNodeProvider (Some inner) (gf_resolver config) registry
                 in case LoadGraphSafe (Resolving_CreateNodeExpected available create) schema configure config
                           (Some provider) w of
                      (Inl _, _, w') \<Rightarrow> (failed BF_Load, b1, w')
                    | (Inr (nodes, edges), provider', w') \<Rightarrow>
                        (case make_graph make_edge (gf_nodes config) nodes edges w' of
                           (Inl e, g) \<Rightarrow> (failed (BF_Exception e),
                              b1\<lparr>gb_nodes := nodes, gb_graph := Some g, gb_last_error := Raised e\<rparr>, w')
                         | (Inr _, g) \<Rightarrow>
                             (case ValidateTopology (b1\<lparr>gb_nodes := nodes, gb_graph := Some g,
                                     gb_node_count := length nodes, gb_edge_count := length edges\<rparr>) of
                                (ok, b2) \<Rightarrow>
                                  if \<not> ok
                                  then ((failed (BF_Topology (gb_last_error b2)))\<lparr>br_node_count := length nodes,
                                          br_edge_count := length edges\<rparr>, b2, w')
                                  else
                                    (\<lparr>br_failure = None, br_graph = Some g, br_node_count = length nodes,
                                      br_edge_count = length edges,
                                      br_node_names = map (\<lambda>a. Adapter_GetName a w') nodes,
                                      br_edge_descriptions = map describe_edge edges,
                                      br_resolver_diagnostics =
                                        (case provider' of None \<Rightarrow> [] | Some p \<Rightarrow> vp_diagnostics p)\<rparr>,
                                     b2, w'))))"

section \<open>Nodes of the graph\<close>

lemma register_nodes_ok:
  assumes "register_nodes ns g = (Inr (), g')" "list_all (\<lambda>n. snd n \<noteq> []) ns"
  shows "gm_nodes g' = gm_nodes g @ map fst ns \<and>
    gm_canonical_node_ids g' = gm_canonical_node_ids g @ map snd ns \<and>
    gm_edges g' = gm_edges g \<and> gm_edge_metadata g' = gm_edge_metadata g \<and>
    gm_num_threads g' = gm_num_threads g \<and> gm_thread_pool_config g' = gm_thread_pool_config g"
  using assms
proof (induction ns arbitrary: g)
  case (Cons n ns)
  obtain a nid where n: "n = (a, nid)" by (cases n)
  show ?case
    using Cons.prems Cons.IH n by (auto simp: GraphManager_AddNode_def split: if_splits prod.splits sum.splits)
qed simp

lemma register_nodes_total:
  assumes "\<not> gm_initialized g" "distinct (gm_canonical_node_ids g @ map snd ns)" "list_all (\<lambda>n. snd n \<noteq> []) ns"
  shows "\<exists>g'. register_nodes ns g = (Inr (), g')"
  using assms
proof (induction ns arbitrary: g)
  case (Cons n ns)
  obtain a nid where n: "n = (a, nid)" by (cases n)
  obtain g1 where g1: "GraphManager_AddNode (Some a) nid g = (Inr (), g1)" "\<not> gm_initialized g1"
      "gm_canonical_node_ids g1 = gm_canonical_node_ids g @ [nid]"
    using Cons.prems n by (auto simp: GraphManager_AddNode_def)
  then show ?case using Cons.IH [of g1] Cons.prems n by simp
qed simp

section \<open>Edges of the graph\<close>

text \<open>
  The port of a configured end of an edge: without a name the configured index; a name that is a
  number is an index; a name that the node declares is a port of that name; any other name is an alias
  (\<open>In\<close>, \<open>Output\<close>, \<open>Data\<close> and the like for the first port, otherwise the number in which it ends).
\<close>

definition configured_port :: "port_metadata list \<Rightarrow> string \<Rightarrow> u64 \<Rightarrow> u64 \<Rightarrow> bool" where
  "configured_port declared name index port \<longleftrightarrow>
     (if name = [] then port = index
      else case from_chars name of
          Some i \<Rightarrow> port = of_nat i
        | None \<Rightarrow>
            if name \<in> pm_port_name ` set declared
            then \<exists>p \<in> set declared. pm_port_name p = name \<and> port = of_nat (pm_index p)
            else \<exists>i. port_alias name = Some i \<and> port = of_nat i)"

text \<open>
  The metadata of an edge agree with the configuration: they hold the indices of the nodes that have
  the configured identifiers, and the configured ports of these nodes.
\<close>

definition joins :: "('h, 'p, 'w) adapter list \<Rightarrow> 'w \<Rightarrow> string list \<Rightarrow> edge_config \<Rightarrow> edge_metadata \<Rightarrow> bool" where
  "joins nodes w ids e m \<longleftrightarrow>
     (\<exists>i < length ids. ids ! i = ef_source_node_id e \<and> md_source_node_id m = of_nat i \<and>
        configured_port (GetOutputPortMetadata (nodes ! i) w) (ef_source_port_name e) (ef_source_port e)
          (md_source_port_id m)) \<and>
     (\<exists>j < length ids. ids ! j = ef_target_node_id e \<and> md_dest_node_id m = of_nat j \<and>
        configured_port (GetInputPortMetadata (nodes ! j) w) (ef_target_port_name e) (ef_target_port e)
          (md_dest_port_id m))"

lemma node_type_map_index:
  assumes "map_of (node_type_map nodes w) key = Some (i, t)"
  shows "i < length nodes" "Adapter_GetName (nodes ! i) w = key"
  using map_of_SomeD [OF assms] by (auto simp: node_type_map_def)

lemma port_token_index:
  "LookupPortHandle ms (to_string (unat (p :: u64))) n dir a w = Inr h \<Longrightarrow> of_nat (pd_id (ph_descriptor h)) = p"
  using lookup_index [OF _ from_chars_to_string, of ms "unat p"] unsigned_less [of p] by fastforce

lemma lookup_configured_port:
  assumes "LookupPortHandle ms t n dir a w = Inr h"
    and "t = (if name \<noteq> [] then name else to_string (unat index))"
  shows "configured_port ms name index (of_nat (pd_id (ph_descriptor h)))"
proof (cases "name = []")
  case True
  then show ?thesis using assms port_token_index by (auto simp: configured_port_def)
next
  case False
  then have t: "t = name" using assms(2) by simp
  show ?thesis
  proof (cases "from_chars name")
    case None
    then show ?thesis using lookup_named [OF assms(1)] False t
      by (auto simp: configured_port_def split: if_splits)
  next
    case (Some i)
    then show ?thesis using lookup_index [OF assms(1)] False t by (simp add: configured_port_def)
  qed
qed

lemma WireEdge_joins:
  assumes "WireEdge mk nodes (node_type_map nodes w) w e g = (Inr (), g')"
    and "map (\<lambda>a. Adapter_GetName a w) nodes = ids"
  shows "\<exists>edge m. g' = append_edge edge m g \<and> joins nodes w ids e m"
proof -
  obtain i ti j tj source destination where
      i: "map_of (node_type_map nodes w) (ef_source_node_id e) = Some (i, ti)"
    and j: "map_of (node_type_map nodes w) (ef_target_node_id e) = Some (j, tj)"
    and s: "GetOutputPortHandle (source_port_token e) i (nodes ! i) w = Inr source"
    and d: "GetInputPortHandle (target_port_token e) j (nodes ! j) w = Inr destination"
    and add: "GraphManager_AddDynamicEdgeExpected mk source destination (unat (ef_buffer_size e)) g = (Inr (), g')"
    using assms(1) by (auto simp: WireEdge_def split: if_splits option.splits prod.splits sum.splits)
  have index: "ph_node_index source = i" "ph_node_index destination = j"
    using s d lookup_shape by (fastforce simp: GetOutputPortHandle_def GetInputPortHandle_def)+
  have ports: "configured_port (GetOutputPortMetadata (nodes ! i) w) (ef_source_port_name e) (ef_source_port e)
        (of_nat (pd_id (ph_descriptor source)))"
    "configured_port (GetInputPortMetadata (nodes ! j) w) (ef_target_port_name e) (ef_target_port e)
        (of_nat (pd_id (ph_descriptor destination)))"
    using lookup_configured_port [OF s [unfolded GetOutputPortHandle_def]]
      lookup_configured_port [OF d [unfolded GetInputPortHandle_def]]
    by (simp_all add: source_port_token_def target_port_token_def)
  have "i < length ids" "ids ! i = ef_source_node_id e" "j < length ids" "ids ! j = ef_target_node_id e"
    using node_type_map_index [OF i] node_type_map_index [OF j] assms(2) by auto
  moreover obtain edge m where "g' = append_edge edge m g" "md_source_node_id m = of_nat i" "md_dest_node_id m = of_nat j"
    "md_source_port_id m = of_nat (pd_id (ph_descriptor source))"
    "md_dest_port_id m = of_nat (pd_id (ph_descriptor destination))"
    using add index by (auto simp: GraphManager_AddDynamicEdgeExpected_def split: if_splits)
  ultimately show ?thesis using ports unfolding joins_def by metis
qed

lemma WireEdges_joins:
  assumes "WireEdges mk nodes (node_type_map nodes w) w es g = (Inr (), g')"
    and "map (\<lambda>a. Adapter_GetName a w) nodes = ids"
  shows "\<exists>ms. gm_edge_metadata g' = gm_edge_metadata g @ ms \<and> list_all2 (joins nodes w ids) es ms \<and>
    gm_nodes g' = gm_nodes g \<and> gm_canonical_node_ids g' = gm_canonical_node_ids g \<and>
    gm_num_threads g' = gm_num_threads g \<and> gm_thread_pool_config g' = gm_thread_pool_config g"
  using assms(1)
proof (induction es arbitrary: g)
  case (Cons e es)
  obtain g1 where e: "WireEdge mk nodes (node_type_map nodes w) w e g = (Inr (), g1)"
    and es: "WireEdges mk nodes (node_type_map nodes w) w es g1 = (Inr (), g')"
    using Cons.prems by (auto split: prod.splits sum.splits)
  obtain edge m where g1: "g1 = append_edge edge m g" "joins nodes w ids e m"
    using WireEdge_joins [OF e assms(2)] by blast
  obtain ms where "gm_edge_metadata g' = gm_edge_metadata g1 @ ms" "list_all2 (joins nodes w ids) es ms"
    "gm_nodes g' = gm_nodes g1" "gm_canonical_node_ids g' = gm_canonical_node_ids g1"
    "gm_num_threads g' = gm_num_threads g1" "gm_thread_pool_config g' = gm_thread_pool_config g1"
    using Cons.IH [OF es] by blast
  with g1 show ?case by (intro exI [of _ "m # ms"]) (simp add: append_edge_def)
qed simp

section \<open>The built graph\<close>

lemma Resolving_provides:
  assumes "provides create tables"
  shows "provides (Resolving_CreateNodeExpected available create) tables"
proof -
  have "\<exists>t' s s'. create t' s = (Inr n, s')" if "Resolving_CreateNodeExpected available create t p = (Inr n, p')" for t p n p'
    using that by (auto simp: Resolving_CreateNodeExpected_def Let_def split: option.splits sum.splits prod.splits)
  then show ?thesis using assms unfolding provides_def by metis
qed

lemma Build_success:
  assumes "Build available create schema configure mk first second inner w b = (r, b', w')" "br_failure r = None"
  obtains config nodes provider provider' g where
    "second = Inr config" "vr_valid (GraphConfigParser_Validate config)"
    "load_nodes (Resolving_CreateNodeExpected available create) schema configure (gf_nodes config) [] provider w =
       (Inr nodes, provider', w')"
    "make_graph mk (gf_nodes config) nodes (gf_edges config) w' = (Inr (), g)"
    "br_graph r = Some g" "br_node_count r = length nodes" "br_edge_count r = length (gf_edges config)"
    "br_node_names r = map (\<lambda>a. Adapter_GetName a w') nodes"
  using assms
  by (auto simp: Build_def failed_def LoadGraphSafe_def BuildNodeAdaptersFromConfig_def ValidateConfigSafe_def Let_def
      split: if_splits sum.splits prod.splits option.splits)

lemma valid_ids: "vr_valid (GraphConfigParser_Validate config) \<Longrightarrow> n \<in> set (gf_nodes config) \<Longrightarrow> nf_id n \<noteq> []"
  by (auto simp: Validate_eq list_all_iff NodeConfig_Validate_def split: list.splits)

lemma zipped_ids:
  assumes "vr_valid (GraphConfigParser_Validate config)"
  shows "list_all (\<lambda>n. snd n \<noteq> []) (zip nodes (map nf_id (gf_nodes config)))"
proof -
  have "[] \<notin> set (map nf_id (gf_nodes config))" using valid_ids [OF assms] by force
  moreover have "snd n \<in> set (map nf_id (gf_nodes config))" if "n \<in> set (zip nodes (map nf_id (gf_nodes config)))" for n
    using set_zip_rightD [of "fst n" "snd n" nodes "map nf_id (gf_nodes config)"] that by simp
  ultimately show ?thesis by (fastforce simp: list_all_iff)
qed

text \<open>
  C31. A successful build produces the configured graph: the nodes are registered in the order of
  the configuration under their identifiers, and there is one edge per configured edge, in order,
  between the nodes with the configured identifiers and at their configured ports: the port with the
  configured index, or the declared port of the configured name (a name that no port declares is
  an alias of an index). This needs that the configuration gives no node a name other than its
  identifier, that the plugins have functions for names, keep the names they are given and do not
  change them in \<open>Configure\<close>, and that no two nodes have the same plugin handle.
\<close>

theorem built_graph_matches_configuration:
  assumes laws: "plugin_names name_of tables configure" "provides create tables"
    and build: "Build available create schema configure mk first (Inr config) inner w b = (r, b', w')"
    and success: "br_failure r = None" "br_graph r = Some g"
    and fresh: "distinct (map na_handle (gm_nodes g))"
    and names: "list_all (\<lambda>n. nf_name n = [] \<or> nf_name n = nf_id n) (gf_nodes config)"
  shows "gm_canonical_node_ids g = map nf_id (gf_nodes config) \<and> length (gm_nodes g) = length (gf_nodes config) \<and>
    list_all2 (joins (gm_nodes g) w' (map nf_id (gf_nodes config))) (gf_edges config) (gm_edge_metadata g) \<and>
    br_node_names r = map nf_id (gf_nodes config)"
proof -
  let ?ids = "map nf_id (gf_nodes config)"
  obtain nodes provider provider' where valid: "vr_valid (GraphConfigParser_Validate config)"
    and load: "load_nodes (Resolving_CreateNodeExpected available create) schema configure (gf_nodes config) [] provider w =
       (Inr nodes, provider', w')"
    and graph: "make_graph mk (gf_nodes config) nodes (gf_edges config) w' = (Inr (), g)"
    and result: "br_node_names r = map (\<lambda>a. Adapter_GetName a w') nodes"
    by (rule Build_success [OF build success(1)]) (use success(2) in auto)
  have len: "length nodes = length (gf_nodes config)" using load_nodes_prefix [OF load] by auto
  have ids: "list_all (\<lambda>n. nf_id n \<noteq> []) (gf_nodes config)"
    using valid_ids [OF valid] by (simp add: list_all_iff)
  obtain g0 where reg: "register_nodes (zip nodes ?ids) (GraphManager 0 default_deadlock_config) = (Inr (), g0)"
    and wire: "WireEdges mk nodes (node_type_map nodes w') w' (gf_edges config) g0 = (Inr (), g)"
    using graph len by (auto simp: make_graph_def RegisterNodes_def split: prod.splits sum.splits)
  have g0: "gm_nodes g0 = nodes" "gm_canonical_node_ids g0 = ?ids" "gm_edge_metadata g0 = []"
    using register_nodes_ok [OF reg zipped_ids [OF valid]] len by (simp_all add: GraphManager_def)
  have wired: "gm_nodes g = nodes" "gm_canonical_node_ids g = ?ids"
    using WireEdges_joins [OF wire refl] g0 by auto
  have runtime: "map runtime_name (gf_nodes config) = ?ids"
    using names by (auto simp: list_all_iff runtime_name_def)
  have "list_all2 (named_node name_of tables w') nodes ?ids"
    using load_nodes_names [OF laws(1) Resolving_provides [OF laws(2)] load, of "[]"] fresh wired ids runtime
    by (auto simp: list_all_iff runtime_name_def)
  then have "map (\<lambda>a. Adapter_GetName a w') nodes = ?ids"
    using named_node_GetName [OF laws(1)] len by (auto simp: list_all2_conv_all_nth intro: nth_equalityI)
  then show ?thesis
    using WireEdges_joins [OF wire] g0 wired len result by auto
qed

text \<open>
  Registering the nodes of a valid configuration cannot fail: their identifiers are distinct and
  not empty.
\<close>

lemma registration_cannot_fail:
  assumes "vr_valid (GraphConfigParser_Validate config)" "length nodes = length (gf_nodes config)"
  shows "\<exists>g. RegisterNodes nodes (gf_nodes config) (GraphManager 0 default_deadlock_config) = (Inr (), g)"
proof -
  have "distinct (map nf_id (gf_nodes config))" using assms(1) by (simp add: Validate_eq)
  then have "\<exists>g. register_nodes (zip nodes (map nf_id (gf_nodes config))) (GraphManager 0 default_deadlock_config) = (Inr (), g)"
    using assms(2) by (intro register_nodes_total zipped_ids [OF assms(1)]) (simp_all add: GraphManager_def)
  then show ?thesis using assms(2) by (simp add: RegisterNodes_def)
qed

section \<open>Limits of the builder\<close>

text \<open>
  The thread count and the deadlock settings of a configuration are parsed and validated but not
  used: every graph is created with the defaults of the graph manager.
\<close>

lemma thread_settings_are_ignored:
  assumes "make_graph mk ncs nodes es w = (Inr (), g)"
  shows "gm_num_threads g = 0 \<and> gm_thread_pool_config g = default_deadlock_config"
proof -
  have register: "gm_num_threads g' = gm_num_threads g0 \<and> gm_thread_pool_config g' = gm_thread_pool_config g0"
    if "register_nodes ns g0 = (Inr (), g')" for ns :: "(('a, 'b, 'c) adapter \<times> string) list" and g0 g'
    using that
  proof (induction ns arbitrary: g0)
    case (Cons n ns)
    obtain a nid where n: "n = (a, nid)" by (cases n)
    then obtain g1 where "GraphManager_AddNode (Some a) nid g0 = (Inr (), g1)" "register_nodes ns g1 = (Inr (), g')"
      using Cons.prems by (auto split: prod.splits sum.splits)
    moreover have "gm_num_threads g1 = gm_num_threads g0 \<and> gm_thread_pool_config g1 = gm_thread_pool_config g0"
      using calculation(1) by (auto simp: GraphManager_AddNode_def split: if_splits)
    ultimately show ?case using Cons.IH by simp
  qed simp
  show ?thesis
    using assms register WireEdges_joins [OF _ refl]
    by (fastforce simp: make_graph_def RegisterNodes_def GraphManager_def split: prod.splits sum.splits if_splits)
qed

text \<open>
  Edges are looked up by the names of the nodes although they are written with identifiers. A valid
  configuration whose node has another name fails with a missing node, and names that permute the
  identifiers wire the edges to the wrong nodes.
\<close>

lemma named_node_is_not_found:
  assumes "EdgeConfig_Validate e" "ef_source_node_id e \<notin> set (map (\<lambda>a. Adapter_GetName a w) nodes)"
  shows "WireEdge mk nodes (node_type_map nodes w) w e g = (Inl (BE_SourceNotFound (ef_source_node_id e)), g)"
proof -
  have "map_of (node_type_map nodes w) (ef_source_node_id e) = None"
    using assms(2) by (auto simp: node_type_map_def map_of_eq_None_iff)
  then show ?thesis using assms(1) by (simp add: WireEdge_def)
qed

lemma swapped_names_swap_the_edge:
  assumes "Adapter_GetName x w = ''b''" "Adapter_GetName y w = ''a''"
    and "WireEdge mk [x, y] (node_type_map [x, y] w) w (sample_edge_config ''a'' ''b'') g = (Inr (), g')"
    and "gm_edge_metadata g = []"
  shows "map (\<lambda>m. (md_source_node_id m, md_dest_node_id m)) (gm_edge_metadata g') = [(1, 0)]"
proof -
  obtain edge m where g': "g' = append_edge edge m g" and m: "joins [x, y] w [''b'', ''a''] (sample_edge_config ''a'' ''b'') m"
    using WireEdge_joins [OF assms(3)] assms(1, 2) by auto
  have "i < Suc (Suc 0) \<Longrightarrow> [''b'', ''a''] ! i = ''a'' \<Longrightarrow> i = 1" "i < Suc (Suc 0) \<Longrightarrow> [''b'', ''a''] ! i = ''b'' \<Longrightarrow> i = 0" for i
    by (auto simp: less_Suc_eq)
  then have "md_source_node_id m = 1" "md_dest_node_id m = 0"
    using m by (fastforce simp: joins_def sample_edge_config_def)+
  with g' show ?thesis using assms(4) by (simp add: append_edge_def)
qed

section \<open>An example\<close>

text \<open>
  Plugins whose handles are numbers and whose state maps handles to names; every node has one input
  and one output of the same type.
\<close>

definition demo_port :: port_metadata where
  "demo_port = \<lparr>pm_index = 0, pm_port_name = ''Data'', pm_payload_type = ''int'', pm_direction = ''''\<rparr>"

definition demo_table :: "(nat, unit, nat \<Rightarrow> string) node_facade" where
  "demo_table =
     \<lparr>ft_GetLifecycleState = None, ft_Init = None, ft_Start = None, ft_Stop = None, ft_Join = None,
      ft_JoinWithTimeout = None, ft_Execute = None, ft_GetName = Some (\<lambda>h w. Some (w h)),
      ft_SetName = Some (\<lambda>n h w. w(h := n)), ft_GetType = None, ft_GetInputPortCount = None,
      ft_GetOutputPortCount = None, ft_GetInputPortName = None, ft_GetOutputPortName = None,
      ft_GetInputPortMetadata = Some (\<lambda>h w. Some [demo_port]),
      ft_GetOutputPortMetadata = Some (\<lambda>h w. Some [demo_port]), ft_GetConfigFieldMetadata = None,
      ft_CreateInputRuntimePort = Some (\<lambda>h i w. Some (''int'', ''queue'')),
      ft_CreateOutputRuntimePort = Some (\<lambda>h i w. Some (''int'', ''queue'')), ft_DestroyRuntimePort = True,
      ft_GetAs = (\<lambda>_. None), ft_Destroy = Some (\<lambda>h w. w)\<rparr>"

definition demo_create :: "(nat, unit, nat \<Rightarrow> string, nat) node_factory" where
  "demo_create t s = (Inr (s, demo_table), Suc s)"

definition demo_builder :: "(nat, unit, nat \<Rightarrow> string, nat, nat) graph_builder" where
  "demo_builder = \<lparr>gb_graph = None, gb_nodes = [], gb_node_count = 0, gb_edge_count = 0, gb_last_error = NoError\<rparr>"

definition demo_config :: "nat graph_config" where
  "demo_config = sample_config\<lparr>gf_resolver_mappings := []\<rparr>"

definition demo_build where
  "demo_build = Build (\<lambda>_ _. True) demo_create (\<lambda>_ _. JObject []) (\<lambda>_ _ w. (True, w)) (\<lambda>_ _ _. 0)
     (Inr demo_config) (Inr demo_config) (0 :: nat) (\<lambda>_. []) demo_builder"

lemma demo_valid: "vr_valid (GraphConfigParser_Validate demo_config)"
  by (simp add: Validate_eq demo_config_def sample_config_def sample_node_config_def sample_edge_config_def
      NodeConfig_Validate_def lower_letter_def edge_acceptable_def EdgeConfig_Validate_def legacy_here_def
      default_resolver_def is_digit_def upper_letter_def)

lemma demo_names: "plugin_names (\<lambda>h w. w h) {demo_table} (\<lambda>_ _ w. (True, w))"
  by (simp add: plugin_names_def demo_table_def)

lemma demo_resolve:
  assumes "vp_resolution_registry p = CreateDefault" "vp_inner p = Some s"
  shows "\<exists>p'. Resolving_CreateNodeExpected (\<lambda>_ _. True) demo_create ''Source'' p = (Inr (s, demo_table), p') \<and>
    vp_resolution_registry p' = CreateDefault \<and> vp_inner p' = Some (Suc s)"
  using assms by (simp add: Resolving_CreateNodeExpected_def ResolveNodeType_def ResolveWithAvailability_def
      Registry_Find_def CreateDefault_def AddContract_def demo_create_def Let_def)

definition demo_node :: "nat \<Rightarrow> (nat, unit, nat \<Rightarrow> string) adapter" where
  "demo_node h = \<lparr>na_handle = Some h, na_facade = Some demo_table, na_initialized = False, na_started = False,
     na_interfaces = (\<lambda>_. None)\<rparr>"

lemma demo_node_handle: "na_handle (demo_node h) = Some h"
  by (simp add: demo_node_def)

lemma demo_load_node:
  assumes "vp_resolution_registry p = CreateDefault" "vp_inner p = Some s" "nid \<noteq> []"
  shows "\<exists>p'. load_node (Resolving_CreateNodeExpected (\<lambda>_ _. True) demo_create) (\<lambda>_ _. JObject []) (\<lambda>_ _ w. (True, w))
      (sample_node_config nid []) p w = (Inr (demo_node s), p', w(s := nid)) \<and>
    vp_resolution_registry p' = CreateDefault \<and> vp_inner p' = Some (Suc s)"
proof -
  have adapter: "NodeFacadeAdapter s demo_table w = demo_node s"
    by (simp add: NodeFacadeAdapter_def demo_node_def ExtractNodeInterfaces_def [abs_def] demo_table_def)
  have "configure_node (\<lambda>_ _. JObject []) (\<lambda>_ _ w. (True, w)) (sample_node_config nid []) (demo_node s) v = (Inr (), v)" for v
    by (simp add: configure_node_def ValidatePortConfigAgainstDescriptorSchema_def sample_node_config_def
        ValidateNodeConfigAgainstDescriptorSchema_def array_member_def InternalApplyNodeConfiguration_def
        InternalApplyPortConfiguration_def Let_def)
  moreover have "Adapter_SetName nid (demo_node s) w = w(s := nid)"
    by (simp add: Adapter_SetName_def entry_def demo_node_def demo_table_def)
  ultimately show ?thesis
    using demo_resolve [OF assms(1, 2)] assms(3)
    by (auto simp: load_node_def adapter sample_node_config_def runtime_name_def Let_def)
qed

lemma demo_wire:
  assumes "gm_nodes g = [demo_node 0, demo_node (Suc 0)]" "\<not> gm_initialized g"
  shows "\<exists>g'. WireEdges (\<lambda>_ _ _. 0 :: nat) [demo_node 0, demo_node (Suc 0)]
      (node_type_map [demo_node 0, demo_node (Suc 0)] ((\<lambda>_. [])(0 := ''a'', Suc 0 := ''b''))) ((\<lambda>_. [])(0 := ''a'', Suc 0 := ''b''))
      [sample_edge_config ''a'' ''b''] g = (Inr (), g')"
proof -
  let ?w = "(\<lambda>_. [])(0 := ''a'', Suc 0 := ''b'') :: nat \<Rightarrow> string"
  have zero: "from_chars (to_string 0) = Some 0" by (rule from_chars_to_string) simp
  have ports: "GetOutputPortHandle (to_string 0) i (demo_node h) ?w = Inr (metadata_handle PD_Output i (demo_node h) ?w demo_port)"
    "GetInputPortHandle (to_string 0) i (demo_node h) ?w = Inr (metadata_handle PD_Input i (demo_node h) ?w demo_port)" for i h
    by (simp_all add: GetOutputPortHandle_def GetInputPortHandle_def GetOutputPortMetadata_def GetInputPortMetadata_def
        LookupPortHandle_def zero entry_def demo_node_def demo_table_def demo_port_def)
  have names: "node_type_map [demo_node 0, demo_node (Suc 0)] ?w = [(''b'', Suc 0, []), (''a'', 0, [])]"
    by (simp add: node_type_map_def Adapter_GetName_def Adapter_GetType_def entry_def demo_node_def demo_table_def upt_rec)
  have handles: "metadata_handle d i (demo_node h) ?w demo_port = \<lparr>ph_node_index = i,
      ph_descriptor = \<lparr>pd_id = 0, pd_name = ''Data'', pd_direction = d, pd_payload_type = ''int'',
        pd_transport_type = ''queue''\<rparr>, ph_has_port = True\<rparr>" for d i h
    by (cases d) (simp_all add: metadata_handle_def try_create_runtime_port_def demo_node_def demo_table_def demo_port_def)
  show ?thesis
    using assms by (simp add: WireEdge_def names ports handles sample_edge_config_def EdgeConfig_Validate_def
        source_port_token_def target_port_token_def GraphManager_AddDynamicEdgeExpected_def
        ValidateDynamicEdgeCompatibility_def executable_handles_def)
qed

lemma demo_success:
  "br_failure (fst demo_build) = None \<and>
   map_option (\<lambda>g. map na_handle (gm_nodes g)) (br_graph (fst demo_build)) = Some [Some 0, Some (Suc 0)]"
proof -
  let ?w = "(\<lambda>_. [])(0 := ''a'', Suc 0 := ''b'') :: nat \<Rightarrow> string" and ?cr = "Resolving_CreateNodeExpected (\<lambda>_ _. True) demo_create"
  let ?p = "ResolvingNodeProvider (Some 0) (gf_resolver demo_config) CreateDefault"
  obtain p1 where p1: "load_node ?cr (\<lambda>_ _. JObject []) (\<lambda>_ _ w. (True, w)) (sample_node_config ''a'' []) ?p (\<lambda>_. []) =
      (Inr (demo_node 0), p1, (\<lambda>_. [])(0 := ''a''))" "vp_resolution_registry p1 = CreateDefault" "vp_inner p1 = Some (Suc 0)"
    using demo_load_node [of ?p 0 "''a''" "\<lambda>_. []"] by (auto simp: ResolvingNodeProvider_def)
  obtain p2 where p2: "load_node ?cr (\<lambda>_ _. JObject []) (\<lambda>_ _ w. (True, w)) (sample_node_config ''b'' []) p1 ((\<lambda>_. [])(0 := ''a'')) =
      (Inr (demo_node (Suc 0)), p2, ?w)"
    using demo_load_node [OF p1(2, 3), of "''b''" "(\<lambda>_. [])(0 := ''a'')"] by auto
  have config: "gf_nodes demo_config = [sample_node_config ''a'' [], sample_node_config ''b'' []]"
    "gf_edges demo_config = [sample_edge_config ''a'' ''b'']" "gf_resolver_mappings demo_config = []"
    by (simp_all add: demo_config_def sample_config_def)
  have load: "LoadGraphSafe ?cr (\<lambda>_ _. JObject []) (\<lambda>_ _ w. (True, w)) demo_config (Some ?p) (\<lambda>_. []) =
      (Inr ([demo_node 0, demo_node (Suc 0)], [sample_edge_config ''a'' ''b'']), Some p2, ?w)"
    by (simp add: LoadGraphSafe_def ValidateConfigSafe_def demo_valid BuildNodeAdaptersFromConfig_def config p1(1) p2)
  obtain g0 :: "((nat, unit, nat \<Rightarrow> string) adapter, nat, nat) graph_manager" where g0: "RegisterNodes [demo_node 0, demo_node (Suc 0)] (gf_nodes demo_config) (GraphManager 0 default_deadlock_config)
      = (Inr (), g0)" "gm_nodes g0 = [demo_node 0, demo_node (Suc 0)]" "\<not> gm_initialized g0"
    by (simp add: RegisterNodes_def config GraphManager_AddNode_def GraphManager_def sample_node_config_def)
  obtain g where wired: "WireEdges (\<lambda>_ _ _. 0 :: nat) [demo_node 0, demo_node (Suc 0)]
      (node_type_map [demo_node 0, demo_node (Suc 0)] ?w) ?w [sample_edge_config ''a'' ''b''] g0 = (Inr (), g)"
    using demo_wire [OF g0(2, 3)] by blast
  then have g: "make_graph (\<lambda>_ _ _. 0 :: nat) (gf_nodes demo_config) [demo_node 0, demo_node (Suc 0)]
      [sample_edge_config ''a'' ''b''] ?w = (Inr (), g)" "gm_nodes g = [demo_node 0, demo_node (Suc 0)]"
    using WireEdges_joins [OF wired refl] g0(1, 2) by (auto simp: make_graph_def simp del: WireEdges.simps)
  show ?thesis
    by (simp add: demo_build_def Build_def GraphBuilder_Validate_def demo_valid AddMappings_def config(3) load g
        ValidateTopology_def demo_node_handle Let_def)
qed

theorem built_graph_matches_configuration_witness:
  "\<exists>g. br_graph (fst demo_build) = Some g \<and> gm_canonical_node_ids g = [''a'', ''b''] \<and>
     list_all2 (joins (gm_nodes g) (snd (snd demo_build)) [''a'', ''b'']) [sample_edge_config ''a'' ''b''] (gm_edge_metadata g)"
proof -
  obtain g where g: "br_graph (fst demo_build) = Some g" "map na_handle (gm_nodes g) = [Some 0, Some (Suc 0)]"
    using demo_success by auto
  have provided: "provides demo_create {demo_table}" by (simp add: provides_def demo_create_def)
  have build: "Build (\<lambda>_ _. True) demo_create (\<lambda>_ _. JObject []) (\<lambda>_ _ w. (True, w)) (\<lambda>_ _ _. 0)
      (Inr demo_config) (Inr demo_config) 0 (\<lambda>_. []) demo_builder = (fst demo_build, fst (snd demo_build), snd (snd demo_build))"
    by (simp add: demo_build_def)
  have ids: "map nf_id (gf_nodes demo_config) = [''a'', ''b'']"
    "list_all (\<lambda>n. nf_name n = [] \<or> nf_name n = nf_id n) (gf_nodes demo_config)"
    "gf_edges demo_config = [sample_edge_config ''a'' ''b'']"
    by (simp_all add: demo_config_def sample_config_def sample_node_config_def)
  have "distinct (map na_handle (gm_nodes g))" using g(2) by simp
  from built_graph_matches_configuration [OF demo_names provided build _ g(1) this ids(2)]
  show ?thesis using demo_success g(1) ids by simp
qed

end
