(* ===== verification/Runtime_Session.thy ===== *)
theory Runtime_Session
  imports Json_Values Decimal
begin

text \<open>
  The runtime session of the dashboard (\<open>libgraph/src/dashboard/GraphRuntimeSession.cpp\<close>): one object,
  guarded by a mutex, that HTTP handlers ask to rebuild, start and stop a graph and that the owner
  of the graph informs of the end of a run. A command takes the mutex twice, before and after the
  call of the owner, which runs unlocked; between the two halves other commands run. The session
  has an owner (without one every command answers \<open>runtime_owner_unavailable\<close> and changes nothing). Each half is
  one definition (\<open>_enter\<close> and \<open>_return\<close>), the result of the owner is an argument of the second half,
  and what the first half keeps in local variables is a value of \<open>pending\<close>. \<open>now\<close> is the current
  time as text. The interleavings are the step relation \<open>session_step\<close>. Its steps are the lifecycle
  marks, the completion report and the halves of the three commands. \<open>SetLifecycleState\<close> and
  \<open>SetActiveGraphManager\<close> are also public setters: they are defined here, but a call of them from
  outside is no step. In the repository only the demo program and tests make such calls, on a session
  without an owner.
\<close>

section \<open>The session\<close>

datatype session_state = S_initializing | S_not_built | S_stopped | S_starting | S_running | S_completed
  | S_failed | S_rebuilding | S_cleanup_failed | S_shutting_down | S_dead

record command_result =
  cr_status_code :: int
  cr_code :: string
  cr_message :: string

record edge_identity =
  ei_edge_id :: string
  ei_source_node_id :: string
  ei_source_port :: u64
  ei_destination_node_id :: string
  ei_destination_port :: u64

record 'g generation_snapshot =
  gs_generation :: u64
  gs_run_epoch :: u64
  gs_config_revision :: u64
  gs_config_etag :: string
  gs_canonical_node_ids :: "string list"
  gs_canonical_edges :: "edge_identity list"
  gs_identity_error :: string
  gs_graph_manager :: "'g option"

record 'f build_snapshot =
  bs_config_revision :: u64
  bs_config_etag :: string
  bs_receiver_graph :: "'f json"

record 'g owner_result =
  or_status_code :: int
  or_code :: string
  or_message :: string
  or_graph_manager :: "'g option"
  or_cleanup_failed :: bool

record 'g session =
  ss_state :: session_state
  ss_rebuild_blocked :: bool
  ss_active_generation :: u64
  ss_rebuild_attempts :: u64
  ss_successful_rebuilds :: u64
  ss_last_error_code :: string
  ss_last_error_message :: string
  ss_active_graph_manager :: "'g option"
  ss_command_epoch :: u64
  ss_active_snapshot :: "'g generation_snapshot"
  ss_stop_requested :: bool
  ss_active_run_epoch :: u64
  ss_terminal_generation :: u64
  ss_terminal_result_code :: string
  ss_terminal_result_message :: string
  ss_started_at :: string
  ss_terminal_at :: string

definition kMaximumJsonSafeInteger :: u64 where
  "kMaximumJsonSafeInteger = 9007199254740991"

definition empty_snapshot :: "'g generation_snapshot" where
  "empty_snapshot = \<lparr>gs_generation = 0, gs_run_epoch = 0, gs_config_revision = 0, gs_config_etag = [],
     gs_canonical_node_ids = [], gs_canonical_edges = [], gs_identity_error = [], gs_graph_manager = None\<rparr>"

definition GraphRuntimeSession :: "'g session" where
  "GraphRuntimeSession =
     \<lparr>ss_state = S_initializing, ss_rebuild_blocked = False, ss_active_generation = 0, ss_rebuild_attempts = 0,
      ss_successful_rebuilds = 0, ss_last_error_code = [], ss_last_error_message = [],
      ss_active_graph_manager = None, ss_command_epoch = 0, ss_active_snapshot = empty_snapshot,
      ss_stop_requested = False, ss_active_run_epoch = 0, ss_terminal_generation = 0,
      ss_terminal_result_code = [], ss_terminal_result_message = [], ss_started_at = [], ss_terminal_at = []\<rparr>"

section \<open>The identity of a generation\<close>

definition CanonicalEdgeId :: "string \<Rightarrow> nat \<Rightarrow> string \<Rightarrow> nat \<Rightarrow> string" where
  "CanonicalEdgeId source_node_id source_port destination_node_id destination_port =
     source_node_id @ '':'' @ to_string source_port @ ''->'' @ destination_node_id @ '':'' @ to_string destination_port"

text \<open>
  \<open>json::value(key, "")\<close>: the default for a missing member; a value that is not an object and a
  member that is not a string make it throw a \<open>type_error\<close>.
\<close>

datatype identity_failure = Type_Error | Identity_Error string

definition value_string :: "'f json \<Rightarrow> string \<Rightarrow> (string, identity_failure) expected" where
  "value_string j key =
     (case j of
        JObject ms \<Rightarrow> (case map_of ms key of None \<Rightarrow> Inr [] | Some (JString t) \<Rightarrow> Inr t | Some _ \<Rightarrow> Inl Type_Error)
      | _ \<Rightarrow> Inl Type_Error)"

fun identity_nodes :: "'f json list \<Rightarrow> string list \<Rightarrow> (string list, identity_failure) expected" where
  "identity_nodes [] ids = Inr ids"
| "identity_nodes (node # nodes) ids =
     (case value_string node ''id'' of
        Inl e \<Rightarrow> Inl e
      | Inr nid \<Rightarrow>
          if nid = [] \<or> nid \<in> set ids
          then Inl (Identity_Error ''effective receiver graph contains a missing or duplicate node ID'')
          else identity_nodes nodes (ids @ [nid]))"

definition edge_identity_of :: "string list \<Rightarrow> 'f json \<Rightarrow> (edge_identity, identity_failure) expected" where
  "edge_identity_of node_ids edge =
     (case (value_string edge ''source_node_id'', value_string edge ''target_node_id'') of
        (Inr source, Inr destination) \<Rightarrow>
          (if source \<notin> set node_ids \<or> destination \<notin> set node_ids
           then Inl (Identity_Error ''effective receiver graph contains an invalid edge identity'')
           else case (member edge ''source_port'', member edge ''target_port'') of
             (Some (JUnsigned p), Some (JUnsigned q)) \<Rightarrow>
               Inr \<lparr>ei_edge_id = CanonicalEdgeId source (unat p) destination (unat q), ei_source_node_id = source,
                    ei_source_port = p, ei_destination_node_id = destination, ei_destination_port = q\<rparr>
           | _ \<Rightarrow> Inl (Identity_Error ''effective receiver graph contains an invalid edge identity''))
      | _ \<Rightarrow> Inl Type_Error)"

fun identity_edges ::
    "string list \<Rightarrow> 'f json list \<Rightarrow> edge_identity list \<Rightarrow> (edge_identity list, identity_failure) expected" where
  "identity_edges node_ids [] es = Inr es"
| "identity_edges node_ids (edge # edges) es =
     (case edge_identity_of node_ids edge of
        Inl e \<Rightarrow> Inl e
      | Inr e \<Rightarrow>
          if ei_edge_id e \<in> ei_edge_id ` set es
          then Inl (Identity_Error ''effective receiver graph contains a duplicate edge identity'')
          else identity_edges node_ids edges (es @ [e]))"

text \<open>\<open>None\<close> is the \<open>type_error\<close>, which nobody catches in the session.\<close>

definition IdentitySnapshot :: "u64 \<Rightarrow> u64 \<Rightarrow> string \<Rightarrow> 'f json \<Rightarrow> 'g generation_snapshot option" where
  "IdentitySnapshot generation config_revision config_etag graph =
     (let result = empty_snapshot\<lparr>gs_generation := generation, gs_config_revision := config_revision,
            gs_config_etag := config_etag\<rparr>
      in case (member graph ''nodes'', member graph ''edges'') of
           (Some (JArray nodes), Some (JArray edges)) \<Rightarrow>
             (case identity_nodes nodes [] of
                Inl Type_Error \<Rightarrow> None
              | Inl (Identity_Error e) \<Rightarrow> Some (result\<lparr>gs_identity_error := e\<rparr>)
              | Inr ids \<Rightarrow>
                  (case identity_edges ids edges [] of
                     Inl Type_Error \<Rightarrow> None
                   | Inl (Identity_Error e) \<Rightarrow> Some (result\<lparr>gs_canonical_node_ids := ids, gs_identity_error := e\<rparr>)
                   | Inr es \<Rightarrow> Some (result\<lparr>gs_canonical_node_ids := ids, gs_canonical_edges := es\<rparr>)))
         | _ \<Rightarrow> Some (result\<lparr>gs_identity_error := ''effective receiver graph does not contain node and edge arrays''\<rparr>))"

text \<open>
  An identity snapshot without an error names distinct nodes and distinct edges between them, and
  the text of an edge determines its four parts when no node identifier contains a colon.
\<close>

lemma identity_nodes_distinct:
  "identity_nodes nodes ids = Inr r \<Longrightarrow> distinct ids \<Longrightarrow> [] \<notin> set ids \<Longrightarrow> distinct r \<and> [] \<notin> set r"
  by (induction nodes ids rule: identity_nodes.induct) (auto split: sum.splits if_splits)

definition edge_named :: "string list \<Rightarrow> edge_identity \<Rightarrow> bool" where
  "edge_named ids e \<longleftrightarrow> ei_source_node_id e \<in> set ids \<and> ei_destination_node_id e \<in> set ids \<and>
     ei_edge_id e = CanonicalEdgeId (ei_source_node_id e) (unat (ei_source_port e))
       (ei_destination_node_id e) (unat (ei_destination_port e))"

lemma edge_identity_of_named: "edge_identity_of ids edge = Inr e \<Longrightarrow> edge_named ids e"
  by (auto simp: edge_identity_of_def edge_named_def split: sum.splits if_splits option.splits json.splits)

lemma identity_edges_distinct:
  "identity_edges ids edges es = Inr r \<Longrightarrow> distinct (map ei_edge_id es) \<Longrightarrow> list_all (edge_named ids) es \<Longrightarrow>
     distinct (map ei_edge_id r) \<and> list_all (edge_named ids) r"
  by (induction ids edges es rule: identity_edges.induct)
    (auto split: sum.splits if_splits dest: edge_identity_of_named)

lemma identity_errors_named:
  "identity_nodes nodes ids \<noteq> Inl (Identity_Error [])" "identity_edges ids edges es \<noteq> Inl (Identity_Error [])"
proof -
  show "identity_nodes nodes ids \<noteq> Inl (Identity_Error [])"
    by (induction nodes ids rule: identity_nodes.induct)
      (auto simp: value_string_def split: sum.splits json.splits option.splits)
  show "identity_edges ids edges es \<noteq> Inl (Identity_Error [])"
    by (induction ids edges es rule: identity_edges.induct)
      (auto simp: edge_identity_of_def split: sum.splits if_splits option.splits json.splits)
qed

lemma IdentitySnapshot_distinct:
  fixes graph :: "'f json"
  assumes "IdentitySnapshot g revision etag graph = Some snap" and "gs_identity_error snap = []"
  shows "distinct (gs_canonical_node_ids snap) \<and> [] \<notin> set (gs_canonical_node_ids snap) \<and>
    distinct (map ei_edge_id (gs_canonical_edges snap)) \<and>
    list_all (edge_named (gs_canonical_node_ids snap)) (gs_canonical_edges snap)"
proof -
  have "\<exists>(nodes :: 'f json list) (edges :: 'f json list).
      identity_nodes nodes [] = Inr (gs_canonical_node_ids snap) \<and>
      identity_edges (gs_canonical_node_ids snap) edges [] = Inr (gs_canonical_edges snap)"
    using assms
    by (auto simp: IdentitySnapshot_def Let_def identity_errors_named
        split: option.splits json.splits sum.splits identity_failure.splits)
  with identity_nodes_distinct identity_edges_distinct show ?thesis by fastforce
qed

lemma split_at_first:
  "xs @ c # ys = xs' @ c # ys' \<Longrightarrow> c \<notin> set xs \<Longrightarrow> c \<notin> set xs' \<Longrightarrow> xs = xs' \<and> ys = ys'"
  by (induction xs arbitrary: xs') (case_tac xs'; auto)+

lemma to_string_inj: "to_string m = to_string n \<Longrightarrow> m = n"
  by (metis read_to_string)

lemma to_string_no_dash: "CHR ''-'' \<notin> set (to_string n)"
  using to_string_digits [of n] digit_not_space by (auto simp: list_all_iff)

lemma CanonicalEdgeId_inj:
  assumes "CanonicalEdgeId a p b q = CanonicalEdgeId a' p' b' q'"
    and "CHR '':'' \<notin> set a" "CHR '':'' \<notin> set a'" "CHR '':'' \<notin> set b" "CHR '':'' \<notin> set b'"
  shows "a = a' \<and> p = p' \<and> b = b' \<and> q = q'"
proof -
  have 1: "a = a' \<and> to_string p @ ''->'' @ b @ '':'' @ to_string q = to_string p' @ ''->'' @ b' @ '':'' @ to_string q'"
    by (rule split_at_first) (use assms in \<open>simp_all add: CanonicalEdgeId_def\<close>)
  then have 2: "to_string p = to_string p' \<and> ''>'' @ b @ '':'' @ to_string q = ''>'' @ b' @ '':'' @ to_string q'"
    by (intro split_at_first [where c = "CHR ''-''"]) (simp_all add: to_string_no_dash)
  then have "b = b' \<and> to_string q = to_string q'"
    by (intro split_at_first [where c = "CHR '':''"]) (use assms in simp_all)
  with 1 2 show ?thesis by (auto dest: to_string_inj)
qed

section \<open>Operations\<close>

definition OwnerCompleted :: "string \<Rightarrow> u64 \<Rightarrow> u64 \<Rightarrow> bool \<Rightarrow> string \<Rightarrow> 'g session \<Rightarrow> 'g session" where
  "OwnerCompleted now generation run_epoch success message s =
     (if generation \<noteq> ss_active_generation s \<or> run_epoch \<noteq> ss_active_run_epoch s \<or>
         (ss_state s \<noteq> S_starting \<and> ss_state s \<noteq> S_running) then s
      else
        let cancelled = ss_stop_requested s;
            s' = s\<lparr>ss_state := (if cancelled then S_stopped else if success then S_completed else S_failed),
                   ss_terminal_generation := generation,
                   ss_terminal_result_code := (if cancelled then ''execution_cancelled''
                      else if success then ''execution_completed'' else ''execution_failed''),
                   ss_terminal_result_message := message, ss_terminal_at := now\<rparr>
        in if \<not> success \<and> \<not> cancelled
           then s'\<lparr>ss_last_error_code := ''execution_failed'', ss_last_error_message := message\<rparr> else s')"

definition IsReady :: "'g session \<Rightarrow> bool" where
  "IsReady s \<longleftrightarrow> ss_state s \<noteq> S_initializing \<and> ss_state s \<noteq> S_rebuilding \<and> ss_state s \<noteq> S_shutting_down \<and>
     ss_state s \<noteq> S_dead"

fun StateToString :: "session_state \<Rightarrow> string" where
  "StateToString S_initializing = ''initializing''"
| "StateToString S_not_built = ''not_built''"
| "StateToString S_stopped = ''stopped''"
| "StateToString S_starting = ''starting''"
| "StateToString S_running = ''running''"
| "StateToString S_completed = ''completed''"
| "StateToString S_failed = ''failed''"
| "StateToString S_rebuilding = ''rebuilding''"
| "StateToString S_cleanup_failed = ''cleanup_failed''"
| "StateToString S_shutting_down = ''shutting_down''"
| "StateToString S_dead = ''dead''"

definition StateString :: "'g session \<Rightarrow> string" where
  "StateString s =
     (if ss_state s = S_initializing then ''initializing''
      else if ss_state s = S_rebuilding then ''rebuilding''
      else if ss_state s = S_shutting_down then ''shutting_down''
      else if ss_state s = S_dead then ''dead''
      else ''ready'')"

text \<open>The two texts tell the states apart: the short one is "ready" exactly when the session is.\<close>

lemma StateToString_inj: "StateToString a = StateToString b \<Longrightarrow> a = b"
  by (cases a; cases b) simp_all

lemma StateString_ready: "StateString s = ''ready'' \<longleftrightarrow> IsReady s"
  by (simp add: StateString_def IsReady_def)

lemma StateString_not_ready: "\<not> IsReady s \<Longrightarrow> StateString s = StateToString (ss_state s)"
  by (auto simp: StateString_def IsReady_def)

definition IsRebuildAllowedState :: "session_state \<Rightarrow> bool" where
  "IsRebuildAllowedState st \<longleftrightarrow> st = S_not_built \<or> st = S_stopped \<or> st = S_completed \<or> st = S_failed"

definition IsRebuildAllowedInCurrentState :: "'g session \<Rightarrow> bool" where
  "IsRebuildAllowedInCurrentState s \<longleftrightarrow> \<not> ss_rebuild_blocked s \<and> IsRebuildAllowedState (ss_state s)"

definition MarkReady :: "'g session \<Rightarrow> 'g session" where
  "MarkReady s = (if ss_state s = S_initializing then s\<lparr>ss_state := S_not_built\<rparr> else s)"

definition MarkShuttingDown :: "'g session \<Rightarrow> 'g session" where
  "MarkShuttingDown s =
     s\<lparr>ss_state := S_shutting_down,
       ss_command_epoch := (if ss_command_epoch s < kMaximumJsonSafeInteger
         then ss_command_epoch s + 1 else ss_command_epoch s)\<rparr>"

definition MarkDead :: "'g session \<Rightarrow> 'g session" where
  "MarkDead s = s\<lparr>ss_state := S_dead\<rparr>"

definition SetLifecycleState :: "session_state \<Rightarrow> 'g session \<Rightarrow> 'g session" where
  "SetLifecycleState st s =
     s\<lparr>ss_state := st, ss_rebuild_blocked := (if st \<noteq> S_cleanup_failed then False else ss_rebuild_blocked s)\<rparr>"

definition SetActiveGraphManager :: "'g option \<Rightarrow> 'g session \<Rightarrow> 'g session" where
  "SetActiveGraphManager manager s =
     s\<lparr>ss_active_graph_manager := manager,
       ss_active_snapshot := (ss_active_snapshot s)\<lparr>gs_graph_manager := manager\<rparr>\<rparr>"

datatype 'f pending =
    PendingRebuild u64 u64 session_state "'f build_snapshot"
  | PendingStart u64 u64 session_state
  | PendingStop u64

definition Rebuild_enter ::
    "'f build_snapshot \<Rightarrow> 'g session \<Rightarrow> ('f pending \<times> 'g session, command_result) expected" where
  "Rebuild_enter snapshot s =
     (if ss_rebuild_blocked s
      then Inl \<lparr>cr_status_code = 409, cr_code = ''cleanup_failed'',
        cr_message = ''rebuild is blocked after replacement cleanup failed''\<rparr>
      else if \<not> IsRebuildAllowedState (ss_state s)
      then Inl \<lparr>cr_status_code = 409, cr_code = ''invalid_state'',
        cr_message = ''rebuild is not allowed in current runtime state''\<rparr>
      else if kMaximumJsonSafeInteger < bs_config_revision snapshot \<or>
              kMaximumJsonSafeInteger \<le> ss_active_generation s \<or> kMaximumJsonSafeInteger \<le> ss_command_epoch s \<or>
              kMaximumJsonSafeInteger \<le> ss_rebuild_attempts s \<or> kMaximumJsonSafeInteger \<le> ss_successful_rebuilds s
      then Inl \<lparr>cr_status_code = 409, cr_code = ''identity_space_exhausted'',
        cr_message = ''runtime identity or published command counter cannot advance within JavaScript safe integer bounds''\<rparr>
      else Inr (PendingRebuild (ss_command_epoch s + 1) (ss_active_generation s + 1) (ss_state s) snapshot,
                s\<lparr>ss_state := S_rebuilding, ss_rebuild_attempts := ss_rebuild_attempts s + 1,
                  ss_command_epoch := ss_command_epoch s + 1\<rparr>))"

definition command_result_of :: "'g owner_result \<Rightarrow> command_result" where
  "command_result_of r = \<lparr>cr_status_code = or_status_code r, cr_code = or_code r, cr_message = or_message r\<rparr>"

text \<open>
  The result is \<open>None\<close> when \<open>IdentitySnapshot\<close> throws; what was assigned before it stays assigned.
\<close>

definition Rebuild_return ::
    "u64 \<Rightarrow> u64 \<Rightarrow> session_state \<Rightarrow> 'f build_snapshot \<Rightarrow> 'g owner_result \<Rightarrow> 'g session
      \<Rightarrow> command_result option \<times> 'g session" where
  "Rebuild_return epoch generation prev snapshot result s =
     (if epoch \<noteq> ss_command_epoch s
      then (Some \<lparr>cr_status_code = 409, cr_code = ''superseded'', cr_message = ''runtime command was superseded''\<rparr>, s)
      else if 400 \<le> or_status_code result
      then (Some (command_result_of result),
            s\<lparr>ss_state := prev, ss_last_error_code := or_code result, ss_last_error_message := or_message result\<rparr>)
      else
        let s1 = s\<lparr>ss_active_generation := generation, ss_successful_rebuilds := ss_successful_rebuilds s + 1,
                   ss_active_graph_manager := or_graph_manager result\<rparr>
        in case IdentitySnapshot generation (bs_config_revision snapshot) (bs_config_etag snapshot)
                  (bs_receiver_graph snapshot) of
             None \<Rightarrow> (None, s1)
           | Some identity \<Rightarrow>
               (Some (command_result_of result),
                s1\<lparr>ss_active_snapshot := identity\<lparr>gs_graph_manager := or_graph_manager result\<rparr>,
                   ss_state := (if or_cleanup_failed result then S_cleanup_failed else S_stopped),
                   ss_rebuild_blocked := or_cleanup_failed result, ss_stop_requested := False,
                   ss_started_at := [], ss_terminal_generation := 0, ss_terminal_result_code := [],
                   ss_terminal_result_message := [], ss_terminal_at := [],
                   ss_last_error_code := (if or_cleanup_failed result then or_code result else []),
                   ss_last_error_message := (if or_cleanup_failed result then or_message result else [])\<rparr>))"

definition Start_enter :: "string \<Rightarrow> 'g session \<Rightarrow> ('f pending \<times> 'g session, command_result) expected" where
  "Start_enter now s =
     (if ss_state s \<noteq> S_stopped \<and> ss_state s \<noteq> S_completed
      then Inl \<lparr>cr_status_code = 409, cr_code = ''invalid_state'', cr_message = ''runtime cannot start in current state''\<rparr>
      else if kMaximumJsonSafeInteger \<le> ss_active_run_epoch s
      then Inl \<lparr>cr_status_code = 409, cr_code = ''identity_space_exhausted'',
        cr_message = ''runtime run identity cannot advance within JavaScript safe integer bounds''\<rparr>
      else
        let run_epoch = ss_active_run_epoch s + 1
        in Inr (PendingStart (ss_active_generation s) run_epoch (ss_state s),
                s\<lparr>ss_state := S_starting, ss_active_run_epoch := run_epoch,
                  ss_active_snapshot := (ss_active_snapshot s)\<lparr>gs_run_epoch := run_epoch\<rparr>,
                  ss_stop_requested := False, ss_started_at := now, ss_terminal_at := [],
                  ss_terminal_generation := 0, ss_terminal_result_code := [], ss_terminal_result_message := []\<rparr>))"

definition Start_return ::
    "u64 \<Rightarrow> u64 \<Rightarrow> session_state \<Rightarrow> 'g owner_result \<Rightarrow> 'g session \<Rightarrow> command_result \<times> 'g session" where
  "Start_return generation run_epoch prev result s =
     (command_result_of result,
      let matching_run = (generation = ss_active_generation s \<and> run_epoch = ss_active_run_epoch s)
      in if 400 \<le> or_status_code result \<and> matching_run \<and> ss_state s = S_starting
         then s\<lparr>ss_state := prev, ss_started_at := []\<rparr>
         else if or_status_code result < 400 \<and> matching_run
         then let s1 = (case or_graph_manager result of
                     None \<Rightarrow> s
                   | Some m \<Rightarrow> SetActiveGraphManager (Some m) s)
              in if ss_state s1 = S_starting then s1\<lparr>ss_state := S_running\<rparr> else s1
         else s)"

definition Stop_enter :: "'g session \<Rightarrow> ('f pending \<times> 'g session, command_result) expected" where
  "Stop_enter s =
     (if ss_state s = S_completed
      then Inl \<lparr>cr_status_code = 200, cr_code = ''already_completed'', cr_message = ''runtime already completed''\<rparr>
      else if ss_state s \<noteq> S_running
      then Inl \<lparr>cr_status_code = 409, cr_code = ''invalid_state'', cr_message = ''runtime is not running''\<rparr>
      else Inr (PendingStop (ss_active_generation s), s\<lparr>ss_stop_requested := True\<rparr>))"

definition Stop_return :: "u64 \<Rightarrow> 'g owner_result \<Rightarrow> 'g session \<Rightarrow> command_result \<times> 'g session" where
  "Stop_return generation result s =
     (command_result_of result,
      if or_status_code result < 400 \<and> generation = ss_active_generation s \<and> ss_state s = S_running
      then s\<lparr>ss_state := S_stopped\<rparr> else s)"

section \<open>Interleavings\<close>

text \<open>
  A state is a session with the commands whose call of the owner has not returned yet. The owner's
  results, its completion reports and the order of everything are arbitrary.
\<close>

inductive session_step :: "'g session \<times> 'f pending list \<Rightarrow> 'g session \<times> 'f pending list \<Rightarrow> bool" where
  step_MarkReady: "session_step (s, ps) (MarkReady s, ps)"
| step_MarkShuttingDown: "session_step (s, ps) (MarkShuttingDown s, ps)"
| step_MarkDead: "session_step (s, ps) (MarkDead s, ps)"
| step_OwnerCompleted: "session_step (s, ps) (OwnerCompleted now g r success message s, ps)"
| step_Rebuild: "Rebuild_enter b s = Inr (p, s') \<Longrightarrow> session_step (s, ps) (s', p # ps)"
| step_Rebuilt: "session_step (s, ps1 @ PendingRebuild e g prev b # ps2)
    (snd (Rebuild_return e g prev b result s), ps1 @ ps2)"
| step_Start: "Start_enter now s = Inr (p, s') \<Longrightarrow> session_step (s, ps) (s', p # ps)"
| step_Started: "session_step (s, ps1 @ PendingStart g r prev # ps2) (snd (Start_return g r prev result s), ps1 @ ps2)"
| step_Stop: "Stop_enter s = Inr (p, s') \<Longrightarrow> session_step (s, ps) (s', p # ps)"
| step_Stopped: "session_step (s, ps1 @ PendingStop g # ps2) (snd (Stop_return g result s), ps1 @ ps2)"

abbreviation session_steps :: "'g session \<times> 'f pending list \<Rightarrow> 'g session \<times> 'f pending list \<Rightarrow> bool" where
  "session_steps \<equiv> session_step\<^sup>*\<^sup>*"

lemmas session_ops = MarkReady_def MarkShuttingDown_def MarkDead_def OwnerCompleted_def Rebuild_enter_def
  Rebuild_return_def Start_enter_def Start_return_def Stop_enter_def Stop_return_def SetActiveGraphManager_def

section \<open>The invariant\<close>

text \<open>What the session publishes about the active generation fits together.\<close>

definition consistent :: "'g session \<Rightarrow> bool" where
  "consistent s \<longleftrightarrow> gs_generation (ss_active_snapshot s) = ss_active_generation s \<and>
     gs_graph_manager (ss_active_snapshot s) = ss_active_graph_manager s \<and>
     gs_run_epoch (ss_active_snapshot s) \<in> {0, ss_active_run_epoch s} \<and>
     ss_terminal_generation s \<in> {0, ss_active_generation s}"

definition busy :: "session_state \<Rightarrow> bool" where
  "busy st \<longleftrightarrow> st = S_rebuilding \<or> st = S_shutting_down \<or> st = S_dead"

definition counters_bounded :: "'g session \<Rightarrow> bool" where
  "counters_bounded s \<longleftrightarrow> ss_successful_rebuilds s = ss_active_generation s \<and>
     ss_successful_rebuilds s \<le> ss_rebuild_attempts s \<and> ss_rebuild_attempts s \<le> kMaximumJsonSafeInteger \<and>
     ss_command_epoch s \<le> kMaximumJsonSafeInteger \<and> ss_active_run_epoch s \<le> kMaximumJsonSafeInteger"

text \<open>A rebuild that no later rebuild or shutdown has superseded is the live one.\<close>

fun pending_ok :: "'g session \<Rightarrow> 'f pending \<Rightarrow> bool" where
  "pending_ok s (PendingRebuild e g prev b) \<longleftrightarrow> e \<le> ss_command_epoch s \<and> IsRebuildAllowedState prev \<and>
     (e = ss_command_epoch s \<longrightarrow> g = ss_active_generation s + 1 \<and>
        ss_successful_rebuilds s < ss_rebuild_attempts s \<and> busy (ss_state s) \<and> consistent s)"
| "pending_ok s (PendingStart g r prev) \<longleftrightarrow> r \<le> ss_active_run_epoch s \<and> prev \<in> {S_stopped, S_completed}"
| "pending_ok s (PendingStop g) \<longleftrightarrow> True"

fun rebuild_epoch :: "'f pending \<Rightarrow> u64 list" where
  "rebuild_epoch (PendingRebuild e g prev b) = [e]"
| "rebuild_epoch _ = []"

abbreviation rebuild_epochs :: "'f pending list \<Rightarrow> u64 list" where
  "rebuild_epochs ps \<equiv> concat (map rebuild_epoch ps)"

definition session_inv :: "'g session \<Rightarrow> 'f pending list \<Rightarrow> bool" where
  "session_inv s ps \<longleftrightarrow> counters_bounded s \<and> (\<not> busy (ss_state s) \<longrightarrow> consistent s) \<and>
     list_all (pending_ok s) ps \<and> distinct (rebuild_epochs ps)"

lemma session_inv_initial: "session_inv GraphRuntimeSession []"
  by (simp add: session_inv_def GraphRuntimeSession_def counters_bounded_def consistent_def empty_snapshot_def
      kMaximumJsonSafeInteger_def)

lemma below_maximum:
  fixes x :: u64
  assumes "x < kMaximumJsonSafeInteger"
  shows "x < x + 1" and "x + 1 \<le> kMaximumJsonSafeInteger"
proof -
  have "x \<noteq> - 1" using assms by (auto simp: kMaximumJsonSafeInteger_def)
  then show "x < x + 1" using inc_less_eq_self_iff_eq [of x] by (auto simp: not_le [symmetric])
  show "x + 1 \<le> kMaximumJsonSafeInteger" by (rule inc_le [OF assms])
qed

lemma pending_epoch: "pending_ok s p \<Longrightarrow> e \<in> set (rebuild_epoch p) \<Longrightarrow> e \<le> ss_command_epoch s"
  by (cases p) auto

lemma rebuild_epochs_bounded:
  "list_all (pending_ok s) ps \<Longrightarrow> e \<in> set (rebuild_epochs ps) \<Longrightarrow> e \<le> ss_command_epoch s"
  by (induction ps) (auto dest: pending_epoch)

text \<open>What has to be kept while a rebuild is live.\<close>

definition rebuild_live :: "'g session \<Rightarrow> bool" where
  "rebuild_live s \<longleftrightarrow> ss_successful_rebuilds s < ss_rebuild_attempts s \<and> busy (ss_state s) \<and> consistent s"

lemma pending_ok_frame:
  assumes "pending_ok s p" and "ss_command_epoch s \<le> ss_command_epoch s'"
    and "ss_active_run_epoch s \<le> ss_active_run_epoch s'"
    and "ss_command_epoch s' \<in> set (rebuild_epoch p) \<and> ss_command_epoch s = ss_command_epoch s' \<and> rebuild_live s \<longrightarrow>
      rebuild_live s' \<and> ss_active_generation s' = ss_active_generation s"
  shows "pending_ok s' p"
proof (cases p)
  case (PendingRebuild e g prev b)
  with assms have "e = ss_command_epoch s' \<Longrightarrow> ss_command_epoch s = ss_command_epoch s'" by simp
  with assms PendingRebuild show ?thesis by (auto simp: rebuild_live_def)
qed (use assms in auto)

lemma pending_frame:
  assumes "list_all (pending_ok s) ps" and "ss_command_epoch s \<le> ss_command_epoch s'"
    and "ss_active_run_epoch s \<le> ss_active_run_epoch s'"
    and live: "ss_command_epoch s' \<in> set (rebuild_epochs ps) \<and> ss_command_epoch s = ss_command_epoch s' \<and> rebuild_live s
      \<longrightarrow> rebuild_live s' \<and> ss_active_generation s' = ss_active_generation s"
  shows "list_all (pending_ok s') ps"
  unfolding list_all_iff
proof
  fix p assume "p \<in> set ps"
  then have "ss_command_epoch s' \<in> set (rebuild_epoch p) \<Longrightarrow> ss_command_epoch s' \<in> set (rebuild_epochs ps)" by auto
  moreover have "pending_ok s p" using assms(1) \<open>p \<in> set ps\<close> by (simp add: list_all_iff)
  ultimately show "pending_ok s' p" using pending_ok_frame [of s p s'] assms(2,3) live by blast
qed

lemma session_inv_frame:
  assumes "session_inv s ps" and "ss_command_epoch s' = ss_command_epoch s"
    and "ss_active_run_epoch s' = ss_active_run_epoch s" and "ss_active_generation s' = ss_active_generation s"
    and "ss_successful_rebuilds s' = ss_successful_rebuilds s" and "ss_rebuild_attempts s' = ss_rebuild_attempts s"
    and "busy (ss_state s) \<Longrightarrow> busy (ss_state s')" and "consistent s \<Longrightarrow> consistent s'"
    and "\<not> busy (ss_state s') \<Longrightarrow> \<not> busy (ss_state s)"
  shows "session_inv s' ps"
proof -
  have "list_all (pending_ok s') ps"
    by (rule pending_frame [of s]) (use assms in \<open>auto simp: session_inv_def rebuild_live_def\<close>)
  with assms show ?thesis by (auto simp: session_inv_def counters_bounded_def)
qed

lemma session_inv_sublist: "session_inv s (ps1 @ p # ps2) \<Longrightarrow> session_inv s (ps1 @ ps2)"
  by (auto simp: session_inv_def)

lemma allowed_not_busy: "IsRebuildAllowedState st \<Longrightarrow> \<not> busy st"
  by (auto simp: IsRebuildAllowedState_def busy_def)

lemma session_inv_MarkShuttingDown: "session_inv s ps \<Longrightarrow> session_inv (MarkShuttingDown s) ps"
proof -
  assume inv: "session_inv s ps"
  have le: "ss_command_epoch s \<le> ss_command_epoch (MarkShuttingDown s)"
    using below_maximum [of "ss_command_epoch s"] by (auto simp: MarkShuttingDown_def intro: less_imp_le)
  have "list_all (pending_ok (MarkShuttingDown s)) ps"
    by (rule pending_frame [of s])
      (use inv le in \<open>auto simp: session_inv_def rebuild_live_def MarkShuttingDown_def busy_def consistent_def\<close>)
  moreover have "busy (ss_state (MarkShuttingDown s))" by (simp add: MarkShuttingDown_def busy_def)
  moreover have "counters_bounded (MarkShuttingDown s)"
    using inv below_maximum [of "ss_command_epoch s"]
    by (auto simp: session_inv_def counters_bounded_def MarkShuttingDown_def)
  ultimately show ?thesis using inv by (simp add: session_inv_def)
qed

lemma session_inv_Rebuild:
  assumes inv: "session_inv s ps" and enter: "Rebuild_enter b s = Inr (p, s')"
  shows "session_inv s' (p # ps)"
proof -
  from enter have p: "p = PendingRebuild (ss_command_epoch s + 1) (ss_active_generation s + 1) (ss_state s) b"
    and s': "s' = s\<lparr>ss_state := S_rebuilding, ss_rebuild_attempts := ss_rebuild_attempts s + 1,
                  ss_command_epoch := ss_command_epoch s + 1\<rparr>"
    and allowed: "IsRebuildAllowedState (ss_state s)"
    and below: "ss_command_epoch s < kMaximumJsonSafeInteger" "ss_rebuild_attempts s < kMaximumJsonSafeInteger"
    by (auto simp: Rebuild_enter_def not_le split: if_splits)
  note lt = below_maximum [OF below(1)] below_maximum [OF below(2)]
  have cons: "consistent s" using inv allowed_not_busy [OF allowed] by (simp add: session_inv_def)
  then have cons': "consistent s'" by (simp add: s' consistent_def)
  have "list_all (pending_ok s') ps"
    by (rule pending_frame [of s]) (use inv lt in \<open>auto simp: session_inv_def s'\<close>)
  moreover have fresh: "ss_command_epoch s + 1 \<notin> set (rebuild_epochs ps)"
  proof
    assume "ss_command_epoch s + 1 \<in> set (rebuild_epochs ps)"
    from rebuild_epochs_bounded [OF _ this, of s] inv lt(1) show False by (simp add: session_inv_def)
  qed
  moreover have "ss_successful_rebuilds s < ss_rebuild_attempts s + 1"
    using inv lt(3) by (auto simp: session_inv_def counters_bounded_def)
  ultimately show ?thesis using inv lt allowed cons'
    by (auto simp: session_inv_def counters_bounded_def p s' busy_def)
qed

lemma session_inv_Start:
  assumes inv: "session_inv s ps" and enter: "Start_enter now s = Inr (p, s')"
  shows "session_inv s' (p # ps)"
proof -
  from enter have p: "p = PendingStart (ss_active_generation s) (ss_active_run_epoch s + 1) (ss_state s)"
    and state: "ss_state s \<in> {S_stopped, S_completed}"
    and below: "ss_active_run_epoch s < kMaximumJsonSafeInteger"
    and same: "ss_command_epoch s' = ss_command_epoch s" "ss_active_run_epoch s' = ss_active_run_epoch s + 1"
      "ss_active_generation s' = ss_active_generation s" "ss_successful_rebuilds s' = ss_successful_rebuilds s"
      "ss_rebuild_attempts s' = ss_rebuild_attempts s" "ss_state s' = S_starting"
      "ss_terminal_generation s' = 0" "ss_active_graph_manager s' = ss_active_graph_manager s"
      "ss_active_snapshot s' = (ss_active_snapshot s)\<lparr>gs_run_epoch := ss_active_run_epoch s + 1\<rparr>"
    by (auto simp: Start_enter_def Let_def not_le split: if_splits)
  note lt = below_maximum [OF below]
  have "\<not> busy (ss_state s)" using state by (auto simp: busy_def)
  then have "list_all (pending_ok s') ps"
    by - (rule pending_frame [of s], use inv lt in \<open>auto simp: session_inv_def same rebuild_live_def\<close>)
  moreover have "consistent s'"
    using inv \<open>\<not> busy (ss_state s)\<close> by (auto simp: session_inv_def consistent_def same)
  ultimately show ?thesis using inv lt state by (auto simp: session_inv_def counters_bounded_def p same)
qed

lemma IdentitySnapshot_fields:
  assumes "IdentitySnapshot g revision etag graph = Some identity"
  shows "gs_generation identity = g \<and> gs_run_epoch identity = 0 \<and> gs_config_revision identity = revision \<and>
    gs_config_etag identity = etag"
  using assms
  by (auto simp: IdentitySnapshot_def Let_def empty_snapshot_def
      split: option.splits json.splits sum.splits identity_failure.splits)

lemma session_inv_Rebuilt:
  assumes inv: "session_inv s (ps1 @ PendingRebuild e g prev b # ps2)"
  shows "session_inv (snd (Rebuild_return e g prev b result s)) (ps1 @ ps2)" (is "session_inv ?s' _")
proof (cases "e = ss_command_epoch s")
  case False
  with session_inv_sublist [OF inv] show ?thesis by (simp add: Rebuild_return_def)
next
  case True
  from inv True have others: "ss_command_epoch s \<notin> set (rebuild_epochs (ps1 @ ps2))"
    and live: "g = ss_active_generation s + 1" "ss_successful_rebuilds s < ss_rebuild_attempts s"
      "busy (ss_state s)" "consistent s" "IsRebuildAllowedState prev"
    by (auto simp: session_inv_def)
  have epochs: "ss_command_epoch ?s' = ss_command_epoch s" "ss_active_run_epoch ?s' = ss_active_run_epoch s"
      "ss_rebuild_attempts ?s' = ss_rebuild_attempts s"
    by (auto simp: Rebuild_return_def Let_def split: option.split)
  have "list_all (pending_ok ?s') (ps1 @ ps2)"
    by (rule pending_frame [of s]) (use inv others epochs in \<open>auto simp: session_inv_def\<close>)
  moreover have "counters_bounded ?s'"
    using inv live inc_le [OF live(2)]
    by (auto simp: session_inv_def counters_bounded_def Rebuild_return_def Let_def split: option.split)
  moreover have "consistent ?s' \<or> busy (ss_state ?s')"
    using live(3,4) True
    by (auto simp: Rebuild_return_def Let_def consistent_def dest: IdentitySnapshot_fields split: option.split)
  ultimately show ?thesis using inv by (auto simp: session_inv_def)
qed

lemma session_inv_step:
  assumes "session_step c c'" and "session_inv (fst c) (snd c)"
  shows "session_inv (fst c') (snd c')"
  using assms
proof cases
  case (step_Started s ps1 g r prev ps2 result)
  from assms(2) have inv: "session_inv s (ps1 @ ps2)" "prev \<in> {S_stopped, S_completed}"
    by (auto simp: step_Started session_inv_def)
  show ?thesis
    by (rule session_inv_frame [of s]) (use inv in \<open>auto simp: step_Started Start_return_def
      SetActiveGraphManager_def Let_def busy_def consistent_def split: option.splits if_splits\<close>)
next
  case (step_Stopped s ps1 g ps2 result)
  from assms(2) have inv: "session_inv s (ps1 @ ps2)" by (auto simp: step_Stopped session_inv_def)
  show ?thesis
    by (rule session_inv_frame [of s]) (use inv in \<open>auto simp: step_Stopped Stop_return_def busy_def consistent_def\<close>)
next
  case (step_Stop s p s' ps)
  with assms(2) have "session_inv s' ps"
    by - (rule session_inv_frame [of s], auto simp: Stop_enter_def consistent_def split: if_splits)
  then show ?thesis using step_Stop by (auto simp: session_inv_def Stop_enter_def split: if_splits)
next
  case (step_OwnerCompleted s ps now g r success message)
  with assms(2) show ?thesis
    by - (rule session_inv_frame [of s], auto simp: OwnerCompleted_def Let_def busy_def consistent_def)
next
  case (step_MarkReady s ps)
  with assms(2) show ?thesis
    by - (rule session_inv_frame [of s], auto simp: MarkReady_def busy_def consistent_def)
next
  case (step_MarkDead s ps)
  with assms(2) show ?thesis
    by - (rule session_inv_frame [of s], auto simp: MarkDead_def busy_def consistent_def)
qed (use assms(2) in \<open>auto simp: session_inv_MarkShuttingDown session_inv_Rebuild session_inv_Rebuilt session_inv_Start\<close>)

lemma session_inv_steps: "session_steps c c' \<Longrightarrow> session_inv (fst c) (snd c) \<Longrightarrow> session_inv (fst c') (snd c')"
  by (induction rule: rtranclp_induct) (auto intro: session_inv_step)

lemma reachable_session_inv: "session_steps (GraphRuntimeSession, []) (s, ps) \<Longrightarrow> session_inv s ps"
  using session_inv_steps [of "(GraphRuntimeSession, [])" "(s, ps)"] by (simp add: session_inv_initial)

section \<open>Shutdown\<close>

text \<open>No command in flight can write the state or the generation.\<close>

definition shut_down :: "u64 \<Rightarrow> 'g session \<Rightarrow> 'f pending list \<Rightarrow> bool" where
  "shut_down g s ps \<longleftrightarrow> ss_state s \<in> {S_shutting_down, S_dead} \<and> ss_active_generation s = g \<and>
     ss_command_epoch s \<notin> set (rebuild_epochs ps)"

lemma shut_down_refuses:
  assumes "ss_state s \<in> {S_shutting_down, S_dead}"
  shows "Rebuild_enter b s \<noteq> Inr r" and "Start_enter now s \<noteq> Inr r'" and "Stop_enter s \<noteq> Inr r''"
  using assms by (auto simp: Rebuild_enter_def Start_enter_def Stop_enter_def IsRebuildAllowedState_def)

lemma shut_down_MarkShuttingDown:
  assumes "session_inv s ps"
    and "ss_command_epoch s < kMaximumJsonSafeInteger \<or> ss_command_epoch s \<notin> set (rebuild_epochs ps)"
  shows "shut_down (ss_active_generation s) (MarkShuttingDown s) ps"
proof -
  have "ss_command_epoch s + 1 \<notin> set (rebuild_epochs ps)" if below: "ss_command_epoch s < kMaximumJsonSafeInteger"
  proof
    assume "ss_command_epoch s + 1 \<in> set (rebuild_epochs ps)"
    from rebuild_epochs_bounded [OF _ this, of s] assms(1) below_maximum(1) [OF below] show False
      by (simp add: session_inv_def)
  qed
  with assms(2) show ?thesis by (auto simp: shut_down_def MarkShuttingDown_def)
qed

lemma shut_down_step:
  assumes "session_step c c'" and "session_inv (fst c) (snd c)" and "shut_down g (fst c) (snd c)"
  shows "shut_down g (fst c') (snd c')"
  using assms
proof cases
  case (step_MarkShuttingDown s ps)
  then show ?thesis using assms(2,3) shut_down_MarkShuttingDown [of s ps] by (auto simp: shut_down_def)
next
  case (step_Started s ps1 g' r prev ps2 result)
  then show ?thesis using assms(3)
    by (auto simp: shut_down_def Start_return_def SetActiveGraphManager_def Let_def split: option.splits if_splits)
next
  case (step_Rebuilt s ps1 e g' prev b ps2 result)
  then show ?thesis using assms(3) by (auto simp: shut_down_def Rebuild_return_def)
qed (use assms(3) in \<open>auto simp: shut_down_def shut_down_refuses MarkReady_def MarkDead_def OwnerCompleted_def
  Stop_return_def\<close>)

lemma shut_down_steps:
  "session_steps c c' \<Longrightarrow> session_inv (fst c) (snd c) \<Longrightarrow> shut_down g (fst c) (snd c) \<Longrightarrow>
    shut_down g (fst c') (snd c')"
  by (induction rule: rtranclp_induct) (auto intro: shut_down_step dest: session_inv_steps)

text \<open>
  With the counter at its maximum MarkShuttingDown does not advance it, and a rebuild in flight that
  carries this maximum is not superseded: its return takes the session out of the shutdown.
\<close>

lemma exhausted_counter_revives_session:
  fixes s :: "'g session" and identity :: "'g generation_snapshot"
  assumes "ss_command_epoch s = kMaximumJsonSafeInteger" and "or_status_code result < 400"
    and "IdentitySnapshot generation (bs_config_revision b) (bs_config_etag b) (bs_receiver_graph b) = Some identity"
    and "\<not> or_cleanup_failed result"
  shows "ss_state (snd (Rebuild_return kMaximumJsonSafeInteger generation prev b result (MarkShuttingDown s))) =
      S_stopped \<and>
    ss_active_generation (snd (Rebuild_return kMaximumJsonSafeInteger generation prev b result (MarkShuttingDown s))) =
      generation"
  using assms by (simp add: Rebuild_return_def MarkShuttingDown_def Let_def)

section \<open>Runs\<close>

text \<open>A run that has ended, or that a later one has replaced.\<close>

definition run_over :: "u64 \<Rightarrow> 'g session \<Rightarrow> bool" where
  "run_over r s \<longleftrightarrow> r \<le> ss_active_run_epoch s \<and>
     (r = ss_active_run_epoch s \<longrightarrow> ss_state s \<noteq> S_starting \<and> ss_state s \<noteq> S_running)"

lemma run_over_ignored: "run_over r s \<Longrightarrow> OwnerCompleted now g r success message s = s"
  by (auto simp: run_over_def OwnerCompleted_def)

lemma OwnerCompleted_state:
  "ss_active_run_epoch (OwnerCompleted now g r success message s) = ss_active_run_epoch s \<and>
   ss_state (OwnerCompleted now g r success message s) \<in> {ss_state s, S_stopped, S_completed, S_failed}"
  by (simp add: OwnerCompleted_def Let_def)

lemma run_over_Start:
  assumes "run_over r s" and "Start_enter now s = Inr (p, s')"
  shows "run_over r s'"
proof -
  from assms(2) have "ss_active_run_epoch s < kMaximumJsonSafeInteger"
    and s': "ss_active_run_epoch s' = ss_active_run_epoch s + 1"
    by (auto simp: Start_enter_def Let_def not_le split: if_splits)
  with below_maximum(1) have "ss_active_run_epoch s < ss_active_run_epoch s'" by simp
  with assms(1) show ?thesis by (auto simp: run_over_def)
qed

lemma run_over_step:
  assumes "session_step c c'" and "session_inv (fst c) (snd c)" and "run_over r (fst c)"
  shows "run_over r (fst c')"
  using assms
proof cases
  case (step_Started s ps1 g r' prev ps2 result)
  then show ?thesis using assms(2,3)
    by (auto simp: run_over_def session_inv_def Start_return_def SetActiveGraphManager_def Let_def
        split: option.splits if_splits)
next
  case (step_Rebuilt s ps1 e g prev b ps2 result)
  moreover have "IsRebuildAllowedState prev" using assms(2) step_Rebuilt by (simp add: session_inv_def)
  ultimately show ?thesis using assms(3)
    by (auto simp: run_over_def Rebuild_return_def IsRebuildAllowedState_def Let_def split: option.splits)
next
  case (step_Start now s p s' ps)
  with run_over_Start assms(3) show ?thesis by simp
next
  case (step_Rebuild b s p s' ps)
  with assms(3) show ?thesis by (auto simp: run_over_def Rebuild_enter_def split: if_splits)
next
  case (step_Stop s p s' ps)
  with assms(3) show ?thesis by (auto simp: run_over_def Stop_enter_def split: if_splits)
next
  case (step_OwnerCompleted s ps now g r' success message)
  with assms(3) show ?thesis using OwnerCompleted_state [of now g r' success message s] by (auto simp: run_over_def)
qed (use assms(3) in \<open>auto simp: run_over_def MarkReady_def MarkShuttingDown_def MarkDead_def Stop_return_def\<close>)

lemma run_over_steps:
  "session_steps c c' \<Longrightarrow> session_inv (fst c) (snd c) \<Longrightarrow> run_over r (fst c) \<Longrightarrow> run_over r (fst c')"
  by (induction rule: rtranclp_induct) (auto intro: run_over_step dest: session_inv_steps)

section \<open>The guarantees\<close>

text \<open>
  C32. Identity of the active generation. In every reachable state, whatever the owner answers and
  however commands, completions and shutdown interleave: the generation number counts the rebuilds
  that succeeded, of which there are not more than attempts, and no counter that is published as a
  JSON number leaves the safe integer range. While the session is ready, the published snapshot
  carries the number and the graph manager of the active generation, the run it names is the
  latest one or none, and a recorded terminal result belongs to the active generation.
\<close>

theorem published_identity:
  assumes "session_steps (GraphRuntimeSession, []) (s, ps)"
  shows "ss_successful_rebuilds s = ss_active_generation s \<and>
    ss_successful_rebuilds s \<le> ss_rebuild_attempts s \<and> ss_rebuild_attempts s \<le> kMaximumJsonSafeInteger \<and>
    ss_command_epoch s \<le> kMaximumJsonSafeInteger \<and> ss_active_run_epoch s \<le> kMaximumJsonSafeInteger \<and>
    (IsReady s \<longrightarrow>
      gs_generation (ss_active_snapshot s) = ss_active_generation s \<and>
      gs_graph_manager (ss_active_snapshot s) = ss_active_graph_manager s \<and>
      gs_run_epoch (ss_active_snapshot s) \<in> {0, ss_active_run_epoch s} \<and>
      ss_terminal_generation s \<in> {0, ss_active_generation s})"
  using reachable_session_inv [OF assms]
  by (auto simp: session_inv_def counters_bounded_def consistent_def busy_def IsReady_def)

text \<open>A session that is built and started, for the examples.\<close>

definition entered :: "('f pending \<times> 'g session, command_result) expected \<Rightarrow> 'g session \<times> 'f pending list
    \<Rightarrow> 'g session \<times> 'f pending list" where
  "entered r c = (case r of Inl _ \<Rightarrow> c | Inr (p, s) \<Rightarrow> (s, p # snd c))"

definition example_build :: "unit build_snapshot" where
  "example_build = \<lparr>bs_config_revision = 7, bs_config_etag = ''tag'',
     bs_receiver_graph = JObject [(''nodes'', JArray []), (''edges'', JArray [])]\<rparr>"

definition example_answer :: "nat owner_result" where
  "example_answer = \<lparr>or_status_code = 200, or_code = ''ok'', or_message = [], or_graph_manager = Some 1,
     or_cleanup_failed = False\<rparr>"

definition example_rebuilding :: "nat session \<times> unit pending list" where
  "example_rebuilding = entered (Rebuild_enter example_build (MarkReady GraphRuntimeSession)) (MarkReady GraphRuntimeSession, [])"

definition example_stopped :: "nat session" where
  "example_stopped = snd (Rebuild_return 1 1 S_not_built example_build example_answer (fst example_rebuilding))"

definition example_starting :: "nat session \<times> unit pending list" where
  "example_starting = entered (Start_enter ''now'' example_stopped) (example_stopped, [])"

lemmas example_defs = example_build_def example_answer_def example_rebuilding_def example_stopped_def
  example_starting_def entered_def GraphRuntimeSession_def empty_snapshot_def IsRebuildAllowedState_def
  kMaximumJsonSafeInteger_def IdentitySnapshot_def command_result_of_def

lemma entered_steps:
  "session_steps (s, ps) (entered (Rebuild_enter b s) (s, ps))"
  "session_steps (s, ps) (entered (Start_enter now s) (s, ps))"
  by (auto simp: entered_def split: sum.split intro: step_Rebuild step_Start)

lemma example_rebuilding_steps:
  "session_steps (GraphRuntimeSession, []) example_rebuilding"
  unfolding example_rebuilding_def
  by (rule converse_rtranclp_into_rtranclp [OF step_MarkReady entered_steps(1)])

lemma example_rebuilding_pending:
  "example_rebuilding = (fst example_rebuilding, [] @ PendingRebuild 1 1 S_not_built example_build # [])"
  by (simp add: example_defs Rebuild_enter_def MarkReady_def)

lemma example_stopped_steps: "session_steps (GraphRuntimeSession, []) (example_stopped, [] :: unit pending list)"
proof -
  have "session_step (fst example_rebuilding, [] @ PendingRebuild 1 1 S_not_built example_build # [])
      (snd (Rebuild_return 1 1 S_not_built example_build example_answer (fst example_rebuilding)), [] @ [])"
    by (rule step_Rebuilt)
  then have "session_step example_rebuilding (example_stopped, [])"
    unfolding example_rebuilding_pending [symmetric] example_stopped_def by simp
  with example_rebuilding_steps show ?thesis by (rule rtranclp.rtrancl_into_rtrancl)
qed

lemma example_starting_steps: "session_steps (GraphRuntimeSession, []) example_starting"
  unfolding example_starting_def by (rule rtranclp_trans [OF example_stopped_steps entered_steps(2)])

lemma example_values:
  "ss_active_generation (fst example_starting) = 1" "ss_state (fst example_starting) = S_starting"
  "ss_active_run_epoch (fst example_starting) = 1" "ss_active_generation (fst example_rebuilding) = 0"
  "ss_command_epoch (fst example_rebuilding) = 1" "ss_active_generation example_stopped = 1"
  "IsReady example_stopped" "ss_active_graph_manager example_stopped = Some 1"
  by (simp_all add: example_defs Rebuild_enter_def MarkReady_def Rebuild_return_def Start_enter_def IsReady_def)

theorem published_identity_witness:
  "session_steps (GraphRuntimeSession, []) (example_stopped, [] :: unit pending list) \<and> IsReady example_stopped \<and>
   gs_generation (ss_active_snapshot example_stopped) = 1 \<and>
   gs_graph_manager (ss_active_snapshot example_stopped) = Some 1"
  using published_identity [OF example_stopped_steps] example_stopped_steps example_values by simp

text \<open>
  C33. Shutdown is final, as long as the command counter can supersede what is in flight. Take a
  reachable state in which the command counter is below its maximum of 2^53 - 1, or no rebuild in
  flight carries the current counter. After MarkShuttingDown in such a state, no rebuild, start or
  stop that is still in flight, no completion report and no later command of the steps above brings
  the session back: it stays in the states shutting down and dead, refuses every command, and keeps
  its generation. The condition is needed: \<open>exhausted_counter_revives_session\<close>. The raw setter
  SetLifecycleState, which no command of the session calls, is not a step.
\<close>

theorem shutdown_is_final:
  assumes "session_steps (GraphRuntimeSession, []) (s, ps)"
    and "ss_command_epoch s < kMaximumJsonSafeInteger \<or> ss_command_epoch s \<notin> set (rebuild_epochs ps)"
    and "session_steps (MarkShuttingDown s, ps) (s', ps')"
  shows "ss_state s' \<in> {S_shutting_down, S_dead} \<and> ss_active_generation s' = ss_active_generation s \<and>
    \<not> has_value (Rebuild_enter b s' :: ('f pending \<times> 'g session, command_result) expected) \<and>
    \<not> has_value (Start_enter now s' :: ('f pending \<times> 'g session, command_result) expected) \<and>
    \<not> has_value (Stop_enter s' :: ('f pending \<times> 'g session, command_result) expected)"
proof -
  note inv = reachable_session_inv [OF assms(1)]
  have "shut_down (ss_active_generation s) s' ps'"
    using shut_down_steps [OF assms(3), of "ss_active_generation s"] session_inv_MarkShuttingDown [OF inv]
      shut_down_MarkShuttingDown [OF inv assms(2)] by simp
  then have "ss_state s' \<in> {S_shutting_down, S_dead}" "ss_active_generation s' = ss_active_generation s"
    by (auto simp: shut_down_def)
  then show ?thesis by (auto simp: has_value_def shut_down_refuses split: sum.split)
qed

text \<open>The rebuild in flight when the example is shut down cannot publish its graph.\<close>

lemma example_superseded:
  "session_steps (MarkShuttingDown (fst example_rebuilding), snd example_rebuilding)
     (snd (Rebuild_return 1 1 S_not_built example_build example_answer (MarkShuttingDown (fst example_rebuilding))), [])"
proof -
  have "snd example_rebuilding = [] @ PendingRebuild 1 1 S_not_built example_build # []"
    by (metis example_rebuilding_pending snd_conv)
  with step_Rebuilt [of "MarkShuttingDown (fst example_rebuilding)" "[]" 1 1 S_not_built example_build "[]" example_answer]
  show ?thesis by simp
qed

theorem shutdown_is_final_witness:
  "ss_active_generation (snd (Rebuild_return 1 1 S_not_built example_build example_answer
     (MarkShuttingDown (fst example_rebuilding)))) = 0"
  using shutdown_is_final [OF _ _ example_superseded, of example_build "''later''"] example_rebuilding_steps
  by (simp add: example_values kMaximumJsonSafeInteger_def)

text \<open>
  C34. A run ends once. After a completion report for a run was accepted, every further report for
  that run is ignored, in every continuation: also after rebuilds and later starts, whose runs have
  other numbers.
\<close>

theorem run_ends_once:
  assumes "session_steps (GraphRuntimeSession, []) (s, ps)"
    and "OwnerCompleted now g r success message s \<noteq> s"
    and "session_steps (OwnerCompleted now g r success message s, ps) (s', ps')"
  shows "OwnerCompleted now' g' r success' message' s' = s'"
proof -
  let ?s = "OwnerCompleted now g r success message s"
  have "run_over r ?s"
    using assms(2) by (auto simp: OwnerCompleted_def run_over_def Let_def split: if_splits)
  moreover have "session_inv ?s ps"
    using session_inv_step [OF step_OwnerCompleted, of s ps] reachable_session_inv [OF assms(1)] by simp
  ultimately have "run_over r s'" using run_over_steps [OF assms(3), of r] by simp
  then show ?thesis by (rule run_over_ignored)
qed

theorem run_ends_once_witness:
  "OwnerCompleted ''later'' 1 1 False ''again'' (OwnerCompleted ''now'' 1 1 True [] (fst example_starting)) =
   OwnerCompleted ''now'' 1 1 True [] (fst example_starting)"
proof (rule run_ends_once)
  show "session_steps (GraphRuntimeSession, []) (fst example_starting, snd example_starting)"
    using example_starting_steps by simp
  have "ss_state (OwnerCompleted ''now'' 1 1 True [] (fst example_starting)) \<noteq> S_starting"
    by (simp add: OwnerCompleted_def example_values Let_def)
  then show "OwnerCompleted ''now'' 1 1 True [] (fst example_starting) \<noteq> fst example_starting"
    by (auto simp: example_values)
qed (rule rtranclp.rtrancl_refl)

end
