(* ===== verification/Accel_Registry.thy ===== *)
theory Accel_Registry
  imports Json_Values "HOL-Library.Product_Lexorder" "HOL-Library.List_Lexorder" "HOL-Library.Char_ord"
begin

text \<open>
  Accelerator sessions and their selection (\<open>libgpu/include/gpu/session/AcceleratorSession.hpp\<close>): the
  descriptor of a backend, the request of a client, their JSON forms, and the registry that keeps
  the sessions in a fixed order and resolves a request to the first that satisfies it. A session
  is a value of an arbitrary type; \<open>describe\<close> and \<open>capable\<close> are its methods \<open>Describe\<close> and
  \<open>CapabilitiesMatchDescriptor\<close>. The registry of \<open>libaccelgraph/src/AcceleratorSessionRegistry.cpp\<close>, which
  finds a session by key, is at the end.
\<close>

section \<open>Descriptors and requests\<close>

datatype backend_kind = BK_Unknown | BK_CPU | BK_CUDA | BK_Metal

datatype execution_mode = EM_Native | EM_Stub | EM_Simulated | EM_CpuFallback | EM_Unavailable

datatype session_fallback_policy = SFP_Strict | SFP_AllowFallback

datatype session_resolution_state = SRS_Selected | SRS_Rejected | SRS_Fallback | SRS_Unsupported | SRS_Unavailable

record feature_set =
  fs_device_memory :: bool
  fs_host_visible_memory :: bool
  fs_transfers :: bool
  fs_events :: bool
  fs_execution :: bool
  fs_telemetry :: bool
  fs_collectives :: bool
  fs_runtime_compilation :: bool

definition no_features :: feature_set where
  "no_features = \<lparr>fs_device_memory = False, fs_host_visible_memory = False, fs_transfers = False, fs_events = False,
     fs_execution = False, fs_telemetry = False, fs_collectives = False, fs_runtime_compilation = False\<rparr>"

definition Satisfies :: "feature_set \<Rightarrow> feature_set \<Rightarrow> bool" where
  "Satisfies f required \<longleftrightarrow> (fs_device_memory required \<longrightarrow> fs_device_memory f) \<and>
     (fs_host_visible_memory required \<longrightarrow> fs_host_visible_memory f) \<and> (fs_transfers required \<longrightarrow> fs_transfers f) \<and>
     (fs_events required \<longrightarrow> fs_events f) \<and> (fs_execution required \<longrightarrow> fs_execution f) \<and>
     (fs_telemetry required \<longrightarrow> fs_telemetry f) \<and> (fs_collectives required \<longrightarrow> fs_collectives f) \<and>
     (fs_runtime_compilation required \<longrightarrow> fs_runtime_compilation f)"

record backend_descriptor =
  bd_backend :: backend_kind
  bd_execution_mode :: execution_mode
  bd_provider_name :: string
  bd_runtime_version :: string
  bd_device_name :: string
  bd_device_id :: u32
  bd_architecture :: string
  bd_session_id :: u64
  bd_features :: feature_set

record session_request =
  rq_required_backend :: "backend_kind option"
  rq_preferred_backend :: "backend_kind option"
  rq_required_execution_mode :: "execution_mode option"
  rq_device_id :: "u32 option"
  rq_required_features :: feature_set
  rq_fallback_policy :: session_fallback_policy

record session_diagnostic =
  sd_provider_name :: string
  sd_backend :: backend_kind
  sd_execution_mode :: execution_mode
  sd_device_id :: u32
  sd_state :: session_resolution_state
  sd_detail :: string

record 's session_resolution =
  sx_session :: 's
  sx_descriptor :: backend_descriptor
  sx_diagnostics :: "session_diagnostic list"
  sx_fallback_used :: bool

record session_failure =
  sf_requested_backend :: "backend_kind option"
  sf_requested_execution_mode :: "execution_mode option"
  sf_detail :: string
  sf_diagnostics :: "session_diagnostic list"

datatype session_validation_code = SV_UnknownBackend | SV_UnavailableExecutionMode | SV_MissingProviderName
  | SV_MissingSessionId | SV_InconsistentCpuMode | SV_DuplicateSessionId | SV_MissingAdvertisedCapability

type_synonym session_validation_error = "session_validation_code \<times> string"

fun BackendKind_ToString :: "backend_kind \<Rightarrow> string" where
  "BackendKind_ToString BK_CPU = ''CPU''"
| "BackendKind_ToString BK_CUDA = ''CUDA''"
| "BackendKind_ToString BK_Metal = ''Metal''"
| "BackendKind_ToString BK_Unknown = ''Unknown''"

fun ExecutionMode_ToString :: "execution_mode \<Rightarrow> string" where
  "ExecutionMode_ToString EM_Native = ''Native''"
| "ExecutionMode_ToString EM_Stub = ''Stub''"
| "ExecutionMode_ToString EM_Simulated = ''Simulated''"
| "ExecutionMode_ToString EM_CpuFallback = ''CpuFallback''"
| "ExecutionMode_ToString EM_Unavailable = ''Unavailable''"

fun SessionFallbackPolicy_ToString :: "session_fallback_policy \<Rightarrow> string" where
  "SessionFallbackPolicy_ToString SFP_AllowFallback = ''AllowFallback''"
| "SessionFallbackPolicy_ToString SFP_Strict = ''Strict''"

fun SessionResolutionState_ToString :: "session_resolution_state \<Rightarrow> string" where
  "SessionResolutionState_ToString SRS_Selected = ''Selected''"
| "SessionResolutionState_ToString SRS_Rejected = ''Rejected''"
| "SessionResolutionState_ToString SRS_Fallback = ''Fallback''"
| "SessionResolutionState_ToString SRS_Unsupported = ''Unsupported''"
| "SessionResolutionState_ToString SRS_Unavailable = ''Unavailable''"

definition Matches :: "session_request \<Rightarrow> backend_descriptor \<Rightarrow> bool" where
  "Matches request d \<longleftrightarrow>
     (if bd_backend d = BK_Unknown \<or> bd_execution_mode d = EM_Unavailable \<or> bd_provider_name d = [] \<or>
         bd_session_id d = 0 then False
      else if rq_required_backend request \<noteq> None \<and> rq_required_backend request \<noteq> Some (bd_backend d) then False
      else if rq_required_execution_mode request \<noteq> None \<and>
              rq_required_execution_mode request \<noteq> Some (bd_execution_mode d) then False
      else if rq_device_id request \<noteq> None \<and> rq_device_id request \<noteq> Some (bd_device_id d) then False
      else Satisfies (bd_features d) (rq_required_features request))"

definition ValidateDescriptor :: "backend_descriptor \<Rightarrow> session_validation_error option" where
  "ValidateDescriptor d =
     (if bd_backend d = BK_Unknown then Some (SV_UnknownBackend, ''backend must not be Unknown'')
      else if bd_execution_mode d = EM_Unavailable
      then Some (SV_UnavailableExecutionMode, ''unavailable providers cannot be registered'')
      else if bd_provider_name d = [] then Some (SV_MissingProviderName, ''provider_name must not be empty'')
      else if bd_session_id d = 0 then Some (SV_MissingSessionId, ''session_id must be nonzero'')
      else
        let cpu_backend = (bd_backend d = BK_CPU); cpu_mode = (bd_execution_mode d = EM_CpuFallback)
        in if cpu_backend \<noteq> cpu_mode
           then Some (SV_InconsistentCpuMode, ''CPU backend and CpuFallback mode must be used together'')
           else None)"

section \<open>JSON\<close>

text \<open>
  Reading a member with \<open>at\<close> fails on a missing member and on a value that is not an object; \<open>get\<close>
  converts between all kinds of numbers (\<open>of_float\<close> is the conversion of a floating-point number to
  the integer type), and a 32-bit number is also read from a boolean. The order of the members of
  an object is not significant.
\<close>

datatype json_failure = JF_Out_Of_Range | JF_Type_Error | JF_Other string

fun json_at :: "'f json \<Rightarrow> string \<Rightarrow> ('f json, json_failure) expected" where
  "json_at (JObject ms) key = (case map_of ms key of None \<Rightarrow> Inl JF_Out_Of_Range | Some v \<Rightarrow> Inr v)"
| "json_at _ key = Inl JF_Type_Error"

fun json_text :: "'f json \<Rightarrow> (string, json_failure) expected" where
  "json_text (JString s) = Inr s"
| "json_text _ = Inl JF_Type_Error"

fun json_flag :: "'f json \<Rightarrow> (bool, json_failure) expected" where
  "json_flag (JBool b) = Inr b"
| "json_flag _ = Inl JF_Type_Error"

fun json_u32 :: "('f \<Rightarrow> u32) \<Rightarrow> 'f json \<Rightarrow> (u32, json_failure) expected" where
  "json_u32 of_float (JUnsigned w) = Inr (ucast w)"
| "json_u32 of_float (JInteger w) = Inr (ucast w)"
| "json_u32 of_float (JFloat x) = Inr (of_float x)"
| "json_u32 of_float (JBool b) = Inr (of_bool b)"
| "json_u32 of_float _ = Inl JF_Type_Error"

fun json_u64 :: "('f \<Rightarrow> u64) \<Rightarrow> 'f json \<Rightarrow> (u64, json_failure) expected" where
  "json_u64 of_float (JUnsigned w) = Inr w"
| "json_u64 of_float (JInteger w) = Inr w"
| "json_u64 of_float (JFloat x) = Inr (of_float x)"
| "json_u64 of_float _ = Inl JF_Type_Error"

definition json_get :: "('f json \<Rightarrow> ('a, json_failure) expected) \<Rightarrow> 'f json \<Rightarrow> string \<Rightarrow> ('a, json_failure) expected" where
  "json_get reader j key = bind_ok (json_at j key) reader"

definition FeatureSet_to_json :: "feature_set \<Rightarrow> 'f json" where
  "FeatureSet_to_json f = JObject
     [(''device_memory'', JBool (fs_device_memory f)), (''host_visible_memory'', JBool (fs_host_visible_memory f)),
      (''transfers'', JBool (fs_transfers f)), (''events'', JBool (fs_events f)),
      (''execution'', JBool (fs_execution f)), (''telemetry'', JBool (fs_telemetry f)),
      (''collectives'', JBool (fs_collectives f)), (''runtime_compilation'', JBool (fs_runtime_compilation f))]"

definition FeatureSet_from_json :: "'f json \<Rightarrow> (feature_set, json_failure) expected" where
  "FeatureSet_from_json j =
     bind_ok (json_get json_flag j ''device_memory'') (\<lambda>device_memory.
     bind_ok (json_get json_flag j ''host_visible_memory'') (\<lambda>host_visible_memory.
     bind_ok (json_get json_flag j ''transfers'') (\<lambda>transfers.
     bind_ok (json_get json_flag j ''events'') (\<lambda>events.
     bind_ok (json_get json_flag j ''execution'') (\<lambda>execution.
     bind_ok (json_get json_flag j ''telemetry'') (\<lambda>telemetry.
     bind_ok (json_get json_flag j ''collectives'') (\<lambda>collectives.
     bind_ok (json_get json_flag j ''runtime_compilation'') (\<lambda>runtime_compilation.
     Inr \<lparr>fs_device_memory = device_memory, fs_host_visible_memory = host_visible_memory, fs_transfers = transfers,
          fs_events = events, fs_execution = execution, fs_telemetry = telemetry, fs_collectives = collectives,
          fs_runtime_compilation = runtime_compilation\<rparr>))))))))"

definition BackendDescriptor_to_json :: "backend_descriptor \<Rightarrow> 'f json" where
  "BackendDescriptor_to_json d = JObject
     [(''backend'', JString (BackendKind_ToString (bd_backend d))),
      (''execution_mode'', JString (ExecutionMode_ToString (bd_execution_mode d))),
      (''provider_name'', JString (bd_provider_name d)), (''runtime_version'', JString (bd_runtime_version d)),
      (''device_name'', JString (bd_device_name d)), (''device_id'', JUnsigned (ucast (bd_device_id d))),
      (''architecture'', JString (bd_architecture d)), (''session_id'', JUnsigned (bd_session_id d)),
      (''features'', FeatureSet_to_json (bd_features d))]"

definition parse_backend :: "string \<Rightarrow> 'f json \<Rightarrow> (backend_kind, json_failure) expected" where
  "parse_backend complaint v = bind_ok (json_text v) (\<lambda>t.
     if t = ''CPU'' then Inr BK_CPU else if t = ''CUDA'' then Inr BK_CUDA else if t = ''Metal'' then Inr BK_Metal
     else Inl (JF_Other (complaint @ t)))"

definition parse_mode :: "string \<Rightarrow> 'f json \<Rightarrow> (execution_mode, json_failure) expected" where
  "parse_mode complaint v = bind_ok (json_text v) (\<lambda>t.
     if t = ''Native'' then Inr EM_Native else if t = ''Stub'' then Inr EM_Stub
     else if t = ''Simulated'' then Inr EM_Simulated else if t = ''CpuFallback'' then Inr EM_CpuFallback
     else if t = ''Unavailable'' then Inr EM_Unavailable
     else Inl (JF_Other (complaint @ t)))"

definition BackendDescriptor_from_json ::
    "('f \<Rightarrow> u32) \<Rightarrow> ('f \<Rightarrow> u64) \<Rightarrow> 'f json \<Rightarrow> (backend_descriptor, json_failure) expected" where
  "BackendDescriptor_from_json to32 to64 j =
     bind_ok (json_get (parse_backend ''invalid accelerator backend: '') j ''backend'') (\<lambda>backend.
     bind_ok (json_get (parse_mode ''invalid execution mode: '') j ''execution_mode'') (\<lambda>mode.
     bind_ok (json_get json_text j ''provider_name'') (\<lambda>provider_name.
     bind_ok (json_get json_text j ''runtime_version'') (\<lambda>runtime_version.
     bind_ok (json_get json_text j ''device_name'') (\<lambda>device_name.
     bind_ok (json_get (json_u32 to32) j ''device_id'') (\<lambda>device_id.
     bind_ok (json_get json_text j ''architecture'') (\<lambda>architecture.
     bind_ok (json_get (json_u64 to64) j ''session_id'') (\<lambda>session_id.
     bind_ok (json_get FeatureSet_from_json j ''features'') (\<lambda>features.
     Inr \<lparr>bd_backend = backend, bd_execution_mode = mode, bd_provider_name = provider_name,
          bd_runtime_version = runtime_version, bd_device_name = device_name, bd_device_id = device_id,
          bd_architecture = architecture, bd_session_id = session_id, bd_features = features\<rparr>)))))))))"

definition optional_json :: "('a \<Rightarrow> 'f json) \<Rightarrow> 'a option \<Rightarrow> 'f json" where
  "optional_json f x = (case x of None \<Rightarrow> JNull | Some y \<Rightarrow> f y)"

definition Request_to_json :: "session_request \<Rightarrow> 'f json" where
  "Request_to_json r = JObject
     [(''required_backend'', optional_json (\<lambda>b. JString (BackendKind_ToString b)) (rq_required_backend r)),
      (''preferred_backend'', optional_json (\<lambda>b. JString (BackendKind_ToString b)) (rq_preferred_backend r)),
      (''required_execution_mode'',
         optional_json (\<lambda>m. JString (ExecutionMode_ToString m)) (rq_required_execution_mode r)),
      (''device_id'', optional_json (\<lambda>i. JUnsigned (ucast i)) (rq_device_id r)),
      (''required_features'', FeatureSet_to_json (rq_required_features r)),
      (''fallback_policy'', JString (SessionFallbackPolicy_ToString (rq_fallback_policy r)))]"

definition optional_value ::
    "('f json \<Rightarrow> ('a, json_failure) expected) \<Rightarrow> 'f json \<Rightarrow> string \<Rightarrow> ('a option, json_failure) expected" where
  "optional_value reader j key =
     (case member j key of
        None \<Rightarrow> Inr None
      | Some JNull \<Rightarrow> Inr None
      | Some v \<Rightarrow> bind_ok (reader v) (\<lambda>x. Inr (Some x)))"

definition parse_fallback :: "'f json \<Rightarrow> (session_fallback_policy, json_failure) expected" where
  "parse_fallback v = bind_ok (json_text v) (\<lambda>t.
     if t = ''AllowFallback'' then Inr SFP_AllowFallback else if t = ''Strict'' then Inr SFP_Strict
     else Inl (JF_Other (''invalid fallback_policy: '' @ t)))"

text \<open>The request that is read into keeps its policy when the document has none.\<close>

definition Request_from_json ::
    "('f \<Rightarrow> u32) \<Rightarrow> session_request \<Rightarrow> 'f json \<Rightarrow> (session_request, json_failure) expected" where
  "Request_from_json to32 request j =
     bind_ok (optional_value (parse_backend ''invalid required_backend: '') j ''required_backend'') (\<lambda>required.
     bind_ok (optional_value (parse_backend ''invalid preferred_backend: '') j ''preferred_backend'') (\<lambda>preferred.
     bind_ok (optional_value (parse_mode ''invalid required_execution_mode: '') j ''required_execution_mode'') (\<lambda>mode.
     bind_ok (optional_value (json_u32 to32) j ''device_id'') (\<lambda>device_id.
     bind_ok (json_get FeatureSet_from_json j ''required_features'') (\<lambda>features.
     bind_ok (case member j ''fallback_policy'' of
                None \<Rightarrow> Inr (rq_fallback_policy request) | Some v \<Rightarrow> parse_fallback v) (\<lambda>policy.
     Inr \<lparr>rq_required_backend = required, rq_preferred_backend = preferred, rq_required_execution_mode = mode,
          rq_device_id = device_id, rq_required_features = features, rq_fallback_policy = policy\<rparr>))))))"

definition Diagnostic_to_json :: "session_diagnostic \<Rightarrow> 'f json" where
  "Diagnostic_to_json d = JObject
     [(''provider_name'', JString (sd_provider_name d)), (''backend'', JString (BackendKind_ToString (sd_backend d))),
      (''execution_mode'', JString (ExecutionMode_ToString (sd_execution_mode d))),
      (''device_id'', JUnsigned (ucast (sd_device_id d))),
      (''state'', JString (SessionResolutionState_ToString (sd_state d))), (''detail'', JString (sd_detail d))]"

definition Failure_to_json :: "session_failure \<Rightarrow> 'f json" where
  "Failure_to_json f = JObject
     [(''requested_backend'', optional_json (\<lambda>b. JString (BackendKind_ToString b)) (sf_requested_backend f)),
      (''requested_execution_mode'',
         optional_json (\<lambda>m. JString (ExecutionMode_ToString m)) (sf_requested_execution_mode f)),
      (''detail'', JString (sf_detail f)), (''diagnostics'', JArray (map Diagnostic_to_json (sf_diagnostics f)))]"

definition Resolution_to_json :: "'s session_resolution \<Rightarrow> 'f json" where
  "Resolution_to_json r = JObject
     [(''descriptor'', BackendDescriptor_to_json (sx_descriptor r)),
      (''diagnostics'', JArray (map Diagnostic_to_json (sx_diagnostics r))),
      (''fallback_used'', JBool (sx_fallback_used r))]"

lemmas json_readers = json_get_def json_at.simps optional_value_def parse_backend_def parse_mode_def parse_fallback_def

lemma FeatureSet_roundtrip [simp]: "FeatureSet_from_json (FeatureSet_to_json f) = Inr f"
  by (simp add: FeatureSet_from_json_def FeatureSet_to_json_def json_readers)

lemma parse_session_backend:
  "b \<noteq> BK_Unknown \<Longrightarrow> parse_backend complaint (JString (BackendKind_ToString b)) = Inr b"
  "parse_backend complaint (JString (BackendKind_ToString BK_Unknown)) = Inl (JF_Other (complaint @ ''Unknown''))"
  by (cases b) (simp_all add: parse_backend_def)

lemma parse_mode_name [simp]: "parse_mode complaint (JString (ExecutionMode_ToString m)) = Inr m"
  by (cases m) (simp_all add: parse_mode_def)

lemma parse_fallback_name [simp]: "parse_fallback (JString (SessionFallbackPolicy_ToString p)) = Inr p"
  by (cases p) (simp_all add: parse_fallback_def)

lemma ucast_u32_u64 [simp]: "ucast (ucast (w :: u32) :: u64) = w"
  by (rule ucast_down_ucast_id) (simp add: is_down)

lemma BackendDescriptor_roundtrip:
  assumes "bd_backend d \<noteq> BK_Unknown"
  shows "BackendDescriptor_from_json to32 to64 (BackendDescriptor_to_json d) = Inr d"
  using assms
  by (simp add: BackendDescriptor_from_json_def BackendDescriptor_to_json_def json_get_def parse_session_backend)

lemma optional_value_Some:
  "member j key = Some v \<Longrightarrow> v \<noteq> JNull \<Longrightarrow> optional_value reader j key = bind_ok (reader v) (\<lambda>x. Inr (Some x))"
  by (cases v) (simp_all add: optional_value_def)

lemma optional_value_json:
  assumes "member j key = Some (optional_json f x)" and "\<And>y. f y \<noteq> JNull"
    and "\<And>y. x = Some y \<Longrightarrow> reader (f y) = Inr y"
  shows "optional_value reader j key = Inr x"
proof (cases x)
  case None
  with assms(1) show ?thesis by (simp add: optional_value_def optional_json_def)
next
  case (Some y)
  with assms show ?thesis by (simp add: optional_value_Some optional_json_def)
qed

lemma Request_roundtrip:
  assumes "rq_required_backend r \<noteq> Some BK_Unknown" and "rq_preferred_backend r \<noteq> Some BK_Unknown"
  shows "Request_from_json to32 request (Request_to_json r) = Inr r"
proof -
  let ?j = "Request_to_json r"
  have backends: "optional_value (parse_backend ''invalid required_backend: '') ?j ''required_backend'' =
      Inr (rq_required_backend r)"
    "optional_value (parse_backend ''invalid preferred_backend: '') ?j ''preferred_backend'' =
      Inr (rq_preferred_backend r)"
    by (rule optional_value_json [where f = "\<lambda>b. JString (BackendKind_ToString b)"],
        use assms in \<open>auto simp: Request_to_json_def intro: parse_session_backend(1)\<close>)+
  have mode: "optional_value (parse_mode ''invalid required_execution_mode: '') ?j ''required_execution_mode'' =
      Inr (rq_required_execution_mode r)"
    by (rule optional_value_json [where f = "\<lambda>m. JString (ExecutionMode_ToString m)"]) (simp_all add: Request_to_json_def)
  have device: "optional_value (json_u32 to32) ?j ''device_id'' = Inr (rq_device_id r)"
    by (rule optional_value_json [where f = "\<lambda>i. JUnsigned (ucast i)"]) (simp_all add: Request_to_json_def)
  have features: "json_get FeatureSet_from_json ?j ''required_features'' = Inr (rq_required_features r)"
    by (simp add: json_get_def Request_to_json_def)
  have policy: "member ?j ''fallback_policy'' = Some (JString (SessionFallbackPolicy_ToString (rq_fallback_policy r)))"
    by (simp add: Request_to_json_def)
  show ?thesis by (simp add: Request_from_json_def backends mode device features policy)
qed

section \<open>The registry\<close>

text \<open>The enumerations compare by their numbers.\<close>

fun backend_number :: "backend_kind \<Rightarrow> nat" where
  "backend_number BK_Unknown = 0" | "backend_number BK_CPU = 1" | "backend_number BK_CUDA = 2" | "backend_number BK_Metal = 3"

fun mode_number :: "execution_mode \<Rightarrow> nat" where
  "mode_number EM_Native = 0" | "mode_number EM_Stub = 1" | "mode_number EM_Simulated = 2"
| "mode_number EM_CpuFallback = 3" | "mode_number EM_Unavailable = 4"

lemma backend_number_inj: "backend_number a = backend_number b \<Longrightarrow> a = b"
  by (cases a; cases b) simp_all

lemma mode_number_inj: "mode_number a = mode_number b \<Longrightarrow> a = b"
  by (cases a; cases b) simp_all

instantiation backend_kind :: linorder
begin

definition less_eq_backend_kind :: "backend_kind \<Rightarrow> backend_kind \<Rightarrow> bool" where
  "less_eq_backend_kind a b \<longleftrightarrow> backend_number a \<le> backend_number b"

definition less_backend_kind :: "backend_kind \<Rightarrow> backend_kind \<Rightarrow> bool" where
  "less_backend_kind a b \<longleftrightarrow> backend_number a < backend_number b"

instance
  by standard (auto simp: less_eq_backend_kind_def less_backend_kind_def backend_number_inj)

end

instantiation execution_mode :: linorder
begin

definition less_eq_execution_mode :: "execution_mode \<Rightarrow> execution_mode \<Rightarrow> bool" where
  "less_eq_execution_mode a b \<longleftrightarrow> mode_number a \<le> mode_number b"

definition less_execution_mode :: "execution_mode \<Rightarrow> execution_mode \<Rightarrow> bool" where
  "less_execution_mode a b \<longleftrightarrow> mode_number a < mode_number b"

instance
  by standard (auto simp: less_eq_execution_mode_def less_execution_mode_def mode_number_inj)

end

record 's session_registry =
  sr_sessions :: "'s list"
  sr_session_ids :: "u64 set"

definition empty_registry :: "'s session_registry" where
  "empty_registry = \<lparr>sr_sessions = [], sr_session_ids = {}\<rparr>"

definition session_order :: "backend_descriptor \<Rightarrow> backend_kind \<times> execution_mode \<times> u32 \<times> string \<times> u64" where
  "session_order d = (bd_backend d, bd_execution_mode d, bd_device_id d, bd_provider_name d, bd_session_id d)"

definition Register :: "('s \<Rightarrow> backend_descriptor) \<Rightarrow> ('s \<Rightarrow> bool) \<Rightarrow> 's option \<Rightarrow> 's session_registry
    \<Rightarrow> (unit, session_validation_error) expected \<times> 's session_registry" where
  "Register describe capable session reg =
     (case session of
        None \<Rightarrow> (Inl (SV_MissingProviderName, ''session must not be null''), reg)
      | Some s \<Rightarrow>
          (case ValidateDescriptor (describe s) of
             Some e \<Rightarrow> (Inl e, reg)
           | None \<Rightarrow>
               if \<not> capable s
               then (Inl (SV_MissingAdvertisedCapability,
                          ''advertised feature set does not match provider capabilities''), reg)
               else if bd_session_id (describe s) \<in> sr_session_ids reg
               then (Inl (SV_DuplicateSessionId, ''session_id is already registered''), reg)
               else (Inr (), \<lparr>sr_sessions = sort_key (\<lambda>t. session_order (describe t)) (sr_sessions reg @ [s]),
                              sr_session_ids = insert (bd_session_id (describe s)) (sr_session_ids reg)\<rparr>)))"

definition append_indices :: "'s list \<Rightarrow> ('s \<Rightarrow> bool) \<Rightarrow> nat list \<Rightarrow> nat list" where
  "append_indices sessions P ordered =
     fold (\<lambda>i acc. if P (sessions ! i) \<and> i \<notin> set acc then acc @ [i] else acc) [0..<length sessions] ordered"

definition ordered_indices :: "('s \<Rightarrow> backend_descriptor) \<Rightarrow> session_request \<Rightarrow> 's list \<Rightarrow> nat list" where
  "ordered_indices describe request sessions =
     (case rq_required_backend request of
        Some b \<Rightarrow> append_indices sessions (\<lambda>s. bd_backend (describe s) = b) []
      | None \<Rightarrow>
          (case rq_preferred_backend request of
             Some b \<Rightarrow>
               (let preferred = append_indices sessions (\<lambda>s. bd_backend (describe s) = b) []
                in if rq_fallback_policy request = SFP_AllowFallback
                   then append_indices sessions (\<lambda>s. True) preferred else preferred)
           | None \<Rightarrow> append_indices sessions (\<lambda>s. True) []))"

definition diagnose :: "backend_descriptor \<Rightarrow> session_resolution_state \<Rightarrow> string \<Rightarrow> session_diagnostic" where
  "diagnose d state detail = \<lparr>sd_provider_name = bd_provider_name d, sd_backend = bd_backend d,
     sd_execution_mode = bd_execution_mode d, sd_device_id = bd_device_id d, sd_state = state, sd_detail = detail\<rparr>"

fun resolve_loop :: "('s \<Rightarrow> backend_descriptor) \<Rightarrow> session_request \<Rightarrow> 's list \<Rightarrow> nat list \<Rightarrow> session_diagnostic list
    \<Rightarrow> ('s session_resolution, session_diagnostic list) expected" where
  "resolve_loop describe request sessions [] diagnostics = Inl diagnostics"
| "resolve_loop describe request sessions (i # is) diagnostics =
     (let d = describe (sessions ! i) in
      if \<not> Matches request d
      then resolve_loop describe request sessions is
             (diagnostics @ [diagnose d SRS_Rejected ''descriptor does not satisfy request requirements''])
      else
        let fallback_used = (rq_preferred_backend request \<noteq> None \<and> rq_preferred_backend request \<noteq> Some (bd_backend d))
        in Inr \<lparr>sx_session = sessions ! i, sx_descriptor = d,
                sx_diagnostics = diagnostics @ [diagnose d (if fallback_used then SRS_Fallback else SRS_Selected)
                  (if fallback_used then ''resolved through fallback'' else ''resolved'')],
                sx_fallback_used = fallback_used\<rparr>)"

definition Resolve :: "('s \<Rightarrow> backend_descriptor) \<Rightarrow> session_request \<Rightarrow> 's session_registry
    \<Rightarrow> ('s session_resolution, session_failure) expected" where
  "Resolve describe request reg =
     (if sr_sessions reg = []
      then Inl \<lparr>sf_requested_backend = rq_required_backend request,
                sf_requested_execution_mode = rq_required_execution_mode request,
                sf_detail = ''no accelerator sessions are registered'', sf_diagnostics = []\<rparr>
      else
        case resolve_loop describe request (sr_sessions reg) (ordered_indices describe request (sr_sessions reg)) [] of
          Inr r \<Rightarrow> Inr r
        | Inl diagnostics \<Rightarrow>
            Inl \<lparr>sf_requested_backend = rq_required_backend request,
                 sf_requested_execution_mode = rq_required_execution_mode request,
                 sf_detail = (if rq_required_backend request \<noteq> None
                   then ''no registered accelerator session matched the required backend''
                   else ''no registered accelerator session satisfied the request''),
                 sf_diagnostics = diagnostics\<rparr>)"

section \<open>What registration keeps\<close>

definition acceptable :: "('s \<Rightarrow> backend_descriptor) \<Rightarrow> ('s \<Rightarrow> bool) \<Rightarrow> 's \<Rightarrow> bool" where
  "acceptable describe capable s \<longleftrightarrow> ValidateDescriptor (describe s) = None \<and> capable s"

definition registry_inv :: "('s \<Rightarrow> backend_descriptor) \<Rightarrow> ('s \<Rightarrow> bool) \<Rightarrow> 's session_registry \<Rightarrow> bool" where
  "registry_inv describe capable reg \<longleftrightarrow>
     sorted (map (\<lambda>s. session_order (describe s)) (sr_sessions reg)) \<and>
     distinct (map (\<lambda>s. bd_session_id (describe s)) (sr_sessions reg)) \<and>
     sr_session_ids reg = (\<lambda>s. bd_session_id (describe s)) ` set (sr_sessions reg) \<and>
     list_all (acceptable describe capable) (sr_sessions reg)"

definition register_all :: "('s \<Rightarrow> backend_descriptor) \<Rightarrow> ('s \<Rightarrow> bool) \<Rightarrow> 's option list \<Rightarrow> 's session_registry
    \<Rightarrow> 's session_registry" where
  "register_all describe capable ss reg = fold (\<lambda>s r. snd (Register describe capable s r)) ss reg"

lemma registry_inv_empty: "registry_inv describe capable empty_registry"
  by (simp add: registry_inv_def empty_registry_def)

lemma distinct_map_mset: "mset xs = mset ys \<Longrightarrow> distinct (map f xs) \<longleftrightarrow> distinct (map f ys)"
  by (metis mset_eq_imp_distinct_iff mset_map)

lemma Register_accepts:
  "acceptable describe capable s \<Longrightarrow> bd_session_id (describe s) \<notin> sr_session_ids reg \<Longrightarrow>
   Register describe capable (Some s) reg =
     (Inr (), \<lparr>sr_sessions = sort_key (\<lambda>t. session_order (describe t)) (sr_sessions reg @ [s]),
               sr_session_ids = insert (bd_session_id (describe s)) (sr_session_ids reg)\<rparr>)"
  by (simp add: Register_def acceptable_def)

lemma Register_refuses:
  "\<not> (\<exists>s. session = Some s \<and> acceptable describe capable s \<and> bd_session_id (describe s) \<notin> sr_session_ids reg) \<Longrightarrow>
   snd (Register describe capable session reg) = reg \<and> \<not> has_value (fst (Register describe capable session reg))"
  by (auto simp: Register_def acceptable_def split: option.split)

lemma Register_inv:
  assumes "registry_inv describe capable reg"
  shows "registry_inv describe capable (snd (Register describe capable session reg))"
proof (cases "\<exists>s. session = Some s \<and> acceptable describe capable s \<and> bd_session_id (describe s) \<notin> sr_session_ids reg")
  case True
  then obtain s where s: "session = Some s" "acceptable describe capable s"
    "bd_session_id (describe s) \<notin> sr_session_ids reg" by blast
  let ?order = "\<lambda>t. session_order (describe t)" and ?sid = "\<lambda>t. bd_session_id (describe t)"
  have "distinct (map ?sid (sort_key ?order (sr_sessions reg @ [s])))"
    using assms s(3) distinct_map_mset [of "sort_key ?order (sr_sessions reg @ [s])" "sr_sessions reg @ [s]" ?sid]
    by (simp add: registry_inv_def)
  then show ?thesis
    using assms s Register_accepts [of describe capable s reg] by (auto simp: registry_inv_def list_all_iff)
next
  case False
  from Register_refuses [OF this] assms show ?thesis by simp
qed

lemma register_all_inv:
  "registry_inv describe capable reg \<Longrightarrow> registry_inv describe capable (register_all describe capable ss reg)"
  unfolding register_all_def by (induction ss arbitrary: reg) (auto intro: Register_inv)

text \<open>With distinct identifiers, what is registered is what is acceptable, in the order of the descriptors.\<close>

lemma register_all_mset:
  assumes "distinct (map (\<lambda>s. bd_session_id (describe s)) ss)"
    and "\<forall>s \<in> set ss. bd_session_id (describe s) \<notin> sr_session_ids reg"
  shows "mset (sr_sessions (register_all describe capable (map Some ss) reg)) =
      mset (sr_sessions reg) + mset (filter (acceptable describe capable) ss) \<and>
    sr_session_ids (register_all describe capable (map Some ss) reg) =
      sr_session_ids reg \<union> (\<lambda>s. bd_session_id (describe s)) ` set (filter (acceptable describe capable) ss)"
  using assms
proof (induction ss arbitrary: reg)
  case Nil
  then show ?case by (simp add: register_all_def)
next
  case (Cons s ss)
  let ?reg = "snd (Register describe capable (Some s) reg)"
  have step: "register_all describe capable (map Some (s # ss)) reg = register_all describe capable (map Some ss) ?reg"
    by (simp add: register_all_def)
  show ?case
  proof (cases "acceptable describe capable s")
    case True
    with Cons.prems have reg: "?reg = \<lparr>sr_sessions = sort_key (\<lambda>t. session_order (describe t)) (sr_sessions reg @ [s]),
        sr_session_ids = insert (bd_session_id (describe s)) (sr_session_ids reg)\<rparr>"
      by (simp add: Register_accepts)
    have "\<forall>t \<in> set ss. bd_session_id (describe t) \<notin> sr_session_ids ?reg"
      using Cons.prems by (auto simp: reg) (metis image_eqI)
    from Cons.IH [OF _ this] Cons.prems(1) True show ?thesis unfolding step by (auto simp: reg)
  next
    case False
    then have "?reg = reg" using Register_refuses [of "Some s" describe capable reg] by simp
    with False Cons.IH [of reg] Cons.prems show ?thesis unfolding step by simp
  qed
qed

text \<open>
  C36. The order of registration does not matter. Registering the same sessions, whose identifiers
  are distinct, in another order gives the same registry, so every request is resolved alike.
\<close>

theorem registration_order_is_irrelevant:
  assumes "mset xs = mset ys" and "distinct (map (\<lambda>s. bd_session_id (describe s)) xs)"
  shows "register_all describe capable (map Some xs) empty_registry =
    register_all describe capable (map Some ys) empty_registry"
proof -
  let ?X = "register_all describe capable (map Some xs) empty_registry"
    and ?Y = "register_all describe capable (map Some ys) empty_registry"
    and ?order = "\<lambda>s. session_order (describe s)" and ?sid = "\<lambda>s. bd_session_id (describe s)"
  have ys: "distinct (map ?sid ys)" using assms distinct_map_mset by blast
  have sets: "set xs = set ys" using assms(1) by (rule mset_eq_setD)
  have mset: "mset (sr_sessions ?X) = mset (sr_sessions ?Y)" and ids: "sr_session_ids ?X = sr_session_ids ?Y"
    using register_all_mset [OF assms(2), of empty_registry capable] register_all_mset [OF ys, of empty_registry capable]
      assms(1) sets by (simp_all add: empty_registry_def mset_filter)
  have inv: "registry_inv describe capable ?X" "registry_inv describe capable ?Y"
    by (rule register_all_inv, rule registry_inv_empty)+
  then have inj: "inj_on ?order (set (sr_sessions ?X))"
    by (auto simp: registry_inv_def distinct_map session_order_def inj_on_def)
  have "sr_sessions ?X = sort_key ?order (sr_sessions ?X)"
    using sort_key_inj_key_eq [OF refl inj] inv(1) by (simp add: registry_inv_def)
  also have "\<dots> = sr_sessions ?Y"
    using sort_key_inj_key_eq [OF mset inj] inv(2) by (simp add: registry_inv_def)
  finally show ?thesis using ids by simp
qed

section \<open>What a request is resolved to\<close>

lemma append_indices_filter:
  "append_indices sessions P ordered =
     ordered @ filter (\<lambda>i. P (sessions ! i) \<and> i \<notin> set ordered) [0..<length sessions]"
proof -
  have "fold (\<lambda>i acc. if P (sessions ! i) \<and> i \<notin> set acc then acc @ [i] else acc) is (ordered @ extra) =
      ordered @ extra @ filter (\<lambda>i. P (sessions ! i) \<and> i \<notin> set ordered) is"
    if "distinct is" "set extra \<inter> set is = {}" for extra "is"
    using that
  proof (induction "is" arbitrary: extra)
    case (Cons i "is")
    from Cons.IH [of "extra @ [i]"] Cons.IH [of extra] Cons.prems show ?case by auto
  qed simp
  from this [of "[0..<length sessions]" "[]"] show ?thesis by (simp add: append_indices_def)
qed

lemma sessions_of_indices:
  "map ((!) sessions) (filter (\<lambda>i. P (sessions ! i)) [0..<length sessions]) = filter P sessions"
proof -
  have "filter P (map ((!) sessions) [0..<length sessions]) =
      map ((!) sessions) (filter (\<lambda>i. P (sessions ! i)) [0..<length sessions])"
    by (simp add: filter_map comp_def)
  then show ?thesis by (simp add: map_nth)
qed

text \<open>The sessions that are considered, in the order in which they are.\<close>

definition wanted :: "session_request \<Rightarrow> backend_descriptor \<Rightarrow> bool" where
  "wanted request d \<longleftrightarrow>
     (case rq_required_backend request of
        Some b \<Rightarrow> bd_backend d = b
      | None \<Rightarrow> (case rq_preferred_backend request of Some b \<Rightarrow> bd_backend d = b | None \<Rightarrow> True))"

definition considered :: "session_request \<Rightarrow> backend_descriptor \<Rightarrow> bool" where
  "considered request d \<longleftrightarrow> wanted request d \<or>
     rq_required_backend request = None \<and> rq_fallback_policy request = SFP_AllowFallback"

lemma ordered_sessions:
  "map ((!) sessions) (ordered_indices describe request sessions) =
     filter (\<lambda>s. wanted request (describe s)) sessions @
     filter (\<lambda>s. \<not> wanted request (describe s) \<and> considered request (describe s)) sessions"
proof -
  have rest: "map ((!) sessions) (filter (\<lambda>i. i \<notin> set (filter (\<lambda>i. P (sessions ! i)) [0..<length sessions]))
      [0..<length sessions]) = filter (\<lambda>s. \<not> P s) sessions" for P
  proof -
    have "filter (\<lambda>i. i \<notin> set (filter (\<lambda>i. P (sessions ! i)) [0..<length sessions])) [0..<length sessions] =
        filter (\<lambda>i. \<not> P (sessions ! i)) [0..<length sessions]"
      by (rule filter_cong) auto
    then show ?thesis using sessions_of_indices [of sessions "\<lambda>s. \<not> P s"] by simp
  qed
  note backend = sessions_of_indices [of sessions "\<lambda>s. bd_backend (describe s) = b" for b]
    rest [of "\<lambda>s. bd_backend (describe s) = b" for b]
  show ?thesis
    by (simp add: ordered_indices_def append_indices_filter wanted_def considered_def backend map_nth Let_def
        split: option.split del: set_filter)
qed

definition resolved :: "('s \<Rightarrow> backend_descriptor) \<Rightarrow> session_request \<Rightarrow> 's \<Rightarrow> session_diagnostic list \<Rightarrow> 's session_resolution" where
  "resolved describe request s diagnostics =
     (let d = describe s;
          fallback_used = (rq_preferred_backend request \<noteq> None \<and> rq_preferred_backend request \<noteq> Some (bd_backend d))
      in \<lparr>sx_session = s, sx_descriptor = d,
          sx_diagnostics = diagnostics @ [diagnose d (if fallback_used then SRS_Fallback else SRS_Selected)
            (if fallback_used then ''resolved through fallback'' else ''resolved'')],
          sx_fallback_used = fallback_used\<rparr>)"

definition rejection :: "backend_descriptor \<Rightarrow> session_diagnostic" where
  "rejection d = diagnose d SRS_Rejected ''descriptor does not satisfy request requirements''"

lemma resolve_loop_find:
  "resolve_loop describe request sessions is diagnostics =
     (case find (\<lambda>s. Matches request (describe s)) (map ((!) sessions) is) of
        None \<Rightarrow> Inl (diagnostics @ map (\<lambda>i. rejection (describe (sessions ! i))) is)
      | Some s \<Rightarrow> Inr (resolved describe request s (diagnostics @
          map (\<lambda>i. rejection (describe (sessions ! i)))
            (takeWhile (\<lambda>i. \<not> Matches request (describe (sessions ! i))) is))))"
  by (induction "is" arbitrary: diagnostics) (auto simp: Let_def resolved_def rejection_def split: option.split)

text \<open>The first element of a sorted list that has a property is the least one.\<close>

lemma find_least:
  assumes "find P xs = Some x" and "sorted (map f xs)"
  shows "x \<in> set xs \<and> P x \<and> (\<forall>y \<in> set xs. P y \<longrightarrow> f x \<le> f y)"
  using assms by (induction xs) (auto split: if_splits)

definition preference :: "('s \<Rightarrow> backend_descriptor) \<Rightarrow> session_request \<Rightarrow> 's
    \<Rightarrow> bool \<times> backend_kind \<times> execution_mode \<times> u32 \<times> string \<times> u64" where
  "preference describe request s = (\<not> wanted request (describe s), session_order (describe s))"

lemma ordered_sorted:
  assumes "sorted (map (\<lambda>s. session_order (describe s)) sessions)"
  shows "sorted (map (preference describe request) (map ((!) sessions) (ordered_indices describe request sessions)))"
proof -
  let ?order = "\<lambda>s. session_order (describe s)"
  have sorted: "sorted (map ?order (filter P sessions))" for P
    using assms by (rule sorted_filter)
  have part: "sorted (map (preference describe request) (filter (\<lambda>s. wanted request (describe s) = w \<and> Q s) sessions))" for w Q
    using sorted [of "\<lambda>s. wanted request (describe s) = w \<and> Q s"]
    by (auto simp: sorted_wrt_map preference_def intro: sorted_wrt_mono_rel [rotated])
  show ?thesis
    unfolding ordered_sessions map_append sorted_append
    using part [of True "\<lambda>_. True"] part [of False "\<lambda>s. considered request (describe s)"]
    by (auto simp: preference_def less_eq_prod_def)
qed

text \<open>
  C35. Resolution of requests. In every registry built by registrations a request is refused
  exactly when no registered session of a considered backend matches it. Otherwise the session
  chosen matches, and is the least such session: a session of the wanted backend (the required
  or, if none is required, the preferred one) goes before any other, and among these the order of
  backend, mode, device, provider and identifier decides. Fallback is reported exactly when a
  backend was preferred and the chosen one is another.
\<close>

theorem Resolve_chooses_least:
  fixes request describe capable ss
  defines "reg \<equiv> register_all describe capable ss empty_registry"
    and "ok \<equiv> \<lambda>s. considered request (describe s) \<and> Matches request (describe s)"
  shows "case Resolve describe request reg of
      Inl e \<Rightarrow> list_all (\<lambda>s. \<not> ok s) (sr_sessions reg)
    | Inr r \<Rightarrow> sx_session r \<in> set (sr_sessions reg) \<and> ok (sx_session r) \<and>
        list_all (\<lambda>s. ok s \<longrightarrow> preference describe request (sx_session r) \<le> preference describe request s)
          (sr_sessions reg) \<and>
        sx_descriptor r = describe (sx_session r) \<and>
        sx_fallback_used r = (rq_preferred_backend request \<notin> {None, Some (bd_backend (sx_descriptor r))})"
proof -
  let ?c = "map ((!) (sr_sessions reg)) (ordered_indices describe request (sr_sessions reg))"
  let ?m = "\<lambda>s. Matches request (describe s)"
  have inv: "sorted (map (\<lambda>s. session_order (describe s)) (sr_sessions reg))"
    using register_all_inv [OF registry_inv_empty, of describe capable ss] by (simp add: reg_def registry_inv_def)
  have mem: "s \<in> set ?c \<longleftrightarrow> s \<in> set (sr_sessions reg) \<and> considered request (describe s)" for s
    unfolding ordered_sessions by (auto simp: considered_def)
  show ?thesis
  proof (cases "find ?m ?c")
    case None
    then have "\<forall>s \<in> set ?c. \<not> ?m s" unfolding find_None_iff by blast
    then have "list_all (\<lambda>s. \<not> ok s) (sr_sessions reg)" using mem unfolding list_all_iff ok_def by blast
    with None show ?thesis by (auto simp: Resolve_def resolve_loop_find)
  next
    case (Some s)
    from find_least [OF Some ordered_sorted [OF inv]] have s: "s \<in> set ?c" "?m s"
      "\<And>t. t \<in> set ?c \<Longrightarrow> ?m t \<Longrightarrow> preference describe request s \<le> preference describe request t" by auto
    then have "sr_sessions reg \<noteq> []" using mem by auto
    moreover have "list_all (\<lambda>t. ok t \<longrightarrow> preference describe request s \<le> preference describe request t) (sr_sessions reg)"
      using s(3) mem by (auto simp: list_all_iff ok_def)
    ultimately show ?thesis
      using Some s(1,2) mem by (auto simp: Resolve_def resolve_loop_find resolved_def Let_def ok_def)
  qed
qed

definition example_cpu :: backend_descriptor where
  "example_cpu = \<lparr>bd_backend = BK_CPU, bd_execution_mode = EM_CpuFallback, bd_provider_name = ''cpu'',
     bd_runtime_version = [], bd_device_name = [], bd_device_id = 0, bd_architecture = [], bd_session_id = 1,
     bd_features = no_features\<lparr>fs_execution := True\<rparr>\<rparr>"

definition example_stub :: backend_descriptor where
  "example_stub = \<lparr>bd_backend = BK_CUDA, bd_execution_mode = EM_Stub, bd_provider_name = ''stub'',
     bd_runtime_version = [], bd_device_name = [], bd_device_id = 0, bd_architecture = [], bd_session_id = 2,
     bd_features = no_features\<rparr>"

definition example_request :: session_request where
  "example_request = \<lparr>rq_required_backend = None, rq_preferred_backend = Some BK_CUDA,
     rq_required_execution_mode = None, rq_device_id = None,
     rq_required_features = no_features\<lparr>fs_execution := True\<rparr>, rq_fallback_policy = SFP_AllowFallback\<rparr>"

lemmas example_session_defs = example_cpu_def example_stub_def example_request_def no_features_def

lemma example_sessions:
  "sr_sessions (register_all (\<lambda>d. d) (\<lambda>d. True) [Some example_stub, Some example_cpu] empty_registry) =
     [example_cpu, example_stub]"
  by (simp add: register_all_def Register_def empty_registry_def ValidateDescriptor_def example_session_defs
      session_order_def less_eq_prod_def less_prod_def less_eq_backend_kind_def less_backend_kind_def)

lemma example_matches:
  "Matches example_request example_cpu" "\<not> Matches example_request example_stub"
  "considered example_request example_cpu"
  by (simp_all add: Matches_def Satisfies_def considered_def example_session_defs)

theorem registration_order_is_irrelevant_witness:
  "register_all (\<lambda>d. d) (\<lambda>d. True) (map Some [example_stub, example_cpu]) empty_registry =
   register_all (\<lambda>d. d) (\<lambda>d. True) (map Some [example_cpu, example_stub]) empty_registry"
  by (rule registration_order_is_irrelevant) (simp_all add: example_session_defs)

text \<open>The stub of the preferred backend cannot execute, so the CPU session is chosen as a fallback.\<close>

theorem Resolve_chooses_least_witness:
  "case Resolve (\<lambda>d. d) example_request
      (register_all (\<lambda>d. d) (\<lambda>d. True) [Some example_stub, Some example_cpu] empty_registry) of
    Inl e \<Rightarrow> False | Inr r \<Rightarrow> sx_session r = example_cpu \<and> sx_fallback_used r"
  using Resolve_chooses_least [of example_request "\<lambda>d. d" "\<lambda>d. True" "[Some example_stub, Some example_cpu]"]
  by (auto simp: example_sessions example_matches split: sum.splits)
    (simp_all add: example_request_def example_cpu_def)

text \<open>
  JSON round trips. A descriptor with a known backend, and a request that names only known
  backends, are read back from their JSON form, whatever the request had contained before and
  however floating-point numbers are converted.
\<close>

theorem session_json_roundtrip:
  assumes "bd_backend d \<noteq> BK_Unknown" and "rq_required_backend r \<noteq> Some BK_Unknown"
    and "rq_preferred_backend r \<noteq> Some BK_Unknown"
  shows "BackendDescriptor_from_json to32 to64 (BackendDescriptor_to_json d) = Inr d \<and>
    Request_from_json to32 r' (Request_to_json r) = Inr r"
  using BackendDescriptor_roundtrip [OF assms(1)] Request_roundtrip [OF assms(2,3)] by blast

theorem session_json_roundtrip_witness:
  "BackendDescriptor_from_json (\<lambda>x :: unit. 0) (\<lambda>x. 0) (BackendDescriptor_to_json example_cpu) = Inr example_cpu"
  using session_json_roundtrip [of example_cpu example_request "\<lambda>x :: unit. 0" "\<lambda>x. 0" example_request]
  by (simp add: example_session_defs)

text \<open>The default backend of a descriptor is written and then refused.\<close>

lemma unknown_backend_is_not_read:
  assumes "bd_backend d = BK_Unknown"
  shows "BackendDescriptor_from_json to32 to64 (BackendDescriptor_to_json d) =
    Inl (JF_Other ''invalid accelerator backend: Unknown'')"
  using assms by (simp add: BackendDescriptor_from_json_def BackendDescriptor_to_json_def json_get_def parse_backend_def)

section \<open>Sessions by key\<close>

text \<open>
  The registry of \<open>libaccelgraph\<close>: any number of sessions may be registered under a key, and a key
  is resolved only when there is exactly one. The diagnostic is the text of the error, whose
  other fields are constant.
\<close>

type_synonym 's keyed_sessions = "string \<rightharpoonup> 's list"

definition RegisterSession :: "string \<Rightarrow> 's option \<Rightarrow> 's keyed_sessions \<Rightarrow> bool \<times> 's keyed_sessions" where
  "RegisterSession key session m =
     (case session of
        None \<Rightarrow> (False, m)
      | Some s \<Rightarrow>
          if key = [] then (False, m)
          else (True, m(key \<mapsto> (case m key of None \<Rightarrow> [] | Some ss \<Rightarrow> ss) @ [s])))"

definition ResolveExactlyOne :: "string \<Rightarrow> 's keyed_sessions \<Rightarrow> ('s, string) expected" where
  "ResolveExactlyOne key m =
     (if key = [] then Inl ''session registry key must not be empty''
      else case m key of
        None \<Rightarrow> Inl (''no session registered for key '' @ [CHR 39] @ key @ [CHR 39])
      | Some ss \<Rightarrow>
          if ss = [] then Inl (''no session registered for key '' @ [CHR 39] @ key @ [CHR 39])
          else if length ss \<noteq> 1 then Inl (''expected exactly one session for key '' @ [CHR 39] @ key @ [CHR 39])
          else Inr (hd ss))"

definition register_keyed :: "(string \<times> 's option) list \<Rightarrow> 's keyed_sessions" where
  "register_keyed calls = fold (\<lambda>(key, s) m. snd (RegisterSession key s m)) calls Map.empty"

lemma register_keyed_sessions:
  "key \<noteq> [] \<Longrightarrow> (case fold (\<lambda>(key, s) m. snd (RegisterSession key s m)) calls m key of None \<Rightarrow> [] | Some ss \<Rightarrow> ss) =
     (case m key of None \<Rightarrow> [] | Some ss \<Rightarrow> ss) @ List.map_filter (\<lambda>(k, s). if k = key then s else None) calls"
  by (induction calls arbitrary: m)
    (auto simp: RegisterSession_def map_filter_simps split: option.splits if_splits)

text \<open>After any registrations a key is resolved exactly to the only session registered under it.\<close>

lemma ResolveExactlyOne_iff:
  "ResolveExactlyOne key (register_keyed calls) = Inr s \<longleftrightarrow>
     key \<noteq> [] \<and> List.map_filter (\<lambda>(k, s). if k = key then s else None) calls = [s]"
proof (cases "key = []")
  case False
  have "(case register_keyed calls key of None \<Rightarrow> [] | Some ss \<Rightarrow> ss) =
      List.map_filter (\<lambda>(k, s). if k = key then s else None) calls"
    using register_keyed_sessions [OF False, of calls Map.empty] by (simp add: register_keyed_def)
  with False show ?thesis
    by (auto simp: ResolveExactlyOne_def length_Suc_conv split: option.splits)
qed (simp add: ResolveExactlyOne_def)

end
