(* ===== verification/Direct_Session.thy ===== *)
theory Direct_Session
  imports Accel_Registry
begin

text \<open>
  The sessions that \<open>libgpu/src/gpu/AcceleratorSessionProviders.cpp\<close> provides: \<open>DirectSession\<close> allocates
  buffers in host memory, copies between them at once and hands out queues and events; stub
  sessions have no features. The types of views, leases and tickets
  (\<open>libgpu/include/gpu/accel/types/AccelTypes.hpp\<close>) and their validity (\<open>AccelValidation.hpp\<close>) come first.

  Memory is a map from the addresses of live blocks to their bytes. A pointer is null or the
  address of a block; what an allocation returns is an argument (\<open>None\<close>: \<open>bad_alloc\<close>). \<open>memcpy\<close> that
  touches a dead block, leaves a block or overlaps itself is undefined: the operation has the
  result \<open>None\<close>. Methods run under a mutex, so a run of the session is a sequence of calls.
\<close>

section \<open>Views, leases and tickets\<close>

datatype data_type = DT_Unknown | DT_Float16 | DT_Float32 | DT_Float64 | DT_Int8 | DT_UInt8 | DT_Int16 | DT_UInt16
  | DT_Int32 | DT_UInt32 | DT_Int64 | DT_UInt64

datatype release_policy = RP_Manual | RP_AutoOnNodeCompletion | RP_AutoOnGraphCompletion

datatype collective_kind = CK_Unknown | CK_AllReduce | CK_AllGather | CK_ReduceScatter

definition kMaxTensorRank :: nat where "kMaxTensorRank = 8"

record tensor_layout =
  tl_rank :: u8
  tl_shape :: "u64 list"
  tl_stride :: "u64 list"

record device_buffer_view =
  dv_backend :: backend_kind
  dv_session_id :: u64
  dv_device_ptr :: "nat option"
  dv_bytes :: u64
  dv_dtype :: data_type
  dv_layout :: tensor_layout
  dv_device_id :: u32
  dv_execution_queue_id :: u64
  dv_ready_event :: u64

record host_buffer_view =
  hv_backend :: backend_kind
  hv_session_id :: u64
  hv_host_ptr :: "nat option"
  hv_bytes :: u64
  hv_dtype :: data_type
  hv_layout :: tensor_layout
  hv_allocator_id :: u64

record buffer_lease =
  bl_session_id :: u64
  bl_pool_id :: u64
  bl_allocation_id :: u64
  bl_release_policy :: release_policy
  bl_device_view :: device_buffer_view
  bl_host_view :: host_buffer_view

record transfer_ticket =
  tt_backend :: backend_kind
  tt_session_id :: u64
  tt_transfer_id :: u64
  tt_execution_queue_id :: u64
  tt_completion_event :: u64
  tt_dst_device :: device_buffer_view
  tt_src_host :: host_buffer_view
  tt_src_device :: device_buffer_view
  tt_dst_host :: host_buffer_view

record kernel_launch_config =
  kl_grid_x :: u32
  kl_grid_y :: u32
  kl_grid_z :: u32
  kl_block_x :: u32
  kl_block_y :: u32
  kl_block_z :: u32
  kl_shared_mem_bytes :: u32

record kernel_ticket =
  kt_backend :: backend_kind
  kt_session_id :: u64
  kt_kernel_id :: u64
  kt_launch :: kernel_launch_config
  kt_arg_count :: u32
  kt_execution_queue_id :: u64
  kt_completion_event :: u64

record device_shard_descriptor =
  sh_global_layout :: tensor_layout
  sh_shard_index :: u32
  sh_shard_count :: u32
  sh_owning_device_id :: u32
  sh_element_offset :: u64
  sh_element_length :: u64

record collective_ticket =
  ct_backend :: backend_kind
  ct_kind :: collective_kind
  ct_group_id :: u64
  ct_rank :: u32
  ct_world_size :: u32
  ct_execution_queue_id :: u64
  ct_completion_event :: u64

definition default_layout :: tensor_layout where
  "default_layout = \<lparr>tl_rank = 0, tl_shape = replicate kMaxTensorRank 0, tl_stride = replicate kMaxTensorRank 0\<rparr>"

definition default_device_view :: device_buffer_view where
  "default_device_view = \<lparr>dv_backend = BK_Unknown, dv_session_id = 0, dv_device_ptr = None, dv_bytes = 0,
     dv_dtype = DT_Unknown, dv_layout = default_layout, dv_device_id = 0, dv_execution_queue_id = 0, dv_ready_event = 0\<rparr>"

definition default_host_view :: host_buffer_view where
  "default_host_view = \<lparr>hv_backend = BK_Unknown, hv_session_id = 0, hv_host_ptr = None, hv_bytes = 0,
     hv_dtype = DT_Unknown, hv_layout = default_layout, hv_allocator_id = 0\<rparr>"

definition default_lease :: buffer_lease where
  "default_lease = \<lparr>bl_session_id = 0, bl_pool_id = 0, bl_allocation_id = 0, bl_release_policy = RP_Manual,
     bl_device_view = default_device_view, bl_host_view = default_host_view\<rparr>"

definition default_ticket :: transfer_ticket where
  "default_ticket = \<lparr>tt_backend = BK_Unknown, tt_session_id = 0, tt_transfer_id = 0, tt_execution_queue_id = 0,
     tt_completion_event = 0, tt_dst_device = default_device_view, tt_src_host = default_host_view,
     tt_src_device = default_device_view, tt_dst_host = default_host_view\<rparr>"

definition IsKnownDataType :: "data_type \<Rightarrow> bool" where
  "IsKnownDataType t \<longleftrightarrow> t \<noteq> DT_Unknown"

definition IsValidLayout :: "tensor_layout \<Rightarrow> bool" where
  "IsValidLayout l \<longleftrightarrow>
     (if kMaxTensorRank < unat (tl_rank l) then False
      else list_all (\<lambda>i. tl_shape l ! i \<noteq> 0 \<and> tl_stride l ! i \<noteq> 0) [0..<unat (tl_rank l)])"

definition IsValidDeviceView :: "device_buffer_view \<Rightarrow> bool" where
  "IsValidDeviceView v \<longleftrightarrow> dv_backend v \<noteq> BK_Unknown \<and> dv_device_ptr v \<noteq> None \<and> 0 < dv_bytes v \<and>
     IsKnownDataType (dv_dtype v) \<and> IsValidLayout (dv_layout v)"

definition IsValidHostView :: "host_buffer_view \<Rightarrow> bool" where
  "IsValidHostView v \<longleftrightarrow> hv_host_ptr v \<noteq> None \<and> 0 < hv_bytes v \<and> IsKnownDataType (hv_dtype v) \<and>
     IsValidLayout (hv_layout v)"

definition IsValidLease :: "buffer_lease \<Rightarrow> bool" where
  "IsValidLease l \<longleftrightarrow> bl_pool_id l \<noteq> 0 \<and> bl_allocation_id l \<noteq> 0 \<and>
     (IsValidDeviceView (bl_device_view l) \<or> IsValidHostView (bl_host_view l))"

definition IsValidTransferTicket :: "transfer_ticket \<Rightarrow> bool" where
  "IsValidTransferTicket t \<longleftrightarrow>
     (let has_h2d = IsValidHostView (tt_src_host t) \<and> IsValidDeviceView (tt_dst_device t);
          has_d2h = IsValidDeviceView (tt_src_device t) \<and> IsValidHostView (tt_dst_host t);
          has_d2d = IsValidDeviceView (tt_src_device t) \<and> IsValidDeviceView (tt_dst_device t)
      in tt_backend t \<noteq> BK_Unknown \<and> tt_transfer_id t \<noteq> 0 \<and> tt_execution_queue_id t \<noteq> 0 \<and>
         tt_completion_event t \<noteq> 0 \<and> (has_h2d \<or> has_d2h \<or> has_d2d))"

definition IsValidShardDescriptor :: "device_shard_descriptor \<Rightarrow> bool" where
  "IsValidShardDescriptor s \<longleftrightarrow> 0 < sh_shard_count s \<and> sh_shard_index s < sh_shard_count s \<and>
     0 < sh_element_length s \<and> IsValidLayout (sh_global_layout s)"

definition IsValidCollectiveTicket :: "collective_ticket \<Rightarrow> bool" where
  "IsValidCollectiveTicket t \<longleftrightarrow> ct_backend t \<noteq> BK_Unknown \<and> ct_kind t \<noteq> CK_Unknown \<and> 0 < ct_world_size t \<and>
     ct_rank t < ct_world_size t"

definition IsValidKernelTicket :: "kernel_ticket \<Rightarrow> bool" where
  "IsValidKernelTicket t \<longleftrightarrow> kt_backend t \<noteq> BK_Unknown \<and> kt_kernel_id t \<noteq> 0 \<and>
     0 < kl_grid_x (kt_launch t) \<and> 0 < kl_grid_y (kt_launch t) \<and> 0 < kl_grid_z (kt_launch t) \<and>
     0 < kl_block_x (kt_launch t) \<and> 0 < kl_block_y (kt_launch t) \<and> 0 < kl_block_z (kt_launch t)"

section \<open>The session\<close>

type_synonym memory = "nat \<rightharpoonup> u8 list"

record direct_session =
  ds_descriptor :: backend_descriptor
  ds_allocations :: "u64 \<rightharpoonup> nat"
  ds_queues :: "u64 set"
  ds_events :: "u64 set"
  ds_next_allocation_id :: u64
  ds_next_queue_id :: u64
  ds_next_event_id :: u64
  ds_next_transfer_id :: u64
  ds_transfer_samples :: u64
  ds_execution_samples :: u64
  ds_error_count :: u64

definition DirectSession :: "backend_descriptor \<Rightarrow> direct_session" where
  "DirectSession d = \<lparr>ds_descriptor = d, ds_allocations = Map.empty, ds_queues = {}, ds_events = {},
     ds_next_allocation_id = 1, ds_next_queue_id = 1, ds_next_event_id = 1, ds_next_transfer_id = 1,
     ds_transfer_samples = 0, ds_execution_samples = 0, ds_error_count = 0\<rparr>"

abbreviation ds_features :: "direct_session \<Rightarrow> feature_set" where
  "ds_features s \<equiv> bd_features (ds_descriptor s)"

abbreviation ds_session_id :: "direct_session \<Rightarrow> u64" where
  "ds_session_id s \<equiv> bd_session_id (ds_descriptor s)"

definition CapabilitiesMatchDescriptor :: "direct_session \<Rightarrow> bool" where
  "CapabilitiesMatchDescriptor s \<longleftrightarrow>
     (let f = ds_features s in
      if bd_execution_mode (ds_descriptor s) = EM_Stub
      then \<not> fs_device_memory f \<and> \<not> fs_host_visible_memory f \<and> \<not> fs_transfers f \<and> \<not> fs_events f \<and>
           \<not> fs_execution f \<and> \<not> fs_telemetry f
      else fs_device_memory f \<and> fs_host_visible_memory f \<and> fs_transfers f \<and> fs_events f \<and>
           fs_execution f \<and> fs_telemetry f)"

datatype allocation = Refused | Bad_Alloc | Allocated buffer_lease

text \<open>
  \<open>emplace\<close> does nothing when the identifier is in use; the new block is then freed with the last
  reference to it.
\<close>

definition emplace :: "u64 \<Rightarrow> nat \<Rightarrow> nat \<Rightarrow> direct_session \<Rightarrow> memory \<Rightarrow> direct_session \<times> memory" where
  "emplace k address n s m =
     (let s' = s\<lparr>ds_next_allocation_id := k + 1\<rparr> in
      if k \<in> dom (ds_allocations s) then (s', m)
      else (s'\<lparr>ds_allocations := (ds_allocations s)(k \<mapsto> address)\<rparr>, m(address \<mapsto> replicate n 0)))"

definition AllocateDevice ::
    "u64 \<Rightarrow> u32 \<Rightarrow> nat option \<Rightarrow> direct_session \<Rightarrow> memory \<Rightarrow> allocation \<times> direct_session \<times> memory" where
  "AllocateDevice bytes device_id address s m =
     (if \<not> fs_device_memory (ds_features s) \<or> bytes = 0 \<or> device_id \<noteq> bd_device_id (ds_descriptor s)
      then (Refused, s, m)
      else case address of
        None \<Rightarrow> (Bad_Alloc, s, m)
      | Some a \<Rightarrow>
          (let k = ds_next_allocation_id s
           in (Allocated (default_lease\<lparr>bl_session_id := ds_session_id s, bl_pool_id := ds_session_id s,
                 bl_allocation_id := k,
                 bl_device_view := default_device_view\<lparr>dv_backend := bd_backend (ds_descriptor s),
                   dv_session_id := ds_session_id s, dv_device_ptr := Some a, dv_bytes := bytes,
                   dv_device_id := device_id\<rparr>\<rparr>),
               emplace k a (unat bytes) s m)))"

definition AllocateHostVisible ::
    "u64 \<Rightarrow> nat option \<Rightarrow> direct_session \<Rightarrow> memory \<Rightarrow> allocation \<times> direct_session \<times> memory" where
  "AllocateHostVisible bytes address s m =
     (if \<not> fs_host_visible_memory (ds_features s) \<or> bytes = 0 then (Refused, s, m)
      else case address of
        None \<Rightarrow> (Bad_Alloc, s, m)
      | Some a \<Rightarrow>
          (let k = ds_next_allocation_id s
           in (Allocated (default_lease\<lparr>bl_session_id := ds_session_id s, bl_pool_id := ds_session_id s,
                 bl_allocation_id := k,
                 bl_host_view := default_host_view\<lparr>hv_backend := bd_backend (ds_descriptor s),
                   hv_session_id := ds_session_id s, hv_host_ptr := Some a, hv_bytes := bytes,
                   hv_allocator_id := ds_session_id s\<rparr>\<rparr>),
               emplace k a (unat bytes) s m)))"

definition Release :: "buffer_lease \<Rightarrow> direct_session \<Rightarrow> memory \<Rightarrow> bool \<times> direct_session \<times> memory" where
  "Release lease s m =
     (if bl_session_id lease \<noteq> ds_session_id s \<or> bl_pool_id lease \<noteq> ds_session_id s \<or> bl_allocation_id lease = 0
      then (False, s, m)
      else case ds_allocations s (bl_allocation_id lease) of
        None \<Rightarrow> (False, s, m)
      | Some a \<Rightarrow> (True, s\<lparr>ds_allocations := (ds_allocations s)(bl_allocation_id lease := None)\<rparr>, m(a := None)))"

definition Create :: "direct_session \<Rightarrow> u64 \<times> direct_session" where
  "Create s =
     (if \<not> fs_events (ds_features s) then (0, s)
      else (ds_next_event_id s, s\<lparr>ds_next_event_id := ds_next_event_id s + 1,
              ds_events := insert (ds_next_event_id s) (ds_events s)\<rparr>))"

definition IsComplete :: "u64 \<Rightarrow> direct_session \<Rightarrow> bool" where
  "IsComplete event s \<longleftrightarrow> event \<in> ds_events s"

definition EventWait :: "u64 \<Rightarrow> u64 \<Rightarrow> direct_session \<Rightarrow> bool" where
  "EventWait event timeout_ms s \<longleftrightarrow> IsComplete event s"

definition Destroy :: "u64 \<Rightarrow> direct_session \<Rightarrow> direct_session" where
  "Destroy event s = s\<lparr>ds_events := ds_events s - {event}\<rparr>"

definition AcquireQueue :: "direct_session \<Rightarrow> u64 \<times> direct_session" where
  "AcquireQueue s =
     (if \<not> fs_execution (ds_features s) then (0, s)
      else (ds_next_queue_id s, s\<lparr>ds_next_queue_id := ds_next_queue_id s + 1,
              ds_queues := insert (ds_next_queue_id s) (ds_queues s)\<rparr>))"

definition ReleaseQueue :: "u64 \<Rightarrow> direct_session \<Rightarrow> direct_session" where
  "ReleaseQueue queue s = s\<lparr>ds_queues := ds_queues s - {queue}\<rparr>"

definition Submit :: "kernel_ticket \<Rightarrow> direct_session \<Rightarrow> bool" where
  "Submit ticket s \<longleftrightarrow>
     (if \<not> fs_execution (ds_features s) \<or> kt_backend ticket \<noteq> bd_backend (ds_descriptor s) \<or>
         kt_session_id ticket \<noteq> ds_session_id s then False
      else kt_execution_queue_id ticket \<in> ds_queues s)"

definition RecordTransfer :: "transfer_ticket \<Rightarrow> direct_session \<Rightarrow> direct_session" where
  "RecordTransfer ticket s =
     (if tt_session_id ticket = ds_session_id s then s\<lparr>ds_transfer_samples := ds_transfer_samples s + 1\<rparr> else s)"

definition RecordExecution :: "kernel_ticket \<Rightarrow> direct_session \<Rightarrow> direct_session" where
  "RecordExecution ticket s =
     (if kt_session_id ticket = ds_session_id s then s\<lparr>ds_execution_samples := ds_execution_samples s + 1\<rparr> else s)"

definition IncrementErrorCounter :: "direct_session \<Rightarrow> direct_session" where
  "IncrementErrorCounter s = s\<lparr>ds_error_count := ds_error_count s + 1\<rparr>"

definition ValidateTransfer ::
    "u64 \<Rightarrow> u64 \<Rightarrow> nat option \<Rightarrow> nat option \<Rightarrow> u64 \<Rightarrow> u64 \<Rightarrow> u64 \<Rightarrow> direct_session \<Rightarrow> bool" where
  "ValidateTransfer src_session dst_session src dst src_bytes dst_bytes queue s \<longleftrightarrow>
     (if \<not> fs_transfers (ds_features s) \<or> src_session \<noteq> ds_session_id s \<or> dst_session \<noteq> ds_session_id s \<or>
         src = None \<or> dst = None \<or> src_bytes = 0 \<or> dst_bytes < src_bytes then False
      else queue \<in> ds_queues s)"

definition StampTransfer :: "u64 \<Rightarrow> direct_session \<Rightarrow> transfer_ticket \<times> direct_session" where
  "StampTransfer queue s =
     (case Create (s\<lparr>ds_next_transfer_id := ds_next_transfer_id s + 1\<rparr>) of (event, s') \<Rightarrow>
        (default_ticket\<lparr>tt_backend := bd_backend (ds_descriptor s), tt_session_id := ds_session_id s,
           tt_transfer_id := ds_next_transfer_id s, tt_execution_queue_id := queue, tt_completion_event := event\<rparr>, s'))"

definition memcpy :: "nat option \<Rightarrow> nat option \<Rightarrow> nat \<Rightarrow> memory \<Rightarrow> memory option" where
  "memcpy dst src n m =
     (case (dst, src) of
        (Some d, Some r) \<Rightarrow>
          (case (m d, m r) of
             (Some old, Some new) \<Rightarrow>
               if d \<noteq> r \<and> n \<le> length old \<and> n \<le> length new
               then Some (m(d \<mapsto> take n new @ drop n old)) else None
           | _ \<Rightarrow> None)
      | _ \<Rightarrow> None)"

text \<open>The three transfers: no ticket when the call is refused, \<open>None\<close> when the copy is undefined.\<close>

definition EnqueueH2D :: "host_buffer_view \<Rightarrow> device_buffer_view \<Rightarrow> u64 \<Rightarrow> direct_session \<Rightarrow> memory
    \<Rightarrow> (transfer_ticket option \<times> direct_session \<times> memory) option" where
  "EnqueueH2D src dst queue s m =
     (if \<not> ValidateTransfer (hv_session_id src) (dv_session_id dst) (hv_host_ptr src) (dv_device_ptr dst)
            (hv_bytes src) (dv_bytes dst) queue s
      then Some (None, s, m)
      else case memcpy (dv_device_ptr dst) (hv_host_ptr src) (unat (hv_bytes src)) m of
        None \<Rightarrow> None
      | Some m' \<Rightarrow> (case StampTransfer queue s of (t, s') \<Rightarrow>
          Some (Some (t\<lparr>tt_src_host := src, tt_dst_device := dst\<rparr>), s', m')))"

definition EnqueueD2H :: "device_buffer_view \<Rightarrow> host_buffer_view \<Rightarrow> u64 \<Rightarrow> direct_session \<Rightarrow> memory
    \<Rightarrow> (transfer_ticket option \<times> direct_session \<times> memory) option" where
  "EnqueueD2H src dst queue s m =
     (if \<not> ValidateTransfer (dv_session_id src) (hv_session_id dst) (dv_device_ptr src) (hv_host_ptr dst)
            (dv_bytes src) (hv_bytes dst) queue s
      then Some (None, s, m)
      else case memcpy (hv_host_ptr dst) (dv_device_ptr src) (unat (dv_bytes src)) m of
        None \<Rightarrow> None
      | Some m' \<Rightarrow> (case StampTransfer queue s of (t, s') \<Rightarrow>
          Some (Some (t\<lparr>tt_src_device := src, tt_dst_host := dst\<rparr>), s', m')))"

definition EnqueueD2D :: "device_buffer_view \<Rightarrow> device_buffer_view \<Rightarrow> u64 \<Rightarrow> direct_session \<Rightarrow> memory
    \<Rightarrow> (transfer_ticket option \<times> direct_session \<times> memory) option" where
  "EnqueueD2D src dst queue s m =
     (if \<not> ValidateTransfer (dv_session_id src) (dv_session_id dst) (dv_device_ptr src) (dv_device_ptr dst)
            (dv_bytes src) (dv_bytes dst) queue s
      then Some (None, s, m)
      else case memcpy (dv_device_ptr dst) (dv_device_ptr src) (unat (dv_bytes src)) m of
        None \<Rightarrow> None
      | Some m' \<Rightarrow> (case StampTransfer queue s of (t, s') \<Rightarrow>
          Some (Some (t\<lparr>tt_src_device := src, tt_dst_device := dst\<rparr>), s', m')))"

section \<open>The default registry\<close>

definition CpuDescriptor :: backend_descriptor where
  "CpuDescriptor = \<lparr>bd_backend = BK_CPU, bd_execution_mode = EM_CpuFallback, bd_provider_name = ''graphx-cpu'',
     bd_runtime_version = ''host'', bd_device_name = ''Host CPU'', bd_device_id = 0, bd_architecture = ''host'',
     bd_session_id = 0x4350550000000001,
     bd_features = no_features\<lparr>fs_device_memory := True, fs_host_visible_memory := True, fs_transfers := True,
       fs_events := True, fs_execution := True, fs_telemetry := True\<rparr>\<rparr>"

definition StubDescriptor :: "backend_kind \<Rightarrow> string \<Rightarrow> u64 \<Rightarrow> backend_descriptor" where
  "StubDescriptor backend name session = \<lparr>bd_backend = backend, bd_execution_mode = EM_Stub, bd_provider_name = name,
     bd_runtime_version = ''unavailable'', bd_device_name = ''No native device'', bd_device_id = 0,
     bd_architecture = ''stub'', bd_session_id = session, bd_features = no_features\<rparr>"

definition CreateCpuAcceleratorSession :: direct_session where
  "CreateCpuAcceleratorSession = DirectSession CpuDescriptor"

definition CreateCudaStubAcceleratorSession :: direct_session where
  "CreateCudaStubAcceleratorSession = DirectSession (StubDescriptor BK_CUDA ''graphx-cuda-stub'' 0x4355444100000001)"

definition CreateMetalStubAcceleratorSession :: direct_session where
  "CreateMetalStubAcceleratorSession = DirectSession (StubDescriptor BK_Metal ''graphx-metal-stub'' 0x4d45544100000001)"

record provider_options =
  op_enable_cpu :: bool
  op_enable_cuda :: bool
  op_enable_metal :: bool

text \<open>A failed registration is an exception with the detail of the error.\<close>

definition add_session :: "bool \<Rightarrow> direct_session \<Rightarrow> direct_session session_registry
    \<Rightarrow> (direct_session session_registry, string) expected" where
  "add_session enabled session reg =
     (if \<not> enabled then Inr reg
      else case Register ds_descriptor CapabilitiesMatchDescriptor (Some session) reg of
        (Inl (code, detail), _) \<Rightarrow> Inl detail
      | (Inr _, reg') \<Rightarrow> Inr reg')"

definition CreateDefaultAcceleratorSessionRegistry ::
    "provider_options \<Rightarrow> (direct_session session_registry, string) expected" where
  "CreateDefaultAcceleratorSessionRegistry options =
     bind_ok (add_session (op_enable_cpu options) CreateCpuAcceleratorSession empty_registry) (\<lambda>reg.
     bind_ok (add_session (op_enable_cuda options) CreateCudaStubAcceleratorSession reg) (\<lambda>reg.
     add_session (op_enable_metal options) CreateMetalStubAcceleratorSession reg))"

lemmas default_sessions = CreateCpuAcceleratorSession_def CreateCudaStubAcceleratorSession_def
  CreateMetalStubAcceleratorSession_def DirectSession_def CpuDescriptor_def StubDescriptor_def no_features_def

text \<open>The default registry is always created, with the enabled sessions in the order CPU, CUDA, Metal.\<close>

lemma default_registry_sessions:
  "\<exists>reg. CreateDefaultAcceleratorSessionRegistry options = Inr reg \<and>
     sr_sessions reg = (if op_enable_cpu options then [CreateCpuAcceleratorSession] else []) @
       (if op_enable_cuda options then [CreateCudaStubAcceleratorSession] else []) @
       (if op_enable_metal options then [CreateMetalStubAcceleratorSession] else [])"
  by (simp add: CreateDefaultAcceleratorSessionRegistry_def add_session_def Register_def empty_registry_def
      ValidateDescriptor_def CapabilitiesMatchDescriptor_def default_sessions session_order_def less_eq_prod_def
      less_prod_def less_eq_backend_kind_def less_backend_kind_def)

section \<open>Leases\<close>

text \<open>
  A state is a session with the memory and the leases it has issued, oldest first. Clients may call
  everything with any arguments, also forged leases and views, as long as no copy is undefined;
  they may write to live blocks, and the rest of the program allocates and frees its own blocks.
\<close>

type_synonym client_state = "direct_session \<times> memory \<times> buffer_lease list"

inductive client_step :: "client_state \<Rightarrow> client_state \<Rightarrow> bool" where
  step_AllocateDevice: "AllocateDevice bytes device_id (Some a) s m = (Allocated l, s', m') \<Longrightarrow> m a = None \<Longrightarrow>
    client_step (s, m, ls) (s', m', ls @ [l])"
| step_AllocateHostVisible: "AllocateHostVisible bytes (Some a) s m = (Allocated l, s', m') \<Longrightarrow> m a = None \<Longrightarrow>
    client_step (s, m, ls) (s', m', ls @ [l])"
| step_Release: "Release l s m = (r, s', m') \<Longrightarrow> client_step (s, m, ls) (s', m', ls)"
| step_EnqueueH2D: "EnqueueH2D hsrc ddst queue s m = Some (t, s', m') \<Longrightarrow> client_step (s, m, ls) (s', m', ls)"
| step_EnqueueD2D: "EnqueueD2D dsrc ddst queue s m = Some (t, s', m') \<Longrightarrow> client_step (s, m, ls) (s', m', ls)"
| step_EnqueueD2H: "EnqueueD2H dsrc hdst queue s m = Some (t, s', m') \<Longrightarrow> client_step (s, m, ls) (s', m', ls)"
| step_AcquireQueue: "client_step (s, m, ls) (snd (AcquireQueue s), m, ls)"
| step_ReleaseQueue: "client_step (s, m, ls) (ReleaseQueue q s, m, ls)"
| step_Create: "client_step (s, m, ls) (snd (Create s), m, ls)"
| step_Destroy: "client_step (s, m, ls) (Destroy e s, m, ls)"
| step_RecordTransfer: "client_step (s, m, ls) (RecordTransfer t s, m, ls)"
| step_RecordExecution: "client_step (s, m, ls) (RecordExecution k s, m, ls)"
| step_IncrementErrorCounter: "client_step (s, m, ls) (IncrementErrorCounter s, m, ls)"
| step_write: "m a = Some old \<Longrightarrow> length new = length old \<Longrightarrow> client_step (s, m, ls) (s, m(a \<mapsto> new), ls)"
| step_other_alloc: "m a = None \<Longrightarrow> client_step (s, m, ls) (s, m(a \<mapsto> bs), ls)"
| step_other_free: "a \<notin> ran (ds_allocations s) \<Longrightarrow> client_step (s, m, ls) (s, m(a := None), ls)"

abbreviation client_steps :: "client_state \<Rightarrow> client_state \<Rightarrow> bool" where
  "client_steps \<equiv> client_step\<^sup>*\<^sup>*"

definition lease_ptr :: "buffer_lease \<Rightarrow> nat option" where
  "lease_ptr l = (case dv_device_ptr (bl_device_view l) of
     Some a \<Rightarrow> Some a | None \<Rightarrow> hv_host_ptr (bl_host_view l))"

definition lease_bytes :: "buffer_lease \<Rightarrow> nat" where
  "lease_bytes l = (case dv_device_ptr (bl_device_view l) of
     Some _ \<Rightarrow> unat (dv_bytes (bl_device_view l)) | None \<Rightarrow> unat (hv_bytes (bl_host_view l)))"

definition live :: "direct_session \<Rightarrow> buffer_lease \<Rightarrow> bool" where
  "live s l \<longleftrightarrow> ds_allocations s (bl_allocation_id l) \<noteq> None"

text \<open>A lease carries the identifier of its session, and a live lease owns a block of its size.\<close>

definition lease_stamped :: "u64 \<Rightarrow> buffer_lease \<Rightarrow> bool" where
  "lease_stamped sid l \<longleftrightarrow> bl_session_id l = sid \<and> bl_pool_id l = sid \<and> lease_bytes l \<noteq> 0 \<and>
     (case dv_device_ptr (bl_device_view l) of
        Some _ \<Rightarrow> dv_session_id (bl_device_view l) = sid | None \<Rightarrow> hv_session_id (bl_host_view l) = sid)"

definition lease_ok :: "direct_session \<Rightarrow> memory \<Rightarrow> buffer_lease \<Rightarrow> bool" where
  "lease_ok s m l \<longleftrightarrow> lease_stamped (ds_session_id s) l \<and>
     (case ds_allocations s (bl_allocation_id l) of
        None \<Rightarrow> True
      | Some a \<Rightarrow> lease_ptr l = Some a \<and> map_option length (m a) = Some (lease_bytes l))"

definition lease_inv :: "client_state \<Rightarrow> bool" where
  "lease_inv c = (case c of (s, m, ls) \<Rightarrow>
     ds_next_allocation_id s = of_nat (Suc (length ls)) \<and>
     map bl_allocation_id ls = map (\<lambda>i. of_nat (Suc i)) [0..<length ls] \<and>
     dom (ds_allocations s) \<subseteq> bl_allocation_id ` set ls \<and>
     list_all (lease_ok s m) ls \<and> inj_on (ds_allocations s) (dom (ds_allocations s)))"

definition few :: "buffer_lease list \<Rightarrow> bool" where
  "few ls \<longleftrightarrow> Suc (length ls) < 2 ^ 64"

lemma number_inj: "i < n \<Longrightarrow> j < n \<Longrightarrow> n < 2 ^ 64 \<Longrightarrow> (of_nat (Suc i) :: u64) = of_nat (Suc j) \<longleftrightarrow> i = j"
  by (simp add: word_of_nat_eq_iff take_bit_nat_eq_self del: of_nat_Suc)

lemma lease_ids_distinct:
  assumes "lease_inv (s, m, ls)" and "few ls"
  shows "distinct (map bl_allocation_id ls)" and "ds_next_allocation_id s \<notin> bl_allocation_id ` set ls"
    and "0 \<notin> bl_allocation_id ` set ls"
proof -
  have ids: "map bl_allocation_id ls = map (\<lambda>i. of_nat (Suc i)) [0..<length ls]"
    and next_id: "ds_next_allocation_id s = of_nat (Suc (length ls))" using assms(1) by (auto simp: lease_inv_def)
  from ids have ids_set: "bl_allocation_id ` set ls = (\<lambda>i. of_nat (Suc i)) ` {0..<length ls}"
    by (metis list.set_map set_upt)
  have n: "Suc (length ls) < 2 ^ 64" using assms(2) by (simp add: few_def)
  show "distinct (map bl_allocation_id ls)"
    unfolding ids distinct_map using number_inj [of _ "length ls"] n by (auto simp: inj_on_def simp del: of_nat_Suc)
  show "ds_next_allocation_id s \<notin> bl_allocation_id ` set ls"
  proof
    assume "ds_next_allocation_id s \<in> bl_allocation_id ` set ls"
    then obtain i where "i < length ls" "(of_nat (Suc (length ls)) :: u64) = of_nat (Suc i)"
      unfolding ids_set next_id by auto
    with number_inj [of "length ls" "Suc (length ls)" i] n show False by simp
  qed
  show "0 \<notin> bl_allocation_id ` set ls"
    unfolding ids_set using n by (auto simp: word_of_nat_eq_0_iff nat_dvd_not_less simp del: of_nat_Suc)
qed

lemma lease_inv_initial: "lease_inv (DirectSession d, m, [])"
  by (simp add: lease_inv_def DirectSession_def)

text \<open>Steps that leave the allocations alone and keep the sizes of their blocks.\<close>

lemma lease_inv_frame:
  assumes "lease_inv (s, m, ls)" and "ds_descriptor s' = ds_descriptor s" and "ds_allocations s' = ds_allocations s"
    and "ds_next_allocation_id s' = ds_next_allocation_id s"
    and "\<And>a. a \<in> ran (ds_allocations s) \<Longrightarrow> map_option length (m' a) = map_option length (m a)"
  shows "lease_inv (s', m', ls)"
proof -
  have "lease_ok s' m' l" if "lease_ok s m l" for l
    using that assms(2,3) assms(5) [of "the (ds_allocations s (bl_allocation_id l))"]
    by (auto simp: lease_ok_def ran_def split: option.splits)
  then show ?thesis using assms(1-4) by (auto simp: lease_inv_def list_all_iff)
qed

lemma lease_inv_emplace:
  assumes inv: "lease_inv (s, m, ls)" and few: "few ls" and fresh: "m a = None"
    and l: "lease_stamped (ds_session_id s) l" "lease_ptr l = Some a" "lease_bytes l = n"
      "bl_allocation_id l = ds_next_allocation_id s"
    and e: "emplace (ds_next_allocation_id s) a n s m = (s', m')"
  shows "lease_inv (s', m', ls @ [l])"
proof -
  let ?k = "ds_next_allocation_id s"
  have new: "?k \<notin> bl_allocation_id ` set ls" by (rule lease_ids_distinct(2) [OF inv few])
  then have dom: "?k \<notin> dom (ds_allocations s)" using inv by (auto simp: lease_inv_def)
  from e dom have s': "s' = s\<lparr>ds_next_allocation_id := ?k + 1, ds_allocations := (ds_allocations s)(?k \<mapsto> a)\<rparr>"
    and m': "m' = m(a \<mapsto> replicate n 0)" by (auto simp: emplace_def Let_def)
  have used: "a \<notin> ran (ds_allocations s)"
  proof
    assume "a \<in> ran (ds_allocations s)"
    then obtain k where k: "ds_allocations s k = Some a" by (auto simp: ran_def)
    then obtain l' where l': "l' \<in> set ls" "bl_allocation_id l' = k" using inv by (auto simp: lease_inv_def)
    then have "lease_ok s m l'" using inv by (auto simp: lease_inv_def list_all_iff)
    with k l'(2) fresh show False by (simp add: lease_ok_def)
  qed
  have "lease_ok s' m' l'" if "l' \<in> set ls" for l'
  proof -
    have "lease_ok s m l'" using that inv by (auto simp: lease_inv_def list_all_iff)
    moreover have "bl_allocation_id l' \<noteq> ?k" using that new by (metis image_eqI)
    moreover have "ds_allocations s (bl_allocation_id l') \<noteq> Some a" using used by (auto simp: ran_def)
    ultimately show ?thesis by (auto simp: lease_ok_def s' m' split: option.splits)
  qed
  moreover have "lease_ok s' m' l" using l by (simp add: lease_ok_def s' m')
  moreover have "inj_on ((ds_allocations s)(?k \<mapsto> a)) (dom ((ds_allocations s)(?k \<mapsto> a)))"
    using inv used by (auto simp: lease_inv_def inj_on_def ran_def)
  ultimately show ?thesis
    using inv l(4) by (auto simp: lease_inv_def list_all_iff s')
qed

lemma lease_inv_Release:
  assumes inv: "lease_inv (s, m, ls)" and r: "Release l s m = (r, s', m')"
  shows "lease_inv (s', m', ls)"
proof (cases "s' = s \<and> m' = m")
  case False
  then obtain a where a: "ds_allocations s (bl_allocation_id l) = Some a"
    and s': "s' = s\<lparr>ds_allocations := (ds_allocations s)(bl_allocation_id l := None)\<rparr>" and m': "m' = m(a := None)"
    using r by (auto simp: Release_def split: option.splits if_splits)
  have "lease_ok s' m' l'" if "lease_ok s m l'" for l'
  proof (cases "bl_allocation_id l' = bl_allocation_id l")
    case False
    have "ds_allocations s (bl_allocation_id l') \<noteq> Some a"
      using inv a False by (auto simp: lease_inv_def dest: inj_onD [where x = "bl_allocation_id l'" and y = "bl_allocation_id l"])
    with that False show ?thesis by (auto simp: lease_ok_def s' m' split: option.splits)
  qed (use that in \<open>auto simp: lease_ok_def s'\<close>)
  moreover have "inj_on (ds_allocations s') (dom (ds_allocations s'))"
    using inv by (auto simp: lease_inv_def inj_on_def s')
  ultimately show ?thesis using inv by (auto simp: lease_inv_def list_all_iff s')
qed (use inv in simp)

lemma memcpy_lengths: "memcpy dst src n m = Some m' \<Longrightarrow> map_option length (m' a) = map_option length (m a)"
  by (auto simp: memcpy_def split: option.splits if_splits)

text \<open>What every transfer leaves as it was.\<close>

definition same_leases :: "direct_session \<Rightarrow> direct_session \<Rightarrow> bool" where
  "same_leases s s' \<longleftrightarrow> ds_descriptor s' = ds_descriptor s \<and> ds_allocations s' = ds_allocations s \<and>
     ds_next_allocation_id s' = ds_next_allocation_id s \<and> ds_queues s' = ds_queues s"

lemma same_leases_refl [simp]: "same_leases s s"
  by (simp add: same_leases_def)

lemma StampTransfer_same: "StampTransfer queue s = (t, s') \<Longrightarrow> same_leases s s'"
  by (auto simp: StampTransfer_def Create_def same_leases_def split: if_splits)

lemma Enqueue_frame:
  "EnqueueH2D hsrc ddst queue s m = Some (t, s', m') \<Longrightarrow>
    same_leases s s' \<and> map_option length (m' a) = map_option length (m a)"
  "EnqueueD2D dsrc ddst queue s m = Some (t, s', m') \<Longrightarrow>
    same_leases s s' \<and> map_option length (m' a) = map_option length (m a)"
  "EnqueueD2H dsrc hdst queue s m = Some (t, s', m') \<Longrightarrow>
    same_leases s s' \<and> map_option length (m' a) = map_option length (m a)"
  by (auto simp: EnqueueH2D_def EnqueueD2D_def EnqueueD2H_def
      dest: StampTransfer_same memcpy_lengths split: if_splits option.splits prod.splits)

lemma lease_inv_transfer:
  "lease_inv (s, m, ls) \<Longrightarrow> same_leases s s' \<Longrightarrow> (\<And>a. map_option length (m' a) = map_option length (m a)) \<Longrightarrow>
    lease_inv (s', m', ls)"
  by (rule lease_inv_frame [of s m]) (auto simp: same_leases_def)

lemma AllocateDevice_lease:
  assumes "AllocateDevice bytes device_id (Some a) s m = (Allocated l, s', m')"
  shows "lease_stamped (ds_session_id s) l \<and> lease_ptr l = Some a \<and>
    lease_bytes l = unat bytes \<and> bl_allocation_id l = ds_next_allocation_id s \<and>
    emplace (ds_next_allocation_id s) a (unat bytes) s m = (s', m')"
  using assms by (auto simp: AllocateDevice_def lease_stamped_def lease_ptr_def lease_bytes_def unat_eq_0 unat_gt_0 Let_def split: if_splits)

lemma AllocateHostVisible_lease:
  assumes "AllocateHostVisible bytes (Some a) s m = (Allocated l, s', m')"
  shows "lease_stamped (ds_session_id s) l \<and> lease_ptr l = Some a \<and>
    lease_bytes l = unat bytes \<and> bl_allocation_id l = ds_next_allocation_id s \<and>
    emplace (ds_next_allocation_id s) a (unat bytes) s m = (s', m')"
  using assms
  by (auto simp: AllocateHostVisible_def lease_stamped_def lease_ptr_def lease_bytes_def default_lease_def
      default_device_view_def unat_eq_0 unat_gt_0 Let_def
      split: if_splits)

lemmas session_records = AcquireQueue_def ReleaseQueue_def Create_def Destroy_def RecordTransfer_def RecordExecution_def
  IncrementErrorCounter_def

lemma lease_inv_step:
  assumes "client_step c c'" and "lease_inv c" and "few (snd (snd c))"
  shows "lease_inv c'"
  using assms
proof cases
  case (step_AllocateDevice bytes device_id a s m l s' m' ls)
  with assms(2,3) AllocateDevice_lease [OF step_AllocateDevice(3)] show ?thesis by (auto intro: lease_inv_emplace)
next
  case (step_AllocateHostVisible bytes a s m l s' m' ls)
  with assms(2,3) AllocateHostVisible_lease [OF step_AllocateHostVisible(3)] show ?thesis by (auto intro: lease_inv_emplace)
next
  case (step_Release l s m r s' m' ls)
  with assms(2) show ?thesis by (auto intro: lease_inv_Release)
next
  case (step_EnqueueH2D hsrc ddst queue s m t s' m' ls)
  with assms(2) show ?thesis using Enqueue_frame(1) [OF step_EnqueueH2D(3)] by (auto intro: lease_inv_transfer)
next
  case (step_EnqueueD2D dsrc ddst queue s m t s' m' ls)
  with assms(2) show ?thesis using Enqueue_frame(2) [OF step_EnqueueD2D(3)] by (auto intro: lease_inv_transfer)
next
  case (step_EnqueueD2H dsrc hdst queue s m t s' m' ls)
  with assms(2) show ?thesis using Enqueue_frame(3) [OF step_EnqueueD2H(3)] by (auto intro: lease_inv_transfer)
next
  case (step_write m a old new s ls)
  with assms(2) show ?thesis by (auto intro: lease_inv_frame)
next
  case (step_other_alloc m a s ls bs)
  have "a \<notin> ran (ds_allocations s)"
  proof
    assume "a \<in> ran (ds_allocations s)"
    then obtain k where k: "ds_allocations s k = Some a" by (auto simp: ran_def)
    then obtain l where "l \<in> set ls" "bl_allocation_id l = k" using assms(2) step_other_alloc by (auto simp: lease_inv_def)
    then show False using assms(2) k step_other_alloc by (auto simp: lease_inv_def list_all_iff lease_ok_def)
  qed
  with step_other_alloc assms(2) show ?thesis by (auto intro: lease_inv_frame)
next
  case (step_other_free a s m ls)
  with assms(2) show ?thesis by (auto intro: lease_inv_frame)
qed (use assms(2) in \<open>auto simp: session_records intro: lease_inv_frame\<close>)

lemma leases_grow: "client_step c c' \<Longrightarrow> \<exists>new. snd (snd c') = snd (snd c) @ new"
  by (cases rule: client_step.cases) auto

lemma leases_grow_steps: "client_steps c c' \<Longrightarrow> \<exists>new. snd (snd c') = snd (snd c) @ new"
proof (induction rule: rtranclp_induct)
  case (step c' c'')
  then show ?case using leases_grow [OF step.hyps(2)] by auto
qed simp

lemma few_prefix: "few (ls @ new) \<Longrightarrow> few ls"
  by (simp add: few_def)

lemma lease_inv_steps:
  assumes "client_steps c c'" and "lease_inv c" and "few (snd (snd c'))"
  shows "lease_inv c'"
  using assms
proof (induction rule: rtranclp_induct)
  case (step c' c'')
  then have "few (snd (snd c'))" using leases_grow [OF step.hyps(2)] few_prefix by auto
  with step show ?case by (auto intro: lease_inv_step)
qed

lemma reachable_lease_inv:
  "client_steps (DirectSession d, m0, []) (s, m, ls) \<Longrightarrow> few ls \<Longrightarrow> lease_inv (s, m, ls)"
  using lease_inv_steps [of "(DirectSession d, m0, [])" "(s, m, ls)"] lease_inv_initial by simp

lemma released_step:
  assumes "client_step c c'" and "lease_inv c" and "few (snd (snd c))" and "l \<in> set (snd (snd c))" and "\<not> live (fst c) l"
  shows "\<not> live (fst c') l"
proof -
  have new: "bl_allocation_id l \<noteq> ds_next_allocation_id (fst c)"
    using lease_ids_distinct(2) [of "fst c" "fst (snd c)" "snd (snd c)"] assms(2-4)
    by (metis image_eqI prod.collapse)
  from assms(1) show ?thesis
  proof cases
    case (step_AllocateDevice bytes device_id a s m l' s' m' ls)
    with AllocateDevice_lease [OF step_AllocateDevice(3)] assms(5) new show ?thesis
      by (auto simp: emplace_def live_def Let_def split: if_splits)
  next
    case (step_AllocateHostVisible bytes a s m l' s' m' ls)
    with AllocateHostVisible_lease [OF step_AllocateHostVisible(3)] assms(5) new show ?thesis
      by (auto simp: emplace_def live_def Let_def split: if_splits)
  next
    case (step_Release l' s m r s' m' ls)
    with assms(5) show ?thesis by (auto simp: Release_def live_def split: if_splits option.splits)
  next
    case (step_EnqueueH2D hsrc ddst queue s m t s' m' ls)
    with Enqueue_frame(1) [OF step_EnqueueH2D(3)] assms(5) show ?thesis by (auto simp: same_leases_def live_def)
  next
    case (step_EnqueueD2D dsrc ddst queue s m t s' m' ls)
    with Enqueue_frame(2) [OF step_EnqueueD2D(3)] assms(5) show ?thesis by (auto simp: same_leases_def live_def)
  next
    case (step_EnqueueD2H dsrc hdst queue s m t s' m' ls)
    with Enqueue_frame(3) [OF step_EnqueueD2H(3)] assms(5) show ?thesis by (auto simp: same_leases_def live_def)
  qed (use assms(5) in \<open>auto simp: session_records live_def\<close>)
qed

lemma released_steps:
  assumes "client_steps c c'" and "lease_inv c" and "few (snd (snd c'))" and "l \<in> set (snd (snd c))" and "\<not> live (fst c) l"
  shows "\<not> live (fst c') l"
  using assms
proof (induction rule: rtranclp_induct)
  case (step c' c'')
  have few: "few (snd (snd c'))" using leases_grow [OF step.hyps(2)] step.prems(2) few_prefix by auto
  have "l \<in> set (snd (snd c'))" using leases_grow_steps [OF step.hyps(1)] step.prems(3) by auto
  moreover have "\<not> live (fst c') l" using step few by simp
  ultimately show ?case
    using released_step [OF step.hyps(2) lease_inv_steps [OF step.hyps(1) step.prems(1) few] few] by blast
qed

lemma Release_live:
  assumes "lease_inv (s, m, ls)" and "few ls" and "l \<in> set ls"
  shows "fst (Release l s m) \<longleftrightarrow> live s l"
proof -
  have "lease_ok s m l" using assms by (auto simp: lease_inv_def list_all_iff)
  moreover have "bl_allocation_id l \<noteq> 0" using lease_ids_distinct(3) [OF assms(1,2)] assms(3) by (metis image_eqI)
  ultimately show ?thesis by (auto simp: Release_def live_def lease_ok_def lease_stamped_def split: option.split)
qed

lemma live_blocks_differ:
  assumes inv: "lease_inv (s, m, ls)" and few: "few ls" and "l \<in> set ls" "l' \<in> set ls" "live s l" "live s l'" "l \<noteq> l'"
  shows "lease_ptr l \<noteq> lease_ptr l'"
proof -
  have "bl_allocation_id l \<noteq> bl_allocation_id l'"
    using lease_ids_distinct(1) [OF inv few] assms(3,4,7) by (auto simp: distinct_map inj_on_def)
  moreover have "lease_ok s m l" "lease_ok s m l'" using inv assms(3,4) by (auto simp: lease_inv_def list_all_iff)
  ultimately show ?thesis using inv assms(5,6)
    by (auto simp: lease_inv_def live_def lease_ok_def
        dest: inj_onD [where x = "bl_allocation_id l" and y = "bl_allocation_id l'"])
qed

lemma block_of_live:
  assumes "lease_inv (s, m, ls)" and "l \<in> set ls" and "live s l"
  obtains a bs where "lease_ptr l = Some a" and "m a = Some bs" and "length bs = lease_bytes l"
    and "ds_allocations s (bl_allocation_id l) = Some a"
proof -
  have "lease_ok s m l" using assms(1,2) by (auto simp: lease_inv_def list_all_iff)
  with assms(3) that show thesis by (auto simp: lease_ok_def live_def)
qed

text \<open>
  C37. A lease is released once. While fewer than \<open>2 ^ 64 - 1\<close> buffers have been allocated: releasing a
  lease that the session has issued and not yet released succeeds, leaves every other live lease
  and the contents of its block as they were, and no later call of any kind revives the released
  one, so that every further release of it is refused.
\<close>

theorem lease_is_released_once:
  assumes reach: "client_steps (DirectSession d, m0, []) (s, m, ls)" and l: "l \<in> set ls" "live s l"
    and release: "Release l s m = (r, s1, m1)"
    and later: "client_steps (s1, m1, ls) (s', m', ls')" and few: "few ls'"
  shows "r \<and> list_all (\<lambda>l'. l' \<noteq> l \<and> live s l' \<longrightarrow> live s1 l' \<and> m1 (the (lease_ptr l')) = m (the (lease_ptr l'))) ls \<and>
    \<not> fst (Release l s' m')"
proof (intro conjI)
  have few0: "few ls" using leases_grow_steps [OF later] few few_prefix by auto
  note inv = reachable_lease_inv [OF reach few0]
  show r using Release_live [OF inv few0 l(1)] l(2) release by simp
  obtain a where a: "lease_ptr l = Some a" "ds_allocations s (bl_allocation_id l) = Some a"
    using block_of_live [OF inv l] by metis
  from \<open>r\<close> release a(2) have s1: "s1 = s\<lparr>ds_allocations := (ds_allocations s)(bl_allocation_id l := None)\<rparr>"
    and m1: "m1 = m(a := None)" by (auto simp: Release_def split: if_splits)
  have "live s1 l' \<and> m1 (the (lease_ptr l')) = m (the (lease_ptr l'))" if l': "l' \<in> set ls" "l' \<noteq> l" "live s l'" for l'
  proof -
    have "bl_allocation_id l' \<noteq> bl_allocation_id l"
      using lease_ids_distinct(1) [OF inv few0] l(1) l' by (auto simp: distinct_map inj_on_def)
    moreover obtain a' where "lease_ptr l' = Some a'" using block_of_live [OF inv l'(1,3)] by metis
    moreover have "lease_ptr l' \<noteq> lease_ptr l" by (rule live_blocks_differ [OF inv few0 l'(1) l(1) l'(3) l(2) l'(2)])
    ultimately show ?thesis using l'(3) a(1) by (simp add: live_def s1 m1)
  qed
  then show "list_all (\<lambda>l'. l' \<noteq> l \<and> live s l' \<longrightarrow> live s1 l' \<and> m1 (the (lease_ptr l')) = m (the (lease_ptr l'))) ls"
    by (auto simp: list_all_iff)
  have inv1: "lease_inv (s1, m1, ls)" by (rule lease_inv_Release [OF inv release])
  have "\<not> live s' l"
    using released_steps [OF later inv1, of l] few l(1) by (simp add: live_def s1)
  moreover have "l \<in> set ls'" using leases_grow_steps [OF later] l(1) by auto
  moreover have "lease_inv (s', m', ls')" using lease_inv_steps [OF later inv1] few by simp
  ultimately show "\<not> fst (Release l s' m')" using Release_live [of s' m' ls' l] few by simp
qed

section \<open>Transfers\<close>

definition block :: "memory \<Rightarrow> buffer_lease \<Rightarrow> u8 list" where
  "block m l = the (m (the (lease_ptr l)))"

definition is_device_lease :: "buffer_lease \<Rightarrow> bool" where
  "is_device_lease l \<longleftrightarrow> dv_device_ptr (bl_device_view l) \<noteq> None"

text \<open>Two live leases of a session and a queue: what a transfer between them needs.\<close>

definition can_copy :: "client_state \<Rightarrow> u64 \<Rightarrow> buffer_lease \<Rightarrow> buffer_lease \<Rightarrow> bool" where
  "can_copy c queue l l' = (case c of (s, m, ls) \<Rightarrow>
     lease_inv c \<and> few ls \<and> l \<in> set ls \<and> l' \<in> set ls \<and> l \<noteq> l' \<and> live s l \<and> live s l' \<and>
     lease_bytes l \<le> lease_bytes l' \<and> queue \<in> ds_queues s \<and> fs_transfers (ds_features s))"

lemma host_view_of_lease:
  "\<not> is_device_lease l \<Longrightarrow> hv_host_ptr (bl_host_view l) = lease_ptr l \<and> unat (hv_bytes (bl_host_view l)) = lease_bytes l \<and>
     (lease_stamped sid l \<longrightarrow> hv_session_id (bl_host_view l) = sid)"
  by (auto simp: is_device_lease_def lease_ptr_def lease_bytes_def lease_stamped_def)

lemma device_view_of_lease:
  "is_device_lease l \<Longrightarrow> dv_device_ptr (bl_device_view l) = lease_ptr l \<and>
     unat (dv_bytes (bl_device_view l)) = lease_bytes l \<and> (lease_stamped sid l \<longrightarrow> dv_session_id (bl_device_view l) = sid)"
  by (auto simp: is_device_lease_def lease_ptr_def lease_bytes_def lease_stamped_def)

lemma can_copy_facts:
  assumes "can_copy (s, m, ls) queue l l'"
  shows "lease_stamped (ds_session_id s) l \<and> lease_stamped (ds_session_id s) l' \<and> lease_bytes l \<noteq> 0 \<and>
      lease_ptr l \<noteq> None \<and> lease_ptr l' \<noteq> None \<and> length (block m l) = lease_bytes l \<and>
      memcpy (lease_ptr l') (lease_ptr l) (lease_bytes l) m =
        Some (m(the (lease_ptr l') \<mapsto> block m l @ drop (lease_bytes l) (block m l')))"
proof -
  from assms have inv: "lease_inv (s, m, ls)" "few ls" and mem: "l \<in> set ls" "l' \<in> set ls" "live s l" "live s l'" "l \<noteq> l'"
    and le: "lease_bytes l \<le> lease_bytes l'" by (auto simp: can_copy_def)
  obtain a bs where a: "lease_ptr l = Some a" "m a = Some bs" "length bs = lease_bytes l"
    by (rule block_of_live [OF inv(1) mem(1,3)])
  obtain a' bs' where a': "lease_ptr l' = Some a'" "m a' = Some bs'" "length bs' = lease_bytes l'"
    by (rule block_of_live [OF inv(1) mem(2,4)])
  have "a \<noteq> a'" using live_blocks_differ [OF inv mem] a(1) a'(1) by simp
  then have "memcpy (lease_ptr l') (lease_ptr l) (lease_bytes l) m =
      Some (m(the (lease_ptr l') \<mapsto> block m l @ drop (lease_bytes l) (block m l')))"
    using a a' le by (simp add: memcpy_def block_def)
  moreover have "lease_stamped (ds_session_id s) l" "lease_stamped (ds_session_id s) l'"
    using inv(1) mem by (auto simp: lease_inv_def list_all_iff lease_ok_def)
  ultimately show ?thesis using a a' by (auto simp: block_def lease_stamped_def)
qed

lemma Enqueue_leases:
  assumes copy: "can_copy (s, m, ls) queue l l'"
  shows "\<not> is_device_lease l \<Longrightarrow> is_device_lease l' \<Longrightarrow>
      \<exists>t s'. EnqueueH2D (bl_host_view l) (bl_device_view l') queue s m =
        Some (Some t, s', m(the (lease_ptr l') \<mapsto> block m l @ drop (lease_bytes l) (block m l'))) \<and> same_leases s s'"
    and "is_device_lease l \<Longrightarrow> is_device_lease l' \<Longrightarrow>
      \<exists>t s'. EnqueueD2D (bl_device_view l) (bl_device_view l') queue s m =
        Some (Some t, s', m(the (lease_ptr l') \<mapsto> block m l @ drop (lease_bytes l) (block m l'))) \<and> same_leases s s'"
    and "is_device_lease l \<Longrightarrow> \<not> is_device_lease l' \<Longrightarrow>
      \<exists>t s'. EnqueueD2H (bl_device_view l) (bl_host_view l') queue s m =
        Some (Some t, s', m(the (lease_ptr l') \<mapsto> block m l @ drop (lease_bytes l) (block m l'))) \<and> same_leases s s'"
proof -
  note facts = can_copy_facts [OF copy]
  obtain t s' where stamp: "StampTransfer queue s = (t, s')" by (cases "StampTransfer queue s")
  have q: "queue \<in> ds_queues s" "fs_transfers (ds_features s)" "lease_bytes l \<le> lease_bytes l'"
    using copy by (auto simp: can_copy_def)
  have valid: "ValidateTransfer (ds_session_id s) (ds_session_id s) (lease_ptr l) (lease_ptr l') b b' queue s"
    if "unat b = lease_bytes l" "unat b' = lease_bytes l'" for b b'
    using facts q that by (auto simp: ValidateTransfer_def word_less_nat_alt)
  note views = host_view_of_lease [of _ "ds_session_id s"] device_view_of_lease [of _ "ds_session_id s"]
  note same = StampTransfer_same [OF stamp]
  show "\<exists>t s'. EnqueueH2D (bl_host_view l) (bl_device_view l') queue s m =
        Some (Some t, s', m(the (lease_ptr l') \<mapsto> block m l @ drop (lease_bytes l) (block m l'))) \<and> same_leases s s'"
    if "\<not> is_device_lease l" "is_device_lease l'"
    using that views facts valid stamp same by (simp add: EnqueueH2D_def)
  show "\<exists>t s'. EnqueueD2D (bl_device_view l) (bl_device_view l') queue s m =
        Some (Some t, s', m(the (lease_ptr l') \<mapsto> block m l @ drop (lease_bytes l) (block m l'))) \<and> same_leases s s'"
    if "is_device_lease l" "is_device_lease l'"
    using that views facts valid stamp same by (simp add: EnqueueD2D_def)
  show "\<exists>t s'. EnqueueD2H (bl_device_view l) (bl_host_view l') queue s m =
        Some (Some t, s', m(the (lease_ptr l') \<mapsto> block m l @ drop (lease_bytes l) (block m l'))) \<and> same_leases s s'"
    if "is_device_lease l" "\<not> is_device_lease l'"
    using that views facts valid stamp same by (simp add: EnqueueD2H_def)
qed

text \<open>After a transfer the leases are as before, so that the next one is possible too.\<close>

lemma can_copy_after:
  assumes "can_copy (s, m, ls) queue l l'" and "same_leases s s'"
    and "m' = m(the (lease_ptr l') \<mapsto> block m l @ drop (lease_bytes l) (block m l'))"
    and "can_copy (s, m, ls) queue k k'"
  shows "can_copy (s', m', ls) queue k k'"
proof -
  have "map_option length (m' a) = map_option length (m a)" for a
    using memcpy_lengths can_copy_facts [OF assms(1)] assms(3) by blast
  then have "lease_inv (s', m', ls)"
    using assms(1,2) lease_inv_transfer [of s m ls s' m'] by (auto simp: can_copy_def)
  with assms(2,4) show ?thesis by (simp add: can_copy_def same_leases_def live_def)
qed

lemma block_update: "m' = m(the (lease_ptr l) \<mapsto> bs) \<Longrightarrow> block m' l = bs"
  by (simp add: block_def)

text \<open>
  C38. Staging is exact. In every reachable session that supports transfers and has made fewer than
  2^64 allocations, take live leases of a host buffer, two device buffers and a second host buffer,
  none larger than the next, and an acquired queue. Copying from each to the next is never refused and never undefined, and the
  second host buffer then starts with the contents of the first.
\<close>

theorem staging_roundtrip:
  assumes reach: "client_steps (DirectSession d, m0, []) (s, m, ls)" and few: "few ls"
    and leases: "{h1, d1, d2, h2} \<subseteq> set ls" "distinct [h1, d1, d2, h2]" "live s h1" "live s d1" "live s d2" "live s h2"
    and kinds: "\<not> is_device_lease h1" "is_device_lease d1" "is_device_lease d2" "\<not> is_device_lease h2"
    and sizes: "lease_bytes h1 \<le> lease_bytes d1" "lease_bytes d1 \<le> lease_bytes d2" "lease_bytes d2 \<le> lease_bytes h2"
    and able: "queue \<in> ds_queues s" "fs_transfers (ds_features s)"
  shows "\<exists>t1 s1 m1 t2 s2 m2 t3 s3 m3.
    EnqueueH2D (bl_host_view h1) (bl_device_view d1) queue s m = Some (Some t1, s1, m1) \<and>
    EnqueueD2D (bl_device_view d1) (bl_device_view d2) queue s1 m1 = Some (Some t2, s2, m2) \<and>
    EnqueueD2H (bl_device_view d2) (bl_host_view h2) queue s2 m2 = Some (Some t3, s3, m3) \<and>
    take (lease_bytes h1) (block m3 h2) = block m h1"
proof -
  have copy: "can_copy (s, m, ls) queue h1 d1" "can_copy (s, m, ls) queue d1 d2" "can_copy (s, m, ls) queue d2 h2"
    using reachable_lease_inv [OF reach few] assms by (simp_all add: can_copy_def)
  obtain t1 s1 m1 where 1: "EnqueueH2D (bl_host_view h1) (bl_device_view d1) queue s m = Some (Some t1, s1, m1)"
      "same_leases s s1" and m1: "m1 = m(the (lease_ptr d1) \<mapsto> block m h1 @ drop (lease_bytes h1) (block m d1))"
    using Enqueue_leases(1) [OF copy(1) kinds(1,2)] by blast
  note copy1 = can_copy_after [OF copy(1) 1(2) m1]
  obtain t2 s2 m2 where 2: "EnqueueD2D (bl_device_view d1) (bl_device_view d2) queue s1 m1 = Some (Some t2, s2, m2)"
      "same_leases s1 s2" and m2: "m2 = m1(the (lease_ptr d2) \<mapsto> block m1 d1 @ drop (lease_bytes d1) (block m1 d2))"
    using Enqueue_leases(2) [OF copy1 [OF copy(2)] kinds(2,3)] by blast
  note copy2 = can_copy_after [OF copy1 [OF copy(2)] 2(2) m2 copy1 [OF copy(3)]]
  obtain t3 s3 m3 where 3: "EnqueueD2H (bl_device_view d2) (bl_host_view h2) queue s2 m2 = Some (Some t3, s3, m3)"
      and m3: "m3 = m2(the (lease_ptr h2) \<mapsto> block m2 d2 @ drop (lease_bytes d2) (block m2 h2))"
    using Enqueue_leases(3) [OF copy2 kinds(3,4)] by blast
  note block_update [OF m1] block_update [OF m2] block_update [OF m3]
  moreover have "length (block m h1) = lease_bytes h1" using can_copy_facts [OF copy(1)] by blast
  ultimately have "take (lease_bytes h1) (block m3 h2) = block m h1" by simp
  with 1(1) 2(1) 3 show ?thesis by blast
qed

text \<open>A CPU session with two host buffers, two device buffers and a queue.\<close>

definition allocated :: "allocation \<times> direct_session \<times> memory \<Rightarrow> buffer_lease list \<Rightarrow> client_state" where
  "allocated r ls = (case r of (x, s, m) \<Rightarrow> (s, m, case x of Allocated l \<Rightarrow> ls @ [l] | _ \<Rightarrow> ls))"

definition host_alloc :: "u64 \<Rightarrow> nat \<Rightarrow> client_state \<Rightarrow> client_state" where
  "host_alloc bytes a c = (case c of (s, m, ls) \<Rightarrow> allocated (AllocateHostVisible bytes (Some a) s m) ls)"

definition device_alloc :: "u64 \<Rightarrow> nat \<Rightarrow> client_state \<Rightarrow> client_state" where
  "device_alloc bytes a c = (case c of (s, m, ls) \<Rightarrow> allocated (AllocateDevice bytes 0 (Some a) s m) ls)"

lemma host_alloc_steps:
  assumes "fst (snd c) a = None"
  shows "client_steps c (host_alloc bytes a c)"
proof -
  obtain s m ls where c: "c = (s, m, ls)" by (cases c)
  obtain x s' m' where r: "AllocateHostVisible bytes (Some a) s m = (x, s', m')"
    by (cases "AllocateHostVisible bytes (Some a) s m")
  show ?thesis
  proof (cases x)
    case (Allocated l)
    with r c assms have "client_step c (s', m', ls @ [l])" by (auto intro: step_AllocateHostVisible)
    then show ?thesis by (simp add: c host_alloc_def allocated_def r Allocated)
  qed (use r in \<open>auto simp: c host_alloc_def allocated_def AllocateHostVisible_def Let_def split: if_splits\<close>)
qed

lemma device_alloc_steps:
  assumes "fst (snd c) a = None"
  shows "client_steps c (device_alloc bytes a c)"
proof -
  obtain s m ls where c: "c = (s, m, ls)" by (cases c)
  obtain x s' m' where r: "AllocateDevice bytes 0 (Some a) s m = (x, s', m')"
    by (cases "AllocateDevice bytes 0 (Some a) s m")
  show ?thesis
  proof (cases x)
    case (Allocated l)
    with r c assms have "client_step c (s', m', ls @ [l])" by (auto intro: step_AllocateDevice)
    then show ?thesis by (simp add: c device_alloc_def allocated_def r Allocated)
  qed (use r in \<open>auto simp: c device_alloc_def allocated_def AllocateDevice_def Let_def split: if_splits\<close>)
qed

definition example_buffers :: client_state where
  "example_buffers = host_alloc 3 13 (device_alloc 3 12 (device_alloc 2 11 (host_alloc 2 10
     (DirectSession CpuDescriptor, Map.empty, []))))"

definition example_ready :: client_state where
  "example_ready = (case example_buffers of (s, m, ls) \<Rightarrow> (snd (AcquireQueue s), m(10 \<mapsto> [7, 8]), ls))"

lemmas example_client = example_buffers_def host_alloc_def device_alloc_def allocated_def AllocateHostVisible_def
  AllocateDevice_def emplace_def DirectSession_def CpuDescriptor_def no_features_def default_lease_def
  default_device_view_def default_host_view_def

lemma example_memory:
  "fst (snd example_buffers) =
     [10 \<mapsto> replicate 2 0, 11 \<mapsto> replicate 2 0, 12 \<mapsto> replicate 3 0, 13 \<mapsto> replicate 3 0]"
  by (simp add: example_client)

lemma example_buffers_steps: "client_steps (DirectSession CpuDescriptor, Map.empty, []) example_buffers"
proof -
  let ?c0 = "(DirectSession CpuDescriptor, Map.empty, []) :: client_state"
  have 1: "client_steps ?c0 (host_alloc 2 10 ?c0)" by (rule host_alloc_steps) simp
  have 2: "client_steps (host_alloc 2 10 ?c0) (device_alloc 2 11 (host_alloc 2 10 ?c0))"
    by (rule device_alloc_steps) (simp add: example_client)
  have 3: "client_steps (device_alloc 2 11 (host_alloc 2 10 ?c0)) (device_alloc 3 12 (device_alloc 2 11 (host_alloc 2 10 ?c0)))"
    by (rule device_alloc_steps) (simp add: example_client)
  have 4: "client_steps (device_alloc 3 12 (device_alloc 2 11 (host_alloc 2 10 ?c0))) example_buffers"
    unfolding example_buffers_def by (rule host_alloc_steps) (simp add: example_client)
  from 1 2 3 4 show ?thesis by (meson rtranclp_trans)
qed

lemma example_ready_steps: "client_steps (DirectSession CpuDescriptor, Map.empty, []) example_ready"
proof -
  obtain s m ls where c: "example_buffers = (s, m, ls)" by (cases example_buffers)
  have m: "m 10 = Some (replicate 2 0)"
    using example_memory unfolding c by simp
  have "client_step (s, m, ls) (snd (AcquireQueue s), m, ls)" by (rule step_AcquireQueue)
  moreover have "client_step (snd (AcquireQueue s), m, ls) (snd (AcquireQueue s), m(10 \<mapsto> [7, 8]), ls)"
    by (rule step_write [where old = "replicate 2 0"]) (simp_all add: m)
  ultimately have "client_steps (s, m, ls) example_ready"
    by (simp add: example_ready_def c)
  with example_buffers_steps c show ?thesis by (metis rtranclp_trans)
qed

definition example_lease :: "nat \<Rightarrow> buffer_lease" where
  "example_lease i = snd (snd example_ready) ! i"

lemma example_ready_facts:
  "length (snd (snd example_ready)) = 4"
  "1 \<in> ds_queues (fst example_ready)" "fs_transfers (ds_features (fst example_ready))"
  "ds_allocations (fst example_ready) = [1 \<mapsto> 10, 2 \<mapsto> 11, 3 \<mapsto> 12, 4 \<mapsto> 13]"
  "fst (snd example_ready) = [11 \<mapsto> replicate 2 0, 12 \<mapsto> replicate 3 0, 13 \<mapsto> replicate 3 0, 10 \<mapsto> [7, 8]]"
  "map bl_allocation_id (snd (snd example_ready)) = [1, 2, 3, 4]"
  "map lease_bytes (snd (snd example_ready)) = [2, 2, 3, 3]"
  "map lease_ptr (snd (snd example_ready)) = [Some 10, Some 11, Some 12, Some 13]"
  "map is_device_lease (snd (snd example_ready)) = [False, True, True, False]"
  by (simp_all add: example_ready_def example_client AcquireQueue_def lease_bytes_def lease_ptr_def is_device_lease_def)

lemma example_leases:
  "snd (snd example_ready) = map example_lease [0, 1, 2, 3]"
  "map (live (fst example_ready)) (map example_lease [0, 1, 2, 3]) = [True, True, True, True]"
proof -
  show 1: "snd (snd example_ready) = map example_lease [0, 1, 2, 3]"
    by (rule nth_equalityI) (auto simp: example_ready_facts(1) example_lease_def nth_Cons' numeral_eq_Suc less_Suc_eq)
  show "map (live (fst example_ready)) (map example_lease [0, 1, 2, 3]) = [True, True, True, True]"
    using example_ready_facts(6) by (simp add: 1 live_def example_ready_facts(4))
qed

lemma example_few: "few (snd (snd example_ready))"
  by (simp add: few_def example_ready_facts(1))

theorem staging_roundtrip_witness:
  "\<exists>t1 s1 m1 t2 s2 m2 t3 s3 m3.
    EnqueueH2D (bl_host_view (example_lease 0)) (bl_device_view (example_lease 1)) 1
      (fst example_ready) (fst (snd example_ready)) = Some (Some t1, s1, m1) \<and>
    EnqueueD2D (bl_device_view (example_lease 1)) (bl_device_view (example_lease 2)) 1 s1 m1 = Some (Some t2, s2, m2) \<and>
    EnqueueD2H (bl_device_view (example_lease 2)) (bl_host_view (example_lease 3)) 1 s2 m2 = Some (Some t3, s3, m3) \<and>
    take 2 (block m3 (example_lease 3)) = [7, 8]"
proof -
  have ids: "map bl_allocation_id (map example_lease [0, 1, 2, 3]) = [1, 2, 3, 4]"
    using example_ready_facts(6) unfolding example_leases(1) .
  then have "distinct (map bl_allocation_id (map example_lease [0, 1, 2, 3]))" by simp
  then have "distinct (map example_lease [0, 1, 2, 3])" unfolding distinct_map by blast
  moreover
  have "client_steps (DirectSession CpuDescriptor, Map.empty, [])
      (fst example_ready, fst (snd example_ready), snd (snd example_ready))"
    using example_ready_steps by simp
  moreover note example_few
  ultimately show ?thesis
    using staging_roundtrip [of CpuDescriptor Map.empty "fst example_ready" "fst (snd example_ready)"
      "snd (snd example_ready)" "example_lease 0" "example_lease 1" "example_lease 2" "example_lease 3" 1]
    example_leases(2) ids example_ready_facts(2,3,5,7-9) [unfolded example_leases(1)]
    by (simp add: example_leases(1) block_def)
qed

theorem lease_is_released_once_witness:
  "case Release (example_lease 1) (fst example_ready) (fst (snd example_ready)) of
     (r, s1, m1) \<Rightarrow> r \<and> \<not> fst (Release (example_lease 1) s1 m1)"
proof -
  obtain r s1 m1 where release: "Release (example_lease 1) (fst example_ready) (fst (snd example_ready)) = (r, s1, m1)"
    by (cases "Release (example_lease 1) (fst example_ready) (fst (snd example_ready))")
  have "client_steps (DirectSession CpuDescriptor, Map.empty, [])
      (fst example_ready, fst (snd example_ready), snd (snd example_ready))"
    using example_ready_steps by simp
  from lease_is_released_once [OF this _ _ release rtranclp.rtrancl_refl example_few] example_leases(2)
  have "r \<and> \<not> fst (Release (example_lease 1) s1 m1)" by (simp add: example_leases(1))
  then show ?thesis unfolding release by simp
qed

section \<open>Where the checks are weaker than the types suggest\<close>

text \<open>
  The checks of a transfer look at the views only: a view of a lease that has been released passes
  them, and the copy then touches a freed block.
\<close>

lemma released_lease_passes_the_checks:
  assumes "can_copy (s, m, ls) queue l l'" and "\<not> is_device_lease l" "is_device_lease l'"
    and "Release l' s m = (True, s1, m1)"
  shows "EnqueueH2D (bl_host_view l) (bl_device_view l') queue s1 m1 = None"
proof -
  note facts = can_copy_facts [OF assms(1)]
  from assms(1) obtain a where a: "lease_ptr l' = Some a" "ds_allocations s (bl_allocation_id l') = Some a"
    unfolding can_copy_def by (auto elim: block_of_live)
  from assms(4) a(2) have s1: "s1 = s\<lparr>ds_allocations := (ds_allocations s)(bl_allocation_id l' := None)\<rparr>"
    and m1: "m1 = m(a := None)" by (auto simp: Release_def split: if_splits)
  have "queue \<in> ds_queues s" "fs_transfers (ds_features s)" "lease_bytes l \<le> lease_bytes l'"
    using assms(1) by (auto simp: can_copy_def)
  moreover note host_view_of_lease [OF assms(2), of "ds_session_id s"] device_view_of_lease [OF assms(3), of "ds_session_id s"]
  ultimately have "ValidateTransfer (hv_session_id (bl_host_view l)) (dv_session_id (bl_device_view l'))
      (hv_host_ptr (bl_host_view l)) (dv_device_ptr (bl_device_view l')) (hv_bytes (bl_host_view l))
      (dv_bytes (bl_device_view l')) queue s1"
    using facts by (auto simp: ValidateTransfer_def s1 word_less_nat_alt)
  moreover have "memcpy (dv_device_ptr (bl_device_view l')) p n m1 = None" for p n
    using device_view_of_lease [OF assms(3), of 0] a(1) by (auto simp: memcpy_def m1 split: option.split)
  ultimately show ?thesis by (simp add: EnqueueH2D_def)
qed

text \<open>The leases that a session issues have no data type, so \<open>IsValidLease\<close> rejects all of them.\<close>

lemma issued_leases_are_not_valid:
  "AllocateDevice bytes device_id a s m = (Allocated l, s', m') \<Longrightarrow> \<not> IsValidLease l"
  "AllocateHostVisible bytes a s m = (Allocated l, s', m') \<Longrightarrow> \<not> IsValidLease l"
  by (auto simp: AllocateDevice_def AllocateHostVisible_def IsValidLease_def IsValidDeviceView_def IsValidHostView_def
      IsKnownDataType_def default_lease_def default_device_view_def default_host_view_def Let_def
      split: if_splits option.splits)

end
