(* ===== verification/Json_View.thy ===== *)
theory Json_View
  imports Json_Values
begin

text \<open>
  Typed access to the fields of a configuration object (\<open>libgraph/src/graph/JsonView.cpp\<close>). A
  \<open>ConfigError\<close> is its message; \<open>Inl\<close> is the error of a \<open>std::expected\<close> and, for the optional getters,
  the exception that is thrown. The conversion of a number to \<open>float\<close> and \<open>std::isnan\<close> are the arguments
  \<open>as_float\<close> and \<open>isnan\<close>; \<open>get<int>\<close> keeps the low 32 bits of the 64 that a number has. The five optional
  getters follow one contract, the locale \<open>typed_field\<close>.
\<close>

section \<open>The view\<close>

fun type_name :: "'f json \<Rightarrow> string" where
  "type_name JNull = ''null''"
| "type_name (JBool _) = ''boolean''"
| "type_name (JInteger _) = ''number''"
| "type_name (JUnsigned _) = ''number''"
| "type_name (JFloat _) = ''number''"
| "type_name (JString _) = ''string''"
| "type_name (JArray _) = ''array''"
| "type_name (JObject _) = ''object''"

definition Contains :: "'f json \<Rightarrow> string \<Rightarrow> bool" where
  "Contains json key = (case member json key of None \<Rightarrow> False | Some v \<Rightarrow> v \<noteq> JNull)"

definition FormatError :: "string \<Rightarrow> string \<Rightarrow> string \<Rightarrow> string" where
  "FormatError key expect actual =
     ''Field '' @ CHR 0x27 # key @ CHR 0x27 # '' has wrong type: expected '' @ expect @ '', got '' @ actual"

definition MissingError :: "string \<Rightarrow> string \<Rightarrow> string" where
  "MissingError what key = ''Missing required '' @ what @ '': '' @ key"

definition TryGetString :: "'f json \<Rightarrow> string \<Rightarrow> string \<Rightarrow> (string, string) expected" where
  "TryGetString json key default_val =
     (if \<not> Contains json key then Inr default_val
      else case the (member json key) of
        JString s \<Rightarrow> Inr s
      | value \<Rightarrow> Inl (FormatError key ''string'' (type_name value)))"

definition TryGetFloat ::
    "('f json \<Rightarrow> 's) \<Rightarrow> ('s \<Rightarrow> bool) \<Rightarrow> 'f json \<Rightarrow> string \<Rightarrow> 's \<Rightarrow> ('s, string) expected" where
  "TryGetFloat as_float isnan json key default_val =
     (if \<not> Contains json key
      then if isnan default_val then Inl (MissingError ''field'' key) else Inr default_val
      else let value = the (member json key)
        in if \<not> is_number value then Inl (FormatError key ''number'' (type_name value)) else Inr (as_float value))"

fun get_int :: "'f json \<Rightarrow> 32 word" where
  "get_int (JInteger w) = ucast w"
| "get_int (JUnsigned w) = ucast w"
| "get_int _ = 0"

definition TryGetInt :: "'f json \<Rightarrow> string \<Rightarrow> 32 word \<Rightarrow> (32 word, string) expected" where
  "TryGetInt json key default_val =
     (if \<not> Contains json key
      then if default_val = - 1 then Inl (MissingError ''field'' key) else Inr default_val
      else let value = the (member json key)
        in if \<not> is_number_integer value then Inl (FormatError key ''integer'' (type_name value)) else Inr (get_int value))"

definition TryGetBool :: "'f json \<Rightarrow> string \<Rightarrow> bool \<Rightarrow> (bool, string) expected" where
  "TryGetBool json key default_val =
     (if \<not> Contains json key then Inr default_val
      else case the (member json key) of
        JBool b \<Rightarrow> Inr b
      | value \<Rightarrow> Inl (FormatError key ''boolean'' (type_name value)))"

definition TryGetObject :: "'f json \<Rightarrow> string \<Rightarrow> ('f json, string) expected" where
  "TryGetObject json key =
     (if \<not> Contains json key then Inl (MissingError ''object'' key)
      else let value = the (member json key)
        in if \<not> is_object value then Inl (FormatError key ''object'' (type_name value)) else Inr value)"

fun string_items :: "string \<Rightarrow> 'f json list \<Rightarrow> (string list, string) expected" where
  "string_items key [] = Inr []"
| "string_items key (item # items) =
     (case item of
        JString s \<Rightarrow> (case string_items key items of Inl e \<Rightarrow> Inl e | Inr ss \<Rightarrow> Inr (s # ss))
      | _ \<Rightarrow> Inl (''Array '' @ CHR 0x27 # key @ CHR 0x27 # '' contains non-string element''))"

definition TryGetStringArray :: "'f json \<Rightarrow> string \<Rightarrow> (string list, string) expected" where
  "TryGetStringArray json key =
     (if \<not> Contains json key then Inl (MissingError ''array'' key)
      else case the (member json key) of
        JArray items \<Rightarrow> string_items key items
      | value \<Rightarrow> Inl (FormatError key ''array'' (type_name value)))"

definition TryGetArray :: "'f json \<Rightarrow> string \<Rightarrow> ('f json list, string) expected" where
  "TryGetArray json key =
     (if \<not> Contains json key then Inl (MissingError ''array'' key)
      else case the (member json key) of
        JArray items \<Rightarrow> Inr items
      | value \<Rightarrow> Inl (FormatError key ''array'' (type_name value)))"

text \<open>What the five optional getters have in common: an error of the strict getter is thrown.\<close>

definition optional_field :: "('a, string) expected \<Rightarrow> 'f json \<Rightarrow> string \<Rightarrow> ('a option, string) expected" where
  "optional_field strict json key =
     (if \<not> Contains json key then Inr None
      else case strict of Inl e \<Rightarrow> Inl e | Inr v \<Rightarrow> Inr (Some v))"

definition GetOptionalString :: "'f json \<Rightarrow> string \<Rightarrow> (string option, string) expected" where
  "GetOptionalString json key = optional_field (TryGetString json key []) json key"

definition GetOptionalFloat ::
    "('f json \<Rightarrow> 's) \<Rightarrow> ('s \<Rightarrow> bool) \<Rightarrow> 's \<Rightarrow> 'f json \<Rightarrow> string \<Rightarrow> ('s option, string) expected" where
  "GetOptionalFloat as_float isnan quiet_NaN json key =
     optional_field (TryGetFloat as_float isnan json key quiet_NaN) json key"

definition GetOptionalInt :: "'f json \<Rightarrow> string \<Rightarrow> (32 word option, string) expected" where
  "GetOptionalInt json key = optional_field (TryGetInt json key (- 1)) json key"

definition GetOptionalBool :: "'f json \<Rightarrow> string \<Rightarrow> (bool option, string) expected" where
  "GetOptionalBool json key = optional_field (TryGetBool json key False) json key"

definition GetOptionalObject :: "'f json \<Rightarrow> string \<Rightarrow> ('f json option, string) expected" where
  "GetOptionalObject json key = optional_field (TryGetObject json key) json key"

section \<open>The contract of a typed field\<close>

text \<open>
  A field is present when the object has the key with a value other than null. A getter for a type
  reads a present value of the type and reports any other present value.
\<close>

definition present :: "'f json \<Rightarrow> string \<Rightarrow> 'f json \<Rightarrow> bool" where
  "present json key v \<longleftrightarrow> member json key = Some v \<and> v \<noteq> JNull"

lemma Contains_present: "Contains json key \<longleftrightarrow> (\<exists>v. present json key v)"
  by (simp add: Contains_def present_def split: option.split)

lemma presentD: "present json key v \<Longrightarrow> Contains json key \<and> the (member json key) = v"
  by (simp add: Contains_def present_def)

locale typed_field =
  fixes accepts :: "'f json \<Rightarrow> bool" and reads :: "'f json \<Rightarrow> 'a" and expect :: string
    and strict :: "'f json \<Rightarrow> string \<Rightarrow> ('a, string) expected"
    and optional :: "'f json \<Rightarrow> string \<Rightarrow> ('a option, string) expected"
  assumes strict_present: "present json key v \<Longrightarrow>
      strict json key = (if accepts v then Inr (reads v) else Inl (FormatError key expect (type_name v)))"
    and optional_strict: "optional json key = optional_field (strict json key) json key"
begin

lemma optional_reads:
  "optional json key = Inr (Some x) \<longleftrightarrow> (\<exists>v. present json key v \<and> accepts v \<and> x = reads v)"
proof (cases "Contains json key")
  case True
  then obtain v where v: "present json key v" by (auto simp: Contains_present)
  then have "present json key u \<longleftrightarrow> u = v" for u by (auto simp: present_def)
  with True show ?thesis by (auto simp: optional_strict optional_field_def strict_present [OF v])
qed (auto simp: optional_strict optional_field_def Contains_present)

lemma optional_missing: "optional json key = Inr None \<longleftrightarrow> \<not> Contains json key"
  by (auto simp: optional_strict optional_field_def split: sum.split)

lemma optional_throws:
  "optional json key = Inl e \<longleftrightarrow> (\<exists>v. present json key v \<and> \<not> accepts v \<and> e = FormatError key expect (type_name v))"
proof (cases "Contains json key")
  case True
  then obtain v where v: "present json key v" by (auto simp: Contains_present)
  then have "present json key u \<longleftrightarrow> u = v" for u by (auto simp: present_def)
  with True show ?thesis by (auto simp: optional_strict optional_field_def strict_present [OF v])
qed (auto simp: optional_strict optional_field_def Contains_present)

end

fun the_string :: "'f json \<Rightarrow> string" where
  "the_string (JString s) = s"
| "the_string _ = []"

fun the_bool :: "'f json \<Rightarrow> bool" where
  "the_bool (JBool b) = b"
| "the_bool _ = False"

interpretation string_field: typed_field is_string the_string "''string''" "\<lambda>j k. TryGetString j k []" GetOptionalString
proof
  fix json :: "'f json" and key v
  assume "present json key v"
  from presentD [OF this] show "TryGetString json key [] =
      (if is_string v then Inr (the_string v) else Inl (FormatError key ''string'' (type_name v)))"
    by (cases v) (simp_all add: TryGetString_def)
qed (simp add: GetOptionalString_def)

interpretation bool_field: typed_field is_boolean the_bool "''boolean''" "\<lambda>j k. TryGetBool j k False" GetOptionalBool
proof
  fix json :: "'f json" and key v
  assume "present json key v"
  from presentD [OF this] show "TryGetBool json key False =
      (if is_boolean v then Inr (the_bool v) else Inl (FormatError key ''boolean'' (type_name v)))"
    by (cases v) (simp_all add: TryGetBool_def)
qed (simp add: GetOptionalBool_def)

interpretation int_field: typed_field is_number_integer get_int "''integer''" "\<lambda>j k. TryGetInt j k (- 1)" GetOptionalInt
  by unfold_locales (auto simp: TryGetInt_def GetOptionalInt_def Let_def dest: presentD)

interpretation float_field: typed_field is_number as_float "''number''"
    "\<lambda>j k. TryGetFloat as_float isnan j k quiet_NaN" "GetOptionalFloat as_float isnan quiet_NaN"
  for as_float isnan quiet_NaN
  by unfold_locales (auto simp: TryGetFloat_def GetOptionalFloat_def Let_def dest: presentD)

interpretation object_field: typed_field is_object "\<lambda>v. v" "''object''" TryGetObject GetOptionalObject
  by unfold_locales (auto simp: TryGetObject_def GetOptionalObject_def Let_def dest: presentD)

section \<open>What the getters promise\<close>

text \<open>
  The optional getters throw for a field of the wrong type and for nothing else, with a message
  that names the field, the type that was expected and the one that was found.
\<close>

theorem optional_getters_throw_on_wrong_type:
  "(GetOptionalString json key = Inl e \<longleftrightarrow>
     (\<exists>v. present json key v \<and> \<not> is_string v \<and> e = FormatError key ''string'' (type_name v))) \<and>
   (GetOptionalFloat as_float isnan quiet_NaN json key = Inl e \<longleftrightarrow>
     (\<exists>v. present json key v \<and> \<not> is_number v \<and> e = FormatError key ''number'' (type_name v))) \<and>
   (GetOptionalInt json key = Inl e \<longleftrightarrow>
     (\<exists>v. present json key v \<and> \<not> is_number_integer v \<and> e = FormatError key ''integer'' (type_name v))) \<and>
   (GetOptionalBool json key = Inl e \<longleftrightarrow>
     (\<exists>v. present json key v \<and> \<not> is_boolean v \<and> e = FormatError key ''boolean'' (type_name v))) \<and>
   (GetOptionalObject json key = Inl e \<longleftrightarrow>
     (\<exists>v. present json key v \<and> \<not> is_object v \<and> e = FormatError key ''object'' (type_name v)))"
  by (intro conjI string_field.optional_throws float_field.optional_throws int_field.optional_throws
      bool_field.optional_throws object_field.optional_throws)

text \<open>An array of strings is returned exactly as the document has it; one other element refuses it.\<close>

lemma string_items_eq: "string_items key items = Inr ss \<longleftrightarrow> items = map JString ss"
proof
  show "string_items key items = Inr ss \<Longrightarrow> items = map JString ss"
    by (induction items arbitrary: ss) (auto split: json.splits sum.splits)
  show "items = map JString ss \<Longrightarrow> string_items key items = Inr ss"
    by (induction ss arbitrary: items) auto
qed

lemma string_array_is_exact:
  "TryGetStringArray json key = Inr ss \<longleftrightarrow> member json key = Some (JArray (map JString ss))"
  by (auto simp: TryGetStringArray_def Contains_def string_items_eq split: option.split json.split)

text \<open>An integer outside the range of \<open>int\<close> is read as another number.\<close>

lemma wide_integer_is_truncated: "TryGetInt (JObject [(''n'', JUnsigned 4294967297)]) ''n'' 0 = Inr 1"
  by (simp add: TryGetInt_def Contains_def)

end
