(* ===== verification/Completion_Aggregator.thy ===== *)
theory Completion_Aggregator
  imports Json_View Decimal
begin

text \<open>
  The sink that waits for the sensors of a graph (\<open>libgraph/include/graph/CompletionAggregatorNode.hpp\<close>).
  The five \<open>Consume\<close> overloads differ in their port only. A call gives the number of times that it
  calls \<open>OnComplete\<close> of the installed callback provider; whether one is installed is the argument \<open>has_provider\<close>.
\<close>

section \<open>The node\<close>

record 'm aggregator =
  ag_expected_sensor_count :: u64
  ag_received_completions :: u64
  ag_completion_signals :: "nat \<rightharpoonup> 'm"

definition CompletionAggregatorNode :: "'m aggregator" where
  "CompletionAggregatorNode =
     \<lparr>ag_expected_sensor_count = 0, ag_received_completions = 0, ag_completion_signals = Map.empty\<rparr>"

definition CheckForAllCompletions :: "bool \<Rightarrow> 'm aggregator \<Rightarrow> nat" where
  "CheckForAllCompletions has_provider g =
     (if 0 < ag_expected_sensor_count g \<and> ag_expected_sensor_count g \<le> ag_received_completions g
      then if has_provider then 1 else 0
      else 0)"

definition Consume :: "bool \<Rightarrow> nat \<Rightarrow> 'm \<Rightarrow> 'm aggregator \<Rightarrow> nat \<times> 'm aggregator" where
  "Consume has_provider port msg g =
     (let g' = g\<lparr>ag_completion_signals := (ag_completion_signals g)(port \<mapsto> msg),
                 ag_received_completions := ag_received_completions g + 1\<rparr>
      in (CheckForAllCompletions has_provider g', g'))"

definition SetExpectedSensors :: "u64 \<Rightarrow> 'm aggregator \<Rightarrow> 'm aggregator" where
  "SetExpectedSensors n g = (if n = 0 then g else g\<lparr>ag_expected_sensor_count := n\<rparr>)"

definition config_prefix :: string where
  "config_prefix = ''CompletionAggregatorNode configuration error: ''"

definition Configure :: "'f json \<Rightarrow> 'm aggregator \<Rightarrow> ('m aggregator, string) expected" where
  "Configure config_json g =
     (if Contains config_json ''expected_sensors''
      then case TryGetInt config_json ''expected_sensors'' (- 1) of
          Inl e \<Rightarrow> Inl (config_prefix @ e)
        | Inr expected_count \<Rightarrow>
            if sint expected_count \<le> 0
            then Inl (config_prefix @ ''expected_sensors must be > 0 (got '' @ int_to_string (sint expected_count) @ '')'')
            else Inr (SetExpectedSensors (scast expected_count) g)
      else Inr g)"

section \<open>When completion is signalled\<close>

fun consume_all :: "bool \<Rightarrow> (nat \<times> 'm) list \<Rightarrow> 'm aggregator \<Rightarrow> nat \<times> 'm aggregator" where
  "consume_all has_provider [] g = (0, g)"
| "consume_all has_provider ((port, msg) # signals) g =
     (let (n, g1) = Consume has_provider port msg g; (k, g2) = consume_all has_provider signals g1 in (n + k, g2))"

lemma consume_all_calls:
  assumes "unat (ag_received_completions g) + length signals < 2 ^ 64" and "0 < ag_expected_sensor_count g"
  shows "fst (consume_all True signals g) =
    (unat (ag_received_completions g) + length signals + 1 - unat (ag_expected_sensor_count g)) -
    (unat (ag_received_completions g) + 1 - unat (ag_expected_sensor_count g))"
  using assms
proof (induction signals arbitrary: g)
  case (Cons s signals)
  obtain port msg where s: "s = (port, msg)" by (cases s)
  define g1 where "g1 = snd (Consume True port msg g)"
  have r: "unat (ag_received_completions g1) = unat (ag_received_completions g) + 1"
    using Cons.prems(1) by (simp add: g1_def Consume_def Let_def unat_word_ariths)
  have e: "ag_expected_sensor_count g1 = ag_expected_sensor_count g"
    by (simp add: g1_def Consume_def Let_def)
  have n: "fst (Consume True port msg g) =
      (if unat (ag_expected_sensor_count g) \<le> unat (ag_received_completions g) + 1 then 1 else 0)"
    using Cons.prems(2) r e by (simp add: g1_def Consume_def CheckForAllCompletions_def Let_def word_le_nat_alt)
  have "fst (consume_all True signals g1) =
      (unat (ag_received_completions g1) + length signals + 1 - unat (ag_expected_sensor_count g)) -
      (unat (ag_received_completions g1) + 1 - unat (ag_expected_sensor_count g))"
    using Cons.IH [of g1] Cons.prems r e by simp
  then show ?case using n r by (simp add: s g1_def case_prod_unfold Let_def)
qed simp

lemma consume_all_signals:
  "ag_completion_signals (snd (consume_all p signals g)) = ag_completion_signals g ++ map_of (rev signals)"
  by (induction signals arbitrary: g) (auto simp: Consume_def case_prod_unfold Let_def map_add_def fun_eq_iff split: option.split)

text \<open>
  Completion is signalled by the signal that completes the expected number, and by every later
  one. A configured aggregator that expects \<open>n\<close> sensors has called \<open>OnComplete\<close> after \<open>k\<close> signals
  \<open>k + 1 - n\<close> times, truncated at zero, and keeps the last signal of every port.
\<close>

theorem completion_is_signalled_on_time:
  assumes "Configure config CompletionAggregatorNode = Inr g" and "Contains config ''expected_sensors''"
    and "length signals < 2 ^ 64"
  shows "fst (consume_all True signals g) = length signals + 1 - unat (ag_expected_sensor_count g) \<and>
    ag_completion_signals (snd (consume_all True signals g)) = map_of (rev signals)"
proof -
  obtain w where w: "0 < sint (w :: 32 word)" and g: "g = SetExpectedSensors (scast w) CompletionAggregatorNode"
    using assms(1, 2) by (auto simp: Configure_def not_le split: sum.splits if_splits)
  have "sint (scast w :: u64) = sint w" by (simp add: sint_up_scast is_up)
  then have pos: "(scast w :: u64) \<noteq> 0" using w by auto
  then have g': "ag_received_completions g = 0" "ag_completion_signals g = Map.empty" "0 < ag_expected_sensor_count g"
    by (simp_all add: g SetExpectedSensors_def CompletionAggregatorNode_def word_gt_0)
  then have "1 \<le> unat (ag_expected_sensor_count g)" by (simp add: word_less_nat_alt)
  with consume_all_calls [of g signals] consume_all_signals [of True signals g] g' assms(3) show ?thesis by simp
qed

theorem completion_is_signalled_on_time_witness:
  "fst (consume_all True [(0, ''a''), (3, ''b''), (0, ''c'')]
     (SetExpectedSensors 2 CompletionAggregatorNode)) = 2"
proof -
  let ?c = "JObject [(''expected_sensors'', JUnsigned 2)] :: unit json"
  have "Configure ?c (CompletionAggregatorNode :: string aggregator) = Inr (SetExpectedSensors 2 CompletionAggregatorNode)"
    by (simp add: Configure_def Contains_def TryGetInt_def)
  from completion_is_signalled_on_time [OF this, of "[(0, ''a''), (3, ''b''), (0, ''c'')]"]
  show ?thesis by (simp add: Contains_def SetExpectedSensors_def CompletionAggregatorNode_def)
qed

text \<open>
  Signals are counted and not sensors: two signals of one sensor complete an aggregator that expects
  two, though nothing was received from the second.
\<close>

lemma one_sensor_completes_two:
  "fst (consume_all True [(0, a), (0, b)] (SetExpectedSensors 2 CompletionAggregatorNode)) = 1 \<and>
   ag_completion_signals (snd (consume_all True [(0, a), (0, b)] (SetExpectedSensors 2 CompletionAggregatorNode))) 1 = None"
  by (simp add: Consume_def CheckForAllCompletions_def SetExpectedSensors_def CompletionAggregatorNode_def word_le_nat_alt)

lemma wide_count_is_truncated:
  "Configure (JObject [(''expected_sensors'', JUnsigned 4294967297)]) CompletionAggregatorNode =
     Inr (SetExpectedSensors 1 CompletionAggregatorNode)"
  by (simp add: Configure_def Contains_def TryGetInt_def)

end
