(* ===== verification/Capacity_Monitor.thy ===== *)
theory Capacity_Monitor
  imports Results
begin

text \<open>
  The background monitor of message pool capacities (\<open>libgraph/src/graph/AdaptiveCapacityMonitor.cpp\<close>).
  Floating-point numbers are of a type \<open>'d\<close> with the comparison \<open>lt\<close> as an argument; a stored callback is
  a value of \<open>'h\<close> or \<open>'a\<close>, \<open>None\<close> when it is empty, and calling the hit rate function of a pool is the
  argument \<open>hit_rate_of\<close>. The monitor thread and its clients interleave between the critical sections,
  each of which is one step.
\<close>

section \<open>The monitor\<close>

record 'd adaptive_config =
  ac_low_hit_rate_threshold :: 'd
  ac_high_hit_rate_threshold :: 'd
  ac_scale_up_factor :: 'd
  ac_scale_down_factor :: 'd
  ac_adjustment_interval :: int
  ac_enable_scale_down :: bool
  ac_max_capacity :: u64
  ac_min_capacity :: u64
  ac_enabled :: bool

record ('d, 't) adjustment_event =
  ae_pool_id :: u64
  ae_old_capacity :: u64
  ae_new_capacity :: u64
  ae_hit_rate :: 'd
  ae_timestamp :: 't

record ('h, 'a) pool_monitor =
  pm_hit_rate_fn :: "'h option"
  pm_adjust_fn :: "'a option"

datatype monitor_thread = No_Thread | Checking "u64 list" | Sleeping

record ('d, 't, 'h, 'a) capacity_monitor =
  am_config :: "'d adaptive_config"
  am_running :: bool
  am_thread :: monitor_thread
  am_registered_pools :: "(u64 \<times> ('h, 'a) pool_monitor) list"
  am_adjustment_history :: "('d, 't) adjustment_event list"

datatype monitor_error = Already_Running | Null_Function | Pool_Already_Registered | Pool_Not_Registered

definition AdaptiveCapacityMonitor :: "'d adaptive_config \<Rightarrow> ('d, 't, 'h, 'a) capacity_monitor" where
  "AdaptiveCapacityMonitor config = \<lparr>am_config = config, am_running = False, am_thread = No_Thread,
     am_registered_pools = [], am_adjustment_history = []\<rparr>"

definition Start :: "('d, 't, 'h, 'a) capacity_monitor \<Rightarrow> (('d, 't, 'h, 'a) capacity_monitor, monitor_error) expected" where
  "Start m = (if am_running m then Inl Already_Running else Inr (m\<lparr>am_running := True, am_thread := Sleeping\<rparr>))"

definition RegisterPool :: "u64 \<Rightarrow> 'h option \<Rightarrow> ('d, 't, 'h, 'a) capacity_monitor
    \<Rightarrow> (('d, 't, 'h, 'a) capacity_monitor, monitor_error) expected" where
  "RegisterPool pool_id monitor_fn m =
     (if monitor_fn = None then Inl Null_Function
      else if pool_id \<in> set (map fst (am_registered_pools m)) then Inl Pool_Already_Registered
      else Inr (m\<lparr>am_registered_pools := am_registered_pools m @ [(pool_id, \<lparr>pm_hit_rate_fn = monitor_fn, pm_adjust_fn = None\<rparr>)]\<rparr>))"

fun erase_first :: "u64 \<Rightarrow> (u64 \<times> 'p) list \<Rightarrow> (u64 \<times> 'p) list" where
  "erase_first pool_id [] = []"
| "erase_first pool_id (p # ps) = (if fst p = pool_id then ps else p # erase_first pool_id ps)"

definition UnregisterPool :: "u64 \<Rightarrow> ('d, 't, 'h, 'a) capacity_monitor \<Rightarrow> ('d, 't, 'h, 'a) capacity_monitor" where
  "UnregisterPool pool_id m = m\<lparr>am_registered_pools := erase_first pool_id (am_registered_pools m)\<rparr>"

fun set_adjust_fn :: "u64 \<Rightarrow> 'a option \<Rightarrow> (u64 \<times> ('h, 'a) pool_monitor) list \<Rightarrow> (u64 \<times> ('h, 'a) pool_monitor) list option" where
  "set_adjust_fn pool_id f [] = None"
| "set_adjust_fn pool_id f ((i, p) # ps) =
     (if i = pool_id then Some ((i, p\<lparr>pm_adjust_fn := f\<rparr>) # ps)
      else map_option ((#) (i, p)) (set_adjust_fn pool_id f ps))"

definition RegisterAdjustmentCallback :: "u64 \<Rightarrow> 'a option \<Rightarrow> ('d, 't, 'h, 'a) capacity_monitor
    \<Rightarrow> (('d, 't, 'h, 'a) capacity_monitor, monitor_error) expected" where
  "RegisterAdjustmentCallback pool_id adjust_fn m =
     (if adjust_fn = None then Inl Null_Function
      else case set_adjust_fn pool_id adjust_fn (am_registered_pools m) of
        None \<Rightarrow> Inl Pool_Not_Registered
      | Some pools \<Rightarrow> Inr (m\<lparr>am_registered_pools := pools\<rparr>))"

definition SetConfig :: "'d adaptive_config \<Rightarrow> ('d, 't, 'h, 'a) capacity_monitor \<Rightarrow> ('d, 't, 'h, 'a) capacity_monitor" where
  "SetConfig config m = m\<lparr>am_config := config\<rparr>"

definition ClearAdjustmentHistory :: "('d, 't, 'h, 'a) capacity_monitor \<Rightarrow> ('d, 't, 'h, 'a) capacity_monitor" where
  "ClearAdjustmentHistory m = m\<lparr>am_adjustment_history := []\<rparr>"

definition push_event :: "('d, 't) adjustment_event \<Rightarrow> ('d, 't) adjustment_event list \<Rightarrow> ('d, 't) adjustment_event list" where
  "push_event e hist = (let hist' = hist @ [e] in if 1000 < length hist' then tl hist' else hist')"

definition CheckAndAdjustPool :: "('d \<Rightarrow> 'd \<Rightarrow> bool) \<Rightarrow> ('h \<Rightarrow> 'd) \<Rightarrow> 't \<Rightarrow> u64 \<Rightarrow> ('d, 't, 'h, 'a) capacity_monitor
    \<Rightarrow> bool \<times> ('d, 't, 'h, 'a) capacity_monitor" where
  "CheckAndAdjustPool lt hit_rate_of now pool_id m =
     (case map_of (am_registered_pools m) pool_id of
        None \<Rightarrow> (False, m)
      | Some monitor \<Rightarrow>
          (case (pm_hit_rate_fn monitor, pm_adjust_fn monitor) of
             (Some rate, Some adjust) \<Rightarrow>
               let hit_rate = hit_rate_of rate; config = am_config m;
                   should_scale_up = lt hit_rate (ac_low_hit_rate_threshold config);
                   should_scale_down = ac_enable_scale_down config \<and> lt (ac_high_hit_rate_threshold config) hit_rate
               in if \<not> should_scale_up \<and> \<not> should_scale_down then (False, m)
                  else (True, m\<lparr>am_adjustment_history := push_event
                    \<lparr>ae_pool_id = pool_id, ae_old_capacity = 0, ae_new_capacity = 0, ae_hit_rate = hit_rate,
                     ae_timestamp = now\<rparr> (am_adjustment_history m)\<rparr>)
           | _ \<Rightarrow> (False, m)))"

text \<open>\<open>scale\<close> is the product with a factor, converted to \<open>size_t\<close>.\<close>

definition CalculateNewCapacity :: "('d \<Rightarrow> 'd \<Rightarrow> bool) \<Rightarrow> (u64 \<Rightarrow> 'd \<Rightarrow> u64) \<Rightarrow> 'd adaptive_config \<Rightarrow> u64 \<Rightarrow> 'd \<Rightarrow> u64" where
  "CalculateNewCapacity lt scale config current_capacity hit_rate =
     (if lt hit_rate (ac_low_hit_rate_threshold config)
      then min (scale current_capacity (ac_scale_up_factor config)) (ac_max_capacity config)
      else if ac_enable_scale_down config \<and> lt (ac_high_hit_rate_threshold config) hit_rate
      then max (scale current_capacity (ac_scale_down_factor config)) (ac_min_capacity config)
      else current_capacity)"

section \<open>All interleavings\<close>

text \<open>
  \<open>Start\<close> and \<open>Stop\<close> are called by one client. \<open>Stop\<close> clears the flag and waits for the thread, so it
  takes two steps; the thread is \<open>Sleeping\<close> whenever it is about to test the flag, and ends when it sees
  the flag at the start of a pass. A pass copies the identifiers of the pools under the lock and
  checks them one by one, each under the lock again.
\<close>

inductive monitor_step :: "('d \<Rightarrow> 'd \<Rightarrow> bool) \<Rightarrow> ('d, 't, 'h, 'a) capacity_monitor \<Rightarrow> ('d, 't, 'h, 'a) capacity_monitor \<Rightarrow> bool"
  for lt where
  start: "Start m = Inr m' \<Longrightarrow> am_thread m = No_Thread \<Longrightarrow> monitor_step lt m m'"
| stop: "monitor_step lt m (m\<lparr>am_running := False\<rparr>)"
| register: "RegisterPool i f m = Inr m' \<Longrightarrow> monitor_step lt m m'"
| unregister: "monitor_step lt m (UnregisterPool i m)"
| callback: "RegisterAdjustmentCallback i f m = Inr m' \<Longrightarrow> monitor_step lt m m'"
| configure: "monitor_step lt m (SetConfig c m)"
| clear: "monitor_step lt m (ClearAdjustmentHistory m)"
| pass_ends_thread: "am_thread m = Sleeping \<Longrightarrow> \<not> am_running m \<Longrightarrow> monitor_step lt m (m\<lparr>am_thread := No_Thread\<rparr>)"
| pass_begins: "am_thread m = Sleeping \<Longrightarrow> am_running m \<Longrightarrow> ac_enabled (am_config m) \<Longrightarrow>
    monitor_step lt m (m\<lparr>am_thread := Checking (map fst (am_registered_pools m))\<rparr>)"
| check_pool: "am_thread m = Checking (i # is) \<Longrightarrow>
    monitor_step lt m ((snd (CheckAndAdjustPool lt hit_rate_of now i m))\<lparr>am_thread := Checking is\<rparr>)"
| pass_done: "am_thread m = Checking [] \<Longrightarrow> monitor_step lt m (m\<lparr>am_thread := Sleeping\<rparr>)"

definition monitor_inv :: "('d, 't, 'h, 'a) capacity_monitor \<Rightarrow> bool" where
  "monitor_inv m \<longleftrightarrow> distinct (map fst (am_registered_pools m)) \<and>
     None \<notin> set (map (pm_hit_rate_fn \<circ> snd) (am_registered_pools m)) \<and>
     length (am_adjustment_history m) \<le> 1000 \<and>
     list_all (\<lambda>e. ae_old_capacity e = 0 \<and> ae_new_capacity e = 0) (am_adjustment_history m)"

lemma erase_first_subset: "set (erase_first i ps) \<subseteq> set ps"
  by (induction ps) auto

lemma erase_first_distinct: "distinct (map fst ps) \<Longrightarrow> distinct (map fst (erase_first i ps))"
  using erase_first_subset by (induction ps) fastforce+

lemma set_adjust_fn_keeps:
  "set_adjust_fn i f ps = Some qs \<Longrightarrow> map fst qs = map fst ps \<and> map (pm_hit_rate_fn \<circ> snd) qs = map (pm_hit_rate_fn \<circ> snd) ps"
  by (induction ps arbitrary: qs) (auto split: if_splits)

lemma push_event_length: "length hist \<le> 1000 \<Longrightarrow> length (push_event e hist) \<le> 1000"
  by (simp add: push_event_def Let_def)

lemma push_event_all: "list_all P hist \<Longrightarrow> P e \<Longrightarrow> list_all P (push_event e hist)"
  by (cases hist) (simp_all add: push_event_def Let_def)

lemma CheckAndAdjustPool_inv:
  "monitor_inv m \<Longrightarrow> monitor_inv (snd (CheckAndAdjustPool lt hit_rate_of now i m)\<lparr>am_thread := t\<rparr>)"
  by (auto simp: monitor_inv_def CheckAndAdjustPool_def Let_def push_event_length push_event_all split: option.split)

lemma monitor_step_inv:
  assumes "monitor_step lt m m'" and "monitor_inv m"
  shows "monitor_inv m'"
  using assms(1)
proof cases
  case (start)
  with assms(2) show ?thesis by (auto simp: monitor_inv_def Start_def split: if_splits)
next
  case (register i f)
  then have "f \<noteq> None" "i \<notin> set (map fst (am_registered_pools m))"
    "m' = m\<lparr>am_registered_pools := am_registered_pools m @ [(i, \<lparr>pm_hit_rate_fn = f, pm_adjust_fn = None\<rparr>)]\<rparr>"
    by (simp_all only: RegisterPool_def split: if_splits) simp_all
  with assms(2) show ?thesis by (cases f) (simp_all add: monitor_inv_def)
next
  case (unregister i)
  have "None \<notin> set (map (pm_hit_rate_fn \<circ> snd) (erase_first i (am_registered_pools m)))"
    using assms(2) erase_first_subset [of i "am_registered_pools m"] by (auto simp: monitor_inv_def)
  with unregister assms(2) show ?thesis by (simp add: monitor_inv_def UnregisterPool_def erase_first_distinct)
next
  case (callback i f)
  then obtain pools where "set_adjust_fn i f (am_registered_pools m) = Some pools" "m' = m\<lparr>am_registered_pools := pools\<rparr>"
    by (auto simp: RegisterAdjustmentCallback_def split: if_splits option.splits)
  with assms(2) set_adjust_fn_keeps [OF this(1)] show ?thesis by (simp add: monitor_inv_def del: set_map)
next
  case check_pool
  with assms(2) show ?thesis by (simp add: CheckAndAdjustPool_inv)
qed (use assms(2) in \<open>simp_all add: monitor_inv_def SetConfig_def ClearAdjustmentHistory_def\<close>)

text \<open>
  The tables stay bounded and consistent in every interleaving of the clients with the monitor
  thread: no pool is registered twice, every registered pool has a hit rate function and at most 1000
  events are kept. The capacities of every event are zero.
\<close>

lemma monitor_tables_are_consistent: "(monitor_step lt)\<^sup>*\<^sup>* (AdaptiveCapacityMonitor config) m \<Longrightarrow> monitor_inv m"
proof (induction rule: rtranclp_induct)
  case base
  show ?case by (simp add: monitor_inv_def AdaptiveCapacityMonitor_def)
qed (rule monitor_step_inv)

section \<open>Capacities\<close>

lemma scaled_capacity_bounds:
  "lt hit_rate (ac_low_hit_rate_threshold config) \<Longrightarrow>
     CalculateNewCapacity lt scale config n hit_rate \<le> ac_max_capacity config"
  "\<not> lt hit_rate (ac_low_hit_rate_threshold config) \<Longrightarrow> ac_enable_scale_down config \<Longrightarrow>
   lt (ac_high_hit_rate_threshold config) hit_rate \<Longrightarrow>
     ac_min_capacity config \<le> CalculateNewCapacity lt scale config n hit_rate"
  by (simp_all add: CalculateNewCapacity_def)

end
