(* ===== verification/Registries.thy ===== *)
theory Registries
  imports Results "HOL-Library.List_Lexorder" "HOL-Library.Char_ord"
begin

text \<open>
  Two registries of callables: the edge creators (\<open>libgraph/src/graph/EdgeRegistry.cpp\<close>) and the commands
  (\<open>libgraph/src/ui/CommandRegistry.cpp\<close>). The edge registry is an unordered map, here the list of its
  entries in the order of iteration; the command registry is an ordered map, a list sorted by name.
  A type index is a value of \<open>'t\<close>; a creator is a function on the graph \<open>'g\<close> that returns or throws.
\<close>

section \<open>Edge creators\<close>

record 't edge_key =
  ek_src_type :: 't
  ek_src_port :: u64
  ek_dst_type :: 't
  ek_dst_port :: u64

datatype edge_creation_error = NoCreatorRegistered | CreatorReturnedFalse | CreatorThrew | EdgeUnknown

datatype creator_outcome = Returned bool | Threw_Std | Threw_Other

type_synonym 'g edge_creator = "'g \<Rightarrow> u64 \<Rightarrow> u64 \<Rightarrow> u64 \<Rightarrow> 'g \<times> creator_outcome"

type_synonym ('t, 'g) edge_registry = "('t edge_key \<times> 'g edge_creator) list"

text \<open>\<open>None\<close> is the exception for a key that is registered already. A new entry may be iterated anywhere.\<close>

definition RegisterCreator :: "nat \<Rightarrow> 't edge_key \<Rightarrow> 'g edge_creator \<Rightarrow> ('t, 'g) edge_registry \<Rightarrow> ('t, 'g) edge_registry option" where
  "RegisterCreator place key creator registry =
     (if key \<in> set (map fst registry) then None
      else Some (take place registry @ (key, creator) # drop place registry))"

definition IsRegistered :: "('t, 'g) edge_registry \<Rightarrow> string \<Rightarrow> u64 \<Rightarrow> string \<Rightarrow> u64 \<Rightarrow> bool" where
  "IsRegistered registry src_node_type src_port_idx dst_node_type dst_port_idx \<longleftrightarrow> registry \<noteq> []"

fun try_creators :: "'g \<Rightarrow> u64 \<Rightarrow> u64 \<Rightarrow> u64 \<Rightarrow> ('t, 'g) edge_registry \<Rightarrow> bool \<Rightarrow> 'g \<times> (unit, edge_creation_error) expected" where
  "try_creators graph src dst buffer [] creator_found =
     (graph, Inl (if creator_found then CreatorReturnedFalse else NoCreatorRegistered))"
| "try_creators graph src dst buffer ((key, creator) # rest) creator_found =
     (case creator graph src dst buffer of
        (graph', Returned True) \<Rightarrow> (graph', Inr ())
      | (graph', Returned False) \<Rightarrow> try_creators graph' src dst buffer rest True
      | (graph', Threw_Std) \<Rightarrow> try_creators graph' src dst buffer rest True
      | (graph', Threw_Other) \<Rightarrow> (graph', Inl EdgeUnknown))"

definition CreateEdgeExpected :: "('t, 'g) edge_registry \<Rightarrow> 'g \<Rightarrow> string \<Rightarrow> u64 \<Rightarrow> string \<Rightarrow> u64 \<Rightarrow> u64 \<Rightarrow> u64 \<Rightarrow> u64
    \<Rightarrow> 'g \<times> (unit, edge_creation_error) expected" where
  "CreateEdgeExpected registry graph src_node_type src_port_idx dst_node_type dst_port_idx src_node_idx dst_node_idx buffer_size =
     try_creators graph src_node_idx dst_node_idx buffer_size registry False"

definition registry_Clear :: "('t, 'g) edge_registry \<Rightarrow> ('t, 'g) edge_registry" where
  "registry_Clear registry = []"

definition GetRegisteredCount :: "('t, 'g) edge_registry \<Rightarrow> nat" where
  "GetRegisteredCount registry = length registry"

lemma RegisterCreator_keys:
  "RegisterCreator place key creator registry = Some registry' \<Longrightarrow> distinct (map fst registry) \<Longrightarrow>
   distinct (map fst registry') \<and> set (map fst registry') = insert key (set (map fst registry)) \<and>
   GetRegisteredCount registry' = Suc (GetRegisteredCount registry)"
proof -
  assume r: "RegisterCreator place key creator registry = Some registry'" and d: "distinct (map fst registry)"
  from r have k: "key \<notin> set (map fst registry)" and e: "registry' = take place registry @ (key, creator) # drop place registry"
    by (simp_all add: RegisterCreator_def split: if_splits)
  have "mset (map fst registry') = add_mset key (mset (map fst (take place registry @ drop place registry)))"
    unfolding e by (simp del: append_take_drop_id)
  then have m: "mset (map fst registry') = mset (key # map fst registry)" by (simp only: append_take_drop_id mset.simps list.map)
  have "distinct (map fst registry')" using mset_eq_imp_distinct_iff [OF m] d k by simp
  moreover have "set (map fst registry') = insert key (set (map fst registry))" using mset_eq_setD [OF m] by simp
  moreover have "length registry' = Suc (length registry)" using mset_eq_length [OF m] by simp
  ultimately show ?thesis by (simp add: GetRegisteredCount_def)
qed

text \<open>
  The error says what happened when the creators leave a graph alone that they refuse: nothing was
  registered, or every creator refused or threw a standard exception.
\<close>

lemma try_creators_error:
  assumes "\<And>key c. (key, c) \<in> set registry \<Longrightarrow> c graph src dst buffer = (graph, Returned False) \<or> c graph src dst buffer = (graph, Threw_Std)"
  shows "try_creators graph src dst buffer registry found =
    (graph, Inl (if found \<or> registry \<noteq> [] then CreatorReturnedFalse else NoCreatorRegistered))"
  using assms
proof (induction registry arbitrary: found)
  case (Cons p registry)
  obtain key c where p: "p = (key, c)" by (cases p)
  have "try_creators graph src dst buffer registry True = (graph, Inl CreatorReturnedFalse)"
    using Cons.IH [of True] Cons.prems [OF list.set_intros(2)] by simp
  with Cons.prems [of key c] p show ?case by auto
qed simp

lemma throwing_creators_report_false: "snd (try_creators g s d n registry found) \<noteq> Inl CreatorThrew"
  by (induction g s d n registry found rule: try_creators.induct) (auto split: prod.split creator_outcome.split bool.split)

text \<open>
  The key of a request is not used: with one creator registered, every edge counts as registered and
  the creator is called for node types and ports that it was not registered for.
\<close>

lemma any_creator_serves_any_edge:
  assumes "RegisterCreator 0 \<lparr>ek_src_type = ''A'', ek_src_port = 0, ek_dst_type = ''B'', ek_dst_port = 0\<rparr>
      (\<lambda>g s d n. (Suc g, Returned True)) [] = Some registry"
  shows "IsRegistered registry ''C'' 7 ''D'' 9 \<and> CreateEdgeExpected registry 0 ''C'' 7 ''D'' 9 0 1 16 = (1, Inr ())"
  using assms by (auto simp: RegisterCreator_def IsRegistered_def CreateEdgeExpected_def)

section \<open>Commands\<close>

record shell_result =
  cr_success :: bool
  cr_message :: string

text \<open>A handler returns a result or throws a standard exception with a message.\<close>

type_synonym command_handler = "string list \<Rightarrow> (shell_result, string) expected"

record command_info =
  ci_name :: string
  ci_description :: string
  ci_usage :: string
  ci_handler :: command_handler

type_synonym command_registry = "(string \<times> command_info) list"

fun map_insert :: "string \<Rightarrow> 'v \<Rightarrow> (string \<times> 'v) list \<Rightarrow> (string \<times> 'v) list" where
  "map_insert k v [] = [(k, v)]"
| "map_insert k v ((l, w) # ms) =
     (if k < l then (k, v) # (l, w) # ms else if k = l then (k, v) # ms else (l, w) # map_insert k v ms)"

definition RegisterCommand :: "string \<Rightarrow> string \<Rightarrow> string \<Rightarrow> command_handler \<Rightarrow> command_registry \<Rightarrow> bool \<times> command_registry" where
  "RegisterCommand name description usage handler commands =
     (if map_of commands name \<noteq> None then (False, commands)
      else (True, map_insert name \<lparr>ci_name = name, ci_description = description, ci_usage = usage, ci_handler = handler\<rparr> commands))"

definition ExecuteCommand :: "string \<Rightarrow> string list \<Rightarrow> command_registry \<Rightarrow> shell_result" where
  "ExecuteCommand name args commands =
     (case map_of commands name of
        None \<Rightarrow> \<lparr>cr_success = False, cr_message = ''Command not found: '' @ name\<rparr>
      | Some info \<Rightarrow>
          (case ci_handler info (name # args) of
             Inl e \<Rightarrow> \<lparr>cr_success = False, cr_message = ''Command execution error: '' @ e\<rparr>
           | Inr r \<Rightarrow> r))"

definition GetAllCommands :: "command_registry \<Rightarrow> command_info list" where
  "GetAllCommands commands = map snd commands"

definition HasCommand :: "string \<Rightarrow> command_registry \<Rightarrow> bool" where
  "HasCommand name commands \<longleftrightarrow> map_of commands name \<noteq> None"

definition GetCommandInfo :: "string \<Rightarrow> command_registry \<Rightarrow> command_info option" where
  "GetCommandInfo name commands = map_of commands name"

definition commands_ok :: "command_registry \<Rightarrow> bool" where
  "commands_ok commands \<longleftrightarrow> sorted_wrt (<) (map fst commands) \<and> list_all (\<lambda>(n, i). ci_name i = n) commands"

lemma map_insert_keys: "set (map fst (map_insert k v ms)) = insert k (set (map fst ms))"
  by (induction k v ms rule: map_insert.induct) auto

lemma map_insert_sorted: "sorted_wrt (<) (map fst ms) \<Longrightarrow> sorted_wrt (<) (map fst (map_insert k v ms))"
proof (induction k v ms rule: map_insert.induct)
  case (2 k v l w ms)
  then show ?case using map_insert_keys [of k v ms] by (auto simp: order.strict_trans simp del: set_map)
qed simp

lemma map_insert_lookup: "sorted_wrt (<) (map fst ms) \<Longrightarrow> map_of (map_insert k v ms) = (map_of ms)(k \<mapsto> v)"
  by (induction k v ms rule: map_insert.induct) (auto simp: fun_eq_iff)

lemma map_insert_all: "list_all P ms \<Longrightarrow> P (k, v) \<Longrightarrow> list_all P (map_insert k v ms)"
  by (induction k v ms rule: map_insert.induct) auto

text \<open>
  The first registration of a name stays: it is the one that is executed, with the name as its first
  argument, whatever is registered later; commands are listed by name, each once.
\<close>

lemma RegisterCommand_ok: "commands_ok commands \<Longrightarrow> commands_ok (snd (RegisterCommand n d u h commands))"
  by (simp add: commands_ok_def RegisterCommand_def map_insert_sorted map_insert_all)

lemma first_registration_stays:
  assumes "commands_ok commands" and "\<not> HasCommand n commands"
    and "commands' = fold (\<lambda>(n, d, u, h) c. snd (RegisterCommand n d u h c)) later (snd (RegisterCommand n d u h commands))"
  shows "ExecuteCommand n args commands' =
    (case h (n # args) of Inl e \<Rightarrow> \<lparr>cr_success = False, cr_message = ''Command execution error: '' @ e\<rparr> | Inr r \<Rightarrow> r)"
proof -
  have "commands_ok c \<and> (\<exists>i. map_of c n = Some i \<and> ci_handler i = h) \<Longrightarrow>
      \<exists>i. map_of (fold (\<lambda>(n, d, u, h) c. snd (RegisterCommand n d u h c)) later c) n = Some i \<and> ci_handler i = h" for c
  proof (induction later arbitrary: c)
    case (Cons r later)
    obtain n' d' u' h' where r: "r = (n', d', u', h')" by (cases r)
    have "commands_ok (snd (RegisterCommand n' d' u' h' c)) \<and>
        (\<exists>i. map_of (snd (RegisterCommand n' d' u' h' c)) n = Some i \<and> ci_handler i = h)"
      using Cons.prems by (auto simp: RegisterCommand_ok) (auto simp: RegisterCommand_def map_insert_lookup commands_ok_def)
    from Cons.IH [OF this] show ?case by (simp add: r)
  qed simp
  moreover have "commands_ok (snd (RegisterCommand n d u h commands)) \<and>
      (\<exists>i. map_of (snd (RegisterCommand n d u h commands)) n = Some i \<and> ci_handler i = h)"
    using assms(1, 2) by (auto simp: RegisterCommand_ok)
      (auto simp: RegisterCommand_def map_insert_lookup commands_ok_def HasCommand_def)
  ultimately show ?thesis using assms(3) by (fastforce simp: ExecuteCommand_def)
qed

end
