(* ===== verification/Csv_Parser.thy ===== *)
theory Csv_Parser
  imports Numeric_Text
begin

text \<open>
  Sensor data from CSV text (\<open>libgraph/src/csv/CSVParser.cpp\<close>, \<open>libgraph/include/csv/CSVParser.hpp\<close>) and
  its injection (\<open>libgraph/src/csv/CSVDataInjectionManager.cpp\<close>). An index into a vector that is out of
  range is undefined behaviour: the definitions have the result \<open>None\<close> there. Column numbers are
  kept at their widths, an \<open>int\<close> for the timestamp column and \<open>size_t\<close> for the others. \<open>std::stod\<close> is the
  argument \<open>stod\<close> (value and number of characters read, \<open>None\<close> for an exception), \<open>to_float\<close> the
  conversion from \<open>double\<close> to \<open>float\<close>, and reading a file is the argument \<open>read_lines\<close>.
\<close>

section \<open>Lines and fields\<close>

fun skip_spaces :: "string \<Rightarrow> nat" where
  "skip_spaces [] = 0"
| "skip_spaces (c # cs) = (if is_space c then Suc (skip_spaces cs) else 0)"

text \<open>The iterators of \<open>Trim\<close> are positions; on an empty string the last one is before the beginning.\<close>

function trim_end :: "string \<Rightarrow> int \<Rightarrow> int \<Rightarrow> int" where
  "trim_end str start e = (if 0 < e - start \<and> is_space (str ! nat e) then trim_end str start (e - 1) else e)"
  by pat_completeness auto
termination by (relation "measure (\<lambda>(str, start, e). nat (e - start))") auto

declare trim_end.simps [simp del]

definition Trim :: "string \<Rightarrow> string" where
  "Trim str =
     (let start = skip_spaces str; e = trim_end str (int start) (int (length str) - 1)
      in take (nat (e + 1 - int start)) (drop start str))"

definition StringToDouble :: "(string \<Rightarrow> ('d \<times> nat) option) \<Rightarrow> string \<Rightarrow> 'd option" where
  "StringToDouble stod str =
     (if str = [] then None
      else case stod str of None \<Rightarrow> None | Some (x, i) \<Rightarrow> if i \<noteq> length str then None else Some x)"

definition StringToUInt64 :: "string \<Rightarrow> u64 option" where
  "StringToUInt64 str =
     (if str = [] then None
      else case stoull str of Inl _ \<Rightarrow> None | Inr (x, i) \<Rightarrow> if i \<noteq> length str then None else Some x)"

text \<open>\<open>std::getline(ss, value, ',')\<close> until it fails: nothing is read after a final separator.\<close>

function getlines :: "string \<Rightarrow> string list" where
  "getlines s =
     (if s = [] then []
      else takeWhile (\<lambda>c. c \<noteq> CHR '','') s # getlines (tl (dropWhile (\<lambda>c. c \<noteq> CHR '','') s)))"
  by pat_completeness auto
termination
proof (relation "measure length")
  fix s :: string
  assume "s \<noteq> []"
  have "length (dropWhile (\<lambda>c. c \<noteq> CHR '','') s) \<le> length s" by (rule length_dropWhile_le)
  moreover have "0 < length s" using \<open>s \<noteq> []\<close> by simp
  ultimately show "(tl (dropWhile (\<lambda>c. c \<noteq> CHR '','') s), s) \<in> measure length"
    unfolding in_measure length_tl by linarith
qed simp

declare getlines.simps [simp del]

definition SplitCSVLine :: "string \<Rightarrow> string list" where
  "SplitCSVLine line = map Trim (getlines line)"

text \<open>The header of a file: the column called \<open>timestamp_ns\<close> (the first one when there is none) and the columns with data.\<close>

record csv_header =
  hd_columns :: "string list"
  hd_timestamp_column :: nat
  hd_data_columns :: "nat list"
  hd_format :: string

definition timestamp_index :: "string list \<Rightarrow> nat" where
  "timestamp_index columns =
     (case find (\<lambda>i. columns ! i = ''timestamp_ns'') [0..<length columns] of None \<Rightarrow> 0 | Some i \<Rightarrow> i)"

definition ParseHeader :: "string \<Rightarrow> csv_header" where
  "ParseHeader header_line =
     (let columns = SplitCSVLine header_line; ts = timestamp_index columns
      in \<lparr>hd_columns = columns, hd_timestamp_column = ts,
          hd_data_columns = filter (\<lambda>i. i \<noteq> ts \<and> columns ! i \<noteq> ''data_type'') [0..<length columns],
          hd_format = ''unified''\<rparr>)"

definition DetectFormat :: "csv_header \<Rightarrow> string" where
  "DetectFormat header = (if ''data_type'' \<in> set (hd_columns header) then ''consolidated'' else ''unified'')"

section \<open>Rows\<close>

datatype parsing_error = PE_EmptyColumn | PE_InvalidNumber | PE_MissingRequiredColumns | PE_FileAccessError
  | PE_HeaderParseError | PE_ConfigurationError | PE_InsufficientColumns | PE_UnknownError

record csv_node_config =
  nc_node_name :: string
  nc_timestamp_column :: "32 word"
  nc_data_columns :: "u64 list"

definition column :: "string list \<Rightarrow> u64 \<Rightarrow> string option" where
  "column row i = (if unat i < length row then Some (row ! unat i) else None)"

abbreviation timestamp_position :: "csv_node_config \<Rightarrow> u64" where
  "timestamp_position config \<equiv> scast (nc_timestamp_column config)"

definition ValidateCSVRow :: "string list \<Rightarrow> csv_node_config \<Rightarrow> bool option" where
  "ValidateCSVRow row config =
     (let required_columns =
            (if nc_data_columns config = [] then timestamp_position config
             else max (timestamp_position config) (Max (set (nc_data_columns config))) + 1)
      in if length row < unat required_columns then Some False
         else case column row (timestamp_position config) of
           None \<Rightarrow> None
         | Some t \<Rightarrow>
             if t = [] then Some False
             else Some (\<exists>i \<in> set (nc_data_columns config). unat i < length row \<and> row ! unat i \<noteq> []))"

text \<open>The first component is the timestamp; the accuracies and the heading of a position are not in the files and are zero.\<close>

datatype ('d, 's) sensor_payload =
    AccelerometerData u64 's 's 's
  | GyroscopeData u64 's 's 's
  | MagnetometerData u64 's 's 's
  | BarometricData u64 's 's
  | GPSPositionData u64 'd 'd 'd 'd 'd 'd 'd u8 bool

text \<open>
  The checks that all parsers start with: the row is valid, the timestamp is a number, there are
  enough data columns. The continuation gets the timestamp.
\<close>

definition checked_row ::
    "nat \<Rightarrow> string list \<Rightarrow> csv_node_config \<Rightarrow> (u64 \<Rightarrow> ('a, parsing_error) expected option)
      \<Rightarrow> ('a, parsing_error) expected option" where
  "checked_row n row config k =
     (case ValidateCSVRow row config of
        None \<Rightarrow> None
      | Some False \<Rightarrow> Some (Inl PE_EmptyColumn)
      | Some True \<Rightarrow>
          (case column row (timestamp_position config) of
             None \<Rightarrow> None
           | Some t \<Rightarrow>
               (case StringToUInt64 t of
                  None \<Rightarrow> Some (Inl PE_InvalidNumber)
                | Some ts \<Rightarrow>
                    if length (nc_data_columns config) < n then Some (Inl PE_InsufficientColumns) else k ts)))"

text \<open>The fields of the first \<open>n\<close> data columns.\<close>

definition data_fields :: "nat \<Rightarrow> string list \<Rightarrow> csv_node_config \<Rightarrow> string list option" where
  "data_fields n row config =
     (let fields = map (column row) (take n (nc_data_columns config))
      in if None \<in> set fields then None else Some (map the fields))"

definition three_axes :: "(string \<Rightarrow> ('d \<times> nat) option) \<Rightarrow> ('d \<Rightarrow> 's) \<Rightarrow> (u64 \<Rightarrow> 's \<Rightarrow> 's \<Rightarrow> 's \<Rightarrow> ('d, 's) sensor_payload)
    \<Rightarrow> string list \<Rightarrow> csv_node_config \<Rightarrow> (('d, 's) sensor_payload, parsing_error) expected option" where
  "three_axes stod to_float payload row config = checked_row 3 row config (\<lambda>ts.
     case data_fields 3 row config of
       Some [x, y, z] \<Rightarrow>
         (case (StringToDouble stod x, StringToDouble stod y, StringToDouble stod z) of
            (Some a, Some b, Some c) \<Rightarrow> Some (Inr (payload ts (to_float a) (to_float b) (to_float c)))
          | _ \<Rightarrow> Some (Inl PE_InvalidNumber))
     | _ \<Rightarrow> None)"

definition ParseAccelerometerRowExpected where
  "ParseAccelerometerRowExpected stod to_float = three_axes stod to_float AccelerometerData"

definition ParseGyroscopeRowExpected where
  "ParseGyroscopeRowExpected stod to_float = three_axes stod to_float GyroscopeData"

definition ParseMagnetometerRowExpected where
  "ParseMagnetometerRowExpected stod to_float = three_axes stod to_float MagnetometerData"

definition ParseBarometricRowExpected :: "(string \<Rightarrow> ('d \<times> nat) option) \<Rightarrow> ('d \<Rightarrow> 's) \<Rightarrow> string list \<Rightarrow> csv_node_config
    \<Rightarrow> (('d, 's) sensor_payload, parsing_error) expected option" where
  "ParseBarometricRowExpected stod to_float row config = checked_row 2 row config (\<lambda>ts.
     case data_fields 2 row config of
       Some [p, t] \<Rightarrow>
         (case (StringToDouble stod p, StringToDouble stod t) of
            (Some a, Some b) \<Rightarrow> Some (Inr (BarometricData ts (to_float a) (to_float b)))
          | _ \<Rightarrow> Some (Inl PE_InvalidNumber))
     | _ \<Rightarrow> None)"

definition ParseGPSPositionRowExpected :: "(string \<Rightarrow> ('d :: zero \<times> nat) option) \<Rightarrow> string list \<Rightarrow> csv_node_config
    \<Rightarrow> (('d, 's) sensor_payload, parsing_error) expected option" where
  "ParseGPSPositionRowExpected stod row config = checked_row 6 row config (\<lambda>ts.
     case data_fields 6 row config of
       Some [lat, lon, alt, speed, valid, sats] \<Rightarrow>
         (case (StringToDouble stod lat, StringToDouble stod lon, StringToDouble stod alt, StringToDouble stod speed,
                StringToUInt64 valid, StringToUInt64 sats) of
            (Some a, Some b, Some c, Some d, Some v, Some n) \<Rightarrow>
              Some (Inr (GPSPositionData ts a b c 0 0 d 0 (ucast n) (v \<noteq> 0)))
          | _ \<Rightarrow> Some (Inl PE_InvalidNumber))
     | _ \<Rightarrow> None)"

definition ParseRowUnifiedExpected ::
    "string list \<Rightarrow> csv_node_config \<Rightarrow> (('d, 's) sensor_payload, parsing_error) expected option" where
  "ParseRowUnifiedExpected row config =
     (case ValidateCSVRow row config of
        None \<Rightarrow> None
      | Some False \<Rightarrow> Some (Inl PE_EmptyColumn)
      | Some True \<Rightarrow> Some (Inl PE_UnknownError))"

section \<open>Column mappings\<close>

text \<open>
  A mapping lists its fields in the order of the keys. A converter returns or throws: \<open>Some True\<close> for a
  \<open>std::exception\<close>, \<open>Some False\<close> for anything else.
\<close>

record 'v column_mapping =
  cm_field_to_column :: "(string \<times> nat) list"
  cm_converters :: "string \<rightharpoonup> (string \<Rightarrow> ('v, bool) expected)"

definition ConvertValue :: "'v column_mapping \<Rightarrow> string \<Rightarrow> string \<Rightarrow> ('v, parsing_error) expected" where
  "ConvertValue mapping field val =
     (if val = [] then Inl PE_EmptyColumn
      else case cm_converters mapping field of
        None \<Rightarrow> Inl PE_ConfigurationError
      | Some convert \<Rightarrow>
          (case convert val of
             Inr v \<Rightarrow> Inr v
           | Inl standard \<Rightarrow> Inl (if standard then PE_InvalidNumber else PE_UnknownError)))"

fun extract_fields :: "'v column_mapping \<Rightarrow> string list \<Rightarrow> (string \<times> nat) list \<Rightarrow> (string \<rightharpoonup> 'v)
    \<Rightarrow> (string \<rightharpoonup> 'v, parsing_error) expected" where
  "extract_fields mapping row [] extracted = Inr extracted"
| "extract_fields mapping row ((field, i) # rest) extracted =
     (if length row \<le> i then Inl PE_InsufficientColumns
      else case ConvertValue mapping field (row ! i) of
        Inl e \<Rightarrow> Inl e
      | Inr v \<Rightarrow> extract_fields mapping row rest (extracted(field \<mapsto> v)))"

text \<open>\<open>None\<close> is a \<open>std::exception\<close> that the builder throws.\<close>

definition ParseRowGeneric :: "string list \<Rightarrow> 'v column_mapping \<Rightarrow> ((string \<rightharpoonup> 'v) \<Rightarrow> ('t, parsing_error) expected option)
    \<Rightarrow> ('t, parsing_error) expected" where
  "ParseRowGeneric row mapping builder =
     (case extract_fields mapping row (cm_field_to_column mapping) Map.empty of
        Inl e \<Rightarrow> Inl e
      | Inr extracted \<Rightarrow> (case builder extracted of None \<Rightarrow> Inl PE_UnknownError | Some r \<Rightarrow> r))"

section \<open>Injection\<close>

record csv_manager =
  mg_csv_headers :: "csv_header list"
  mg_csv_data :: "string list list"
  mg_csv_format :: "string list"
  mg_csv_node_configs :: "(string \<times> csv_node_config) list"
  mg_current_row_index :: nat

definition CSVDataInjectionManager :: csv_manager where
  "CSVDataInjectionManager = \<lparr>mg_csv_headers = [], mg_csv_data = [], mg_csv_format = [], mg_csv_node_configs = [],
     mg_current_row_index = 1\<rparr>"

definition ReadCSVFile :: "(string \<Rightarrow> string list option) \<Rightarrow> string \<Rightarrow> string list" where
  "ReadCSVFile read_lines path = (case read_lines path of None \<Rightarrow> [] | Some lines \<Rightarrow> filter (\<lambda>l. l \<noteq> []) lines)"

definition ProcessCSVInputs :: "(string \<Rightarrow> string list option) \<Rightarrow> (string \<times> string) list \<Rightarrow> csv_manager \<Rightarrow> csv_manager" where
  "ProcessCSVInputs read_lines paths mgr =
     fold (\<lambda>(path, node_name) g.
        let lines = ReadCSVFile read_lines path in
        if lines = [] then g
        else let header = ParseHeader (hd lines) in
          g\<lparr>mg_csv_data := mg_csv_data g @ [lines], mg_csv_headers := mg_csv_headers g @ [header],
            mg_csv_format := mg_csv_format g @ [DetectFormat header]\<rparr>) paths mgr"

text \<open>
  The payloads that are handed to the queues, the result, and the manager; \<open>None\<close> is a read of a row
  that does not exist or of a column outside the row.
\<close>

fun inject_nodes :: "string list \<Rightarrow> (string \<times> csv_node_config) list \<Rightarrow> (string \<times> ('d, 's) sensor_payload) list option" where
  "inject_nodes row [] = Some []"
| "inject_nodes row ((name, config) # configs) =
     (case ParseRowUnifiedExpected row config of
        None \<Rightarrow> None
      | Some (Inl _) \<Rightarrow> inject_nodes row configs
      | Some (Inr payload) \<Rightarrow> map_option ((#) (name, payload)) (inject_nodes row configs))"

definition InjectRowToNodes :: "csv_manager \<Rightarrow> ((string \<times> ('d, 's) sensor_payload) list \<times> bool \<times> csv_manager) option" where
  "InjectRowToNodes mgr =
     (case mg_csv_data mgr of
        [] \<Rightarrow> None
      | lines # _ \<Rightarrow>
          if length lines \<le> mg_current_row_index mgr then None
          else case inject_nodes (SplitCSVLine (lines ! mg_current_row_index mgr)) (mg_csv_node_configs mgr) of
            None \<Rightarrow> None
          | Some sent \<Rightarrow>
              if length lines \<le> mg_current_row_index mgr + 1 then Some (sent, False, mgr)
              else Some (sent, True, mgr\<lparr>mg_current_row_index := mg_current_row_index mgr + 1\<rparr>))"

section \<open>Fields\<close>

lemma skip_spaces_eq: "skip_spaces s = length (takeWhile is_space s)"
  by (induction s) auto

text \<open>What is left of a string without its leading and trailing white space.\<close>

definition strip :: "string \<Rightarrow> string" where
  "strip s = rev (dropWhile is_space (rev (dropWhile is_space s)))"

lemma trim_end_eq:
  assumes "\<not> is_space (str ! start)" and "start + n < length str"
  shows "take (nat (trim_end str (int start) (int (start + n)) + 1 - int start)) (drop start str) =
    rev (dropWhile is_space (rev (take (Suc n) (drop start str))))"
  using assms(2)
proof (induction n)
  case 0
  then have "take (Suc 0) (drop start str) = [str ! start]" by (simp add: take_Suc_conv_app_nth)
  with assms(1) show ?case by (simp add: trim_end.simps)
next
  case (Suc n)
  have last: "take (Suc (Suc n)) (drop start str) = take (Suc n) (drop start str) @ [str ! (start + Suc n)]"
    using Suc.prems by (simp add: take_Suc_conv_app_nth)
  have at: "nat (int (start + Suc n)) = start + Suc n" by linarith
  show ?case
  proof (cases "is_space (str ! (start + Suc n))")
    case True
    then have "trim_end str (int start) (int (start + Suc n)) = trim_end str (int start) (int (start + n))"
      by (subst trim_end.simps) (simp add: at nat_int_add [symmetric] del: of_nat_Suc of_nat_add, simp add: algebra_simps)
    with Suc True show ?thesis by (simp add: last)
  next
    case False
    then have "trim_end str (int start) (int (start + Suc n)) = int (start + Suc n)"
      by (subst trim_end.simps) (simp add: at del: of_nat_Suc of_nat_add)
    moreover have "nat (int (start + Suc n) + 1 - int start) = Suc (Suc n)" by linarith
    ultimately show ?thesis using False by (simp add: last)
  qed
qed

lemma Trim_strip: "Trim s = strip s"
proof (cases "dropWhile is_space s")
  case Nil
  then have all: "takeWhile is_space s = s" by (simp add: dropWhile_eq_Nil_conv takeWhile_eq_all_conv)
  show ?thesis by (simp add: Trim_def strip_def Nil skip_spaces_eq all Let_def)
next
  case (Cons c cs)
  let ?k = "skip_spaces s"
  have drop: "drop ?k s = dropWhile is_space s" by (simp add: skip_spaces_eq dropWhile_eq_drop)
  have k: "?k < length s" using Cons drop by (metis drop_all linorder_not_less list.distinct(1))
  have "s ! ?k = c" using drop Cons k by (metis hd_drop_conv_nth list.sel(1))
  moreover have "\<not> is_space c" using Cons by (metis dropWhile_eq_Cons_conv)
  ultimately have "\<not> is_space (s ! ?k)" by simp
  moreover have n: "?k + (length s - 1 - ?k) = length s - 1" using k by simp
  moreover have "Suc (length s - 1 - ?k) = length (drop ?k s)" using k by simp
  ultimately show ?thesis
    using trim_end_eq [of s ?k "length s - 1 - ?k"] k
    by (simp add: Trim_def strip_def Let_def drop of_nat_diff)
qed

text \<open>A line with the given cells.\<close>

fun csv_line :: "string list \<Rightarrow> string" where
  "csv_line [] = []"
| "csv_line [f] = f"
| "csv_line (f # g # fs) = f @ CHR '','' # csv_line (g # fs)"

lemma getlines_field:
  "CHR '','' \<notin> set f \<Longrightarrow> f \<noteq> [] \<Longrightarrow> getlines f = [f]"
  "CHR '','' \<notin> set f \<Longrightarrow> getlines (f @ CHR '','' # rest) = f # getlines rest"
proof -
  assume f: "CHR '','' \<notin> set f"
  then have all: "\<forall>c \<in> set f. c \<noteq> CHR '',''" by auto
  show "getlines f = [f]" if "f \<noteq> []"
  proof -
    have "takeWhile (\<lambda>c. c \<noteq> CHR '','') f = f" and "dropWhile (\<lambda>c. c \<noteq> CHR '','') f = []"
      using all by (simp_all only: takeWhile_eq_all_conv dropWhile_eq_Nil_conv)
    then have "getlines f = f # getlines (tl [])"
      using that by (simp only: getlines.simps [of f] if_False simp_thms)
    then show ?thesis by (simp add: getlines.simps [of "[]"])
  qed
  show "getlines (f @ CHR '','' # rest) = f # getlines rest"
    using all by (simp add: getlines.simps [of "f @ CHR '','' # rest"])
qed

lemma getlines_csv_line:
  "fs \<noteq> [] \<Longrightarrow> list_all (\<lambda>f. CHR '','' \<notin> set f) fs \<Longrightarrow> last fs \<noteq> [] \<Longrightarrow> getlines (csv_line fs) = fs"
  by (induction fs rule: csv_line.induct) (auto simp: getlines_field)

text \<open>
  Cells are read back. Splitting a line of cells without commas, the last of which is not empty,
  gives the cells without their leading and trailing white space, empty ones included.
\<close>

theorem csv_cells_roundtrip:
  assumes "cells \<noteq> []" and "list_all (\<lambda>f. CHR '','' \<notin> set f) cells" and "last cells \<noteq> []"
  shows "SplitCSVLine (csv_line cells) = map strip cells"
  using getlines_csv_line [OF assms] Trim_strip by (simp add: SplitCSVLine_def)

theorem csv_cells_roundtrip_witness:
  "SplitCSVLine '' 12 ,, x'' = [''12'', [], ''x'']"
  using csv_cells_roundtrip [of "['' 12 '', [], '' x'']"] by (simp add: strip_def is_space_def)

text \<open>A final empty cell is lost.\<close>

lemma last_empty_cell_is_lost: "SplitCSVLine (csv_line [''1'', []]) = [''1'']"
  using getlines_field(2) [of "''1''" "[]"]
  by (simp add: SplitCSVLine_def getlines.simps [of "[]"] Trim_strip strip_def is_space_def)

section \<open>Rows are read within their bounds\<close>

lemma less_successor: "x \<noteq> - 1 \<Longrightarrow> x < x + 1" for x :: u64
  using inc_less_eq_self_iff_eq [of x] by (auto simp: not_le [symmetric])

lemma timestamp_position_bounded:
  assumes "w \<noteq> - 1"
  shows "(scast (w :: 32 word) :: u64) \<noteq> - 1"
proof
  assume "(scast w :: u64) = - 1"
  then have "sint (scast w :: u64) = - 1" by simp
  moreover have "sint (scast w :: u64) = sint w" by (simp add: sint_up_scast is_up)
  ultimately have "sint w = sint (- 1 :: 32 word)" by simp
  then have "w = - 1" by (rule signed_word_eqI)
  with assms show False by simp
qed

definition proper_columns :: "csv_node_config \<Rightarrow> bool" where
  "proper_columns config \<longleftrightarrow> nc_data_columns config \<noteq> [] \<and> nc_timestamp_column config \<noteq> - 1 \<and>
     list_all (\<lambda>i. i \<noteq> - 1) (nc_data_columns config)"

lemma proper_row:
  assumes "proper_columns config"
    and "unat (max (timestamp_position config) (Max (set (nc_data_columns config))) + 1) \<le> length row"
  shows "unat (timestamp_position config) < length row \<and> list_all (\<lambda>i. unat i < length row) (nc_data_columns config)"
proof -
  let ?m = "max (timestamp_position config) (Max (set (nc_data_columns config)))"
  have "Max (set (nc_data_columns config)) \<in> set (nc_data_columns config)"
    using assms(1) by (intro Max_in) (auto simp: proper_columns_def)
  then have "?m \<noteq> - 1"
    using assms(1) timestamp_position_bounded by (auto simp: proper_columns_def list_all_iff max_def)
  then have "unat ?m < unat (?m + 1)" using less_successor by (simp add: word_less_nat_alt)
  with assms(2) have m: "unat ?m < length row" by simp
  have "unat i < length row" if "i \<le> ?m" for i using that m by (simp add: word_le_nat_alt)
  then show ?thesis by (auto simp: list_all_iff le_max_iff_disj)
qed

lemma ValidateCSVRow_proper:
  assumes "proper_columns config"
  shows "\<exists>b. ValidateCSVRow row config = Some b \<and>
    (b \<longrightarrow> unat (timestamp_position config) < length row \<and> list_all (\<lambda>i. unat i < length row) (nc_data_columns config))"
  using proper_row [OF assms, of row] assms
  by (auto simp: ValidateCSVRow_def proper_columns_def column_def Let_def not_less)

lemma data_fields_proper:
  assumes "list_all (\<lambda>i. unat i < length row) (nc_data_columns config)" and "n \<le> length (nc_data_columns config)"
  shows "\<exists>fs. data_fields n row config = Some fs \<and> length fs = n"
proof -
  have "None \<notin> set (map (column row) (take n (nc_data_columns config)))"
    using assms(1) by (auto simp: list_all_iff column_def dest: in_set_takeD)
  with assms(2) show ?thesis by (simp add: data_fields_def Let_def)
qed

lemma checked_row_proper:
  assumes "proper_columns config"
    and "\<And>ts fs. data_fields n row config = Some fs \<Longrightarrow> length fs = n \<Longrightarrow> k ts \<noteq> None"
  shows "checked_row n row config k \<noteq> None"
proof -
  obtain b where b: "ValidateCSVRow row config = Some b"
    "b \<Longrightarrow> unat (timestamp_position config) < length row \<and> list_all (\<lambda>i. unat i < length row) (nc_data_columns config)"
    using ValidateCSVRow_proper [OF assms(1)] by blast
  show ?thesis
  proof (cases b)
    case True
    have "k ts \<noteq> None" if "n \<le> length (nc_data_columns config)" for ts
      using data_fields_proper [OF _ that, of row] b(2) [OF True] assms(2) by blast
    with True b show ?thesis by (auto simp: checked_row_def column_def not_less split: option.split)
  qed (use b in \<open>simp add: checked_row_def\<close>)
qed

lemma numeral_lengths:
  "length fs = 2 \<longleftrightarrow> (\<exists>a b. fs = [a, b])" "length fs = 3 \<longleftrightarrow> (\<exists>a b c. fs = [a, b, c])"
  "length fs = 6 \<longleftrightarrow> (\<exists>a b c d e f. fs = [a, b, c, d, e, f])"
  by (auto simp: numeral_eq_Suc length_Suc_conv)

text \<open>
  C39. Rows are read within their bounds. For a configuration with at least one data column, no data
  column equal to the largest \<open>size_t\<close>, and a timestamp column other than \<open>-1\<close>, no parser reads a
  column that a row does not have, whatever the row. Each of the three conditions is needed: the
  lemmas below read outside the row when one of them fails.
\<close>

theorem rows_are_read_in_bounds:
  assumes "proper_columns config"
  shows "ParseAccelerometerRowExpected stod to_float row config \<noteq> None \<and>
    ParseGyroscopeRowExpected stod to_float row config \<noteq> None \<and>
    ParseMagnetometerRowExpected stod to_float row config \<noteq> None \<and>
    ParseBarometricRowExpected stod to_float row config \<noteq> None \<and>
    ParseGPSPositionRowExpected stod row config \<noteq> None \<and> ParseRowUnifiedExpected row config \<noteq> None"
proof -
  have axes: "three_axes stod to_float payload row config \<noteq> None" for payload
    unfolding three_axes_def
    by (rule checked_row_proper [OF assms]) (auto simp: numeral_lengths split: option.split)
  have "ParseBarometricRowExpected stod to_float row config \<noteq> None"
    unfolding ParseBarometricRowExpected_def
    by (rule checked_row_proper [OF assms]) (auto simp: numeral_lengths split: option.split)
  moreover have "ParseGPSPositionRowExpected stod row config \<noteq> None"
    unfolding ParseGPSPositionRowExpected_def
    by (rule checked_row_proper [OF assms]) (auto simp: numeral_lengths split: option.split)
  moreover have "ParseRowUnifiedExpected row config \<noteq> None"
    using ValidateCSVRow_proper [OF assms, of row] by (auto simp: ParseRowUnifiedExpected_def split: bool.split)
  ultimately show ?thesis
    by (simp add: ParseAccelerometerRowExpected_def ParseGyroscopeRowExpected_def ParseMagnetometerRowExpected_def axes)
qed

theorem rows_are_read_in_bounds_witness:
  "ParseBarometricRowExpected (\<lambda>s. Some (0 :: int, length s)) id [''7'', ''1''] \<lparr>nc_node_name = ''baro'', nc_timestamp_column = 0,
      nc_data_columns = [1, 2]\<rparr> \<noteq> None"
proof -
  have "proper_columns \<lparr>nc_node_name = ''baro'', nc_timestamp_column = 0, nc_data_columns = [1, 2]\<rparr>"
    by (simp add: proper_columns_def)
  from rows_are_read_in_bounds [OF this, of "\<lambda>s. Some (0 :: int, length s)" id "[''7'', ''1'']"]
  show ?thesis by blast
qed

text \<open>
  The three kinds of configuration that the theorem excludes do read outside the row. Without data
  columns one column too few is required, and the timestamp column \<open>-1\<close> and the data column
  \<open>SIZE_MAX\<close> make the required number wrap to zero.
\<close>

lemma timestamp_alone_is_out_of_range:
  "ValidateCSVRow [''7''] \<lparr>nc_node_name = [], nc_timestamp_column = 1, nc_data_columns = []\<rparr> = None"
  by (simp add: ValidateCSVRow_def column_def Let_def)

lemma negative_timestamp_column_is_out_of_range:
  "ValidateCSVRow [''7''] \<lparr>nc_node_name = [], nc_timestamp_column = - 1, nc_data_columns = [0]\<rparr> = None"
proof -
  have "(scast (- 1 :: 32 word) :: u64) = - 1" by simp
  then show ?thesis by (simp add: ValidateCSVRow_def column_def Let_def max_def unsigned_minus_1_eq_mask mask_eq_exp_minus_1)
qed

lemma largest_data_column_is_out_of_range:
  "ValidateCSVRow [''7''] \<lparr>nc_node_name = [], nc_timestamp_column = 1, nc_data_columns = [- 1]\<rparr> = None"
  by (simp add: ValidateCSVRow_def column_def Let_def max_def)

text \<open>A timestamp below zero is accepted and becomes a huge one.\<close>

lemma negative_timestamp_is_accepted: "StringToUInt64 ''-1'' = Some (- 1)"
  by (simp add: StringToUInt64_def stoull_def Let_def read_digits_def is_space_def is_digit_def)

section \<open>Headers and injection\<close>

text \<open>The columns of a file without columns called \<open>data_type\<close>: the timestamp and, in order, the others.\<close>

lemma timestamp_index_bound: "columns \<noteq> [] \<Longrightarrow> timestamp_index columns < length columns"
  by (auto simp: timestamp_index_def find_Some_iff split: option.split)

lemma header_columns:
  "sorted (hd_data_columns (ParseHeader l)) \<and> distinct (hd_data_columns (ParseHeader l)) \<and>
   hd_timestamp_column (ParseHeader l) \<notin> set (hd_data_columns (ParseHeader l)) \<and>
   list_all (\<lambda>i. i < length (hd_columns (ParseHeader l))) (hd_data_columns (ParseHeader l))"
  by (auto simp: ParseHeader_def Let_def list_all_iff intro: sorted_filter [where f = id, simplified])

lemma header_is_complete:
  assumes "DetectFormat (ParseHeader l) = ''unified''" and "i < length (hd_columns (ParseHeader l))"
  shows "i = hd_timestamp_column (ParseHeader l) \<or> i \<in> set (hd_data_columns (ParseHeader l))"
  using assms by (auto simp: DetectFormat_def ParseHeader_def Let_def split: if_splits dest: nth_mem)

text \<open>
  The manager parses its rows with the parser that never succeeds: nothing is ever handed to a node.
  A file with a header alone has no row to inject, and the first call reads past the end.
\<close>

lemma inject_nodes_empty: "inject_nodes row configs = Some sent \<Longrightarrow> sent = []"
proof (induction configs)
  case (Cons c configs)
  then show ?case
    by (cases c) (auto simp: ParseRowUnifiedExpected_def split: option.splits bool.splits)
qed simp

lemma nothing_is_injected: "InjectRowToNodes mgr = Some (sent, again, mgr') \<Longrightarrow> sent = []"
  by (auto simp: InjectRowToNodes_def inject_nodes_empty split: list.splits option.splits if_splits)

lemma header_only_file_is_read_past_its_end:
  "InjectRowToNodes (ProcessCSVInputs (\<lambda>_. Some [''timestamp_ns'']) [(''a.csv'', ''n'')] CSVDataInjectionManager) = None"
  by (simp add: InjectRowToNodes_def ProcessCSVInputs_def ReadCSVFile_def CSVDataInjectionManager_def Let_def)

end
