(* ===== verification/Spec2Isabelle.thy ===== *)
theory Spec2Isabelle
  imports Queue_Monitor Edge_Control Graph_Executor Fhss_Config_State Fhss_Staged_Config
    Fhss_Merge_Node Fhss_Receiver Graph_Builder Runtime_Session Direct_Session
    Completion_Aggregator Capacity_Monitor Registries Csv_Parser
begin

text \<open>
  GraphX runs dataflow graphs: nodes, most of them loaded from plugins, exchange typed messages over
  edges with bounded queues, a graph manager owns nodes, edges and a thread pool, and an executor
  drives the manager through a lifecycle with policies hooked into every stage. A JSON document
  describes a graph; a builder turns it into a manager. A dashboard session rebuilds, starts and
  stops such graphs on behalf of HTTP clients. The DSP library on top contains a frequency-hopping
  (FHSS) receiver as a chain of nodes and the editor of its configuration. This development models
  these parts function by function, from the C++ sources under \<open>src/\<close>, and proves what each
  guarantees. Paths below are relative to \<open>src/libgraph\<close> unless they start with another library.

  \<^bold>\<open>Conventions.\<close> A class is a record, an enumeration or variant a datatype, a method a function that
  returns its result with the updated record. \<open>std::expected\<close> is a sum with the error on the left;
  an exception is a value of the result type (\<open>Throws\<close>, \<open>Inl\<close>, \<open>None\<close>; each theory says which).
  \<open>uint64_t\<close> and \<open>uint32_t\<close> are words and wrap; sizes of containers are naturals. A method that holds
  a mutex throughout is one definition; a method that blocks or releases the mutex is split there,
  and an \<open>inductive\<close> step relation interleaves the pieces of all threads. What the sources only call
  is an argument: plugin functions, node and policy implementations, \<open>json::parse\<close>, \<open>malloc\<close>, clocks,
  \<open>std::sort\<close>, the floating-point operations, the answers of a runtime owner. Laws about such arguments
  are locales, interpreted in the theory that provides an instance.

  \<^bold>\<open>Concurrency layer.\<close>
  \<^item> \<open>Prelude\<close>: types of the sources, condition variables, draining a container (the locales
    \<open>drainable\<close> and \<open>counting_drain\<close>), saturating addition, decimal text. \<open>Results\<close> sequences fallible
    steps. \<open>Decimal\<close> and \<open>Numeric_Text\<close> are \<open>std::to_string\<close>, \<open>std::stoi\<close> and \<open>std::stoull\<close>.
  \<^item> \<open>Active_Queue\<close> (\<open>include/core/ActiveQueue.hpp\<close>): every method of the blocking queue; FIFO over whole
    histories, stable sorted insertion, the largest capacity as bound. \<open>Queue_Monitor\<close> interleaves them over the two
    condition variables: no lost wake-up on either side and no deadlock.
  \<^item> \<open>Thread_Pool\<close> (\<open>src/graph/ThreadPool.cpp\<close>): submission, workers, stop and timed join over all
    interleavings; every accepted task is completed, failed, cancelled or in flight, and a join
    that returns has accounted for all of them.
  \<^item> \<open>Edge_Control\<close> (\<open>include/graph/EdgeControl.hpp\<close>): in-band control values and the completion of
    required inputs. \<open>Dynamic_Edge\<close> (\<open>PortFunction.hpp\<close>, \<open>RuntimePort.hpp\<close>, \<open>DynamicEdge.hpp\<close>): ports and
    the edge thread; messages arrive exactly once and in order. \<open>Message_Pool\<close> (\<open>MessagePool.hpp\<close>,
    \<open>PooledMessage.cpp\<close>): buffers over an explicit heap, each with one owner.

  \<^bold>\<open>Graph layer.\<close>
  \<^item> \<open>Node_Lifecycle\<close> (\<open>INode.hpp\<close>, \<open>Lifecycle.hpp\<close>): the interface of nodes and edges and the contract of
    timed joins (locale \<open>timed_join\<close>, interpreted by edges and the pool). \<open>Metrics_Sum\<close> and
    \<open>Graph_Manager\<close> (\<open>GraphManagerCore.hpp\<close>, \<open>GraphManagerShutdown.hpp\<close>): adding nodes and edges, Init,
    Start, Stop, Join, metrics, Clear; unique identifiers and aligned vectors over any run (up to the
    entries that Clear leaves behind), Stop reaches every component unless one throws, timed joins stay
    within the timeout. \<open>Errors\<close> has the error codes.
  \<^item> \<open>Policy_Chain\<close> (\<open>IExecutionPolicy.hpp\<close>, \<open>CompletionPolicy.hpp\<close>): the chain of policies and its
    rollback (locale \<open>stable_policies\<close>). \<open>Graph_Executor\<close> (\<open>src/graph/GraphExecutor.cpp\<close>): all operations of
    the executor over a table of manager operations (locale \<open>executor_env\<close>, interpreted by the modelled
    manager and completion policy); every call, by its name and outcome, is a
    transition of the documented lifecycle automaton, Execute returns, and a failed Init is undone.
  \<^item> \<open>Node_Providers\<close> (\<open>PluginRegistry.cpp\<close>, \<open>RegisteredNodeProvider.cpp\<close>, \<open>NodeResolutionRegistry.cpp\<close>,
    \<open>ResolvingNodeProvider.cpp\<close>): where node objects come from; the interface \<open>INodeProvider\<close> is the locale
    \<open>node_provider\<close>, which both providers interpret. \<open>Node_Facade\<close> (\<open>NodeFacade.cpp\<close>): the adapter around a
    plugin node; a handle is destroyed exactly once under moves and clean-ups.
  \<^item> \<open>Json_Values\<close> and \<open>Graph_Config\<close> (\<open>GraphConfig.hpp\<close>, \<open>GraphConfigParser.cpp\<close>): JSON values, the parser as
    the acceptance of a document type, the round trip of a configuration, validation.
    \<open>Graph_Loader\<close> (\<open>JsonDynamicGraphLoader.cpp\<close>) creates and configures the nodes, and \<open>Graph_Builder\<close>
    (\<open>GraphBuilder.cpp\<close>) composes parser, providers, loader, facades and manager: a built graph is the
    configured one, its edges at the ports given by index or by name.
  \<^item> \<open>Runtime_Session\<close> (\<open>src/dashboard/GraphRuntimeSession.cpp\<close>): the dashboard's state machine with its
    epochs; commands are split at the unlocked call of the owner and interleave freely. The
    setters of its state and manager, called from outside on sessions without owner, are no steps.

  \<^item> \<open>Json_View\<close> (\<open>src/graph/JsonView.cpp\<close>): typed access to configuration fields; the optional getters
    share one contract (locale \<open>typed_field\<close>) and throw for a field of the wrong type only.
    \<open>Completion_Aggregator\<close> (\<open>CompletionAggregatorNode.hpp\<close>): configuration through that view and when completion
    is signalled. \<open>Capacity_Monitor\<close> (\<open>AdaptiveCapacityMonitor.cpp\<close>): the monitor thread interleaved with its
    clients; its tables stay consistent and bounded. \<open>Registries\<close> (\<open>EdgeRegistry.cpp\<close>, \<open>src/ui/CommandRegistry.cpp\<close>):
    edge creators under any order of iteration, commands sorted by name.
  \<^item> \<open>Csv_Parser\<close> (\<open>src/csv/CSVParser.cpp\<close>, \<open>CSVDataInjectionManager.cpp\<close>): lines, headers and sensor rows; rows are
    read within their bounds for every proper configuration, and the three kinds of configuration for
    which they are not.

  \<^bold>\<open>Accelerator sessions (\<open>libgpu\<close>, \<open>libaccelgraph\<close>).\<close>
  \<^item> \<open>Accel_Registry\<close> (\<open>AcceleratorSession.hpp\<close>, \<open>libaccelgraph/src/AcceleratorSessionRegistry.cpp\<close>): descriptors,
    requests, their JSON forms and round trips, registration and resolution; the least matching
    session is chosen and the order of registration does not matter.
  \<^item> \<open>Direct_Session\<close> (\<open>libgpu/src/gpu/AcceleratorSessionProviders.cpp\<close>, \<open>AccelTypes.hpp\<close>,
    \<open>AccelValidation.hpp\<close>): the host-memory session over an explicit memory; live leases own disjoint
    blocks, a lease is released once, and staging through device buffers returns the original bytes.

  \<^bold>\<open>FHSS receiver (\<open>libdsp\<close>).\<close>
  \<^item> \<open>Fhss_Doubles\<close> collects the floating-point operations; only the theorems that need arithmetic assume
    the laws of the locale \<open>ieee_doubles\<close>, which exact arithmetic interprets. \<open>Fhss_Protocol\<close>
    (\<open>FHSSProtocol.hpp\<close>): constants and validation. \<open>Fhss_Merge\<close> (\<open>FHSSPulseMerge.hpp\<close>): exact sample
    arithmetic and the merge of detections, each accepted or rejected for a stated reason (locale
    \<open>std_sort\<close>). \<open>Fhss_Viterbi\<close> (\<open>FHSSCpsmDecoder.hpp\<close>): the
    search returns a least-metric path (locale \<open>viterbi_trellis\<close>). \<open>Fhss_Word\<close>, \<open>Fhss_Assembly\<close>
    (\<open>FHSSPulseWordDecoder.hpp\<close>, \<open>FHSSMessageAssembly.hpp\<close>): bits, words and messages.
  \<^item> \<open>Fhss_Packets\<close> (\<open>FHSSPackets.hpp\<close>, \<open>FHSSPacketConversions.hpp\<close>), \<open>Fhss_Merge_Node\<close>
    (\<open>FHSSPulseMergeNode.hpp\<close>) and \<open>Fhss_Receiver\<close> (the decoding nodes): the kernels as nodes on edges; the
    barrier over the channels opens once with the merge of everything received, and the chain of
    nodes equals decoding each candidate on its own.
  \<^item> \<open>Fhss_Config\<close>, \<open>Fhss_Config_State\<close> (\<open>libdsp/src/configuration\<close>): derivation, cross-node checks and the
    editor with undo and redo, every operation of which acts on a bounded zipper as specified; commits and patches are atomic.
    \<open>Fhss_Staged_Config\<close> (\<open>libdsp/src/dsp/fhss/ConfigurationStateMachine.cpp\<close>): the second editor and where
    it departs from its description.

  \<^bold>\<open>Termination and fuel.\<close> No definition uses fuel. Loops over data are structural recursions; the drain
  loop terminates because its container shrinks. Calls that the code may block in for ever (a join of a
  thread that does not end, a run that nobody stops) have the result \<open>None\<close>, and the liveness theorems
  show when the result is not \<open>None\<close>.

  \<^bold>\<open>Not modelled.\<close> HTTP servers, command-line tools and consoles (socket and text output); loading of
  shared libraries and the plugin templates (the dynamic linker and compile-time reflection); typed
  node shapes (template computation of the types of a node, whose run-time ports are those of
  \<open>Dynamic_Edge\<close>); signal generation, channelizers, spectra and the sensor library (floating-point
  kernels whose results have no exact specification); the CUDA, Metal and CPU providers and kernels
  (vendor interfaces); examples, tests and scripts. Memory orders weaker than sequential consistency are not
  modelled: atomics are read and written in program order.
\<close>

end
